(* ===== verification/Prelude.thy ===== *)
theory Prelude
  imports Main "HOL-Library.Sublist" "HOL-Library.Word"
begin

text \<open>
  The vocabulary every component of the development shares: strings and numbers as JavaScript
  has them, JavaScript values, and the monad the effectful handlers are written in.

  A JavaScript string is a \<open>string\<close> whose characters are the code units 0 to 255.  A fixed
  sentence of the program that holds a character beyond them (a typographic quote, a dash) is
  written with that character's UTF-8 bytes; no operation looks inside such a sentence.
  Numbers that are counts, identifiers or milliseconds are \<open>int\<close> or \<open>nat\<close>.
\<close>

named_theorems js_string_simps
named_theorems io_simps

section \<open>Characters and strings\<close>

definition char_code :: "char \<Rightarrow> nat" where
  "char_code c = of_char c"

definition js_space :: "char \<Rightarrow> bool" where
  "js_space c \<longleftrightarrow> (9 \<le> char_code c \<and> char_code c \<le> 13) \<or> char_code c = 32 \<or> char_code c = 160"

definition js_trim :: "string \<Rightarrow> string" where
  "js_trim s = rev (dropWhile js_space (rev (dropWhile js_space s)))"

definition upper_code :: "nat \<Rightarrow> bool" where
  "upper_code n \<longleftrightarrow> (65 \<le> n \<and> n \<le> 90) \<or> (192 \<le> n \<and> n \<le> 222 \<and> n \<noteq> 215)"

definition lower_char :: "char \<Rightarrow> char" where
  "lower_char c = (if upper_code (char_code c) then char_of (char_code c + 32) else c)"

definition js_lower :: "string \<Rightarrow> string" where
  "js_lower s = map lower_char s"

fun str_includes :: "string \<Rightarrow> string \<Rightarrow> bool" where
  "str_includes [] n = (n = [])"
| "str_includes (c # h) n = (prefix n (c # h) \<or> str_includes h n)"

fun split_when :: "(char \<Rightarrow> bool) \<Rightarrow> string \<Rightarrow> string list" where
  "split_when p [] = [[]]"
| "split_when p (c # cs) =
     (if p c then [] # split_when p cs
      else (case split_when p cs of [] \<Rightarrow> [[c]] | w # ws \<Rightarrow> (c # w) # ws))"

abbreviation split_on :: "char \<Rightarrow> string \<Rightarrow> string list" where
  "split_on d \<equiv> split_when (\<lambda>c. c = d)"

fun join_with :: "string \<Rightarrow> string list \<Rightarrow> string" where
  "join_with sep [] = []"
| "join_with sep [w] = w"
| "join_with sep (w # ws) = w @ sep @ join_with sep ws"

text \<open>\<open>text.replace(old, new)\<close> with a string pattern: the first occurrence only.\<close>

fun replace_first :: "string \<Rightarrow> string \<Rightarrow> string \<Rightarrow> string" where
  "replace_first old new [] = (if old = [] then new else [])"
| "replace_first old new (c # cs) =
     (if prefix old (c # cs) then new @ drop (length old) (c # cs)
      else c # replace_first old new cs)"

text \<open>\<open>text.split("::")\<close>: the pieces between the non-overlapping occurrences, from the left.\<close>

fun split_double_colon :: "string \<Rightarrow> string list" where
  "split_double_colon (a # b # cs) =
     (if a = CHR '':'' \<and> b = CHR '':'' then [] # split_double_colon cs
      else (case split_double_colon (b # cs) of [] \<Rightarrow> [[a]] | w # ws \<Rightarrow> (a # w) # ws))"
| "split_double_colon cs = [cs]"

subsection \<open>Numbers to and from text\<close>

definition digit_char :: "nat \<Rightarrow> char" where
  "digit_char d = char_of (48 + d)"

fun show_nat :: "nat \<Rightarrow> string" where
  "show_nat n = (if n < 10 then [digit_char n] else show_nat (n div 10) @ [digit_char (n mod 10)])"

declare show_nat.simps [simp del]

definition show_int :: "int \<Rightarrow> string" where
  "show_int i = (if i < 0 then ''-'' @ show_nat (nat (- i)) else show_nat (nat i))"

definition digit_value :: "char \<Rightarrow> nat option" where
  "digit_value c =
     (let n = char_code c in
      if 48 \<le> n \<and> n \<le> 57 then Some (n - 48)
      else if 97 \<le> n \<and> n \<le> 122 then Some (n - 87)
      else if 65 \<le> n \<and> n \<le> 90 then Some (n - 55)
      else None)"

text \<open>
  \<open>Number.parseInt(text, radix)\<close>: leading white space and a sign are skipped, \<open>0x\<close> is skipped
  under radix 16, then the longest run of digits is read; no digit at all is \<open>NaN\<close>, here
  \<open>None\<close>.
\<close>

fun parse_digits :: "nat \<Rightarrow> nat option \<Rightarrow> string \<Rightarrow> nat option" where
  "parse_digits r acc [] = acc"
| "parse_digits r acc (c # cs) =
     (case digit_value c of
        None \<Rightarrow> acc
      | Some d \<Rightarrow>
          if d < r
          then parse_digits r (Some (r * (case acc of None \<Rightarrow> 0 | Some a \<Rightarrow> a) + d)) cs
          else acc)"

definition strip_hex :: "nat \<Rightarrow> string \<Rightarrow> string" where
  "strip_hex r t =
     (if r = 16 \<and> (prefix ''0x'' t \<or> prefix ''0X'' t) then drop 2 t else t)"

definition parse_int :: "nat \<Rightarrow> string \<Rightarrow> int option" where
  "parse_int r s =
     (case dropWhile js_space s of
        [] \<Rightarrow> None
      | c # cs \<Rightarrow>
          if c = CHR ''-'' then map_option (\<lambda>n. - int n) (parse_digits r None (strip_hex r cs))
          else if c = CHR ''+'' then map_option int (parse_digits r None (strip_hex r cs))
          else map_option int (parse_digits r None (strip_hex r (c # cs))))"

text \<open>\<open>x >> n\<close> and \<open>x & m\<close>: a number is first reduced to a signed 32-bit integer.\<close>

definition to_int32 :: "int \<Rightarrow> 32 word" where
  "to_int32 x = word_of_int x"

definition js_shr :: "int \<Rightarrow> nat \<Rightarrow> int" where
  "js_shr x n = sint (signed_drop_bit n (to_int32 x))"

definition js_and :: "int \<Rightarrow> int \<Rightarrow> int" where
  "js_and x m = sint (and (to_int32 x) (to_int32 m))"

section \<open>JavaScript values\<close>

text \<open>
  What a JSON body, an audit payload or the answer of an expression may be.  An object keeps its
  entries in order; \<open>JUndef\<close> is a present field whose value is \<open>undefined\<close>.
\<close>

datatype jsv =
    JUndef
  | JNull
  | JBool bool
  | JNum int
  | JStr string
  | JArr "jsv list"
  | JObj "(string \<times> jsv) list"

definition js_field :: "jsv \<Rightarrow> string \<Rightarrow> jsv option" where
  "js_field v k = (case v of JObj kvs \<Rightarrow> map_of kvs k | _ \<Rightarrow> None)"

definition js_string_field :: "jsv \<Rightarrow> string \<Rightarrow> string option" where
  "js_string_field v k = (case js_field v k of Some (JStr s) \<Rightarrow> Some s | _ \<Rightarrow> None)"

text \<open>\<open>typeof v\<close>, with \<open>null\<close> named apart as the program's messages do.\<close>

fun js_typeof :: "jsv \<Rightarrow> string" where
  "js_typeof JUndef = ''undefined''"
| "js_typeof JNull = ''null''"
| "js_typeof (JBool b) = ''boolean''"
| "js_typeof (JNum n) = ''number''"
| "js_typeof (JStr s) = ''string''"
| "js_typeof (JArr vs) = ''object''"
| "js_typeof (JObj kvs) = ''object''"

text \<open>A string in a condition: absent and empty are both false.\<close>

definition truthy :: "string option \<Rightarrow> bool" where
  "truthy s \<longleftrightarrow> (case s of None \<Rightarrow> False | Some t \<Rightarrow> t \<noteq> [])"

text \<open>\<open>...(cond ? { key: value } : {})\<close>: an entry that is there only under a condition.\<close>

definition opt_entry :: "string \<Rightarrow> string option \<Rightarrow> (string \<times> jsv) list" where
  "opt_entry k v = (if truthy v then [(k, JStr (the v))] else [])"

lemma truthy_simps [simp]:
  "truthy None = False" "truthy (Some t) = (t \<noteq> [])"
  by (simp_all add: truthy_def)

lemma truthyE: "truthy v \<Longrightarrow> \<exists>t. v = Some t \<and> t \<noteq> []"
  by (cases v) auto

text \<open>\<^verbatim>\<open>JSON.stringify(text)\<close>.\<close>

definition hex_digit :: "nat \<Rightarrow> char" where
  "hex_digit d = (if d < 10 then char_of (48 + d) else char_of (87 + d))"

definition json_escape :: "char \<Rightarrow> string" where
  "json_escape c =
     (let n = char_code c in
      if n = 0x22 \<or> n = 0x5C then [CHR 0x5C, c]
      else if n = 8 then [CHR 0x5C, CHR ''b'']
      else if n = 9 then [CHR 0x5C, CHR ''t'']
      else if n = 10 then [CHR 0x5C, CHR ''n'']
      else if n = 12 then [CHR 0x5C, CHR ''f'']
      else if n = 13 then [CHR 0x5C, CHR ''r'']
      else if n < 32 then [CHR 0x5C, CHR ''u'', CHR ''0'', CHR ''0'', hex_digit (n div 16), hex_digit (n mod 16)]
      else [c])"

definition json_quote :: "string \<Rightarrow> string" where
  "json_quote s = [CHR 0x22] @ concat (map json_escape s) @ [CHR 0x22]"

section \<open>Facts about lists\<close>

lemma list_all2_map_eq: "list_all2 (\<lambda>v w. f v = g w) vs ws \<Longrightarrow> map f vs = map g ws"
  by (induction rule: list_all2_induct) simp_all

section \<open>Facts about text\<close>

lemma char_code_inj: "char_code c = char_code d \<longleftrightarrow> c = d"
  by (simp add: char_code_def)

lemma char_code_char_of [simp]: "n < 256 \<Longrightarrow> char_code (char_of n) = n"
  by (simp add: char_code_def of_char_mod_256)

lemma char_code_less [simp]: "char_code c < 256"
  by (simp add: char_code_def)

lemma js_trim_Nil [simp]: "js_trim [] = []"
  by (simp add: js_trim_def)

lemma dropWhile_rev_dropWhile:
  "dropWhile p xs = [] \<or> (\<exists>y. xs = y # tl xs \<and> \<not> p y) \<Longrightarrow>
   dropWhile p (rev (dropWhile p (rev xs))) = rev (dropWhile p (rev xs))"
proof -
  assume *: "dropWhile p xs = [] \<or> (\<exists>y. xs = y # tl xs \<and> \<not> p y)"
  show ?thesis
  proof (cases xs)
    case Nil
    then show ?thesis by simp
  next
    case (Cons y ys)
    show ?thesis
    proof (cases "p y")
      case True
      with * Cons have "\<forall>x \<in> set xs. p x" by (auto simp: dropWhile_eq_Nil_conv)
      then have "dropWhile p (rev xs) = []" by (simp add: dropWhile_eq_Nil_conv)
      show ?thesis unfolding \<open>dropWhile p (rev xs) = []\<close> by simp
    next
      case False
      then have "dropWhile p (rev ys @ [y]) = dropWhile p (rev ys) @ [y]"
        by (simp add: dropWhile_append3)
      with Cons False show ?thesis by simp
    qed
  qed
qed

lemma dropWhile_head:
  "dropWhile p xs = [] \<or> (\<exists>y. dropWhile p xs = y # tl (dropWhile p xs) \<and> \<not> p y)"
  by (induction xs) auto

lemma js_trim_idem [simp]: "js_trim (js_trim s) = js_trim s"
proof -
  let ?d = "dropWhile js_space s"
  have "dropWhile js_space ?d = [] \<or> (\<exists>y. ?d = y # tl ?d \<and> \<not> js_space y)"
    using dropWhile_head [of js_space s] by auto
  from dropWhile_rev_dropWhile [OF this]
  have "dropWhile js_space (js_trim s) = js_trim s" by (simp add: js_trim_def)
  then show ?thesis
    unfolding js_trim_def [of "js_trim s"] by (simp add: js_trim_def)
qed

lemma str_includes_iff: "str_includes h n \<longleftrightarrow> (\<exists>ps ss. h = ps @ n @ ss)"
proof (induction h)
  case Nil
  then show ?case by simp
next
  case (Cons c h)
  show ?case
  proof
    assume "str_includes (c # h) n"
    with Cons consider "prefix n (c # h)" | ps ss where "h = ps @ n @ ss" by auto
    then show "\<exists>ps ss. c # h = ps @ n @ ss"
    proof cases
      case 1
      then obtain ss where "c # h = [] @ n @ ss" by (auto simp: prefix_def)
      then show ?thesis by blast
    next
      case (2 ps ss)
      then have "c # h = (c # ps) @ n @ ss" by simp
      then show ?thesis by blast
    qed
  next
    assume "\<exists>ps ss. c # h = ps @ n @ ss"
    then obtain ps ss where eq: "c # h = ps @ n @ ss" by blast
    show "str_includes (c # h) n"
    proof (cases ps)
      case Nil
      with eq have "prefix n (c # h)" by simp
      then show ?thesis by simp
    next
      case (Cons p ps')
      with eq have "h = ps' @ n @ ss" by simp
      with \<open>str_includes h n = (\<exists>ps ss. h = ps @ n @ ss)\<close> show ?thesis by auto
    qed
  qed
qed

lemma split_when_not_Nil [simp]: "split_when p s \<noteq> []"
  by (induction s) (auto split: list.splits)

lemma split_when_none: "(\<forall>c \<in> set s. \<not> p c) \<Longrightarrow> split_when p s = [s]"
  by (induction s) auto

lemma split_when_append:
  "(\<forall>c \<in> set w. \<not> p c) \<Longrightarrow> p d \<Longrightarrow> split_when p (w @ d # s) = w # split_when p s"
  by (induction w) auto

lemma split_when_at: "p d \<Longrightarrow> split_when p (xs @ d # ys) = split_when p xs @ split_when p ys"
proof (induction xs)
  case (Cons c xs)
  then show ?case by (cases "split_when p xs") auto
qed simp

lemma split_when_pieces:
  "w \<in> set (split_when p s) \<Longrightarrow> c \<in> set w \<Longrightarrow> \<not> p c \<and> c \<in> set s"
  by (induction s arbitrary: w) (fastforce split: list.splits if_splits)+

lemma join_split: "join_with [d] (split_on d s) = s"
proof (induction s)
  case Nil
  then show ?case by simp
next
  case (Cons c s)
  show ?case
  proof (cases "split_on d s")
    case Nil
    then show ?thesis by simp
  next
    case (Cons w ws)
    with \<open>join_with [d] (split_on d s) = s\<close> show ?thesis by (cases ws) auto
  qed
qed

lemma split_join:
  "ws \<noteq> [] \<Longrightarrow> (\<forall>w \<in> set ws. d \<notin> set w) \<Longrightarrow> split_on d (join_with [d] ws) = ws"
proof (induction "[d]" ws rule: join_with.induct)
  case 1
  then show ?case by simp
next
  case (2 w)
  then show ?case by (auto intro!: split_when_none)
next
  case (3 w v ws)
  then have "\<forall>c \<in> set w. c \<noteq> d" by auto
  from split_when_append [of w "\<lambda>c. c = d" d, OF this]
  have "split_on d (w @ d # join_with [d] (v # ws)) = w # split_on d (join_with [d] (v # ws))"
    by simp
  with 3 show ?case by simp
qed

subsection \<open>Decimal text\<close>

lemma digit_value_digit_char [simp]: "d < 10 \<Longrightarrow> digit_value (digit_char d) = Some d"
  by (simp add: digit_value_def digit_char_def)

lemma digit_char_not_space [simp]: "d < 10 \<Longrightarrow> \<not> js_space (digit_char d)"
  by (simp add: js_space_def digit_char_def)

lemma digit_char_not_sign [simp]:
  assumes "d < 10"
  shows "digit_char d \<noteq> CHR ''-''" and "digit_char d \<noteq> CHR ''+''"
    and "digit_char d \<noteq> CHR ''.''" and "digit_char d \<noteq> CHR '':''"
proof -
  have "char_code (digit_char d) = 48 + d" using assms by (simp add: digit_char_def)
  moreover have "char_code (CHR ''-'') = 45" "char_code (CHR ''+'') = 43"
    "char_code (CHR ''.'') = 46" "char_code (CHR '':'') = 58"
    by (simp_all add: char_code_def)
  ultimately show "digit_char d \<noteq> CHR ''-''" "digit_char d \<noteq> CHR ''+''"
    "digit_char d \<noteq> CHR ''.''" "digit_char d \<noteq> CHR '':''"
    using assms by fastforce+
qed

lemma set_show_nat: "c \<in> set (show_nat n) \<Longrightarrow> \<exists>d < 10. c = digit_char d"
proof (induction n rule: show_nat.induct)
  case (1 n)
  show ?case
  proof (cases "n < 10")
    case True
    with 1(2) show ?thesis by (auto simp: show_nat.simps [of n])
  next
    case False
    with 1(2) consider "c \<in> set (show_nat (n div 10))" | "c = digit_char (n mod 10)"
      by (auto simp: show_nat.simps [of n])
    then show ?thesis
    proof cases
      case 1
      with "1.IH" [OF False] show ?thesis by blast
    next
      case 2
      moreover have "n mod 10 < 10" by simp
      ultimately show ?thesis by blast
    qed
  qed
qed

lemma show_nat_not_Nil [simp]: "show_nat n \<noteq> []"
  by (subst show_nat.simps) simp

lemma parse_digits_append:
  "(\<forall>c \<in> set xs. \<exists>d < r. digit_value c = Some d) \<Longrightarrow>
   parse_digits r acc (xs @ ys) = parse_digits r (parse_digits r acc xs) ys"
  by (induction xs arbitrary: acc) (auto split: option.splits)

lemma parse_digits_show_nat: "parse_digits 10 None (show_nat n) = Some n"
proof (induction n rule: show_nat.induct)
  case (1 n)
  show ?case
  proof (cases "n < 10")
    case True
    then show ?thesis by (subst show_nat.simps) simp
  next
    case False
    have "\<forall>c \<in> set (show_nat (n div 10)). \<exists>d < 10. digit_value c = Some d"
      using set_show_nat by fastforce
    with False 1 show ?thesis
      by (subst show_nat.simps) (simp add: parse_digits_append)
  qed
qed

lemma parse_int_show_nat [simp]: "parse_int 10 (show_nat n) = Some (int n)"
proof -
  obtain c cs where s: "show_nat n = c # cs" by (cases "show_nat n") auto
  then obtain d where d: "d < 10" "c = digit_char d"
    using set_show_nat [of c n] by auto
  have "dropWhile js_space (show_nat n) = c # cs" using s d by simp
  moreover have "parse_digits 10 None (c # cs) = Some n"
    using parse_digits_show_nat [of n] s by simp
  ultimately show ?thesis
    using d by (simp add: parse_int_def strip_hex_def)
qed

lemma show_nat_inject [simp]: "show_nat m = show_nat n \<longleftrightarrow> m = n"
  by (metis parse_digits_show_nat option.inject)

text \<open>What comes after an entry of a sorted list without ties is the rest of the list.\<close>

lemma sorted_after:
  assumes "sorted (map f xs)" "distinct (map f xs)" "k < length xs"
  shows "filter (\<lambda>x. f (xs ! k) < f x) xs = drop (Suc k) xs"
proof -
  have "xs = take (Suc k) xs @ drop (Suc k) xs" by simp
  moreover have "filter (\<lambda>x. f (xs ! k) < f x) (take (Suc k) xs) = []"
  proof -
    have "f x \<le> f (xs ! k)" if x: "x \<in> set (take (Suc k) xs)" for x
    proof -
      obtain j where j: "j < Suc k" "j < length xs" "x = xs ! j"
      proof -
        from x obtain j where "j < length (take (Suc k) xs)" "x = take (Suc k) xs ! j" by (auto simp only: in_set_conv_nth)
        then show thesis by (intro that [of j]) simp_all
      qed
      show ?thesis using sorted_nth_mono [OF assms(1), of j k] j assms(3) by simp
    qed
    then show ?thesis by (auto simp: filter_empty_conv not_less)
  qed
  moreover have "filter (\<lambda>x. f (xs ! k) < f x) (drop (Suc k) xs) = drop (Suc k) xs"
  proof -
    have "f (xs ! k) < f x" if x: "x \<in> set (drop (Suc k) xs)" for x
    proof -
      obtain j where j: "Suc k + j < length xs" "x = xs ! (Suc k + j)"
      proof -
        from x obtain j where "j < length (drop (Suc k) xs)" "x = drop (Suc k) xs ! j" by (auto simp only: in_set_conv_nth)
        then show thesis by (intro that [of j]) simp_all
      qed
      have "f (xs ! k) \<le> f x" using sorted_nth_mono [OF assms(1), of k "Suc k + j"] j by simp
      moreover have "f (xs ! k) \<noteq> f x"
        using assms(2) j assms(3) nth_eq_iff_index_eq [OF assms(2), of k "Suc k + j"] by simp
      ultimately show ?thesis by simp
    qed
    then show ?thesis by (simp add: filter_id_conv)
  qed
  ultimately show ?thesis by (metis append_Nil filter_append)
qed

end
