(* ===== verification/Policy.thy ===== *)
theory Policy
  imports Prelude
begin

text \<open>
  The action policy of \<^verbatim>\<open>server/src/computer/policy.ts\<close>: what a rule may be written against,
  the helper functions a rule may call, and the decision.  The expression language itself is the
  third-party package \<^verbatim>\<open>cel-js\<close>; its \<^verbatim>\<open>evaluate\<close> is the parameter \<open>cel\<close> of the decision, a
  function from an expression, a context and the registered helpers to a thrown error or a value.
  The regular expressions of the helper \<^verbatim>\<open>matches\<close> are the parameter \<open>regex\<close>, \<open>None\<close> where
  \<^verbatim>\<open>new RegExp\<close> throws.
\<close>

section \<open>Policies, contexts and decisions\<close>

datatype policy_mode = Dry_run | Enforce

record action_policy =
  pol_mode :: policy_mode
  pol_deny :: "string list"
  pol_allow :: "string list"

datatype intent =
    Activate | Type_text | Navigate | Read_page | Read_file | Write_file | List_files
  | Read_tool | Write_tool | Run_command

record policy_element =
  pe_ref :: string
  pe_role :: string
  pe_name :: string
  pe_type :: "string option"

record policy_file =
  pf_path :: string
  pf_name :: string
  pf_extension :: string

datatype mcp_effect = Mcp_read | Mcp_write

record policy_mcp =
  pm_server :: string
  pm_tool :: string
  pm_effect :: mcp_effect

record policy_context =
  ctx_tool :: string
  ctx_bot :: string
  ctx_url :: string
  ctx_host :: string
  ctx_actor :: string
  ctx_element :: "policy_element option"
  ctx_key :: "string option"
  ctx_intent :: "intent option"
  ctx_file :: "policy_file option"
  ctx_mcp :: "policy_mcp option"
  ctx_command :: "string option"

datatype decision_source = From_deny | From_allow | From_default

record policy_decision =
  dec_allowed :: bool
  dec_mode :: policy_mode
  dec_matched :: "string option"
  dec_source :: decision_source
  dec_forward :: bool
  dec_reason :: string

text \<open>One line of the error log: the expression, what was wrong with it, what it counted as.\<close>

record policy_log =
  plog_expression :: string
  plog_error :: string
  plog_treated_as :: bool

section \<open>The helper functions and one rule\<close>

record policy_functions =
  fn_contains :: "string \<Rightarrow> string \<Rightarrow> bool"
  fn_matches :: "string \<Rightarrow> string \<Rightarrow> string + bool"

definition policy_functions_of :: "(string \<Rightarrow> string \<Rightarrow> bool option) \<Rightarrow> policy_functions" where
  "policy_functions_of regex =
     \<lparr>fn_contains = (\<lambda>haystack needle. str_includes (js_lower haystack) (js_lower needle)),
      fn_matches = (\<lambda>value pattern.
        case regex pattern value of
          Some b \<Rightarrow> Inr b
        | None \<Rightarrow> Inl (''not a valid pattern: '' @ pattern))\<rparr>"

type_synonym cel_evaluator =
  "policy_functions \<Rightarrow> string \<Rightarrow> policy_context \<Rightarrow> string + jsv"

definition rule_matches ::
  "(string \<Rightarrow> policy_context \<Rightarrow> string + jsv) \<Rightarrow> policy_context \<Rightarrow> bool \<Rightarrow> string \<Rightarrow>
   bool \<times> policy_log list" where
  "rule_matches eval ctx on_error expression =
     (case eval expression ctx of
        Inr (JBool b) \<Rightarrow> (b, [])
      | Inr v \<Rightarrow>
          (on_error,
           [\<lparr>plog_expression = expression,
             plog_error = ''expected a true or false answer, got '' @ js_typeof v,
             plog_treated_as = on_error\<rparr>])
      | Inl e \<Rightarrow>
          (on_error,
           [\<lparr>plog_expression = expression, plog_error = e, plog_treated_as = on_error\<rparr>]))"

text \<open>The \<^verbatim>\<open>for\<close> loop over a list of rules: stops at the first that matches.\<close>

fun first_match ::
  "(string \<Rightarrow> bool \<times> policy_log list) \<Rightarrow> string list \<Rightarrow> string option \<times> policy_log list" where
  "first_match m [] = (None, [])"
| "first_match m (e # es) =
     (case m e of
        (True, lg) \<Rightarrow> (Some e, lg)
      | (False, lg) \<Rightarrow> (case first_match m es of (r, lg') \<Rightarrow> (r, lg @ lg')))"

section \<open>The words of a refusal\<close>

definition left_quote :: string where
  "left_quote = [CHR 0xE2, CHR 0x80, CHR 0x9C]"

definition right_quote :: string where
  "right_quote = [CHR 0xE2, CHR 0x80, CHR 0x9D]"

definition refused_by :: "string \<Rightarrow> string \<Rightarrow> string" where
  "refused_by what expression =
     ''This deployment's policy does not allow that: '' @ what @
     '' is blocked by the rule `'' @ expression @ ''`.''"

definition describe_refusal :: "policy_context \<Rightarrow> string \<Rightarrow> string" where
  "describe_refusal ctx expression =
     (if truthy (ctx_command ctx)
      then refused_by (''the command `'' @ the (ctx_command ctx) @ ''`'') expression
      else case ctx_mcp ctx of
        Some m \<Rightarrow> refused_by (pm_tool m @ '' on '' @ pm_server m) expression
      | None \<Rightarrow>
          if truthy (map_option pf_path (ctx_file ctx))
          then refused_by (''the file '' @ pf_path (the (ctx_file ctx))) expression
          else
            let what =
              (if truthy (map_option pe_name (ctx_element ctx))
               then left_quote @ pe_name (the (ctx_element ctx)) @ right_quote
               else ''a '' @ replace_first ''computer_'' [] (ctx_tool ctx) @ '' action'')
            in refused_by (what @ '' on '' @ ctx_host ctx) expression)"

section \<open>The decision\<close>

definition no_rule_reason :: string where
  "no_rule_reason =
     ''No rule in this deployment's policy permits that action, so it was refused. '' @
     ''An administrator can add one.''"

definition evaluate_action_policy ::
  "cel_evaluator \<Rightarrow> (string \<Rightarrow> string \<Rightarrow> bool option) \<Rightarrow> action_policy option \<Rightarrow> policy_context \<Rightarrow>
   policy_decision \<times> policy_log list" where
  "evaluate_action_policy cel regex policy ctx =
     (let eval = cel (policy_functions_of regex);
          mode = (case policy of None \<Rightarrow> Enforce | Some p \<Rightarrow> pol_mode p);
          deny = (case policy of None \<Rightarrow> [] | Some p \<Rightarrow> pol_deny p);
          allow = (case policy of None \<Rightarrow> [] | Some p \<Rightarrow> pol_allow p)
      in case first_match (rule_matches eval ctx True) deny of
           (Some e, lg) \<Rightarrow>
             (\<lparr>dec_allowed = False, dec_mode = mode, dec_matched = Some e, dec_source = From_deny,
               dec_forward = (mode = Dry_run), dec_reason = describe_refusal ctx e\<rparr>, lg)
         | (None, lg) \<Rightarrow>
             (case first_match (rule_matches eval ctx False) allow of
                (Some e, lg') \<Rightarrow>
                  (\<lparr>dec_allowed = True, dec_mode = mode, dec_matched = Some e,
                    dec_source = From_allow, dec_forward = True,
                    dec_reason = ''Permitted by policy.''\<rparr>, lg @ lg')
              | (None, lg') \<Rightarrow>
                  (\<lparr>dec_allowed = False, dec_mode = mode, dec_matched = None,
                    dec_source = From_default, dec_forward = (mode = Dry_run),
                    dec_reason = no_rule_reason\<rparr>, lg @ lg')))"

section \<open>What a rule means, and the specification of the decision\<close>

text \<open>
  The abstract view: a rule says yes, says no, or is broken; a policy is its two lists of such
  answers.  A deny rule counts unless it says no, an allow rule counts only when it says yes.
\<close>

definition says :: "bool \<Rightarrow> (string \<Rightarrow> policy_context \<Rightarrow> string + jsv) \<Rightarrow> policy_context \<Rightarrow> string \<Rightarrow> bool" where
  "says b eval ctx e \<longleftrightarrow> eval e ctx = Inr (JBool b)"

definition broken_rule :: "(string \<Rightarrow> policy_context \<Rightarrow> string + jsv) \<Rightarrow> policy_context \<Rightarrow> string \<Rightarrow> bool" where
  "broken_rule eval ctx e \<longleftrightarrow> \<not> says True eval ctx e \<and> \<not> says False eval ctx e"

definition policy_spec ::
  "(string \<Rightarrow> policy_context \<Rightarrow> string + jsv) \<Rightarrow> policy_context \<Rightarrow> string list \<Rightarrow> string list \<Rightarrow>
   decision_source \<times> string option" where
  "policy_spec eval ctx deny allow =
     (case find (\<lambda>e. \<not> says False eval ctx e) deny of
        Some e \<Rightarrow> (From_deny, Some e)
      | None \<Rightarrow>
          (case find (says True eval ctx) allow of
             Some e \<Rightarrow> (From_allow, Some e)
           | None \<Rightarrow> (From_default, None)))"

lemma rule_matches_cases:
  "rule_matches eval ctx d e =
     (if says True eval ctx e then (True, [])
      else if says False eval ctx e then (False, [])
      else (d, snd (rule_matches eval ctx d e)))"
  by (auto simp: rule_matches_def says_def split: sum.splits jsv.splits)

lemma rule_matches_deny: "fst (rule_matches eval ctx True e) \<longleftrightarrow> \<not> says False eval ctx e"
  by (subst rule_matches_cases) (auto simp: says_def)

lemma rule_matches_allow: "fst (rule_matches eval ctx False e) \<longleftrightarrow> says True eval ctx e"
  by (subst rule_matches_cases) auto

lemma rule_matches_broken_logged:
  "broken_rule eval ctx e \<Longrightarrow>
   \<exists>w. rule_matches eval ctx d e =
     (d, [\<lparr>plog_expression = e, plog_error = w, plog_treated_as = d\<rparr>])"
  by (auto simp: rule_matches_def broken_rule_def says_def split: sum.splits jsv.splits)

lemma first_match_find: "fst (first_match m es) = find (\<lambda>e. fst (m e)) es"
  by (induction es) (auto split: prod.splits bool.splits)

lemma first_match_logs:
  "snd (first_match m es) =
     concat (map (\<lambda>e. snd (m e)) (takeWhile (\<lambda>e. \<not> fst (m e)) es)) @
     (case fst (first_match m es) of None \<Rightarrow> [] | Some e \<Rightarrow> snd (m e))"
  by (induction es) (auto split: prod.splits bool.splits option.splits)

lemma find_None_list_all: "find P xs = None \<longleftrightarrow> list_all (\<lambda>x. \<not> P x) xs"
  by (induction xs) auto

lemma find_Some_ex: "(\<exists>x. find P xs = Some x) \<longleftrightarrow> list_ex P xs"
  by (induction xs) auto

lemma find_SomeD: "find P xs = Some x \<Longrightarrow> x \<in> set xs \<and> P x"
  by (induction xs) (auto split: if_splits)

lemma first_match_deny:
  "fst (first_match (rule_matches eval ctx True) es) = find (\<lambda>e. \<not> says False eval ctx e) es"
  by (simp add: first_match_find rule_matches_deny)

lemma first_match_allow:
  "fst (first_match (rule_matches eval ctx False) es) = find (says True eval ctx) es"
  by (simp add: first_match_find rule_matches_allow cong: find_cong)

text \<open>C9: the decision implements the specification. Its source and the rule it names are those of
  the abstract policy over the two lists (the first deny rule that does not say no, else the first
  allow rule that says yes, else the floor), an absent policy has two empty lists, and what is
  allowed, what is forwarded and the mode follow from them.\<close>

theorem policy_refines_spec:
  "fst (evaluate_action_policy cel regex policy ctx) =
     (let deny = (case policy of None \<Rightarrow> [] | Some p \<Rightarrow> pol_deny p);
          allow = (case policy of None \<Rightarrow> [] | Some p \<Rightarrow> pol_allow p);
          mode = (case policy of None \<Rightarrow> Enforce | Some p \<Rightarrow> pol_mode p);
          src = policy_spec (cel (policy_functions_of regex)) ctx deny allow
      in \<lparr>dec_allowed = (fst src = From_allow), dec_mode = mode, dec_matched = snd src,
          dec_source = fst src, dec_forward = (fst src = From_allow \<or> mode = Dry_run),
          dec_reason =
            (case src of
               (From_deny, e) \<Rightarrow> describe_refusal ctx (the e)
             | (From_allow, e) \<Rightarrow> ''Permitted by policy.''
             | (From_default, e) \<Rightarrow> no_rule_reason)\<rparr>)"
  unfolding evaluate_action_policy_def policy_spec_def Let_def
    first_match_deny [symmetric] first_match_allow [symmetric]
  by (auto split: prod.splits option.splits)

lemma policy_spec_allow_iff:
  "fst (policy_spec eval ctx deny allow) = From_allow \<longleftrightarrow>
     list_all (says False eval ctx) deny \<and> list_ex (says True eval ctx) allow"
proof -
  have "find (\<lambda>e. \<not> says False eval ctx e) deny = None \<longleftrightarrow> list_all (says False eval ctx) deny"
    by (simp add: find_None_list_all)
  moreover have "(\<exists>e. find (says True eval ctx) allow = Some e) \<longleftrightarrow> list_ex (says True eval ctx) allow"
    by (rule find_Some_ex)
  ultimately show ?thesis
    unfolding policy_spec_def by (auto split: option.splits)
qed

lemma dec_allowed_spec:
  "dec_allowed (fst (evaluate_action_policy cel regex policy ctx)) \<longleftrightarrow>
     (\<exists>p. policy = Some p
        \<and> list_all (says False (cel (policy_functions_of regex)) ctx) (pol_deny p)
        \<and> list_ex (says True (cel (policy_functions_of regex)) ctx) (pol_allow p))"
proof (cases policy)
  case None
  then show ?thesis by (simp add: evaluate_action_policy_def)
next
  case (Some p)
  let ?eval = "cel (policy_functions_of regex)"
  have "dec_allowed (fst (evaluate_action_policy cel regex policy ctx)) \<longleftrightarrow>
    fst (policy_spec ?eval ctx (pol_deny p) (pol_allow p)) = From_allow"
    unfolding evaluate_action_policy_def policy_spec_def Let_def
      first_match_deny [symmetric] first_match_allow [symmetric]
    using Some by (auto split: prod.splits option.splits)
  with Some show ?thesis by (simp add: policy_spec_allow_iff)
qed

lemma dec_forward_spec:
  "dec_forward (fst (evaluate_action_policy cel regex policy ctx)) \<longleftrightarrow>
     dec_allowed (fst (evaluate_action_policy cel regex policy ctx))
     \<or> dec_mode (fst (evaluate_action_policy cel regex policy ctx)) = Dry_run"
  unfolding evaluate_action_policy_def Let_def by (auto split: prod.splits option.splits)

lemma dec_mode_spec:
  "dec_mode (fst (evaluate_action_policy cel regex policy ctx)) =
     (case policy of None \<Rightarrow> Enforce | Some p \<Rightarrow> pol_mode p)"
  unfolding evaluate_action_policy_def Let_def by (auto split: prod.splits option.splits)

text \<open>Fail closed. An action is allowed exactly when a policy is set, every deny rule evaluates to
  the boolean false (a deny rule that throws or answers anything but a boolean refuses), and some
  allow rule evaluates to the boolean true (a broken allow rule never permits).\<close>

theorem policy_allows_iff:
  "dec_allowed (fst (evaluate_action_policy cel regex policy ctx)) =
     (case policy of
        None \<Rightarrow> False
      | Some p \<Rightarrow>
          list_all (\<lambda>e. cel (policy_functions_of regex) e ctx = Inr (JBool False)) (pol_deny p)
          \<and> list_ex (\<lambda>e. cel (policy_functions_of regex) e ctx = Inr (JBool True)) (pol_allow p))"
  by (cases policy) (simp_all add: dec_allowed_spec says_def [abs_def])

text \<open>A deny rule can only remove permission. Whatever is forwarded after rules have been inserted
  anywhere in the deny list was forwarded without them.\<close>

theorem policy_deny_antitone:
  assumes "dec_forward (fst (evaluate_action_policy cel regex
             (Some (p\<lparr>pol_deny := before @ extra @ after\<rparr>)) ctx))"
  shows "dec_forward (fst (evaluate_action_policy cel regex
           (Some (p\<lparr>pol_deny := before @ after\<rparr>)) ctx))"
  using assms by (auto simp: dec_forward_spec dec_allowed_spec dec_mode_spec)

definition sample_cel :: cel_evaluator where
  "sample_cel fns e ctx =
     (if e = ''true'' then Inr (JBool True)
      else if e = ''false'' then Inr (JBool False)
      else if e = ''submit''
        then Inr (JBool (fn_contains fns (case ctx_element ctx of None \<Rightarrow> [] | Some x \<Rightarrow> pe_name x) e))
      else if e = ''label'' then Inr (JStr e)
      else Inl ''Unknown identifier'')"

definition sample_context :: policy_context where
  "sample_context =
     \<lparr>ctx_tool = ''computer_click'', ctx_bot = ''bot'', ctx_url = ''https://a.example/'',
      ctx_host = ''a.example'', ctx_actor = ''ana'',
      ctx_element = Some \<lparr>pe_ref = ''e1'', pe_role = ''button'', pe_name = ''Cancel'', pe_type = None\<rparr>,
      ctx_key = Some [], ctx_intent = Some Activate, ctx_file = None, ctx_mcp = None,
      ctx_command = None\<rparr>"

lemmas sample_policy_simps =
  sample_cel_def sample_context_def policy_functions_of_def js_lower_def lower_char_def
  upper_code_def char_code_def says_def

theorem policy_deny_antitone_witness:
  "dec_forward (fst (evaluate_action_policy sample_cel (\<lambda>_ _. None)
     (Some \<lparr>pol_mode = Enforce, pol_deny = [''false''], pol_allow = [''true'']\<rparr>) sample_context))"
  using policy_deny_antitone [where cel = sample_cel and regex = "\<lambda>_ _. None"
      and p = "\<lparr>pol_mode = Enforce, pol_deny = [], pol_allow = [''true'']\<rparr>"
      and before = "[''false'']" and extra = "[''submit'']" and after = "[]"
      and ctx = sample_context]
  by (simp add: dec_forward_spec dec_allowed_spec sample_policy_simps)

text \<open>A broken rule is never silent. When the rule that refused an action is broken (it threw, or
  answered something other than true or false), a log line names it, with the answer that was
  assumed for it.\<close>

theorem broken_deny_is_logged:
  assumes "dec_source (fst (evaluate_action_policy cel regex policy ctx)) = From_deny"
    and "dec_matched (fst (evaluate_action_policy cel regex policy ctx)) = Some e"
    and "broken_rule (cel (policy_functions_of regex)) ctx e"
  shows "\<exists>w. \<lparr>plog_expression = e, plog_error = w, plog_treated_as = True\<rparr>
             \<in> set (snd (evaluate_action_policy cel regex policy ctx))"
proof -
  let ?eval = "cel (policy_functions_of regex)"
  let ?deny = "case policy of None \<Rightarrow> [] | Some p \<Rightarrow> pol_deny p"
  obtain lg where fm: "first_match (rule_matches ?eval ctx True) ?deny = (Some e, lg)"
    and snd: "snd (evaluate_action_policy cel regex policy ctx) = lg"
    using assms(1,2) unfolding evaluate_action_policy_def Let_def
    by (auto split: prod.splits option.splits)
  from rule_matches_broken_logged [OF assms(3), of True] obtain w where
    "snd (rule_matches ?eval ctx True e) =
       [\<lparr>plog_expression = e, plog_error = w, plog_treated_as = True\<rparr>]" by auto
  with fm first_match_logs [of "rule_matches ?eval ctx True" ?deny]
  have "\<lparr>plog_expression = e, plog_error = w, plog_treated_as = True\<rparr> \<in> set lg" by simp
  with snd show ?thesis by blast
qed

theorem broken_deny_is_logged_witness:
  "\<exists>w. \<lparr>plog_expression = ''label'', plog_error = w, plog_treated_as = True\<rparr>
     \<in> set (snd (evaluate_action_policy sample_cel (\<lambda>_ _. None)
         (Some \<lparr>pol_mode = Enforce, pol_deny = [''submit'', ''label''], pol_allow = [''true'']\<rparr>)
         sample_context))"
  by (rule broken_deny_is_logged)
    (simp_all add: evaluate_action_policy_def rule_matches_def broken_rule_def sample_policy_simps)

end
