(* ===== verification/Audit_Trail.thy ===== *)
theory Audit_Trail
  imports Prelude "HOL-Library.Product_Lexorder"
begin

text \<open>
  The audit trail of \<^verbatim>\<open>server/src/audit.ts\<close>: redaction of a payload before it is stored, and the
  keyset-paged reader.  The cursor's text form (base64url of JSON) is a platform codec; the reader is
  modelled on the decoded cursor.  A stored time is in microseconds, as the \<^verbatim>\<open>timestamptz\<close> column
  of the database keeps it; a time the program holds is a \<^verbatim>\<open>Date\<close>, in milliseconds.
\<close>

section \<open>Redaction\<close>

definition sensitive_keys :: "string list" where
  "sensitive_keys =
     [''access_token'', ''accesstoken'', ''api_key'', ''apikey'', ''authorization'', ''client_secret'',
      ''clientsecret'', ''content'', ''credential'', ''credentials'', ''document_content'',
      ''documentcontent'', ''encrypted_value'', ''encryptedvalue'', ''id_token'', ''idtoken'',
      ''password'', ''prompt'', ''refresh_token'', ''refreshtoken'', ''result'', ''secret'', ''secrets'',
      ''token'', ''tokens'', ''tool_arguments'', ''tool_result'']"

definition alphanumeric :: "char \<Rightarrow> bool" where
  "alphanumeric c \<longleftrightarrow>
     (let n = char_code c in (48 \<le> n \<and> n \<le> 57) \<or> (65 \<le> n \<and> n \<le> 90) \<or> (97 \<le> n \<and> n \<le> 122))"

definition normalized_key :: "string \<Rightarrow> string" where
  "normalized_key key = js_lower (filter alphanumeric key)"

definition is_sensitive_key :: "string \<Rightarrow> bool" where
  "is_sensitive_key key \<longleftrightarrow>
     js_lower key \<in> set sensitive_keys \<or> normalized_key key \<in> set sensitive_keys"

fun redact_audit_payload :: "jsv \<Rightarrow> jsv" where
  "redact_audit_payload (JArr vs) = JArr (map redact_audit_payload vs)"
| "redact_audit_payload (JObj kvs) =
     JObj (map (\<lambda>kv. (fst kv, if is_sensitive_key (fst kv) then JStr ''[REDACTED]''
                              else redact_audit_payload (snd kv))) kvs)"
| "redact_audit_payload v = v"

record audit_input =
  ai_type :: string
  ai_target_type :: string
  ai_target_id :: "string option"
  ai_actor :: "string option"
  ai_payload :: jsv

text \<open>What reaches \<^verbatim>\<open>store.insert\<close>.\<close>

definition record_audit_event :: "audit_input \<Rightarrow> audit_input" where
  "record_audit_event event = event\<lparr>ai_payload := redact_audit_payload (ai_payload event)\<rparr>"

section \<open>The reader\<close>

record audit_event =
  ae_id :: int
  ae_actor :: "string option"
  ae_type :: string
  ae_target_type :: string
  ae_target_id :: "string option"
  ae_payload :: jsv
  ae_created_us :: int

record audit_query =
  aq_limit :: int
  aq_event_type :: "string option"
  aq_actor :: "string option"
  aq_target_type :: "string option"
  aq_target_id :: "string option"
  aq_from_ms :: "int option"
  aq_to_ms :: "int option"

record audit_cursor =
  cur_created_ms :: int
  cur_id :: int

text \<open>A column read into a \<^verbatim>\<open>Date\<close>, and a \<^verbatim>\<open>Date\<close> sent as a bound: the microseconds are lost.\<close>

definition date_of_column :: "int \<Rightarrow> int" where
  "date_of_column us = us div 1000"

definition column_of_date :: "int \<Rightarrow> int" where
  "column_of_date ms = ms * 1000"

definition requested_types :: "audit_query \<Rightarrow> string list" where
  "requested_types q =
     filter (\<lambda>t. t \<noteq> [])
       (map js_trim (split_on (CHR '','') (case aq_event_type q of None \<Rightarrow> [] | Some t \<Rightarrow> t)))"

definition matches_opt :: "string option \<Rightarrow> string option \<Rightarrow> bool" where
  "matches_opt wanted held \<longleftrightarrow> (if truthy wanted then held = wanted else True)"

definition query_matches :: "audit_query \<Rightarrow> audit_event \<Rightarrow> bool" where
  "query_matches q e \<longleftrightarrow>
     (requested_types q = [] \<or> ae_type e \<in> set (requested_types q))
     \<and> matches_opt (aq_actor q) (ae_actor e)
     \<and> matches_opt (aq_target_type q) (Some (ae_target_type e))
     \<and> matches_opt (aq_target_id q) (ae_target_id e)
     \<and> (case aq_from_ms q of None \<Rightarrow> True | Some m \<Rightarrow> ae_created_us e > column_of_date m)
     \<and> (case aq_to_ms q of None \<Rightarrow> True | Some m \<Rightarrow> ae_created_us e < column_of_date m)"

definition before_cursor :: "audit_cursor \<Rightarrow> audit_event \<Rightarrow> bool" where
  "before_cursor c e \<longleftrightarrow>
     ae_created_us e < column_of_date (cur_created_ms c)
     \<or> (ae_created_us e = column_of_date (cur_created_ms c) \<and> ae_id e < cur_id c)"

definition newest_first_key :: "audit_event \<Rightarrow> int \<times> int" where
  "newest_first_key e = (- ae_created_us e, - ae_id e)"

definition select_rows ::
  "audit_query \<Rightarrow> audit_cursor option \<Rightarrow> audit_event list \<Rightarrow> audit_event list" where
  "select_rows q cursor rows =
     sort_key newest_first_key
       (filter (\<lambda>e. query_matches q e \<and> (case cursor of None \<Rightarrow> True | Some c \<Rightarrow> before_cursor c e)) rows)"

definition cursor_of :: "audit_event \<Rightarrow> audit_cursor" where
  "cursor_of e = \<lparr>cur_created_ms = date_of_column (ae_created_us e), cur_id = ae_id e\<rparr>"

definition list_events ::
  "audit_query \<Rightarrow> audit_cursor option \<Rightarrow> audit_event list \<Rightarrow> audit_event list \<times> audit_cursor option" where
  "list_events q cursor table =
     (let rows = take (nat (aq_limit q + 1)) (select_rows q cursor table);
          has_next_page = int (length rows) > aq_limit q;
          page = take (nat (aq_limit q)) rows
      in (page,
          if has_next_page \<and> page \<noteq> [] then Some (cursor_of (last page)) else None))"

text \<open>The limit of \<^verbatim>\<open>auditQueryFromUrl\<close>: absent is 50, unreadable is 50, otherwise within 1 and 100.\<close>

definition limit_from_url :: "string option \<Rightarrow> int" where
  "limit_from_url raw =
     (case parse_int 10 (case raw of None \<Rightarrow> ''50'' | Some t \<Rightarrow> t) of
        None \<Rightarrow> 50
      | Some n \<Rightarrow> min (max n 1) 100)"

text \<open>A reader that follows the cursors from the first page to the last.\<close>

fun read_all ::
  "nat \<Rightarrow> audit_query \<Rightarrow> audit_cursor option \<Rightarrow> audit_event list \<Rightarrow> audit_event list option" where
  "read_all 0 q cursor table = None"
| "read_all (Suc fuel) q cursor table =
     (case list_events q cursor table of
        (page, None) \<Rightarrow> Some page
      | (page, Some c) \<Rightarrow> map_option (\<lambda>rest. page @ rest) (read_all fuel q (Some c) table))"

section \<open>Redaction is complete, and changes nothing else\<close>

text \<open>No sensitive key, at any depth, still carries a value; and the part of a payload that a reader of
  the trail may learn from.\<close>

fun redacted :: "jsv \<Rightarrow> bool" where
  "redacted (JArr vs) = list_all redacted vs"
| "redacted (JObj kvs) =
     list_all (\<lambda>kv. if is_sensitive_key (fst kv) then snd kv = JStr ''[REDACTED]''
                    else redacted (snd kv)) kvs"
| "redacted v = True"

fun same_outside_secrets :: "jsv \<Rightarrow> jsv \<Rightarrow> bool" where
  "same_outside_secrets (JArr vs) (JArr ws) = list_all2 same_outside_secrets vs ws"
| "same_outside_secrets (JObj kvs) (JObj lws) =
     list_all2 (\<lambda>kv lw. fst kv = fst lw
        \<and> (is_sensitive_key (fst kv) \<or> same_outside_secrets (snd kv) (snd lw))) kvs lws"
| "same_outside_secrets v w = (v = w)"

lemma redact_redacted: "redacted (redact_audit_payload v)"
  by (induction v rule: redact_audit_payload.induct) (auto simp: list_all_iff)

lemma redact_fixpoint: "redacted v \<Longrightarrow> redact_audit_payload v = v"
proof (induction v rule: redacted.induct)
  case (1 vs)
  then show ?case by (simp add: list_all_iff map_idI)
next
  case (2 kvs)
  have "map (\<lambda>kv. (fst kv, if is_sensitive_key (fst kv) then JStr ''[REDACTED]''
                              else redact_audit_payload (snd kv))) kvs = kvs"
    using 2 by (intro map_idI) (auto simp: list_all_iff prod_eq_iff)
  then show ?case by simp
qed simp_all

text \<open>Redaction reaches every depth and is stable. In what is stored, every field with a sensitive
  name, however it is cased or punctuated and however deep it is nested, holds the marker; a payload
  that is already in that form is stored as it is; and redacting again changes nothing.\<close>

theorem redaction_complete:
  "redacted (ai_payload (record_audit_event event))
   \<and> record_audit_event (record_audit_event event) = record_audit_event event
   \<and> (redacted (ai_payload event) \<longleftrightarrow> record_audit_event event = event)"
proof -
  have "redact_audit_payload (ai_payload event) = ai_payload event \<Longrightarrow> redacted (ai_payload event)"
    using redact_redacted [of "ai_payload event"] by simp
  then show ?thesis
    by (cases event)
      (auto simp: record_audit_event_def redact_redacted redact_fixpoint)
qed

lemma redact_noninterference:
  "same_outside_secrets v w \<Longrightarrow> redact_audit_payload v = redact_audit_payload w"
proof (induction v w rule: same_outside_secrets.induct)
  case (1 vs ws)
  have "list_all2 (\<lambda>v w. redact_audit_payload v = redact_audit_payload w) vs ws"
    using 1 by (auto intro: list.rel_mono_strong)
  then show ?case by (simp add: list_all2_map_eq)
next
  case (2 kvs lws)
  let ?red = "\<lambda>kv. (fst kv, if is_sensitive_key (fst kv) then JStr ''[REDACTED]''
                          else redact_audit_payload (snd kv))"
  have "list_all2 (\<lambda>kv lw. ?red kv = ?red lw) kvs lws"
    using 2 by (auto elim!: list.rel_mono_strong)
  from list_all2_map_eq [OF this] show ?case by simp
qed auto

text \<open>C30: the trail cannot tell two secrets apart. Events whose payloads differ only under sensitive
  names are stored as the same row.\<close>

theorem redaction_noninterference:
  assumes "same_outside_secrets (ai_payload e) (ai_payload e')"
    and "e' = e\<lparr>ai_payload := ai_payload e'\<rparr>"
  shows "record_audit_event e = record_audit_event e'"
proof -
  have "redact_audit_payload (ai_payload e) = redact_audit_payload (ai_payload e')"
    using assms(1) by (rule redact_noninterference)
  then show ?thesis
    unfolding record_audit_event_def by (subst assms(2)) simp
qed

definition sample_event :: "string \<Rightarrow> audit_input" where
  "sample_event secret =
     \<lparr>ai_type = ''agent.invoked'', ai_target_type = ''agent'', ai_target_id = None, ai_actor = None,
      ai_payload = JObj [(''bot'', JStr ''b''),
        (''nested'', JArr [JObj [(''Api-Key'', JStr secret), (''n'', JNum 3)]])]\<rparr>"

lemma sample_keys:
  "is_sensitive_key ''Api-Key''" "\<not> is_sensitive_key ''bot''" "\<not> is_sensitive_key ''nested''"
  "\<not> is_sensitive_key ''n''"
  by code_simp+

theorem redaction_noninterference_witness:
  "record_audit_event (sample_event ''hunter2'') = record_audit_event (sample_event ''other'')"
  by (rule redaction_noninterference) (simp_all add: sample_event_def sample_keys)

section \<open>Paging\<close>

definition whole_ms :: "audit_event \<Rightarrow> bool" where
  "whole_ms e \<longleftrightarrow> ae_created_us e mod 1000 = 0"

abbreviation after_key :: "audit_event \<Rightarrow> audit_event \<Rightarrow> bool" where
  "after_key e x \<equiv> newest_first_key e < newest_first_key x"

lemma before_cursor_key: "whole_ms e \<Longrightarrow> before_cursor (cursor_of e) x \<longleftrightarrow> after_key e x"
  by (auto simp: before_cursor_def cursor_of_def newest_first_key_def whole_ms_def
      column_of_date_def date_of_column_def)

lemma select_after:
  assumes "whole_ms e"
  shows "select_rows q (Some (cursor_of e)) table = filter (after_key e) (select_rows q None table)"
  unfolding select_rows_def filter_sort
  by (simp add: before_cursor_key [OF assms] conj_commute cong: filter_cong)

lemma select_strictly_sorted:
  assumes "distinct (map ae_id table)"
  shows "sorted_wrt after_key (select_rows q None table)"
proof -
  let ?xs = "select_rows q None table"
  have "distinct (map ae_id (filter (query_matches q) table))"
    using assms by (simp add: distinct_map_filter)
  then have "distinct (map newest_first_key (filter (query_matches q) table))"
    unfolding distinct_map inj_on_def newest_first_key_def by auto
  then have "distinct (map newest_first_key ?xs)"
    by (simp add: select_rows_def distinct_map)
  moreover have "sorted (map newest_first_key ?xs)" by (simp add: select_rows_def)
  ultimately have "sorted_wrt (<) (map newest_first_key ?xs)"
    by (simp add: strict_sorted_iff)
  then show ?thesis by (simp add: sorted_wrt_map)
qed

lemma filter_after_nth:
  assumes "sorted_wrt after_key xs" "0 < n" "n \<le> length xs"
  shows "filter (after_key (xs ! (n - 1))) xs = drop n xs"
proof -
  have before: "\<not> after_key (xs ! (n - 1)) x" if x: "x \<in> set (take n xs)" for x
  proof -
    from x obtain i where i: "i < n" "i < length xs" "x = xs ! i"
      by (auto simp: in_set_conv_nth)
    show ?thesis
    proof (cases "i = n - 1")
      case True
      with i(3) show ?thesis by simp
    next
      case False
      with i(1) have "i < n - 1" by simp
      moreover have "n - 1 < length xs" using assms(2,3) by simp
      ultimately have "after_key x (xs ! (n - 1))"
        unfolding i(3) by (rule sorted_wrt_nth_less [OF assms(1)])
      then show ?thesis by simp
    qed
  qed
  have after: "after_key (xs ! (n - 1)) x" if x: "x \<in> set (drop n xs)" for x
  proof -
    from x obtain i where "i < length (drop n xs)" "x = drop n xs ! i"
      by (auto simp only: in_set_conv_nth)
    then have "x = xs ! (n + i)" "n + i < length xs" by simp_all
    moreover have "n - 1 < n + i" using assms(2) by simp
    ultimately show ?thesis using sorted_wrt_nth_less [OF assms(1)] by blast
  qed
  have "filter (after_key (xs ! (n - 1))) (take n xs) = []"
    using before by (simp add: filter_empty_conv)
  moreover have "filter (after_key (xs ! (n - 1))) (drop n xs) = drop n xs"
    using after by (simp add: filter_id_conv)
  moreover have "xs = take n xs @ drop n xs" by simp
  ultimately show ?thesis by (metis append_Nil filter_append)
qed

lemma list_events_cases:
  assumes "0 < aq_limit q" "select_rows q cursor table = xs"
  shows "list_events q cursor table =
     (let n = nat (aq_limit q) in
      if length xs \<le> n then (xs, None)
      else (take n xs, Some (cursor_of (xs ! (n - 1)))))"
proof -
  have n: "0 < nat (aq_limit q)" "nat (aq_limit q + 1) = Suc (nat (aq_limit q))"
    using assms(1) by simp_all
  show ?thesis
  proof (cases "length xs \<le> nat (aq_limit q)")
    case True
    then show ?thesis using assms n by (simp add: list_events_def Let_def)
  next
    case False
    then have "take (nat (aq_limit q)) xs \<noteq> []" using n by auto
    moreover have "last (take (nat (aq_limit q)) xs) = xs ! (nat (aq_limit q) - 1)"
      using False n calculation by (simp add: last_conv_nth min_def)
    ultimately show ?thesis using assms n False
      by (auto simp: list_events_def Let_def min_def)
  qed
qed

text \<open>Paging is complete. When the stored times fall on whole milliseconds and identifiers are
  distinct, following the cursors from the first page returns every matching row exactly once, newest
  first, for any page size; as many steps as there are rows, and one more, are enough.\<close>

theorem read_all_complete:
  assumes "0 < aq_limit q" "distinct (map ae_id table)"
    and "list_all whole_ms table" "length table < fuel"
  shows "read_all fuel q None table = Some (select_rows q None table)"
proof -
  let ?S = "select_rows q None table" and ?n = "nat (aq_limit q)"
  have sorted: "sorted_wrt after_key ?S" by (rule select_strictly_sorted [OF assms(2)])
  have whole: "x \<in> set ?S \<Longrightarrow> whole_ms x" for x
    using assms(3) by (auto simp: select_rows_def list_all_iff)
  have "read_all fuel q cur table = Some (drop k ?S)"
    if "select_rows q cur table = drop k ?S" "length ?S - k < fuel" for k cur
    using that
  proof (induction fuel arbitrary: k cur)
    case 0
    then show ?case by simp
  next
    case (Suc fuel)
    show ?case
    proof (cases "length (drop k ?S) \<le> ?n")
      case True
      with list_events_cases [OF assms(1) Suc.prems(1)] show ?thesis by (simp add: Let_def)
    next
      case False
      let ?e = "drop k ?S ! (?n - 1)"
      have pos: "0 < ?n" using assms(1) by simp
      have e: "?e = ?S ! (k + ?n - 1)" "k + ?n \<le> length ?S" using False pos by (simp_all add: nth_drop)
      then have "?e \<in> set ?S" using pos by (metis add_gr_0 diff_less le_eq_less_or_eq less_one nth_mem order_less_le_trans)
      then have "select_rows q (Some (cursor_of ?e)) table = drop (k + ?n) ?S"
        using select_after [OF whole] filter_after_nth [OF sorted _ e(2)] pos e(1) by simp
      moreover have "length ?S - (k + ?n) < fuel" using Suc.prems(2) False pos by simp
      ultimately have "read_all fuel q (Some (cursor_of ?e)) table = Some (drop (k + ?n) ?S)"
        by (rule Suc.IH)
      moreover have "take ?n (drop k ?S) @ drop (k + ?n) ?S = drop k ?S"
        by (metis append_take_drop_id drop_drop add.commute)
      ultimately show ?thesis
        using list_events_cases [OF assms(1) Suc.prems(1)] False by (simp add: Let_def)
    qed
  qed
  from this [of None 0] show ?thesis
    using assms(4) by (simp add: select_rows_def less_le_trans [OF le_less_trans [OF length_filter_le]])
qed

definition sample_row :: "int \<Rightarrow> int \<Rightarrow> audit_event" where
  "sample_row i us =
     \<lparr>ae_id = i, ae_actor = None, ae_type = ''session.refused'', ae_target_type = ''session'',
      ae_target_id = None, ae_payload = JObj [], ae_created_us = us\<rparr>"

definition sample_query :: audit_query where
  "sample_query =
     \<lparr>aq_limit = 1, aq_event_type = None, aq_actor = None, aq_target_type = None,
      aq_target_id = None, aq_from_ms = None, aq_to_ms = None\<rparr>"

theorem read_all_complete_witness:
  "read_all 3 sample_query None [sample_row 1 5000, sample_row 2 5000]
     = Some [sample_row 2 5000, sample_row 1 5000]"
  by (subst read_all_complete)
    (simp_all add: sample_row_def sample_query_def whole_ms_def select_rows_def query_matches_def
      requested_types_def matches_opt_def newest_first_key_def)

text \<open>Paging loses a row when two events share a millisecond. The cursor carries a time cut to
  milliseconds while the column keeps microseconds, so with pages of one, of two rows written 0.4
  milliseconds apart the older one is on no page.\<close>

theorem paging_skips_same_millisecond:
  "read_all 3 sample_query None [sample_row 1 5300, sample_row 2 5700] = Some [sample_row 2 5700]
   \<and> query_matches sample_query (sample_row 1 5300)"
  by (simp add: eval_nat_numeral list_events_def select_rows_def sample_row_def sample_query_def
      query_matches_def requested_types_def matches_opt_def newest_first_key_def before_cursor_def
      cursor_of_def date_of_column_def column_of_date_def Let_def)

end
