(* ===== verification/Effects.thy ===== *)
theory Effects
  imports Prelude Audit_Trail
begin

text \<open>
  Asynchronous code with effects, as state passing.  A computation takes the world and returns an
  error or a value, with the world afterwards; \<open>await\<close> is \<open>io_bind\<close>, \<open>throw\<close> is \<open>io_throw\<close>,
  \<open>try ... catch\<close> is \<open>io_catch\<close>.  The world keeps the trace of everything that left the process, in
  order, and the state of the snapshot store.  What answers (the network, the computer provider, the
  vault, the audit table) is an environment of functions from the trace so far, so an answer may
  depend on everything that happened before it.
\<close>

section \<open>Errors and the monad\<close>

text \<open>The error classes of \<^verbatim>\<open>server/src/computer/client.ts\<close> and \<^verbatim>\<open>gateway.ts\<close>; \<open>Other_error\<close> is a plain
  \<^verbatim>\<open>Error\<close> or an error of the platform.\<close>

datatype error =
    Computer_unavailable string
  | Element_not_found string
  | Navigation_refused string
  | Workspace_refused string
  | Workspace_request string
  | Stale_snapshot string
  | Human_has_control string
  | Action_refused string "string option"
  | Other_error string

fun error_message :: "error \<Rightarrow> string" where
  "error_message (Computer_unavailable m) = m"
| "error_message (Element_not_found m) = m"
| "error_message (Navigation_refused m) = m"
| "error_message (Workspace_refused m) = m"
| "error_message (Workspace_request m) = m"
| "error_message (Stale_snapshot m) = m"
| "error_message (Human_has_control m) = m"
| "error_message (Action_refused m r) = m"
| "error_message (Other_error m) = m"

type_synonym ('s, 'a) io = "'s \<Rightarrow> (error + 'a) \<times> 's"

definition io_return :: "'a \<Rightarrow> ('s, 'a) io" where
  "io_return x s = (Inr x, s)"

definition io_throw :: "error \<Rightarrow> ('s, 'a) io" where
  "io_throw e s = (Inl e, s)"

definition io_bind :: "('s, 'a) io \<Rightarrow> ('a \<Rightarrow> ('s, 'b) io) \<Rightarrow> ('s, 'b) io" where
  "io_bind m k s = (case m s of (Inl e, s') \<Rightarrow> (Inl e, s') | (Inr x, s') \<Rightarrow> k x s')"

definition io_catch :: "('s, 'a) io \<Rightarrow> (error \<Rightarrow> ('s, 'a) io) \<Rightarrow> ('s, 'a) io" where
  "io_catch m h s = (case m s of (Inl e, s') \<Rightarrow> h e s' | (Inr x, s') \<Rightarrow> (Inr x, s'))"

abbreviation io_then :: "('s, 'a) io \<Rightarrow> ('s, 'b) io \<Rightarrow> ('s, 'b) io" where
  "io_then m n \<equiv> io_bind m (\<lambda>_. n)"

definition io_lift :: "error + 'a \<Rightarrow> ('s, 'a) io" where
  "io_lift r s = (r, s)"

lemma io_bind_Inr: "m s = (Inr x, s') \<Longrightarrow> io_bind m k s = k x s'"
  by (simp add: io_bind_def)

lemma io_bind_Inl: "m s = (Inl e, s') \<Longrightarrow> io_bind m k s = (Inl e, s')"
  by (simp add: io_bind_def)

lemma io_catch_Inr: "m s = (Inr x, s') \<Longrightarrow> io_catch m h s = (Inr x, s')"
  by (simp add: io_catch_def)

lemma io_catch_Inl: "m s = (Inl e, s') \<Longrightarrow> io_catch m h s = h e s'"
  by (simp add: io_catch_def)

section \<open>The world\<close>

record http_request =
  rq_url :: string
  rq_method :: string
  rq_headers :: "(string \<times> string) list"
  rq_body :: "jsv option"
  rq_timeout_ms :: int

datatype fetch_outcome =
    Timed_out
  | Not_reached
  | Response int "jsv option"

datatype event =
    Ev_locate string
  | Ev_session string
  | Ev_fetch http_request
  | Ev_audit audit_input
  | Ev_stop string
  | Ev_reset string
  | Ev_vault string string

type_synonym trace = "event list"

record 'st world =
  w_trace :: trace
  w_store :: 'st

text \<open>An effect: it is recorded on the trace, and its answer comes from the environment.\<close>

definition effect :: "event \<Rightarrow> (trace \<Rightarrow> error + 'a) \<Rightarrow> ('st world, 'a) io" where
  "effect e answer w = (answer (w_trace w), w\<lparr>w_trace := w_trace w @ [e]\<rparr>)"

definition get_store :: "('st world, 'st) io" where
  "get_store w = (Inr (w_store w), w)"

definition put_store :: "('st \<Rightarrow> 'st) \<Rightarrow> ('st world, unit) io" where
  "put_store f w = (Inr (), w\<lparr>w_store := f (w_store w)\<rparr>)"

section \<open>What a computation adds to the trace\<close>

definition emits :: "('st world, 'a) io \<Rightarrow> (event \<Rightarrow> bool) \<Rightarrow> bool" where
  "emits m P \<longleftrightarrow>
     (\<forall>w. \<exists>evs. w_trace (snd (m w)) = w_trace w @ evs \<and> list_all P evs)"

named_theorems emits_rules

lemma emits_return [emits_rules]: "emits (io_return x) P"
  by (simp add: emits_def io_return_def)

lemma emits_throw [emits_rules]: "emits (io_throw e) P"
  by (simp add: emits_def io_throw_def)

lemma emits_lift [emits_rules]: "emits (io_lift r) P"
  by (simp add: emits_def io_lift_def)

lemma emits_get [emits_rules]: "emits get_store P"
  by (simp add: emits_def get_store_def)

lemma emits_put [emits_rules]: "emits (put_store f) P"
  by (simp add: emits_def put_store_def)

lemma emits_effect [emits_rules]: "P e \<Longrightarrow> emits (effect e answer) P"
  by (simp add: emits_def effect_def)

lemma emits_append:
  assumes "w_trace w' = w_trace w @ evs" "list_all P evs" "emits m P"
  shows "\<exists>evs. w_trace (snd (m w')) = w_trace w @ evs \<and> list_all P evs"
proof -
  from assms(3) obtain evs' where "w_trace (snd (m w')) = w_trace w' @ evs'" "list_all P evs'"
    by (auto simp: emits_def)
  with assms(1,2) show ?thesis by (intro exI [of _ "evs @ evs'"]) simp
qed

lemma emits_bind [emits_rules]:
  assumes "emits m P" "\<And>x. emits (k x) P"
  shows "emits (io_bind m k) P"
  unfolding emits_def
proof
  fix w
  from assms(1) obtain evs where evs: "w_trace (snd (m w)) = w_trace w @ evs" "list_all P evs"
    by (auto simp: emits_def)
  show "\<exists>evs. w_trace (snd (io_bind m k w)) = w_trace w @ evs \<and> list_all P evs"
  proof (cases "m w")
    case (Pair r w')
    with evs assms(2) show ?thesis
      by (cases r) (auto simp: io_bind_def intro: emits_append)
  qed
qed

lemma emits_catch [emits_rules]:
  assumes "emits m P" "\<And>e. emits (h e) P"
  shows "emits (io_catch m h) P"
  unfolding emits_def
proof
  fix w
  from assms(1) obtain evs where evs: "w_trace (snd (m w)) = w_trace w @ evs" "list_all P evs"
    by (auto simp: emits_def)
  show "\<exists>evs. w_trace (snd (io_catch m h w)) = w_trace w @ evs \<and> list_all P evs"
  proof (cases "m w")
    case (Pair r w')
    with evs assms(2) show ?thesis
      by (cases r) (auto simp: io_catch_def intro: emits_append)
  qed
qed

lemma emits_if [emits_rules]:
  "(c \<Longrightarrow> emits m P) \<Longrightarrow> (\<not> c \<Longrightarrow> emits n P) \<Longrightarrow> emits (if c then m else n) P"
  by simp

lemma emits_option [emits_rules]:
  "(x = None \<Longrightarrow> emits m P) \<Longrightarrow> (\<And>y. x = Some y \<Longrightarrow> emits (k y) P) \<Longrightarrow>
   emits (case x of None \<Rightarrow> m | Some y \<Rightarrow> k y) P"
  by (cases x) simp_all

lemma emits_mono: "emits m P \<Longrightarrow> (\<And>e. P e \<Longrightarrow> Q e) \<Longrightarrow> emits m Q"
  unfolding emits_def by (metis list.pred_mono_strong)

lemma emitsD:
  assumes "emits m P"
  obtains evs where "w_trace (snd (m w)) = w_trace w @ evs" "list_all P evs"
  using assms by (auto simp: emits_def)

end
