(* ===== verification/Target.thy ===== *)
theory Target
  imports Prelude
begin

text \<open>
  Where a browser may go and which addresses may be called as a computer:
  \<^verbatim>\<open>server/src/computer/target.ts\<close>.  The URL parser of the platform (\<^verbatim>\<open>new URL\<close>) is the parameter
  \<open>parse_url\<close>: \<open>None\<close> where it throws, otherwise the components the program reads.  Everything
  after the parse (canonical host names, IPv6 expansion, embedded IPv4 addresses, the private
  ranges) is modelled down to the integer operations.
\<close>

section \<open>Parsed addresses and verdicts\<close>

record url =
  url_protocol :: string
  url_hostname :: string
  url_host :: string
  url_href :: string

type_synonym url_parser = "string \<Rightarrow> url option"

datatype verdict = Allowed string | Refused string

definition allowed_protocols :: "string list" where
  "allowed_protocols = [''http:'', ''https:'']"

definition never_allowed_hostnames :: "string list" where
  "never_allowed_hostnames =
     [''169.254.169.254'', ''metadata.google.internal'', ''metadata.goog'', ''fd00:ec2::254'',
      ''169.254.170.2'', ''100.100.100.200'']"

definition internal_hostnames :: "string list" where
  "internal_hostnames = [''localhost'', ''127.0.0.1'', ''0.0.0.0'', ''::1'']"

section \<open>IPv6 and IPv4 as the program reads them\<close>

definition parse_groups :: "string \<Rightarrow> int option list" where
  "parse_groups part = (if part = [] then [] else map (parse_int 16) (split_on (CHR '':'') part))"

definition expand_ipv6 :: "string \<Rightarrow> int list option" where
  "expand_ipv6 hostname =
     (let halves = split_double_colon hostname in
      if 2 < length halves then None
      else
        let head = parse_groups (case halves of [] \<Rightarrow> [] | h # _ \<Rightarrow> h);
            tail = (case halves of [_, t] \<Rightarrow> parse_groups t | _ \<Rightarrow> [])
        in if None \<in> set (head @ tail) then None
           else if length halves = 1
             then (if length head = 8 then Some (map the head) else None)
           else if 8 < length head + length tail then None
           else Some (map the head @ replicate (8 - length head - length tail) 0 @ map the tail))"

definition dotted :: "int \<Rightarrow> int \<Rightarrow> int \<Rightarrow> int \<Rightarrow> string" where
  "dotted a b c d = join_with ''.'' (map show_int [a, b, c, d])"

definition embedded_ipv4 :: "int list \<Rightarrow> string option" where
  "embedded_ipv4 groups =
     (case groups of
        a # b # c # d # e # f # rest \<Rightarrow>
          let high = (case rest of [] \<Rightarrow> 0 | h # _ \<Rightarrow> h);
              low = (case rest of _ # l # _ \<Rightarrow> l | _ \<Rightarrow> 0);
              zeros = (a = 0 \<and> b = 0 \<and> c = 0 \<and> d = 0 \<and> e = 0);
              mapped = (zeros \<and> f = 0xffff);
              compatible = (zeros \<and> f = 0);
              nat64 = (a = 0x64 \<and> b = 0xff9b \<and> c = 0 \<and> d = 0 \<and> e = 0 \<and> f = 0)
          in if \<not> mapped \<and> \<not> compatible \<and> \<not> nat64 then None
             else if compatible \<and> js_shr high 8 = 0 then None
             else Some (dotted (js_shr high 8) (js_and high 255) (js_shr low 8) (js_and low 255))
      | _ \<Rightarrow> None)"

definition canonical_hostname :: "string \<Rightarrow> string" where
  "canonical_hostname hostname =
     (let name = rev (dropWhile (\<lambda>c. c = CHR ''.'') (rev hostname)) in
      if \<not> prefix ''['' name \<or> \<not> suffix '']'' name then name
      else
        let inner = butlast (tl name) in
        case expand_ipv6 inner of
          None \<Rightarrow> inner
        | Some groups \<Rightarrow> (case embedded_ipv4 groups of None \<Rightarrow> inner | Some v4 \<Rightarrow> v4))"

definition is_private_ipv6 :: "string \<Rightarrow> bool" where
  "is_private_ipv6 hostname =
     (if CHR '':'' \<notin> set hostname then False
      else case expand_ipv6 hostname of
        None \<Rightarrow> False
      | Some groups \<Rightarrow>
          if list_all (\<lambda>g. g = 0) groups then True
          else if list_all (\<lambda>g. g = 0) (take 7 groups) \<and> drop 7 groups = [1] then True
          else case groups of
            [] \<Rightarrow> False
          | first # _ \<Rightarrow>
              (0xfe80 \<le> first \<and> first \<le> 0xfebf) \<or> (0xfc00 \<le> first \<and> first \<le> 0xfdff))"

definition is_private_ipv4 :: "string \<Rightarrow> bool" where
  "is_private_ipv4 hostname =
     (case map (parse_int 10) (split_on (CHR ''.'') hostname) of
        [Some a, Some b, Some c, Some d] \<Rightarrow>
          if list_ex (\<lambda>v. v < 0 \<or> 255 < v) [a, b, c, d] then False
          else a = 10 \<or> a = 127 \<or> (a = 169 \<and> b = 254) \<or> (a = 172 \<and> 16 \<le> b \<and> b \<le> 31)
               \<or> (a = 192 \<and> b = 168)
      | _ \<Rightarrow> False)"

section \<open>The two checks\<close>

text \<open>\<^verbatim>\<open>url.protocol.replace(":", "")\<close>.\<close>

definition scheme_name :: "url \<Rightarrow> string" where
  "scheme_name u = replace_first '':'' [] (url_protocol u)"

definition check_computer_address :: "url_parser \<Rightarrow> string \<Rightarrow> verdict" where
  "check_computer_address parse_url raw =
     (case parse_url raw of
        None \<Rightarrow> Refused (''The computer's address is not a URL: '' @ raw)
      | Some u \<Rightarrow>
          if url_protocol u \<notin> set allowed_protocols
          then Refused (''A computer must be reached over http or https, not '' @ scheme_name u @ ''.'')
          else if canonical_hostname (js_lower (url_hostname u)) \<in> set never_allowed_hostnames
          then Refused (''That address holds this deployment's own cloud credentials, so it is never '' @
                        ''called as a computer.'')
          else Allowed (url_href u))"

definition check_navigation_target :: "url_parser \<Rightarrow> bool \<Rightarrow> string \<Rightarrow> verdict" where
  "check_navigation_target parse_url allow_private_hosts raw =
     (case parse_url raw of
        None \<Rightarrow> Refused ''That is not a web address.''
      | Some u \<Rightarrow>
          if url_protocol u \<notin> set allowed_protocols
          then Refused (''Only web addresses are allowed, and that one is '' @ scheme_name u @ ''.'')
          else
            let hostname = canonical_hostname (js_lower (url_hostname u)) in
            if hostname \<in> set never_allowed_hostnames
            then Refused (''That address holds this deployment's own cloud credentials, so the '' @
                          ''assistant is never allowed to open it.'')
            else if allow_private_hosts then Allowed (url_href u)
            else if hostname \<in> set internal_hostnames \<or> is_private_ipv4 hostname
                    \<or> is_private_ipv6 hostname
            then Refused (''That address is inside this deployment's own network, so the assistant '' @
                          ''is not allowed to open it.'')
            else Allowed (url_href u))"

section \<open>Integer operations on a 16-bit group\<close>

lemma sint_to_int32: "0 \<le> x \<Longrightarrow> x < 65536 \<Longrightarrow> sint (to_int32 x) = x"
  unfolding to_int32_def by (simp add: sint_sbintrunc' signed_take_bit_int_eq_self)

lemma js_shr_group: "0 \<le> x \<Longrightarrow> x < 65536 \<Longrightarrow> js_shr x 8 = x div 256"
  by (simp add: js_shr_def sint_signed_drop_bit_eq sint_to_int32 drop_bit_eq_div)

lemma js_and_group:
  assumes "0 \<le> x" "x < 65536"
  shows "js_and x 255 = x mod 256"
proof -
  have "js_and x 255 = and x 255"
    using assms by (simp add: js_and_def signed_and_eq sint_to_int32)
  also have "\<dots> = take_bit 8 x" by (simp add: take_bit_eq_mask mask_eq_exp_minus_1)
  finally show ?thesis by (simp add: take_bit_eq_mod)
qed

section \<open>Dotted quads\<close>

definition octet :: "int \<Rightarrow> bool" where
  "octet v \<longleftrightarrow> 0 \<le> v \<and> v \<le> 255"

definition private_quad :: "int \<Rightarrow> int \<Rightarrow> bool" where
  "private_quad a b \<longleftrightarrow>
     a = 10 \<or> a = 127 \<or> (a = 169 \<and> b = 254) \<or> (a = 172 \<and> 16 \<le> b \<and> b \<le> 31) \<or> (a = 192 \<and> b = 168)"

lemma show_int_octet:
  assumes "octet v"
  shows "parse_int 10 (show_int v) = Some v"
    and "CHR ''.'' \<notin> set (show_int v)" and "CHR '':'' \<notin> set (show_int v)"
proof -
  have v: "show_int v = show_nat (nat v)" using assms by (simp add: octet_def show_int_def)
  then show "parse_int 10 (show_int v) = Some v" using assms by (simp add: octet_def)
  show "CHR ''.'' \<notin> set (show_int v)" "CHR '':'' \<notin> set (show_int v)"
    unfolding v using set_show_nat digit_char_not_sign by metis+
qed

lemma split_dotted:
  assumes "octet a" "octet b" "octet c" "octet d"
  shows "split_on (CHR ''.'') (dotted a b c d) = map show_int [a, b, c, d]"
  unfolding dotted_def using assms by (intro split_join) (auto simp: show_int_octet)

lemma dotted_no_colon:
  assumes "octet a" "octet b" "octet c" "octet d"
  shows "CHR '':'' \<notin> set (dotted a b c d)"
  using assms by (auto simp: dotted_def show_int_octet)

text \<open>The private IPv4 ranges: for octets \<open>a.b.c.d\<close> written in decimal, the check answers exactly
  for 10/8, 127/8, 169.254/16, 172.16/12 and 192.168/16.\<close>

lemma is_private_ipv4_dotted:
  assumes "octet a" "octet b" "octet c" "octet d"
  shows "is_private_ipv4 (dotted a b c d) \<longleftrightarrow> private_quad a b"
proof -
  have "map (parse_int 10) (split_on (CHR ''.'') (dotted a b c d)) = map Some [a, b, c, d]"
    using assms by (simp add: split_dotted show_int_octet)
  then show ?thesis
    using assms by (auto simp: is_private_ipv4_def private_quad_def octet_def)
qed

section \<open>Expansion\<close>

lemma split_double_colon_no_colon: "CHR '':'' \<notin> set s \<Longrightarrow> split_double_colon s = [s]"
  by (induction s rule: split_double_colon.induct) auto

lemma expand_ipv6_length: "expand_ipv6 s = Some gs \<Longrightarrow> length gs = 8"
  by (auto simp: expand_ipv6_def Let_def split: if_splits list.splits)

lemma expand_ipv6_colon:
  assumes "expand_ipv6 s = Some gs"
  shows "CHR '':'' \<in> set s"
proof (rule ccontr)
  assume no: "CHR '':'' \<notin> set s"
  then have "split_on (CHR '':'') s = [s]" by (intro split_when_none) auto
  then have "length (parse_groups s) \<le> 1" by (simp add: parse_groups_def)
  with no assms show False
    by (auto simp: expand_ipv6_def split_double_colon_no_colon Let_def split: if_splits)
qed

lemma list8: "length xs = 8 \<Longrightarrow> \<exists>a b c d e f g h. xs = [a, b, c, d, e, f, g, h]"
  by (auto simp: eval_nat_numeral length_Suc_conv)

lemma canonical_bracketed:
  "canonical_hostname (''['' @ inner @ '']'') =
     (case expand_ipv6 inner of
        None \<Rightarrow> inner
      | Some groups \<Rightarrow> (case embedded_ipv4 groups of None \<Rightarrow> inner | Some v4 \<Rightarrow> v4))"
proof -
  have "rev (dropWhile (\<lambda>c. c = CHR ''.'') (rev (''['' @ inner @ '']''))) = ''['' @ inner @ '']''"
    by simp
  moreover have "suffix '']'' (''['' @ inner @ '']'')" by (simp add: suffix_def)
  ultimately show ?thesis by (simp add: canonical_hostname_def Let_def butlast_append)
qed

text \<open>
  The three prefixes under which the last two groups are an IPv4 address: mapped, NAT64, and the
  compatible form outside 0.0.0.0/8.
\<close>

definition carries_ipv4 :: "int list \<Rightarrow> bool" where
  "carries_ipv4 gs \<longleftrightarrow>
     take 6 gs = [0, 0, 0, 0, 0, 0xffff] \<or> take 6 gs = [0x64, 0xff9b, 0, 0, 0, 0]
     \<or> (take 6 gs = [0, 0, 0, 0, 0, 0] \<and> 256 \<le> gs ! 6)"

definition carried_quad :: "int list \<Rightarrow> string" where
  "carried_quad gs = dotted (gs ! 6 div 256) (gs ! 6 mod 256) (gs ! 7 div 256) (gs ! 7 mod 256)"

definition group16 :: "int \<Rightarrow> bool" where
  "group16 g \<longleftrightarrow> 0 \<le> g \<and> g < 65536"

lemma group16_octets: "group16 g \<Longrightarrow> octet (g div 256) \<and> octet (g mod 256)"
  by (auto simp: group16_def octet_def)

lemma embedded_ipv4_spec:
  assumes "length gs = 8" "list_all group16 gs"
  shows "embedded_ipv4 gs = (if carries_ipv4 gs then Some (carried_quad gs) else None)"
proof -
  obtain a b c d e f h l where gs: "gs = [a, b, c, d, e, f, h, l]"
    using list8 [OF assms(1)] by blast
  then have h: "0 \<le> h" "h < 65536" and l: "0 \<le> l" "l < 65536"
    using assms(2) by (simp_all add: group16_def)
  have z: "h div 256 = 0 \<longleftrightarrow> \<not> 256 \<le> h" using h by auto
  have q: "carried_quad gs = dotted (h div 256) (h mod 256) (l div 256) (l mod 256)"
    by (simp add: gs carried_quad_def)
  have c: "carries_ipv4 gs \<longleftrightarrow>
      (a = 0 \<and> b = 0 \<and> c = 0 \<and> d = 0 \<and> e = 0 \<and> f = 0xffff)
      \<or> (a = 0x64 \<and> b = 0xff9b \<and> c = 0 \<and> d = 0 \<and> e = 0 \<and> f = 0)
      \<or> (a = 0 \<and> b = 0 \<and> c = 0 \<and> d = 0 \<and> e = 0 \<and> f = 0 \<and> 256 \<le> h)"
    by (simp add: gs carries_ipv4_def)
  show ?thesis
    unfolding c q unfolding gs embedded_ipv4_def Let_def list.case
      js_shr_group [OF h] js_shr_group [OF l] js_and_group [OF h] js_and_group [OF l] z
    by (cases "f = 65535"; cases "f = 0"; cases "a = 0"; cases "256 \<le> h"; simp)
qed

text \<open>No spelling hides an IPv4 address: for a bracketed host whose text expands to 16-bit groups,
  the canonical host is the dotted quad in its last 32 bits whenever the prefix carries one
  (IPv4-mapped, NAT64, or compatible outside 0.0.0.0/8), however the groups were written, and the
  text between the brackets otherwise.\<close>

lemma canonical_unwraps_ipv4:
  assumes "expand_ipv6 inner = Some gs" "list_all group16 gs"
  shows "canonical_hostname (''['' @ inner @ '']'') =
           (if carries_ipv4 gs then carried_quad gs else inner)"
  using assms expand_ipv6_length [OF assms(1)]
  by (simp add: canonical_bracketed embedded_ipv4_spec del: append.simps)

lemma replicate_unfold: "replicate (numeral k) x = x # replicate (pred_numeral k) x"
  by (simp add: numeral_eq_Suc)

lemmas ipv6_text_simps =
  expand_ipv6_def parse_groups_def parse_int_def strip_hex_def digit_value_def char_code_def
  js_space_def group16_def carries_ipv4_def carried_quad_def dotted_def show_int_def
  digit_char_def show_nat.simps replicate_unfold

lemma nat64_sample: "expand_ipv6 ''64:ff9b::a9fe:a9fe'' = Some [0x64, 0xff9b, 0, 0, 0, 0, 0xa9fe, 0xa9fe]"
  by (simp add: ipv6_text_simps)

section \<open>The navigation check\<close>

lemma lower_bracketed: "js_lower (''['' @ inner @ '']'') = ''['' @ js_lower inner @ '']''"
  by (simp add: js_lower_def lower_char_def upper_code_def char_code_def)

definition private_groups :: "int list \<Rightarrow> bool" where
  "private_groups gs \<longleftrightarrow>
     gs = [0, 0, 0, 0, 0, 0, 0, 0] \<or> gs = [0, 0, 0, 0, 0, 0, 0, 1]
     \<or> (0xfe80 \<le> gs ! 0 \<and> gs ! 0 \<le> 0xfebf) \<or> (0xfc00 \<le> gs ! 0 \<and> gs ! 0 \<le> 0xfdff)"

lemma is_private_ipv6_groups:
  assumes "expand_ipv6 h = Some gs"
  shows "is_private_ipv6 h \<longleftrightarrow> private_groups gs"
proof -
  obtain a b c d e f g i where gs: "gs = [a, b, c, d, e, f, g, i]"
    using list8 [OF expand_ipv6_length [OF assms]] by blast
  show ?thesis
    using assms expand_ipv6_colon [OF assms]
    by (auto simp: is_private_ipv6_def private_groups_def gs)
qed

lemma navigation_allowed_cases:
  "check_navigation_target parse_url opt raw = Allowed href \<longleftrightarrow>
     (\<exists>u. parse_url raw = Some u \<and> href = url_href u \<and> url_protocol u \<in> set allowed_protocols
        \<and> (let h = canonical_hostname (js_lower (url_hostname u)) in
           h \<notin> set never_allowed_hostnames
           \<and> (opt \<or> h \<notin> set internal_hostnames \<and> \<not> is_private_ipv4 h \<and> \<not> is_private_ipv6 h)))"
  by (auto simp: check_navigation_target_def Let_def split: option.splits if_splits)

lemma computer_allowed_cases:
  "check_computer_address parse_url raw = Allowed href \<longleftrightarrow>
     (\<exists>u. parse_url raw = Some u \<and> href = url_href u \<and> url_protocol u \<in> set allowed_protocols
        \<and> canonical_hostname (js_lower (url_hostname u)) \<notin> set never_allowed_hostnames)"
  by (auto simp: check_computer_address_def split: option.splits if_splits)

lemma not_Allowed_iff: "(\<nexists>h. v = Allowed h) \<longleftrightarrow> (\<exists>r. v = Refused r)"
  by (cases v) auto

text \<open>C12: what an allowed navigation is, without the private-host opt-in. The address parsed, its scheme
  is http or https, and its canonical host is none of the metadata names, none of the loopback
  names, no private IPv4 quad in any of the five ranges, and no loopback, link-local or
  unique-local IPv6 address.\<close>

theorem navigation_stays_outside:
  assumes "check_navigation_target parse_url False raw = Allowed href"
  shows "\<exists>u h. parse_url raw = Some u \<and> href = url_href u
           \<and> url_protocol u \<in> {''http:'', ''https:''}
           \<and> h = canonical_hostname (js_lower (url_hostname u))
           \<and> h \<notin> set never_allowed_hostnames \<and> h \<notin> set internal_hostnames
           \<and> (\<forall>a b c d. octet a \<and> octet b \<and> octet c \<and> octet d \<and> private_quad a b
                 \<longrightarrow> h \<noteq> dotted a b c d)
           \<and> (\<forall>gs. expand_ipv6 h = Some gs \<longrightarrow> \<not> private_groups gs)"
proof -
  obtain u where u: "parse_url raw = Some u" "href = url_href u"
    "url_protocol u \<in> set allowed_protocols" and
    h: "canonical_hostname (js_lower (url_hostname u)) \<notin> set never_allowed_hostnames"
      "canonical_hostname (js_lower (url_hostname u)) \<notin> set internal_hostnames"
      "\<not> is_private_ipv4 (canonical_hostname (js_lower (url_hostname u)))"
      "\<not> is_private_ipv6 (canonical_hostname (js_lower (url_hostname u)))"
    using assms unfolding navigation_allowed_cases Let_def by blast
  from h(3) have "octet a \<and> octet b \<and> octet c \<and> octet d \<and> private_quad a b \<Longrightarrow>
      canonical_hostname (js_lower (url_hostname u)) \<noteq> dotted a b c d" for a b c d
    using is_private_ipv4_dotted by metis
  with u h is_private_ipv6_groups show ?thesis
    unfolding allowed_protocols_def by fastforce
qed

text \<open>C13: an IPv6 spelling of an inside address is refused. When the bracketed host expands to groups
  that are loopback, unspecified, link-local or unique-local, or that carry a private IPv4 address
  or one of the deployment's own IPv4 names, the navigation is refused unless private hosts were
  opted into.\<close>

theorem navigation_refuses_ipv6_spellings:
  assumes "parse_url raw = Some u" "url_hostname u = ''['' @ inner @ '']''"
    and "expand_ipv6 (js_lower inner) = Some gs" "list_all group16 gs"
    and "if carries_ipv4 gs
         then private_quad (gs ! 6 div 256) (gs ! 6 mod 256)
              \<or> carried_quad gs \<in> set internal_hostnames
         else private_groups gs"
  shows "\<exists>r. check_navigation_target parse_url False raw = Refused r"
proof -
  let ?h = "canonical_hostname (js_lower (url_hostname u))"
  have h: "?h = (if carries_ipv4 gs then carried_quad gs else js_lower inner)"
    unfolding assms(2) lower_bracketed using canonical_unwraps_ipv4 [OF assms(3,4)] .
  have g: "group16 (gs ! 6)" "group16 (gs ! 7)"
    using assms(4) expand_ipv6_length [OF assms(3)] by (simp_all add: list_all_length)
  have "?h \<in> set internal_hostnames \<or> is_private_ipv4 ?h \<or> is_private_ipv6 ?h"
  proof (cases "carries_ipv4 gs")
    case True
    then have "is_private_ipv4 ?h \<longleftrightarrow> private_quad (gs ! 6 div 256) (gs ! 6 mod 256)"
      unfolding h using g by (simp add: carried_quad_def is_private_ipv4_dotted group16_octets)
    with True assms(5) h show ?thesis by auto
  next
    case False
    with h assms(5) is_private_ipv6_groups [OF assms(3)] show ?thesis by auto
  qed
  then have "\<nexists>href. check_navigation_target parse_url False raw = Allowed href"
    using assms(1) unfolding navigation_allowed_cases Let_def by auto
  then show ?thesis by (simp only: not_Allowed_iff)
qed

definition sample_url :: "string \<Rightarrow> string \<Rightarrow> url" where
  "sample_url hostname raw =
     \<lparr>url_protocol = ''http:'', url_hostname = hostname, url_host = hostname, url_href = raw\<rparr>"

definition sample_parse :: "string \<Rightarrow> url_parser" where
  "sample_parse hostname raw = Some (sample_url hostname raw)"

lemma sample_url_sel [simp]:
  "url_protocol (sample_url h raw) = ''http:''" "url_hostname (sample_url h raw) = h"
  "url_href (sample_url h raw) = raw" "sample_parse h raw = Some (sample_url h raw)"
  by (simp_all add: sample_url_def sample_parse_def)

lemma mapped_sample: "expand_ipv6 (js_lower ''::FFFF:0:0'') = Some [0, 0, 0, 0, 0, 0xffff, 0, 0]"
proof -
  have "js_lower ''::FFFF:0:0'' = ''::ffff:0:0''" by code_simp
  then show ?thesis by (simp add: ipv6_text_simps)
qed

theorem navigation_refuses_ipv6_spellings_witness:
  "\<exists>r. check_navigation_target (sample_parse ''[::FFFF:0:0]'') False ''http://x/'' = Refused r"
  by (rule navigation_refuses_ipv6_spellings
        [where u = "sample_url ''[::FFFF:0:0]'' ''http://x/''", OF _ _ mapped_sample])
    (simp_all add: ipv6_text_simps internal_hostnames_def char_of_eq_iff)

theorem navigation_stays_outside_witness:
  "canonical_hostname (js_lower ''news.example'') \<notin> set internal_hostnames"
proof -
  have h: "canonical_hostname (js_lower ''news.example'') = ''news.example''"
    by (simp add: canonical_hostname_def js_lower_def lower_char_def upper_code_def char_code_def)
  have "check_navigation_target (sample_parse ''news.example'') False ''http://news.example/''
      = Allowed ''http://news.example/''"
    by (simp add: check_navigation_target_def h never_allowed_hostnames_def ipv6_text_simps
        allowed_protocols_def internal_hostnames_def is_private_ipv4_def is_private_ipv6_def)
  from navigation_stays_outside [OF this] h show ?thesis
    by simp
qed

text \<open>No configuration reaches the metadata endpoint. A host whose canonical form is on the
  never-allowed list is refused by the navigation check with and without the private-host opt-in,
  and as a computer's address; in particular every IPv6 spelling that carries such an IPv4 address
  is.\<close>

theorem metadata_never_reached:
  assumes "parse_url raw = Some u" "url_hostname u = ''['' @ inner @ '']''"
    and "expand_ipv6 (js_lower inner) = Some gs" "list_all group16 gs"
    and "carries_ipv4 gs" "carried_quad gs \<in> set never_allowed_hostnames"
  shows "(\<exists>r. check_navigation_target parse_url opt raw = Refused r)
       \<and> (\<exists>r. check_computer_address parse_url raw = Refused r)"
proof -
  have "canonical_hostname (js_lower (url_hostname u)) = carried_quad gs"
    unfolding assms(2) lower_bracketed using canonical_unwraps_ipv4 [OF assms(3,4)] assms(5) by simp
  with assms(1,6) have "\<nexists>href. check_navigation_target parse_url opt raw = Allowed href"
    "\<nexists>href. check_computer_address parse_url raw = Allowed href"
    unfolding navigation_allowed_cases computer_allowed_cases Let_def by auto
  then show ?thesis by (simp only: not_Allowed_iff)
qed

theorem metadata_never_reached_witness:
  "\<exists>r. check_navigation_target (sample_parse ''[64:ff9b::a9fe:a9fe]'') True ''http://x/'' = Refused r"
proof -
  have low: "js_lower ''64:ff9b::a9fe:a9fe'' = ''64:ff9b::a9fe:a9fe''"
    by (simp add: js_lower_def lower_char_def upper_code_def char_code_def)
  show ?thesis
    by (rule metadata_never_reached [where u = "sample_url ''[64:ff9b::a9fe:a9fe]'' ''http://x/''"
          and inner = "''64:ff9b::a9fe:a9fe''", unfolded low, OF _ _ nat64_sample, THEN conjunct1])
      (simp_all add: ipv6_text_simps never_allowed_hostnames_def char_of_eq_iff)
qed

text \<open>The two checks agree where they overlap. Whatever a Bot may browse to, under either setting
  of the opt-in, is an address the computer check accepts, with the same normalised URL.\<close>

theorem navigation_implies_computer_address:
  assumes "check_navigation_target parse_url opt raw = Allowed href"
  shows "check_computer_address parse_url raw = Allowed href"
  using assms unfolding navigation_allowed_cases computer_allowed_cases Let_def by blast

theorem navigation_implies_computer_address_witness:
  "check_computer_address (sample_parse ''localhost'') ''http://localhost:3000/''
     = Allowed ''http://localhost:3000/''"
  by (rule navigation_implies_computer_address [where opt = True])
    (simp add: check_navigation_target_def allowed_protocols_def never_allowed_hostnames_def
      canonical_hostname_def js_lower_def lower_char_def upper_code_def char_code_def)

end
