(* ===== verification/Transport.thy ===== *)
theory Transport
  imports Effects Target
begin

text \<open>
  The HTTP client of one computer: \<^verbatim>\<open>server/src/computer/client.ts\<close>.  The network is the function
  \<open>net_fetch\<close> of the environment.  A caller's abort signal is a name; \<open>net_aborted\<close> says whether it
  has fired.
\<close>

record network =
  net_fetch :: "trace \<Rightarrow> http_request \<Rightarrow> fetch_outcome"
  net_aborted :: "trace \<Rightarrow> string \<Rightarrow> bool"
  net_token :: "string option"
  net_private_hosts :: bool
  net_timeout_ms :: int
  net_parse_url :: url_parser

section \<open>Errors of a computer's answer\<close>

definition not_line_end :: "char \<Rightarrow> bool" where
  "not_line_end c \<longleftrightarrow> char_code c \<noteq> 10 \<and> char_code c \<noteq> 13"

text \<open>\<^verbatim>\<open>/waiting for locator|Timeout .* exceeded/i\<close>.\<close>

fun timeout_exceeded :: "string \<Rightarrow> bool" where
  "timeout_exceeded [] = False"
| "timeout_exceeded (c # cs) =
     ((prefix ''timeout '' (c # cs)
       \<and> str_includes (takeWhile not_line_end (drop 8 (c # cs))) '' exceeded'')
      \<or> timeout_exceeded cs)"

definition locator_failure :: "string \<Rightarrow> bool" where
  "locator_failure detail \<longleftrightarrow>
     str_includes (js_lower detail) ''waiting for locator'' \<or> timeout_exceeded (js_lower detail)"

definition ref_char :: "char \<Rightarrow> bool" where
  "ref_char c \<longleftrightarrow> alphanumeric c \<or> c = CHR ''_'' \<or> c = CHR ''-''"

text \<open>\<^verbatim>\<open>detail.match(/aria-ref=([A-Za-z0-9_-]+)/)?.[1]\<close>.\<close>

fun find_aria_ref :: "string \<Rightarrow> string option" where
  "find_aria_ref [] = None"
| "find_aria_ref (c # cs) =
     (if prefix ''aria-ref='' (c # cs) \<and> takeWhile ref_char (drop 9 (c # cs)) \<noteq> []
      then Some (takeWhile ref_char (drop 9 (c # cs)))
      else find_aria_ref cs)"

definition mapped_error :: "int \<Rightarrow> jsv option \<Rightarrow> error" where
  "mapped_error status body =
     (let field = (\<lambda>k. case body of None \<Rightarrow> None | Some b \<Rightarrow> js_field b k);
          detail = (case field ''error'' of
                      Some (JStr s) \<Rightarrow> s
                    | _ \<Rightarrow> ''HTTP '' @ show_int status)
      in if status = 409
         then (if field ''humanHasControl'' = Some (JBool True) then Human_has_control detail
               else Stale_snapshot detail)
         else if status = 403 then Workspace_refused detail
         else if status = 400 then Workspace_request detail
         else if locator_failure detail
         then Element_not_found
                ((case find_aria_ref detail of
                    Some ref \<Rightarrow> ''Element '' @ ref @ '' is''
                  | None \<Rightarrow> ''That element is'') @
                 '' not on the page any more. Take a fresh snapshot and use the refs from it.'')
         else Computer_unavailable detail)"

section \<open>Requests\<close>

definition without_trailing_slash :: "string \<Rightarrow> string" where
  "without_trailing_slash s = (if s \<noteq> [] \<and> last s = CHR ''/'' then butlast s else s)"

definition request_headers :: "network \<Rightarrow> string \<Rightarrow> (string \<times> string) list \<Rightarrow> (string \<times> string) list" where
  "request_headers net bot_id given =
     given @ [(''x-openbot-bot-id'', bot_id)] @
     (if truthy (net_token net) then [(''x-openbot-computer-token'', the (net_token net))] else [])"

text \<open>The part of \<^verbatim>\<open>RequestInit\<close> the client is called with.\<close>

record request_init =
  init_method :: string
  init_headers :: "(string \<times> string) list"
  init_body :: "jsv option"

definition get_init :: request_init where
  "get_init = \<lparr>init_method = ''GET'', init_headers = [], init_body = None\<rparr>"

definition response_ok :: "int \<Rightarrow> bool" where
  "response_ok status \<longleftrightarrow> 200 \<le> status \<and> status \<le> 299"

definition computer_call ::
  "network \<Rightarrow> string \<Rightarrow> string \<Rightarrow> string \<Rightarrow> request_init \<Rightarrow> string option \<Rightarrow> int option \<Rightarrow>
   ('st world, jsv) io" where
  "computer_call net base_url bot_id path init caller timeout_override w =
     (if (case caller of None \<Rightarrow> False | Some sig \<Rightarrow> net_aborted net (w_trace w) sig)
      then io_throw (Computer_unavailable ''The action was stopped.'') w
      else
        let timeout = (case timeout_override of None \<Rightarrow> net_timeout_ms net | Some t \<Rightarrow> t);
            rq = \<lparr>rq_url = without_trailing_slash base_url @ path,
                  rq_method = init_method init,
                  rq_headers = request_headers net bot_id (init_headers init),
                  rq_body = init_body init,
                  rq_timeout_ms = timeout\<rparr>
        in io_bind (effect (Ev_fetch rq) (\<lambda>tr. Inr (net_fetch net tr rq)))
             (\<lambda>outcome. case outcome of
                Timed_out \<Rightarrow>
                  io_throw (Computer_unavailable ''The assistant's computer did not respond in time.'')
              | Not_reached \<Rightarrow>
                  io_throw (Computer_unavailable ''The assistant's computer is not running.'')
              | Response status body \<Rightarrow>
                  if response_ok status
                  then io_return (case body of None \<Rightarrow> JNull | Some b \<Rightarrow> b)
                  else io_throw (mapped_error status body)) w)"

definition computer_post ::
  "network \<Rightarrow> string \<Rightarrow> string \<Rightarrow> string \<Rightarrow> jsv \<Rightarrow> string option \<Rightarrow> int option \<Rightarrow>
   ('st world, jsv) io" where
  "computer_post net base_url bot_id path payload caller timeout =
     computer_call net base_url bot_id path
       \<lparr>init_method = ''POST'', init_headers = [(''content-type'', ''application/json'')],
        init_body = Some payload\<rparr>
       caller timeout"

definition computer_navigate ::
  "network \<Rightarrow> string \<Rightarrow> string \<Rightarrow> string \<Rightarrow> ('st world, jsv) io" where
  "computer_navigate net base_url bot_id target =
     (case check_navigation_target (net_parse_url net) (net_private_hosts net) target of
        Refused reason \<Rightarrow> io_throw (Navigation_refused reason)
      | Allowed href \<Rightarrow>
          computer_post net base_url bot_id ''/navigate'' (JObj [(''url'', JStr href)]) None None)"

section \<open>What a call sends\<close>

definition fetch_to :: "string \<Rightarrow> event \<Rightarrow> bool" where
  "fetch_to u e \<longleftrightarrow> (\<exists>rq. e = Ev_fetch rq \<and> rq_url rq = u)"

lemma computer_call_emits:
  "emits (computer_call net base bot_id path init caller timeout)
     (fetch_to (without_trailing_slash base @ path))"
  unfolding emits_def computer_call_def Let_def
  by (auto simp: io_throw_def io_bind_def io_return_def effect_def fetch_to_def
      split: fetch_outcome.splits)

lemma computer_post_emits:
  "emits (computer_post net base bot_id path payload caller timeout)
     (fetch_to (without_trailing_slash base @ path))"
  unfolding computer_post_def by (rule computer_call_emits)

lemma computer_call_store: "w_store (snd (computer_call net base bot_id path init caller timeout w)) = w_store w"
  by (auto simp: computer_call_def io_throw_def io_bind_def io_return_def effect_def Let_def
      split: fetch_outcome.splits)

text \<open>A stop that arrived first sends nothing. When the caller's signal has already fired, the call
  answers that the action was stopped and no request leaves; otherwise exactly one request does, to
  the computer's address, carrying the Bot's id, and the computer token when there is one.\<close>

theorem call_sends_once:
  "w_trace (snd (computer_call net base bot_id path init caller timeout w)) =
     w_trace w @
       (if (case caller of None \<Rightarrow> False | Some sig \<Rightarrow> net_aborted net (w_trace w) sig) then []
        else [Ev_fetch
          \<lparr>rq_url = without_trailing_slash base @ path, rq_method = init_method init,
           rq_headers = init_headers init @ (''x-openbot-bot-id'', bot_id) #
             (case net_token net of
                None \<Rightarrow> []
              | Some t \<Rightarrow> if t = [] then [] else [(''x-openbot-computer-token'', t)]),
           rq_body = init_body init,
           rq_timeout_ms = (case timeout of None \<Rightarrow> net_timeout_ms net | Some t \<Rightarrow> t)\<rparr>])"
  by (auto simp: computer_call_def io_throw_def io_bind_def io_return_def effect_def Let_def
      request_headers_def split: fetch_outcome.splits option.splits)

text \<open>The kind of a 409 decides what the Bot is told. A refusal is a person holding the wheel exactly
  when the body says so with the boolean true, every other 409 is a stale snapshot, and no other
  status yields either.\<close>

theorem mapped_error_409:
  "((\<exists>m. mapped_error status body = Human_has_control m) \<longleftrightarrow>
      status = 409 \<and> (\<exists>b. body = Some b \<and> js_field b ''humanHasControl'' = Some (JBool True)))
   \<and> ((\<exists>m. mapped_error status body = Stale_snapshot m) \<longleftrightarrow>
      status = 409 \<and> \<not> (\<exists>b. body = Some b \<and> js_field b ''humanHasControl'' = Some (JBool True)))"
  by (cases body) (auto simp: mapped_error_def Let_def)

end
