(* ===== verification/Snapshots.thy ===== *)
theory Snapshots
  imports Prelude
begin

text \<open>
  Where the gateway keeps the snapshot a ref is resolved against:
  \<^verbatim>\<open>server/src/computer/snapshot-store.ts\<close>.  The two stores of the program are modelled side by
  side, the one in memory and the table of the database with the \<^verbatim>\<open>setWhere\<close> guard of its upsert,
  and the contract both keep is the locale \<open>snapshot_store\<close>.
\<close>

section \<open>Snapshots\<close>

record snapshot_element =
  se_ref :: string
  se_role :: string
  se_name :: string
  se_value :: "string option"
  se_type :: "string option"
  se_disabled :: "bool option"
  se_checked :: "bool option"

record stored_snapshot =
  ss_id :: int
  ss_url :: string
  ss_elements :: "string \<rightharpoonup> snapshot_element"
  ss_session :: "string option"

section \<open>The store in memory\<close>

type_synonym memory_store = "string \<rightharpoonup> stored_snapshot"

definition memory_save :: "string \<Rightarrow> stored_snapshot \<Rightarrow> memory_store \<Rightarrow> memory_store" where
  "memory_save computer_id snapshot snapshots =
     (case snapshots computer_id of
        Some held \<Rightarrow>
          if ss_session held = ss_session snapshot \<and> ss_id held \<ge> ss_id snapshot then snapshots
          else snapshots(computer_id \<mapsto> snapshot)
      | None \<Rightarrow> snapshots(computer_id \<mapsto> snapshot))"

definition memory_load :: "string \<Rightarrow> memory_store \<Rightarrow> stored_snapshot option" where
  "memory_load computer_id snapshots = snapshots computer_id"

definition memory_clear :: "string \<Rightarrow> memory_store \<Rightarrow> memory_store" where
  "memory_clear computer_id snapshots = snapshots(computer_id := None)"

section \<open>The store in the database\<close>

text \<open>A row of \<^verbatim>\<open>computer_snapshot\<close>; the session column is nullable.\<close>

record snapshot_row =
  row_snapshot_id :: int
  row_url :: string
  row_elements :: "string \<rightharpoonup> snapshot_element"
  row_taken_at :: int
  row_session :: "string option"

type_synonym snapshot_table = "string \<rightharpoonup> snapshot_row"

definition row_of :: "int \<Rightarrow> stored_snapshot \<Rightarrow> snapshot_row" where
  "row_of now snapshot =
     \<lparr>row_snapshot_id = ss_id snapshot, row_url = ss_url snapshot,
      row_elements = ss_elements snapshot, row_taken_at = now,
      row_session = ss_session snapshot\<rparr>"

text \<open>The condition under which the row that is there gives way to the new values.\<close>

definition set_where :: "snapshot_row \<Rightarrow> snapshot_row \<Rightarrow> bool" where
  "set_where old new \<longleftrightarrow>
     row_snapshot_id old < row_snapshot_id new
     \<or> (if row_session new = None then row_session old \<noteq> None
        else row_session old = None \<or> row_session old \<noteq> row_session new)"

definition table_save :: "int \<Rightarrow> string \<Rightarrow> stored_snapshot \<Rightarrow> snapshot_table \<Rightarrow> snapshot_table" where
  "table_save now computer_id snapshot table =
     (let new = row_of now snapshot in
      case table computer_id of
        None \<Rightarrow> table(computer_id \<mapsto> new)
      | Some old \<Rightarrow> if set_where old new then table(computer_id \<mapsto> new) else table)"

definition table_clear :: "string \<Rightarrow> snapshot_table \<Rightarrow> snapshot_table" where
  "table_clear computer_id table = table(computer_id := None)"

definition snapshot_of_row :: "snapshot_row \<Rightarrow> stored_snapshot" where
  "snapshot_of_row row =
     \<lparr>ss_id = row_snapshot_id row, ss_url = row_url row, ss_elements = row_elements row,
      ss_session = (if truthy (row_session row) then row_session row else None)\<rparr>"

definition table_load :: "string \<Rightarrow> snapshot_table \<Rightarrow> stored_snapshot option" where
  "table_load computer_id table = map_option snapshot_of_row (table computer_id)"

section \<open>The contract\<close>

text \<open>
  A snapshot replaces the one that is held when it comes from another run of the computer, or is a
  later generation of the same run.  A session is never the empty string: the gateway leaves an
  empty one out.
\<close>

definition supersedes :: "stored_snapshot \<Rightarrow> stored_snapshot \<Rightarrow> bool" where
  "supersedes new held \<longleftrightarrow> ss_session held \<noteq> ss_session new \<or> ss_id held < ss_id new"

definition proper_session :: "stored_snapshot \<Rightarrow> bool" where
  "proper_session s \<longleftrightarrow> ss_session s \<noteq> Some []"

locale snapshot_store =
  fixes save :: "string \<Rightarrow> stored_snapshot \<Rightarrow> 'st \<Rightarrow> 'st"
    and load :: "string \<Rightarrow> 'st \<Rightarrow> stored_snapshot option"
    and clear :: "string \<Rightarrow> 'st \<Rightarrow> 'st"
    and invar :: "'st \<Rightarrow> bool"
  assumes load_save:
      "invar st \<Longrightarrow> proper_session s \<Longrightarrow>
       load c (save c s st) =
         (case load c st of None \<Rightarrow> Some s | Some h \<Rightarrow> if supersedes s h then Some s else Some h)"
    and load_save_other: "invar st \<Longrightarrow> c \<noteq> c' \<Longrightarrow> load c' (save c s st) = load c' st"
    and load_clear: "invar st \<Longrightarrow> load c (clear c st) = None"
    and load_clear_other: "invar st \<Longrightarrow> c \<noteq> c' \<Longrightarrow> load c' (clear c st) = load c' st"
    and invar_save: "invar st \<Longrightarrow> proper_session s \<Longrightarrow> invar (save c s st)"
    and invar_clear: "invar st \<Longrightarrow> invar (clear c st)"
begin

lemma load_save_same_session:
  assumes "invar st" "proper_session s" "load c st = Some h" "ss_session h = ss_session s"
  shows "load c (save c s st) = Some (if ss_id h < ss_id s then s else h)"
  using assms by (simp add: load_save supersedes_def)

lemma load_save_new_session:
  assumes "invar st" "proper_session s" "load c st = Some h" "ss_session h \<noteq> ss_session s"
  shows "load c (save c s st) = Some s"
  using assms by (simp add: load_save supersedes_def)

lemma save_then_clear:
  "invar st \<Longrightarrow> proper_session s \<Longrightarrow> load c (clear c (save c s st)) = None"
  by (simp add: load_clear invar_save)

lemma saves_keep_newest:
  assumes "invar st" "load c st = Some h"
    and "\<And>s. s \<in> set ss \<Longrightarrow> proper_session s \<and> ss_session s = ss_session h"
  shows "\<exists>r. load c (fold (save c) ss st) = Some r
           \<and> r \<in> insert h (set ss)
           \<and> (\<forall>s \<in> insert h (set ss). ss_id s \<le> ss_id r)"
  using assms
proof (induction ss arbitrary: st h)
  case Nil
  then show ?case by simp
next
  case (Cons s ss)
  let ?h = "if ss_id h < ss_id s then s else h"
  have s: "proper_session s" "ss_session s = ss_session h" using Cons.prems(3) [of s] by simp_all
  have "load c (save c s st) = Some ?h"
    using Cons.prems(1,2) s by (simp add: load_save_same_session)
  moreover have "invar (save c s st)" using Cons.prems(1) s(1) by (rule invar_save)
  moreover have "proper_session u \<and> ss_session u = ss_session ?h" if "u \<in> set ss" for u
    using Cons.prems(3) [of u] that s(2) by simp
  ultimately obtain r where r: "load c (fold (save c) ss (save c s st)) = Some r"
    "r \<in> insert ?h (set ss)" "\<forall>u \<in> insert ?h (set ss). ss_id u \<le> ss_id r"
    using Cons.IH [of "save c s st" ?h] by blast
  from r(2,3) have "r \<in> insert h (set (s # ss))" "\<forall>u \<in> insert h (set (s # ss)). ss_id u \<le> ss_id r"
    by (auto split: if_splits)
  with r(1) show ?case by auto
qed

end

lemma snapshot_of_row_of: "proper_session s \<Longrightarrow> snapshot_of_row (row_of now s) = s"
  by (cases s; cases "ss_session s") (auto simp: snapshot_of_row_def row_of_def proper_session_def)

definition table_invar :: "snapshot_table \<Rightarrow> bool" where
  "table_invar t \<longleftrightarrow> (\<forall>c row. t c = Some row \<longrightarrow> row_session row \<noteq> Some [])"

lemma set_where_supersedes:
  "row_session old \<noteq> Some [] \<Longrightarrow> proper_session s \<Longrightarrow>
   set_where old (row_of now s) \<longleftrightarrow> supersedes s (snapshot_of_row old)"
  by (cases "row_session old"; cases "ss_session s")
    (auto simp: set_where_def supersedes_def row_of_def snapshot_of_row_def proper_session_def)

interpretation memory: snapshot_store memory_save memory_load memory_clear "\<lambda>_. True"
  by unfold_locales
    (auto simp: memory_save_def memory_load_def memory_clear_def supersedes_def split: option.splits)

interpretation table: snapshot_store "table_save now" table_load table_clear table_invar for now
proof
  fix st s c
  assume inv: "table_invar st" and s: "proper_session s"
  show "table_load c (table_save now c s st) =
    (case table_load c st of None \<Rightarrow> Some s | Some h \<Rightarrow> if supersedes s h then Some s else Some h)"
  proof (cases "st c")
    case None
    then show ?thesis
      by (simp add: table_load_def table_save_def Let_def snapshot_of_row_of [OF s])
  next
    case (Some old)
    with inv have "row_session old \<noteq> Some []" by (auto simp: table_invar_def)
    with Some s show ?thesis
      by (simp add: table_load_def table_save_def Let_def snapshot_of_row_of set_where_supersedes)
  qed
  show "table_invar (table_save now c s st)"
    using inv s
    by (auto simp: table_invar_def table_save_def Let_def row_of_def proper_session_def
        split: option.splits if_splits)
next
  fix st s and c c' :: string
  assume "c \<noteq> c'"
  then show "table_load c' (table_save now c s st) = table_load c' st"
    by (auto simp: table_load_def table_save_def Let_def split: option.splits)
qed (auto simp: table_load_def table_clear_def table_invar_def)

section \<open>Properties of the two stores\<close>

text \<open>What a process does to a store: the operations, each with the clock of the replica it ran on.\<close>

datatype store_op = Save_op int string stored_snapshot | Clear_op string

fun table_step :: "store_op \<Rightarrow> snapshot_table \<Rightarrow> snapshot_table" where
  "table_step (Save_op now c s) t = table_save now c s t"
| "table_step (Clear_op c) t = table_clear c t"

fun memory_step :: "store_op \<Rightarrow> memory_store \<Rightarrow> memory_store" where
  "memory_step (Save_op now c s) m = memory_save c s m"
| "memory_step (Clear_op c) m = memory_clear c m"

fun proper_op :: "store_op \<Rightarrow> bool" where
  "proper_op (Save_op now c s) = proper_session s"
| "proper_op (Clear_op c) = True"

definition table_abs :: "snapshot_table \<Rightarrow> memory_store" where
  "table_abs t = (\<lambda>c. table_load c t)"

lemma table_step_abs:
  assumes "table_invar t" "proper_op p"
  shows "table_abs (table_step p t) = memory_step p (table_abs t) \<and> table_invar (table_step p t)"
proof (cases p)
  case (Save_op now c s)
  with assms(2) have s: "proper_session s" by simp
  have "table_abs (table_save now c s t) c' = memory_save c s (table_abs t) c'" for c'
  proof (cases "c' = c")
    case True
    have "table_load c (table_save now c s t) = memory_load c (memory_save c s (table_abs t))"
      using table.load_save [OF assms(1) s] memory.load_save [OF TrueI s]
      by (simp add: memory_load_def table_abs_def)
    with True show ?thesis by (simp add: table_abs_def memory_load_def)
  next
    case False
    with table.load_save_other [OF assms(1), of c c' now s]
      memory.load_save_other [OF TrueI, of c c' s "table_abs t"]
    show ?thesis by (simp add: table_abs_def memory_load_def)
  qed
  with Save_op s table.invar_save [OF assms(1) s] show ?thesis by auto
next
  case (Clear_op c)
  have "table_abs (table_clear c t) = memory_clear c (table_abs t)"
    by (auto simp: table_abs_def memory_clear_def table_clear_def table_load_def)
  with Clear_op table.invar_clear [OF assms(1)] show ?thesis by simp
qed

text \<open>C19: the database store refines the store in memory. After any sequence of saves and clears, on
  any computers and with any clocks, both hold the same snapshot for every computer: the guard of
  the upsert and the guard in memory decide the same saves.\<close>

theorem stores_agree:
  assumes "list_all proper_op ops"
  shows "table_load c (fold table_step ops Map.empty) = memory_load c (fold memory_step ops Map.empty)"
proof -
  have "table_abs (fold table_step ops t) = fold memory_step ops (table_abs t)"
    if "table_invar t" "list_all proper_op ops" for t
    using that by (induction ops arbitrary: t) (simp_all add: table_step_abs)
  from this [of Map.empty] assms show ?thesis
    by (simp add: table_invar_def table_abs_def table_load_def memory_load_def fun_eq_iff)
qed

definition sample_snapshot :: "int \<Rightarrow> string option \<Rightarrow> stored_snapshot" where
  "sample_snapshot n session =
     \<lparr>ss_id = n, ss_url = ''https://a.example/'', ss_elements = Map.empty, ss_session = session\<rparr>"

theorem stores_agree_witness:
  "table_load ''bot'' (fold table_step
     [Save_op 7 ''bot'' (sample_snapshot 5 (Some ''one'')), Save_op 9 ''bot'' (sample_snapshot 4 (Some ''one'')),
      Save_op 3 ''bot'' (sample_snapshot 1 (Some ''two''))] Map.empty)
   = Some (sample_snapshot 1 (Some ''two''))"
  by (subst stores_agree)
    (simp_all add: sample_snapshot_def proper_session_def memory_save_def memory_load_def)

text \<open>A save never moves a run backwards. Over one run of a computer, whatever order the saves of
  its snapshots reach the database in and whichever replicas make them, the row that remains is one
  of them and no other, nor the one that was there, is a later generation.\<close>

theorem table_keeps_newest:
  assumes "table_invar t" "table_load c t = Some h"
    and "\<And>s. s \<in> set ss \<Longrightarrow> proper_session s \<and> ss_session s = ss_session h"
  shows "\<exists>r. table_load c (fold (table_save now c) ss t) = Some r
           \<and> r \<in> insert h (set ss)
           \<and> (\<forall>s \<in> insert h (set ss). ss_id s \<le> ss_id r)"
  using assms by (rule table.saves_keep_newest)

theorem table_keeps_newest_witness:
  "\<exists>r. table_load ''bot'' (fold (table_save 0 ''bot'') [sample_snapshot 9 None, sample_snapshot 8 None]
         (table_save 0 ''bot'' (sample_snapshot 7 None) Map.empty)) = Some r \<and> ss_id r \<ge> 9"
proof -
  have "table_load ''bot'' (table_save 0 ''bot'' (sample_snapshot 7 None) Map.empty)
      = Some (sample_snapshot 7 None)"
    by (simp add: table_load_def table_save_def row_of_def snapshot_of_row_def sample_snapshot_def)
  moreover have "table_invar (table_save 0 ''bot'' (sample_snapshot 7 None) Map.empty)"
    by (simp add: table_invar_def table_save_def row_of_def sample_snapshot_def)
  moreover have "proper_session u \<and> ss_session u = ss_session (sample_snapshot 7 None)"
    if "u \<in> set [sample_snapshot 9 None, sample_snapshot 8 None]" for u
    using that by (auto simp: sample_snapshot_def proper_session_def)
  ultimately obtain r where "table_load ''bot'' (fold (table_save 0 ''bot'')
      [sample_snapshot 9 None, sample_snapshot 8 None]
      (table_save 0 ''bot'' (sample_snapshot 7 None) Map.empty)) = Some r"
    "\<forall>u \<in> insert (sample_snapshot 7 None) (set [sample_snapshot 9 None, sample_snapshot 8 None]).
       ss_id u \<le> ss_id r"
    using table_keeps_newest [of _ _ _ "[sample_snapshot 9 None, sample_snapshot 8 None]" 0] by blast
  then show ?thesis by (intro exI [of _ r]) (simp add: sample_snapshot_def)
qed

end
