(* ===== verification/Gateway.thy ===== *)
theory Gateway
  imports Policy Transport Snapshots "HOL-Library.AList"
begin

text \<open>
  The gateway every action on a computer goes through: \<^verbatim>\<open>server/src/computer/gateway.ts\<close>.  The
  state is the world of \<^theory_text>\<open>Effects\<close> with the snapshot store; the computer provider, the
  connections vault, the audit table, the policy in force and the network are the record \<open>gateway\<close>,
  each answer a function of the trace so far.
\<close>

section \<open>What the gateway is built from\<close>

record vault =
  va_allowed :: "trace \<Rightarrow> string \<Rightarrow> string \<Rightarrow> error + bool"
  va_secret :: "trace \<Rightarrow> string \<Rightarrow> error + string option"
  va_username :: "trace \<Rightarrow> string \<Rightarrow> error + string option"
  va_totp :: "trace \<Rightarrow> string \<Rightarrow> error + string option"
  va_session :: "trace \<Rightarrow> string \<Rightarrow> error + string option"

record 'st gateway =
  gw_net :: network
  gw_locate :: "trace \<Rightarrow> string \<Rightarrow> error + string"
  gw_session :: "(trace \<Rightarrow> string \<Rightarrow> error + string option) option"
  gw_stop :: "trace \<Rightarrow> string \<Rightarrow> error + bool"
  gw_reset :: "trace \<Rightarrow> string \<Rightarrow> error + bool"
  gw_audit :: "trace \<Rightarrow> audit_input \<Rightarrow> error + unit"
  gw_policy :: "trace \<Rightarrow> action_policy option"
  gw_cel :: cel_evaluator
  gw_regex :: "string \<Rightarrow> string \<Rightarrow> bool option"
  gw_parse_json :: "string \<Rightarrow> jsv option"
  gw_vault :: "vault option"
  gw_save :: "string \<Rightarrow> stored_snapshot \<Rightarrow> 'st \<Rightarrow> 'st"
  gw_load :: "string \<Rightarrow> 'st \<Rightarrow> stored_snapshot option"
  gw_clear :: "string \<Rightarrow> 'st \<Rightarrow> 'st"

record action_actor =
  ac_id :: string
  ac_user :: "string option"

section \<open>Helpers\<close>

definition last_index_of_dot :: "string \<Rightarrow> nat option" where
  "last_index_of_dot s =
     (let after = takeWhile (\<lambda>c. c \<noteq> CHR ''.'') (rev s) in
      if length after = length s then None else Some (length s - 1 - length after))"

definition describe_file :: "string \<Rightarrow> policy_file" where
  "describe_file path =
     (let name = last (split_when (\<lambda>c. c = CHR ''/'' \<or> c = CHR 0x5C) path) in
      \<lparr>pf_path = path, pf_name = name,
       pf_extension =
         (case last_index_of_dot name of
            Some d \<Rightarrow> if 0 < d then js_lower (drop (Suc d) name) else []
          | None \<Rightarrow> [])\<rparr>)"

definition activating_keys :: "string list" where
  "activating_keys = [''Enter'', ''NumpadEnter'', ''Space'', '' '']"

definition human_gestures :: "string list" where
  "human_gestures = [''click'', ''type'', ''key'', ''scroll'']"

definition intent_of :: "string \<Rightarrow> string option \<Rightarrow> intent option" where
  "intent_of tool key =
     (if tool = ''computer_click'' then Some Activate
      else if tool = ''computer_key'' \<or> tool = ''computer_type''
      then Some (if truthy key \<and> the key \<in> set activating_keys then Activate else Type_text)
      else if tool = ''computer_type_secret'' then Some Type_text
      else if tool = ''computer_use_session'' then Some Navigate
      else if tool = ''computer_navigate'' then Some Navigate
      else if tool \<in> {''computer_read'', ''computer_snapshot'', ''computer_screenshot'', ''computer_scroll''}
      then Some Read_page
      else if tool = ''computer_read_file'' then Some Read_file
      else if tool = ''computer_write_file'' then Some Write_file
      else if tool = ''computer_run_command'' then Some Run_command
      else if tool = ''computer_list_files'' then Some List_files
      else None)"

definition host_of :: "url_parser \<Rightarrow> string \<Rightarrow> string" where
  "host_of parse_url u = (case parse_url u of None \<Rightarrow> [] | Some p \<Rightarrow> url_host p)"

text \<open>\<^verbatim>\<open>value.key\<close> on a value whose shape was never checked: reading from null throws.\<close>

definition js_member :: "jsv \<Rightarrow> string \<Rightarrow> error + jsv" where
  "js_member v k =
     (case v of
        JNull \<Rightarrow> Inl (Other_error ''TypeError'')
      | JUndef \<Rightarrow> Inl (Other_error ''TypeError'')
      | _ \<Rightarrow> Inr (case js_field v k of None \<Rightarrow> JUndef | Some x \<Rightarrow> x))"

text \<open>A value inside a template string.\<close>

fun js_text :: "jsv \<Rightarrow> string" where
  "js_text JUndef = ''undefined''"
| "js_text JNull = ''null''"
| "js_text (JBool b) = (if b then ''true'' else ''false'')"
| "js_text (JNum n) = show_int n"
| "js_text (JStr s) = s"
| "js_text (JArr vs) = join_with '','' (map js_text vs)"
| "js_text (JObj kvs) = ''[object Object]''"

section \<open>Audit rows\<close>

record row_entry =
  re_tool :: string
  re_bot :: string
  re_actor :: action_actor
  re_element :: "snapshot_element option"
  re_ref :: "string option"
  re_key :: "string option"
  re_file :: "string option"
  re_url :: string
  re_decision :: policy_decision
  re_command :: "string option"
  re_failure :: "string option"

definition mode_text :: "policy_mode \<Rightarrow> string" where
  "mode_text m = (case m of Dry_run \<Rightarrow> ''dry-run'' | Enforce \<Rightarrow> ''enforce'')"

definition source_text :: "decision_source \<Rightarrow> string" where
  "source_text s = (case s of From_deny \<Rightarrow> ''deny'' | From_allow \<Rightarrow> ''allow'' | From_default \<Rightarrow> ''default'')"

definition nullable :: "string option \<Rightarrow> jsv" where
  "nullable s = (case s of None \<Rightarrow> JNull | Some t \<Rightarrow> JStr t)"

definition element_entry :: "row_entry \<Rightarrow> jsv" where
  "element_entry e =
     (case re_element e of
        Some el \<Rightarrow>
          JObj ([(''role'', JStr (se_role el)), (''name'', JStr (se_name el))] @
                opt_entry ''type'' (se_type el))
      | None \<Rightarrow>
          if truthy (re_file e) \<or> truthy (re_command e) then JUndef
          else JStr ''not in the current snapshot'')"

definition decision_entry :: "policy_decision \<Rightarrow> jsv" where
  "decision_entry d =
     JObj [(''allowed'', JBool (dec_allowed d)), (''mode'', JStr (mode_text (dec_mode d))),
           (''source'', JStr (source_text (dec_source d))), (''rule'', nullable (dec_matched d)),
           (''carriedOut'', JBool (dec_forward d))]"

definition action_row :: "row_entry \<Rightarrow> audit_input" where
  "action_row e =
     \<lparr>ai_type =
        (if truthy (re_failure e) then ''computer.action_failed''
         else if dec_allowed (re_decision e) then ''computer.action_allowed''
         else ''computer.action_refused''),
      ai_target_type = ''computer'', ai_target_id = Some (re_bot e),
      ai_actor = (if truthy (ac_user (re_actor e)) then ac_user (re_actor e) else None),
      ai_payload = JObj
        ([(''action'', JStr (re_tool e)), (''bot'', JStr (re_bot e)),
          (''actor'', JStr (ac_id (re_actor e))), (''page'', JStr (re_url e)),
          (''ref'', nullable (re_ref e))] @
         opt_entry ''key'' (re_key e) @ opt_entry ''file'' (re_file e) @
         opt_entry ''command'' (re_command e) @
         [(''element'', element_entry e)] @
         opt_entry ''failure'' (re_failure e) @
         [(''decision'', decision_entry (re_decision e))])\<rparr>"

definition control_row :: "string \<Rightarrow> string \<Rightarrow> action_actor \<Rightarrow> string option \<Rightarrow> audit_input" where
  "control_row event_type bot_id actor reason =
     \<lparr>ai_type = event_type, ai_target_type = ''computer'', ai_target_id = Some bot_id,
      ai_actor = (if truthy (ac_user actor) then ac_user actor else None),
      ai_payload = JObj
        ([(''bot'', JStr bot_id), (''actor'', JStr (ac_id actor))] @ opt_entry ''reason'' reason)\<rparr>"

text \<open>Writing a row: it is redacted, recorded on the trace, and may fail.\<close>

definition write_row :: "'st gateway \<Rightarrow> audit_input \<Rightarrow> ('st world, unit) io" where
  "write_row gw row =
     (let stored = record_audit_event row in effect (Ev_audit stored) (\<lambda>tr. gw_audit gw tr stored))"

section \<open>Reaching the computer\<close>

definition locate :: "'st gateway \<Rightarrow> string \<Rightarrow> ('st world, string) io" where
  "locate gw bot_id =
     io_bind (effect (Ev_locate bot_id) (\<lambda>tr. gw_locate gw tr bot_id))
       (\<lambda>address. case check_computer_address (net_parse_url (gw_net gw)) address of
          Refused reason \<Rightarrow> io_throw (Computer_unavailable reason)
        | Allowed href \<Rightarrow> io_return href)"

definition gateway_get :: "'st gateway \<Rightarrow> string \<Rightarrow> string \<Rightarrow> string option \<Rightarrow> ('st world, jsv) io" where
  "gateway_get gw bot_id path signal =
     io_bind (locate gw bot_id)
       (\<lambda>base. computer_call (gw_net gw) base bot_id path get_init signal None)"

definition gateway_post ::
  "'st gateway \<Rightarrow> string \<Rightarrow> string \<Rightarrow> jsv \<Rightarrow> string option \<Rightarrow> int option \<Rightarrow> ('st world, jsv) io" where
  "gateway_post gw bot_id path payload signal timeout =
     io_bind (locate gw bot_id)
       (\<lambda>base. computer_post (gw_net gw) base bot_id path payload signal timeout)"

definition command_backstop_ms :: int where
  "command_backstop_ms = 615000"

definition screenshot :: "'st gateway \<Rightarrow> string \<Rightarrow> ('st world, jsv) io" where
  "screenshot gw bot_id = gateway_get gw bot_id ''/screenshot'' None"

definition read_page :: "'st gateway \<Rightarrow> string \<Rightarrow> ('st world, jsv) io" where
  "read_page gw bot_id = gateway_get gw bot_id ''/read'' None"

text \<open>
  The run of the computer, when the provider can say: absent for a provider with no sessions, when
  asking fails, and when the answer is empty.
\<close>

definition session_of :: "'st gateway \<Rightarrow> string \<Rightarrow> ('st world, string option) io" where
  "session_of gw bot_id =
     (case gw_session gw of
        None \<Rightarrow> io_return None
      | Some ask \<Rightarrow>
          io_catch
            (io_bind (effect (Ev_session bot_id) (\<lambda>tr. ask tr bot_id))
              (\<lambda>session. io_return (if truthy session then session else None)))
            (\<lambda>_. io_return None))"

text \<open>The answer of \<^verbatim>\<open>/snapshot\<close>: a generation, a page and its elements; anything else fails the call.\<close>

definition decode_bool :: "jsv option \<Rightarrow> bool option" where
  "decode_bool v = (case v of Some (JBool b) \<Rightarrow> Some b | _ \<Rightarrow> None)"

definition decode_element :: "jsv \<Rightarrow> snapshot_element option" where
  "decode_element v =
     (case (js_string_field v ''ref'', js_string_field v ''role'', js_string_field v ''name'') of
        (Some r, Some ro, Some n) \<Rightarrow>
          Some \<lparr>se_ref = r, se_role = ro, se_name = n, se_value = js_string_field v ''value'',
                se_type = js_string_field v ''type'',
                se_disabled = decode_bool (js_field v ''disabled''),
                se_checked = decode_bool (js_field v ''checked'')\<rparr>
      | _ \<Rightarrow> None)"

definition decode_snapshot :: "jsv \<Rightarrow> (int \<times> string \<times> snapshot_element list) option" where
  "decode_snapshot v =
     (case (js_field v ''snapshotId'', js_field v ''url'', js_field v ''elements'') of
        (Some (JNum n), Some (JStr u), Some (JArr vs)) \<Rightarrow>
          if None \<in> set (map decode_element vs) then None
          else Some (n, u, map (\<lambda>v. the (decode_element v)) vs)
      | _ \<Rightarrow> None)"

text \<open>\<^verbatim>\<open>new Map(entries)\<close>: a later entry replaces an earlier one of the same key.\<close>

definition elements_by_ref :: "snapshot_element list \<Rightarrow> string \<rightharpoonup> snapshot_element" where
  "elements_by_ref els = map_of (rev (map (\<lambda>el. (se_ref el, el)) els))"

definition take_snapshot :: "'st gateway \<Rightarrow> string \<Rightarrow> ('st world, jsv) io" where
  "take_snapshot gw bot_id =
     io_bind (locate gw bot_id) (\<lambda>base.
     io_bind (computer_call (gw_net gw) base bot_id ''/snapshot''
                (get_init\<lparr>init_method := ''POST''\<rparr>) None None) (\<lambda>result.
       case decode_snapshot result of
         None \<Rightarrow> io_throw (Other_error ''TypeError'')
       | Some (n, u, els) \<Rightarrow>
           io_bind (session_of gw bot_id) (\<lambda>session.
           io_then
             (put_store (gw_save gw bot_id
                \<lparr>ss_id = n, ss_url = u, ss_elements = elements_by_ref els, ss_session = session\<rparr>))
             (io_return result))))"

section \<open>Resolving a ref\<close>

definition resolve ::
  "stored_snapshot option \<Rightarrow> string option \<Rightarrow> int option \<Rightarrow> string option \<Rightarrow> snapshot_element option" where
  "resolve stored ref snapshot_id session =
     (case stored of
        None \<Rightarrow> None
      | Some st \<Rightarrow>
          if \<not> truthy ref \<or> Some (ss_id st) \<noteq> snapshot_id then None
          else if truthy session \<and> truthy (ss_session st) \<and> ss_session st \<noteq> session then None
          else ss_elements st (the ref))"

section \<open>Decide, record, then act\<close>

record subject =
  sj_ref :: "string option"
  sj_snapshot_id :: "int option"
  sj_file :: "string option"
  sj_target :: "string option"
  sj_key :: "string option"
  sj_command :: "string option"

definition no_subject :: subject where
  "no_subject = \<lparr>sj_ref = None, sj_snapshot_id = None, sj_file = None, sj_target = None,
                 sj_key = None, sj_command = None\<rparr>"

definition or_empty :: "string option \<Rightarrow> string" where
  "or_empty s = (case s of None \<Rightarrow> [] | Some t \<Rightarrow> t)"

definition context_element :: "snapshot_element option \<Rightarrow> policy_element" where
  "context_element el =
     (case el of
        Some e \<Rightarrow> \<lparr>pe_ref = se_ref e, pe_role = se_role e, pe_name = se_name e,
                    pe_type = Some (or_empty (se_type e))\<rparr>
      | None \<Rightarrow> \<lparr>pe_ref = [], pe_role = [], pe_name = [], pe_type = Some []\<rparr>)"

definition context_file :: "string option \<Rightarrow> policy_file" where
  "context_file path =
     (if truthy path then describe_file (the path)
      else \<lparr>pf_path = [], pf_name = [], pf_extension = []\<rparr>)"

definition page_url :: "subject \<Rightarrow> stored_snapshot option \<Rightarrow> string" where
  "page_url sj stored =
     (case sj_target sj of Some t \<Rightarrow> t | None \<Rightarrow> or_empty (map_option ss_url stored))"

definition action_context ::
  "url_parser \<Rightarrow> string \<Rightarrow> string \<Rightarrow> action_actor \<Rightarrow> subject \<Rightarrow> stored_snapshot option \<Rightarrow>
   snapshot_element option \<Rightarrow> policy_context" where
  "action_context parse_url tool bot_id actor sj stored element =
     \<lparr>ctx_tool = tool, ctx_bot = bot_id, ctx_url = page_url sj stored,
      ctx_host = host_of parse_url (page_url sj stored), ctx_actor = ac_id actor,
      ctx_element = Some (context_element element), ctx_key = Some (or_empty (sj_key sj)),
      ctx_intent = intent_of tool (sj_key sj), ctx_file = Some (context_file (sj_file sj)),
      ctx_mcp = None, ctx_command = Some (or_empty (sj_command sj))\<rparr>"

definition stale_message :: "string \<Rightarrow> string" where
  "stale_message ref =
     ref @ '' is not on the page this computer is showing, so nothing can be checked against it '' @
     ''before acting. Take a fresh snapshot and use the refs it returns.''"

text \<open>\<^verbatim>\<open>{ ...result, element: { role, name } }\<close> when the answer is an object, the answer itself
  otherwise.\<close>

definition with_element :: "snapshot_element option \<Rightarrow> jsv \<Rightarrow> jsv" where
  "with_element element result =
     (case element of
        None \<Rightarrow> result
      | Some el \<Rightarrow>
          let label = JObj [(''role'', JStr (se_role el)), (''name'', JStr (se_name el))] in
          case result of
            JObj kvs \<Rightarrow> JObj (AList.update ''element'' label kvs)
          | JArr vs \<Rightarrow> JObj (zip (map show_nat [0..<length vs]) vs @ [(''element'', label)])
          | _ \<Rightarrow> result)"

definition decision_entry_of ::
  "string \<Rightarrow> string \<Rightarrow> action_actor \<Rightarrow> subject \<Rightarrow> stored_snapshot option \<Rightarrow>
   snapshot_element option \<Rightarrow> policy_decision \<Rightarrow> row_entry" where
  "decision_entry_of tool bot_id actor sj stored element decision =
     \<lparr>re_tool = tool, re_bot = bot_id, re_actor = actor, re_element = element, re_ref = sj_ref sj,
      re_key = sj_key sj, re_file = sj_file sj, re_url = page_url sj stored,
      re_decision = decision, re_command = sj_command sj, re_failure = None\<rparr>"

text \<open>The row of a failed attempt names neither the key nor the command: the call that writes it is not
  given them.\<close>

definition failure_entry_of ::
  "string \<Rightarrow> string \<Rightarrow> action_actor \<Rightarrow> subject \<Rightarrow> stored_snapshot option \<Rightarrow>
   snapshot_element option \<Rightarrow> policy_decision \<Rightarrow> string \<Rightarrow> row_entry" where
  "failure_entry_of tool bot_id actor sj stored element decision failure =
     \<lparr>re_tool = tool, re_bot = bot_id, re_actor = actor, re_element = element, re_ref = sj_ref sj,
      re_key = None, re_file = sj_file sj, re_url = page_url sj stored,
      re_decision = decision, re_command = None, re_failure = Some failure\<rparr>"

definition attempt ::
  "stored_snapshot option \<Rightarrow> string option \<Rightarrow> snapshot_element option \<Rightarrow> ('st world, jsv) io \<Rightarrow>
   ('st world, jsv) io" where
  "attempt stored ref element run =
     (if truthy ref \<and> stored \<noteq> None \<and> element = None
      then io_throw (Stale_snapshot (stale_message (the ref)))
      else run)"

definition govern ::
  "'st gateway \<Rightarrow> string \<Rightarrow> string \<Rightarrow> action_actor \<Rightarrow> subject \<Rightarrow> ('st world, jsv) io \<Rightarrow>
   ('st world, jsv) io" where
  "govern gw tool bot_id actor sj run =
     io_bind get_store (\<lambda>st.
     let stored = gw_load gw bot_id st in
     io_bind (session_of gw bot_id) (\<lambda>session w.
       let element = resolve stored (sj_ref sj) (sj_snapshot_id sj) session;
           context = action_context (net_parse_url (gw_net gw)) tool bot_id actor sj stored element;
           decision = fst (evaluate_action_policy (gw_cel gw) (gw_regex gw)
                             (gw_policy gw (w_trace w)) context)
       in io_then (write_row gw (action_row (decision_entry_of tool bot_id actor sj stored element decision)))
           (if \<not> dec_forward decision
            then io_throw (Action_refused (dec_reason decision) (dec_matched decision))
            else
              io_bind
                (io_catch (attempt stored (sj_ref sj) element run)
                  (\<lambda>e. io_then
                    (write_row gw (action_row
                      (failure_entry_of tool bot_id actor sj stored element decision (error_message e))))
                    (io_throw e)))
                (\<lambda>result. io_return (with_element element result))) w))"

section \<open>The acting methods\<close>

definition opt_num :: "string \<Rightarrow> int option \<Rightarrow> (string \<times> jsv) list" where
  "opt_num k v = (case v of None \<Rightarrow> [] | Some n \<Rightarrow> [(k, JNum n)])"

definition opt_str :: "string \<Rightarrow> string option \<Rightarrow> (string \<times> jsv) list" where
  "opt_str k v = (case v of None \<Rightarrow> [] | Some t \<Rightarrow> [(k, JStr t)])"

definition opt_bool :: "string \<Rightarrow> bool option \<Rightarrow> (string \<times> jsv) list" where
  "opt_bool k v = (case v of None \<Rightarrow> [] | Some b \<Rightarrow> [(k, JBool b)])"

datatype secret_field = Password | Username | Totp

definition field_text :: "secret_field \<Rightarrow> string" where
  "field_text f = (case f of Password \<Rightarrow> ''password'' | Username \<Rightarrow> ''username'' | Totp \<Rightarrow> ''totp'')"

definition navigate :: "'st gateway \<Rightarrow> string \<Rightarrow> action_actor \<Rightarrow> string \<Rightarrow> ('st world, jsv) io" where
  "navigate gw bot_id actor target =
     govern gw ''computer_navigate'' bot_id actor (no_subject\<lparr>sj_target := Some target\<rparr>)
       (io_bind (locate gw bot_id) (\<lambda>base. computer_navigate (gw_net gw) base bot_id target))"

definition click ::
  "'st gateway \<Rightarrow> string \<Rightarrow> action_actor \<Rightarrow> string \<Rightarrow> int \<Rightarrow> string option \<Rightarrow> ('st world, jsv) io" where
  "click gw bot_id actor ref snapshot_id signal =
     govern gw ''computer_click'' bot_id actor
       (no_subject\<lparr>sj_ref := Some ref, sj_snapshot_id := Some snapshot_id\<rparr>)
       (gateway_post gw bot_id ''/click''
          (JObj [(''ref'', JStr ref), (''snapshotId'', JNum snapshot_id)]) signal None)"

definition type_text ::
  "'st gateway \<Rightarrow> string \<Rightarrow> action_actor \<Rightarrow> string \<Rightarrow> int \<Rightarrow> string \<Rightarrow> bool option \<Rightarrow> string option \<Rightarrow>
   ('st world, jsv) io" where
  "type_text gw bot_id actor ref snapshot_id txt submit signal =
     govern gw ''computer_type'' bot_id actor
       (no_subject\<lparr>sj_ref := Some ref, sj_snapshot_id := Some snapshot_id,
                   sj_key := (if submit = Some True then Some ''Enter'' else None)\<rparr>)
       (gateway_post gw bot_id ''/type''
          (JObj ([(''ref'', JStr ref), (''snapshotId'', JNum snapshot_id), (''text'', JStr txt)] @
                 opt_bool ''submit'' submit)) signal None)"

definition press_key ::
  "'st gateway \<Rightarrow> string \<Rightarrow> action_actor \<Rightarrow> string \<Rightarrow> string option \<Rightarrow> int option \<Rightarrow> string option \<Rightarrow>
   ('st world, jsv) io" where
  "press_key gw bot_id actor key ref snapshot_id signal =
     govern gw ''computer_key'' bot_id actor
       (no_subject\<lparr>sj_ref := ref, sj_snapshot_id := snapshot_id, sj_key := Some key\<rparr>)
       (gateway_post gw bot_id ''/key''
          (JObj ([(''key'', JStr key)] @ opt_str ''ref'' ref @ opt_num ''snapshotId'' snapshot_id))
          signal None)"

definition scroll :: "'st gateway \<Rightarrow> string \<Rightarrow> action_actor \<Rightarrow> int option \<Rightarrow> ('st world, jsv) io" where
  "scroll gw bot_id actor delta_y =
     govern gw ''computer_scroll'' bot_id actor no_subject
       (gateway_post gw bot_id ''/scroll'' (JObj (opt_num ''deltaY'' delta_y)) None None)"

definition read_file :: "'st gateway \<Rightarrow> string \<Rightarrow> action_actor \<Rightarrow> string \<Rightarrow> ('st world, jsv) io" where
  "read_file gw bot_id actor path =
     govern gw ''computer_read_file'' bot_id actor (no_subject\<lparr>sj_file := Some path\<rparr>)
       (gateway_post gw bot_id ''/files/read'' (JObj [(''path'', JStr path)]) None None)"

definition list_files :: "'st gateway \<Rightarrow> string \<Rightarrow> action_actor \<Rightarrow> string option \<Rightarrow> ('st world, jsv) io" where
  "list_files gw bot_id actor path =
     govern gw ''computer_list_files'' bot_id actor
       (no_subject\<lparr>sj_file := Some (case path of None \<Rightarrow> ''.'' | Some p \<Rightarrow> p)\<rparr>)
       (gateway_post gw bot_id ''/files/list'' (JObj (opt_str ''path'' path)) None None)"

definition write_file ::
  "'st gateway \<Rightarrow> string \<Rightarrow> action_actor \<Rightarrow> string \<Rightarrow> string \<Rightarrow> bool option \<Rightarrow> ('st world, jsv) io" where
  "write_file gw bot_id actor path contents app =
     govern gw ''computer_write_file'' bot_id actor (no_subject\<lparr>sj_file := Some path\<rparr>)
       (gateway_post gw bot_id ''/files/write''
          (JObj ([(''path'', JStr path), (''contents'', JStr contents)] @ opt_bool ''append'' app))
          None None)"

definition run_command ::
  "'st gateway \<Rightarrow> string \<Rightarrow> action_actor \<Rightarrow> string \<Rightarrow> int option \<Rightarrow> string option \<Rightarrow> ('st world, jsv) io" where
  "run_command gw bot_id actor command timeout_ms caller =
     govern gw ''computer_run_command'' bot_id actor (no_subject\<lparr>sj_command := Some command\<rparr>)
       (gateway_post gw bot_id ''/exec''
          (JObj ([(''command'', JStr command)] @ opt_num ''timeoutMs'' timeout_ms))
          caller (Some command_backstop_ms))"

text \<open>The vault value a field names.\<close>

definition vault_value :: "vault \<Rightarrow> secret_field \<Rightarrow> string \<Rightarrow> ('st world, string option) io" where
  "vault_value v field connection =
     (case field of
        Password \<Rightarrow> effect (Ev_vault ''secretOf'' connection) (\<lambda>tr. va_secret v tr connection)
      | Username \<Rightarrow> effect (Ev_vault ''get'' connection) (\<lambda>tr. va_username v tr connection)
      | Totp \<Rightarrow> effect (Ev_vault ''totpCodeOf'' connection) (\<lambda>tr. va_totp v tr connection))"

definition no_vault :: error where
  "no_vault = Action_refused ''This deployment has no connections vault.'' None"

definition deliver_secret ::
  "'st gateway \<Rightarrow> string \<Rightarrow> action_actor \<Rightarrow> string \<Rightarrow> int \<Rightarrow> string \<Rightarrow> secret_field \<Rightarrow> string \<Rightarrow>
   ('st world, jsv) io" where
  "deliver_secret gw bot_id actor ref snapshot_id connection field val =
     io_then
       (gateway_post gw bot_id ''/control/secret''
          (JObj [(''label'', JStr (connection @ '' '' @ field_text field)), (''ref'', JStr ref),
                 (''snapshotId'', JNum snapshot_id)]) None None)
       (io_bind (gateway_post gw bot_id ''/human/secret'' (JObj [(''text'', JStr val)]) None None)
         (\<lambda>result. io_bind (io_lift (js_member result ''characters'')) (\<lambda>characters.
            io_then
              (write_row gw (control_row ''connection.secret_typed'' bot_id actor
                 (Some (connection @ '' '' @ field_text field @ '', '' @ js_text characters @
                        '' characters into '' @ ref))))
              (io_return result))))"

definition type_secret ::
  "'st gateway \<Rightarrow> string \<Rightarrow> action_actor \<Rightarrow> string \<Rightarrow> int \<Rightarrow> string \<Rightarrow> secret_field \<Rightarrow>
   ('st world, jsv) io" where
  "type_secret gw bot_id actor ref snapshot_id connection field =
     govern gw ''computer_type_secret'' bot_id actor
       (no_subject\<lparr>sj_ref := Some ref, sj_snapshot_id := Some snapshot_id\<rparr>)
       (case gw_vault gw of
          None \<Rightarrow> io_throw no_vault
        | Some v \<Rightarrow>
            io_bind (effect (Ev_vault ''allowed'' connection) (\<lambda>tr. va_allowed v tr connection bot_id))
              (\<lambda>granted.
                 if \<not> granted
                 then io_throw (Action_refused
                   (''This coworker has no grant for the connection '' @ [CHR 0x22] @ connection @ [CHR 0x22] @
                    ''. An administrator can add one on the Connections page.'') None)
                 else io_bind (vault_value v field connection)
                   (\<lambda>val.
                      if \<not> truthy val
                      then io_throw (Action_refused
                        (''The connection '' @ [CHR 0x22] @ connection @ [CHR 0x22] @ '' holds no '' @
                         field_text field @ ''.'') None)
                      else deliver_secret gw bot_id actor ref snapshot_id connection field (the val))))"

definition use_session ::
  "'st gateway \<Rightarrow> string \<Rightarrow> action_actor \<Rightarrow> string \<Rightarrow> string option \<Rightarrow> ('st world, jsv) io" where
  "use_session gw bot_id actor connection open_url =
     govern gw ''computer_use_session'' bot_id actor no_subject
       (case gw_vault gw of
          None \<Rightarrow> io_throw no_vault
        | Some v \<Rightarrow>
            io_bind (effect (Ev_vault ''allowed'' connection) (\<lambda>tr. va_allowed v tr connection bot_id))
              (\<lambda>granted.
                 if \<not> granted
                 then io_throw (Action_refused
                   (''This coworker has no grant for the connection '' @ [CHR 0x22] @ connection @ [CHR 0x22] @
                    ''.'') None)
                 else io_bind (effect (Ev_vault ''sessionOf'' connection) (\<lambda>tr. va_session v tr connection))
                   (\<lambda>state.
                      if \<not> truthy state
                      then io_throw (Action_refused
                        (''The connection '' @ [CHR 0x22] @ connection @ [CHR 0x22] @
                         '' has no captured session. An administrator can capture one with Verify sign-in.'')
                        None)
                      else case gw_parse_json gw (the state) of
                        None \<Rightarrow> io_throw (Other_error ''SyntaxError'')
                      | Some parsed \<Rightarrow>
                          io_bind (gateway_post gw bot_id ''/session/import''
                                     (JObj ([(''state'', parsed)] @ opt_entry ''openUrl'' open_url)) None None)
                            (\<lambda>result. io_bind (io_lift (js_member result ''cookieCount'')) (\<lambda>cookies.
                               io_then
                                 (write_row gw (control_row ''connection.session_loaded'' bot_id actor
                                    (Some (connection @ '', '' @ js_text cookies @ '' cookies'' @
                                       (if truthy open_url
                                        then [CHR '' '', CHR 0xE2, CHR 0x86, CHR 0x92, CHR '' ''] @ the open_url
                                        else [])))))
                                 (io_return (JObj
                                    [(''used'', case js_field result ''imported'' of None \<Rightarrow> JUndef | Some x \<Rightarrow> x),
                                     (''cookieCount'', cookies),
                                     (''url'', case js_field result ''url'' of None \<Rightarrow> JUndef | Some x \<Rightarrow> x)])))))))"

section \<open>Handovers, secrets by hand, and the computer itself\<close>

text \<open>These write their row after the computer answered, and ask no policy.\<close>

definition recorded_after ::
  "'st gateway \<Rightarrow> ('st world, jsv) io \<Rightarrow> (jsv \<Rightarrow> error + audit_input) \<Rightarrow> ('st world, jsv) io" where
  "recorded_after gw act row_of_answer =
     io_bind act (\<lambda>state. io_bind (io_lift (row_of_answer state)) (\<lambda>row.
       io_then (write_row gw row) (io_return state)))"

definition request_help :: "'st gateway \<Rightarrow> string \<Rightarrow> action_actor \<Rightarrow> string \<Rightarrow> ('st world, jsv) io" where
  "request_help gw bot_id actor reason =
     recorded_after gw
       (gateway_post gw bot_id ''/control/request'' (JObj [(''reason'', JStr reason)]) None None)
       (\<lambda>state. Inr (control_row ''computer.help_requested'' bot_id actor (Some reason)))"

definition take_control :: "'st gateway \<Rightarrow> string \<Rightarrow> action_actor \<Rightarrow> ('st world, jsv) io" where
  "take_control gw bot_id actor =
     recorded_after gw (gateway_post gw bot_id ''/control/take'' (JObj []) None None)
       (\<lambda>state. case js_member state ''reason'' of
          Inl e \<Rightarrow> Inl e
        | Inr r \<Rightarrow> Inr (control_row ''computer.control_taken'' bot_id actor
                          (case r of JStr t \<Rightarrow> Some t | _ \<Rightarrow> None)))"

definition release_control :: "'st gateway \<Rightarrow> string \<Rightarrow> action_actor \<Rightarrow> ('st world, jsv) io" where
  "release_control gw bot_id actor =
     recorded_after gw (gateway_post gw bot_id ''/control/release'' (JObj []) None None)
       (\<lambda>state. Inr (control_row ''computer.control_released'' bot_id actor None))"

definition get_control :: "'st gateway \<Rightarrow> string \<Rightarrow> ('st world, jsv) io" where
  "get_control gw bot_id = gateway_get gw bot_id ''/control'' None"

definition request_secret ::
  "'st gateway \<Rightarrow> string \<Rightarrow> action_actor \<Rightarrow> string \<Rightarrow> string \<Rightarrow> int \<Rightarrow> ('st world, jsv) io" where
  "request_secret gw bot_id actor label ref snapshot_id =
     recorded_after gw
       (gateway_post gw bot_id ''/control/secret''
          (JObj [(''label'', JStr label), (''ref'', JStr ref), (''snapshotId'', JNum snapshot_id)]) None None)
       (\<lambda>state. Inr (control_row ''computer.secret_requested'' bot_id actor
                       (Some (label @ '' (into '' @ ref @ '')''))))"

definition supply_secret :: "'st gateway \<Rightarrow> string \<Rightarrow> action_actor \<Rightarrow> string \<Rightarrow> ('st world, jsv) io" where
  "supply_secret gw bot_id actor txt =
     recorded_after gw
       (gateway_post gw bot_id ''/human/secret'' (JObj [(''text'', JStr txt)]) None None)
       (\<lambda>result. case js_member result ''characters'' of
          Inl e \<Rightarrow> Inl e
        | Inr n \<Rightarrow> Inr (control_row ''computer.secret_supplied'' bot_id actor
                          (Some (js_text n @ '' characters''))))"

definition human_input ::
  "'st gateway \<Rightarrow> string \<Rightarrow> string \<Rightarrow> (string \<times> jsv) list \<Rightarrow> ('st world, jsv) io" where
  "human_input gw bot_id kind payload =
     (if kind \<notin> set human_gestures
      then io_throw (Other_error
        (''A person's input is one of '' @ join_with '', '' human_gestures @ '', not '' @ json_quote kind @ ''.''))
      else gateway_post gw bot_id (''/human/'' @ kind) (JObj payload) None None)"

definition export_session :: "'st gateway \<Rightarrow> string \<Rightarrow> ('st world, jsv) io" where
  "export_session gw bot_id = gateway_post gw bot_id ''/session/export'' (JObj []) None None"

definition import_session :: "'st gateway \<Rightarrow> string \<Rightarrow> jsv \<Rightarrow> string option \<Rightarrow> ('st world, jsv) io" where
  "import_session gw bot_id state open_url =
     gateway_post gw bot_id ''/session/import''
       (JObj ([(''state'', state)] @ opt_entry ''openUrl'' open_url)) None None"

definition stop_computer :: "'st gateway \<Rightarrow> string \<Rightarrow> action_actor \<Rightarrow> ('st world, bool) io" where
  "stop_computer gw bot_id actor =
     io_bind (effect (Ev_stop bot_id) (\<lambda>tr. gw_stop gw tr bot_id))
       (\<lambda>was_running. io_then
          (write_row gw (control_row ''computer.stopped'' bot_id actor
             (Some (if was_running then ''the computer was stopped''
                    else ''the computer was already stopped''))))
          (io_return was_running))"

definition reset_computer :: "'st gateway \<Rightarrow> string \<Rightarrow> action_actor \<Rightarrow> ('st world, bool) io" where
  "reset_computer gw bot_id actor =
     io_bind (effect (Ev_reset bot_id) (\<lambda>tr. gw_reset gw tr bot_id))
       (\<lambda>cleared. io_then (put_store (gw_clear gw bot_id))
          (io_then
             (write_row gw (control_row ''computer.reset'' bot_id actor
                (Some (if cleared then ''the computer and its saved state were deleted''
                       else ''no saved state was present to delete''))))
             (io_return cleared)))"

end
