(* ===== verification/Gateway_Facts.thy ===== *)
theory Gateway_Facts
  imports Gateway
begin

text \<open>
  What the gateway guarantees: every governed action is decided and recorded before anything is sent,
  a refused or stale one sends nothing, and a failed one leaves a row of its own.
\<close>

section \<open>The governed actions, as one type\<close>

datatype governed =
    Do_navigate string
  | Do_click string int "string option"
  | Do_type string int string "bool option" "string option"
  | Do_key string "string option" "int option" "string option"
  | Do_scroll "int option"
  | Do_read_file string
  | Do_list_files "string option"
  | Do_write_file string string "bool option"
  | Do_run_command string "int option" "string option"
  | Do_type_secret string int string secret_field
  | Do_use_session string "string option"

fun perform :: "'st gateway \<Rightarrow> string \<Rightarrow> action_actor \<Rightarrow> governed \<Rightarrow> ('st world, jsv) io" where
  "perform gw b ac (Do_navigate u) = navigate gw b ac u"
| "perform gw b ac (Do_click r n sig) = click gw b ac r n sig"
| "perform gw b ac (Do_type r n t sub sig) = type_text gw b ac r n t sub sig"
| "perform gw b ac (Do_key k r n sig) = press_key gw b ac k r n sig"
| "perform gw b ac (Do_scroll d) = scroll gw b ac d"
| "perform gw b ac (Do_read_file p) = read_file gw b ac p"
| "perform gw b ac (Do_list_files p) = list_files gw b ac p"
| "perform gw b ac (Do_write_file p c app) = write_file gw b ac p c app"
| "perform gw b ac (Do_run_command c t sig) = run_command gw b ac c t sig"
| "perform gw b ac (Do_type_secret r n c f) = type_secret gw b ac r n c f"
| "perform gw b ac (Do_use_session c u) = use_session gw b ac c u"

fun tool_of :: "governed \<Rightarrow> string" where
  "tool_of (Do_navigate u) = ''computer_navigate''"
| "tool_of (Do_click r n sig) = ''computer_click''"
| "tool_of (Do_type r n t sub sig) = ''computer_type''"
| "tool_of (Do_key k r n sig) = ''computer_key''"
| "tool_of (Do_scroll d) = ''computer_scroll''"
| "tool_of (Do_read_file p) = ''computer_read_file''"
| "tool_of (Do_list_files p) = ''computer_list_files''"
| "tool_of (Do_write_file p c app) = ''computer_write_file''"
| "tool_of (Do_run_command c t sig) = ''computer_run_command''"
| "tool_of (Do_type_secret r n c f) = ''computer_type_secret''"
| "tool_of (Do_use_session c u) = ''computer_use_session''"

fun subject_of :: "governed \<Rightarrow> subject" where
  "subject_of (Do_navigate u) = no_subject\<lparr>sj_target := Some u\<rparr>"
| "subject_of (Do_click r n sig) = no_subject\<lparr>sj_ref := Some r, sj_snapshot_id := Some n\<rparr>"
| "subject_of (Do_type r n t sub sig) =
     no_subject\<lparr>sj_ref := Some r, sj_snapshot_id := Some n,
                sj_key := (if sub = Some True then Some ''Enter'' else None)\<rparr>"
| "subject_of (Do_key k r n sig) = no_subject\<lparr>sj_ref := r, sj_snapshot_id := n, sj_key := Some k\<rparr>"
| "subject_of (Do_scroll d) = no_subject"
| "subject_of (Do_read_file p) = no_subject\<lparr>sj_file := Some p\<rparr>"
| "subject_of (Do_list_files p) = no_subject\<lparr>sj_file := Some (case p of None \<Rightarrow> ''.'' | Some q \<Rightarrow> q)\<rparr>"
| "subject_of (Do_write_file p c app) = no_subject\<lparr>sj_file := Some p\<rparr>"
| "subject_of (Do_run_command c t sig) = no_subject\<lparr>sj_command := Some c\<rparr>"
| "subject_of (Do_type_secret r n c f) = no_subject\<lparr>sj_ref := Some r, sj_snapshot_id := Some n\<rparr>"
| "subject_of (Do_use_session c u) = no_subject"

named_theorems action_defs

lemmas [action_defs] =
  navigate_def click_def type_text_def press_key_def scroll_def read_file_def list_files_def
  write_file_def run_command_def type_secret_def use_session_def

subsection \<open>What their requests put on the trace\<close>

lemma locate_emits: "P (Ev_locate b) \<Longrightarrow> emits (locate gw b) P"
  unfolding locate_def
  by (rule emits_bind, rule emits_effect, assumption)
    (auto split: verdict.splits intro: emits_rules)

definition request_path :: "string \<Rightarrow> event \<Rightarrow> bool" where
  "request_path path e \<longleftrightarrow> (\<exists>rq. e = Ev_fetch rq \<and> suffix path (rq_url rq))"

lemma fetch_to_path: "fetch_to (u @ path) e \<Longrightarrow> request_path path e"
  by (auto simp: fetch_to_def request_path_def suffix_def)

lemma gateway_post_emits:
  assumes "P (Ev_locate b)" "\<And>e. request_path path e \<Longrightarrow> P e"
  shows "emits (gateway_post gw b path payload sig t) P"
  unfolding gateway_post_def
proof (rule emits_bind)
  show "emits (locate gw b) P" using assms(1) by (rule locate_emits)
  show "emits (computer_post (gw_net gw) base b path payload sig t) P" for base
    by (rule emits_mono [OF computer_post_emits]) (blast intro: assms(2) fetch_to_path)
qed

lemma computer_navigate_emits:
  assumes "\<And>e. request_path ''/navigate'' e \<Longrightarrow> P e"
  shows "emits (computer_navigate net base b u) P"
  unfolding computer_navigate_def
  by (auto split: verdict.splits intro!: emits_throw emits_mono [OF computer_post_emits]
      intro: assms fetch_to_path)

lemma write_row_emits: "P (Ev_audit (record_audit_event row)) \<Longrightarrow> emits (write_row gw row) P"
  unfolding write_row_def Let_def by (rule emits_effect)

lemma vault_value_emits: "(\<And>k. P (Ev_vault k c)) \<Longrightarrow> emits (vault_value v f c) P"
  unfolding vault_value_def by (auto split: secret_field.splits intro: emits_effect)

lemma deliver_secret_emits:
  assumes "P (Ev_locate b)" "\<And>e. request_path ''/control/secret'' e \<Longrightarrow> P e"
    "\<And>e. request_path ''/human/secret'' e \<Longrightarrow> P e" "\<And>row. P (Ev_audit row)"
  shows "emits (deliver_secret gw b ac r n c f v) P"
  unfolding deliver_secret_def
  by (intro emits_bind gateway_post_emits emits_lift write_row_emits emits_return assms)

lemma perform_governs:
  obtains run where "perform gw b ac a = govern gw (tool_of a) b ac (subject_of a) run"
    and "emits run (\<lambda>_. True)"
proof (cases a)
  case (Do_navigate u)
  then show ?thesis
    by (intro that) (auto simp: navigate_def intro!: emits_bind locate_emits computer_navigate_emits)
next
  case (Do_type_secret r n c f)
  then show ?thesis
    by (intro that)
      (auto simp: type_secret_def intro!: emits_rules vault_value_emits deliver_secret_emits)
next
  case (Do_use_session c u)
  then show ?thesis
    by (intro that)
      (auto simp: use_session_def intro!: emits_rules gateway_post_emits write_row_emits)
qed (auto simp: click_def type_text_def press_key_def scroll_def read_file_def list_files_def
      write_file_def run_command_def intro!: that gateway_post_emits)

section \<open>The decision a governed action comes to\<close>

lemma session_of_cases:
  obtains s pre where "session_of gw b w = (Inr s, w\<lparr>w_trace := w_trace w @ pre\<rparr>)"
    and "set pre \<subseteq> {Ev_session b}" and "s \<noteq> Some []"
proof (cases "gw_session gw")
  case None
  then have "session_of gw b w = (Inr None, w\<lparr>w_trace := w_trace w @ []\<rparr>)"
    by (simp add: session_of_def io_return_def)
  then show ?thesis by (rule that) simp_all
next
  case (Some ask)
  show ?thesis
  proof (cases "ask (w_trace w) b")
    case (Inl e)
    with Some have "session_of gw b w = (Inr None, w\<lparr>w_trace := w_trace w @ [Ev_session b]\<rparr>)"
      by (simp add: session_of_def io_return_def io_catch_def io_bind_def effect_def)
    then show ?thesis by (rule that) simp_all
  next
    case (Inr v)
    with Some have "session_of gw b w =
        (Inr (if truthy v then v else None), w\<lparr>w_trace := w_trace w @ [Ev_session b]\<rparr>)"
      by (simp add: session_of_def io_return_def io_catch_def io_bind_def effect_def)
    then show ?thesis by (rule that) auto
  qed
qed

lemma session_of_proper: "fst (session_of gw b w) = Inr s \<Longrightarrow> s \<noteq> Some []"
  by (rule session_of_cases [of gw b w]) auto

definition deciding ::
  "'st gateway \<Rightarrow> string \<Rightarrow> string \<Rightarrow> action_actor \<Rightarrow> subject \<Rightarrow> 'st world \<Rightarrow>
   stored_snapshot option \<Rightarrow> snapshot_element option \<Rightarrow> policy_decision \<Rightarrow> 'st world \<Rightarrow> bool" where
  "deciding gw tool b ac sj w stored element decision w' \<longleftrightarrow>
     stored = gw_load gw b (w_store w)
     \<and> (\<exists>s. session_of gw b w = (Inr s, w') \<and> element = resolve stored (sj_ref sj) (sj_snapshot_id sj) s)
     \<and> decision = fst (evaluate_action_policy (gw_cel gw) (gw_regex gw) (gw_policy gw (w_trace w'))
         (action_context (net_parse_url (gw_net gw)) tool b ac sj stored element))"

lemma deciding_exists:
  obtains stored element decision w' pre where
    "deciding gw tool b ac sj w stored element decision w'"
    and "w' = w\<lparr>w_trace := w_trace w @ pre\<rparr>" and "set pre \<subseteq> {Ev_session b}"
  by (rule session_of_cases [of gw b w]) (auto simp: deciding_def)

definition decision_row where
  "decision_row tool b ac sj stored element decision =
     record_audit_event (action_row (decision_entry_of tool b ac sj stored element decision))"

definition failure_row where
  "failure_row tool b ac sj stored element decision failure =
     record_audit_event (action_row (failure_entry_of tool b ac sj stored element decision failure))"

text \<open>The whole of \<open>govern\<close>, as what each outcome of its row and of its attempt leads to.\<close>

lemma govern_outcome:
  assumes "deciding gw tool b ac sj w stored element decision w'"
  shows "govern gw tool b ac sj run w =
    (let row = decision_row tool b ac sj stored element decision;
         w1 = w'\<lparr>w_trace := w_trace w' @ [Ev_audit row]\<rparr>
     in case gw_audit gw (w_trace w') row of
          Inl e \<Rightarrow> (Inl e, w1)
        | Inr _ \<Rightarrow>
            if \<not> dec_forward decision
            then (Inl (Action_refused (dec_reason decision) (dec_matched decision)), w1)
            else case attempt stored (sj_ref sj) element run w1 of
              (Inr result, w2) \<Rightarrow> (Inr (with_element element result), w2)
            | (Inl e, w2) \<Rightarrow>
                let frow = failure_row tool b ac sj stored element decision (error_message e)
                in (case gw_audit gw (w_trace w2) frow of Inl e' \<Rightarrow> Inl e' | Inr _ \<Rightarrow> Inl e,
                    w2\<lparr>w_trace := w_trace w2 @ [Ev_audit frow]\<rparr>))"
proof -
  let ?row = "decision_row tool b ac sj stored element decision"
  let ?w1 = "w'\<lparr>w_trace := w_trace w' @ [Ev_audit ?row]\<rparr>"
  let ?act = "if \<not> dec_forward decision
      then io_throw (Action_refused (dec_reason decision) (dec_matched decision))
      else io_bind (io_catch (attempt stored (sj_ref sj) element run)
             (\<lambda>e. io_then (write_row gw (action_row
                (failure_entry_of tool b ac sj stored element decision (error_message e)))) (io_throw e)))
           (\<lambda>result. io_return (with_element element result))"
  from assms obtain s where s: "session_of gw b w = (Inr s, w')"
    "element = resolve stored (sj_ref sj) (sj_snapshot_id sj) s"
    and stored: "stored = gw_load gw b (w_store w)"
    and decision: "decision = fst (evaluate_action_policy (gw_cel gw) (gw_regex gw)
      (gw_policy gw (w_trace w')) (action_context (net_parse_url (gw_net gw)) tool b ac sj stored element))"
    by (auto simp: deciding_def)
  have get: "get_store w = (Inr (w_store w), w)" by (simp add: get_store_def)
  have g: "govern gw tool b ac sj run w =
      io_then (write_row gw (action_row (decision_entry_of tool b ac sj stored element decision))) ?act w'"
    unfolding govern_def io_bind_Inr [of get_store, OF get] Let_def stored [symmetric]
      io_bind_Inr [of "session_of gw b", OF s(1)] s(2) [symmetric] decision [symmetric] by (rule refl)
  have row: "write_row gw (action_row (decision_entry_of tool b ac sj stored element decision)) w' =
      (gw_audit gw (w_trace w') ?row, ?w1)"
    by (simp add: write_row_def effect_def decision_row_def Let_def)
  show ?thesis
  proof (cases "gw_audit gw (w_trace w') ?row")
    case (Inl e)
    with row g show ?thesis by (simp add: io_bind_Inl Let_def)
  next
    case (Inr u)
    with row g have g: "govern gw tool b ac sj run w = ?act ?w1" by (simp add: io_bind_Inr)
    obtain r w2 where at: "attempt stored (sj_ref sj) element run ?w1 = (r, w2)" by fastforce
    show ?thesis
    proof (cases r)
      case (Inl e)
      let ?frow = "failure_row tool b ac sj stored element decision (error_message e)"
      have frow: "write_row gw (action_row
          (failure_entry_of tool b ac sj stored element decision (error_message e))) w2 =
          (gw_audit gw (w_trace w2) ?frow, w2\<lparr>w_trace := w_trace w2 @ [Ev_audit ?frow]\<rparr>)"
        by (simp add: write_row_def effect_def failure_row_def Let_def)
      show ?thesis
        unfolding g Let_def \<open>gw_audit gw (w_trace w') ?row = Inr u\<close> using at Inl frow
        by (cases "gw_audit gw (w_trace w2) ?frow")
          (simp_all add: io_bind_Inl io_bind_Inr io_catch_Inl io_throw_def)
    next
      case (Inr result)
      show ?thesis
        unfolding g Let_def \<open>gw_audit gw (w_trace w') ?row = Inr u\<close> using at Inr
        by (simp add: io_bind_Inr io_catch_Inr io_throw_def io_return_def)
    qed
  qed
qed

lemma attempt_emits: "emits run P \<Longrightarrow> emits (attempt stored ref element run) P"
  unfolding attempt_def by (intro emits_if emits_throw)

section \<open>Recorded before it acts\<close>

lemma decided_first:
  "\<exists>pre stored element decision w' rest.
     deciding gw (tool_of a) b ac (subject_of a) w stored element decision w'
     \<and> set pre \<subseteq> {Ev_session b} \<and> w_trace w' = w_trace w @ pre
     \<and> w_trace (snd (perform gw b ac a w)) =
         w_trace w @ pre @
         Ev_audit (decision_row (tool_of a) b ac (subject_of a) stored element decision) # rest
     \<and> (rest = [] \<or>
        (dec_forward decision
         \<and> gw_audit gw (w_trace w')
             (decision_row (tool_of a) b ac (subject_of a) stored element decision) = Inr ()))"
proof -
  obtain stored element decision w' pre where
    d: "deciding gw (tool_of a) b ac (subject_of a) w stored element decision w'"
    and w': "w' = w\<lparr>w_trace := w_trace w @ pre\<rparr>" and pre: "set pre \<subseteq> {Ev_session b}"
    by (rule deciding_exists)
  obtain run where p: "perform gw b ac a = govern gw (tool_of a) b ac (subject_of a) run"
    and run: "emits run (\<lambda>_. True)" by (rule perform_governs)
  let ?row = "decision_row (tool_of a) b ac (subject_of a) stored element decision"
  let ?w1 = "w'\<lparr>w_trace := w_trace w' @ [Ev_audit ?row]\<rparr>"
  note out = govern_outcome [OF d, of run, folded p]
  obtain evs where evs: "w_trace (snd (attempt stored (sj_ref (subject_of a)) element run ?w1))
      = w_trace ?w1 @ evs"
    using attempt_emits [OF run] by (rule emitsD)
  have "\<exists>rest. w_trace (snd (perform gw b ac a w)) = w_trace w @ pre @ Ev_audit ?row # rest
      \<and> (rest = [] \<or> (dec_forward decision \<and> gw_audit gw (w_trace w') ?row = Inr ()))"
  proof (cases "gw_audit gw (w_trace w') ?row")
    case (Inl e)
    with out w' show ?thesis by (intro exI [of _ "[]"]) (simp add: Let_def)
  next
    case (Inr u)
    show ?thesis
    proof (cases "dec_forward decision")
      case False
      with out w' Inr show ?thesis by (intro exI [of _ "[]"]) (simp add: Let_def)
    next
      case True
      obtain r w2 where at: "attempt stored (sj_ref (subject_of a)) element run ?w1 = (r, w2)"
        by fastforce
      with evs w' have w2: "w_trace w2 = w_trace w @ pre @ Ev_audit ?row # evs" by simp
      show ?thesis
      proof (cases r)
        case (Inl e)
        with out at w2 True Inr show ?thesis
          by (intro exI [of _ "evs @ [Ev_audit (failure_row (tool_of a) b ac (subject_of a) stored
                element decision (error_message e))]"]) (simp add: Let_def)
      next
        case (Inr x)
        with out at w2 True \<open>gw_audit gw (w_trace w') ?row = Inr u\<close> show ?thesis
          by (intro exI [of _ evs]) (simp add: Let_def)
      qed
    qed
  qed
  moreover have "w_trace w' = w_trace w @ pre" using w' by simp
  ultimately show ?thesis using d pre by blast
qed

text \<open>C1: the record comes first. Whatever governed action is asked for, the first thing it adds to the
  trace, after at most a question to the provider about the session, is the audit row of the policy
  decision; the decision is the policy's answer about the element the server's own snapshot holds for
  the cited ref and generation; and anything beyond that row, a request to the computer included,
  happens only when the decision forwards the action and the row was stored.\<close>

theorem recorded_before_acting:
  "\<exists>pre stored element decision w' rest.
     deciding gw (tool_of a) b ac (subject_of a) w stored element decision w'
     \<and> set pre \<subseteq> {Ev_session b} \<and> w_trace w' = w_trace w @ pre
     \<and> w_trace (snd (perform gw b ac a w)) =
         w_trace w @ pre @
         Ev_audit (decision_row (tool_of a) b ac (subject_of a) stored element decision) # rest
     \<and> (rest = [] \<or>
        (dec_forward decision
         \<and> gw_audit gw (w_trace w')
             (decision_row (tool_of a) b ac (subject_of a) stored element decision) = Inr ()))"
  by (rule decided_first)

section \<open>Refused, stale and failed actions\<close>

fun is_fetch :: "event \<Rightarrow> bool" where
  "is_fetch (Ev_fetch rq) = True"
| "is_fetch e = False"

definition requests :: "'st world \<Rightarrow> event list" where
  "requests w = filter is_fetch (w_trace w)"

lemma session_events_no_fetch: "set pre \<subseteq> {Ev_session b} \<Longrightarrow> filter is_fetch pre = []"
  by (auto simp: filter_empty_conv)

lemma deciding_requests:
  assumes "deciding gw tool b ac sj w stored element decision w'"
  shows "requests w' = requests w"
proof -
  obtain s pre where "session_of gw b w = (Inr s, w\<lparr>w_trace := w_trace w @ pre\<rparr>)"
    "set pre \<subseteq> {Ev_session b}" by (rule session_of_cases)
  with assms show ?thesis by (auto simp: deciding_def requests_def session_events_no_fetch)
qed

lemma refused_outcome:
  assumes "deciding gw (tool_of a) b ac (subject_of a) w stored element decision w'"
    and "\<not> dec_forward decision"
  shows "w_trace (snd (perform gw b ac a w)) = w_trace w' @
           [Ev_audit (decision_row (tool_of a) b ac (subject_of a) stored element decision)]
       \<and> requests (snd (perform gw b ac a w)) = requests w
       \<and> fst (perform gw b ac a w) =
           (case gw_audit gw (w_trace w')
                   (decision_row (tool_of a) b ac (subject_of a) stored element decision) of
              Inl e \<Rightarrow> Inl e
            | Inr _ \<Rightarrow> Inl (Action_refused (dec_reason decision) (dec_matched decision)))"
proof -
  obtain run where p: "perform gw b ac a = govern gw (tool_of a) b ac (subject_of a) run"
    by (rule perform_governs)
  show ?thesis
  proof (cases "gw_audit gw (w_trace w')
                  (decision_row (tool_of a) b ac (subject_of a) stored element decision)")
    case (Inl e)
    with govern_outcome [OF assms(1), of run] deciding_requests [OF assms(1)] show ?thesis
      by (simp add: p Let_def requests_def)
  next
    case (Inr u)
    with govern_outcome [OF assms(1), of run] deciding_requests [OF assms(1)] assms(2) show ?thesis
      by (simp add: p Let_def requests_def)
  qed
qed

text \<open>C2: a refusal carries nothing out. When the decision about a governed action is not to forward it,
  the action ends in an error, the refusal naming the rule that matched unless the row itself could
  not be stored, and no request has been sent: the row is the last thing on the trace.\<close>

theorem refused_action_sends_nothing:
  assumes "deciding gw (tool_of a) b ac (subject_of a) w stored element decision w'"
    and "\<not> dec_forward decision"
  shows "w_trace (snd (perform gw b ac a w)) = w_trace w' @
           [Ev_audit (decision_row (tool_of a) b ac (subject_of a) stored element decision)]
       \<and> requests (snd (perform gw b ac a w)) = requests w
       \<and> fst (perform gw b ac a w) =
           (case gw_audit gw (w_trace w')
                   (decision_row (tool_of a) b ac (subject_of a) stored element decision) of
              Inl e \<Rightarrow> Inl e
            | Inr _ \<Rightarrow> Inl (Action_refused (dec_reason decision) (dec_matched decision)))"
  by (rule refused_outcome [OF assms])

text \<open>A citation this server can see is stale is not carried out. When an action cites a ref, a
  snapshot of the computer is held, and the ref does not resolve in it, then even a decision that
  would forward the action sends no request; the outcome is an error, the stale-snapshot error when
  both rows were stored.\<close>

theorem stale_citation_sends_nothing:
  assumes "deciding gw (tool_of a) b ac (subject_of a) w (Some held) None decision w'"
    and "truthy (sj_ref (subject_of a))"
  shows "requests (snd (perform gw b ac a w)) = requests w
       \<and> (\<exists>e. fst (perform gw b ac a w) = Inl e)"
proof -
  obtain run where p: "perform gw b ac a = govern gw (tool_of a) b ac (subject_of a) run"
    by (rule perform_governs)
  have "attempt (Some held) (sj_ref (subject_of a)) None run =
      io_throw (Stale_snapshot (stale_message (the (sj_ref (subject_of a)))))"
    using assms(2) by (simp add: attempt_def)
  with govern_outcome [OF assms(1), of run] have
    "\<exists>rows. list_all (\<lambda>e. \<not> is_fetch e) rows
       \<and> w_trace (snd (perform gw b ac a w)) = w_trace w' @ rows
       \<and> (\<exists>e. fst (perform gw b ac a w) = Inl e)"
    by (simp add: p Let_def io_throw_def split: sum.split)
  with deciding_requests [OF assms(1)] show ?thesis
    by (auto simp: requests_def filter_empty_conv list_all_iff)
qed


section \<open>A sample gateway\<close>

definition sample_network :: network where
  "sample_network =
     \<lparr>net_fetch = (\<lambda>_ _. Response 200 (Some (JObj [(''url'', JStr ''https://a.example/'')]))),
      net_aborted = (\<lambda>_ _. False), net_token = Some ''t'', net_private_hosts = True,
      net_timeout_ms = 45000,
      net_parse_url = (\<lambda>raw. Some \<lparr>url_protocol = ''http:'', url_hostname = ''computer'',
                                  url_host = ''computer'', url_href = raw\<rparr>)\<rparr>"

definition sample_gateway :: "action_policy \<Rightarrow> network \<Rightarrow> cel_evaluator \<Rightarrow> memory_store gateway" where
  "sample_gateway policy net cel =
     \<lparr>gw_net = net, gw_locate = (\<lambda>_ _. Inr ''http://computer/''), gw_session = None,
      gw_stop = (\<lambda>_ _. Inr True), gw_reset = (\<lambda>_ _. Inr True), gw_audit = (\<lambda>_ _. Inr ()),
      gw_policy = (\<lambda>_. Some policy), gw_cel = cel, gw_regex = (\<lambda>_ _. None),
      gw_parse_json = (\<lambda>_. None),
      gw_vault = Some \<lparr>va_allowed = (\<lambda>_ _ _. Inr True), va_secret = (\<lambda>_ _. Inr (Some ''hunter2'')),
                       va_username = (\<lambda>_ _. Inr None), va_totp = (\<lambda>_ _. Inr None),
                       va_session = (\<lambda>_ _. Inr None)\<rparr>,
      gw_save = memory_save, gw_load = memory_load, gw_clear = memory_clear\<rparr>"

definition submit_button :: snapshot_element where
  "submit_button =
     \<lparr>se_ref = ''e13'', se_role = ''button'', se_name = ''Submit order'', se_value = None,
      se_type = None, se_disabled = None, se_checked = None\<rparr>"

definition sample_world :: "memory_store world" where
  "sample_world =
     \<lparr>w_trace = [],
      w_store = [''bot'' \<mapsto> \<lparr>ss_id = 5, ss_url = ''https://shop.example/'',
                          ss_elements = [''e13'' \<mapsto> submit_button], ss_session = None\<rparr>]\<rparr>"

definition sample_actor :: action_actor where
  "sample_actor = \<lparr>ac_id = ''ana'', ac_user = None\<rparr>"

definition deny_submit :: action_policy where
  "deny_submit = \<lparr>pol_mode = Enforce, pol_deny = [''submit''], pol_allow = [''true'']\<rparr>"

lemmas sample_gateway_simps =
  sample_gateway_def sample_network_def sample_world_def sample_actor_def deny_submit_def
  submit_button_def deciding_def session_of_def io_return_def resolve_def no_subject_def
  memory_load_def

definition held_snapshot :: stored_snapshot where
  "held_snapshot = \<lparr>ss_id = 5, ss_url = ''https://shop.example/'',
                   ss_elements = [''e13'' \<mapsto> submit_button], ss_session = None\<rparr>"

lemma sample_deciding:
  assumes "sj_ref (subject_of a) = Some ''e13''" "sj_snapshot_id (subject_of a) = Some n"
  shows "\<exists>decision. deciding (sample_gateway policy net cel) (tool_of a) ''bot'' ac (subject_of a) sample_world
           (Some held_snapshot) (if n = 5 then Some submit_button else None) decision sample_world
         \<and> decision = fst (evaluate_action_policy cel (\<lambda>_ _. None) (Some policy)
             (action_context (net_parse_url net) (tool_of a) ''bot'' ac (subject_of a) (Some held_snapshot)
                (if n = 5 then Some submit_button else None)))"
  using assms
  by (auto simp: sample_gateway_def sample_world_def deciding_def session_of_def io_return_def
      resolve_def memory_load_def held_snapshot_def)

theorem refused_action_sends_nothing_witness:
  "requests (snd (perform (sample_gateway deny_submit sample_network sample_cel) ''bot'' sample_actor
     (Do_click ''e13'' 5 None) sample_world)) = []"
proof -
  obtain decision where d: "deciding (sample_gateway deny_submit sample_network sample_cel)
      (tool_of (Do_click ''e13'' 5 None)) ''bot'' sample_actor (subject_of (Do_click ''e13'' 5 None))
      sample_world (Some held_snapshot) (Some submit_button) decision sample_world"
    and dec: "decision = fst (evaluate_action_policy sample_cel (\<lambda>_ _. None) (Some deny_submit)
      (action_context (net_parse_url sample_network) (tool_of (Do_click ''e13'' 5 None)) ''bot''
        sample_actor (subject_of (Do_click ''e13'' 5 None)) (Some held_snapshot) (Some submit_button)))"
    using sample_deciding [of "Do_click ''e13'' 5 None" 5 deny_submit sample_network sample_cel
        sample_actor] by (auto simp: no_subject_def)
  have "fn_contains (policy_functions_of (\<lambda>_ _. None)) ''Submit order'' ''submit''" by code_simp
  then have "\<not> dec_forward decision"
    unfolding dec by (simp add: dec_forward_spec dec_allowed_spec dec_mode_spec deny_submit_def
        sample_cel_def action_context_def context_element_def submit_button_def says_def)
  from refused_action_sends_nothing [OF d this] show ?thesis
    by (simp add: requests_def sample_world_def)
qed

theorem stale_citation_sends_nothing_witness:
  "requests (snd (perform (sample_gateway deny_submit sample_network sample_cel) ''bot'' sample_actor
     (Do_click ''e13'' 4 None) sample_world)) = []"
proof -
  obtain decision where d: "deciding (sample_gateway deny_submit sample_network sample_cel)
      (tool_of (Do_click ''e13'' 4 None)) ''bot'' sample_actor (subject_of (Do_click ''e13'' 4 None))
      sample_world (Some held_snapshot) None decision sample_world"
    using sample_deciding [of "Do_click ''e13'' 4 None" 4 deny_submit sample_network sample_cel
        sample_actor] by (auto simp: no_subject_def)
  from stale_citation_sends_nothing [OF d] show ?thesis
    by (simp add: requests_def sample_world_def no_subject_def)
qed


section \<open>What the rows leave out\<close>

lemma row_keys:
  "\<not> is_sensitive_key ''action''" "\<not> is_sensitive_key ''bot''" "\<not> is_sensitive_key ''actor''"
  "\<not> is_sensitive_key ''page''" "\<not> is_sensitive_key ''ref''" "\<not> is_sensitive_key ''key''"
  "\<not> is_sensitive_key ''file''" "\<not> is_sensitive_key ''command''" "\<not> is_sensitive_key ''element''"
  "\<not> is_sensitive_key ''failure''" "\<not> is_sensitive_key ''decision''"
  by code_simp+

lemma stored_row_field:
  "\<not> is_sensitive_key k \<Longrightarrow>
   js_field (redact_audit_payload (JObj kvs)) k = map_option redact_audit_payload (js_field (JObj kvs) k)"
  by (induction kvs) (auto simp: js_field_def)

text \<open>The row of a failed command contradicts the row before it. The decision row of a shell command
  names the command and leaves the element absent; when the command then fails, the failure row has
  no command and says of the element that it is not in the current snapshot.\<close>

theorem failed_command_row:
  "let sj = no_subject\<lparr>sj_command := Some (c # cs)\<rparr>;
       permitted = decision_row ''computer_run_command'' b ac sj stored None d;
       failed = failure_row ''computer_run_command'' b ac sj stored None d m
   in js_field (ai_payload permitted) ''command'' = Some (JStr (c # cs))
    \<and> js_field (ai_payload permitted) ''element'' = Some JUndef
    \<and> js_field (ai_payload failed) ''command'' = None
    \<and> js_field (ai_payload failed) ''element'' = Some (JStr ''not in the current snapshot'')"
  by (simp add: Let_def decision_row_def failure_row_def record_audit_event_def action_row_def
      stored_row_field row_keys del: redact_audit_payload.simps(2))
    (simp add: js_field_def decision_entry_of_def failure_entry_of_def no_subject_def opt_entry_def
      element_entry_def)

text \<open>A failure whose error has an empty message is recorded as a second permission. The type of the
  failure row is then that of an allowed action, and it carries no failure.\<close>

theorem silent_failure_row:
  assumes "dec_allowed d"
  shows "ai_type (failure_row tool b ac sj stored element d (error_message (mapped_error 403
           (Some (JObj [(''error'', JStr [])]))))) = ''computer.action_allowed''"
  using assms
  by (simp add: failure_row_def record_audit_event_def action_row_def failure_entry_of_def
      mapped_error_def js_field_def Let_def)

theorem silent_failure_row_witness:
  "ai_type (failure_row ''computer_read_file'' ''bot'' sample_actor (no_subject\<lparr>sj_file := Some ''a''\<rparr>)
     None None
     (fst (evaluate_action_policy sample_cel (\<lambda>_ _. None)
        (Some \<lparr>pol_mode = Enforce, pol_deny = [], pol_allow = [''true'']\<rparr>) sample_context))
     (error_message (mapped_error 403 (Some (JObj [(''error'', JStr [])])))))
   = ''computer.action_allowed''"
  by (rule silent_failure_row) (simp add: dec_allowed_spec sample_cel_def says_def)

section \<open>Rules about fields an action does not have\<close>

text \<open>A rule about tool servers refuses every action on a computer. The context of a governed action
  binds no \<^verbatim>\<open>mcp\<close>; so a deny rule that cannot be evaluated without it, in an enforced policy, refuses
  every action the gateway governs, and none sends a request.\<close>

theorem mcp_rule_refuses_computer_actions:
  assumes "\<And>tr. gw_policy gw tr = Some p" "pol_mode p = Enforce" "rule \<in> set (pol_deny p)"
    and "\<And>ctx. ctx_mcp ctx = None \<Longrightarrow>
           \<exists>m. gw_cel gw (policy_functions_of (gw_regex gw)) rule ctx = Inl m"
  shows "(\<exists>e. fst (perform gw b ac a w) = Inl e) \<and> requests (snd (perform gw b ac a w)) = requests w"
proof -
  obtain stored element decision w' where
    d: "deciding gw (tool_of a) b ac (subject_of a) w stored element decision w'"
    by (rule deciding_exists)
  let ?ctx = "action_context (net_parse_url (gw_net gw)) (tool_of a) b ac (subject_of a) stored element"
  have "decision = fst (evaluate_action_policy (gw_cel gw) (gw_regex gw) (Some p) ?ctx)"
    using d assms(1) by (simp add: deciding_def)
  moreover have "\<not> says False (gw_cel gw (policy_functions_of (gw_regex gw))) ?ctx rule"
    using assms(4) [of ?ctx] by (auto simp: action_context_def says_def)
  then have "\<not> list_all (says False (gw_cel gw (policy_functions_of (gw_regex gw))) ?ctx) (pol_deny p)"
    using assms(3) by (auto simp: list_all_iff)
  ultimately have "\<not> dec_forward decision"
    using assms(2) by (simp add: dec_forward_spec dec_allowed_spec dec_mode_spec)
  from refused_outcome [OF d this] show ?thesis by (auto split: sum.splits)
qed

definition mcp_cel :: cel_evaluator where
  "mcp_cel fns e ctx =
     (if e = ''mcp''
      then (case ctx_mcp ctx of
              None \<Rightarrow> Inl ''Identifier \"mcp\" not found''
            | Some m \<Rightarrow> Inr (JBool (pm_server m = ''jira'')))
      else Inr (JBool True))"

theorem mcp_rule_refuses_computer_actions_witness:
  "requests (snd (perform (sample_gateway
       \<lparr>pol_mode = Enforce, pol_deny = [''mcp''], pol_allow = [''true'']\<rparr> sample_network mcp_cel)
     ''bot'' sample_actor (Do_scroll None) sample_world)) = []"
  using mcp_rule_refuses_computer_actions [where rule = "''mcp''"
      and gw = "sample_gateway \<lparr>pol_mode = Enforce, pol_deny = [''mcp''], pol_allow = [''true'']\<rparr>
                 sample_network mcp_cel"
      and p = "\<lparr>pol_mode = Enforce, pol_deny = [''mcp''], pol_allow = [''true'']\<rparr>"
      and b = "''bot''" and ac = sample_actor and a = "Do_scroll None" and w = sample_world]
  by (simp add: sample_gateway_def mcp_cel_def requests_def sample_world_def)

section \<open>A person's input\<close>

text \<open>A person's gesture cannot name another endpoint. Whatever kind arrives, the requests the call
  adds go to one of the four gesture paths below \<^verbatim>\<open>/human/\<close>, and an unknown kind sends nothing.\<close>

theorem human_input_paths:
  "\<exists>evs. w_trace (snd (human_input gw b kind payload w)) = w_trace w @ evs
     \<and> list_all (\<lambda>e. e = Ev_locate b
          \<or> (\<exists>g \<in> {''click'', ''type'', ''key'', ''scroll''}. kind = g \<and> request_path (''/human/'' @ g) e)) evs"
proof (cases "kind \<in> set human_gestures")
  case False
  then show ?thesis
    by (intro exI [of _ "[]"]) (simp add: human_input_def io_throw_def)
next
  case True
  let ?P = "\<lambda>e. e = Ev_locate b
      \<or> (\<exists>g \<in> {''click'', ''type'', ''key'', ''scroll''}. kind = g \<and> request_path (''/human/'' @ g) e)"
  have "emits (gateway_post gw b (''/human/'' @ kind) (JObj payload) None None) ?P"
    by (rule gateway_post_emits) (use True in \<open>auto simp: human_gestures_def\<close>)
  with True show ?thesis by (simp add: human_input_def emits_def)
qed

end
