(* ===== verification/Gateway_Secrets.thy ===== *)
theory Gateway_Secrets
  imports Gateway_Facts
begin

text \<open>
  Where a secret of the vault can be seen: \<^verbatim>\<open>typeSecret\<close> of \<^verbatim>\<open>server/src/computer/gateway.ts\<close> again. Two
  runs that differ only in what the vault holds are compared after the one body that may carry a
  secret, that of \<^verbatim>\<open>/human/secret\<close>, is blanked out.
\<close>

section \<open>Two runs side by side\<close>

definition veil :: "event \<Rightarrow> event" where
  "veil e =
     (case e of
        Ev_fetch rq \<Rightarrow> if suffix ''/human/secret'' (rq_url rq) then Ev_fetch (rq\<lparr>rq_body := None\<rparr>) else e
      | _ \<Rightarrow> e)"

definition same_view :: "trace \<Rightarrow> trace \<Rightarrow> bool" where
  "same_view tr tr' \<longleftrightarrow> map veil tr = map veil tr'"

definition same_world :: "'st world \<Rightarrow> 'st world \<Rightarrow> bool" where
  "same_world w w' \<longleftrightarrow> same_view (w_trace w) (w_trace w') \<and> w_store w = w_store w'"

definition alike :: "('a \<Rightarrow> 'a \<Rightarrow> bool) \<Rightarrow> ('st world, 'a) io \<Rightarrow> ('st world, 'a) io \<Rightarrow> bool" where
  "alike R m m' \<longleftrightarrow>
     (\<forall>w w'. same_world w w' \<longrightarrow>
        rel_sum (=) R (fst (m w)) (fst (m' w')) \<and> same_world (snd (m w)) (snd (m' w')))"

named_theorems alike_rules

lemma alike_return [alike_rules]: "alike (=) (io_return x) (io_return x)"
  by (simp add: alike_def io_return_def)

lemma alike_throw [alike_rules]: "alike R (io_throw e) (io_throw e)"
  by (simp add: alike_def io_throw_def)

lemma alike_lift [alike_rules]: "alike (=) (io_lift r) (io_lift r)"
  by (cases r) (simp_all add: alike_def io_lift_def)

lemma alike_get [alike_rules]: "alike (=) get_store get_store"
  by (simp add: alike_def get_store_def same_world_def)

lemma alike_put [alike_rules]: "alike (=) (put_store f) (put_store f)"
  by (simp add: alike_def put_store_def same_world_def)

lemma alike_bind:
  fixes m m' :: "('st world, 'a) io"
  assumes "alike R m m'" "\<And>x x'. R x x' \<Longrightarrow> alike S (k x) (k' x')"
  shows "alike S (io_bind m k) (io_bind m' k')"
  unfolding alike_def
proof (intro allI impI)
  fix w w' :: "'st world"
  assume "same_world w w'"
  with assms(1) have m: "rel_sum (=) R (fst (m w)) (fst (m' w'))" "same_world (snd (m w)) (snd (m' w'))"
    by (simp_all add: alike_def)
  obtain r v r' v' where eqs: "m w = (r, v)" "m' w' = (r', v')" by (meson surj_pair)
  from m(1) show "rel_sum (=) S (fst (io_bind m k w)) (fst (io_bind m' k' w')) \<and>
      same_world (snd (io_bind m k w)) (snd (io_bind m' k' w'))"
    unfolding eqs fst_conv
    by (cases rule: rel_sum.cases) (use m(2) eqs assms(2) in \<open>auto simp: io_bind_def alike_def\<close>)
qed

lemma alike_bind_eq [alike_rules]:
  assumes "alike (=) m m'" "\<And>x. alike S (k x) (k' x)"
  shows "alike S (io_bind m k) (io_bind m' k')"
  using alike_bind [OF assms(1)] assms(2) by blast

lemma alike_catch [alike_rules]:
  fixes m m' :: "('st world, 'a) io"
  assumes "alike R m m'" "\<And>e. alike R (h e) (h' e)"
  shows "alike R (io_catch m h) (io_catch m' h')"
  unfolding alike_def
proof (intro allI impI)
  fix w w' :: "'st world"
  assume "same_world w w'"
  with assms(1) have m: "rel_sum (=) R (fst (m w)) (fst (m' w'))" "same_world (snd (m w)) (snd (m' w'))"
    by (simp_all add: alike_def)
  obtain r v r' v' where eqs: "m w = (r, v)" "m' w' = (r', v')" by (meson surj_pair)
  from m(1) show "rel_sum (=) R (fst (io_catch m h w)) (fst (io_catch m' h' w')) \<and>
      same_world (snd (io_catch m h w)) (snd (io_catch m' h' w'))"
    unfolding eqs fst_conv
    by (cases rule: rel_sum.cases) (use m(2) eqs assms(2) in \<open>auto simp: io_catch_def alike_def\<close>)
qed

lemma alike_effect:
  assumes "veil e = veil e'" "\<And>tr tr'. same_view tr tr' \<Longrightarrow> rel_sum (=) R (answer tr) (answer' tr')"
  shows "alike R (effect e answer) (effect e' answer')"
  using assms by (simp add: alike_def effect_def same_world_def same_view_def)

lemma alike_effect_eq [alike_rules]:
  assumes "\<And>tr tr'. same_view tr tr' \<Longrightarrow> answer tr = answer' tr'"
  shows "alike (=) (effect e answer) (effect e answer')"
  by (rule alike_effect) (simp_all add: assms sum.rel_eq)

lemma alike_if [alike_rules]:
  "(c \<Longrightarrow> alike R m m') \<Longrightarrow> (\<not> c \<Longrightarrow> alike R n n') \<Longrightarrow> alike R (if c then m else n) (if c then m' else n')"
  by simp

lemma alike_option [alike_rules]:
  "(x = None \<Longrightarrow> alike R m m') \<Longrightarrow> (\<And>y. x = Some y \<Longrightarrow> alike R (k y) (k' y)) \<Longrightarrow>
   alike R (case x of None \<Rightarrow> m | Some y \<Rightarrow> k y) (case x of None \<Rightarrow> m' | Some y \<Rightarrow> k' y)"
  by (cases x) simp_all

section \<open>An environment that does not reveal the secret\<close>

text \<open>
  Nothing outside the process answers by what is in the blanked body: the network does not, for an
  equal request it answers equally, and no other part looks at it.
\<close>

definition unrevealing_network :: "network \<Rightarrow> bool" where
  "unrevealing_network net \<longleftrightarrow>
     (\<forall>tr tr' rq rq'. same_view tr tr' \<longrightarrow> veil (Ev_fetch rq) = veil (Ev_fetch rq') \<longrightarrow>
        net_fetch net tr rq = net_fetch net tr' rq')
     \<and> (\<forall>tr tr' s. same_view tr tr' \<longrightarrow> net_aborted net tr s = net_aborted net tr' s)"

definition unrevealing :: "'st gateway \<Rightarrow> bool" where
  "unrevealing gw \<longleftrightarrow> unrevealing_network (gw_net gw) \<and>
     (\<forall>tr tr'. same_view tr tr' \<longrightarrow>
        gw_locate gw tr = gw_locate gw tr' \<and> gw_audit gw tr = gw_audit gw tr'
        \<and> gw_policy gw tr = gw_policy gw tr'
        \<and> (case gw_session gw of None \<Rightarrow> True | Some ask \<Rightarrow> ask tr = ask tr'))"

text \<open>Two vaults with the same grants and sessions, each holding something where the other does.\<close>

definition same_but_secrets :: "vault \<Rightarrow> vault \<Rightarrow> bool" where
  "same_but_secrets v v' \<longleftrightarrow>
     (\<forall>tr tr' c. same_view tr tr' \<longrightarrow>
        va_allowed v tr c = va_allowed v' tr' c \<and> va_session v tr c = va_session v' tr' c
        \<and> rel_sum (=) (\<lambda>a b. truthy a = truthy b) (va_secret v tr c) (va_secret v' tr' c)
        \<and> rel_sum (=) (\<lambda>a b. truthy a = truthy b) (va_username v tr c) (va_username v' tr' c)
        \<and> rel_sum (=) (\<lambda>a b. truthy a = truthy b) (va_totp v tr c) (va_totp v' tr' c))"

lemma alike_locate [alike_rules]:
  "unrevealing gw \<Longrightarrow> alike (=) (locate gw b) (locate (gw\<lparr>gw_vault := x\<rparr>) b)"
  unfolding locate_def
  by (auto intro!: alike_rules split: verdict.split simp: unrevealing_def)

lemma alike_call:
  assumes "unrevealing_network net"
    and "init\<lparr>init_body := None\<rparr> = init'\<lparr>init_body := None\<rparr>"
    and "init_body init = init_body init' \<or> path = ''/human/secret''"
  shows "alike (=) (computer_call net base b path init sig t :: ('st world, jsv) io)
           (computer_call net base b path init' sig t)"
proof -
  have fields: "init_method init = init_method init'" "init_headers init = init_headers init'"
    using assms(2) by (metis request_init.select_convs(1,2) request_init.surjective request_init.update_convs(3))+
  let ?rq = "\<lambda>i. \<lparr>rq_url = without_trailing_slash base @ path, rq_method = init_method i,
      rq_headers = request_headers net b (init_headers i), rq_body = init_body i,
      rq_timeout_ms = (case t of None \<Rightarrow> net_timeout_ms net | Some t \<Rightarrow> t)\<rparr>"
  have veiled: "veil (Ev_fetch (?rq init)) = veil (Ev_fetch (?rq init'))"
    using assms(3) fields by (auto simp: veil_def suffix_def)
  have sent: "alike (=) (effect (Ev_fetch (?rq init)) (\<lambda>tr. Inr (net_fetch net tr (?rq init))))
      (effect (Ev_fetch (?rq init')) (\<lambda>tr. Inr (net_fetch net tr (?rq init'))))"
  proof (rule alike_effect [OF veiled])
    fix tr tr'
    assume "same_view tr tr'"
    with assms(1) veiled have "net_fetch net tr (?rq init) = net_fetch net tr' (?rq init')"
      unfolding unrevealing_network_def by blast
    then show "rel_sum (=) (=) (Inr (net_fetch net tr (?rq init))) (Inr (net_fetch net tr' (?rq init')))" by simp
  qed
  let ?k = "\<lambda>outcome. case outcome of
      Timed_out \<Rightarrow> io_throw (Computer_unavailable ''The assistant's computer did not respond in time.'')
    | Not_reached \<Rightarrow> io_throw (Computer_unavailable ''The assistant's computer is not running.'')
    | Response status body \<Rightarrow>
        if response_ok status then io_return (case body of None \<Rightarrow> JNull | Some b \<Rightarrow> b)
        else io_throw (mapped_error status body)"
  have "alike (=) (?k r) (?k r)" for r :: fetch_outcome
    by (cases r) (auto intro: alike_rules)
  with sent have whole: "alike (=)
      (io_bind (effect (Ev_fetch (?rq init)) (\<lambda>tr. Inr (net_fetch net tr (?rq init)))) ?k)
      (io_bind (effect (Ev_fetch (?rq init')) (\<lambda>tr. Inr (net_fetch net tr (?rq init')))) ?k)"
    by (rule alike_bind_eq)
  let ?stopped = "\<lambda>tr. case sig of None \<Rightarrow> False | Some s \<Rightarrow> net_aborted net tr s"
  have one: "computer_call net base b path i sig t v =
      (if ?stopped (w_trace v) then io_throw (Computer_unavailable ''The action was stopped.'') v
       else io_bind (effect (Ev_fetch (?rq i)) (\<lambda>tr. Inr (net_fetch net tr (?rq i)))) ?k v)"
    for i and v :: "'st world"
    by (simp only: computer_call_def Let_def)
  show ?thesis
    unfolding alike_def
  proof (intro allI impI)
    fix w w' :: "'st world"
    assume same: "same_world w w'"
    with assms(1) have stop: "?stopped (w_trace w) = ?stopped (w_trace w')"
      by (auto simp: unrevealing_network_def same_world_def split: option.split)
    show "rel_sum (=) (=) (fst (computer_call net base b path init sig t w))
        (fst (computer_call net base b path init' sig t w'))
      \<and> same_world (snd (computer_call net base b path init sig t w)) (snd (computer_call net base b path init' sig t w'))"
    proof (cases "?stopped (w_trace w)")
      case True
      then have "computer_call net base b path init sig t w = io_throw (Computer_unavailable ''The action was stopped.'') w"
        "computer_call net base b path init' sig t w' = io_throw (Computer_unavailable ''The action was stopped.'') w'"
        using stop by (simp_all only: one if_True)
      with same show ?thesis by (simp add: io_throw_def)
    next
      case False
      then have eqs: "computer_call net base b path init sig t w =
          io_bind (effect (Ev_fetch (?rq init)) (\<lambda>tr. Inr (net_fetch net tr (?rq init)))) ?k w"
        "computer_call net base b path init' sig t w' =
          io_bind (effect (Ev_fetch (?rq init')) (\<lambda>tr. Inr (net_fetch net tr (?rq init')))) ?k w'"
        using stop by (simp_all only: one if_False)
      from whole same show ?thesis unfolding eqs alike_def by blast
    qed
  qed
qed

section \<open>The gateway, with one vault and with the other\<close>

lemma alike_post [alike_rules]:
  assumes "unrevealing gw" "payload = payload' \<or> path = ''/human/secret''"
  shows "alike (=) (gateway_post gw b path payload sig t) (gateway_post (gw\<lparr>gw_vault := x\<rparr>) b path payload' sig t)"
  unfolding gateway_post_def
proof (rule alike_bind_eq [OF alike_locate [OF assms(1)]])
  show "alike (=) (computer_post (gw_net gw) base b path payload sig t)
      (computer_post (gw_net (gw\<lparr>gw_vault := x\<rparr>)) base b path payload' sig t)" for base
    using assms unfolding computer_post_def
    by (auto simp: unrevealing_def intro!: alike_call)
qed

lemma alike_navigate [alike_rules]:
  assumes "unrevealing gw"
  shows "alike (=) (computer_navigate (gw_net gw) base b target)
    (computer_navigate (gw_net gw) base b target)"
  using assms unfolding computer_navigate_def computer_post_def
  by (auto simp: unrevealing_def intro!: alike_call alike_throw split: verdict.split)

lemma alike_write_row [alike_rules]:
  "unrevealing gw \<Longrightarrow> alike (=) (write_row gw row) (write_row (gw\<lparr>gw_vault := x\<rparr>) row)"
  unfolding write_row_def Let_def
  by (auto intro!: alike_effect_eq simp: unrevealing_def)

lemma alike_session_of [alike_rules]:
  assumes "unrevealing gw"
  shows "alike (=) (session_of gw b) (session_of (gw\<lparr>gw_vault := x\<rparr>) b)"
proof (cases "gw_session gw")
  case (Some ask)
  with assms have "ask tr = ask tr'" if "same_view tr tr'" for tr tr'
    using that by (auto simp: unrevealing_def)
  then have asked: "alike (=) (effect (Ev_session b) (\<lambda>tr. ask tr b)) (effect (Ev_session b) (\<lambda>tr. ask tr b))"
    by (intro alike_effect_eq) metis
  show ?thesis
    by (simp add: session_of_def Some)
      (intro alike_catch alike_bind_eq [OF asked] alike_return)
qed (auto simp: session_of_def intro: alike_rules)

lemma alike_world:
  "(\<And>v v'. same_world v v' \<Longrightarrow> alike R (m v) (m' v')) \<Longrightarrow> alike R (\<lambda>w. m w w) (\<lambda>w. m' w w)"
  by (simp add: alike_def)

text \<open>\<open>govern\<close> after its session, as a function of the policy in force at that moment.\<close>

definition decided ::
  "'st gateway \<Rightarrow> string \<Rightarrow> string \<Rightarrow> action_actor \<Rightarrow> subject \<Rightarrow> ('st world, jsv) io \<Rightarrow>
   stored_snapshot option \<Rightarrow> string option \<Rightarrow> action_policy option \<Rightarrow> ('st world, jsv) io" where
  "decided gw tool b ac sj run stored session policy =
     (let element = resolve stored (sj_ref sj) (sj_snapshot_id sj) session;
          decision = fst (evaluate_action_policy (gw_cel gw) (gw_regex gw) policy
            (action_context (net_parse_url (gw_net gw)) tool b ac sj stored element))
      in io_then (write_row gw (action_row (decision_entry_of tool b ac sj stored element decision)))
          (if \<not> dec_forward decision
           then io_throw (Action_refused (dec_reason decision) (dec_matched decision))
           else
             io_bind
               (io_catch (attempt stored (sj_ref sj) element run)
                 (\<lambda>e. io_then
                   (write_row gw (action_row
                     (failure_entry_of tool b ac sj stored element decision (error_message e))))
                   (io_throw e)))
               (\<lambda>result. io_return (with_element element result))))"

lemma govern_decided:
  "govern gw tool b ac sj run =
     io_bind get_store (\<lambda>st. io_bind (session_of gw b)
       (\<lambda>session w. decided gw tool b ac sj run (gw_load gw b st) session (gw_policy gw (w_trace w)) w))"
  by (simp only: govern_def decided_def Let_def)

lemma alike_decided:
  assumes "unrevealing gw" "alike (=) run run'"
  shows "alike (=) (decided gw tool b ac sj run stored session policy)
           (decided (gw\<lparr>gw_vault := x\<rparr>) tool b ac sj run' stored session policy)"
proof -
  have tried: "alike (=) (attempt stored ref element run) (attempt stored ref element run')" for ref element
    using assms(2) by (auto simp: attempt_def intro: alike_throw)
  have row: "alike (=) (write_row gw row) (write_row (gw\<lparr>gw_vault := x\<rparr>) row)" for row
    by (rule alike_write_row [OF assms(1)])
  have fields: "gw_cel (gw\<lparr>gw_vault := x\<rparr>) = gw_cel gw" "gw_regex (gw\<lparr>gw_vault := x\<rparr>) = gw_regex gw"
    "gw_net (gw\<lparr>gw_vault := x\<rparr>) = gw_net gw" by simp_all
  show ?thesis
    unfolding decided_def Let_def fields
    by (intro alike_bind_eq [OF row] alike_if alike_throw alike_bind_eq alike_catch tried alike_return)
qed

lemma alike_govern:
  assumes "unrevealing gw" "alike (=) run run'"
  shows "alike (=) (govern gw tool b ac sj run) (govern (gw\<lparr>gw_vault := x\<rparr>) tool b ac sj run')"
proof -
  have same: "alike (=) (\<lambda>w. decided gw tool b ac sj run stored s (gw_policy gw (w_trace w)) w)
      (\<lambda>w. decided (gw\<lparr>gw_vault := x\<rparr>) tool b ac sj run' stored s (gw_policy gw (w_trace w)) w)" for stored s
  proof (rule alike_world [where m = "\<lambda>v. decided gw tool b ac sj run stored s (gw_policy gw (w_trace v))"
        and m' = "\<lambda>v. decided (gw\<lparr>gw_vault := x\<rparr>) tool b ac sj run' stored s (gw_policy gw (w_trace v))"])
    fix v v' :: "'a world"
    assume "same_world v v'"
    with assms(1) have policy: "gw_policy gw (w_trace v) = gw_policy gw (w_trace v')"
      by (auto simp: unrevealing_def same_world_def)
    show "alike (=) (decided gw tool b ac sj run stored s (gw_policy gw (w_trace v)))
        (decided (gw\<lparr>gw_vault := x\<rparr>) tool b ac sj run' stored s (gw_policy gw (w_trace v')))"
      unfolding policy by (rule alike_decided [OF assms])
  qed
  have fields: "gw_load (gw\<lparr>gw_vault := x\<rparr>) = gw_load gw" "gw_policy (gw\<lparr>gw_vault := x\<rparr>) = gw_policy gw" by simp_all
  show ?thesis
    unfolding govern_decided fields
    by (intro alike_bind_eq [OF alike_get] alike_bind_eq [OF alike_session_of [OF assms(1)]] same)
qed

lemma alike_vault_value:
  "same_but_secrets v v' \<Longrightarrow> alike (\<lambda>a b. truthy a = truthy b) (vault_value v f c) (vault_value v' f c)"
  unfolding vault_value_def same_but_secrets_def
  by (cases f) (auto intro!: alike_effect)

lemma alike_deliver:
  "unrevealing gw \<Longrightarrow> alike (=) (deliver_secret gw b ac r n c f s) (deliver_secret (gw\<lparr>gw_vault := x\<rparr>) b ac r n c f s')"
  unfolding deliver_secret_def by (auto intro!: alike_rules)

lemma alike_perform:
  assumes "unrevealing gw" "gw_vault gw = Some v" "same_but_secrets v v'"
  shows "alike (=) (perform gw b ac a) (perform (gw\<lparr>gw_vault := Some v'\<rparr>) b ac a)"
proof (cases a)
  case (Do_type_secret r n c f)
  have allowed: "alike (=) (effect (Ev_vault ''allowed'' c) (\<lambda>tr. va_allowed v tr c b))
      (effect (Ev_vault ''allowed'' c) (\<lambda>tr. va_allowed v' tr c b))"
    using assms(3) by (intro alike_effect_eq) (simp add: same_but_secrets_def)
  show ?thesis
    unfolding Do_type_secret perform.simps type_secret_def assms(2)
    by (auto intro!: alike_govern assms(1) alike_bind_eq [OF allowed] alike_throw
        alike_bind [OF alike_vault_value [OF assms(3)]] alike_deliver)
next
  case (Do_use_session c u)
  have allowed: "alike (=) (effect (Ev_vault ''allowed'' c) (\<lambda>tr. va_allowed v tr c b))
      (effect (Ev_vault ''allowed'' c) (\<lambda>tr. va_allowed v' tr c b))"
    and session: "alike (=) (effect (Ev_vault ''sessionOf'' c) (\<lambda>tr. va_session v tr c))
      (effect (Ev_vault ''sessionOf'' c) (\<lambda>tr. va_session v' tr c))"
    using assms(3) by (auto intro!: alike_effect_eq simp: same_but_secrets_def)
  show ?thesis
    unfolding Do_use_session perform.simps use_session_def assms(2)
    by (auto intro!: alike_govern assms(1) alike_bind_eq [OF allowed] alike_bind_eq [OF session] alike_rules
        split: option.split)
qed (use assms(1) in \<open>auto simp: navigate_def click_def type_text_def press_key_def scroll_def read_file_def
      list_files_def write_file_def run_command_def intro!: alike_govern alike_rules\<close>)


definition other_vault :: vault where
  "other_vault =
     \<lparr>va_allowed = (\<lambda>_ _ _. Inr True), va_secret = (\<lambda>_ _. Inr (Some ''correct horse'')),
      va_username = (\<lambda>_ _. Inr None), va_totp = (\<lambda>_ _. Inr None), va_session = (\<lambda>_ _. Inr None)\<rparr>"


end
