(* ===== verification/Workspace.thy ===== *)
theory Workspace
  imports Prelude
begin

text \<open>
  A Bot's files and the boundary they must not leave:
  \<^verbatim>\<open>agent-computer/src/workspace.ts\<close>. The file system is a map from absolute paths (lists of names)
  to directories, files and symbolic links; what Node and the kernel do with a path (\<^verbatim>\<open>realpath\<close>,
  \<^verbatim>\<open>lstat\<close>, \<^verbatim>\<open>mkdir\<close> with \<^verbatim>\<open>recursive\<close>, an open for writing) is written out over it, links followed
  component by component with the kernel's limit of 40. The theorems: whatever path is asked for and
  whatever links are on the disk, a write changes nothing outside the workspace and a read returns
  the bytes of a file inside it.
\<close>

section \<open>The disk\<close>

type_synonym path = "string list"

datatype node = Directory | File "8 word list" | Link string

type_synonym disk = "path \<rightharpoonup> node"

datatype errno = ENOENT | ENOTDIR | ELOOP | EEXIST | EISDIR

definition is_absolute :: "string \<Rightarrow> bool" where
  "is_absolute s = (s \<noteq> [] \<and> hd s = CHR ''/'')"

text \<open>
  The kernel's walk over the components left to resolve: \<^verbatim>\<open>.\<close> and empty components stay, \<^verbatim>\<open>..\<close> goes
  up from where the walk really is, a link splices its target in, and a last component that is a
  link is returned itself when it is not to be followed. A last component with nothing there is
  where a new entry would be made.
\<close>

function kernel_walk :: "disk \<Rightarrow> nat \<Rightarrow> bool \<Rightarrow> path \<Rightarrow> string list \<Rightarrow> errno + path" where
  "kernel_walk d hops follow cur [] = Inr cur"
| "kernel_walk d hops follow cur (c # rest) =
     (if d cur \<noteq> Some Directory then Inl (if d cur = None then ENOENT else ENOTDIR)
      else if c = [] \<or> c = ''.'' then kernel_walk d hops follow cur rest
      else if c = ''..'' then kernel_walk d hops follow (butlast cur) rest
      else case d (cur @ [c]) of
          Some (Link t) \<Rightarrow>
            if rest = [] \<and> \<not> follow then Inr (cur @ [c])
            else (case hops of
                    0 \<Rightarrow> Inl ELOOP
                  | Suc h \<Rightarrow> kernel_walk d h follow (if is_absolute t then [] else cur)
                              (split_on (CHR ''/'') t @ rest))
        | _ \<Rightarrow> kernel_walk d hops follow (cur @ [c]) rest)"
  by pat_completeness auto
termination
  by (relation "inv_image ({(a, b). a < b} <*lex*> {(a, b). a < b})
        (\<lambda>(d, hops, follow, cur, rest). (hops, length rest))") (auto simp: wf_less)

definition link_limit :: nat where
  "link_limit = 40"

definition real_path :: "disk \<Rightarrow> path \<Rightarrow> errno + path" where
  "real_path d p =
     (case kernel_walk d link_limit True [] p of
        Inl e \<Rightarrow> Inl e
      | Inr q \<Rightarrow> if d q = None then Inl ENOENT else Inr q)"

text \<open>\<^verbatim>\<open>stat\<close> and \<^verbatim>\<open>lstat\<close> with \<^verbatim>\<open>.catch(() => null)\<close>.\<close>

definition stat_of :: "disk \<Rightarrow> path \<Rightarrow> node option" where
  "stat_of d p = (case real_path d p of Inl _ \<Rightarrow> None | Inr q \<Rightarrow> d q)"

definition lstat_of :: "disk \<Rightarrow> path \<Rightarrow> node option" where
  "lstat_of d p = (case kernel_walk d link_limit False [] p of Inl _ \<Rightarrow> None | Inr q \<Rightarrow> d q)"

definition make_directory :: "disk \<Rightarrow> path \<Rightarrow> errno + disk" where
  "make_directory d p =
     (case kernel_walk d link_limit False [] p of
        Inl e \<Rightarrow> Inl e
      | Inr q \<Rightarrow> if d q = None then Inr (d(q \<mapsto> Directory)) else Inl EEXIST)"

text \<open>
  \<^verbatim>\<open>mkdir\<close> with \<^verbatim>\<open>recursive: true\<close>: a missing parent is made first, and a name that is already taken is
  accepted when it is a directory once links are followed.
\<close>

definition settle_directory :: "disk \<Rightarrow> path \<Rightarrow> errno \<Rightarrow> errno option \<times> disk" where
  "settle_directory d p e =
     (case stat_of d p of
        Some Directory \<Rightarrow> (None, d)
      | Some _ \<Rightarrow> (Some e, d)
      | None \<Rightarrow> (Some ENOENT, d))"

function make_directories :: "disk \<Rightarrow> path \<Rightarrow> errno option \<times> disk" where
  "make_directories d p =
     (if p = [] then (None, d)
      else case make_directory d p of
          Inr d' \<Rightarrow> (None, d')
        | Inl ENOTDIR \<Rightarrow> (Some ENOTDIR, d)
        | Inl ENOENT \<Rightarrow>
            (case make_directories d (butlast p) of
               (Some e, d') \<Rightarrow> (Some e, d')
             | (None, d') \<Rightarrow>
                 (case make_directory d' p of
                    Inr d'' \<Rightarrow> (None, d'')
                  | Inl e \<Rightarrow> settle_directory d' p e))
        | Inl e \<Rightarrow> settle_directory d p e)"
  by pat_completeness auto
termination
  by (relation "measure (\<lambda>(d, p). length p)") auto

declare make_directories.simps [simp del]

definition write_bytes :: "disk \<Rightarrow> path \<Rightarrow> 8 word list \<Rightarrow> bool \<Rightarrow> errno option \<times> disk" where
  "write_bytes d p bytes add =
     (case kernel_walk d link_limit True [] p of
        Inl e \<Rightarrow> (Some e, d)
      | Inr q \<Rightarrow>
          (case d q of
             None \<Rightarrow> (None, d(q \<mapsto> File bytes))
           | Some (File old) \<Rightarrow> (None, d(q \<mapsto> File (if add then old @ bytes else bytes)))
           | Some Directory \<Rightarrow> (Some EISDIR, d)
           | Some (Link _) \<Rightarrow> (Some ELOOP, d)))"

section \<open>Paths as text\<close>

text \<open>\<^verbatim>\<open>resolve\<close>, \<^verbatim>\<open>relative\<close>, \<^verbatim>\<open>dirname\<close>, \<^verbatim>\<open>basename\<close> and \<^verbatim>\<open>join\<close> of \<^verbatim>\<open>node:path\<close>, over absolute paths.\<close>

fun normalize :: "path \<Rightarrow> string list \<Rightarrow> path" where
  "normalize acc [] = acc"
| "normalize acc (c # cs) =
     (if c = [] \<or> c = ''.'' then normalize acc cs
      else if c = ''..'' then normalize (butlast acc) cs
      else normalize (acc @ [c]) cs)"

definition resolve_path :: "path \<Rightarrow> string \<Rightarrow> path" where
  "resolve_path base s = normalize (if is_absolute s then [] else base) (split_on (CHR ''/'') s)"

fun relative_path :: "path \<Rightarrow> path \<Rightarrow> path" where
  "relative_path (a # as) (b # bs) =
     (if a = b then relative_path as bs else replicate (Suc (length as)) ''..'' @ b # bs)"
| "relative_path [] bs = bs"
| "relative_path as [] = replicate (length as) ''..''"

definition base_name :: "path \<Rightarrow> string" where
  "base_name p = (if p = [] then [] else last p)"

definition join_path :: "path \<Rightarrow> string \<Rightarrow> path" where
  "join_path p name = (if name = [] then p else p @ [name])"

definition show_path :: "path \<Rightarrow> string" where
  "show_path p = ''/'' @ join_with ''/'' p"

section \<open>Confinement\<close>

datatype workspace_error =
    Path_error string
  | File_error string
  | System_error errno

definition assert_inside :: "path \<Rightarrow> path \<Rightarrow> string \<Rightarrow> workspace_error + unit" where
  "assert_inside root candidate shown =
     (let rel = relative_path root candidate in
      if rel \<noteq> [] \<and> hd rel = ''..''
      then Inl (Path_error (shown @ '' is outside your workspace, so it cannot be reached.''))
      else Inr ())"

definition max_link_hops :: nat where
  "max_link_hops = 32"

text \<open>The loop runs for hops 0 to \<^term>\<open>max_link_hops\<close>; the first argument counts the turns left.\<close>

fun write_destination :: "nat \<Rightarrow> disk \<Rightarrow> path \<Rightarrow> string \<Rightarrow> workspace_error + path" where
  "write_destination 0 d current shown =
     Inl (Path_error (shown @ '' is a chain of links that does not settle, so where a write would '' @
                      ''land cannot be established.''))"
| "write_destination (Suc n) d current shown =
     (case lstat_of d current of
        Some (Link t) \<Rightarrow> write_destination n d (resolve_path (butlast current) t) shown
      | _ \<Rightarrow> Inr current)"

function nearest_existing_ancestor :: "disk \<Rightarrow> path \<Rightarrow> path \<Rightarrow> workspace_error + path" where
  "nearest_existing_ancestor d root current =
     (case real_path d current of
        Inr q \<Rightarrow> Inr q
      | Inl _ \<Rightarrow>
          if current = [] then Inl (Path_error ''The workspace directory is missing.'')
          else case assert_inside root (butlast current) (show_path (butlast current)) of
              Inl e \<Rightarrow> Inl e
            | Inr _ \<Rightarrow> nearest_existing_ancestor d root (butlast current))"
  by pat_completeness auto
termination
  by (relation "measure (\<lambda>(d, root, p). length p)") auto

declare nearest_existing_ancestor.simps [simp del]

text \<open>What a write to a name that is already a link is resolved to, checked like the name itself.\<close>

definition resolve_link :: "disk \<Rightarrow> path \<Rightarrow> string \<Rightarrow> path \<Rightarrow> workspace_error + path" where
  "resolve_link d root wanted landing =
     (case real_path d (butlast landing) of
        Inl _ \<Rightarrow> Inl (Path_error (wanted @ '' points at somewhere that does not exist, so where a '' @
                                ''write would land cannot be established.''))
      | Inr holder \<Rightarrow>
          (case assert_inside root holder wanted of
             Inl e \<Rightarrow> Inl e
           | Inr _ \<Rightarrow>
               let resolved = join_path holder (base_name landing) in
               (case assert_inside root resolved wanted of
                  Inl e \<Rightarrow> Inl e
                | Inr _ \<Rightarrow> Inr resolved)))"

definition real_anchor :: "disk \<Rightarrow> path \<Rightarrow> string \<Rightarrow> bool \<Rightarrow> path \<Rightarrow> workspace_error + path" where
  "real_anchor d root wanted for_write target =
     (let anchor = (if for_write then butlast target else target) in
      case real_path d anchor of
        Inr q \<Rightarrow> Inr q
      | Inl _ \<Rightarrow>
          if \<not> for_write then Inl (File_error (''There is no file at '' @ wanted @ ''.''))
          else nearest_existing_ancestor d root anchor)"

definition resolve_within :: "disk \<Rightarrow> path \<Rightarrow> string \<Rightarrow> bool \<Rightarrow> workspace_error + path" where
  "resolve_within d root wanted for_write =
     (let target = resolve_path root wanted in
      case assert_inside root target (show_path target) of
        Inl e \<Rightarrow> Inl e
      | Inr _ \<Rightarrow>
          (case real_anchor d root wanted for_write target of
             Inl e \<Rightarrow> Inl e
           | Inr anchored \<Rightarrow>
               (case assert_inside root anchored wanted of
                  Inl e \<Rightarrow> Inl e
                | Inr _ \<Rightarrow>
                    if \<not> for_write then Inr anchored
                    else (case write_destination (Suc max_link_hops) d target wanted of
                            Inl e \<Rightarrow> Inl e
                          | Inr landing \<Rightarrow>
                              if landing = target then Inr target
                              else resolve_link d root wanted landing))))"

definition resolve_request :: "disk \<Rightarrow> path \<Rightarrow> jsv \<Rightarrow> bool \<Rightarrow> workspace_error + path" where
  "resolve_request d root_path requested for_write =
     (case requested of
        JStr text \<Rightarrow>
          let wanted = js_trim text in
          if wanted = [] then Inl (Path_error ''A file path is required.'')
          else if is_absolute wanted
          then Inl (Path_error ''Use a path relative to your workspace, not an absolute one.'')
          else if ''..'' \<in> set (split_when (\<lambda>c. c = CHR ''/'' \<or> char_code c = 92) wanted)
          then Inl (Path_error (''A file path may not contain '' @ [char_of (39::nat)] @ ''..'' @
                    [char_of (39::nat)] @ ''. You can only reach files inside your own workspace.''))
          else (case real_path d root_path of
                  Inl e \<Rightarrow> Inl (System_error e)
                | Inr root \<Rightarrow> resolve_within d root wanted for_write)
      | _ \<Rightarrow> Inl (Path_error ''A file path is required.''))"

section \<open>Reading, writing and listing\<close>

record workspace_limits =
  wl_read :: nat
  wl_write :: nat
  wl_entries :: nat

definition default_workspace_limits :: workspace_limits where
  "default_workspace_limits = \<lparr>wl_read = 64000, wl_write = 1000000, wl_entries = 500\<rparr>"

text \<open>The UTF-8 encoding of the characters of the model, whose codes are below 256.\<close>

definition utf8 :: "string \<Rightarrow> 8 word list" where
  "utf8 s = concat (map (\<lambda>c. let n = char_code c in
     if n < 128 then [of_nat n] else [of_nat (192 + n div 64), of_nat (128 + n mod 64)]) s)"

text \<open>The answer of a read, with the bytes that are handed to the UTF-8 decoder.\<close>

record read_result =
  rr_path :: string
  rr_text :: "8 word list"
  rr_truncated :: bool
  rr_bytes :: nat

definition requested_text :: "jsv \<Rightarrow> string" where
  "requested_text v = (case v of JStr t \<Rightarrow> t | _ \<Rightarrow> [])"

definition workspace_read :: "workspace_limits \<Rightarrow> disk \<Rightarrow> path \<Rightarrow> jsv \<Rightarrow> workspace_error + read_result" where
  "workspace_read lim d root_path requested =
     (let name = requested_text requested in
      case resolve_request d root_path requested False of
        Inl e \<Rightarrow> Inl e
      | Inr full \<Rightarrow>
          (case stat_of d full of
             Some (File bytes) \<Rightarrow>
               Inr \<lparr>rr_path = name, rr_text = take (wl_read lim) bytes,
                    rr_truncated = (length bytes > length (take (wl_read lim) bytes)),
                    rr_bytes = length bytes\<rparr>
           | Some _ \<Rightarrow> Inl (File_error (name @ '' is a directory, not a file.''))
           | None \<Rightarrow> Inl (File_error (''There is no file at '' @ name @ ''.''))))"

record write_result =
  wr_path :: string
  wr_bytes :: nat
  wr_appended :: bool

definition workspace_write ::
  "workspace_limits \<Rightarrow> disk \<Rightarrow> path \<Rightarrow> jsv \<Rightarrow> jsv \<Rightarrow> bool \<Rightarrow> (workspace_error + write_result) \<times> disk" where
  "workspace_write lim d root_path requested contents add =
     (case contents of
        JStr text \<Rightarrow>
          let bytes = utf8 text in
          if wl_write lim < length bytes
          then (Inl (File_error (''That is '' @ show_nat (length bytes) @ '' bytes and the limit is '' @
                                 show_nat (wl_write lim) @ ''.'')), d)
          else (case resolve_request d root_path requested True of
                  Inl e \<Rightarrow> (Inl e, d)
                | Inr full \<Rightarrow>
                    (case make_directories d (butlast full) of
                       (Some e, d1) \<Rightarrow> (Inl (System_error e), d1)
                     | (None, d1) \<Rightarrow>
                         (case write_bytes d1 full bytes add of
                            (Some e, d2) \<Rightarrow> (Inl (System_error e), d2)
                          | (None, d2) \<Rightarrow>
                              (Inr \<lparr>wr_path = requested_text requested, wr_bytes = length bytes,
                                    wr_appended = add\<rparr>, d2))))
      | _ \<Rightarrow> (Inl (File_error ''The contents to write must be text.''), d))"

datatype entry_kind = File_entry | Folder_entry

record workspace_entry =
  we_path :: path
  we_kind :: entry_kind
  we_bytes :: "nat option"

text \<open>
  The listing's recursive walk as a work list of the paths still to visit: the entries of a folder go
  to the front, which is the order of the recursion. The bound is looked at before each entry.
\<close>

function list_walk ::
  "nat \<Rightarrow> disk \<Rightarrow> (path \<Rightarrow> string list) \<Rightarrow> nat \<Rightarrow> path list \<Rightarrow> workspace_entry list \<Rightarrow>
   workspace_entry list \<times> bool" where
  "list_walk limit d names skip [] found = (found, False)"
| "list_walk limit d names skip (full # rest) found =
     (if limit \<le> length found then (found, True)
      else case d full of
          Some Directory \<Rightarrow>
            list_walk limit d names skip (map (\<lambda>n. full @ [n]) (names full) @ rest)
              (found @ [\<lparr>we_path = drop skip full, we_kind = Folder_entry, we_bytes = None\<rparr>])
        | Some (File bytes) \<Rightarrow>
            list_walk limit d names skip rest
              (found @ [\<lparr>we_path = drop skip full, we_kind = File_entry, we_bytes = Some (length bytes)\<rparr>])
        | _ \<Rightarrow> list_walk limit d names skip rest found)"
  by pat_completeness auto
termination
  by (relation "inv_image ({(a, b). a < b} <*lex*> {(a, b). a < b})
        (\<lambda>(limit, d, names, skip, todo, found). (limit - length found, length todo))")
     (auto simp: wf_less)

definition workspace_list ::
  "workspace_limits \<Rightarrow> disk \<Rightarrow> (path \<Rightarrow> string list) \<Rightarrow> path \<Rightarrow> string \<Rightarrow>
   workspace_error + (workspace_entry list \<times> bool)" where
  "workspace_list lim d names root_path requested =
     (case real_path d root_path of
        Inl e \<Rightarrow> Inl (System_error e)
      | Inr root \<Rightarrow>
          (case (if requested = ''.'' \<or> js_trim requested = [] then Inr root
                 else resolve_request d root_path (JStr requested) False) of
             Inl e \<Rightarrow> Inl e
           | Inr start \<Rightarrow>
               (case stat_of d start of
                  Some Directory \<Rightarrow>
                    Inr (list_walk (wl_entries lim) d names (length root)
                           (map (\<lambda>n. start @ [n]) (names start)) [])
                | Some _ \<Rightarrow> Inl (File_error (requested @ '' is a file, not a folder.''))
                | None \<Rightarrow> Inl (File_error (''There is no folder at '' @ requested @ ''.'')))))"

section \<open>Walking\<close>

definition plain_name :: "string \<Rightarrow> bool" where
  "plain_name c = (c \<noteq> [] \<and> c \<noteq> ''.'' \<and> c \<noteq> ''..'')"

text \<open>One case of the walk per rule, and an induction rule with the same cases.\<close>

declare kernel_walk.simps(2) [simp del]

lemma walk_stuck:
  "d cur \<noteq> Some Directory \<Longrightarrow>
     kernel_walk d h f cur (c # rest) = Inl (if d cur = None then ENOENT else ENOTDIR)"
  by (simp add: kernel_walk.simps(2))

lemma walk_dot:
  "d cur = Some Directory \<Longrightarrow> c = [] \<or> c = ''.'' \<Longrightarrow>
     kernel_walk d h f cur (c # rest) = kernel_walk d h f cur rest"
  by (auto simp: kernel_walk.simps(2))

lemma walk_up:
  "d cur = Some Directory \<Longrightarrow>
     kernel_walk d h f cur (''..'' # rest) = kernel_walk d h f (butlast cur) rest"
  by (simp add: kernel_walk.simps(2))

lemma walk_step:
  "d cur = Some Directory \<Longrightarrow> plain_name c \<Longrightarrow> (\<And>t. d (cur @ [c]) \<noteq> Some (Link t)) \<Longrightarrow>
     kernel_walk d h f cur (c # rest) = kernel_walk d h f (cur @ [c]) rest"
  by (auto simp: kernel_walk.simps(2) plain_name_def split: option.split node.split)

lemma walk_link:
  "d cur = Some Directory \<Longrightarrow> plain_name c \<Longrightarrow> d (cur @ [c]) = Some (Link t) \<Longrightarrow>
     kernel_walk d h f cur (c # rest) =
       (if rest = [] \<and> \<not> f then Inr (cur @ [c])
        else case h of
            0 \<Rightarrow> Inl ELOOP
          | Suc h' \<Rightarrow> kernel_walk d h' f (if is_absolute t then [] else cur)
                        (split_on (CHR ''/'') t @ rest))"
  by (simp add: kernel_walk.simps(2) plain_name_def)

lemma walk_induct [case_names finish stuck dot up step link]:
  assumes "\<And>h cur. P h cur []"
    and "\<And>h cur c rest. d cur \<noteq> Some Directory \<Longrightarrow> P h cur (c # rest)"
    and "\<And>h cur c rest. d cur = Some Directory \<Longrightarrow> c = [] \<or> c = ''.'' \<Longrightarrow> P h cur rest \<Longrightarrow>
           P h cur (c # rest)"
    and "\<And>h cur rest. d cur = Some Directory \<Longrightarrow> P h (butlast cur) rest \<Longrightarrow> P h cur (''..'' # rest)"
    and "\<And>h cur c rest. d cur = Some Directory \<Longrightarrow> plain_name c \<Longrightarrow>
           (\<And>t. d (cur @ [c]) \<noteq> Some (Link t)) \<Longrightarrow> P h (cur @ [c]) rest \<Longrightarrow> P h cur (c # rest)"
    and "\<And>h cur c rest t. d cur = Some Directory \<Longrightarrow> plain_name c \<Longrightarrow>
           d (cur @ [c]) = Some (Link t) \<Longrightarrow>
           (\<And>h'. h = Suc h' \<Longrightarrow> P h' (if is_absolute t then [] else cur)
              (split_on (CHR ''/'') t @ rest)) \<Longrightarrow> P h cur (c # rest)"
  shows "P (h :: nat) cur (xs :: string list)"
proof (induction h arbitrary: cur xs rule: less_induct)
  case (less h cur xs)
  show ?case
  proof (induction xs arbitrary: cur)
    case Nil
    show ?case by (rule assms(1))
  next
    case (Cons c rest)
    consider "d cur \<noteq> Some Directory"
      | "d cur = Some Directory" "c = [] \<or> c = ''.''"
      | "d cur = Some Directory" "c = ''..''"
      | "d cur = Some Directory" "plain_name c" "\<And>t. d (cur @ [c]) \<noteq> Some (Link t)"
      | t where "d cur = Some Directory" "plain_name c" "d (cur @ [c]) = Some (Link t)"
      by (auto simp: plain_name_def)
    then show ?case
    proof cases
      case 1
      then show ?thesis by (rule assms(2))
    next
      case 2
      then show ?thesis using Cons by (rule assms(3))
    next
      case 3
      then show ?thesis using assms(4) Cons by blast
    next
      case 4
      then show ?thesis using Cons by (rule assms(5))
    next
      case 5
      then show ?thesis using less by (intro assms(6)) auto
    qed
  qed
qed

lemma walk_append:
  assumes "ys \<noteq> []"
  shows "(\<forall>e. kernel_walk d h True cur xs = Inl e \<longrightarrow> kernel_walk d h f cur (xs @ ys) = Inl e)
       \<and> (\<forall>q. kernel_walk d h True cur xs = Inr q \<longrightarrow>
            (\<exists>h' \<le> h. kernel_walk d h f cur (xs @ ys) = kernel_walk d h' f q ys))"
proof (induction h cur xs rule: walk_induct [where d = d])
  case (link h cur c rest t)
  show ?case
  proof (cases h)
    case 0
    with link assms show ?thesis by (simp add: walk_link)
  next
    case (Suc h')
    with link assms show ?thesis by (auto simp: walk_link le_Suc_eq)
  qed
qed (auto simp: walk_stuck walk_dot walk_up walk_step)

lemma walk_more_hops:
  "kernel_walk d h f cur xs = Inr q \<Longrightarrow> h \<le> h' \<Longrightarrow> kernel_walk d h' f cur xs = Inr q"
proof (induction h cur xs arbitrary: h' rule: walk_induct [where d = d])
  case (link h cur c rest t)
  then show ?case
    by (cases h; cases h') (auto simp: walk_link split: if_splits)
qed (auto simp: walk_stuck walk_dot walk_up walk_step)

lemma walk_unique:
  assumes "kernel_walk d h f cur xs = Inr q" "kernel_walk d h' f cur xs = Inr q'"
  shows "q = q'"
  using assms walk_more_hops [of d h f cur xs q "max h h'"]
    walk_more_hops [of d h' f cur xs q' "max h h'"] by simp

lemma walk_nofollow:
  "(\<forall>e. kernel_walk d h False cur xs = Inl e \<longrightarrow> kernel_walk d h True cur xs = Inl e)
 \<and> (\<forall>q. kernel_walk d h False cur xs = Inr q \<longrightarrow>
      kernel_walk d h True cur xs = Inr q \<or> (\<exists>t. d q = Some (Link t)))"
proof (induction h cur xs rule: walk_induct [where d = d])
  case (link h cur c rest t)
  then show ?case
    by (cases h) (auto simp: walk_link)
qed (auto simp: walk_stuck walk_dot walk_up walk_step)

section \<open>Where a walk ends\<close>

text \<open>A path with no link on it: each of its directories is one, and its last name is no link.\<close>

inductive canonical :: "disk \<Rightarrow> path \<Rightarrow> bool" for d where
  canonical_root: "canonical d []"
| canonical_step: "canonical d p \<Longrightarrow> d p = Some Directory \<Longrightarrow> plain_name c \<Longrightarrow>
    (\<And>t. d (p @ [c]) \<noteq> Some (Link t)) \<Longrightarrow> canonical d (p @ [c])"

inductive_cases canonical_snocE: "canonical d (p @ [c])"

lemma canonical_butlast: "canonical d p \<Longrightarrow> canonical d (butlast p)"
  by (cases rule: canonical.cases) (auto intro: canonical_root)

lemma walk_canonical:
  "kernel_walk d h True cur xs = Inr q \<Longrightarrow> canonical d cur \<Longrightarrow> canonical d q"
proof (induction h cur xs rule: walk_induct [where d = d])
  case (link h cur c rest t)
  then show ?case
    by (cases h) (auto simp: walk_link intro: canonical_root split: if_splits)
qed (auto simp: walk_stuck walk_dot walk_up walk_step intro: canonical_butlast canonical_step)

lemma canonical_prefix: "canonical d (p @ q) \<Longrightarrow> canonical d p"
  by (induction q rule: rev_induct) (auto elim: canonical_snocE simp flip: append_assoc)

lemma walk_on_canonical: "canonical d (cur @ xs) \<Longrightarrow> kernel_walk d h f cur xs = Inr (cur @ xs)"
proof (induction xs arbitrary: cur)
  case (Cons c xs)
  have "canonical d (cur @ [c])"
    using Cons.prems canonical_prefix [of d "cur @ [c]" xs] by simp
  then have "d cur = Some Directory" "plain_name c" "\<And>t. d (cur @ [c]) \<noteq> Some (Link t)"
    by (auto elim: canonical_snocE)
  with Cons show ?case by (simp add: walk_step)
qed simp

lemma real_pathD:
  assumes "real_path d p = Inr q"
  shows "kernel_walk d link_limit True [] p = Inr q" "d q \<noteq> None" "canonical d q"
  using assms walk_canonical canonical_root
  by (auto simp: real_path_def split: sum.splits if_splits)

lemma real_path_canonical: "canonical d q \<Longrightarrow> d q \<noteq> None \<Longrightarrow> real_path d q = Inr q"
  using walk_on_canonical [of d "[]" q] by (simp add: real_path_def)

text \<open>A path below one that resolves is resolved from where that one really is.\<close>

lemma walk_from_real:
  assumes "real_path d p = Inr q" "ys \<noteq> []"
  obtains h where "h \<le> link_limit" "kernel_walk d link_limit f [] (p @ ys) = kernel_walk d h f q ys"
  using walk_append [OF assms(2), of d link_limit "[]" p f] real_pathD(1) [OF assms(1)] by blast


section \<open>Containment\<close>

definition normal :: "path \<Rightarrow> bool" where
  "normal p = list_all plain_name p"

lemma normal_Nil [simp]: "normal []"
  by (simp add: normal_def)

lemma normal_snoc [simp]: "normal (p @ [c]) \<longleftrightarrow> normal p \<and> plain_name c"
  by (simp add: normal_def)

lemma normal_butlast: "normal p \<Longrightarrow> normal (butlast p)"
  unfolding normal_def list_all_iff by (blast dest: in_set_butlastD)

lemma normal_normalize: "normal acc \<Longrightarrow> normal (normalize acc cs)"
  by (induction acc cs rule: normalize.induct) (simp_all add: normal_butlast plain_name_def)

lemma normal_resolve: "normal base \<Longrightarrow> normal (resolve_path base s)"
  unfolding resolve_path_def by (rule normal_normalize) simp

lemma canonical_normal: "canonical d p \<Longrightarrow> normal p"
  by (induction rule: canonical.induct) auto

lemma relative_outside:
  "normal candidate \<Longrightarrow>
     (relative_path root candidate \<noteq> [] \<and> hd (relative_path root candidate) = ''..'')
       \<longleftrightarrow> \<not> prefix root candidate"
proof (induction root candidate rule: relative_path.induct)
  case (2 bs)
  then show ?case by (cases bs) (auto simp: normal_def plain_name_def)
qed (auto simp: normal_def plain_name_def)

lemma assert_inside_prefix:
  "normal candidate \<Longrightarrow> (\<exists>u. assert_inside root candidate shown = Inr u) \<longleftrightarrow> prefix root candidate"
  using relative_outside [of candidate root] by (simp add: assert_inside_def Let_def)

lemma assert_insideD: "assert_inside root candidate shown = Inr u \<Longrightarrow> normal candidate \<Longrightarrow> prefix root candidate"
  using assert_inside_prefix by blast

section \<open>Making directories\<close>

text \<open>The disk has a root, and every entry lies in a directory.\<close>

definition tree :: "disk \<Rightarrow> bool" where
  "tree d = (d [] = Some Directory \<and> (\<forall>p c. d (p @ [c]) \<noteq> None \<longrightarrow> d p = Some Directory))"

text \<open>The second disk is the first with directories added below \<^term>\<open>q\<close>.\<close>

definition grown_below :: "path \<Rightarrow> disk \<Rightarrow> disk \<Rightarrow> bool" where
  "grown_below q d d' =
     (\<forall>x. d' x \<noteq> d x \<longrightarrow> d x = None \<and> d' x = Some Directory \<and> strict_prefix q x)"

lemma grown_refl [simp]: "grown_below q d d"
  by (simp add: grown_below_def)

lemma grown_upd:
  "grown_below q d d' \<Longrightarrow> d x = None \<Longrightarrow> strict_prefix q x \<Longrightarrow> grown_below q d (d'(x \<mapsto> Directory))"
  by (simp add: grown_below_def)

lemma grown_directory: "grown_below q d d' \<Longrightarrow> d x = Some Directory \<Longrightarrow> d' x = Some Directory"
  by (metis grown_below_def option.distinct(1))

lemma grown_Some: "grown_below q d d' \<Longrightarrow> d x \<noteq> None \<Longrightarrow> d' x = d x"
  by (metis grown_below_def)

lemma grown_None: "grown_below q d d' \<Longrightarrow> d x = None \<Longrightarrow> d' x \<noteq> None \<Longrightarrow> d' x = Some Directory"
  by (metis grown_below_def)

text \<open>What a walk relies on: directories stay directories, links stay as they are, entries stay.\<close>

definition keeps :: "disk \<Rightarrow> disk \<Rightarrow> bool" where
  "keeps d d' =
     (\<forall>x. (d x = Some Directory \<longrightarrow> d' x = Some Directory) \<and>
          (\<forall>t. d' x = Some (Link t) \<longleftrightarrow> d x = Some (Link t)) \<and> (d x \<noteq> None \<longrightarrow> d' x \<noteq> None))"

lemma keeps_directory: "keeps d d' \<Longrightarrow> d x = Some Directory \<Longrightarrow> d' x = Some Directory"
  by (simp add: keeps_def)

lemma keeps_link: "keeps d d' \<Longrightarrow> d' x = Some (Link t) \<longleftrightarrow> d x = Some (Link t)"
  by (simp add: keeps_def)

lemma grown_keeps:
  assumes "grown_below q d d'"
  shows "keeps d d'"
  unfolding keeps_def
proof
  fix x
  show "(d x = Some Directory \<longrightarrow> d' x = Some Directory) \<and>
      (\<forall>t. (d' x = Some (Link t)) = (d x = Some (Link t))) \<and> (d x \<noteq> None \<longrightarrow> d' x \<noteq> None)"
    using assms by (cases "d' x = d x") (auto simp: grown_below_def)
qed

lemma keeps_write: "d x = None \<or> (\<exists>b. d x = Some (File b)) \<Longrightarrow> keeps d (d(x \<mapsto> File bytes))"
  by (auto simp: keeps_def)

lemma walk_kept:
  assumes "keeps d d'"
  shows "kernel_walk d h f cur xs = Inr r \<Longrightarrow> kernel_walk d' h f cur xs = Inr r"
proof (induction h cur xs rule: walk_induct [where d = d])
  case (link h cur c rest t)
  with keeps_link [OF assms] show ?case
    by (cases h) (auto simp: walk_link keeps_directory [OF assms] split: if_splits)
qed (auto simp: walk_stuck walk_dot walk_up walk_step keeps_directory [OF assms] keeps_link [OF assms])

lemma real_path_kept: "keeps d d' \<Longrightarrow> real_path d p = Inr x \<Longrightarrow> real_path d' p = Inr x"
  using walk_kept [of d d'] by (auto simp: real_path_def keeps_def split: sum.splits if_splits)

lemma real_path_grown: "grown_below q d d' \<Longrightarrow> real_path d p = Inr x \<Longrightarrow> real_path d' p = Inr x"
  using grown_keeps real_path_kept by blast

lemma make_directory_in:
  assumes "real_path d p = Inr q" "d q = Some Directory" "plain_name c"
  shows "make_directory d (p @ [c]) =
           (if d (q @ [c]) = None then Inr (d(q @ [c] \<mapsto> Directory)) else Inl EEXIST)"
proof -
  obtain h where "kernel_walk d link_limit False [] (p @ [c]) = kernel_walk d h False q [c]"
    using walk_from_real [OF assms(1)] by blast
  moreover have "kernel_walk d h False q [c] = Inr (q @ [c])"
    using assms(2,3)
    by (cases "\<exists>t. d (q @ [c]) = Some (Link t)") (auto simp: walk_link walk_step)
  ultimately show ?thesis by (simp add: make_directory_def)
qed

lemma real_path_in:
  assumes "real_path d p = Inr q" "d q = Some Directory" "plain_name c" "d (q @ [c]) = Some Directory"
  shows "real_path d (p @ [c]) = Inr (q @ [c])"
proof -
  obtain h where "kernel_walk d link_limit True [] (p @ [c]) = kernel_walk d h True q [c]"
    using walk_from_real [OF assms(1)] by blast
  with assms show ?thesis by (simp add: real_path_def walk_step)
qed

lemma make_directory_needs_parent:
  assumes "make_directory d (p @ [c]) = Inr d'" "plain_name c"
  shows "\<exists>q. real_path d p = Inr q \<and> d q = Some Directory"
proof -
  obtain x where w: "kernel_walk d link_limit False [] (p @ [c]) = Inr x" "d x = None"
    using assms(1) by (auto simp: make_directory_def split: sum.splits if_splits)
  then obtain q where "kernel_walk d link_limit True [] p = Inr q"
    using walk_append [of "[c]" d link_limit "[]" p False] by (cases "kernel_walk d link_limit True [] p") auto
  moreover from this obtain h where "kernel_walk d h False q [c] = Inr x"
    using walk_append [of "[c]" d link_limit "[]" p False] w by auto
  then have "d q = Some Directory"
    by (cases "d q = Some Directory") (auto simp: walk_stuck)
  ultimately show ?thesis by (simp add: real_path_def)
qed

lemma make_directory_missing:
  assumes "make_directory d (p @ [c]) = Inl ENOENT" "plain_name c"
  shows "\<exists>e. real_path d p = Inl e"
proof (cases "real_path d p")
  case (Inr q)
  show ?thesis
  proof (cases "d q = Some Directory")
    case True
    with make_directory_in [OF Inr _ assms(2)] assms(1) show ?thesis by (simp split: if_splits)
  next
    case False
    obtain h where "kernel_walk d link_limit False [] (p @ [c]) = kernel_walk d h False q [c]"
      using walk_from_real [OF Inr] by blast
    with False assms real_pathD(2) [OF Inr] show ?thesis
      by (simp add: make_directory_def walk_stuck)
  qed
qed simp

lemma make_directory_existing: "real_path d p = Inr q \<Longrightarrow> make_directory d p = Inl EEXIST"
  using walk_nofollow [of d link_limit "[]" p] real_pathD [of d p q]
  by (cases "kernel_walk d link_limit False [] p") (auto simp: make_directory_def)

lemma settle_disk [simp]: "snd (settle_directory d p e) = d"
  by (auto simp: settle_directory_def split: option.split node.split)

lemma settle_accepts: "fst (settle_directory d p e) = None \<longleftrightarrow> stat_of d p = Some Directory"
  by (auto simp: settle_directory_def split: option.split node.split)

lemma stat_of_directory: "stat_of d p = Some Directory \<longleftrightarrow> (\<exists>q. real_path d p = Inr q \<and> d q = Some Directory)"
  by (auto simp: stat_of_def split: sum.splits)

lemma make_directories_existing:
  assumes "real_path d p = Inr q"
  shows "snd (make_directories d p) = d"
  using make_directory_existing [OF assms] by (simp add: make_directories.simps [of d p])

lemma make_directories_grows:
  assumes "tree d"
  shows "normal p \<Longrightarrow> real_path d p = Inl e \<Longrightarrow> nearest_existing_ancestor d root p = Inr q \<Longrightarrow>
     make_directories d p = (res, d') \<Longrightarrow>
     grown_below q d d' \<and>
     (res = None \<longrightarrow> (\<exists>x. real_path d' p = Inr x \<and> d' x = Some Directory \<and> d x = None \<and> prefix q x))"
proof (induction p arbitrary: e res d' rule: rev_induct)
  case Nil
  then show ?case by (simp add: nearest_existing_ancestor.simps)
next
  case (snoc c p)
  have c: "plain_name c" and p: "normal p"
    using snoc.prems(1) by auto
  have near: "nearest_existing_ancestor d root p = Inr q"
    using snoc.prems(2,3) by (subst (asm) nearest_existing_ancestor.simps) (auto split: sum.splits)
  show ?case
  proof (cases "make_directory d (p @ [c])")
    case (Inr d1)
    then obtain q1 where q1: "real_path d p = Inr q1" "d q1 = Some Directory"
      using make_directory_needs_parent c by blast
    with near have "q1 = q" by (simp add: nearest_existing_ancestor.simps)
    with q1 Inr make_directory_in [OF q1 c] snoc.prems(4) have
      d': "res = None" "d' = d(q @ [c] \<mapsto> Directory)" "d (q @ [c]) = None"
      by (auto simp: make_directories.simps [of d "p @ [c]"] split: if_splits)
    then have g: "grown_below q d d'" by (simp add: grown_upd strict_prefix_def)
    have r: "real_path d' p = Inr q" "d' q = Some Directory"
      using real_path_grown [OF g q1(1)] grown_directory [OF g q1(2)] \<open>q1 = q\<close> by simp_all
    have dir: "d' (q @ [c]) = Some Directory"
      unfolding d'(2) by simp
    show ?thesis
      using g d'(1,3) dir real_path_in [OF r c dir] by (intro conjI impI exI [of _ "q @ [c]"]) simp_all
  next
    case (Inl e1)
    note md = snoc.prems(4) Inl make_directories.simps [of d "p @ [c]"]
    show ?thesis
    proof (cases "e1 = ENOENT")
      case False
      then have r: "(res, d') = (Some ENOTDIR, d) \<or> (res, d') = settle_directory d (p @ [c]) e1"
        using md by (cases e1) auto
      have "fst (settle_directory d (p @ [c]) e1) \<noteq> None"
        using settle_accepts [of d "p @ [c]" e1] snoc.prems(2) by (auto simp: stat_of_directory)
      with r have "d' = d" "res \<noteq> None"
        by (metis settle_disk snd_conv, metis fst_conv option.distinct(1))
      then show ?thesis by auto
    next
      case True
      then obtain e' where e': "real_path d p = Inl e'"
        using make_directory_missing c Inl by blast
      obtain res1 d1 where m1: "make_directories d p = (res1, d1)" by fastforce
      note ih = snoc.IH [OF p e' near m1]
      show ?thesis
      proof (cases res1)
        case (Some a)
        with md m1 True have "res = Some a" "d' = d1" by simp_all
        with ih show ?thesis by simp
      next
        case None
        with ih obtain x where x: "grown_below q d d1" "real_path d1 p = Inr x" "d1 x = Some Directory"
          "d x = None" "prefix q x" by blast
        then have new: "d (x @ [c]) = None"
          using assms unfolding tree_def by (metis option.distinct(1))
        let ?y = "x @ [c]"
        have inside: "strict_prefix q ?y" "prefix q ?y"
          using x(5) by (auto simp: strict_prefix_def prefix_def)
        show ?thesis
        proof (cases "d1 ?y = None")
          case True': True
          with md m1 True None make_directory_in [OF x(2,3) c] have
            d': "res = None" "d' = d1(?y \<mapsto> Directory)" by auto
          then have g: "grown_below q d d'" using x new inside by (simp add: grown_upd)
          have "grown_below q d1 d'" using True' d' inside by (simp add: grown_upd)
          from real_path_grown [OF this x(2)] grown_directory [OF this x(3)]
          have r: "real_path d' p = Inr x" "d' x = Some Directory" .
          have dir: "d' ?y = Some Directory"
            unfolding d'(2) by simp
          show ?thesis
            using g d'(1) new dir inside real_path_in [OF r c dir]
            by (intro conjI impI exI [of _ ?y]) simp_all
        next
          case False
          then have dir: "d1 ?y = Some Directory"
            using grown_None [OF x(1) new] by blast
          have "real_path d1 (p @ [c]) = Inr ?y"
            using real_path_in [OF x(2,3) c dir] .
          moreover have "(res, d') = settle_directory d1 (p @ [c]) EEXIST"
            using md m1 True None make_directory_in [OF x(2,3) c] False by simp
          then have "d' = d1" by (metis settle_disk snd_conv)
          ultimately show ?thesis using x(1) dir new inside by blast
        qed
      qed
    qed
  qed
qed

section \<open>Where a write lands\<close>

lemma write_lands:
  assumes "real_path d p = Inr q" "plain_name c" "\<And>t. d (q @ [c]) \<noteq> Some (Link t)"
    and "snd (write_bytes d (p @ [c]) bytes add) x \<noteq> d x"
  shows "x = q @ [c]"
proof -
  obtain h where h: "kernel_walk d link_limit True [] (p @ [c]) = kernel_walk d h True q [c]"
    using walk_from_real [OF assms(1)] by blast
  show ?thesis
  proof (cases "d q = Some Directory")
    case True
    with assms(2,3) have "kernel_walk d h True q [c] = Inr (q @ [c])" by (simp add: walk_step)
    with assms(4) h show ?thesis
      by (auto simp: write_bytes_def split: option.splits node.splits if_splits)
  next
    case False
    with assms(4) h show ?thesis by (simp add: write_bytes_def walk_stuck)
  qed
qed

lemma lstat_not_link:
  assumes "tree d" "real_path d p = Inr q" "plain_name c" "\<And>t. lstat_of d (p @ [c]) \<noteq> Some (Link t)"
  shows "d (q @ [c]) \<noteq> Some (Link t)"
proof
  assume link: "d (q @ [c]) = Some (Link t)"
  with assms(1) have dir: "d q = Some Directory" by (auto simp: tree_def)
  obtain h where "kernel_walk d link_limit False [] (p @ [c]) = kernel_walk d h False q [c]"
    using walk_from_real [OF assms(2)] by blast
  with link dir assms(3) have "lstat_of d (p @ [c]) = Some (Link t)"
    by (simp add: lstat_of_def walk_link)
  with assms(4) show False by blast
qed

lemma write_destination_lands:
  "write_destination n d current shown = Inr landing \<Longrightarrow> normal current \<Longrightarrow>
     normal landing \<and> lstat_of d landing \<noteq> Some (Link t)"
  by (induction n d current shown rule: write_destination.induct)
     (auto simp: normal_resolve normal_butlast split: option.splits node.splits)

lemma nearest_is_real: "nearest_existing_ancestor d root p = Inr q \<Longrightarrow> \<exists>p'. real_path d p' = Inr q"
proof (induction d root p rule: nearest_existing_ancestor.induct)
  case (1 d root p)
  then show ?case
    by (cases "real_path d p") (auto simp: nearest_existing_ancestor.simps [of d root p] split: sum.splits if_splits)
qed

text \<open>What a path accepted for writing is: the path asked for, or the place a link leads to.\<close>

lemma resolve_for_write:
  assumes "resolve_within d root wanted True = Inr full" "normal root"
  shows "prefix root full \<and> normal full \<and>
    ((\<forall>t. lstat_of d full \<noteq> Some (Link t)) \<and>
       ((\<exists>q. real_path d (butlast full) = Inr q \<and> prefix root q) \<or>
        (\<exists>e q. real_path d (butlast full) = Inl e \<and> prefix root q \<and>
               nearest_existing_ancestor d root (butlast full) = Inr q)) \<or>
     (\<exists>holder landing. real_path d (butlast landing) = Inr holder \<and> prefix root holder \<and>
        normal landing \<and> (\<forall>t. lstat_of d landing \<noteq> Some (Link t)) \<and>
        full = join_path holder (base_name landing)))"
proof -
  let ?target = "resolve_path root wanted"
  have nt: "normal ?target" using assms(2) by (rule normal_resolve)
  obtain u v anchored landing where r:
    "assert_inside root ?target (show_path ?target) = Inr u"
    "real_anchor d root wanted True ?target = Inr anchored"
    "assert_inside root anchored wanted = Inr v"
    "write_destination (Suc max_link_hops) d ?target wanted = Inr landing"
    "(if landing = ?target then Inr ?target else resolve_link d root wanted landing) = Inr full"
    using assms(1) by (auto simp: resolve_within_def Let_def split: sum.splits)
  have "\<exists>p. real_path d p = Inr anchored"
    using r(2) nearest_is_real by (auto simp: real_anchor_def Let_def split: sum.splits)
  then have "normal anchored" using real_pathD(3) canonical_normal by blast
  with r(3) have inside: "prefix root anchored" by (blast dest: assert_insideD)
  have land: "normal landing" "lstat_of d landing \<noteq> Some (Link t)" for t
    using write_destination_lands [OF r(4) nt] by blast+
  show ?thesis
  proof (cases "landing = ?target")
    case True
    with r(5) have "full = ?target" by simp
    with land True inside r(1,2) nt show ?thesis
      by (auto simp: real_anchor_def Let_def dest: assert_insideD split: sum.splits)
  next
    case False
    with r(5) obtain holder w w' where h: "real_path d (butlast landing) = Inr holder"
      "assert_inside root holder wanted = Inr w"
      "full = join_path holder (base_name landing)" "assert_inside root full wanted = Inr w'"
      by (auto simp: resolve_link_def Let_def split: sum.splits)
    have "normal holder" using real_pathD(3) [OF h(1)] by (rule canonical_normal)
    moreover from this have "normal full"
      using land(1) unfolding h(3) join_path_def base_name_def
      by (auto simp: normal_def list_all_iff)
    ultimately show ?thesis using h land by (blast dest: assert_insideD)
  qed
qed

lemma write_site:
  assumes "tree d" "normal root" "resolve_within d root wanted True = Inr full" "full = p @ [c]"
  obtains (there) q where "real_path d p = Inr q" "prefix root q" "\<And>t. d (q @ [c]) \<noteq> Some (Link t)"
    | (missing) e q where "real_path d p = Inl e" "prefix root q" "nearest_existing_ancestor d root p = Inr q"
proof -
  note res = resolve_for_write [OF assms(3,2)] and full = assms(4)
  have c: "plain_name c" using res full by auto
  from res consider (plain) "\<forall>t. lstat_of d full \<noteq> Some (Link t)"
      "(\<exists>q. real_path d (butlast full) = Inr q \<and> prefix root q) \<or>
       (\<exists>e q. real_path d (butlast full) = Inl e \<and> prefix root q \<and>
             nearest_existing_ancestor d root (butlast full) = Inr q)"
    | (link) holder landing where "real_path d (butlast landing) = Inr holder" "prefix root holder"
      "normal landing" "\<forall>t. lstat_of d landing \<noteq> Some (Link t)"
      "full = join_path holder (base_name landing)"
    by blast
  then show thesis
  proof cases
    case plain
    then show thesis
      using that lstat_not_link [OF assms(1) _ c] full by auto
  next
    case link
    show thesis
    proof (cases "landing = []")
      case True
      with link(1) have "holder = []" by (auto dest: real_pathD(1))
      with True link(5) full show thesis by (simp add: join_path_def base_name_def)
    next
      case nonempty: False
      then obtain l b where l: "landing = l @ [b]" by (metis rev_exhaust)
      with link(3) have b: "plain_name b" by simp
      then have "full = holder @ [b]" using link(5) l by (auto simp: join_path_def base_name_def plain_name_def)
      with full have "p = holder" "c = b" by auto
      moreover have "real_path d holder = Inr holder"
        using link(1) real_pathD(2,3) real_path_canonical by blast
      moreover have "d (holder @ [b]) \<noteq> Some (Link t)" for t
        using lstat_not_link [OF assms(1) _ b] link(1,4) l by auto
      ultimately show thesis using that(1) link(2) by blast
    qed
  qed
qed

lemma written_inside:
  assumes "tree d" "normal root" "resolve_within d root wanted True = Inr full"
    and "snd (make_directories d (butlast full)) x \<noteq> d x \<or>
      (\<exists>d1. make_directories d (butlast full) = (None, d1) \<and> snd (write_bytes d1 full bytes add) x \<noteq> d x)"
  shows "prefix root x"
proof (cases "full = []")
  case True
  with resolve_for_write [OF assms(3,2)] show ?thesis by auto
next
  case False
  then obtain p c where full: "full = p @ [c]" by (metis rev_exhaust)
  note res = resolve_for_write [OF assms(3,2)]
  have c: "plain_name c" and p: "normal p" using res full by auto
  from assms(1-3) full show ?thesis
  proof (cases rule: write_site)
    case (there q)
    have "snd (make_directories d p) = d" by (rule make_directories_existing [OF there(1)])
    then have "x = q @ [c]"
      using assms(4) full write_lands [OF there(1) c there(3)] by auto
    with there(2) show ?thesis by simp
  next
    case (missing e q)
    obtain r d1 where m: "make_directories d p = (r, d1)" by fastforce
    note g = make_directories_grows [OF assms(1) p missing(1,3) m]
    show ?thesis
    proof (cases "d1 x = d x")
      case False
      then have "strict_prefix q x" using g by (auto simp: grown_below_def)
      with missing(2) show ?thesis by (meson prefix_order.order_trans strict_prefix_def)
    next
      case True
      with assms(4) full m have r: "r = None" "snd (write_bytes d1 (p @ [c]) bytes add) x \<noteq> d1 x"
        by auto
      then obtain y where y: "real_path d1 p = Inr y" "d y = None" "prefix q y" using g by blast
      then have "d (y @ [c]) = None"
        using assms(1) unfolding tree_def by (metis option.distinct(1))
      then have "d1 (y @ [c]) \<noteq> Some (Link t)" for t
        using g grown_None [of q d d1 "y @ [c]"] by auto
      then have "x = y @ [c]" using write_lands [OF y(1) c _ r(2)] by blast
      with missing(2) y(3) show ?thesis by (metis prefix_prefix prefix_order.order_trans)
    qed
  qed
qed

text \<open>Once its directory has been made, the place a write goes to is a name in a real one.\<close>

lemma write_parent:
  assumes "tree d" "normal root" "resolve_within d root wanted True = Inr (p @ [c])"
    and "make_directories d p = (None, d1)"
  obtains q where "keeps d d1" "real_path d1 p = Inr q" "prefix root q" "\<And>t. d1 (q @ [c]) \<noteq> Some (Link t)"
proof -
  have p: "normal p" using resolve_for_write [OF assms(3,2)] by auto
  from assms(1-3) refl show thesis
  proof (cases rule: write_site)
    case (there q)
    with make_directories_existing [OF there(1)] assms(4) show thesis
      by (intro that [of q]) (auto simp: keeps_def)
  next
    case (missing e q)
    note g = make_directories_grows [OF assms(1) p missing(1,3) assms(4)]
    then obtain y where y: "real_path d1 p = Inr y" "d y = None" "prefix q y" by blast
    then have "d (y @ [c]) = None"
      using assms(1) unfolding tree_def by (metis option.distinct(1))
    then have "d1 (y @ [c]) \<noteq> Some (Link t)" for t
      using g grown_None [of q d d1 "y @ [c]"] by auto
    moreover have "prefix root y" using missing(2) y(3) by (rule prefix_order.order_trans)
    ultimately show thesis using that y(1) g grown_keeps by blast
  qed
qed

lemma write_bytes_new:
  assumes "real_path d p = Inr q" "plain_name c" "\<And>t. d (q @ [c]) \<noteq> Some (Link t)"
    and "write_bytes d (p @ [c]) bytes False = (None, d')"
  shows "d' = d(q @ [c] \<mapsto> File bytes)" "keeps d d'" "real_path d' (p @ [c]) = Inr (q @ [c])"
proof -
  obtain h where h: "kernel_walk d link_limit True [] (p @ [c]) = kernel_walk d h True q [c]"
    using walk_from_real [OF assms(1)] by blast
  have dir: "d q = Some Directory"
    using h assms(4) by (cases "d q = Some Directory") (auto simp: write_bytes_def walk_stuck)
  then have w: "kernel_walk d link_limit True [] (p @ [c]) = Inr (q @ [c])"
    using h assms(2,3) by (simp add: walk_step)
  show d': "d' = d(q @ [c] \<mapsto> File bytes)"
    using w assms(3,4) by (auto simp: write_bytes_def split: option.splits node.splits)
  have "d (q @ [c]) = None \<or> (\<exists>b. d (q @ [c]) = Some (File b))"
    using w assms(3,4) by (auto simp: write_bytes_def split: option.splits node.splits)
  then show k: "keeps d d'" unfolding d' by (rule keeps_write)
  from walk_kept [OF k w] show "real_path d' (p @ [c]) = Inr (q @ [c])"
    by (simp add: real_path_def d')
qed

section \<open>Properties\<close>

lemma workspace_write_cases:
  assumes "snd (workspace_write lim d root_path requested contents add) x \<noteq> d x"
  obtains root wanted full bytes where "real_path d root_path = Inr root"
    "resolve_within d root wanted True = Inr full"
    "snd (make_directories d (butlast full)) x \<noteq> d x \<or>
     (\<exists>d1. make_directories d (butlast full) = (None, d1) \<and> snd (write_bytes d1 full bytes add) x \<noteq> d x)"
proof -
  obtain body where t: "contents = JStr body" "\<not> wl_write lim < length (utf8 body)"
    using assms by (auto simp: workspace_write_def Let_def split: jsv.splits if_splits)
  with assms obtain full where f: "resolve_request d root_path requested True = Inr full"
    by (auto simp: workspace_write_def Let_def split: sum.splits)
  from f obtain root wanted where "real_path d root_path = Inr root"
    "resolve_within d root wanted True = Inr full"
    by (auto simp: resolve_request_def Let_def split: jsv.splits if_splits sum.splits)
  moreover have "snd (make_directories d (butlast full)) x \<noteq> d x \<or>
     (\<exists>d1. make_directories d (butlast full) = (None, d1) \<and>
           snd (write_bytes d1 full (utf8 body) add) x \<noteq> d x)"
    using assms t f
    by (cases "make_directories d (butlast full)"; cases "fst (make_directories d (butlast full))")
       (auto simp: workspace_write_def Let_def split: prod.splits option.splits)
  ultimately show thesis by (rule that)
qed

text \<open>C3: a write stays in the workspace. On any disk, through any links, whatever path is asked for and
  whether or not the call succeeds, every entry a write changes lies below the directory the
  workspace's root really is.\<close>

theorem write_confined:
  assumes "tree d"
    and "snd (workspace_write lim d root_path requested contents add) x \<noteq> d x"
  shows "\<exists>root. real_path d root_path = Inr root \<and> prefix root x"
proof -
  obtain root wanted full bytes where w: "real_path d root_path = Inr root"
    "resolve_within d root wanted True = Inr full"
    "snd (make_directories d (butlast full)) x \<noteq> d x \<or>
     (\<exists>d1. make_directories d (butlast full) = (None, d1) \<and> snd (write_bytes d1 full bytes add) x \<noteq> d x)"
    by (rule workspace_write_cases [OF assms(2)])
  have "normal root" using real_pathD(3) [OF w(1)] by (rule canonical_normal)
  from written_inside [OF assms(1) this w(2,3)] w(1) show ?thesis by blast
qed

text \<open>A disk with a workspace \<^verbatim>\<open>/w\<close>: a link out of it, a link to a file beside it, and a folder
  \<^verbatim>\<open>d\<close> that is a link to \<^verbatim>\<open>x/y\<close> and holds a relative link.\<close>

definition sample_disk :: disk where
  "sample_disk = map_of
     [([], Directory), ([''w''], Directory), ([''etc''], Directory),
      ([''etc'', ''p''], File [1]), ([''w'', ''out''], Link ''/etc/p''),
      ([''w'', ''in''], Link ''s/t''), ([''w'', ''s''], Directory),
      ([''w'', ''x''], Directory), ([''w'', ''x'', ''y''], Directory),
      ([''w'', ''x'', ''t''], File [2]), ([''w'', ''d''], Link ''x/y''),
      ([''w'', ''x'', ''y'', ''n''], Link ''../t'')]"

definition small_limits :: workspace_limits where
  "small_limits = \<lparr>wl_read = 4, wl_write = 4, wl_entries = 3\<rparr>"

lemma sample_disk_tree: "tree sample_disk"
  by (auto simp: tree_def sample_disk_def split: if_splits)

text \<open>A write to \<^verbatim>\<open>in\<close> follows the link and lands in \<^verbatim>\<open>s/t\<close>, below the workspace.\<close>

theorem write_confined_witness: "prefix [''w''] [''w'', ''s'', ''t'']"
proof -
  have "snd (workspace_write small_limits sample_disk [''w''] (JStr ''in'') (JStr ''x'') False)
      [''w'', ''s'', ''t''] \<noteq> sample_disk [''w'', ''s'', ''t'']"
    by code_simp
  from write_confined [OF sample_disk_tree this] show ?thesis
    by (simp add: real_path_def kernel_walk.simps link_limit_def sample_disk_def)
qed

text \<open>A read stays in the workspace. What a read answers is the beginning, up to the limit, of a file
  whose real path, with no link on it, lies below the directory the workspace's root really is; the
  answer says how long that file is and whether it was cut.\<close>

theorem read_confined:
  assumes "workspace_read lim d root_path requested = Inr r"
  shows "\<exists>root p bytes. real_path d root_path = Inr root \<and> prefix root p \<and> canonical d p
           \<and> d p = Some (File bytes) \<and> rr_text r = take (wl_read lim) bytes
           \<and> rr_bytes r = length bytes \<and> (rr_truncated r \<longleftrightarrow> wl_read lim < length bytes)"
proof -
  obtain full bytes where f: "resolve_request d root_path requested False = Inr full"
    "stat_of d full = Some (File bytes)" "rr_text r = take (wl_read lim) bytes"
    "rr_bytes r = length bytes" "rr_truncated r \<longleftrightarrow> wl_read lim < length bytes"
    using assms by (auto simp: workspace_read_def Let_def min_def split: sum.splits option.splits node.splits)
  from f(1) obtain root wanted where w: "real_path d root_path = Inr root"
    "resolve_within d root wanted False = Inr full"
    by (auto simp: resolve_request_def Let_def split: jsv.splits if_splits sum.splits)
  then obtain u where r: "real_path d (resolve_path root wanted) = Inr full"
    "assert_inside root full wanted = Inr u"
    by (auto simp: resolve_within_def real_anchor_def Let_def split: sum.splits)
  have full: "canonical d full" "d full \<noteq> None" using real_pathD [OF r(1)] by blast+
  then have "d full = Some (File bytes)"
    using f(2) real_path_canonical by (auto simp: stat_of_def)
  then show ?thesis
    using w(1) r(2) full(1) f(3,4,5) canonical_normal assert_insideD by blast
qed

theorem read_confined_witness:
  "\<exists>p. prefix [''w''] p \<and> sample_disk p = Some (File [2])"
proof -
  have "workspace_read small_limits sample_disk [''w''] (JStr ''d/n'') =
      Inr \<lparr>rr_path = ''d/n'', rr_text = [2], rr_truncated = False, rr_bytes = 1\<rparr>"
    by code_simp
  from read_confined [OF this] obtain root p bytes where
    "real_path sample_disk [''w''] = Inr root" "prefix root p" "sample_disk p = Some (File bytes)"
    "take 4 bytes = [2]" "length bytes = 1" by (auto simp: small_limits_def)
  moreover from this have "bytes = [2]" by (cases bytes) auto
  moreover have "real_path sample_disk [''w''] = Inr [''w'']"
    by (simp add: real_path_def kernel_walk.simps link_limit_def sample_disk_def)
  ultimately show ?thesis by auto
qed

lemma resolve_requestD:
  assumes "resolve_request d root_path (JStr name) True = Inr full"
  obtains root where "real_path d root_path = Inr root" "resolve_within d root (js_trim name) True = Inr full"
    "\<And>d' b. real_path d' root_path = Inr root \<Longrightarrow>
       resolve_request d' root_path (JStr name) b = resolve_within d' root (js_trim name) b"
  using assms by (auto simp: resolve_request_def Let_def split: if_splits sum.splits)

text \<open>What was written is what is read. When a write that replaces its file succeeds on a name that
  is not itself a link, a read of the same name afterwards answers the bytes written, up to the
  read limit, with their full length.\<close>

theorem write_then_read:
  assumes "tree d" "real_path d root_path = Inr root"
    and "workspace_write lim d root_path (JStr name) (JStr body) False = (Inr w, d')"
    and "\<And>t. lstat_of d (resolve_path root (js_trim name)) \<noteq> Some (Link t)"
  shows "\<exists>r. workspace_read lim d' root_path (JStr name) = Inr r
           \<and> rr_text r = take (wl_read lim) (utf8 body) \<and> rr_bytes r = length (utf8 body)"
proof -
  let ?target = "resolve_path root (js_trim name)" and ?bytes = "utf8 body"
  obtain full d1 where f: "resolve_request d root_path (JStr name) True = Inr full"
    "make_directories d (butlast full) = (None, d1)" "write_bytes d1 full ?bytes False = (None, d')"
    using assms(3) by (auto simp: workspace_write_def Let_def
        split: if_splits sum.splits prod.splits option.splits)
  from f(1) have w: "resolve_within d root (js_trim name) True = Inr full"
    and again: "\<And>d' b. real_path d' root_path = Inr root \<Longrightarrow>
       resolve_request d' root_path (JStr name) b = resolve_within d' root (js_trim name) b"
    using assms(2) by (auto elim: resolve_requestD)
  have root: "normal root" using real_pathD(3) [OF assms(2)] by (rule canonical_normal)
  have "write_destination (Suc max_link_hops) d ?target (js_trim name) = Inr ?target"
    using assms(4) by (auto split: option.split node.split)
  with w have target: "full = ?target"
    by (auto simp: resolve_within_def Let_def split: sum.splits)
  have "full \<noteq> []"
  proof
    assume "full = []"
    with f(2,3) have "write_bytes d [] ?bytes False = (None, d')"
      by (simp add: make_directories.simps)
    with assms(1) show False by (simp add: write_bytes_def tree_def)
  qed
  then obtain p c where full: "full = p @ [c]" by (metis rev_exhaust)
  have c: "plain_name c" using resolve_for_write [OF w root] full by auto
  obtain q where q: "keeps d d1" "real_path d1 p = Inr q" "prefix root q" "\<And>t. d1 (q @ [c]) \<noteq> Some (Link t)"
    using write_parent [OF assms(1) root] w f(2) full by (metis butlast_snoc)
  note wrote = write_bytes_new [OF q(2) c q(4) f(3) [unfolded full]]
  have r: "real_path d' root_path = Inr root"
    using real_path_kept [OF wrote(2) real_path_kept [OF q(1) assms(2)]] .
  have real: "real_path d' ?target = Inr (q @ [c])" using wrote(3) full target by simp
  then have canon: "canonical d' (q @ [c])" by (rule real_pathD(3))
  then have "\<exists>u. assert_inside root (q @ [c]) (js_trim name) = Inr u"
    using q(3) canonical_normal [OF canon] by (subst assert_inside_prefix) auto
  moreover have "\<exists>u. assert_inside root ?target (show_path ?target) = Inr u"
    using w by (auto simp: resolve_within_def Let_def split: sum.splits)
  ultimately have "resolve_request d' root_path (JStr name) False = Inr (q @ [c])"
    using again [OF r] real by (auto simp: resolve_within_def real_anchor_def Let_def)
  moreover have "stat_of d' (q @ [c]) = Some (File ?bytes)"
    using real_path_canonical [OF canon] by (simp add: stat_of_def wrote(1))
  ultimately show ?thesis by (simp add: workspace_read_def Let_def)
qed

theorem write_then_read_witness:
  "\<exists>d' r. workspace_read small_limits d' [''w''] (JStr ''d/q/z'') = Inr r \<and> rr_text r = [120]"
proof -
  obtain w d' where "workspace_write small_limits sample_disk [''w''] (JStr ''d/q/z'') (JStr ''x'') False = (Inr w, d')"
  proof -
    have "case fst (workspace_write small_limits sample_disk [''w''] (JStr ''d/q/z'') (JStr ''x'') False) of
        Inl _ \<Rightarrow> False | Inr _ \<Rightarrow> True"
      by code_simp
    then show thesis
      using that by (cases "workspace_write small_limits sample_disk [''w''] (JStr ''d/q/z'') (JStr ''x'') False")
        (auto split: sum.splits)
  qed
  moreover have "real_path sample_disk [''w''] = Inr [''w'']"
    by (simp add: real_path_def kernel_walk.simps link_limit_def sample_disk_def)
  moreover have "lstat_of sample_disk (resolve_path [''w''] (js_trim ''d/q/z'')) = None" by code_simp
  ultimately show ?thesis
    using write_then_read [OF sample_disk_tree] by (fastforce simp: small_limits_def utf8_def char_code_def)
qed

section \<open>Listing\<close>

text \<open>What a listing should name: the entries of the folder, and those of every folder among them.\<close>

inductive listed_below :: "disk \<Rightarrow> (path \<Rightarrow> string list) \<Rightarrow> path list \<Rightarrow> path \<Rightarrow> bool" for d names where
  listed_here: "p \<in> set todo \<Longrightarrow> listed_below d names todo p"
| listed_in: "p \<in> set todo \<Longrightarrow> d p = Some Directory \<Longrightarrow>
    listed_below d names (map (\<lambda>n. p @ [n]) (names p)) x \<Longrightarrow> listed_below d names todo x"

definition describes :: "disk \<Rightarrow> nat \<Rightarrow> path \<Rightarrow> workspace_entry \<Rightarrow> bool" where
  "describes d skip p e =
     (we_path e = drop skip p \<and>
      (case d p of
         Some Directory \<Rightarrow> we_kind e = Folder_entry \<and> we_bytes e = None
       | Some (File bytes) \<Rightarrow> we_kind e = File_entry \<and> we_bytes e = Some (length bytes)
       | _ \<Rightarrow> False))"

lemma listed_mono: "listed_below d names xs p \<Longrightarrow> set xs \<subseteq> set ys \<Longrightarrow> listed_below d names ys p"
  by (erule listed_below.cases) (auto intro: listed_below.intros)

lemma listed_append:
  "listed_below d names (xs @ ys) p \<longleftrightarrow> listed_below d names xs p \<or> listed_below d names ys p"
proof
  assume "listed_below d names (xs @ ys) p"
  then show "listed_below d names xs p \<or> listed_below d names ys p"
    by (cases rule: listed_below.cases) (auto intro: listed_below.intros)
qed (auto intro: listed_mono)

lemma listed_Nil [simp]: "\<not> listed_below d names [] p"
  by (auto elim: listed_below.cases)

lemma listed_Cons:
  "listed_below d names (x # xs) p \<longleftrightarrow>
     p = x \<or> (d x = Some Directory \<and> listed_below d names (map (\<lambda>n. x @ [n]) (names x)) p)
       \<or> listed_below d names xs p"
proof
  assume "listed_below d names (x # xs) p"
  then show "p = x \<or> (d x = Some Directory \<and> listed_below d names (map (\<lambda>n. x @ [n]) (names x)) p)
       \<or> listed_below d names xs p"
    by (cases rule: listed_below.cases) (auto intro: listed_below.intros)
qed (auto intro: listed_below.intros listed_mono)

lemma list_walk_facts:
  "list_walk limit d names skip todo found = (result, short) \<Longrightarrow>
     (length found \<le> limit \<longrightarrow> length result \<le> limit)
   \<and> set found \<subseteq> set result
   \<and> (\<forall>e \<in> set result. e \<in> set found \<or> (\<exists>p. listed_below d names todo p \<and> describes d skip p e))
   \<and> (\<not> short \<longrightarrow> (\<forall>p. listed_below d names todo p \<longrightarrow> d p = Some Directory \<or> (\<exists>b. d p = Some (File b)) \<longrightarrow>
        (\<exists>e \<in> set result. describes d skip p e)))"
proof (induction limit d names skip todo found rule: list_walk.induct)
  case (2 limit d names skip full rest found)
  show ?case
  proof (cases "limit \<le> length found")
    case True
    with 2(5) show ?thesis by auto
  next
    case False
    show ?thesis
    proof (cases "d full")
      case None
      with 2(1) 2(5) False show ?thesis by (auto simp: listed_Cons)
    next
      case (Some n)
      show ?thesis
      proof (cases n)
        case Directory
        let ?e = "\<lparr>we_path = drop skip full, we_kind = Folder_entry, we_bytes = None\<rparr>"
        have e: "describes d skip full ?e" using Some Directory by (simp add: describes_def)
        from 2(2) [OF False] 2(5) False Some Directory have ih:
          "length result \<le> limit" "set (found @ [?e]) \<subseteq> set result"
          "\<forall>e \<in> set result. e \<in> set (found @ [?e]) \<or> (\<exists>p. listed_below d names
              (map (\<lambda>n. full @ [n]) (names full) @ rest) p \<and> describes d skip p e)"
          "\<not> short \<longrightarrow> (\<forall>p. listed_below d names (map (\<lambda>n. full @ [n]) (names full) @ rest) p \<longrightarrow>
              d p = Some Directory \<or> (\<exists>b. d p = Some (File b)) \<longrightarrow> (\<exists>e \<in> set result. describes d skip p e))"
          by simp_all
        with e Some Directory show ?thesis by (auto simp: listed_Cons listed_append)
      next
        case (File bytes)
        let ?e = "\<lparr>we_path = drop skip full, we_kind = File_entry, we_bytes = Some (length bytes)\<rparr>"
        have e: "describes d skip full ?e" using Some File by (simp add: describes_def)
        from 2(3) [OF False] 2(5) False Some File have ih:
          "length result \<le> limit" "set (found @ [?e]) \<subseteq> set result"
          "\<forall>e \<in> set result. e \<in> set (found @ [?e]) \<or>
              (\<exists>p. listed_below d names rest p \<and> describes d skip p e)"
          "\<not> short \<longrightarrow> (\<forall>p. listed_below d names rest p \<longrightarrow>
              d p = Some Directory \<or> (\<exists>b. d p = Some (File b)) \<longrightarrow> (\<exists>e \<in> set result. describes d skip p e))"
          by simp_all
        with e Some File show ?thesis by (auto simp: listed_Cons)
      next
        case (Link t)
        with 2(4) [OF False] 2(5) Some False show ?thesis by (auto simp: listed_Cons)
      qed
    qed
  qed
qed auto

text \<open>A listing is bounded, truthful and says when it is not everything. It never has more entries
  than the limit, each describes a file or folder below the folder asked for, and when it is not
  marked as truncated every file and folder below it is described.\<close>

theorem listing_bounded_and_complete:
  assumes "workspace_list lim d names root_path requested = Inr (entries, short)"
  shows "\<exists>start root. real_path d root_path = Inr root \<and> length entries \<le> wl_entries lim
    \<and> list_all (\<lambda>e. \<exists>p. listed_below d names (map (\<lambda>n. start @ [n]) (names start)) p
          \<and> describes d (length root) p e) entries
    \<and> (short \<or> (\<forall>p. \<not> listed_below d names (map (\<lambda>n. start @ [n]) (names start)) p
          \<or> d p = None \<or> (\<exists>t. d p = Some (Link t)) \<or> list_ex (describes d (length root) p) entries))"
proof -
  obtain root start where r: "real_path d root_path = Inr root"
    "list_walk (wl_entries lim) d names (length root) (map (\<lambda>n. start @ [n]) (names start)) [] = (entries, short)"
    using assms by (auto simp: workspace_list_def split: sum.splits option.splits node.splits)
  note w = list_walk_facts [OF r(2)]
  have all: "list_ex (describes d (length root) p) entries"
    if "\<not> short" "listed_below d names (map (\<lambda>n. start @ [n]) (names start)) p" "d p \<noteq> None"
      "\<nexists>t. d p = Some (Link t)" for p
  proof -
    from that(3,4) have "d p = Some Directory \<or> (\<exists>b. d p = Some (File b))"
      by (metis node.exhaust option.exhaust)
    with w that(1,2) show ?thesis by (auto simp: list_ex_iff)
  qed
  have "length entries \<le> wl_entries lim"
    "list_all (\<lambda>e. \<exists>p. listed_below d names (map (\<lambda>n. start @ [n]) (names start)) p
        \<and> describes d (length root) p e) entries"
    using w by (auto simp: list_all_iff)
  then show ?thesis using r(1) all by blast
qed

definition sample_names :: "path \<Rightarrow> string list" where
  "sample_names p =
     (if p = [''w''] then [''x''] else if p = [''w'', ''x''] then [''t'', ''y''] else [])"

theorem listing_bounded_and_complete_witness:
  "\<exists>entries. workspace_list small_limits sample_disk sample_names [''w''] ''.'' = Inr (entries, False)
     \<and> length entries \<le> 3"
proof -
  have "workspace_list small_limits sample_disk sample_names [''w''] ''.'' =
      Inr ([\<lparr>we_path = [''x''], we_kind = Folder_entry, we_bytes = None\<rparr>,
            \<lparr>we_path = [''x'', ''t''], we_kind = File_entry, we_bytes = Some 1\<rparr>,
            \<lparr>we_path = [''x'', ''y''], we_kind = Folder_entry, we_bytes = None\<rparr>], False)"
    by code_simp
  with listing_bounded_and_complete [OF this] show ?thesis by (auto simp: small_limits_def)
qed

text \<open>A write through a linked folder and a link in it does not land where a read looks. The link's
  relative target is resolved against the path as it was asked for, not against the folder the link
  really sits in, so a read of the same name after the write still answers the other file.\<close>

theorem linked_folder_write_diverges:
  "case workspace_write small_limits sample_disk [''w''] (JStr ''d/n'') (JStr ''x'') False of
     (answer, d') \<Rightarrow>
       answer = Inr \<lparr>wr_path = ''d/n'', wr_bytes = 1, wr_appended = False\<rparr>
     \<and> d' [''w'', ''t''] = Some (File [120]) \<and> sample_disk [''w'', ''t''] = None
     \<and> workspace_read small_limits d' [''w''] (JStr ''d/n'') =
         Inr \<lparr>rr_path = ''d/n'', rr_text = [2], rr_truncated = False, rr_bytes = 1\<rparr>"
  by code_simp

end
