(* ===== verification/Control.thy ===== *)
theory Control
  imports Prelude
begin

text \<open>
  Who has the wheel: \<^verbatim>\<open>agent-computer/src/control.ts\<close>. The state a factory call closes over is a
  record, each method a function from it (and the time it is called at) to the new state and what the
  method returns. The theorems compare the machine with its history: whether a secret is awaited,
  and for which field, is decided by the calls since the wheel last changed hands.
\<close>

section \<open>State\<close>

datatype holder = Bot | Human

text \<open>\<^verbatim>\<open>ControlState\<close>. Times are milliseconds, which is what \<^verbatim>\<open>Date.parse\<close> makes of the ISO strings.\<close>

record control_state =
  cs_holder :: holder
  cs_since :: int
  cs_reason :: "string option"
  cs_requested :: bool
  cs_requested_at :: "int option"
  cs_secret_wanted :: "string option"
  cs_secret_ref :: "string option"
  cs_secret_snapshot :: "int option"

datatype control_error = Control_error string | Control_request_error string

definition help_request_ttl_ms :: int where
  "help_request_ttl_ms = 10 * 60 * 1000"

definition human_has_control :: string where
  "human_has_control =
     ''A person has control of the computer right now. Wait for them to hand it back before acting.''"

definition initial_control :: "int \<Rightarrow> control_state" where
  "initial_control now =
     \<lparr>cs_holder = Bot, cs_since = now, cs_reason = None, cs_requested = False,
      cs_requested_at = None, cs_secret_wanted = None, cs_secret_ref = None,
      cs_secret_snapshot = None\<rparr>"

section \<open>Operations\<close>

text \<open>\<^verbatim>\<open>get\<close>: an unanswered request is dropped on reading once it is older than its time to live.\<close>

definition expired :: "int \<Rightarrow> control_state \<Rightarrow> bool" where
  "expired now s =
     (cs_requested s \<and> cs_holder s = Bot \<and>
      (case cs_requested_at s of None \<Rightarrow> False | Some at \<Rightarrow> now - at > help_request_ttl_ms))"

definition control_get :: "int \<Rightarrow> control_state \<Rightarrow> control_state" where
  "control_get now s =
     (if expired now s
      then s\<lparr>cs_reason := None, cs_requested_at := None, cs_requested := False\<rparr>
      else s)"

definition text_or :: "string \<Rightarrow> jsv option \<Rightarrow> string" where
  "text_or fallback v =
     (case v of
        Some (JStr t) \<Rightarrow> if js_trim t \<noteq> [] then js_trim t else fallback
      | _ \<Rightarrow> fallback)"

definition control_request_help :: "int \<Rightarrow> jsv option \<Rightarrow> control_state \<Rightarrow> control_state" where
  "control_request_help now reason s =
     control_get now
       (s\<lparr>cs_requested := True, cs_requested_at := Some now,
          cs_reason := Some (text_or ''The assistant needs a person to continue.'' reason)\<rparr>)"

record secret_request =
  sq_label :: "jsv option"
  sq_ref :: "jsv option"
  sq_snapshot :: "jsv option"

definition ref_text :: "jsv option \<Rightarrow> string option" where
  "ref_text v =
     (case v of Some (JStr t) \<Rightarrow> if js_trim t \<noteq> [] then Some (js_trim t) else None | _ \<Rightarrow> None)"

definition control_request_secret ::
  "int \<Rightarrow> secret_request \<Rightarrow> control_state \<Rightarrow> control_error + control_state" where
  "control_request_secret now input s =
     (case ref_text (sq_ref input) of
        None \<Rightarrow> Inl (Control_request_error
                  ''Say which field the value goes in, using a ref from your snapshot.'')
      | Some ref \<Rightarrow>
          Inr (control_get now
            (s\<lparr>cs_secret_wanted := Some (text_or ''the value this page is asking for'' (sq_label input)),
               cs_secret_ref := Some ref,
               cs_secret_snapshot :=
                 (case sq_snapshot input of Some (JNum n) \<Rightarrow> Some n | _ \<Rightarrow> None)\<rparr>)))"

definition control_pending_secret :: "control_state \<Rightarrow> (string \<times> int option) option" where
  "control_pending_secret s =
     (if \<not> truthy (cs_secret_wanted s) \<or> \<not> truthy (cs_secret_ref s) then None
      else Some (the (cs_secret_ref s), cs_secret_snapshot s))"

definition control_secret_supplied :: "control_state \<Rightarrow> control_state" where
  "control_secret_supplied s =
     s\<lparr>cs_secret_wanted := None, cs_secret_ref := None, cs_secret_snapshot := None\<rparr>"

definition control_take :: "int \<Rightarrow> control_state \<Rightarrow> control_state" where
  "control_take now s =
     control_get now ((initial_control now)\<lparr>cs_holder := Human, cs_reason := cs_reason s\<rparr>)"

definition control_release :: "int \<Rightarrow> control_state \<Rightarrow> control_state" where
  "control_release now s = control_get now (initial_control now)"

definition assert_bot_may_act :: "control_state \<Rightarrow> control_error + unit" where
  "assert_bot_may_act s =
     (if cs_holder s = Human then Inl (Control_error human_has_control) else Inr ())"

definition human_may_drive :: "control_state \<Rightarrow> bool" where
  "human_may_drive s = (cs_holder s = Human)"

section \<open>Histories\<close>

datatype control_call =
    Get_state
  | Request_help "jsv option"
  | Request_secret secret_request
  | Secret_supplied
  | Take
  | Release

text \<open>A call at a time; a call that throws leaves the state as it was.\<close>

fun control_step :: "int \<times> control_call \<Rightarrow> control_state \<Rightarrow> control_state" where
  "control_step (now, Get_state) s = control_get now s"
| "control_step (now, Request_help reason) s = control_request_help now reason s"
| "control_step (now, Request_secret input) s =
     (case control_request_secret now input s of Inl _ \<Rightarrow> s | Inr s' \<Rightarrow> s')"
| "control_step (now, Secret_supplied) s = control_secret_supplied s"
| "control_step (now, Take) s = control_take now s"
| "control_step (now, Release) s = control_release now s"

definition control_run :: "int \<Rightarrow> (int \<times> control_call) list \<Rightarrow> control_state" where
  "control_run start calls = fold control_step calls (initial_control start)"

text \<open>What the history alone says, latest call first.\<close>

fun driver_of :: "control_call list \<Rightarrow> holder" where
  "driver_of [] = Bot"
| "driver_of (Take # past) = Human"
| "driver_of (Release # past) = Bot"
| "driver_of (_ # past) = driver_of past"

fun awaited :: "control_call list \<Rightarrow> (string \<times> int option) option" where
  "awaited [] = None"
| "awaited (Request_secret input # past) =
     (case ref_text (sq_ref input) of
        None \<Rightarrow> awaited past
      | Some ref \<Rightarrow> Some (ref, case sq_snapshot input of Some (JNum n) \<Rightarrow> Some n | _ \<Rightarrow> None))"
| "awaited (Secret_supplied # past) = None"
| "awaited (Take # past) = None"
| "awaited (Release # past) = None"
| "awaited (_ # past) = awaited past"

lemma text_or_nonempty [simp]: "fallback \<noteq> [] \<Longrightarrow> text_or fallback v \<noteq> []"
  by (auto simp: text_or_def split: option.split jsv.split)

lemma ref_text_nonempty: "ref_text v = Some t \<Longrightarrow> t \<noteq> []"
  by (auto simp: ref_text_def split: option.splits jsv.splits if_splits)

lemma control_get_sel [simp]:
  "cs_holder (control_get now s) = cs_holder s"
  "cs_secret_wanted (control_get now s) = cs_secret_wanted s"
  "cs_secret_ref (control_get now s) = cs_secret_ref s"
  "cs_secret_snapshot (control_get now s) = cs_secret_snapshot s"
  by (simp_all add: control_get_def)

lemmas control_defs =
  control_request_help_def control_request_secret_def control_secret_supplied_def
  control_take_def control_release_def initial_control_def

lemma control_step_holder:
  "cs_holder (control_step (now, call) s) =
     (case call of Take \<Rightarrow> Human | Release \<Rightarrow> Bot | _ \<Rightarrow> cs_holder s)"
  by (cases call) (auto simp: control_defs split: sum.split option.split)

lemma control_step_pending:
  "control_pending_secret (control_step (now, call) s) =
     (case call of
        Request_secret input \<Rightarrow>
          (case ref_text (sq_ref input) of
             None \<Rightarrow> control_pending_secret s
           | Some ref \<Rightarrow> Some (ref, case sq_snapshot input of Some (JNum n) \<Rightarrow> Some n | _ \<Rightarrow> None))
      | Secret_supplied \<Rightarrow> None | Take \<Rightarrow> None | Release \<Rightarrow> None
      | _ \<Rightarrow> control_pending_secret s)"
  by (cases call)
     (auto simp: control_defs control_pending_secret_def truthy_def split: option.split dest: ref_text_nonempty)

lemma control_run_snoc:
  "control_run start (calls @ [c]) = control_step c (control_run start calls)"
  by (simp add: control_run_def)

text \<open>C38: the wheel and the secret box follow the history. After any calls at any times, the Bot is
  refused exactly when the last change of hands was a person taking the wheel, which is when a
  person's input is applied; and a secret is awaited exactly when the last well-formed request for
  one came after every hand-over and every secret supplied, for the field that request named.\<close>

theorem control_follows_history:
  "(assert_bot_may_act (control_run start calls) = Inr ()
      \<longleftrightarrow> driver_of (rev (map snd calls)) = Bot)
   \<and> (human_may_drive (control_run start calls) \<longleftrightarrow> driver_of (rev (map snd calls)) = Human)
   \<and> control_pending_secret (control_run start calls) = awaited (rev (map snd calls))"
proof -
  have "cs_holder (control_run start calls) = driver_of (rev (map snd calls))
      \<and> control_pending_secret (control_run start calls) = awaited (rev (map snd calls))"
  proof (induction calls rule: rev_induct)
    case Nil
    show ?case by (simp add: control_run_def initial_control_def control_pending_secret_def)
  next
    case (snoc call calls)
    obtain now c where call: "call = (now, c)" by fastforce
    from snoc show ?case
      unfolding control_run_snoc call control_step_holder control_step_pending
      by (cases c) (auto split: option.split)
  qed
  moreover have "driver_of cs \<noteq> Bot \<longleftrightarrow> driver_of cs = Human" for cs
    by (cases "driver_of cs") auto
  ultimately show ?thesis
    by (auto simp: assert_bot_may_act_def human_may_drive_def)
qed

section \<open>Expiry\<close>

text \<open>Only an unanswered request expires. Reading the state changes it only when the Bot holds the
  wheel and asked for help more than ten minutes before; then exactly the request, its time and its
  reason go, whatever secret is awaited stays, and nobody loses the wheel. Reading again at the same
  time changes nothing more.\<close>

theorem only_requests_expire:
  "control_get now s = s \<or>
     cs_holder s = Bot \<and> cs_requested s \<and>
     (\<exists>at. cs_requested_at s = Some at \<and> now > at + 600000) \<and>
     control_get now s = s\<lparr>cs_reason := None, cs_requested_at := None, cs_requested := False\<rparr> \<and>
     control_pending_secret (control_get now s) = control_pending_secret s \<and>
     cs_holder (control_get now s) = Bot \<and>
     control_get now (control_get now s) = control_get now s"
  by (auto simp: control_get_def expired_def control_pending_secret_def help_request_ttl_ms_def
      split: option.splits)

text \<open>What a person is shown. After a hand-over nothing is being asked for; a person who takes the
  wheel keeps the reason last given and a person who hands it back clears it; and a request for help
  is always shown with a reason when it is made.\<close>

theorem handover_clears_requests:
  "\<not> cs_requested (control_take now s) \<and> cs_reason (control_take now s) = cs_reason s
   \<and> \<not> cs_requested (control_release now s) \<and> cs_reason (control_release now s) = None
   \<and> cs_secret_wanted (control_take now s) = None \<and> cs_secret_wanted (control_release now s) = None
   \<and> cs_requested (control_request_help now v s) \<and> truthy (cs_reason (control_request_help now v s))
   \<and> cs_holder (control_request_help now v s) = cs_holder s"
  by (simp add: control_defs control_get_def expired_def help_request_ttl_ms_def truthy_def)

end
