(* ===== verification/Aria.thy ===== *)
theory Aria
  imports Prelude
begin

text \<open>
  Reading a page: \<^verbatim>\<open>agent-computer/src/aria-snapshot.ts\<close>. The scanner of one descriptor is written over
  the characters left, the walk over the YAML tree passes the list being built and its truncation
  mark. The YAML parser is a parameter: it answers a tree of strings, sequences and mappings (with
  their entries in the order \<^verbatim>\<open>Object.entries\<close> gives them), or nothing when it throws.
\<close>

section \<open>Descriptors\<close>

definition snapshot_element_limit :: nat where
  "snapshot_element_limit = 200"

definition interactive_roles :: "string list" where
  "interactive_roles =
     [''button'', ''checkbox'', ''combobox'', ''link'', ''listbox'', ''menuitem'',
      ''menuitemcheckbox'', ''menuitemradio'', ''option'', ''radio'', ''searchbox'', ''slider'',
      ''spinbutton'', ''switch'', ''tab'', ''textbox'']"

definition checkable_roles :: "string list" where
  "checkable_roles = [''checkbox'', ''menuitemcheckbox'', ''menuitemradio'', ''radio'', ''switch'']"

record descriptor =
  ds_role :: string
  ds_name :: string
  ds_flags :: "string \<rightharpoonup> string"

definition dquote :: char where "dquote = char_of (34 :: nat)"

definition backslash :: char where "backslash = char_of (92 :: nat)"

definition role_char :: "char \<Rightarrow> bool" where
  "role_char c = (c \<noteq> CHR '' '' \<and> c \<noteq> dquote \<and> c \<noteq> CHR ''['')"

text \<open>The accessible name after its opening quote, and what follows the closing one.\<close>

fun scan_name :: "string \<Rightarrow> string \<times> string" where
  "scan_name [] = ([], [])"
| "scan_name [c] = (if c = dquote then [] else [c], [])"
| "scan_name (c # x # rest) =
     (if c = dquote then ([], x # rest)
      else if c = backslash then (let (name, left) = scan_name rest in (x # name, left))
      else (let (name, left) = scan_name (x # rest) in (c # name, left)))"

lemma scan_name_shorter: "length (snd (scan_name s)) \<le> length s"
  by (induction s rule: scan_name.induct) (auto simp: split_beta)

text \<open>A flag: the text up to the closing bracket, cut at its first equals sign.\<close>

definition flag_entry :: "string \<Rightarrow> string \<times> string" where
  "flag_entry collected =
     (let key = takeWhile (\<lambda>c. c \<noteq> CHR ''='') collected in
      if CHR ''='' \<notin> set collected then (js_trim collected, [])
      else (js_trim key, js_trim (drop (length key + 1) collected)))"

function scan_parts :: "string \<Rightarrow> string \<Rightarrow> (string \<rightharpoonup> string) \<Rightarrow> string \<times> (string \<rightharpoonup> string)" where
  "scan_parts [] name flags = (name, flags)"
| "scan_parts (c # cs) name flags =
     (if c = dquote then scan_parts (snd (scan_name cs)) (fst (scan_name cs)) flags
      else if c = CHR ''['' then
        (let collected = takeWhile (\<lambda>x. x \<noteq> CHR '']'') cs; (k, v) = flag_entry collected
         in scan_parts (drop (length collected + 1) cs) name (flags(k \<mapsto> v)))
      else scan_parts cs name flags)"
  by pat_completeness auto
termination
proof (relation "measure (\<lambda>(s, _, _). length s)", goal_cases)
  case (2 c cs name flags)
  show ?case using scan_name_shorter [of cs] by simp
qed auto

definition parse_descriptor :: "string \<Rightarrow> descriptor option" where
  "parse_descriptor t =
     (let trimmed = js_trim t; role = takeWhile role_char trimmed in
      if trimmed = [] \<or> role = [] then None
      else let (name, flags) = scan_parts (drop (length role) trimmed) [] Map.empty in
           Some \<lparr>ds_role = role, ds_name = name, ds_flags = flags\<rparr>)"

section \<open>Elements\<close>

record aria_element =
  ae_ref :: string
  ae_role :: string
  ae_name :: string
  ae_value :: "string option"
  ae_disabled :: "bool option"
  ae_checked :: "bool option"

definition to_element :: "descriptor \<Rightarrow> jsv \<Rightarrow> aria_element option" where
  "to_element ds value =
     (if ds_role ds \<notin> set interactive_roles \<or> \<not> truthy (ds_flags ds ''ref'') then None
      else Some
        \<lparr>ae_ref = the (ds_flags ds ''ref''), ae_role = ds_role ds, ae_name = take 200 (ds_name ds),
         ae_value = (case value of
                       JStr t \<Rightarrow> if js_trim t \<noteq> [] then Some (take 200 (js_trim t)) else None
                     | _ \<Rightarrow> None),
         ae_disabled = (if ds_flags ds ''disabled'' \<noteq> None then Some True else None),
         ae_checked =
           (case ds_flags ds ''checked'' of
              Some v \<Rightarrow> Some (v \<noteq> ''false'')
            | None \<Rightarrow> if ds_role ds \<in> set checkable_roles then Some False else None)\<rparr>)"

definition described :: "string \<Rightarrow> jsv \<Rightarrow> aria_element option" where
  "described t value = (case parse_descriptor t of None \<Rightarrow> None | Some ds \<Rightarrow> to_element ds value)"

section \<open>The walk\<close>

type_synonym walk_state = "aria_element list \<times> bool"

definition push_element :: "aria_element option \<Rightarrow> walk_state \<Rightarrow> walk_state" where
  "push_element el st =
     (case (el, st) of
        (None, _) \<Rightarrow> st
      | (Some e, (els, truncated)) \<Rightarrow>
          if snapshot_element_limit \<le> length els then (els, True) else (els @ [e], truncated))"

definition is_object :: "jsv \<Rightarrow> bool" where
  "is_object v = (case v of JObj _ \<Rightarrow> True | JArr _ \<Rightarrow> True | _ \<Rightarrow> False)"

fun aria_walk :: "jsv \<Rightarrow> walk_state \<Rightarrow> walk_state"
and aria_walk_children :: "jsv list \<Rightarrow> walk_state \<Rightarrow> walk_state"
and aria_walk_entries :: "(string \<times> jsv) list \<Rightarrow> walk_state \<Rightarrow> walk_state" where
  "aria_walk node st =
     (if snd st then st
      else case node of
          JArr vs \<Rightarrow> aria_walk_children vs st
        | JStr t \<Rightarrow> push_element (described t JUndef) st
        | JObj kvs \<Rightarrow> aria_walk_entries kvs st
        | _ \<Rightarrow> st)"
| "aria_walk_children [] st = st"
| "aria_walk_children (v # vs) st = aria_walk_children vs (aria_walk v st)"
| "aria_walk_entries [] st = st"
| "aria_walk_entries ((k, v) # kvs) st =
     aria_walk_entries kvs
       (let st' = push_element (described k v) st in if is_object v then aria_walk v st' else st')"

definition parse_aria_snapshot :: "(string \<Rightarrow> jsv option) \<Rightarrow> string \<Rightarrow> walk_state" where
  "parse_aria_snapshot parse_yaml yaml =
     (case parse_yaml yaml of None \<Rightarrow> ([], False) | Some tree \<Rightarrow> aria_walk tree ([], False))"

section \<open>What the walk computes\<close>

text \<open>The specification: the elements of the tree in document order, an entry before its contents.\<close>

fun elements_of :: "jsv \<Rightarrow> aria_element list" where
  "elements_of (JArr vs) = concat (map elements_of vs)"
| "elements_of (JStr t) = (case described t JUndef of None \<Rightarrow> [] | Some e \<Rightarrow> [e])"
| "elements_of (JObj kvs) =
     concat (map (\<lambda>(k, v). (case described k v of None \<Rightarrow> [] | Some e \<Rightarrow> [e]) @
                            (if is_object v then elements_of v else [])) kvs)"
| "elements_of _ = []"

definition bounded :: "aria_element list \<Rightarrow> walk_state" where
  "bounded els = (take snapshot_element_limit els, snapshot_element_limit < length els)"

lemma push_bounded:
  "push_element el (bounded els) = bounded (els @ (case el of None \<Rightarrow> [] | Some e \<Rightarrow> [e]))"
  by (auto simp: push_element_def bounded_def split: option.split)

lemma bounded_more: "snapshot_element_limit < length els \<Longrightarrow> bounded (els @ extra) = bounded els"
  by (simp add: bounded_def)

lemma walk_bounded:
  "st = bounded els \<Longrightarrow> aria_walk node st = bounded (els @ elements_of node)"
  "st = bounded els \<Longrightarrow> aria_walk_children vs st = bounded (els @ concat (map elements_of vs))"
  "st = bounded els \<Longrightarrow> aria_walk_entries kvs st =
     bounded (els @ concat (map (\<lambda>(k, v). (case described k v of None \<Rightarrow> [] | Some e \<Rightarrow> [e]) @
                            (if is_object v then elements_of v else [])) kvs))"
proof (induction node st and vs st and kvs st arbitrary: els and els and els
    rule: aria_walk_aria_walk_children_aria_walk_entries.induct)
  case (1 node st)
  show ?case
  proof (cases "snd st")
    case True
    with 1 show ?thesis by (simp add: bounded_def)
  next
    case False
    with 1 show ?thesis
      by (cases node) (simp_all add: push_bounded del: aria_walk_children.simps aria_walk_entries.simps)
  qed
next
  case (3 v vs st)
  then show ?case by simp
next
  case (5 k v kvs st)
  let ?st = "push_element (described k v) st"
  have push: "?st = bounded (els @ (case described k v of None \<Rightarrow> [] | Some e \<Rightarrow> [e]))"
    using 5(3) by (simp add: push_bounded)
  have "(let st' = ?st in if is_object v then aria_walk v st' else st') =
      bounded (els @ (case described k v of None \<Rightarrow> [] | Some e \<Rightarrow> [e]) @
        (if is_object v then elements_of v else []))"
    using 5(1) [OF refl _ push] push by (cases "is_object v") (simp_all add: Let_def)
  from 5(2) [OF this] show ?case by simp
qed simp_all

text \<open>A snapshot is the first 200 actionable elements in document order, and says so when there are
  more. Whatever tree the parser gives, the answer is a prefix of the specified list, marked as
  truncated exactly when an element was left out; a text that does not parse gives none.\<close>

theorem snapshot_is_prefix:
  "parse_aria_snapshot parse_yaml yaml =
     (case parse_yaml yaml of
        None \<Rightarrow> ([], False)
      | Some tree \<Rightarrow> (take 200 (elements_of tree), 200 < length (elements_of tree)))"
  using walk_bounded(1) [of "([], False)" "[]"]
  by (simp add: parse_aria_snapshot_def bounded_def snapshot_element_limit_def split: option.split)

lemma to_element_sound:
  "to_element ds v = Some e \<Longrightarrow> ae_ref e \<noteq> [] \<and> ae_role e \<in> set interactive_roles
     \<and> length (ae_name e) \<le> 200 \<and> (ae_role e \<in> set checkable_roles \<longrightarrow> ae_checked e \<noteq> None)"
  by (auto simp: to_element_def dest: truthyE split: if_splits option.splits)

lemma elements_described: "e \<in> set (elements_of tree) \<Longrightarrow> \<exists>t v. described t v = Some e"
proof (induction tree rule: elements_of.induct)
  case (1 vs)
  then show ?case by auto
next
  case (2 t)
  then show ?case by (auto split: option.splits)
next
  case (3 kvs)
  then obtain k v where kv: "(k, v) \<in> set kvs"
    "e \<in> set ((case described k v of None \<Rightarrow> [] | Some e \<Rightarrow> [e]) @ (if is_object v then elements_of v else []))"
    by auto
  show ?case
  proof (cases "described k v = Some e")
    case False
    with kv(2) have "is_object v" "e \<in> set (elements_of v)" by (auto split: option.splits if_splits)
    then show ?thesis using 3(1) [OF kv(1) refl] by blast
  qed blast
qed simp_all

text \<open>An element in a snapshot can be acted on. Every element named has a ref and a role of the allowed
  kind, its name and contents are at most 200 characters, and one that can be ticked always says
  whether it is.\<close>

theorem snapshot_elements_actionable:
  "list_all (\<lambda>e. ae_ref e \<noteq> [] \<and> ae_role e \<in> set interactive_roles \<and> length (ae_name e) \<le> 200
       \<and> (case ae_value e of None \<Rightarrow> True | Some v \<Rightarrow> v \<noteq> [] \<and> length v \<le> 200)
       \<and> (if ae_role e \<in> set checkable_roles then ae_checked e \<noteq> None else True))
     (fst (parse_aria_snapshot parse_yaml yaml))"
proof -
  let ?ok = "\<lambda>e. ae_ref e \<noteq> [] \<and> ae_role e \<in> set interactive_roles \<and> length (ae_name e) \<le> 200
       \<and> (case ae_value e of None \<Rightarrow> True | Some v \<Rightarrow> v \<noteq> [] \<and> length v \<le> 200)
       \<and> (if ae_role e \<in> set checkable_roles then ae_checked e \<noteq> None else True)"
  have value_ok: "case (case x of JStr t \<Rightarrow> if js_trim t \<noteq> [] then Some (take 200 (js_trim t)) else None
        | _ \<Rightarrow> None) of None \<Rightarrow> True | Some v \<Rightarrow> v \<noteq> [] \<and> length v \<le> 200" for x
    by (cases x) auto
  have one: "?ok e" if d: "described t v = Some e" for t v e
  proof -
    obtain ds where ds: "to_element ds v = Some e"
      using d by (auto simp: described_def split: option.splits)
    then have "ae_value e = (case v of JStr t \<Rightarrow> if js_trim t \<noteq> [] then Some (take 200 (js_trim t)) else None
        | _ \<Rightarrow> None)"
      by (auto simp: to_element_def split: if_splits)
    with to_element_sound [OF ds] value_ok [of v] show ?thesis by auto
  qed
  have all: "?ok e" if e: "e \<in> set (elements_of tree)" for e tree
  proof -
    obtain t v where "described t v = Some e"
      using elements_described [OF e] by blast
    then show ?thesis by (rule one)
  qed
  show ?thesis
  proof (cases "parse_yaml yaml")
    case None
    then show ?thesis by (simp add: parse_aria_snapshot_def)
  next
    case (Some tree)
    then have "fst (parse_aria_snapshot parse_yaml yaml) = take snapshot_element_limit (elements_of tree)"
      using walk_bounded(1) [of "([], False)" "[]" tree] by (simp add: parse_aria_snapshot_def bounded_def)
    then show ?thesis unfolding list_all_iff by (metis (no_types, lifting) all in_set_takeD)
  qed
qed

section \<open>Printing and reading a descriptor\<close>

definition escape_name :: "string \<Rightarrow> string" where
  "escape_name n = concat (map (\<lambda>c. if c = dquote \<or> c = backslash then [backslash, c] else [c]) n)"

definition print_flag :: "string \<times> string \<Rightarrow> string" where
  "print_flag f = '' ['' @ fst f @ (if snd f = [] then [] else CHR ''='' # snd f) @ '']''"

definition print_descriptor :: "string \<Rightarrow> string \<Rightarrow> (string \<times> string) list \<Rightarrow> string" where
  "print_descriptor role name flags =
     role @ '' '' @ dquote # escape_name name @ dquote # concat (map print_flag flags)"

definition plain_flag :: "string \<times> string \<Rightarrow> bool" where
  "plain_flag f =
     (js_trim (fst f) = fst f \<and> js_trim (snd f) = snd f \<and> CHR ''='' \<notin> set (fst f)
        \<and> CHR '']'' \<notin> set (fst f @ snd f))"

lemma quote_backslash [simp]: "dquote \<noteq> backslash" "backslash \<noteq> dquote"
  by (simp_all add: dquote_def backslash_def)

lemma scan_name_Cons:
  "c \<noteq> dquote \<Longrightarrow> c \<noteq> backslash \<Longrightarrow> scan_name (c # cs) = (c # fst (scan_name cs), snd (scan_name cs))"
  by (cases cs) (simp_all add: split_beta)

lemma scan_escaped: "scan_name (escape_name n @ dquote # rest) = (n, rest)"
proof (induction n)
  case Nil
  show ?case by (cases rest) (simp_all add: escape_name_def)
next
  case (Cons c n)
  then show ?case
    by (cases "c = dquote \<or> c = backslash") (auto simp: escape_name_def scan_name_Cons)
qed

lemma flag_entry_print:
  assumes "plain_flag f"
  shows "flag_entry (fst f @ (if snd f = [] then [] else CHR ''='' # snd f)) = f"
proof -
  have "takeWhile (\<lambda>c. c \<noteq> CHR ''='') (fst f @ CHR ''='' # snd f) = fst f"
    using assms by (subst takeWhile_append2) (auto simp: plain_flag_def)
  with assms show ?thesis
    by (cases f) (auto simp: flag_entry_def plain_flag_def Let_def)
qed

lemma scan_flags:
  "list_all plain_flag flags \<Longrightarrow>
     scan_parts (concat (map print_flag flags)) name m = (name, m ++ map_of (rev flags))"
proof (induction flags arbitrary: m)
  case (Cons f flags)
  let ?body = "fst f @ (if snd f = [] then [] else CHR ''='' # snd f)"
  have ok: "plain_flag f" using Cons.prems by simp
  have q: "CHR '' '' \<noteq> dquote" "CHR ''['' \<noteq> dquote" by code_simp+
  have "takeWhile (\<lambda>x. x \<noteq> CHR '']'') (?body @ CHR '']'' # concat (map print_flag flags)) = ?body"
    using ok by (subst takeWhile_append2) (auto simp: plain_flag_def split: if_splits)
  with q have "scan_parts (concat (map print_flag (f # flags))) name m =
      scan_parts (concat (map print_flag flags)) name (m(fst f \<mapsto> snd f))"
    using flag_entry_print [OF ok] by (simp add: print_flag_def Let_def split_beta)
  also have "\<dots> = (name, m(fst f \<mapsto> snd f) ++ map_of (rev flags))"
    by (rule Cons.IH) (use Cons.prems in simp)
  also have "m(fst f \<mapsto> snd f) ++ map_of (rev flags) = m ++ map_of (rev (f # flags))"
    by (cases f) (auto simp: map_add_def fun_eq_iff split: option.split)
  finally show ?case .
qed simp

lemma dropWhile_keeps: "s \<noteq> [] \<Longrightarrow> \<not> P (hd s) \<Longrightarrow> dropWhile P s = s"
  by (cases s) auto

lemma js_trim_id: "s \<noteq> [] \<Longrightarrow> \<not> js_space (hd s) \<Longrightarrow> \<not> js_space (last s) \<Longrightarrow> js_trim s = s"
  using dropWhile_keeps [of s js_space] dropWhile_keeps [of "rev s" js_space]
  by (simp add: js_trim_def hd_rev)

lemma print_trimmed:
  assumes "role \<noteq> []" "\<not> js_space (hd role)"
  shows "js_trim (print_descriptor role name flags) = print_descriptor role name flags"
proof (rule js_trim_id)
  show "print_descriptor role name flags \<noteq> []" "\<not> js_space (hd (print_descriptor role name flags))"
    using assms by (simp_all add: print_descriptor_def)
  have "last (concat (map print_flag flags)) = CHR '']''" if "flags \<noteq> []"
    using that
  proof (induction flags)
    case (Cons f flags)
    then show ?case by (cases "flags = []") (auto simp: print_flag_def last_append)
  qed simp
  then have "last (print_descriptor role name flags) \<in> {dquote, CHR '']''}"
    by (cases "flags = []") (auto simp: print_descriptor_def print_flag_def last_append)
  moreover have "\<not> js_space dquote" "\<not> js_space (CHR '']'')" by code_simp+
  ultimately show "\<not> js_space (last (print_descriptor role name flags))" by auto
qed

text \<open>A descriptor is read back as it was written. For any role, any accessible name (quotes,
  brackets and backslashes included, escaped as the page writes them) and any flags, reading the
  printed descriptor gives the role, the name and, for each flag, the last value written for it.\<close>

theorem descriptor_roundtrip:
  assumes "role \<noteq> []" "list_all role_char role" "\<not> js_space (hd role)" "list_all plain_flag flags"
  shows "parse_descriptor (print_descriptor role name flags) =
           Some \<lparr>ds_role = role, ds_name = name, ds_flags = map_of (rev flags)\<rparr>"
proof -
  define rest where "rest = '' '' @ dquote # escape_name name @ dquote # concat (map print_flag flags)"
  have p: "print_descriptor role name flags = role @ rest"
    by (simp add: print_descriptor_def rest_def)
  have role: "takeWhile role_char (role @ rest) = role"
    using assms(2) by (subst takeWhile_append2) (auto simp: list_all_iff role_char_def rest_def)
  have "CHR '' '' \<noteq> dquote" "CHR '' '' \<noteq> CHR ''[''" by code_simp+
  then have "scan_parts rest [] Map.empty = (name, map_of (rev flags))"
    using scan_flags [OF assms(4), of name Map.empty] by (simp add: scan_escaped rest_def)
  with role show ?thesis
    using assms(1) print_trimmed [OF assms(1,3), of name flags]
    by (simp add: parse_descriptor_def p)
qed

theorem descriptor_roundtrip_witness:
  "map_option ds_name (parse_descriptor
     (print_descriptor ''button'' [CHR ''a'', dquote, CHR '']''] [(''ref'', ''e1=2''), (''checked'', [])])) =
   Some [CHR ''a'', dquote, CHR '']'']"
proof -
  have "list_all role_char ''button''" "\<not> js_space (hd ''button'')"
    "list_all plain_flag [(''ref'', ''e1=2''), (''checked'', [])]" by code_simp+
  from descriptor_roundtrip [OF _ this] show ?thesis by simp
qed

end
