(* ===== verification/Shell.thy ===== *)
theory Shell
  imports Prelude
begin

text \<open>
  Running a command: \<^verbatim>\<open>agent-computer/src/shell.ts\<close>. What the command sees of the environment, how
  long it may run, and what comes back of its output. The process itself (what it prints, in which
  chunks, and how it ends) and the URL parser are arguments. Output is modelled as characters of one
  byte each, so a byte offset is a character offset.
\<close>

section \<open>The environment of a command\<close>

type_synonym environment = "string \<rightharpoonup> string"

definition path_names :: "string list" where
  "path_names = [''PATH'']"

definition locale_names :: "string list" where
  "locale_names = [''LANG'', ''LANGUAGE'']"

definition terminal_names :: "string list" where
  "terminal_names = [''TERM'', ''TERMINFO'', ''COLORTERM'']"

definition proxy_names :: "string list" where
  "proxy_names =
     [''HTTP_PROXY'', ''HTTPS_PROXY'', ''NO_PROXY'', ''ALL_PROXY'', ''FTP_PROXY'', ''http_proxy'',
      ''https_proxy'', ''no_proxy'', ''all_proxy'', ''ftp_proxy'']"

definition never_passed :: "string list" where
  "never_passed =
     [''BASH_ENV'', ''ENV'', ''BASH_XTRACEFD'', ''BASHOPTS'', ''SHELLOPTS'', ''CDPATH'',
      ''GLOBIGNORE'', ''IFS'', ''LD_PRELOAD'', ''LD_LIBRARY_PATH'', ''LD_AUDIT'', ''PS4'']"

definition letter :: "char \<Rightarrow> bool" where
  "letter c = (let n = char_code c in (65 \<le> n \<and> n \<le> 90) \<or> (97 \<le> n \<and> n \<le> 122))"

definition word_char :: "char \<Rightarrow> bool" where
  "word_char c = (letter c \<or> (48 \<le> char_code c \<and> char_code c \<le> 57) \<or> c = CHR ''_'')"

text \<open>The two regular expressions \<^verbatim>\<open>ENV_NAME\<close> and \<^verbatim>\<open>LOCALE_CATEGORY\<close>.\<close>

definition env_name :: "string \<Rightarrow> bool" where
  "env_name s =
     (case s of [] \<Rightarrow> False | c # cs \<Rightarrow> (letter c \<or> c = CHR ''_'') \<and> list_all word_char cs)"

definition locale_category :: "string \<Rightarrow> bool" where
  "locale_category s = (take 3 s = ''LC_'' \<and> length s > 3 \<and> list_all word_char (drop 3 s))"

text \<open>What \<^verbatim>\<open>new URL\<close> gives of a proxy address: its user, its password, and its text without them.\<close>

record proxy_url =
  px_username :: string
  px_password :: string
  px_without :: string

definition drop_trailing_slash :: "string \<Rightarrow> string" where
  "drop_trailing_slash s = (if s \<noteq> [] \<and> last s = CHR ''/'' then butlast s else s)"

definition without_userinfo :: "(string \<Rightarrow> proxy_url option) \<Rightarrow> string \<Rightarrow> string" where
  "without_userinfo parse raw =
     (case parse (js_trim raw) of
        None \<Rightarrow> raw
      | Some u \<Rightarrow> if px_username u = [] \<and> px_password u = [] then raw
                  else drop_trailing_slash (px_without u))"

definition named_extras :: "string option \<Rightarrow> string list" where
  "named_extras raw =
     (case raw of
        None \<Rightarrow> []
      | Some t \<Rightarrow> if js_trim t = [] then [] else map js_trim (split_on (CHR '','') t))"

definition extra_shell_env_names :: "string option \<Rightarrow> string list" where
  "extra_shell_env_names raw =
     filter (\<lambda>name. env_name name \<and> name \<notin> set never_passed) (named_extras raw)"

datatype env_warning = Not_a_name string | Never_passed string

definition extra_shell_env_warnings :: "string option \<Rightarrow> env_warning list" where
  "extra_shell_env_warnings raw =
     concat (map (\<lambda>name.
       if name = [] then []
       else if \<not> env_name name then [Not_a_name name]
       else if name \<in> set never_passed then [Never_passed name]
       else []) (named_extras raw))"

definition copy_names :: "environment \<Rightarrow> (string \<Rightarrow> string) \<Rightarrow> string list \<Rightarrow> environment \<Rightarrow> environment" where
  "copy_names source change names env =
     fold (\<lambda>name env. case source name of None \<Rightarrow> env | Some v \<Rightarrow> env(name \<mapsto> change v)) names env"

text \<open>The keys of the source are given as a list, the order \<^verbatim>\<open>Object.keys\<close> visits them in.\<close>

definition environment_for_command ::
  "(string \<Rightarrow> proxy_url option) \<Rightarrow> (string \<times> string) list \<Rightarrow> string \<Rightarrow> environment" where
  "environment_for_command parse vars workspace_dir =
     (let source = map_of vars;
          env1 = copy_names source id path_names Map.empty;
          env2 = copy_names source id locale_names env1;
          env3 = copy_names source id (filter locale_category (map fst vars)) env2;
          env4 = copy_names source id terminal_names env3;
          env5 = copy_names source (without_userinfo parse) proxy_names env4;
          env6 = copy_names source id (extra_shell_env_names (source ''COMPUTER_SHELL_ENV'')) env5;
          env7 = env6(''HOME'' \<mapsto> workspace_dir)
      in if env7 ''DEBIAN_FRONTEND'' = None then env7(''DEBIAN_FRONTEND'' \<mapsto> ''noninteractive'') else env7)"

lemma copy_names_apply:
  "copy_names source change names env x =
     (if x \<in> set names \<and> source x \<noteq> None then map_option change (source x) else env x)"
  by (induction names arbitrary: env) (auto simp: copy_names_def split: option.split)

definition passed_plain :: "(string \<times> string) list \<Rightarrow> string \<Rightarrow> bool" where
  "passed_plain vars x =
     (x \<in> set path_names \<or> x \<in> set locale_names \<or> (x \<in> set (map fst vars) \<and> locale_category x)
        \<or> x \<in> set terminal_names)"

lemma environment_apply:
  "environment_for_command parse vars dir x =
     (if x = ''HOME'' then Some dir
      else case map_of vars x of
          Some v \<Rightarrow>
            if x \<in> set (extra_shell_env_names (map_of vars ''COMPUTER_SHELL_ENV'')) then Some v
            else if x \<in> set proxy_names then Some (without_userinfo parse v)
            else if passed_plain vars x then Some v
            else if x = ''DEBIAN_FRONTEND'' then Some ''noninteractive'' else None
        | None \<Rightarrow> if x = ''DEBIAN_FRONTEND'' then Some ''noninteractive'' else None)"
proof -
  let ?named = "extra_shell_env_names (map_of vars ''COMPUTER_SHELL_ENV'')"
  define e where "e = copy_names (map_of vars) id ?named
      (copy_names (map_of vars) (without_userinfo parse) proxy_names
        (copy_names (map_of vars) id terminal_names
          (copy_names (map_of vars) id (filter locale_category (map fst vars))
            (copy_names (map_of vars) id locale_names (copy_names (map_of vars) id path_names Map.empty)))))"
  have e: "e y = (case map_of vars y of None \<Rightarrow> None | Some v \<Rightarrow>
      if y \<in> set ?named then Some v
      else if y \<in> set proxy_names then Some (without_userinfo parse v)
      else if passed_plain vars y then Some v else None)" for y
    by (cases "map_of vars y") (simp_all add: e_def copy_names_apply passed_plain_def)
  have "environment_for_command parse vars dir =
      (if (e(''HOME'' \<mapsto> dir)) ''DEBIAN_FRONTEND'' = None
       then e(''HOME'' \<mapsto> dir, ''DEBIAN_FRONTEND'' \<mapsto> ''noninteractive'') else e(''HOME'' \<mapsto> dir))"
    by (simp only: environment_for_command_def Let_def e_def)
  then show ?thesis
    by (cases "x = ''DEBIAN_FRONTEND''"; cases "map_of vars x") (auto simp: e)
qed

lemma never_passed_elsewhere:
  "list_all (\<lambda>x. x \<noteq> ''HOME'' \<and> x \<noteq> ''DEBIAN_FRONTEND'' \<and> x \<notin> set path_names \<and> x \<notin> set locale_names
     \<and> x \<notin> set terminal_names \<and> x \<notin> set proxy_names \<and> \<not> locale_category x) never_passed"
  by code_simp

text \<open>C37: what a command can see. A variable reaches the command only if it is on the allow list, a
  proxy, or named in COMPUTER_SHELL_ENV; a proxy that is not so named arrives stripped; the home is
  the workspace; and no variable that runs code before the command is ever passed, named or not.\<close>

theorem environment_allow_list:
  "(case environment_for_command parse vars dir x of
      None \<Rightarrow> True
    | Some v \<Rightarrow>
        (x = ''HOME'' \<and> v = dir)
      \<or> (x = ''DEBIAN_FRONTEND'' \<and> (v = ''noninteractive'' \<or> map_of vars x = Some v))
      \<or> (x \<in> set (extra_shell_env_names (map_of vars ''COMPUTER_SHELL_ENV'')) \<and> map_of vars x = Some v)
      \<or> (x \<in> set proxy_names \<and> (\<exists>raw. map_of vars x = Some raw \<and> v = without_userinfo parse raw))
      \<or> (passed_plain vars x \<and> map_of vars x = Some v))
   \<and> environment_for_command parse vars dir ''HOME'' = Some dir
   \<and> list_all (\<lambda>n. environment_for_command parse vars dir n = None) never_passed"
proof -
  have "environment_for_command parse vars dir n = None" if "n \<in> set never_passed" for n
  proof -
    from that never_passed_elsewhere have "n \<noteq> ''HOME''" "n \<noteq> ''DEBIAN_FRONTEND''"
      "n \<notin> set proxy_names" "\<not> passed_plain vars n"
      by (auto simp: list_all_iff passed_plain_def)
    moreover have "n \<notin> set (extra_shell_env_names (map_of vars ''COMPUTER_SHELL_ENV''))"
      using that by (simp add: extra_shell_env_names_def)
    ultimately show ?thesis by (simp add: environment_apply split: option.split)
  qed
  then have "list_all (\<lambda>n. environment_for_command parse vars dir n = None) never_passed"
    unfolding list_all_iff by blast
  moreover have "case environment_for_command parse vars dir x of
      None \<Rightarrow> True
    | Some v \<Rightarrow>
        (x = ''HOME'' \<and> v = dir)
      \<or> (x = ''DEBIAN_FRONTEND'' \<and> (v = ''noninteractive'' \<or> map_of vars x = Some v))
      \<or> (x \<in> set (extra_shell_env_names (map_of vars ''COMPUTER_SHELL_ENV'')) \<and> map_of vars x = Some v)
      \<or> (x \<in> set proxy_names \<and> (\<exists>raw. map_of vars x = Some raw \<and> v = without_userinfo parse raw))
      \<or> (passed_plain vars x \<and> map_of vars x = Some v)"
    by (cases "x = ''HOME''"; cases "map_of vars x") (simp_all add: environment_apply)
  moreover have "environment_for_command parse vars dir ''HOME'' = Some dir"
    by (simp add: environment_apply)
  ultimately show ?thesis by blast
qed

section \<open>How long and how much\<close>

definition command_timeout_ms :: "int option \<Rightarrow> int" where
  "command_timeout_ms requested =
     min (max (case requested of None \<Rightarrow> 120000 | Some t \<Rightarrow> t) 1000) 600000"

definition max_output_bytes :: nat where
  "max_output_bytes = 64 * 1024"

text \<open>\<^verbatim>\<open>subarray(-n)\<close>: the last \<^term>\<open>n\<close> bytes, or all when there are fewer.\<close>

definition last_bytes :: "nat \<Rightarrow> string \<Rightarrow> string" where
  "last_bytes n s = drop (length s - n) s"

definition clamp_output :: "string \<Rightarrow> string \<times> bool" where
  "clamp_output t =
     (if length t \<le> max_output_bytes then (t, False) else (last_bytes max_output_bytes t, True))"

text \<open>\<^verbatim>\<open>collect\<close>: the text held, and whether any was dropped while it arrived.\<close>

definition collect_add :: "string \<Rightarrow> string \<times> bool \<Rightarrow> string \<times> bool" where
  "collect_add chunk st =
     (let t = fst st @ chunk in
      if length t \<le> max_output_bytes * 2 then (t, snd st) else (last_bytes max_output_bytes t, True))"

definition collected :: "string list \<Rightarrow> string \<times> bool" where
  "collected chunks = fold collect_add chunks ([], False)"

record shell_result =
  sr_command :: string
  sr_exit :: int
  sr_stdout :: string
  sr_stderr :: string
  sr_truncated :: bool
  sr_timed_out :: bool
  sr_elapsed :: int

text \<open>The answer, from the chunks each stream gave, the exit code if there was one, and the clock.\<close>

definition shell_answer ::
  "string \<Rightarrow> string list \<Rightarrow> string list \<Rightarrow> int option \<Rightarrow> bool \<Rightarrow> int \<Rightarrow> int \<Rightarrow> shell_result" where
  "shell_answer command outs errs code timed_out started ended =
     (let (out, out_dropped) = collected outs; (err, err_dropped) = collected errs;
          (stdout, out_cut) = clamp_output out; (stderr, err_cut) = clamp_output err
      in \<lparr>sr_command = command, sr_exit = (case code of None \<Rightarrow> -1 | Some c \<Rightarrow> c),
          sr_stdout = stdout, sr_stderr = stderr,
          sr_truncated = (out_cut \<or> err_cut \<or> out_dropped \<or> err_dropped),
          sr_timed_out = timed_out, sr_elapsed = ended - started\<rparr>)"

lemma last_bytes_append: "n \<le> length t \<Longrightarrow> last_bytes n (s @ t) = last_bytes n t"
  by (simp add: last_bytes_def)

lemma last_bytes_all: "length s \<le> n \<Longrightarrow> last_bytes n s = s"
  by (simp add: last_bytes_def)

lemma last_bytes_last: "m \<le> n \<Longrightarrow> last_bytes m (last_bytes n s) = last_bytes m s"
  by (auto simp: last_bytes_def drop_drop intro!: arg_cong [where f = "\<lambda>k. drop k s"])

lemma length_last_bytes: "length (last_bytes n s) = min n (length s)"
  by (simp add: last_bytes_def)

text \<open>What is held of a stream: everything, or a cut that still has the last bytes that are kept.\<close>

lemma collected_held:
  "\<exists>front. concat chunks = front @ fst (collected chunks)
     \<and> (snd (collected chunks) \<longleftrightarrow> front \<noteq> [])
     \<and> (snd (collected chunks) \<longrightarrow> max_output_bytes \<le> length (fst (collected chunks)))
     \<and> length (fst (collected chunks)) \<le> max_output_bytes * 2"
proof (induction chunks rule: rev_induct)
  case Nil
  show ?case by (simp add: collected_def)
next
  case (snoc c cs)
  then obtain front where f: "concat cs = front @ fst (collected cs)"
    "snd (collected cs) \<longleftrightarrow> front \<noteq> []"
    "snd (collected cs) \<longrightarrow> max_output_bytes \<le> length (fst (collected cs))" by blast
  have step: "collected (cs @ [c]) = collect_add c (collected cs)"
    by (simp add: collected_def)
  let ?t = "fst (collected cs) @ c"
  show ?case
  proof (cases "length ?t \<le> max_output_bytes * 2")
    case True
    with f step show ?thesis
      by (intro exI [of _ front]) (auto simp: collect_add_def Let_def)
  next
    case False
    then have "?t = take (length ?t - max_output_bytes) ?t @ last_bytes max_output_bytes ?t"
      "take (length ?t - max_output_bytes) ?t \<noteq> []"
      unfolding last_bytes_def by (simp_all only: append_take_drop_id) (auto simp: max_output_bytes_def)
    with False f step show ?thesis
      by (intro exI [of _ "front @ take (length ?t - max_output_bytes) ?t"])
         (simp add: collect_add_def Let_def length_last_bytes)
  qed
qed

text \<open>A command's output is its last 64 kilobytes, and a cut is never hidden. However the streams
  arrive in chunks, what is answered for each is the end of everything it printed, and the answer is
  marked as truncated exactly when one of the two printed more than is kept.\<close>

theorem output_is_tail:
  "sr_stdout (shell_answer command outs errs code timed_out started ended)
       = last_bytes max_output_bytes (concat outs)
   \<and> sr_stderr (shell_answer command outs errs code timed_out started ended)
       = last_bytes max_output_bytes (concat errs)
   \<and> (sr_truncated (shell_answer command outs errs code timed_out started ended)
       \<longleftrightarrow> max_output_bytes < length (concat outs) \<or> max_output_bytes < length (concat errs))"
proof -
  have one: "fst (clamp_output (fst (collected cs))) = last_bytes max_output_bytes (concat cs)
      \<and> (snd (clamp_output (fst (collected cs))) \<or> snd (collected cs)
          \<longleftrightarrow> max_output_bytes < length (concat cs))" for cs
  proof -
    obtain front where f: "concat cs = front @ fst (collected cs)"
      "snd (collected cs) \<longleftrightarrow> front \<noteq> []"
      "snd (collected cs) \<longrightarrow> max_output_bytes \<le> length (fst (collected cs))"
      using collected_held by blast
    show ?thesis
    proof (cases "front = []")
      case True
      with f show ?thesis by (simp add: clamp_output_def last_bytes_all)
    next
      case False
      with f have "max_output_bytes \<le> length (fst (collected cs))" "0 < length front" by auto
      with f False show ?thesis
        by (auto simp: clamp_output_def last_bytes_append last_bytes_all)
    qed
  qed
  show ?thesis
    using one [of outs] one [of errs]
    by (simp add: shell_answer_def split_beta Let_def) blast
qed

text \<open>A command's time is bounded whatever is asked for: at least a second, at most ten minutes, two
  minutes when nothing is asked, and what was asked when it lies between.\<close>

theorem command_timeout_bounds:
  "1000 \<le> command_timeout_ms t \<and> command_timeout_ms t \<le> 600000 \<and> command_timeout_ms None = 120000
   \<and> (command_timeout_ms (Some n) = n \<longleftrightarrow> 1000 \<le> n \<and> n \<le> 600000)"
  by (auto simp: command_timeout_ms_def)

end
