(* ===== verification/Turn_Watch.thy ===== *)
theory Turn_Watch
  imports Prelude "HOL-Library.AList"
begin

text \<open>
  The watch on silence: \<^verbatim>\<open>server/src/channels/turn-watchdog.ts\<close>. The map of open streams keeps the
  order of JavaScript's \<^verbatim>\<open>Map\<close>, the clock is the time each operation is called at, and the sweep
  hands every stream it takes off the watch to a callback that may change the rest of the state and
  may throw. The record is extensible: what owns the watch adds its own fields to it.
\<close>

record open_stream =
  os_bot :: string
  os_last :: int
  os_chunks :: nat
  os_paused :: bool

record watch =
  wt_stall :: int
  wt_streams :: "(string \<times> open_stream) list"

record stalled_stream =
  sd_id :: string
  sd_bot :: string
  sd_silent :: int
  sd_chunks :: nat

definition watch_enabled :: "'a watch_scheme \<Rightarrow> bool" where
  "watch_enabled w = (wt_stall w > 0)"

definition watching :: "'a watch_scheme \<Rightarrow> nat" where
  "watching w = length (wt_streams w)"

definition watch_open :: "int \<Rightarrow> string \<Rightarrow> string \<Rightarrow> 'a watch_scheme \<Rightarrow> 'a watch_scheme" where
  "watch_open now sid bot_id w =
     (if \<not> watch_enabled w then w
      else w\<lparr>wt_streams := AList.update sid
              \<lparr>os_bot = bot_id, os_last = now, os_chunks = 0, os_paused = False\<rparr> (wt_streams w)\<rparr>)"

definition change_stream ::
  "string \<Rightarrow> (open_stream \<Rightarrow> open_stream) \<Rightarrow> 'a watch_scheme \<Rightarrow> 'a watch_scheme" where
  "change_stream sid f w = w\<lparr>wt_streams := AList.map_entry sid f (wt_streams w)\<rparr>"

definition watch_record :: "int \<Rightarrow> string \<Rightarrow> 'a watch_scheme \<Rightarrow> 'a watch_scheme" where
  "watch_record now sid w =
     change_stream sid (\<lambda>s. s\<lparr>os_last := now, os_chunks := os_chunks s + 1\<rparr>) w"

definition watch_pause :: "string \<Rightarrow> 'a watch_scheme \<Rightarrow> 'a watch_scheme" where
  "watch_pause sid w = change_stream sid (\<lambda>s. s\<lparr>os_paused := True\<rparr>) w"

definition watch_resume :: "int \<Rightarrow> string \<Rightarrow> 'a watch_scheme \<Rightarrow> 'a watch_scheme" where
  "watch_resume now sid w = change_stream sid (\<lambda>s. s\<lparr>os_last := now, os_paused := False\<rparr>) w"

definition watch_close :: "string \<Rightarrow> 'a watch_scheme \<Rightarrow> 'a watch_scheme" where
  "watch_close sid w = w\<lparr>wt_streams := AList.delete sid (wt_streams w)\<rparr>"

definition has_stalled :: "int \<Rightarrow> int \<Rightarrow> open_stream \<Rightarrow> bool" where
  "has_stalled stall now s = (\<not> os_paused s \<and> now - os_last s \<ge> stall)"

text \<open>
  The sweep over the ids that were open when it began; one the callback has closed meanwhile is not
  visited. The callback answers whether it threw, and the result holds how many streams stalled and
  which callbacks threw.
\<close>

fun sweep_over ::
  "int \<Rightarrow> (stalled_stream \<Rightarrow> 'a watch_scheme \<Rightarrow> bool \<times> 'a watch_scheme) \<Rightarrow> string list \<Rightarrow>
   'a watch_scheme \<Rightarrow> nat \<times> (string \<times> string) list \<times> 'a watch_scheme" where
  "sweep_over now on_stall [] w = (0, [], w)"
| "sweep_over now on_stall (sid # ids) w =
     (case map_of (wt_streams w) sid of
        None \<Rightarrow> sweep_over now on_stall ids w
      | Some s \<Rightarrow>
          if \<not> has_stalled (wt_stall w) now s then sweep_over now on_stall ids w
          else
            (let (threw, w') = on_stall \<lparr>sd_id = sid, sd_bot = os_bot s, sd_silent = now - os_last s,
                                         sd_chunks = os_chunks s\<rparr> (watch_close sid w);
                 (n, errors, w'') = sweep_over now on_stall ids w'
             in (n + 1, (if threw then [(sid, os_bot s)] else []) @ errors, w'')))"

definition watch_sweep ::
  "int \<Rightarrow> (stalled_stream \<Rightarrow> 'a watch_scheme \<Rightarrow> bool \<times> 'a watch_scheme) \<Rightarrow> 'a watch_scheme \<Rightarrow>
   nat \<times> (string \<times> string) list \<times> 'a watch_scheme" where
  "watch_sweep now on_stall w =
     (if \<not> watch_enabled w then (0, [], w)
      else sweep_over now on_stall (map fst (wt_streams w)) w)"

section \<open>The watch as a map\<close>

text \<open>What each operation does to the entry of an id.\<close>

definition stream_at :: "'a watch_scheme \<Rightarrow> string \<Rightarrow> open_stream option" where
  "stream_at w sid = map_of (wt_streams w) sid"

definition watch_ok :: "'a watch_scheme \<Rightarrow> bool" where
  "watch_ok w = distinct (map fst (wt_streams w))"

lemma stream_at_open:
  "stream_at (watch_open now sid b w) x =
     (if watch_enabled w \<and> x = sid
      then Some \<lparr>os_bot = b, os_last = now, os_chunks = 0, os_paused = False\<rparr> else stream_at w x)"
  by (simp add: stream_at_def watch_open_def update_conv')

lemma stream_at_change:
  "stream_at (change_stream sid f w) x =
     (if x = sid then map_option f (stream_at w sid) else stream_at w x)"
  by (simp add: stream_at_def change_stream_def map_of_map_entry) (auto split: option.split)

lemma stream_at_close: "stream_at (watch_close sid w) x = (if x = sid then None else stream_at w x)"
  by (simp add: stream_at_def watch_close_def delete_conv')

lemma watch_ok_ops:
  "watch_ok w \<Longrightarrow> watch_ok (watch_open now sid b w)"
  "watch_ok w \<Longrightarrow> watch_ok (change_stream sid f w)"
  "watch_ok w \<Longrightarrow> watch_ok (watch_close sid w)"
  by (simp_all add: watch_ok_def watch_open_def change_stream_def watch_close_def distinct_update
      distinct_map_entry distinct_delete)

lemma watch_stall_ops [simp]:
  "wt_stall (watch_open now sid b w) = wt_stall w"
  "wt_stall (change_stream sid f w) = wt_stall w"
  "wt_stall (watch_close sid w) = wt_stall w"
  by (simp_all add: watch_open_def change_stream_def watch_close_def)

text \<open>
  A callback that never opens or changes a watched stream: what every callback of the watch is
  expected to keep to, and all the sweep's own guarantee needs.
\<close>

locale stall_callback =
  fixes on_stall :: "stalled_stream \<Rightarrow> 'a watch_scheme \<Rightarrow> bool \<times> 'a watch_scheme"
  assumes callback_watch: "map_of (wt_streams w) (sd_id st) = None \<Longrightarrow>
      wt_streams (snd (on_stall st w)) = wt_streams w"
    and callback_stall: "wt_stall (snd (on_stall st w)) = wt_stall w"
begin

lemma callback_at: "stream_at (snd (on_stall st (watch_close (sd_id st) w))) x =
    (if x = sd_id st then None else stream_at w x)"
  using callback_watch [of "watch_close (sd_id st) w" st] stream_at_close [of "sd_id st" w]
  by (simp add: stream_at_def)

lemma sweep_over_at:
  "distinct ids \<Longrightarrow>
     stream_at (snd (snd (sweep_over now on_stall ids w))) x =
       (case stream_at w x of
          None \<Rightarrow> None
        | Some s \<Rightarrow> if x \<in> set ids \<and> has_stalled (wt_stall w) now s then None else Some s)"
proof (induction ids arbitrary: w)
  case Nil
  show ?case by (simp split: option.split)
next
  case (Cons sid ids)
  show ?case
  proof (cases "\<exists>s. map_of (wt_streams w) sid = Some s \<and> has_stalled (wt_stall w) now s")
    case False
    then have "sweep_over now on_stall (sid # ids) w = sweep_over now on_stall ids w"
      by (auto split: option.split)
    with Cons False show ?thesis
      by (auto simp: stream_at_def split: option.split)
  next
    case True
    then obtain s where s: "map_of (wt_streams w) sid = Some s" "has_stalled (wt_stall w) now s" by blast
    let ?st = "\<lparr>sd_id = sid, sd_bot = os_bot s, sd_silent = now - os_last s, sd_chunks = os_chunks s\<rparr>"
    let ?w = "snd (on_stall ?st (watch_close sid w))"
    have "snd (snd (sweep_over now on_stall (sid # ids) w)) = snd (snd (sweep_over now on_stall ids ?w))"
      using s by (simp add: split_beta Let_def)
    moreover have "stream_at ?w y = (if y = sid then None else stream_at w y)" for y
      using callback_at [of ?st w y] by simp
    moreover have "wt_stall ?w = wt_stall w" by (simp add: callback_stall)
    ultimately show ?thesis
      using Cons s by (auto simp: stream_at_def split: option.split)
  qed
qed

lemma sweep_over_stall: "wt_stall (snd (snd (sweep_over now on_stall ids w))) = wt_stall w"
  by (induction ids arbitrary: w)
     (auto simp: split_beta Let_def callback_stall split: option.split)

lemma sweep_stall: "wt_stall (snd (snd (watch_sweep now on_stall w))) = wt_stall w"
  by (simp add: watch_sweep_def sweep_over_stall)

lemma sweep_at:
  assumes "watch_ok w"
  shows "stream_at (snd (snd (watch_sweep now on_stall w))) x =
      (case stream_at w x of
         None \<Rightarrow> None
       | Some s \<Rightarrow> if watch_enabled w \<and> has_stalled (wt_stall w) now s then None else Some s)"
proof (cases "watch_enabled w")
  case True
  moreover have "stream_at w x = Some s \<Longrightarrow> x \<in> set (map fst (wt_streams w))" for s
    by (auto simp: stream_at_def dest: map_of_SomeD intro: rev_image_eqI)
  ultimately show ?thesis
    using assms sweep_over_at [of "map fst (wt_streams w)" now w x]
    by (auto simp: watch_sweep_def watch_ok_def split: option.split)
qed (simp add: watch_sweep_def split: option.split)

end

end
