(* ===== verification/Stall_Guard.thy ===== *)
theory Stall_Guard
  imports Turn_Watch Audit_Trail
begin

text \<open>
  Ending a turn whose Bot has gone quiet: \<^verbatim>\<open>server/src/channels/stall-guard.ts\<close>. The guard extends the
  watch with the streams it relays, whether its timer is armed, and a log of what it did to the
  world. Its asynchronous code is cut at each \<^verbatim>\<open>await\<close>: a step is what runs when a response has
  arrived, a read or a write has settled, or the timer fires, at a given time. \<^verbatim>\<open>JSON.parse\<close> is a
  parameter.
\<close>

section \<open>What a stalled stream is told\<close>

definition sweep_interval_for :: "int \<Rightarrow> int" where
  "sweep_interval_for stall_ms = min 1000 (max 50 (stall_ms div 4))"

definition in_words :: "int \<Rightarrow> string" where
  "in_words ms =
     (if ms \<ge> 60000 \<and> ms mod 60000 = 0
      then (let minutes = ms div 60000 in
            if minutes = 1 then ''a minute'' else show_int minutes @ '' minutes'')
      else (let seconds = max 1 ((ms + 500) div 1000) in
            if seconds = 1 then ''a second'' else show_int seconds @ '' seconds''))"

definition newline :: char where
  "newline = char_of (10 :: nat)"

definition stalled_event :: "string \<Rightarrow> int \<Rightarrow> string" where
  "stalled_event bot_name stall_ms =
     ''data: {'' @ json_quote ''type'' @ '':'' @ json_quote ''RUN_ERROR'' @ '','' @
     json_quote ''message'' @ '':'' @
     json_quote (bot_name @ '' stopped responding. Nothing arrived from it for '' @ in_words stall_ms @
       '', so this turn was ended. Ask again, or check that the Bot is running.'') @ '','' @
     json_quote ''code'' @ '':'' @ json_quote ''AGENT_STREAM_STALLED'' @ ''}'' @ [newline, newline]"

text \<open>The turn a request body names: its thread and its run, when both are strings.\<close>

definition turn_of :: "(string \<Rightarrow> jsv option) \<Rightarrow> string option \<Rightarrow> (string \<times> string) option" where
  "turn_of parse_json body =
     (if \<not> truthy body then None
      else case parse_json (the body) of
          None \<Rightarrow> None
        | Some v \<Rightarrow>
            (case (js_string_field v ''threadId'', js_string_field v ''runId'') of
               (Some t, Some r) \<Rightarrow> Some (t, r)
             | _ \<Rightarrow> None))"

definition turn_entries :: "(string \<times> string) option \<Rightarrow> (string \<times> jsv) list" where
  "turn_entries turn =
     (case turn of None \<Rightarrow> [] | Some (t, r) \<Rightarrow> [(''thread'', JStr t), (''run'', JStr r)])"

section \<open>State and steps\<close>

record guard_stream =
  gs_bot :: string
  gs_name :: string
  gs_sse :: bool
  gs_body :: "string option"
  gs_finished :: bool

datatype relay_event =
    Relay_write string string
  | Relay_close string
  | Relay_abort string
  | Upstream_cancelled string
  | Stall_reported string string int nat "(string \<times> string) option"
  | Stall_recorded audit_input

record guard = watch +
  gd_streams :: "string \<rightharpoonup> guard_stream"
  gd_armed :: bool
  gd_audited :: bool
  gd_log :: "relay_event list"

definition new_guard :: "int \<Rightarrow> bool \<Rightarrow> guard" where
  "new_guard stall_ms audited =
     \<lparr>wt_stall = stall_ms, wt_streams = [], gd_streams = Map.empty, gd_armed = False,
      gd_audited = audited, gd_log = []\<rparr>"

definition logged :: "relay_event list \<Rightarrow> guard \<Rightarrow> guard" where
  "logged evs g = g\<lparr>gd_log := gd_log g @ evs\<rparr>"

text \<open>\<^verbatim>\<open>release\<close>: the stream goes to the first caller only, and is off the guard and off the watch.\<close>

definition release :: "string \<Rightarrow> guard \<Rightarrow> guard_stream option \<times> guard" where
  "release i g =
     (case gd_streams g i of
        None \<Rightarrow> (None, g)
      | Some s \<Rightarrow>
          if gs_finished s then (None, g)
          else (Some (s\<lparr>gs_finished := True\<rparr>), watch_close i (g\<lparr>gd_streams := (gd_streams g)(i := None)\<rparr>)))"

definition stall_row :: "guard_stream \<Rightarrow> stalled_stream \<Rightarrow> (string \<times> string) option \<Rightarrow> audit_input" where
  "stall_row s st turn =
     \<lparr>ai_type = ''agent.stream_stalled'', ai_target_type = ''agent'', ai_target_id = Some (gs_bot s),
      ai_actor = None,
      ai_payload = JObj
        ([(''bot'', JStr (gs_bot s)), (''silentForMs'', JNum (sd_silent st)),
          (''chunks'', JNum (int (sd_chunks st)))] @ turn_entries turn)\<rparr>"

definition give_up :: "(string \<Rightarrow> jsv option) \<Rightarrow> stalled_stream \<Rightarrow> guard \<Rightarrow> bool \<times> guard" where
  "give_up parse_json st g =
     (case release (sd_id st) g of
        (None, g') \<Rightarrow> (False, g')
      | (Some s, g') \<Rightarrow>
          let turn = turn_of parse_json (gs_body s) in
          (False, logged
            ([Stall_reported (gs_bot s) (sd_id st) (sd_silent st) (sd_chunks st) turn,
              Upstream_cancelled (sd_id st)] @
             (if gs_sse s then [Relay_write (sd_id st) (stalled_event (gs_name s) (wt_stall g'))] else []) @
             [Relay_close (sd_id st)] @
             (if gd_audited g' then [Stall_recorded (record_audit_event (stall_row s st turn))] else []))
            g'))"

datatype guard_event =
    Response_arrived string string string bool "string option"
  | Chunk_read string string
  | Write_settled string
  | Read_done string
  | Pump_failed string
  | Timer_fired
  | Stopped

definition arrived :: "int \<Rightarrow> string \<Rightarrow> string \<Rightarrow> string \<Rightarrow> bool \<Rightarrow> string option \<Rightarrow> guard \<Rightarrow> guard" where
  "arrived now i bot_id bot_name sse body g =
     (if \<not> watch_enabled g then g
      else (watch_open now i bot_id
              (g\<lparr>gd_streams := (gd_streams g)(i \<mapsto>
                   \<lparr>gs_bot = bot_id, gs_name = bot_name, gs_sse = sse, gs_body = body,
                    gs_finished = False\<rparr>)\<rparr>))\<lparr>gd_armed := True\<rparr>)"

definition chunk_read :: "int \<Rightarrow> string \<Rightarrow> string \<Rightarrow> guard \<Rightarrow> guard" where
  "chunk_read now i chunk g = logged [Relay_write i chunk] (watch_pause i (watch_record now i g))"

definition read_done :: "string \<Rightarrow> guard \<Rightarrow> guard" where
  "read_done i g =
     (case release i g of (None, g') \<Rightarrow> g' | (Some _, g') \<Rightarrow> logged [Relay_close i] g')"

definition pump_failed :: "string \<Rightarrow> guard \<Rightarrow> guard" where
  "pump_failed i g =
     (case release i g of (None, g') \<Rightarrow> g' | (Some _, g') \<Rightarrow> logged [Relay_abort i] g')"

definition timer_fired :: "(string \<Rightarrow> jsv option) \<Rightarrow> int \<Rightarrow> guard \<Rightarrow> guard" where
  "timer_fired parse_json now g =
     (if \<not> gd_armed g then g
      else let g' = snd (snd (watch_sweep now (give_up parse_json) g)) in
           if watching g' = 0 then g'\<lparr>gd_armed := False\<rparr> else g')"

fun guard_step :: "(string \<Rightarrow> jsv option) \<Rightarrow> int \<times> guard_event \<Rightarrow> guard \<Rightarrow> guard" where
  "guard_step parse_json (now, Response_arrived i bot_id bot_name sse body) g =
     arrived now i bot_id bot_name sse body g"
| "guard_step parse_json (now, Chunk_read i chunk) g = chunk_read now i chunk g"
| "guard_step parse_json (now, Write_settled i) g = watch_resume now i g"
| "guard_step parse_json (now, Read_done i) g = read_done i g"
| "guard_step parse_json (now, Pump_failed i) g = pump_failed i g"
| "guard_step parse_json (now, Timer_fired) g = timer_fired parse_json now g"
| "guard_step parse_json (now, Stopped) g = g\<lparr>gd_armed := False\<rparr>"

definition guard_run ::
  "(string \<Rightarrow> jsv option) \<Rightarrow> int \<Rightarrow> bool \<Rightarrow> (int \<times> guard_event) list \<Rightarrow> guard" where
  "guard_run parse_json stall_ms audited events =
     fold (guard_step parse_json) events (new_guard stall_ms audited)"

section \<open>The callback\<close>

lemma release_watch: "wt_streams (snd (release i g)) =
    (if fst (release i g) = None then wt_streams g else AList.delete i (wt_streams g))"
  by (simp add: release_def watch_close_def split: option.split)

lemma release_stall [simp]: "wt_stall (snd (release i g)) = wt_stall g"
  by (simp add: release_def split: option.split)

lemma logged_watch [simp]:
  "wt_streams (logged evs g) = wt_streams g" "wt_stall (logged evs g) = wt_stall g"
  "gd_streams (logged evs g) = gd_streams g" "gd_armed (logged evs g) = gd_armed g"
  by (simp_all add: logged_def)

interpretation giving_up: stall_callback "give_up parse_json" for parse_json
proof
  fix w :: guard and st :: stalled_stream
  assume "map_of (wt_streams w) (sd_id st) = None"
  then have "AList.delete (sd_id st) (wt_streams w) = wt_streams w"
    by (simp add: map_of_eq_None_iff)
  then show "wt_streams (snd (give_up parse_json st w)) = wt_streams w"
    using release_watch [of "sd_id st" w]
    by (simp add: give_up_def Let_def split_beta split: option.split)
next
  fix w :: guard and st :: stalled_stream
  show "wt_stall (snd (give_up parse_json st w)) = wt_stall w"
    using release_stall [of "sd_id st" w]
    by (simp add: give_up_def Let_def split_beta split: option.split)
qed

section \<open>Every stream ends once\<close>

definition is_end :: "string \<Rightarrow> relay_event \<Rightarrow> bool" where
  "is_end i e = (e = Relay_close i \<or> e = Relay_abort i)"

definition ends :: "string \<Rightarrow> relay_event list \<Rightarrow> nat" where
  "ends i log = length (filter (is_end i) log)"

lemma ends_append [simp]: "ends i (xs @ ys) = ends i xs + ends i ys"
  by (simp add: ends_def)

lemma ends_simps [simp]:
  "ends i [] = 0"
  "ends i (Relay_close j # es) = (if i = j then 1 else 0) + ends i es"
  "ends i (Relay_abort j # es) = (if i = j then 1 else 0) + ends i es"
  "ends i (Relay_write j c # es) = ends i es"
  "ends i (Upstream_cancelled j # es) = ends i es"
  "ends i (Stall_reported b j ms n t # es) = ends i es"
  "ends i (Stall_recorded row # es) = ends i es"
  by (auto simp: ends_def is_end_def)

text \<open>
  What holds after any steps: the watch and the guard hold the same streams; an opened stream has
  ended once if it is gone and not at all while it is there; nothing else has ended.
\<close>

definition guard_inv :: "string set \<Rightarrow> guard \<Rightarrow> bool" where
  "guard_inv opened g =
     (watch_ok g
    \<and> (\<forall>i. stream_at g i = None \<longleftrightarrow> gd_streams g i = None)
    \<and> (\<forall>i s. gd_streams g i = Some s \<longrightarrow> i \<in> opened \<and> \<not> gs_finished s)
    \<and> (\<forall>i. ends i (gd_log g) = (if i \<in> opened \<and> gd_streams g i = None then 1 else 0)))"

text \<open>Taking a live stream off both maps, with a log that ends it.\<close>

definition ended :: "string \<Rightarrow> relay_event list \<Rightarrow> guard \<Rightarrow> guard" where
  "ended i evs g = logged evs (watch_close i (g\<lparr>gd_streams := (gd_streams g)(i := None)\<rparr>))"

lemma stream_at_guard [simp]:
  "stream_at (g\<lparr>gd_streams := m\<rparr>) = stream_at g" "stream_at (g\<lparr>gd_armed := b\<rparr>) = stream_at g"
  "stream_at (logged evs g) = stream_at g"
  by (auto simp: stream_at_def logged_def)

lemma guard_fields [simp]:
  "gd_streams (watch_close i g) = gd_streams g" "gd_log (watch_close i g) = gd_log g"
  "gd_armed (watch_close i g) = gd_armed g" "gd_audited (watch_close i g) = gd_audited g"
  "gd_streams (change_stream i f g) = gd_streams g" "gd_log (change_stream i f g) = gd_log g"
  "gd_armed (change_stream i f g) = gd_armed g"
  "gd_streams (watch_open now i b g) = gd_streams g" "gd_log (watch_open now i b g) = gd_log g"
  "gd_log (logged evs g) = gd_log g @ evs"
  by (simp_all add: watch_close_def change_stream_def watch_open_def logged_def)

lemma watch_ok_guard [simp]:
  "watch_ok (g\<lparr>gd_streams := m\<rparr>) = watch_ok g" "watch_ok (g\<lparr>gd_armed := b\<rparr>) = watch_ok g"
  "watch_ok (logged evs g) = watch_ok g"
  by (auto simp: watch_ok_def logged_def)

lemma ended_fields [simp]:
  "gd_streams (ended i evs g) = (gd_streams g)(i := None)"
  "stream_at (ended i evs g) x = (if x = i then None else stream_at g x)"
  "gd_log (ended i evs g) = gd_log g @ evs"
  "gd_armed (ended i evs g) = gd_armed g"
  "wt_stall (ended i evs g) = wt_stall g"
  by (simp_all add: ended_def stream_at_close)

lemma ended_inv:
  assumes "guard_inv opened g" "gd_streams g i = Some s" "\<And>x. ends x evs = (if x = i then 1 else 0)"
  shows "guard_inv opened (ended i evs g)"
proof -
  have "watch_ok (ended i evs g)"
    using assms(1) by (simp add: ended_def guard_inv_def watch_ok_ops)
  with assms show ?thesis by (auto simp: guard_inv_def)
qed

lemma release_cases:
  assumes "guard_inv opened g"
  shows "release i g = (None, g) \<and> gd_streams g i = None \<or>
    (\<exists>s. gd_streams g i = Some s \<and>
         release i g = (Some (s\<lparr>gs_finished := True\<rparr>),
                        watch_close i (g\<lparr>gd_streams := (gd_streams g)(i := None)\<rparr>)))"
  using assms by (cases "gd_streams g i") (auto simp: release_def guard_inv_def)

definition stall_log ::
  "(string \<Rightarrow> jsv option) \<Rightarrow> stalled_stream \<Rightarrow> guard_stream \<Rightarrow> guard \<Rightarrow> relay_event list" where
  "stall_log parse_json st s g =
     [Stall_reported (gs_bot s) (sd_id st) (sd_silent st) (sd_chunks st) (turn_of parse_json (gs_body s)),
      Upstream_cancelled (sd_id st)] @
     (if gs_sse s then [Relay_write (sd_id st) (stalled_event (gs_name s) (wt_stall g))] else []) @
     [Relay_close (sd_id st)] @
     (if gd_audited g
      then [Stall_recorded (record_audit_event (stall_row s st (turn_of parse_json (gs_body s))))] else [])"

lemma ends_stall_log: "ends x (stall_log parse_json st s g) = (if x = sd_id st then 1 else 0)"
  by (simp add: stall_log_def)

lemma give_up_closed:
  assumes "guard_inv opened g" "gd_streams g (sd_id st) = Some s"
  shows "give_up parse_json st (watch_close (sd_id st) g) = (False, ended (sd_id st) (stall_log parse_json st s g) g)"
proof -
  have "\<not> gs_finished s" using assms by (auto simp: guard_inv_def)
  moreover have "watch_close i ((watch_close i g)\<lparr>gd_streams := m\<rparr>) = watch_close i (g\<lparr>gd_streams := m\<rparr>)"
    for i m by (simp add: watch_close_def delete_idem)
  ultimately show ?thesis
    using assms(2)
    by (simp add: give_up_def release_def ended_def stall_log_def Let_def stall_row_def)
qed

lemma sweep_over_inv:
  "guard_inv opened g \<Longrightarrow> guard_inv opened (snd (snd (sweep_over now (give_up parse_json) ids g)))
     \<and> gd_armed (snd (snd (sweep_over now (give_up parse_json) ids g))) = gd_armed g"
proof (induction ids arbitrary: g)
  case (Cons i ids)
  show ?case
  proof (cases "\<exists>s. map_of (wt_streams g) i = Some s \<and> has_stalled (wt_stall g) now s")
    case False
    then have "sweep_over now (give_up parse_json) (i # ids) g = sweep_over now (give_up parse_json) ids g"
      by (auto split: option.split)
    with Cons show ?thesis by simp
  next
    case True
    then obtain s where s: "map_of (wt_streams g) i = Some s" "has_stalled (wt_stall g) now s" by blast
    then obtain gs where gs: "gd_streams g i = Some gs"
      using Cons.prems by (force simp: guard_inv_def stream_at_def)
    let ?st = "\<lparr>sd_id = i, sd_bot = os_bot s, sd_silent = now - os_last s, sd_chunks = os_chunks s\<rparr>"
    let ?g = "ended i (stall_log parse_json ?st gs g) g"
    have "give_up parse_json ?st (watch_close i g) = (False, ?g)"
      using give_up_closed [OF Cons.prems, of ?st gs] gs by simp
    with s have "snd (snd (sweep_over now (give_up parse_json) (i # ids) g)) =
        snd (snd (sweep_over now (give_up parse_json) ids ?g))"
      by (simp add: split_beta Let_def)
    moreover have "guard_inv opened ?g"
      by (rule ended_inv [OF Cons.prems gs]) (simp add: ends_stall_log)
    ultimately show ?thesis using Cons.IH [of ?g] by simp
  qed
qed simp

section \<open>Runs\<close>

fun opened_by :: "int \<times> guard_event \<Rightarrow> string list" where
  "opened_by (now, Response_arrived i b n sse body) = [i]"
| "opened_by _ = []"

lemmas event_cases = opened_by.cases [case_names opened chunk settled finished failed ticked halted]

definition opened_ids :: "(int \<times> guard_event) list \<Rightarrow> string list" where
  "opened_ids events = concat (map opened_by events)"

text \<open>
  Since when a stream has been waiting on its Bot, read off the events alone, latest first: since it
  was opened or since the relayed chunk was taken; not at all while a chunk is being handed on.
\<close>

fun waiting_since :: "string \<Rightarrow> (int \<times> guard_event) list \<Rightarrow> int option" where
  "waiting_since i [] = None"
| "waiting_since i ((t, Response_arrived j b n sse body) # past) =
     (if i = j then Some t else waiting_since i past)"
| "waiting_since i ((t, Write_settled j) # past) = (if i = j then Some t else waiting_since i past)"
| "waiting_since i ((t, Chunk_read j c) # past) = (if i = j then None else waiting_since i past)"
| "waiting_since i (_ # past) = waiting_since i past"

definition clock_inv :: "(int \<times> guard_event) list \<Rightarrow> guard \<Rightarrow> bool" where
  "clock_inv past g =
     (\<forall>i s. stream_at g i = Some s \<longrightarrow>
        waiting_since i past = (if os_paused s then None else Some (os_last s)))"

lemma same_streams: "guard_inv opened g \<Longrightarrow> stream_at g i = None \<longleftrightarrow> gd_streams g i = None"
  by (simp add: guard_inv_def)

lemma sweep_inv:
  assumes "guard_inv opened g"
  shows "guard_inv opened (snd (snd (watch_sweep now (give_up parse_json) g)))"
    "gd_armed (snd (snd (watch_sweep now (give_up parse_json) g))) = gd_armed g"
  using sweep_over_inv [OF assms] assms by (auto simp: watch_sweep_def)

lemma guard_inv_armed [simp]: "guard_inv opened (g\<lparr>gd_armed := b\<rparr>) = guard_inv opened g"
  by (simp add: guard_inv_def)

lemma guard_inv_change: "guard_inv opened g \<Longrightarrow> guard_inv opened (change_stream i f g)"
  by (simp add: guard_inv_def stream_at_change watch_ok_ops)

lemma guard_inv_logged: "guard_inv opened g \<Longrightarrow> (\<And>i. ends i evs = 0) \<Longrightarrow> guard_inv opened (logged evs g)"
  by (simp add: guard_inv_def)

lemma pump_end_inv:
  assumes "guard_inv opened g"
  shows "guard_inv opened (read_done i g)" "guard_inv opened (pump_failed i g)"
    "gd_armed (read_done i g) = gd_armed g" "gd_armed (pump_failed i g) = gd_armed g"
    "stream_at (read_done i g) x = (if x = i then None else stream_at g x)"
    "stream_at (pump_failed i g) x = (if x = i then None else stream_at g x)"
proof -
  consider "read_done i g = g" "pump_failed i g = g" "gd_streams g i = None"
    | s where "gd_streams g i = Some s" "read_done i g = ended i [Relay_close i] g"
        "pump_failed i g = ended i [Relay_abort i] g"
    using release_cases [OF assms, of i] by (force simp: read_done_def pump_failed_def ended_def)
  then have "guard_inv opened (read_done i g) \<and> guard_inv opened (pump_failed i g)
    \<and> gd_armed (read_done i g) = gd_armed g \<and> gd_armed (pump_failed i g) = gd_armed g
    \<and> stream_at (read_done i g) x = (if x = i then None else stream_at g x)
    \<and> stream_at (pump_failed i g) x = (if x = i then None else stream_at g x)"
  proof cases
    case 1
    moreover have "stream_at g i = None" using assms 1(3) by (simp add: guard_inv_def)
    ultimately show ?thesis using assms by simp
  next
    case 2
    have "guard_inv opened (ended i [Relay_close i] g)" "guard_inv opened (ended i [Relay_abort i] g)"
      by (rule ended_inv [OF assms 2(1)], simp)+
    with 2(2,3) show ?thesis by simp
  qed
  then show "guard_inv opened (read_done i g)" "guard_inv opened (pump_failed i g)"
    "gd_armed (read_done i g) = gd_armed g" "gd_armed (pump_failed i g) = gd_armed g"
    "stream_at (read_done i g) x = (if x = i then None else stream_at g x)"
    "stream_at (pump_failed i g) x = (if x = i then None else stream_at g x)"
    by blast+
qed

lemma timer_inv:
  assumes "guard_inv opened g"
  shows "guard_inv opened (timer_fired parse_json now g)"
    "stream_at (timer_fired parse_json now g) x =
      (case stream_at g x of
         None \<Rightarrow> None
       | Some s \<Rightarrow> if gd_armed g \<and> watch_enabled g \<and> has_stalled (wt_stall g) now s then None else Some s)"
proof -
  let ?g = "snd (snd (watch_sweep now (give_up parse_json) g))"
  show "guard_inv opened (timer_fired parse_json now g)"
    using sweep_inv(1) [OF assms, of now parse_json] assms by (simp add: timer_fired_def Let_def)
  have ok: "watch_ok g" using assms by (simp add: guard_inv_def)
  have "stream_at (timer_fired parse_json now g) x = (if gd_armed g then stream_at ?g x else stream_at g x)"
    by (simp add: timer_fired_def Let_def)
  then show "stream_at (timer_fired parse_json now g) x =
      (case stream_at g x of
         None \<Rightarrow> None
       | Some s \<Rightarrow> if gd_armed g \<and> watch_enabled g \<and> has_stalled (wt_stall g) now s then None else Some s)"
    using giving_up.sweep_at [OF ok, of now parse_json x] by (auto split: option.split)
qed

lemma arrived_inv:
  assumes "guard_inv opened g" "watch_enabled g" "i \<notin> opened"
  shows "guard_inv (insert i opened) (arrived now i b n sse body g)"
proof -
  have "watch_enabled (g\<lparr>gd_streams := m\<rparr>) = watch_enabled g" for m
    by (simp add: watch_enabled_def)
  moreover have "gd_streams g i = None" using assms(1,3) by (force simp: guard_inv_def)
  ultimately show ?thesis
    using assms by (auto simp: arrived_def guard_inv_def stream_at_open watch_ok_ops)
qed

lemma guard_step_inv:
  assumes "guard_inv opened g" "watch_enabled g" "set (opened_by e) \<inter> opened = {}" "clock_inv past g"
  shows "guard_inv (opened \<union> set (opened_by e)) (guard_step parse_json e g)
       \<and> clock_inv (e # past) (guard_step parse_json e g)"
proof (cases e rule: event_cases)
  case (opened now i b n sse body)
  with assms arrived_inv [OF assms(1,2)] show ?thesis
    by (auto simp: clock_inv_def arrived_def stream_at_open watch_enabled_def)
next
  case (chunk now j c)
  with assms show ?thesis
    by (auto simp: chunk_read_def watch_record_def watch_pause_def clock_inv_def stream_at_change
        intro!: guard_inv_logged guard_inv_change split: if_splits)
next
  case (settled now j)
  with assms show ?thesis
    by (auto simp: watch_resume_def clock_inv_def stream_at_change intro!: guard_inv_change split: if_splits)
next
  case (finished now j)
  with assms pump_end_inv [OF assms(1)] show ?thesis
    by (auto simp: clock_inv_def split: if_splits)
next
  case (failed now j)
  with assms pump_end_inv [OF assms(1)] show ?thesis
    by (auto simp: clock_inv_def split: if_splits)
next
  case (ticked now)
  with assms timer_inv [OF assms(1)] show ?thesis
    by (auto simp: clock_inv_def split: option.splits if_splits)
next
  case (halted now)
  with assms show ?thesis by (auto simp: clock_inv_def)
qed

lemma guard_step_stall: "wt_stall (guard_step parse_json e g) = wt_stall g"
  by (cases e rule: event_cases)
     (auto simp: arrived_def chunk_read_def watch_record_def watch_pause_def watch_resume_def
        read_done_def pump_failed_def timer_fired_def release_def giving_up.sweep_stall Let_def
      split: option.split)

lemma guard_run_snoc:
  "guard_run parse_json stall_ms audited (events @ [e]) =
     guard_step parse_json e (guard_run parse_json stall_ms audited events)"
  by (simp add: guard_run_def)

lemma guard_run_stall: "wt_stall (guard_run parse_json stall_ms audited events) = stall_ms"
  by (induction events rule: rev_induct)
     (simp_all add: guard_run_snoc guard_step_stall, simp add: guard_run_def new_guard_def)

lemma guard_run_inv:
  assumes "0 < stall_ms" "distinct (opened_ids events)"
  shows "guard_inv (set (opened_ids events)) (guard_run parse_json stall_ms audited events)
       \<and> clock_inv (rev events) (guard_run parse_json stall_ms audited events)"
  using assms(2)
proof (induction events rule: rev_induct)
  case Nil
  show ?case
    by (simp add: guard_run_def new_guard_def guard_inv_def clock_inv_def watch_ok_def stream_at_def
        opened_ids_def)
next
  case (snoc e events)
  let ?g = "guard_run parse_json stall_ms audited events"
  have ids: "opened_ids (events @ [e]) = opened_ids events @ opened_by e"
    by (simp add: opened_ids_def)
  then have d: "distinct (opened_ids events)" "set (opened_by e) \<inter> set (opened_ids events) = {}"
    using snoc.prems by auto
  have "watch_enabled ?g" using assms(1) guard_run_stall by (simp add: watch_enabled_def)
  with guard_step_inv [OF conjunct1 [OF snoc.IH [OF d(1)]] this d(2) conjunct2 [OF snoc.IH [OF d(1)]]]
  show ?case by (simp add: guard_run_snoc ids)
qed

lemma guard_run_armed:
  assumes "0 < stall_ms" "distinct (opened_ids events)" "list_all (\<lambda>e. snd e \<noteq> Stopped) events"
    and "gd_streams (guard_run parse_json stall_ms audited events) i \<noteq> None"
  shows "gd_armed (guard_run parse_json stall_ms audited events)"
  using assms(2-)
proof (induction events arbitrary: i rule: rev_induct)
  case Nil
  then show ?case by (simp add: guard_run_def new_guard_def)
next
  case (snoc e events)
  let ?g = "guard_run parse_json stall_ms audited events"
  have d: "distinct (opened_ids events)" "list_all (\<lambda>e. snd e \<noteq> Stopped) events"
    using snoc.prems(1,2) by (auto simp: opened_ids_def)
  note inv = guard_run_inv [OF assms(1) d(1), of parse_json audited, THEN conjunct1]
  note inv' = guard_run_inv [OF assms(1) snoc.prems(1), of parse_json audited, THEN conjunct1, unfolded guard_run_snoc]
  have live: "gd_armed ?g" if "gd_streams ?g x \<noteq> None" for x
    using snoc.IH [OF d] that .
  have enabled: "watch_enabled ?g" using assms(1) guard_run_stall by (simp add: watch_enabled_def)
  show ?case
  proof (cases e rule: event_cases)
    case (opened now j b n sse body)
    with enabled show ?thesis by (simp add: guard_run_snoc arrived_def)
  next
    case (ticked now)
    let ?t = "timer_fired parse_json now ?g"
    have at: "stream_at ?t i \<noteq> None"
      using snoc.prems(3) inv' ticked by (simp add: guard_run_snoc guard_inv_def)
    with timer_inv(2) [OF inv, of parse_json now i] have "stream_at ?g i \<noteq> None"
      by (auto split: option.splits)
    then have "gd_streams ?g i \<noteq> None" using inv unfolding guard_inv_def by metis
    then have "gd_armed ?g" by (rule live)
    moreover have "watching (snd (snd (watch_sweep now (give_up parse_json) ?g))) \<noteq> 0"
      using at \<open>gd_armed ?g\<close> by (auto simp: timer_fired_def Let_def watching_def stream_at_def split: if_splits)
    ultimately show ?thesis
      using ticked sweep_inv(2) [OF inv, of now parse_json] by (simp add: guard_run_snoc timer_fired_def Let_def)
  next
    case (halted now)
    with snoc.prems(2) show ?thesis by simp
  next
    case (chunk now j c)
    with snoc.prems(3) live show ?thesis
      by (simp add: guard_run_snoc chunk_read_def watch_record_def watch_pause_def)
  next
    case (settled now j)
    with snoc.prems(3) live show ?thesis by (simp add: guard_run_snoc watch_resume_def)
  next
    case (finished now j)
    then have "stream_at (read_done j ?g) i \<noteq> None"
      using snoc.prems(3) same_streams [OF pump_end_inv(1) [OF inv]] by (simp add: guard_run_snoc)
    then have "stream_at ?g i \<noteq> None" by (simp add: pump_end_inv(5) [OF inv] split: if_splits)
    then have "gd_armed ?g" using live same_streams [OF inv] by metis
    with finished show ?thesis by (simp add: guard_run_snoc pump_end_inv(3) [OF inv])
  next
    case (failed now j)
    then have "stream_at (pump_failed j ?g) i \<noteq> None"
      using snoc.prems(3) same_streams [OF pump_end_inv(2) [OF inv]] by (simp add: guard_run_snoc)
    then have "stream_at ?g i \<noteq> None" by (simp add: pump_end_inv(6) [OF inv] split: if_splits)
    then have "gd_armed ?g" using live same_streams [OF inv] by metis
    with failed show ?thesis by (simp add: guard_run_snoc pump_end_inv(4) [OF inv])
  qed
qed

text \<open>C18: a relayed stream ends exactly once. Whatever chunks arrive, however reads, writes and the timer
  interleave, and whoever gets there first, a stream that was opened has been closed or aborted once
  when it is gone and not at all while it is relayed; nothing that was not opened is ever ended.\<close>

theorem stream_ends_once:
  assumes "0 < stall_ms" "distinct (opened_ids events)"
  shows "ends i (gd_log (guard_run parse_json stall_ms audited events)) =
           (if i \<in> set (opened_ids events)
               \<and> gd_streams (guard_run parse_json stall_ms audited events) i = None then 1 else 0)"
  using guard_run_inv [OF assms, of parse_json audited] by (simp add: guard_inv_def)

definition sample_turn :: "(int \<times> guard_event) list" where
  "sample_turn =
     [(0, Response_arrived ''a'' ''bot'' ''Ada'' True None), (10, Chunk_read ''a'' ''x''),
      (500, Write_settled ''a''), (550, Timer_fired), (620, Timer_fired), (630, Read_done ''a'')]"

theorem stream_ends_once_witness:
  "ends ''a'' (gd_log (guard_run (\<lambda>_. None) 100 False sample_turn)) = 1"
proof -
  have "distinct (opened_ids sample_turn)" "''a'' \<in> set (opened_ids sample_turn)" by code_simp+
  moreover have "case gd_streams (guard_run (\<lambda>_. None) 100 False sample_turn) ''a'' of None \<Rightarrow> True | Some _ \<Rightarrow> False"
    by code_simp
  ultimately show ?thesis
    using stream_ends_once [of 100 sample_turn "''a''" "\<lambda>_. None" False] by (simp split: option.splits)
qed

text \<open>The timer ends exactly the streams that are silent. While the guard has not been stopped, a
  firing of the timer takes off a relayed stream if and only if the guard has been waiting on its Bot,
  and not on whoever reads the relay, for at least the configured time.\<close>

theorem timer_ends_exactly_the_silent:
  assumes "0 < stall_ms" "distinct (opened_ids events)" "list_all (\<lambda>e. snd e \<noteq> Stopped) events"
    and "gd_streams (guard_run parse_json stall_ms audited events) i \<noteq> None"
  shows "gd_streams (guard_run parse_json stall_ms audited (events @ [(now, Timer_fired)])) i = None
           \<longleftrightarrow> (\<exists>t. waiting_since i (rev events) = Some t \<and> stall_ms \<le> now - t)"
proof -
  let ?g = "guard_run parse_json stall_ms audited events"
  note inv = guard_run_inv [OF assms(1,2), of parse_json audited]
  then obtain s where s: "stream_at ?g i = Some s"
    using assms(4) by (cases "stream_at ?g i") (auto simp: guard_inv_def)
  with inv have w: "waiting_since i (rev events) = (if os_paused s then None else Some (os_last s))"
    by (simp add: clock_inv_def)
  have "watch_enabled ?g" "wt_stall ?g = stall_ms" "gd_armed ?g"
    using assms(1) guard_run_stall guard_run_armed [OF assms] by (simp_all add: watch_enabled_def)
  with timer_inv(2) [OF inv [THEN conjunct1], of parse_json now i] s have
    "stream_at (timer_fired parse_json now ?g) i = None \<longleftrightarrow> has_stalled stall_ms now s"
    by simp
  then have "gd_streams (timer_fired parse_json now ?g) i = None \<longleftrightarrow> has_stalled stall_ms now s"
    using timer_inv(1) [OF inv [THEN conjunct1], of parse_json now] by (simp add: guard_inv_def)
  with w show ?thesis by (auto simp: guard_run_snoc has_stalled_def)
qed

theorem timer_ends_exactly_the_silent_witness:
  "gd_streams (guard_run (\<lambda>_. None) 100 False (take 4 sample_turn @ [(620, Timer_fired)])) ''a'' = None
   \<and> gd_streams (guard_run (\<lambda>_. None) 100 False (take 2 sample_turn @ [(620, Timer_fired)])) ''a'' \<noteq> None"
proof -
  have live: "case gd_streams (guard_run (\<lambda>_. None) 100 False (take 4 sample_turn)) ''a'' of
        None \<Rightarrow> False | Some _ \<Rightarrow> True"
      "case gd_streams (guard_run (\<lambda>_. None) 100 False (take 2 sample_turn)) ''a'' of
        None \<Rightarrow> False | Some _ \<Rightarrow> True"
    by code_simp+
  then have live': "gd_streams (guard_run (\<lambda>_. None) 100 False (take 4 sample_turn)) ''a'' \<noteq> None"
      "gd_streams (guard_run (\<lambda>_. None) 100 False (take 2 sample_turn)) ''a'' \<noteq> None"
    by (auto split: option.splits)
  have plain: "distinct (opened_ids (take 4 sample_turn))" "distinct (opened_ids (take 2 sample_turn))"
    "waiting_since ''a'' (rev (take 4 sample_turn)) = Some 500"
    "waiting_since ''a'' (rev (take 2 sample_turn)) = None" by code_simp+
  have running: "list_all (\<lambda>e. snd e \<noteq> Stopped) (take 4 sample_turn)"
    "list_all (\<lambda>e. snd e \<noteq> Stopped) (take 2 sample_turn)"
    by (simp_all add: sample_turn_def)
  show ?thesis
    using timer_ends_exactly_the_silent [OF _ plain(1) running(1) live'(1), of 620]
      timer_ends_exactly_the_silent [OF _ plain(2) running(2) live'(2), of 620] plain(3,4)
    by simp
qed

end
