(* ===== verification/Bundle.thy ===== *)
theory Bundle
  imports Prelude
begin

text \<open>
  A computer's portable bundle: \<^verbatim>\<open>supervisor/src/bundle.ts\<close> and the transfer that uses it,
  \<^verbatim>\<open>supervisor/src/transfer.ts\<close>. Bytes are the 256 characters; a header is written field by field
  over a block of zeros and read back by offset, as the code does. The reader's loop has fuel, since
  a hostile header can make it run for ever; the theorems show that no bundle the writer makes does,
  and give one that does.
\<close>

section \<open>Blocks\<close>

type_synonym bytes = string

definition nul :: char where
  "nul = char_of (0 :: nat)"

definition block_size :: nat where
  "block_size = 512"

text \<open>Writing a text at an offset, \<^verbatim>\<open>toString(8)\<close> and \<^verbatim>\<open>padStart\<close> with zeros.\<close>

definition put_at :: "nat \<Rightarrow> string \<Rightarrow> bytes \<Rightarrow> bytes" where
  "put_at pos text block = take pos block @ text @ drop (pos + length text) block"

fun octal :: "nat \<Rightarrow> string" where
  "octal n = (if n < 8 then [digit_char n] else octal (n div 8) @ [digit_char (n mod 8)])"

declare octal.simps [simp del]

definition pad_start :: "nat \<Rightarrow> string \<Rightarrow> string" where
  "pad_start n s = replicate (n - length s) (CHR ''0'') @ s"

definition size_field :: "nat \<Rightarrow> string" where
  "size_field n = pad_start 11 (octal n) @ [nul]"

definition header_fields :: "nat \<Rightarrow> string \<Rightarrow> nat \<Rightarrow> bytes" where
  "header_fields seconds name sz =
     put_at 263 ''00'' (put_at 257 (''ustar'' @ [nul]) (put_at 156 ''0'' (put_at 148 (replicate 8 (CHR '' ''))
       (put_at 136 (size_field seconds) (put_at 124 (size_field sz)
         (put_at 116 (''0000000'' @ [nul]) (put_at 108 (''0000000'' @ [nul])
           (put_at 100 (''0000644'' @ [nul]) (put_at 0 name (replicate block_size nul))))))))))"

definition checksum :: "bytes \<Rightarrow> nat" where
  "checksum block = sum_list (map char_code block)"

text \<open>\<^verbatim>\<open>header\<close>: nothing when the entry is too large, which the code throws for.\<close>

definition tar_header :: "nat \<Rightarrow> string \<Rightarrow> nat \<Rightarrow> bytes option" where
  "tar_header seconds name sz =
     (if 8 ^ 11 \<le> sz then None
      else let block = header_fields seconds name sz in
           Some (put_at 148 (pad_start 6 (octal (checksum block)) @ [nul, CHR '' '']) block))"

definition padded_nat :: "nat \<Rightarrow> nat" where
  "padded_nat n = (n + (block_size - 1)) div block_size * block_size"

fun pack_tar :: "nat \<Rightarrow> (string \<times> bytes) list \<Rightarrow> bytes option" where
  "pack_tar seconds [] = Some (replicate (block_size * 2) nul)"
| "pack_tar seconds ((name, data) # entries) =
     (case tar_header seconds name (length data) of
        None \<Rightarrow> None
      | Some h \<Rightarrow> map_option
          (\<lambda>rest. h @ data @ replicate (padded_nat (length data) - length data) nul @ rest)
          (pack_tar seconds entries))"

record bundle_entries =
  be_workspace :: bytes
  be_profiles :: bytes

definition pack_bundle :: "nat \<Rightarrow> bundle_entries \<Rightarrow> bytes option" where
  "pack_bundle seconds e =
     pack_tar seconds [(''workspace.tar'', be_workspace e), (''profiles.tar'', be_profiles e)]"

section \<open>Reading\<close>

text \<open>\<^verbatim>\<open>subarray\<close>: a negative bound counts from the end, and both are cut to the array.\<close>

definition array_bound :: "int \<Rightarrow> nat \<Rightarrow> nat" where
  "array_bound i len = (if i < 0 then nat (int len + i) else min (nat i) len)"

definition subarray :: "bytes \<Rightarrow> int \<Rightarrow> int \<Rightarrow> bytes" where
  "subarray s b e =
     take (array_bound e (length s) - array_bound b (length s)) (drop (array_bound b (length s)) s)"

definition line_end :: "char \<Rightarrow> bool" where
  "line_end c = (char_code c = 10 \<or> char_code c = 13)"

text \<open>Removing the first match of \<^verbatim>\<open>/\0.*$/\<close>: a zero with no line end after it, and what follows.\<close>

fun strip_nul :: "string \<Rightarrow> string" where
  "strip_nul [] = []"
| "strip_nul (c # cs) = (if c = nul \<and> list_all (\<lambda>x. \<not> line_end x) cs then [] else c # strip_nul cs)"

text \<open>\<^verbatim>\<open>Math.ceil(size / BLOCK) * BLOCK\<close>, for a size that may be negative.\<close>

definition padded :: "int \<Rightarrow> int" where
  "padded n = - (- n div int block_size) * int block_size"

record found_entries =
  fe_workspace :: "bytes option"
  fe_profiles :: "bytes option"

datatype bundle_error = Not_ustar | Missing_entry | Tar_failed string | Restore_failed string | Too_large

definition finish_unpack :: "found_entries \<Rightarrow> bundle_error + bundle_entries" where
  "finish_unpack found =
     (case (fe_workspace found, fe_profiles found) of
        (Some w, Some p) \<Rightarrow> Inr \<lparr>be_workspace = w, be_profiles = p\<rparr>
      | _ \<Rightarrow> Inl Missing_entry)"

definition take_entry :: "string \<Rightarrow> bytes \<Rightarrow> found_entries \<Rightarrow> found_entries" where
  "take_entry name data found =
     (if name = ''workspace.tar'' then found\<lparr>fe_workspace := Some data\<rparr>
      else if name = ''profiles.tar'' then found\<lparr>fe_profiles := Some data\<rparr> else found)"

text \<open>One turn of the loop per unit of fuel; without fuel there is no answer.\<close>

fun unpack_loop :: "nat \<Rightarrow> bytes \<Rightarrow> int \<Rightarrow> found_entries \<Rightarrow> (bundle_error + bundle_entries) option" where
  "unpack_loop 0 archive pos found = None"
| "unpack_loop (Suc fuel) archive pos found =
     (if \<not> pos + int block_size \<le> int (length archive) then Some (finish_unpack found)
      else let block = subarray archive pos (pos + int block_size) in
           if list_all (\<lambda>b. b = nul) block then Some (finish_unpack found)
           else case parse_int 8 (strip_nul (subarray block 124 136)) of
               None \<Rightarrow> Some (Inl Not_ustar)
             | Some sz \<Rightarrow>
                 unpack_loop fuel archive (pos + (int block_size + padded sz))
                   (take_entry (strip_nul (subarray block 0 100))
                     (subarray archive (pos + int block_size) (pos + int block_size + sz)) found))"

declare unpack_loop.simps(2) [simp del]

definition unpack_bundle :: "nat \<Rightarrow> bytes \<Rightarrow> (bundle_error + bundle_entries) option" where
  "unpack_bundle fuel archive = unpack_loop fuel archive 0 \<lparr>fe_workspace = None, fe_profiles = None\<rparr>"

section \<open>Blocks, position by position\<close>

lemma put_at_length [simp]: "pos + length t \<le> length b \<Longrightarrow> length (put_at pos t b) = length b"
  by (simp add: put_at_def)

lemma put_at_nth:
  "pos + length t \<le> length b \<Longrightarrow> i < length b \<Longrightarrow>
     put_at pos t b ! i = (if pos \<le> i \<and> i < pos + length t then t ! (i - pos) else b ! i)"
  by (auto simp: put_at_def nth_append)

lemma put_at_field:
  "pos + length t \<le> length b \<Longrightarrow> take (length t) (drop pos (put_at pos t b)) = t"
  by (simp add: put_at_def)

text \<open>A field another write does not touch.\<close>

lemma put_at_other:
  assumes "pos + length t \<le> length b" "p + n \<le> pos \<or> pos + length t \<le> p" "p + n \<le> length b"
  shows "take n (drop p (put_at pos t b)) = take n (drop p b)"
proof (rule nth_equalityI)
  show "length (take n (drop p (put_at pos t b))) = length (take n (drop p b))"
    using assms by simp
  fix i assume "i < length (take n (drop p (put_at pos t b)))"
  then show "take n (drop p (put_at pos t b)) ! i = take n (drop p b) ! i"
    using assms by (auto simp: put_at_nth)
qed

subsection \<open>Octal numbers\<close>

lemma set_octal: "c \<in> set (octal n) \<Longrightarrow> \<exists>d < 8. c = digit_char d"
proof (induction n rule: octal.induct)
  case (1 n)
  show ?case
  proof (cases "n < 8")
    case True
    with 1(2) show ?thesis by (auto simp: octal.simps [of n])
  next
    case False
    with 1 have "c \<in> set (octal (n div 8)) \<or> c = digit_char (n mod 8)"
      by (auto simp: octal.simps [of n])
    moreover have "n mod 8 < 8" by simp
    ultimately show ?thesis using 1(1) [OF False] by blast
  qed
qed

lemma octal_digits: "\<forall>c \<in> set (octal n). \<exists>d < 8. digit_value c = Some d"
proof
  fix c assume "c \<in> set (octal n)"
  then obtain d where "d < 8" "c = digit_char d" using set_octal by blast
  then show "\<exists>d < 8. digit_value c = Some d" by simp
qed

lemma octal_nonempty [simp]: "octal n \<noteq> []"
  by (subst octal.simps) simp

lemma parse_octal: "parse_digits 8 None (octal n) = Some n"
proof (induction n rule: octal.induct)
  case (1 n)
  show ?case
  proof (cases "n < 8")
    case True
    then show ?thesis by (subst octal.simps) simp
  next
    case False
    with 1 show ?thesis
      by (subst octal.simps) (simp add: parse_digits_append octal_digits)
  qed
qed

lemma length_octal: "n < 8 ^ Suc k \<Longrightarrow> length (octal n) \<le> Suc k"
proof (induction k arbitrary: n)
  case 0
  then show ?case by (simp add: octal.simps)
next
  case (Suc k)
  show ?case
  proof (cases "n < 8")
    case False
    have "n div 8 < 8 ^ Suc k" using Suc.prems by (simp add: less_mult_imp_div_less)
    with Suc.IH [of "n div 8"] False show ?thesis by (simp add: octal.simps [of n])
  qed (simp add: octal.simps)
qed

lemma parse_zeros: "parse_digits 8 acc (replicate k (CHR ''0'') @ s) =
    (if k = 0 then parse_digits 8 acc s
     else parse_digits 8 (Some (8 ^ k * (case acc of None \<Rightarrow> 0 | Some a \<Rightarrow> a))) s)"
proof (induction k arbitrary: acc)
  case (Suc k)
  have "digit_value (CHR ''0'') = Some 0" by (simp add: digit_value_def char_code_def)
  with Suc show ?case by (cases acc) (simp_all add: ac_simps)
qed simp

lemma parse_digits_leading: "s \<noteq> [] \<Longrightarrow> \<forall>c \<in> set s. \<exists>d < 8. digit_value c = Some d \<Longrightarrow>
    parse_digits 8 (Some 0) s = parse_digits 8 None s"
  by (cases s) auto

lemma parse_padded: "parse_int 8 (pad_start k (octal n)) = Some (int n)"
proof -
  have digits: "parse_digits 8 None (pad_start k (octal n)) = Some n"
    by (simp add: pad_start_def parse_zeros parse_digits_leading octal_digits parse_octal)
  have "CHR ''0'' = digit_char 0" by code_simp
  then have "\<exists>d < 8. c = digit_char d" if "c \<in> set (pad_start k (octal n))" for c
    using that set_octal [of c n] by (auto simp: pad_start_def intro: exI [of _ 0])
  moreover obtain c cs where s: "pad_start k (octal n) = c # cs"
    by (cases "pad_start k (octal n)") (auto simp: pad_start_def)
  ultimately obtain d where d: "d < 8" "c = digit_char d" by (metis list.set_intros(1))
  then have "\<not> js_space c" "c \<noteq> CHR ''-''" "c \<noteq> CHR ''+''" by simp_all
  with s digits show ?thesis by (simp add: parse_int_def strip_hex_def)
qed

subsection \<open>Headers\<close>

lemma strip_nul_field:
  "nul \<notin> set s \<Longrightarrow> strip_nul (s @ replicate (Suc k) nul) = s"
proof (induction s)
  case Nil
  have "\<not> line_end nul" by code_simp
  then show ?case by (simp add: list_all_iff)
qed auto

lemma length_fields [simp]:
  "n < 8 ^ 11 \<Longrightarrow> length (size_field n) = 12"
  "length (pad_start k s) = max k (length s)"
  using length_octal [of n 10] by (simp_all add: size_field_def pad_start_def)

lemma checksum_bound: "checksum block \<le> 255 * length block"
proof (induction block)
  case (Cons c cs)
  have "char_code c \<le> 255" using char_code_less [of c] by linarith
  with Cons show ?case by (simp add: checksum_def)
qed (simp add: checksum_def)

lemma header_facts:
  assumes "tar_header seconds name sz = Some h" "length name \<le> 99" "nul \<notin> set name" "name \<noteq> []"
    and "seconds < 8 ^ 11"
  shows "length h = 512" "strip_nul (take 100 h) = name"
    "parse_int 8 (strip_nul (take 12 (drop 124 h))) = Some (int sz)"
    "\<not> list_all (\<lambda>b. b = nul) h"
proof -
  have sz: "sz < 8 ^ 11" using assms(1) by (simp add: tar_header_def Let_def split: if_splits)
  let ?b = "header_fields seconds name sz"
  let ?c = "pad_start 6 (octal (checksum ?b)) @ [nul, CHR '' '']"
  have h: "h = put_at 148 ?c ?b" using assms(1) sz by (simp add: tar_header_def Let_def)
  have lb: "length ?b = 512"
    using assms(2,5) sz by (simp add: header_fields_def block_size_def)
  have "checksum ?b \<le> 255 * 512" using checksum_bound [of ?b] lb by simp
  then have "length (octal (checksum ?b)) \<le> 6" using length_octal [of "checksum ?b" 5] by simp
  then have lc: "length ?c = 8" by simp
  show lh: "length h = 512" using h lb lc by simp
  have name: "take 100 h = name @ replicate (100 - length name) nul"
  proof -
    have "take 100 h = take 100 (drop 0 ?b)"
      using put_at_other [of 148 ?c ?b 0 100] h lb lc by simp
    also have "\<dots> = take 100 (drop 0 (put_at 0 name (replicate block_size nul)))"
      using assms(2,5) sz by (simp add: header_fields_def block_size_def put_at_other [where p = 0 and n = 100, simplified])
    also have "\<dots> = name @ replicate (100 - length name) nul"
      using assms(2) by (simp add: put_at_def block_size_def)
    finally show ?thesis .
  qed
  obtain k where k: "100 - length name = Suc k" using assms(2) by (cases "100 - length name") auto
  with name show "strip_nul (take 100 h) = name"
    using strip_nul_field [OF assms(3), of k] by simp
  have "take 12 (drop 124 h) = size_field sz"
  proof -
    have "take 12 (drop 124 h) = take 12 (drop 124 ?b)"
      using put_at_other [of 148 ?c ?b 124 12] h lb lc by simp
    also have "\<dots> = size_field sz"
      using assms(2,5) sz put_at_field [of 124 "size_field sz"]
      by (simp add: header_fields_def block_size_def put_at_other [where p = 124 and n = 12])
    finally show ?thesis .
  qed
  moreover have "nul \<notin> set (pad_start 11 (octal sz))"
  proof -
    have "nul \<noteq> digit_char d" if "d < 8" for d
    proof -
      have "char_code nul = 0" "char_code (digit_char d) = 48 + d"
        using that by (simp_all add: nul_def digit_char_def)
      then show ?thesis by auto
    qed
    moreover have "nul \<noteq> CHR ''0''" by code_simp
    ultimately show ?thesis using set_octal [of nul sz] by (auto simp: pad_start_def)
  qed
  ultimately show "parse_int 8 (strip_nul (take 12 (drop 124 h))) = Some (int sz)"
    using strip_nul_field [of "pad_start 11 (octal sz)" 0] parse_padded by (simp add: size_field_def)
  have "h ! 0 = name ! 0"
    using arg_cong [OF name, of "\<lambda>xs. xs ! 0"] assms(4) by (simp add: nth_append)
  then have "h ! 0 \<noteq> nul" using assms(3,4) by (metis length_greater_0_conv nth_mem)
  then show "\<not> list_all (\<lambda>b. b = nul) h"
    using lh by (auto simp: list_all_length intro: exI [of _ 0])
qed

section \<open>Properties\<close>

lemma subarray_block: "length xs = n \<Longrightarrow> length ys = m \<Longrightarrow>
    subarray (xs @ ys @ zs) (int n) (int n + int m) = ys"
  by (simp add: subarray_def array_bound_def nat_int_add)

lemma subarray_take: "n \<le> length s \<Longrightarrow> subarray s 0 (int n) = take n s"
  by (simp add: subarray_def array_bound_def)

lemma subarray_part: "p + n \<le> length s \<Longrightarrow> subarray s (int p) (int (p + n)) = take n (drop p s)"
  by (simp add: subarray_def array_bound_def nat_int_add)

lemma padded_int: "padded (int n) = int (padded_nat n)"
proof -
  have "- (- x div 512) = (x + 511) div 512" for x :: int
    by linarith
  then have "- (- int n div 512) = int ((n + 511) div 512)"
    by (simp add: zdiv_int add.commute)
  then show ?thesis by (simp add: padded_def padded_nat_def block_size_def)
qed

lemma padded_nat_le: "n \<le> padded_nat n"
  by (simp add: padded_nat_def block_size_def)

text \<open>Reading one entry of a packed archive.\<close>

lemma unpack_entry:
  assumes "tar_header seconds name (length data) = Some h" "length name \<le> 99" "nul \<notin> set name"
    and "name \<noteq> []" "seconds < 8 ^ 11" "length front = n"
  shows "unpack_loop (Suc fuel)
      (front @ h @ data @ replicate (padded_nat (length data) - length data) nul @ rest) (int n) found =
    unpack_loop fuel
      ((front @ h @ data @ replicate (padded_nat (length data) - length data) nul) @ rest)
      (int (length (front @ h @ data @ replicate (padded_nat (length data) - length data) nul)))
      (take_entry name data found)"
proof -
  note hd = header_facts [OF assms(1-5)]
  let ?pad = "replicate (padded_nat (length data) - length data) nul"
  let ?a = "front @ h @ data @ ?pad @ rest"
  have block: "subarray ?a (int n) (int n + 512) = h"
    using subarray_block [of front n h 512 "data @ ?pad @ rest"] assms(6) hd(1) by simp
  have data: "subarray ?a (int n + 512) (int n + 512 + int (length data)) = data"
    using subarray_block [of "front @ h" "n + 512" data "length data" "?pad @ rest"] assms(6) hd(1) by simp
  have fields: "subarray h 0 100 = take 100 h" "subarray h 124 136 = take 12 (drop 124 h)"
    using subarray_part [of 0 100 h] subarray_part [of 124 12 h] hd(1) by simp_all
  have pos: "int n + (512 + int (padded_nat (length data))) = int (length (front @ h @ data @ ?pad))"
    using padded_nat_le [of "length data"] assms(6) hd(1) by simp
  have "int n + 512 \<le> int (length ?a)" using assms(6) hd(1) by simp
  then show ?thesis
    using hd(2-4) block data fields pos
    by (simp add: unpack_loop.simps(2) Let_def block_size_def padded_int)
qed

lemma unpack_end:
  "0 < fuel \<Longrightarrow> length front = n \<Longrightarrow>
     unpack_loop fuel (front @ replicate (block_size * 2) nul) (int n) found = Some (finish_unpack found)"
  using subarray_block [of front n "replicate 512 nul" 512 "replicate 512 nul"]
  by (cases fuel) (simp_all add: unpack_loop.simps(2) Let_def block_size_def list_all_iff flip: replicate_add)

lemma bundle_unpacks:
  assumes "length (be_workspace e) < 8 ^ 11" "length (be_profiles e) < 8 ^ 11" "seconds < 8 ^ 11"
  shows "\<exists>archive. pack_bundle seconds e = Some archive \<and> unpack_bundle 3 archive = Some (Inr e)"
proof -
  let ?w = "be_workspace e" and ?p = "be_profiles e"
  let ?pad = "\<lambda>data. replicate (padded_nat (length data) - length data) nul"
  obtain hw hp where h: "tar_header seconds ''workspace.tar'' (length ?w) = Some hw"
    "tar_header seconds ''profiles.tar'' (length ?p) = Some hp"
    using assms by (simp add: tar_header_def Let_def)
  let ?tail = "replicate (block_size * 2) nul"
  let ?a = "hw @ ?w @ ?pad ?w @ hp @ ?p @ ?pad ?p @ ?tail"
  have pack: "pack_bundle seconds e = Some ?a" by (simp add: pack_bundle_def h)
  have names: "nul \<notin> set ''workspace.tar''" "nul \<notin> set ''profiles.tar''" by code_simp+
  let ?f0 = "\<lparr>fe_workspace = None, fe_profiles = None\<rparr>"
  let ?f1 = "take_entry ''workspace.tar'' ?w ?f0"
  let ?f2 = "take_entry ''profiles.tar'' ?p ?f1"
  have "unpack_loop 3 ?a 0 ?f0 =
      unpack_loop 2 ((hw @ ?w @ ?pad ?w) @ hp @ ?p @ ?pad ?p @ ?tail) (int (length (hw @ ?w @ ?pad ?w))) ?f1"
    using unpack_entry [OF h(1) _ names(1) _ assms(3), of "[]" 0 2 "hp @ ?p @ ?pad ?p @ ?tail" ?f0]
    by (simp add: numeral_3_eq_3 numeral_2_eq_2)
  also have "\<dots> = unpack_loop 1 (((hw @ ?w @ ?pad ?w) @ hp @ ?p @ ?pad ?p) @ ?tail)
      (int (length ((hw @ ?w @ ?pad ?w) @ hp @ ?p @ ?pad ?p))) ?f2"
    using unpack_entry [OF h(2) _ names(2) _ assms(3), of "hw @ ?w @ ?pad ?w" _ 1 ?tail ?f1]
    by (simp add: numeral_2_eq_2)
  also have "\<dots> = Some (finish_unpack ?f2)"
    by (rule unpack_end) simp_all
  also have "finish_unpack ?f2 = Inr e" by (simp add: take_entry_def finish_unpack_def)
  finally show ?thesis using pack by (auto simp: unpack_bundle_def)
qed

text \<open>C34: a bundle is read back as it was written. For any two archives below the format's limit,
  packing succeeds and unpacking the result ends within three turns of the loop with exactly the two
  archives, whatever the clock said when they were packed.\<close>

theorem bundle_roundtrip:
  assumes "length (be_workspace e) < 8 ^ 11" "length (be_profiles e) < 8 ^ 11" "seconds < 8 ^ 11"
  shows "\<exists>archive. pack_bundle seconds e = Some archive \<and> unpack_bundle 3 archive = Some (Inr e)"
  by (rule bundle_unpacks [OF assms])

theorem bundle_roundtrip_witness:
  "\<exists>archive. pack_bundle 1700000000 \<lparr>be_workspace = ''notes'', be_profiles = []\<rparr> = Some archive
     \<and> unpack_bundle 3 archive = Some (Inr \<lparr>be_workspace = ''notes'', be_profiles = []\<rparr>)"
  using bundle_roundtrip [of "\<lparr>be_workspace = ''notes'', be_profiles = []\<rparr>" 1700000000] by simp

text \<open>A header whose size field is a negative number of exactly one block.\<close>

definition hostile_bundle :: bytes where
  "hostile_bundle = put_at 124 (''-1000'' @ replicate 7 nul) (the (tar_header 0 ''x'' 0))"

text \<open>A bundle can keep the reader running for ever. The size is read with \<^verbatim>\<open>parseInt\<close>, which
  accepts a sign; a header that says minus one block moves the position back by what reading the
  header moved it on, so the same block is read again: no amount of fuel gives an answer.\<close>

theorem hostile_bundle_never_ends:
  "unpack_bundle fuel hostile_bundle = None"
proof -
  obtain h where h: "tar_header 0 ''x'' 0 = Some h" by (simp add: tar_header_def Let_def)
  have "nul \<notin> set ''x''" by code_simp
  note hd = header_facts [OF h _ this]
  let ?f = "''-1000'' @ replicate 7 nul"
  have b: "hostile_bundle = put_at 124 ?f h" by (simp add: hostile_bundle_def h)
  have len: "length hostile_bundle = 512" using hd(1) by (simp add: b)
  have lf: "length ?f = 12" by simp
  have field: "take 12 (drop 124 hostile_bundle) = ?f"
    using put_at_field [of 124 ?f h] hd(1) unfolding b lf by simp
  have "take 1 hostile_bundle = take 1 h"
    using put_at_other [of 124 ?f h 0 1] hd(1) lf unfolding b by simp
  moreover have "take 100 h \<noteq> []" "strip_nul (take 100 h) = ''x''" using hd by auto
  then have "take 1 h = ''x''"
    by (cases h) (auto split: if_splits)
  ultimately have "take 1 hostile_bundle = ''x''" by simp
  from arg_cong [OF this, of "\<lambda>xs. xs ! 0"] len have "hostile_bundle ! 0 = CHR ''x''" by simp
  then have nonzero: "\<not> list_all (\<lambda>b. b = nul) hostile_bundle"
    using \<open>nul \<notin> set ''x''\<close> len by (auto simp: list_all_length intro!: exI [of _ 0])
  have self: "subarray hostile_bundle 0 512 = hostile_bundle"
    using subarray_take [of 512 hostile_bundle] len by simp
  have "subarray hostile_bundle 124 136 = ?f"
    using subarray_part [of 124 12 hostile_bundle] len field by simp
  moreover have "parse_int 8 (strip_nul ?f) = Some (-512)" by code_simp
  moreover have "padded (- 512) = - 512" by (simp add: padded_def block_size_def)
  moreover have "strip_nul (subarray hostile_bundle 0 100) = ''x''"
    using put_at_other [of 124 ?f h 0 100] subarray_part [of 0 100 hostile_bundle] len lf hd(1,2)
    unfolding b by simp
  ultimately have "unpack_loop fuel hostile_bundle 0 found = None" for fuel found
    using nonzero self len
    by (induction fuel) (simp_all add: unpack_loop.simps(2) block_size_def Let_def take_entry_def)
  then show ?thesis by (simp add: unpack_bundle_def)
qed

section \<open>Moving a computer\<close>

text \<open>
  \<^verbatim>\<open>exec\<close> is the backend's: it runs a command in a computer, with the bytes fed to it, and the state
  is whatever the backend keeps. The two archives of an export are asked for together, so both
  commands run whatever the first answers.
\<close>

record exec_result =
  er_exit :: int
  er_stdout :: bytes
  er_stderr :: string

type_synonym 's exec = "'s \<Rightarrow> string list \<Rightarrow> bytes option \<Rightarrow> exec_result \<times> 's"

definition tar_of :: "'s exec \<Rightarrow> string \<Rightarrow> 's \<Rightarrow> (bundle_error + bytes) \<times> 's" where
  "tar_of exec dir s =
     (let (result, s') = exec s [''tar'', ''-cf'', ''-'', ''-C'', ''/'', dir] None in
      (if er_exit result \<noteq> 0
       then Inl (Tar_failed (''tar of /'' @ dir @ '' failed: '' @ js_trim (er_stderr result)))
       else Inr (er_stdout result), s'))"

definition export_bundle :: "nat \<Rightarrow> 's exec \<Rightarrow> 's \<Rightarrow> (bundle_error + bytes) \<times> 's" where
  "export_bundle seconds exec s =
     (let (w, s1) = tar_of exec ''workspace'' s; (p, s2) = tar_of exec ''profiles'' s1 in
      (case w of
         Inl e \<Rightarrow> Inl e
       | Inr wt \<Rightarrow>
           (case p of
              Inl e \<Rightarrow> Inl e
            | Inr pt \<Rightarrow>
                (case pack_bundle seconds \<lparr>be_workspace = wt, be_profiles = pt\<rparr> of
                   None \<Rightarrow> Inl Too_large
                 | Some archive \<Rightarrow> Inr archive)), s2))"

definition restore_argv :: "string list" where
  "restore_argv = [''tar'', ''-xf'', ''-'', ''-C'', ''/'']"

fun restore_all :: "'s exec \<Rightarrow> bytes list \<Rightarrow> 's \<Rightarrow> (bundle_error + unit) \<times> 's" where
  "restore_all exec [] s = (Inr (), s)"
| "restore_all exec (data # rest) s =
     (let (result, s') = exec s restore_argv (Some data) in
      if er_exit result \<noteq> 0
      then (Inl (Restore_failed (''restoring the bundle failed: '' @ js_trim (er_stderr result))), s')
      else restore_all exec rest s')"

definition import_bundle :: "nat \<Rightarrow> 's exec \<Rightarrow> bytes \<Rightarrow> 's \<Rightarrow> ((bundle_error + unit) \<times> 's) option" where
  "import_bundle fuel exec bundle s =
     (case unpack_bundle fuel bundle of
        None \<Rightarrow> None
      | Some (Inl e) \<Rightarrow> Some (Inl e, s)
      | Some (Inr entries) \<Rightarrow> Some (restore_all exec [be_workspace entries, be_profiles entries] s))"

text \<open>Moving a computer is a copy. When both archives could be made on the source and each is below
  the format's limit, importing the exported bundle on the target runs exactly the two restores, fed
  the two archives the source's commands printed, the workspace before the profile.\<close>

theorem moving_is_a_copy:
  assumes "exec s [''tar'', ''-cf'', ''-'', ''-C'', ''/'', ''workspace''] None = (w, s1)" "er_exit w = 0"
    and "exec s1 [''tar'', ''-cf'', ''-'', ''-C'', ''/'', ''profiles''] None = (p, s2)" "er_exit p = 0"
    and "length (er_stdout w) < 8 ^ 11" "length (er_stdout p) < 8 ^ 11" "seconds < 8 ^ 11"
  shows "\<exists>archive. export_bundle seconds exec s = (Inr archive, s2)
     \<and> import_bundle 3 exec' archive t = Some (restore_all exec' [er_stdout w, er_stdout p] t)"
proof -
  let ?e = "\<lparr>be_workspace = er_stdout w, be_profiles = er_stdout p\<rparr>"
  obtain archive where a: "pack_bundle seconds ?e = Some archive" "unpack_bundle 3 archive = Some (Inr ?e)"
    using bundle_unpacks [of ?e seconds] assms(5-7) by auto
  have "export_bundle seconds exec s = (Inr archive, s2)"
    using assms(1-4) a(1) by (simp add: export_bundle_def tar_of_def)
  then show ?thesis using a(2) by (simp add: import_bundle_def)
qed

theorem moving_is_a_copy_witness:
  "\<exists>archive.
     export_bundle 0 (\<lambda>s argv stdin. (\<lparr>er_exit = 0, er_stdout = last argv, er_stderr = []\<rparr>, Suc s)) 0 =
       (Inr archive, 2)
   \<and> import_bundle 3 (\<lambda>s argv stdin. (\<lparr>er_exit = 0, er_stdout = [], er_stderr = []\<rparr>, s @ [stdin])) archive [] =
       Some (Inr (), [Some ''workspace'', Some ''profiles''])"
proof -
  let ?x = "\<lambda>s argv stdin. (\<lparr>er_exit = 0, er_stdout = last argv, er_stderr = []\<rparr>, Suc s)"
  let ?y = "\<lambda>s argv stdin. (\<lparr>er_exit = 0, er_stdout = [], er_stderr = []\<rparr>, s @ [stdin])"
  show ?thesis
    using moving_is_a_copy [of ?x 0 "\<lparr>er_exit = 0, er_stdout = ''workspace'', er_stderr = []\<rparr>" 1
        "\<lparr>er_exit = 0, er_stdout = ''profiles'', er_stderr = []\<rparr>" 2 0 ?y "[]"]
    by simp
qed

end
