(* ===== verification/Names.thy ===== *)
theory Names
  imports Prelude
begin

text \<open>
  What a Bot id may be and what it becomes: \<^verbatim>\<open>supervisor/src/names.ts\<close>,
  \<^verbatim>\<open>agent-computer/src/bot-id.ts\<close> and the token check of \<^verbatim>\<open>agent-computer/src/authorisation.ts\<close>. The
  theorems: the two allow lists are the same rule, a profile directory is one name below the root,
  no two Bots of a deployment share a container or a volume, and a token is accepted exactly when it
  is the secret.
\<close>

section \<open>Bot ids\<close>

definition max_bot_id :: nat where
  "max_bot_id = 64"

definition alnum :: "char \<Rightarrow> bool" where
  "alnum c = (let n = char_code c in (48 \<le> n \<and> n \<le> 57) \<or> (65 \<le> n \<and> n \<le> 90) \<or> (97 \<le> n \<and> n \<le> 122))"

definition id_char :: "char \<Rightarrow> bool" where
  "id_char c = (alnum c \<or> c = CHR ''_'' \<or> c = CHR ''-'')"

text \<open>The regular expression \<^verbatim>\<open>ALLOWED\<close> of both files.\<close>

fun allowed_id :: "string \<Rightarrow> bool" where
  "allowed_id [] = False"
| "allowed_id (c # cs) = (alnum c \<and> list_all id_char cs)"

definition is_plain_bot_id :: "string \<Rightarrow> bool" where
  "is_plain_bot_id v = (length v \<le> max_bot_id \<and> allowed_id v)"

text \<open>Nothing where the code throws \<^verbatim>\<open>UnusableBotIdError\<close>.\<close>

definition profile_directory_for :: "string \<Rightarrow> string \<Rightarrow> string option" where
  "profile_directory_for root bot_id =
     (if \<not> is_plain_bot_id bot_id then None else Some (root @ ''/'' @ bot_id))"

section \<open>Names of a computer\<close>

definition default_namespace :: string where
  "default_namespace = ''openbot''"

text \<open>\<^verbatim>\<open>NAMESPACE\<close>, from the environment; nothing where the process refuses to start.\<close>

definition namespace_of :: "string option \<Rightarrow> string option" where
  "namespace_of configured =
     (let c = map_option js_trim configured in
      if \<not> truthy c then Some default_namespace
      else if \<not> allowed_id (the c) \<or> length (the c) > max_bot_id then None
      else c)"

record computer_names =
  cn_bot :: string
  cn_container :: string
  cn_profile :: string
  cn_workspace :: string

definition names_for :: "string \<Rightarrow> jsv \<Rightarrow> string + computer_names" where
  "names_for ns v =
     (case v of
        JStr b \<Rightarrow>
          if b = [] then Inl ''A bot id is required.''
          else if length b > max_bot_id
          then Inl (''A bot id may be at most '' @ show_nat max_bot_id @ '' characters.'')
          else if \<not> allowed_id b
          then Inl (''A bot id may contain only letters, digits, hyphen and underscore, and must '' @
                    ''start with a letter or digit.'')
          else Inr \<lparr>cn_bot = b, cn_container = ns @ ''-computer-'' @ b,
                    cn_profile = ns @ ''-profile-'' @ b, cn_workspace = ns @ ''-workspace-'' @ b\<rparr>
      | _ \<Rightarrow> Inl ''A bot id is required.'')"

lemma names_for_ok:
  "names_for ns v = Inr n \<longleftrightarrow>
     (\<exists>b. v = JStr b \<and> is_plain_bot_id b \<and>
          n = \<lparr>cn_bot = b, cn_container = ns @ ''-computer-'' @ b,
               cn_profile = ns @ ''-profile-'' @ b, cn_workspace = ns @ ''-workspace-'' @ b\<rparr>)"
  by (cases v) (auto simp: names_for_def is_plain_bot_id_def split: if_splits)

lemma allowed_chars: "allowed_id b \<Longrightarrow> list_all id_char b"
  by (cases b) (auto simp: id_char_def)

lemma plain_no_separator:
  assumes "is_plain_bot_id b"
  shows "CHR ''/'' \<notin> set b" "CHR ''.'' \<notin> set b" "b \<noteq> []"
proof -
  have "list_all id_char b" using assms allowed_chars by (simp add: is_plain_bot_id_def)
  moreover have "\<not> id_char (CHR ''/'')" "\<not> id_char (CHR ''.'')" by code_simp+
  ultimately show "CHR ''/'' \<notin> set b" "CHR ''.'' \<notin> set b" by (auto simp: list_all_iff)
  show "b \<noteq> []" using assms by (auto simp: is_plain_bot_id_def)
qed

text \<open>An id means the same Bot everywhere. The supervisor accepts an id exactly when the computer does;
  the profile directory of an accepted id is the root with one more path component, which holds no
  dot and no separator, so no id reaches another directory; and an id that is refused has no
  directory and no names at all.\<close>

theorem bot_ids_agree:
  "((\<exists>n. names_for ns (JStr b) = Inr n) \<longleftrightarrow> is_plain_bot_id b)
   \<and> ((\<exists>n. names_for ns (JStr b) = Inr n) \<longleftrightarrow> (\<exists>d. profile_directory_for root b = Some d))
   \<and> (case profile_directory_for root b of
        None \<Rightarrow> \<not> is_plain_bot_id b
      | Some d \<Rightarrow> split_on (CHR ''/'') d = split_on (CHR ''/'') root @ [b]
               \<and> b \<noteq> [] \<and> CHR ''.'' \<notin> set b)"
proof -
  have "split_on (CHR ''/'') (root @ ''/'' @ b) = split_on (CHR ''/'') root @ [b]"
    if "is_plain_bot_id b"
  proof -
    have "split_on (CHR ''/'') b = [b]"
      using plain_no_separator(1) [OF that] by (intro split_when_none) auto
    then show ?thesis by (simp add: split_when_at)
  qed
  then show ?thesis
    using plain_no_separator [of b] by (auto simp: names_for_ok profile_directory_for_def)
qed

text \<open>Two Bots of a deployment share nothing. If any name derived for one Bot equals a name derived for
  another of the same kind, or the profile volume of one is the workspace volume of the other, the
  two are the same Bot; and one Bot's own two volumes differ.\<close>

theorem names_separate_bots:
  assumes "names_for ns v = Inr m" "names_for ns w = Inr n"
  shows "(cn_container m = cn_container n \<longleftrightarrow> cn_bot m = cn_bot n)
       \<and> (cn_profile m = cn_profile n \<longleftrightarrow> cn_bot m = cn_bot n)
       \<and> (cn_workspace m = cn_workspace n \<longleftrightarrow> cn_bot m = cn_bot n)
       \<and> cn_profile m \<noteq> cn_workspace n"
  using assms by (auto simp: names_for_ok)

theorem names_separate_bots_witness:
  "\<exists>m n. names_for ''openbot'' (JStr ''ada'') = Inr m \<and> names_for ''openbot'' (JStr ''bob'') = Inr n
     \<and> cn_container m \<noteq> cn_container n"
proof -
  have "is_plain_bot_id ''ada''" "is_plain_bot_id ''bob''" by code_simp+
  then obtain m n where mn: "names_for ''openbot'' (JStr ''ada'') = Inr m" "cn_bot m = ''ada''"
    "names_for ''openbot'' (JStr ''bob'') = Inr n" "cn_bot n = ''bob''"
    by (auto simp: names_for_ok)
  with names_separate_bots [OF mn(1,3)] show ?thesis by auto
qed

text \<open>Two deployments can derive the same names. The namespace is a prefix and may itself contain the
  separator, so two different namespaces, both accepted, and two accepted ids can name one container.\<close>

theorem namespaces_can_collide:
  "namespace_of (Some ''a'') = Some ''a'' \<and> namespace_of (Some ''a-computer-b'') = Some ''a-computer-b''
   \<and> is_plain_bot_id ''b-computer-c'' \<and> is_plain_bot_id ''c''
   \<and> map_sum id cn_container (names_for ''a'' (JStr ''b-computer-c'')) =
       map_sum id cn_container (names_for ''a-computer-b'' (JStr ''c''))"
  by code_simp

section \<open>The token\<close>

text \<open>The constant-time comparison: lengths, then the characters' differences gathered by \<^verbatim>\<open>|=\<close>.\<close>

fun token_difference :: "nat \<Rightarrow> string \<Rightarrow> string \<Rightarrow> nat" where
  "token_difference acc (o1 # offered) (e1 # expected) =
     token_difference (or acc (xor (char_code o1) (char_code e1))) offered expected"
| "token_difference acc _ _ = acc"

definition matches_token :: "string \<Rightarrow> string \<Rightarrow> bool" where
  "matches_token expected offered =
     (if expected = [] then False
      else if length offered \<noteq> length expected then False
      else token_difference 0 offered expected = 0)"

text \<open>The request as the check reads it: its path, its \<^verbatim>\<open>token\<close> parameter and two headers.\<close>

record token_request =
  tr_path :: string
  tr_query_token :: "string option"
  tr_header_token :: "string option"
  tr_authorization :: "string option"

definition without_bearer :: "string \<Rightarrow> string" where
  "without_bearer s = (if js_lower (take 7 s) = ''bearer '' then drop 7 s else s)"

definition offered_token :: "token_request \<Rightarrow> string" where
  "offered_token r =
     (if tr_path r = ''/stream'' then (case tr_query_token r of None \<Rightarrow> [] | Some t \<Rightarrow> t)
      else if truthy (map_option js_trim (tr_header_token r)) then js_trim (the (tr_header_token r))
      else without_bearer (case tr_authorization r of None \<Rightarrow> [] | Some a \<Rightarrow> js_trim a))"

definition is_open_path :: "string \<Rightarrow> bool" where
  "is_open_path path = (path = ''/health'')"

lemma xor_nat_zero: "xor (a :: nat) b = 0 \<longleftrightarrow> a = b"
proof
  assume h: "xor a b = 0"
  have "a = xor (xor a b) b" by (simp add: xor.assoc)
  with h show "a = b" by simp
qed simp

lemma or_nat_zero: "or (a :: nat) b = 0 \<longleftrightarrow> a = 0 \<and> b = 0"
  by (metis or_eq_0_iff)

lemma token_difference_zero:
  "length offered = length expected \<Longrightarrow>
     token_difference acc offered expected = 0 \<longleftrightarrow> acc = 0 \<and> offered = expected"
  by (induction offered expected arbitrary: acc rule: list_induct2)
     (auto simp: xor_nat_zero or_nat_zero char_code_inj)

text \<open>The token check is equality with a secret that is set. A request may speak to the computer
  exactly when the deployment's secret is not empty and what the request offers is that secret; an
  empty offer is never accepted.\<close>

theorem token_check_is_equality:
  "(matches_token expected offered \<longleftrightarrow> expected \<noteq> [] \<and> offered = expected)
   \<and> \<not> matches_token expected []"
  by (auto simp: matches_token_def token_difference_zero)

end
