(* ===== verification/Slice.thy ===== *)
theory Slice
  imports Names Complex_Main
begin

text \<open>
  How much of a machine its computers may hold: \<^verbatim>\<open>supervisor/src/slice.ts\<close> and the admission of the
  supervisor's \<^verbatim>\<open>ensure\<close> and \<^verbatim>\<open>capacity\<close> routes in \<^verbatim>\<open>supervisor/src/index.ts\<close>. Cores are rational
  numbers and bytes integers: the arithmetic is exact where the code's is in double precision, and
  the tolerance of \<^verbatim>\<open>EPSILON\<close> is kept. \<^verbatim>\<open>Number\<close> of an environment variable is a parameter.
\<close>

section \<open>Budget and reservations\<close>

record slice_budget =
  sb_cpus :: "rat option"
  sb_memory :: "int option"

record reservation =
  rv_cpus :: rat
  rv_memory :: int

datatype dimension = Cpus | Memory

text \<open>\<^verbatim>\<open>SliceExhaustedError\<close>: the dimension that refused, what is free, the budget and what was wanted.\<close>

record slice_exhausted =
  sx_dimension :: dimension
  sx_free :: rat
  sx_budget :: rat
  sx_wanted :: rat
  sx_retry_after :: nat

definition counted_states :: "string list" where
  "counted_states = [''running'', ''created'', ''restarting'', ''paused'']"

definition counts_against_budget :: "string \<Rightarrow> bool" where
  "counts_against_budget status = (status \<in> set counted_states)"

definition used_by :: "reservation list \<Rightarrow> reservation" where
  "used_by rs =
     foldl (\<lambda>sum r. \<lparr>rv_cpus = rv_cpus sum + rv_cpus r, rv_memory = rv_memory sum + rv_memory r\<rparr>)
       \<lparr>rv_cpus = 0, rv_memory = 0\<rparr> rs"

definition epsilon :: rat where
  "epsilon = 1 / 1000000000"

definition admit :: "slice_budget \<Rightarrow> reservation list \<Rightarrow> reservation \<Rightarrow> slice_exhausted + unit" where
  "admit budget running requested =
     (let used = used_by running in
      case sb_cpus budget of
        Some c \<Rightarrow>
          if rv_cpus used + rv_cpus requested > c + epsilon
          then Inl \<lparr>sx_dimension = Cpus, sx_free = c - rv_cpus used, sx_budget = c,
                    sx_wanted = rv_cpus requested, sx_retry_after = 30\<rparr>
          else (case sb_memory budget of
                  Some m \<Rightarrow>
                    if rv_memory used + rv_memory requested > m
                    then Inl \<lparr>sx_dimension = Memory, sx_free = of_int (m - rv_memory used),
                              sx_budget = of_int m, sx_wanted = of_int (rv_memory requested),
                              sx_retry_after = 30\<rparr>
                    else Inr ()
                | None \<Rightarrow> Inr ())
      | None \<Rightarrow>
          (case sb_memory budget of
             Some m \<Rightarrow>
               if rv_memory used + rv_memory requested > m
               then Inl \<lparr>sx_dimension = Memory, sx_free = of_int (m - rv_memory used),
                         sx_budget = of_int m, sx_wanted = of_int (rv_memory requested),
                         sx_retry_after = 30\<rparr>
               else Inr ()
           | None \<Rightarrow> Inr ()))"

record slice_capacity =
  sc_budget :: slice_budget
  sc_used :: reservation
  sc_cpus :: "rat option"
  sc_memory :: "int option"
  sc_computers :: nat

definition capacity :: "slice_budget \<Rightarrow> reservation list \<Rightarrow> slice_capacity" where
  "capacity budget running =
     (let used = used_by running in
      \<lparr>sc_budget = budget, sc_used = used,
       sc_cpus = map_option (\<lambda>c. max 0 (c - rv_cpus used)) (sb_cpus budget),
       sc_memory = map_option (\<lambda>m. max 0 (m - rv_memory used)) (sb_memory budget),
       sc_computers = length running\<rparr>)"

text \<open>A dimension from the environment: absent is unlimited, and what is not a positive finite number
  stops the process. \<^verbatim>\<open>Number\<close> gives nothing for what is not finite.\<close>

definition parse_dimension :: "(string \<Rightarrow> rat option) \<Rightarrow> string \<Rightarrow> string option \<Rightarrow> string + rat option" where
  "parse_dimension number name raw =
     (let trimmed = map_option js_trim raw in
      if \<not> truthy trimmed then Inr None
      else case number (the trimmed) of
          None \<Rightarrow> Inl (name @ '' must be a positive number'')
        | Some v \<Rightarrow> if v \<le> 0 then Inl (name @ '' must be a positive number'') else Inr (Some v))"

definition budget_from_environment ::
  "(string \<Rightarrow> rat option) \<Rightarrow> (rat \<Rightarrow> int) \<Rightarrow> (string \<Rightarrow> string option) \<Rightarrow> string + slice_budget" where
  "budget_from_environment number bytes environment =
     (case parse_dimension number ''SLICE_CPUS'' (environment ''SLICE_CPUS'') of
        Inl e \<Rightarrow> Inl e
      | Inr c \<Rightarrow>
          (case parse_dimension number ''SLICE_MEMORY_BYTES'' (environment ''SLICE_MEMORY_BYTES'') of
             Inl e \<Rightarrow> Inl e
           | Inr m \<Rightarrow> Inr \<lparr>sb_cpus = c, sb_memory = map_option bytes m\<rparr>))"

text \<open>What one computer reserves: one core and two gibibytes where the environment says nothing.\<close>

definition named_amount :: "(string \<Rightarrow> string option) \<Rightarrow> string \<Rightarrow> string \<Rightarrow> string" where
  "named_amount environment name otherwise =
     (let trimmed = map_option js_trim (environment name) in if truthy trimmed then the trimmed else otherwise)"

definition reservation_from_environment ::
  "(string \<Rightarrow> rat option) \<Rightarrow> (rat \<Rightarrow> int) \<Rightarrow> (string \<Rightarrow> string option) \<Rightarrow> string + reservation" where
  "reservation_from_environment number bytes environment =
     (let cpus = number (named_amount environment ''COMPUTER_CPUS'' ''1'');
          memory = number (named_amount environment ''COMPUTER_MEMORY_BYTES'' ''2147483648'') in
      case cpus of
        None \<Rightarrow> Inl ''COMPUTER_CPUS must be a positive number.''
      | Some c \<Rightarrow>
          if c \<le> 0 then Inl ''COMPUTER_CPUS must be a positive number.''
          else (case memory of
              None \<Rightarrow> Inl ''COMPUTER_MEMORY_BYTES must be a positive number of bytes.''
            | Some m \<Rightarrow>
                if m \<le> 0 then Inl ''COMPUTER_MEMORY_BYTES must be a positive number of bytes.''
                else Inr \<lparr>rv_cpus = c, rv_memory = bytes m\<rparr>))"

section \<open>Admission\<close>

text \<open>What a listing says of a computer, and whether it runs the image the supervisor now uses.\<close>

record computer_state =
  cp_bot :: string
  cp_status :: string
  cp_current :: bool
  cp_reservation :: "reservation option"

definition reserved :: "reservation \<Rightarrow> computer_state \<Rightarrow> reservation" where
  "reserved per c = (case cp_reservation c of None \<Rightarrow> per | Some r \<Rightarrow> r)"

definition counted :: "computer_state list \<Rightarrow> computer_state list" where
  "counted owned = filter (\<lambda>c. counts_against_budget (cp_status c)) owned"

definition holds_computer :: "string \<Rightarrow> computer_state list \<Rightarrow> bool" where
  "holds_computer bot_id owned =
     list_ex (\<lambda>c. cp_bot c = bot_id \<and> counts_against_budget (cp_status c)) owned"

text \<open>The check \<^verbatim>\<open>ensure\<close> makes against a listing before anything is created.\<close>

definition ensure_admission ::
  "slice_budget \<Rightarrow> reservation \<Rightarrow> string \<Rightarrow> computer_state list \<Rightarrow> slice_exhausted + unit" where
  "ensure_admission budget per bot_id owned =
     (if holds_computer bot_id owned then Inr ()
      else admit budget (map (reserved per) (counted owned)) per)"

text \<open>What the backend's \<^verbatim>\<open>ensure\<close> then leaves in a listing when every call succeeds: a computer on the
  current image is started as it is, with the reservation it was created with; one on another image
  is replaced, and a missing one made, with the current reservation.\<close>

definition started :: "reservation \<Rightarrow> string \<Rightarrow> computer_state list \<Rightarrow> computer_state list" where
  "started per bot_id owned =
     (if list_ex (\<lambda>c. cp_bot c = bot_id \<and> cp_current c) owned
      then map (\<lambda>c. if cp_bot c = bot_id then c\<lparr>cp_status := ''running''\<rparr> else c) owned
      else filter (\<lambda>c. cp_bot c \<noteq> bot_id) owned @
        [\<lparr>cp_bot = bot_id, cp_status = ''running'', cp_current = True, cp_reservation = Some per\<rparr>])"

text \<open>What \<^verbatim>\<open>stop\<close> and \<^verbatim>\<open>reset\<close> leave there: a computer that was never started stays \<^verbatim>\<open>created\<close>.\<close>

definition stopped :: "string \<Rightarrow> computer_state list \<Rightarrow> computer_state list" where
  "stopped bot_id owned =
     map (\<lambda>c. if cp_bot c = bot_id \<and> cp_status c \<in> {''running'', ''restarting'', ''paused''}
              then c\<lparr>cp_status := ''exited''\<rparr> else c) owned"

definition reset :: "string \<Rightarrow> computer_state list \<Rightarrow> computer_state list" where
  "reset bot_id owned = filter (\<lambda>c. cp_bot c \<noteq> bot_id) owned"

text \<open>\<^verbatim>\<open>reportCapacity\<close>.\<close>

definition report_capacity :: "slice_budget \<Rightarrow> reservation \<Rightarrow> computer_state list \<Rightarrow> slice_capacity" where
  "report_capacity budget per owned = capacity budget (map (reserved per) (counted owned))"

lemma used_by_sum:
  "used_by rs = \<lparr>rv_cpus = sum_list (map rv_cpus rs), rv_memory = sum_list (map rv_memory rs)\<rparr>"
proof -
  have "foldl (\<lambda>sum r. \<lparr>rv_cpus = rv_cpus sum + rv_cpus r, rv_memory = rv_memory sum + rv_memory r\<rparr>) z rs =
      \<lparr>rv_cpus = rv_cpus z + sum_list (map rv_cpus rs), rv_memory = rv_memory z + sum_list (map rv_memory rs)\<rparr>" for z
    by (induction rs arbitrary: z) (auto simp: add.assoc)
  then show ?thesis by (simp add: used_by_def)
qed

definition fits :: "slice_budget \<Rightarrow> reservation list \<Rightarrow> bool" where
  "fits budget rs =
     ((case sb_cpus budget of None \<Rightarrow> True | Some c \<Rightarrow> sum_list (map rv_cpus rs) \<le> c + epsilon) \<and>
      (case sb_memory budget of None \<Rightarrow> True | Some m \<Rightarrow> sum_list (map rv_memory rs) \<le> m))"

text \<open>Admission is exactly the budget. A computer is admitted if and only if its reservation, together
  with those that count, stays inside the budget, the cores to a tolerance of one billionth; a
  dimension without a budget never refuses; and what is refused names a dimension that was exceeded.\<close>

theorem admit_iff_fits:
  "(admit budget running requested = Inr () \<longleftrightarrow> fits budget (running @ [requested]))
   \<and> (case admit budget running requested of
        Inr _ \<Rightarrow> True
      | Inl e \<Rightarrow> sx_free e < sx_wanted e
               \<and> (sx_dimension e = Cpus \<and> sb_cpus budget = Some (sx_budget e)
                  \<or> sx_dimension e = Memory \<and> map_option of_int (sb_memory budget) = Some (sx_budget e)))"
  by (auto simp: admit_def fits_def used_by_sum Let_def epsilon_def split: option.split)

datatype supervisor_op = Ensure_computer string | Stop_computer string | Reset_computer string

text \<open>A request handled before the next one is looked at; a refused one changes nothing.\<close>

fun supervise :: "slice_budget \<Rightarrow> reservation \<Rightarrow> supervisor_op \<Rightarrow> computer_state list \<Rightarrow> computer_state list" where
  "supervise budget per (Ensure_computer b) owned =
     (case ensure_admission budget per b owned of Inl _ \<Rightarrow> owned | Inr _ \<Rightarrow> started per b owned)"
| "supervise budget per (Stop_computer b) owned = stopped b owned"
| "supervise budget per (Reset_computer b) owned = reset b owned"

text \<open>One computer per Bot, each with the reservation computers now get.\<close>

definition uniform :: "reservation \<Rightarrow> computer_state list \<Rightarrow> bool" where
  "uniform per owned =
     (distinct (map cp_bot owned) \<and> list_all (\<lambda>c. reserved per c = per) owned)"

definition reservations :: "reservation \<Rightarrow> computer_state list \<Rightarrow> reservation list" where
  "reservations per owned = map (reserved per) (counted owned)"

lemma uniform_reservations: "uniform per owned \<Longrightarrow> reservations per owned = replicate (length (counted owned)) per"
  by (induction owned) (auto simp: uniform_def reservations_def counted_def)

lemma fits_replicate:
  "0 \<le> rv_cpus per \<Longrightarrow> 0 \<le> rv_memory per \<Longrightarrow> fits budget (replicate n per) \<Longrightarrow> m \<le> n \<Longrightarrow>
     fits budget (replicate m per)"
proof -
  assume a: "0 \<le> rv_cpus per" "0 \<le> rv_memory per" "fits budget (replicate n per)" "m \<le> n"
  have "of_nat m * rv_cpus per \<le> of_nat n * rv_cpus per" "int m * rv_memory per \<le> int n * rv_memory per"
    using a(1,2,4) by (simp_all add: mult_right_mono)
  with a(3) show ?thesis
    by (auto simp: fits_def sum_list_replicate split: option.splits)
qed

lemma held_in: "holds_computer b owned \<Longrightarrow> b \<in> set (map cp_bot owned)"
  by (auto simp: holds_computer_def list_ex_iff)

lemma counted_running:
  assumes "distinct (map cp_bot owned)"
  shows "length (counted (map (\<lambda>c. if cp_bot c = b then c\<lparr>cp_status := ''running''\<rparr> else c) owned)) \<le>
      (if holds_computer b owned then 0 else 1) + length (counted owned)"
  using assms
proof (induction owned)
  case (Cons c cs)
  have run: "counts_against_budget ''running''" by code_simp
  show ?case
  proof (cases "cp_bot c = b")
    case True
    with Cons.prems have out: "b \<notin> set (map cp_bot cs)" by auto
    then have "map (\<lambda>c. if cp_bot c = b then c\<lparr>cp_status := ''running''\<rparr> else c) cs = cs"
      by (intro map_idI) auto
    with True out held_in [of b cs] run show ?thesis by (auto simp: counted_def holds_computer_def)
  next
    case False
    with Cons show ?thesis by (auto simp: counted_def holds_computer_def split: if_splits)
  qed
qed (simp add: counted_def)

lemma counted_removed:
  "Suc (length (counted (filter (\<lambda>c. cp_bot c \<noteq> b) owned))) \<le>
     (if holds_computer b owned then 0 else 1) + length (counted owned)"
proof (induction owned)
  case (Cons c cs)
  have "length (counted (filter (\<lambda>c. cp_bot c \<noteq> b) cs)) \<le> length (counted cs)"
    by (induction cs) (auto simp: counted_def)
  with Cons show ?case by (auto simp: counted_def holds_computer_def split: if_splits)
qed (simp add: counted_def holds_computer_def)

lemma counted_started:
  assumes "distinct (map cp_bot owned)"
  shows "length (counted (started per b owned)) \<le> (if holds_computer b owned then 0 else 1) + length (counted owned)"
proof (cases "list_ex (\<lambda>c. cp_bot c = b \<and> cp_current c) owned")
  case False
  have "counts_against_budget ''running''" by code_simp
  with False counted_removed [of b owned] show ?thesis by (simp add: started_def counted_def)
qed (use counted_running [OF assms] in \<open>simp add: started_def\<close>)

lemma uniform_ops:
  assumes "uniform per owned"
  shows "uniform per (started per b owned)" "uniform per (stopped b owned)" "uniform per (reset b owned)"
proof -
  have bots: "map cp_bot (map (\<lambda>c. if cp_bot c = b then c\<lparr>cp_status := s\<rparr> else c) owned) = map cp_bot owned" for s
    by (induction owned) auto
  have "list_all (\<lambda>c. reserved per c = per) owned" using assms by (simp add: uniform_def)
  then have all: "list_all (\<lambda>c. reserved per c = per) (map (\<lambda>c. if cp_bot c = b then c\<lparr>cp_status := s\<rparr> else c) owned)" for s
    by (induction owned) (auto simp: reserved_def)
  have move: "uniform per (map (\<lambda>c. if cp_bot c = b then c\<lparr>cp_status := s\<rparr> else c) owned)" for s
    using assms all unfolding uniform_def bots by blast
  show drop: "uniform per (reset b owned)"
    using assms by (auto simp: uniform_def reset_def list_all_iff distinct_map intro: inj_on_subset)
  have same: "map cp_bot (stopped b owned) = map cp_bot owned" by (simp add: stopped_def)
  have "list_all (\<lambda>c. reserved per c = per) (stopped b owned)"
    using assms by (auto simp: uniform_def stopped_def list_all_iff reserved_def)
  with same assms show "uniform per (stopped b owned)" by (simp add: uniform_def)
  have "uniform per (reset b owned @ [c])" if "cp_bot c = b" "cp_reservation c = Some per" for c
    using drop that by (auto simp: uniform_def reset_def reserved_def)
  with move show "uniform per (started per b owned)" by (simp add: started_def reset_def)
qed

lemma counted_fewer:
  "length (counted (stopped b owned)) \<le> length (counted owned)"
  "length (counted (reset b owned)) \<le> length (counted owned)"
proof -
  have "\<not> counts_against_budget ''exited''" by code_simp
  then show "length (counted (stopped b owned)) \<le> length (counted owned)"
    by (induction owned) (auto simp: counted_def stopped_def)
  show "length (counted (reset b owned)) \<le> length (counted owned)"
    by (induction owned) (auto simp: counted_def reset_def)
qed

lemma supervise_fits:
  assumes "0 \<le> rv_cpus per" "0 \<le> rv_memory per" "uniform per owned" "fits budget (reservations per owned)"
  shows "uniform per (supervise budget per op owned) \<and> fits budget (reservations per (supervise budget per op owned))"
proof (cases op)
  case (Ensure_computer b)
  show ?thesis
  proof (cases "ensure_admission budget per b owned")
    case (Inr u)
    let ?n = "(if holds_computer b owned then 0 else 1) + length (counted owned)"
    have "fits budget (replicate ?n per)"
    proof (cases "holds_computer b owned")
      case True
      with assms(3,4) show ?thesis by (simp add: uniform_reservations)
    next
      case False
      with Inr have "admit budget (reservations per owned) per = Inr ()"
        by (simp add: ensure_admission_def reservations_def)
      then have "fits budget (reservations per owned @ [per])"
        by (auto simp: admit_def fits_def used_by_sum Let_def split: option.splits if_splits)
      with False assms(3) show ?thesis by (simp add: uniform_reservations replicate_append_same)
    qed
    moreover have "length (counted (started per b owned)) \<le> ?n"
      using assms(3) by (intro counted_started) (simp add: uniform_def)
    ultimately show ?thesis
      using Ensure_computer Inr uniform_ops(1) [OF assms(3)] fits_replicate [OF assms(1,2)]
      by (simp add: uniform_reservations)
  qed (use Ensure_computer assms in simp)
next
  case (Stop_computer b)
  with assms uniform_ops(2) [OF assms(3)] fits_replicate [OF assms(1,2) _ counted_fewer(1)]
  show ?thesis by (simp add: uniform_reservations)
next
  case (Reset_computer b)
  with assms uniform_ops(3) [OF assms(3)] fits_replicate [OF assms(1,2) _ counted_fewer(2)]
  show ?thesis by (simp add: uniform_reservations)
qed

text \<open>C36: one request at a time, the slice is never overdrawn. While every computer has the reservation
  computers now get, any sequence of ensures, stops and resets that is handled one after another keeps
  the sum of the reservations that count inside the budget.\<close>

theorem slice_never_overdrawn:
  assumes "0 \<le> rv_cpus per" "0 \<le> rv_memory per" "uniform per owned" "fits budget (reservations per owned)"
  shows "fits budget (reservations per (fold (supervise budget per) ops owned))"
proof -
  have "uniform per (fold (supervise budget per) ops owned)
      \<and> fits budget (reservations per (fold (supervise budget per) ops owned))"
    using assms(3,4)
    by (induction ops arbitrary: owned) (use supervise_fits [OF assms(1,2)] in auto)
  then show ?thesis ..
qed

definition one_core :: reservation where
  "one_core = \<lparr>rv_cpus = 1, rv_memory = 2\<rparr>"

definition two_cores :: slice_budget where
  "two_cores = \<lparr>sb_cpus = Some 2, sb_memory = Some 4\<rparr>"

theorem slice_never_overdrawn_witness:
  "fits two_cores (reservations one_core (fold (supervise two_cores one_core)
     [Ensure_computer ''a'', Ensure_computer ''b'', Ensure_computer ''c'', Stop_computer ''a''] []))"
  by (rule slice_never_overdrawn)
    (simp_all add: one_core_def two_cores_def uniform_def fits_def reservations_def counted_def epsilon_def)

section \<open>Requests that interleave\<close>

text \<open>The route awaits between reading the listing and creating the computer, so requests interleave
  there. A request looks, and if it was admitted it is in the second component until it starts.\<close>

datatype ensure_step = Looks string | Starts string

fun interleave ::
  "slice_budget \<Rightarrow> reservation \<Rightarrow> ensure_step \<Rightarrow> computer_state list \<times> string list \<Rightarrow> computer_state list \<times> string list" where
  "interleave budget per (Looks b) (owned, admitted) =
     (case ensure_admission budget per b owned of Inl _ \<Rightarrow> (owned, admitted) | Inr _ \<Rightarrow> (owned, b # admitted))"
| "interleave budget per (Starts b) (owned, admitted) =
     (if b \<in> set admitted then (started per b owned, remove1 b admitted) else (owned, admitted))"

definition one_machine :: slice_budget where
  "one_machine = \<lparr>sb_cpus = Some 1, sb_memory = Some 2\<rparr>"

text \<open>Two ensures in flight overdraw the slice. On a machine with room for one computer, two Bots that
  both look before either is started are both admitted and both started, and what is then reserved is
  over the budget; handled one after the other the second is refused.\<close>

theorem concurrent_ensures_overdraw:
  "(let raced = fst (fold (interleave one_machine one_core)
                      [Looks ''a'', Looks ''b'', Starts ''a'', Starts ''b''] ([], []));
        serial = fst (fold (interleave one_machine one_core)
                      [Looks ''a'', Starts ''a'', Looks ''b'', Starts ''b''] ([], [])) in
    map cp_bot (counted raced) = [''a'', ''b''] \<and> \<not> fits one_machine (reservations one_core raced)
    \<and> map cp_bot (counted serial) = [''a''] \<and> fits one_machine (reservations one_core serial))"
  by code_simp

text \<open>Restarting a computer charges the wrong reservation. A stopped computer made when computers
  reserved two cores is admitted as though it took the one core computers take now, is started with its
  own two, and the slice is overdrawn with no other request in flight.\<close>

theorem restart_overdraws:
  "(let old = \<lparr>cp_bot = ''a'', cp_status = ''exited'', cp_current = True,
               cp_reservation = Some \<lparr>rv_cpus = 2, rv_memory = 2\<rparr>\<rparr>;
        restarted = supervise one_machine one_core (Ensure_computer ''a'') [old] in
    fits one_machine (reservations one_core [old])
    \<and> ensure_admission one_machine one_core ''a'' [old] = Inr ()
    \<and> rv_cpus (sc_used (report_capacity one_machine one_core restarted)) = 2
    \<and> \<not> fits one_machine (reservations one_core restarted))"
  by code_simp

end
