(* ===== verification/Profiles.thy ===== *)
theory Profiles
  imports Names "HOL-Library.AList" "HOL-Library.Multiset" "HOL-Library.List_Lexorder" "HOL-Library.Char_ord"
begin

text \<open>
  The browsers of a computer: \<^verbatim>\<open>agent-computer/src/browser-eviction.ts\<close> and the pool of
  \<^verbatim>\<open>agent-computer/src/profiles.ts\<close>. A method that awaits is split where it waits, so that calls
  interleave there as they do in the event loop; the events below are what the loop can deliver. The
  browser itself is reduced to whether it is alive. A JavaScript \<^verbatim>\<open>Map\<close> is an association list in the
  order of insertion.
\<close>

section \<open>Which browsers to close\<close>

definition choose_evictions :: "(string \<times> int) list \<Rightarrow> nat \<Rightarrow> string list" where
  "choose_evictions running limit =
     (if length running \<le> limit then []
      else map fst (take (length running - limit) (sort_key snd running)))"

definition choose_idle :: "(string \<times> int) list \<Rightarrow> int \<Rightarrow> int \<Rightarrow> string list" where
  "choose_idle running idle_timeout_ms now =
     (if idle_timeout_ms \<le> 0 then []
      else map fst (filter (\<lambda>e. snd e \<le> now - idle_timeout_ms) running))"

lemma length_choose_evictions: "length (choose_evictions running limit) = length running - limit"
  by (simp add: choose_evictions_def)

lemma choose_evictions_subset: "set (choose_evictions running limit) \<subseteq> set (map fst running)"
  by (auto simp: choose_evictions_def dest!: in_set_takeD)

lemma distinct_choose_evictions: "distinct (map fst running) \<Longrightarrow> distinct (choose_evictions running limit)"
proof -
  assume "distinct (map fst running)"
  moreover have "mset (map fst (sort_key snd running)) = mset (map fst running)" by simp
  ultimately have "distinct (map fst (sort_key snd running))" by (metis mset_eq_imp_distinct_iff)
  then show ?thesis by (simp add: choose_evictions_def take_map [symmetric])
qed

section \<open>The pool\<close>

record live_browser =
  lb_started :: int
  lb_used :: int
  lb_usable :: bool

text \<open>
  The state of \<^verbatim>\<open>createProfiles\<close>: the two maps, the calls that wait for a dead browser to close, the
  launches in flight, and each loop over browsers to close that waits for one of them, with what it has
  left to do and, for the loop of a launch, the Bot it belongs to.
\<close>

record pool =
  pl_live :: "(string \<times> live_browser) list"
  pl_starting :: "string list"
  pl_closing :: "string list"
  pl_launches :: "string list"
  pl_loops :: "(string option \<times> string list) list"

definition new_pool :: pool where
  "new_pool = \<lparr>pl_live = [], pl_starting = [], pl_closing = [], pl_launches = [], pl_loops = []\<rparr>"

definition use_times :: "pool \<Rightarrow> (string \<times> int) list" where
  "use_times p = map (\<lambda>(b, l). (b, lb_used l)) (pl_live p)"

text \<open>
  \<^verbatim>\<open>for (const botId of chosen) await evict(botId)\<close> up to its next wait: a Bot whose browser is gone is
  passed over, the first one that is live is forgotten and waited for.
\<close>

fun evict_next :: "string list \<Rightarrow> (string \<times> live_browser) list \<Rightarrow> (string \<times> live_browser) list \<times> string list option" where
  "evict_next [] live = (live, None)"
| "evict_next (b # bs) live =
     (if map_of live b = None then evict_next bs live else (AList.delete b live, Some bs))"

definition evict_loop :: "string option \<Rightarrow> string list \<Rightarrow> pool \<Rightarrow> pool" where
  "evict_loop owner chosen p =
     (case evict_next chosen (pl_live p) of
        (live, None) \<Rightarrow>
          p\<lparr>pl_live := live,
            pl_starting := (case owner of None \<Rightarrow> pl_starting p | Some b \<Rightarrow> filter (\<lambda>x. x \<noteq> b) (pl_starting p))\<rparr>
      | (live, Some rest) \<Rightarrow> p\<lparr>pl_live := live, pl_loops := pl_loops p @ [(owner, rest)]\<rparr>)"

text \<open>\<^verbatim>\<open>enforceCap\<close> and \<^verbatim>\<open>sweepIdle\<close>.\<close>

definition enforce_cap :: "nat \<Rightarrow> string \<Rightarrow> pool \<Rightarrow> pool" where
  "enforce_cap limit bot_id p = evict_loop (Some bot_id) (choose_evictions (use_times p) limit) p"

definition sweep_idle :: "int \<Rightarrow> int \<Rightarrow> pool \<Rightarrow> pool" where
  "sweep_idle idle_timeout_ms now p = evict_loop None (choose_idle (use_times p) idle_timeout_ms now) p"

definition begin_launch :: "string \<Rightarrow> pool \<Rightarrow> pool" where
  "begin_launch bot_id p =
     p\<lparr>pl_starting := List.insert bot_id (pl_starting p), pl_launches := bot_id # pl_launches p\<rparr>"

text \<open>\<^verbatim>\<open>page\<close> up to its first wait. A launch in flight is joined; a usable browser is touched; a browser
  that died is closed first, and what follows happens when that is done.\<close>

definition page_asked :: "int \<Rightarrow> string \<Rightarrow> pool \<Rightarrow> pool" where
  "page_asked now bot_id p =
     (if bot_id \<in> set (pl_starting p) then p
      else case map_of (pl_live p) bot_id of
          Some l \<Rightarrow>
            if lb_usable l then p\<lparr>pl_live := AList.update bot_id (l\<lparr>lb_used := now\<rparr>) (pl_live p)\<rparr>
            else p\<lparr>pl_closing := bot_id # pl_closing p\<rparr>
        | None \<Rightarrow> begin_launch bot_id p)"

definition half_dead_closed :: "string \<Rightarrow> pool \<Rightarrow> pool" where
  "half_dead_closed bot_id p =
     (if bot_id \<in> set (pl_closing p)
      then begin_launch bot_id
             (p\<lparr>pl_closing := remove1 bot_id (pl_closing p), pl_live := AList.delete bot_id (pl_live p)\<rparr>)
      else p)"

definition launched :: "nat \<Rightarrow> int \<Rightarrow> string \<Rightarrow> pool \<Rightarrow> pool" where
  "launched limit now bot_id p =
     (if bot_id \<in> set (pl_launches p)
      then enforce_cap limit bot_id
             (p\<lparr>pl_launches := remove1 bot_id (pl_launches p),
               pl_live := AList.update bot_id \<lparr>lb_started = now, lb_used = now, lb_usable = True\<rparr> (pl_live p)\<rparr>)
      else p)"

definition launch_failed :: "string \<Rightarrow> pool \<Rightarrow> pool" where
  "launch_failed bot_id p =
     (if bot_id \<in> set (pl_launches p)
      then p\<lparr>pl_launches := remove1 bot_id (pl_launches p),
             pl_starting := filter (\<lambda>x. x \<noteq> bot_id) (pl_starting p)\<rparr>
      else p)"

text \<open>A loop goes on when the browser it waits for has closed.\<close>

definition eviction_settled :: "nat \<Rightarrow> pool \<Rightarrow> pool" where
  "eviction_settled n p =
     (if n < length (pl_loops p)
      then evict_loop (fst (pl_loops p ! n)) (snd (pl_loops p ! n))
             (p\<lparr>pl_loops := take n (pl_loops p) @ drop (Suc n) (pl_loops p)\<rparr>)
      else p)"

definition stop_browser :: "string \<Rightarrow> pool \<Rightarrow> pool \<times> bool" where
  "stop_browser bot_id p =
     (if map_of (pl_live p) bot_id = None then (p, False)
      else (p\<lparr>pl_live := AList.delete bot_id (pl_live p)\<rparr>, True))"

definition close_all :: "pool \<Rightarrow> pool" where
  "close_all p = p\<lparr>pl_live := []\<rparr>"

definition browser_died :: "string \<Rightarrow> pool \<Rightarrow> pool" where
  "browser_died bot_id p =
     (case map_of (pl_live p) bot_id of
        None \<Rightarrow> p
      | Some l \<Rightarrow> p\<lparr>pl_live := AList.update bot_id (l\<lparr>lb_usable := False\<rparr>) (pl_live p)\<rparr>)"

text \<open>\<^verbatim>\<open>summary\<close> and \<^verbatim>\<open>known\<close>: what the admin surface lists. The proxy label of a Bot is an argument.\<close>

record profile_summary =
  ps_bot :: string
  ps_running :: bool
  ps_started :: "int option"
  ps_egress :: "string option"

definition known_bots :: "string list \<Rightarrow> pool \<Rightarrow> string list" where
  "known_bots bot_ids p = sort (remdups (bot_ids @ map fst (pl_live p)))"

definition summary :: "(string \<Rightarrow> string option) \<Rightarrow> string list \<Rightarrow> pool \<Rightarrow> profile_summary list" where
  "summary label bot_ids p =
     map (\<lambda>b. \<lparr>ps_bot = b, ps_running = (map_of (pl_live p) b \<noteq> None),
                ps_started = map_option lb_started (map_of (pl_live p) b), ps_egress = label b\<rparr>)
       (known_bots bot_ids p)"

definition live_count :: "pool \<Rightarrow> nat" where
  "live_count p = length (pl_live p)"

definition is_live :: "string \<Rightarrow> pool \<Rightarrow> bool" where
  "is_live b p = (map_of (pl_live p) b \<noteq> None)"

text \<open>A number an operator set, or the default. \<^verbatim>\<open>Number\<close> gives nothing for what is not finite.\<close>

definition number_from_env :: "(string \<Rightarrow> int option) \<Rightarrow> string option \<Rightarrow> int \<Rightarrow> int" where
  "number_from_env number raw fallback =
     (let trimmed = map_option js_trim raw in
      if \<not> truthy trimmed then fallback
      else case number (the trimmed) of None \<Rightarrow> fallback | Some v \<Rightarrow> if 0 < v then v else fallback)"

definition max_live_browsers :: "(string \<Rightarrow> int option) \<Rightarrow> string option \<Rightarrow> int" where
  "max_live_browsers number raw = number_from_env number raw 8"

definition idle_timeout :: "(string \<Rightarrow> int option) \<Rightarrow> string option \<Rightarrow> int" where
  "idle_timeout number raw = number_from_env number raw (30 * 60000)"

datatype pool_event =
    Page_asked string
  | Half_dead_closed string
  | Launched string
  | Launch_failed string
  | Eviction_settled nat
  | Idle_swept
  | Stop_asked string
  | Browser_died string
  | Shut_down

fun pool_step :: "nat \<Rightarrow> int \<Rightarrow> int \<times> pool_event \<Rightarrow> pool \<Rightarrow> pool" where
  "pool_step limit idle (now, Page_asked b) p = page_asked now b p"
| "pool_step limit idle (now, Half_dead_closed b) p = half_dead_closed b p"
| "pool_step limit idle (now, Launched b) p = launched limit now b p"
| "pool_step limit idle (now, Launch_failed b) p = launch_failed b p"
| "pool_step limit idle (now, Eviction_settled n) p = eviction_settled n p"
| "pool_step limit idle (now, Idle_swept) p = sweep_idle idle now p"
| "pool_step limit idle (now, Stop_asked b) p = fst (stop_browser b p)"
| "pool_step limit idle (now, Browser_died b) p = browser_died b p"
| "pool_step limit idle (now, Shut_down) p = close_all p"

definition pool_run :: "nat \<Rightarrow> int \<Rightarrow> (int \<times> pool_event) list \<Rightarrow> pool" where
  "pool_run limit idle events = fold (pool_step limit idle) events new_pool"

lemma pool_run_snoc: "pool_run limit idle (events @ [e]) = pool_step limit idle e (pool_run limit idle events)"
  by (simp add: pool_run_def)

section \<open>The cap\<close>

text \<open>The Bots a loop has still to close.\<close>

definition doomed :: "pool \<Rightarrow> string set" where
  "doomed p = set (concat (map snd (pl_loops p)))"

definition kept :: "string set \<Rightarrow> (string \<times> live_browser) list \<Rightarrow> nat" where
  "kept Q live = length (filter (\<lambda>b. b \<notin> Q) (map fst live))"

definition cap_inv :: "nat \<Rightarrow> pool \<Rightarrow> bool" where
  "cap_inv limit p \<longleftrightarrow> distinct (map fst (pl_live p)) \<and> kept (doomed p) (pl_live p) \<le> limit"

lemma keys_delete: "map fst (AList.delete b live) = filter (\<lambda>x. x \<noteq> b) (map fst live)"
  by (induction live) auto

lemma kept_delete: "kept Q (AList.delete b live) = kept (insert b Q) live"
  unfolding kept_def keys_delete filter_filter by (intro arg_cong [where f = length] filter_cong) auto

lemma kept_absent: "b \<notin> set (map fst live) \<Longrightarrow> kept (insert b Q) live = kept Q live"
  unfolding kept_def by (intro arg_cong [where f = length] filter_cong) auto

lemma kept_mono: "Q \<subseteq> Q' \<Longrightarrow> kept Q' live \<le> kept Q live"
  unfolding kept_def by (induction live) auto

lemma kept_keys: "map fst live = map fst live' \<Longrightarrow> kept Q live = kept Q live'"
  by (simp add: kept_def)

lemma evict_next_kept:
  assumes "evict_next bs live = (live', r)" "distinct (map fst live)"
  shows "kept (Q \<union> set (case r of None \<Rightarrow> [] | Some rest \<Rightarrow> rest)) live' = kept (Q \<union> set bs) live
       \<and> distinct (map fst live')"
  using assms(1)
proof (induction bs)
  case Nil
  then show ?case using assms(2) by auto
next
  case (Cons b bs)
  show ?case
  proof (cases "map_of live b")
    case None
    then have "b \<notin> set (map fst live)" by (simp add: map_of_eq_None_iff)
    with Cons None show ?thesis by (simp add: kept_absent)
  next
    case (Some l)
    with Cons.prems have r: "live' = AList.delete b live" "r = Some bs" by simp_all
    show ?thesis using assms(2) by (simp add: r kept_delete keys_delete)
  qed
qed

lemma evict_loop_cap:
  assumes "distinct (map fst (pl_live p))" "kept (doomed p \<union> set chosen) (pl_live p) \<le> limit"
  shows "cap_inv limit (evict_loop owner chosen p)"
proof (cases "evict_next chosen (pl_live p)")
  case (Pair live r)
  from evict_next_kept [OF Pair assms(1), of "doomed p"] assms(2) show ?thesis
    by (cases r) (simp_all add: cap_inv_def evict_loop_def Pair doomed_def)
qed

lemma launch_cap:
  assumes "distinct (map fst (pl_live p))"
  shows "cap_inv limit (enforce_cap limit b p)"
  unfolding enforce_cap_def
proof (rule evict_loop_cap [OF assms])
  let ?chosen = "choose_evictions (use_times p) limit"
  have keys: "map fst (use_times p) = map fst (pl_live p)" by (simp add: use_times_def o_def case_prod_beta)
  then have d: "distinct ?chosen" using assms distinct_choose_evictions [of "use_times p" limit] by simp
  have sub: "set ?chosen \<subseteq> set (map fst (pl_live p))" using choose_evictions_subset keys by metis
  have "kept (set ?chosen) (pl_live p) = card (set (map fst (pl_live p)) - set ?chosen)"
    unfolding kept_def using assms
    by (metis distinct_card distinct_filter set_diff_eq set_filter)
  also have "\<dots> = length (pl_live p) - (length (pl_live p) - limit)"
  proof -
    have "card (set (map fst (pl_live p))) = length (pl_live p)" using distinct_card [OF assms] by simp
    moreover have "card (set ?chosen) = length (pl_live p) - limit"
      using distinct_card [OF d] length_choose_evictions [of "use_times p" limit] by (simp add: use_times_def)
    ultimately show ?thesis using sub by (simp only: card_Diff_subset finite_set)
  qed
  finally have "kept (set ?chosen) (pl_live p) \<le> limit" by simp
  moreover have "kept (doomed p \<union> set ?chosen) (pl_live p) \<le> kept (set ?chosen) (pl_live p)"
    by (rule kept_mono) simp
  ultimately show "kept (doomed p \<union> set ?chosen) (pl_live p) \<le> limit" by simp
qed

lemma doomed_settled:
  "n < length (pl_loops p) \<Longrightarrow>
     doomed (p\<lparr>pl_loops := take n (pl_loops p) @ drop (Suc n) (pl_loops p)\<rparr>) \<union> set (snd (pl_loops p ! n)) = doomed p"
  unfolding doomed_def
  by (subst (3) id_take_nth_drop [of n "pl_loops p"]) auto

lemma update_keys_live: "map_of live b = Some l \<Longrightarrow> map fst (AList.update b x live) = map fst live"
  by (induction live) auto

lemma cap_inv_keys:
  "cap_inv limit p \<Longrightarrow> map fst (pl_live p') = map fst (pl_live p) \<Longrightarrow> pl_loops p' = pl_loops p \<Longrightarrow> cap_inv limit p'"
  unfolding cap_inv_def doomed_def by (metis kept_keys)

lemma cap_inv_update:
  "cap_inv limit p \<Longrightarrow> map_of (pl_live p) b = Some l \<Longrightarrow>
     cap_inv limit (p\<lparr>pl_live := AList.update b x (pl_live p)\<rparr>)"
  by (rule cap_inv_keys) (simp_all add: update_keys_live)

lemma cap_inv_delete:
  "cap_inv limit p \<Longrightarrow> pl_live p' = AList.delete b (pl_live p) \<Longrightarrow> pl_loops p' = pl_loops p \<Longrightarrow> cap_inv limit p'"
  unfolding cap_inv_def doomed_def
  using kept_mono [of "set (concat (map snd (pl_loops p)))" "insert b (set (concat (map snd (pl_loops p))))" "pl_live p"]
  by (simp add: keys_delete kept_delete subset_insertI)

lemma pool_step_cap: "cap_inv limit p \<Longrightarrow> cap_inv limit (pool_step limit idle e p)"
proof (induction limit idle e p rule: pool_step.induct)
  case (1 limit idle now b p)
  then show ?case
    by (auto simp: page_asked_def begin_launch_def split: option.split
        intro: cap_inv_keys [OF 1] cap_inv_update [OF 1])
next
  case (2 limit idle now b p)
  have "cap_inv limit (begin_launch b (p\<lparr>pl_closing := remove1 b (pl_closing p), pl_live := AList.delete b (pl_live p)\<rparr>))"
    by (rule cap_inv_delete [OF 2]) (simp_all add: begin_launch_def)
  with 2 show ?case by (simp add: half_dead_closed_def)
next
  case (3 limit idle now b p)
  have "distinct (map fst (AList.update b l (pl_live p)))" for l
    using 3 by (simp add: cap_inv_def AList.distinct_update)
  then have "cap_inv limit (enforce_cap limit b
      (p\<lparr>pl_launches := remove1 b (pl_launches p), pl_live := AList.update b l (pl_live p)\<rparr>))" for l
    by (intro launch_cap) simp
  with 3 show ?case by (simp add: launched_def)
next
  case (4 limit idle now b p)
  then show ?case by (auto simp: launch_failed_def intro: cap_inv_keys [OF 4])
next
  case (5 limit idle now n p)
  show ?case
  proof (cases "n < length (pl_loops p)")
    case True
    with 5 show ?thesis
      unfolding pool_step.simps eviction_settled_def
      by (simp only: if_True) (rule evict_loop_cap, simp_all add: cap_inv_def doomed_settled)
  qed (use 5 in \<open>simp add: eviction_settled_def\<close>)
next
  case (6 limit idle now p)
  have "kept (doomed p \<union> set (choose_idle (use_times p) idle now)) (pl_live p) \<le> kept (doomed p) (pl_live p)"
    by (rule kept_mono) simp
  with 6 show ?case unfolding pool_step.simps sweep_idle_def by (intro evict_loop_cap) (simp_all add: cap_inv_def)
next
  case (7 limit idle now b p)
  then show ?case by (auto simp: stop_browser_def intro: cap_inv_delete [OF 7])
next
  case (8 limit idle now b p)
  then show ?case
    by (auto simp: browser_died_def split: option.split intro: cap_inv_update [OF 8])
next
  case (9 limit idle now p)
  show ?case by (simp add: close_all_def cap_inv_def kept_def)
qed


section \<open>Who is closed\<close>

lemma take_sort_key_le:
  assumes "x \<in> set (take k (sort_key f xs))" "y \<in> set (drop k (sort_key f xs))"
  shows "f x \<le> f y"
proof -
  have "sorted (map f (take k (sort_key f xs) @ drop k (sort_key f xs)))" by simp
  then show ?thesis using assms unfolding map_append sorted_append by auto
qed

lemma sort_key_snoc_max:
  assumes "\<And>y. y \<in> set xs \<Longrightarrow> f y \<le> f x"
  shows "sort_key f (xs @ [x]) = sort_key f xs @ [x]"
proof (rule properties_for_sort_key)
  fix k
  have "filter (\<lambda>y. f k = f y) (sort_key f xs) = filter (\<lambda>y. f k = f y) xs"
    using sort_key_stable [of f "f k" xs] by (simp only: eq_commute)
  then show "filter (\<lambda>y. f k = f y) (sort_key f xs @ [x]) = filter (\<lambda>y. f k = f y) (xs @ [x])" by simp
next
  show "sorted (map f (sort_key f xs @ [x]))" using assms by (auto simp: sorted_append)
qed simp

lemma chosen_split:
  assumes "distinct (map fst es)" "limit < length es" "(b, t) \<in> set es"
  shows "b \<in> set (choose_evictions es limit) \<longleftrightarrow> (b, t) \<in> set (take (length es - limit) (sort_key snd es))"
    and "b \<notin> set (choose_evictions es limit) \<longleftrightarrow> (b, t) \<in> set (drop (length es - limit) (sort_key snd es))"
proof -
  let ?k = "length es - limit"
  have set: "set es = set (take ?k (sort_key snd es)) \<union> set (drop ?k (sort_key snd es))"
    by (metis append_take_drop_id set_append set_sort)
  have "mset (map fst (sort_key snd es)) = mset (map fst es)" by simp
  then have "distinct (map fst (take ?k (sort_key snd es)) @ map fst (drop ?k (sort_key snd es)))"
    using assms(1) by (metis append_take_drop_id map_append mset_eq_imp_distinct_iff)
  then have apart: "fst ` set (take ?k (sort_key snd es)) \<inter> fst ` set (drop ?k (sort_key snd es)) = {}" by simp
  have c: "set (choose_evictions es limit) = fst ` set (take ?k (sort_key snd es))"
    using assms(2) by (simp add: choose_evictions_def)
  have "(b, t) \<in> set (take ?k (sort_key snd es)) \<or> (b, t) \<in> set (drop ?k (sort_key snd es))"
    using assms(3) set by blast
  with c apart show "b \<in> set (choose_evictions es limit) \<longleftrightarrow> (b, t) \<in> set (take ?k (sort_key snd es))"
    "b \<notin> set (choose_evictions es limit) \<longleftrightarrow> (b, t) \<in> set (drop ?k (sort_key snd es))"
    by (metis IntI empty_iff fst_conv imageI)+
qed

text \<open>The Bots quiet longest are the ones closed, and never the one that just asked. Exactly as many are
  chosen as there are over the limit; whoever is chosen was last used no later than whoever is kept;
  and the entry added last, used no earlier than the others, is kept by any limit but zero.\<close>

theorem quietest_closed_first:
  assumes "distinct (map fst es)"
  shows "let chosen = choose_evictions es limit in
           length chosen = length es - limit
           \<and> list_all (\<lambda>(b, t). list_all (\<lambda>(c, u).
               if b \<in> set chosen \<and> c \<notin> set chosen then t \<le> u else True) es) es
           \<and> (if es \<noteq> [] \<and> 0 < limit \<and> list_all (\<lambda>e. snd e \<le> snd (last es)) es
              then fst (last es) \<notin> set chosen else True)"
proof (cases "limit < length es")
  case False
  then show ?thesis by (auto simp: choose_evictions_def Let_def list_all_iff)
next
  case True
  let ?c = "choose_evictions es limit" and ?k = "length es - limit"
  have order: "t \<le> u" if "(b, t) \<in> set es" "(c, u) \<in> set es" "b \<in> set ?c" "c \<notin> set ?c" for b t c u
    using chosen_split [OF assms True] that take_sort_key_le [of "(b, t)" ?k snd es "(c, u)"] by auto
  have newest: "fst (last es) \<notin> set ?c"
    if "es \<noteq> []" "0 < limit" "list_all (\<lambda>e. snd e \<le> snd (last es)) es"
  proof -
    have "sort_key snd es = sort_key snd (butlast es) @ [last es]"
      using sort_key_snoc_max [of "butlast es" snd "last es"] that(1,3)
      by (auto simp: list_all_iff dest: in_set_butlastD)
    then have "last es \<in> set (drop ?k (sort_key snd es))" using True that(2) by simp
    then show ?thesis using chosen_split(2) [OF assms True, of "fst (last es)" "snd (last es)"] that(1) by simp
  qed
  show ?thesis using order newest by (auto simp: Let_def list_all_iff length_choose_evictions)
qed

theorem quietest_closed_first_witness:
  "choose_evictions [(''a'', 5), (''b'', 2), (''c'', 9)] 1 = [''b'', ''a''] \<and> ''c'' \<notin> set (choose_evictions [(''a'', 5), (''b'', 2), (''c'', 9)] 1)"
  using quietest_closed_first [of "[(''a'', 5), (''b'', 2), (''c'', 9)]" 1]
  by (simp add: Let_def choose_evictions_def)

section \<open>One launch at a time\<close>

definition owner_list :: "string option \<Rightarrow> string list" where
  "owner_list owner = (case owner of None \<Rightarrow> [] | Some b \<Rightarrow> [b])"

definition owners :: "pool \<Rightarrow> string list" where
  "owners p = concat (map (\<lambda>l. owner_list (fst l)) (pl_loops p))"

definition sound_launches :: "string list \<Rightarrow> string list \<Rightarrow> bool" where
  "sound_launches underway starting \<longleftrightarrow> distinct underway \<and> set underway \<subseteq> set starting"

definition launch_inv :: "pool \<Rightarrow> bool" where
  "launch_inv p \<longleftrightarrow>
     pl_closing p = [] \<and> list_all (\<lambda>(b, l). lb_usable l) (pl_live p)
     \<and> sound_launches (pl_launches p @ owners p) (pl_starting p)"

lemma all_update: "list_all P al \<Longrightarrow> P (k, v) \<Longrightarrow> list_all P (AList.update k v al)"
  by (induction al) auto

lemma all_delete: "list_all P al \<Longrightarrow> list_all P (AList.delete k al)"
  by (induction al) auto

lemma all_evict_next: "list_all P live \<Longrightarrow> list_all P (fst (evict_next bs live))"
  by (induction bs) (simp_all add: all_delete)

lemma sound_perm:
  assumes "mset xs = mset ys"
  shows "sound_launches xs st \<longleftrightarrow> sound_launches ys st"
  unfolding sound_launches_def
  using mset_eq_imp_distinct_iff [OF assms] mset_eq_setD [OF assms] by argo

lemma evict_loop_launches:
  assumes "pl_closing p = []" "list_all (\<lambda>(b, l). lb_usable l) (pl_live p)"
    and "sound_launches (pl_launches p @ owners p @ owner_list owner) (pl_starting p)"
  shows "launch_inv (evict_loop owner chosen p)"
proof (cases "evict_next chosen (pl_live p)")
  case (Pair live r)
  note usable = all_evict_next [OF assms(2), of chosen, unfolded Pair fst_conv]
  show ?thesis
  proof (cases r)
    case None
    have "sound_launches (pl_launches p @ owners p)
        (case owner of None \<Rightarrow> pl_starting p | Some b \<Rightarrow> filter (\<lambda>x. x \<noteq> b) (pl_starting p))"
    proof (cases owner)
      case None
      with assms(3) show ?thesis by (simp add: owner_list_def)
    next
      case (Some b)
      with assms(3) have "distinct (pl_launches p @ owners p)" "set (pl_launches p @ owners p) \<subseteq> set (pl_starting p)"
        "b \<notin> set (pl_launches p @ owners p)"
        by (simp_all add: sound_launches_def owner_list_def)
      with Some show ?thesis unfolding sound_launches_def by auto
    qed
    with None usable assms(1) show ?thesis
      by (simp add: launch_inv_def evict_loop_def Pair owners_def)
  next
    case (Some rest)
    with usable assms show ?thesis by (simp add: launch_inv_def evict_loop_def Pair owners_def)
  qed
qed

lemma owners_settled:
  "n < length (pl_loops p) \<Longrightarrow>
     mset (owners p) = mset (owners (p\<lparr>pl_loops := take n (pl_loops p) @ drop (Suc n) (pl_loops p)\<rparr>)
       @ owner_list (fst (pl_loops p ! n)))"
  unfolding owners_def
  by (subst id_take_nth_drop [of n "pl_loops p"]) (simp_all add: ac_simps)

lemma launch_inv_same:
  "launch_inv p \<Longrightarrow> pl_closing p' = pl_closing p \<Longrightarrow> list_all (\<lambda>(b, l). lb_usable l) (pl_live p') \<Longrightarrow>
     pl_launches p' = pl_launches p \<Longrightarrow> pl_loops p' = pl_loops p \<Longrightarrow> pl_starting p' = pl_starting p \<Longrightarrow> launch_inv p'"
  by (simp add: launch_inv_def owners_def)

lemma pool_step_launches:
  assumes "launch_inv p" "\<And>b. snd e \<noteq> Browser_died b"
  shows "launch_inv (pool_step limit idle e p)"
  using assms
proof (induction limit idle e p rule: pool_step.induct)
  case (1 limit idle now b p)
  have usable: "lb_usable l" if "map_of (pl_live p) b = Some l" for l
    using 1(1) map_of_SomeD [OF that] by (auto simp: launch_inv_def list_all_iff)
  have "launch_inv (p\<lparr>pl_live := AList.update b (l\<lparr>lb_used := now\<rparr>) (pl_live p)\<rparr>)" if "lb_usable l" for l
    using 1(1) that by (intro launch_inv_same [OF 1(1)]) (auto simp: launch_inv_def intro: all_update)
  moreover have "launch_inv (begin_launch b p)" if "b \<notin> set (pl_starting p)"
    using 1(1) that by (auto simp: launch_inv_def begin_launch_def owners_def sound_launches_def)
  ultimately show ?case using 1(1) usable by (auto simp: page_asked_def split: option.split)
next
  case (2 limit idle now b p)
  then show ?case by (auto simp: half_dead_closed_def launch_inv_def)
next
  case (3 limit idle now b p)
  show ?case
  proof (cases "b \<in> set (pl_launches p)")
    case True
    have "mset (remove1 b (pl_launches p) @ owners p @ [b]) = mset (pl_launches p @ owners p)"
      using True by (simp add: ac_simps)
    then have "sound_launches (remove1 b (pl_launches p) @ owners p @ [b]) (pl_starting p)"
      using 3(1) sound_perm unfolding launch_inv_def by blast
    then have "launch_inv (evict_loop (Some b) chosen
        (p\<lparr>pl_launches := remove1 b (pl_launches p),
          pl_live := AList.update b \<lparr>lb_started = now, lb_used = now, lb_usable = True\<rparr> (pl_live p)\<rparr>))" for chosen
      using 3(1) by (intro evict_loop_launches) (simp_all add: launch_inv_def owners_def owner_list_def all_update)
    with True show ?thesis by (simp add: launched_def enforce_cap_def)
  qed (use 3(1) in \<open>simp add: launched_def\<close>)
next
  case (4 limit idle now b p)
  then have "b \<notin> set (remove1 b (pl_launches p) @ owners p)" if "b \<in> set (pl_launches p)"
    using that by (auto simp: launch_inv_def sound_launches_def)
  with 4 show ?case
    by (auto simp: launch_failed_def launch_inv_def owners_def sound_launches_def dest: notin_set_remove1
        split: if_splits)
next
  case (5 limit idle now n p)
  show ?case
  proof (cases "n < length (pl_loops p)")
    case True
    let ?p = "p\<lparr>pl_loops := take n (pl_loops p) @ drop (Suc n) (pl_loops p)\<rparr>"
    have "mset (pl_launches p @ owners ?p @ owner_list (fst (pl_loops p ! n))) = mset (pl_launches p @ owners p)"
      using owners_settled [OF True] by (simp add: ac_simps)
    then have "sound_launches (pl_launches p @ owners ?p @ owner_list (fst (pl_loops p ! n))) (pl_starting p)"
      using 5(1) sound_perm unfolding launch_inv_def by blast
    with 5(1) True show ?thesis
      unfolding pool_step.simps eviction_settled_def
      by (simp only: if_True) (rule evict_loop_launches, simp_all add: launch_inv_def)
  qed (use 5 in \<open>simp add: eviction_settled_def\<close>)
next
  case (6 limit idle now p)
  then show ?case unfolding pool_step.simps sweep_idle_def
    by (intro evict_loop_launches) (simp_all add: launch_inv_def owner_list_def)
next
  case (7 limit idle now b p)
  then have "launch_inv (p\<lparr>pl_live := AList.delete b (pl_live p)\<rparr>)"
    by (intro launch_inv_same [OF 7(1)]) (simp_all add: launch_inv_def all_delete)
  with 7(1) show ?case by (simp add: stop_browser_def)
next
  case (8 limit idle now b p)
  then have False by (metis snd_conv)
  then show ?case ..
next
  case (9 limit idle now p)
  then show ?case by (simp add: close_all_def launch_inv_def owners_def)
qed

text \<open>One launch at a time. As long as no browser dies under the pool, no Bot ever has two launches under
  way: a call that arrives during a launch joins it, however launches, failures, evictions, sweeps and
  stops interleave.\<close>

theorem one_launch_per_bot:
  assumes "list_all (\<lambda>e. case snd e of Browser_died b \<Rightarrow> False | _ \<Rightarrow> True) events"
  shows "distinct (pl_launches (pool_run limit idle events))"
proof -
  have "launch_inv (pool_run limit idle events)"
    using assms
  proof (induction events rule: rev_induct)
    case Nil
    show ?case by (simp add: pool_run_def new_pool_def launch_inv_def owners_def sound_launches_def)
  next
    case (snoc e events)
    then show ?case unfolding pool_run_snoc by (intro pool_step_launches) (auto split: pool_event.splits)
  qed
  then show ?thesis by (simp add: launch_inv_def sound_launches_def)
qed

definition busy_morning :: "(int \<times> pool_event) list" where
  "busy_morning = [(1, Page_asked ''a''), (2, Page_asked ''a''), (3, Page_asked ''b''), (4, Launched ''a''), (5, Launched ''b'')]"

theorem one_launch_per_bot_witness: "distinct (pl_launches (pool_run 1 60 busy_morning))"
  by (rule one_launch_per_bot) (simp add: busy_morning_def)

text \<open>Two calls that find the same dead browser launch two. Each waits for the dead one to close before it
  says that it is launching, so both launch on one profile directory; and a stop that arrives during a
  launch finds nothing to stop, though the browser then comes up.\<close>

theorem dead_browser_launched_twice:
  "pl_launches (pool_run 8 60
       [(1, Page_asked ''a''), (2, Launched ''a''), (3, Browser_died ''a''), (4, Page_asked ''a''), (4, Page_asked ''a''),
        (5, Half_dead_closed ''a''), (5, Half_dead_closed ''a'')]) = [''a'', ''a'']
   \<and> (let during = pool_run 8 60 [(1, Page_asked ''a'')] in
       \<not> snd (stop_browser ''a'' during)
       \<and> map fst (pl_live (pool_step 8 60 (2, Launched ''a'') (fst (stop_browser ''a'' during)))) = [''a''])"
  by code_simp

end
