(* ===== verification/Js_Number.thy ===== *)
theory Js_Number
  imports Prelude Complex_Main
begin

text \<open>
  \<^verbatim>\<open>Number\<close> of a string: decimal literals with a fraction and an exponent, the three prefixed bases, and
  nothing for what is not a finite number. A value is the exact rational that is written.
\<close>

definition digits_value :: "nat \<Rightarrow> string \<Rightarrow> nat option" where
  "digits_value base s =
     (if s \<noteq> [] \<and> list_all (\<lambda>c. case digit_value c of None \<Rightarrow> False | Some d \<Rightarrow> d < base) s
      then Some (foldl (\<lambda>n c. n * base + the (digit_value c)) 0 s) else None)"

definition decimal_char :: "char \<Rightarrow> bool" where
  "decimal_char c = (48 \<le> char_code c \<and> char_code c \<le> 57)"

definition split_sign :: "string \<Rightarrow> bool \<times> string" where
  "split_sign s =
     (case s of c # cs \<Rightarrow> if c = CHR ''-'' then (True, cs) else if c = CHR ''+'' then (False, cs) else (False, s)
      | [] \<Rightarrow> (False, s))"

definition exponent_value :: "string \<Rightarrow> int option" where
  "exponent_value s =
     (case s of
        [] \<Rightarrow> Some 0
      | c # cs \<Rightarrow>
          if c = CHR ''e'' \<or> c = CHR ''E''
          then (case split_sign cs of (neg, ds) \<Rightarrow>
                  map_option (\<lambda>n. if neg then - int n else int n) (digits_value 10 ds))
          else None)"

definition decimal_value :: "string \<Rightarrow> rat option" where
  "decimal_value s =
     (let whole = takeWhile decimal_char s; rest = dropWhile decimal_char s;
          fraction = (case rest of c # cs \<Rightarrow> if c = CHR ''.'' then takeWhile decimal_char cs else [] | [] \<Rightarrow> []);
          tail = (case rest of c # cs \<Rightarrow> if c = CHR ''.'' then dropWhile decimal_char cs else rest | [] \<Rightarrow> [])
      in case (digits_value 10 (whole @ fraction), exponent_value tail) of
           (Some n, Some e) \<Rightarrow>
             let shift = e - int (length fraction) in
             Some (if 0 \<le> shift then of_nat n * 10 ^ nat shift else of_nat n / 10 ^ nat (- shift))
         | _ \<Rightarrow> None)"

definition js_number :: "string \<Rightarrow> rat option" where
  "js_number raw =
     (let s = js_trim raw in
      if s = [] then Some 0
      else case s of
          c # x # ds \<Rightarrow>
            if c = CHR ''0'' \<and> x \<in> {CHR ''x'', CHR ''X''} then map_option of_nat (digits_value 16 ds)
            else if c = CHR ''0'' \<and> x \<in> {CHR ''o'', CHR ''O''} then map_option of_nat (digits_value 8 ds)
            else if c = CHR ''0'' \<and> x \<in> {CHR ''b'', CHR ''B''} then map_option of_nat (digits_value 2 ds)
            else (case split_sign s of (neg, t) \<Rightarrow> map_option (\<lambda>v. if neg then - v else v) (decimal_value t))
        | _ \<Rightarrow> (case split_sign s of (neg, t) \<Rightarrow> map_option (\<lambda>v. if neg then - v else v) (decimal_value t)))"

text \<open>The integer a string denotes: \<^verbatim>\<open>Number.isInteger(Number(s))\<close>.\<close>

definition js_integer :: "string \<Rightarrow> int option" where
  "js_integer s =
     (case js_number s of
        None \<Rightarrow> None
      | Some v \<Rightarrow> if of_int \<lfloor>v\<rfloor> = v then Some \<lfloor>v\<rfloor> else None)"

lemma js_number_samples:
  "js_number ''15'' = Some 15" "js_number ''-2.5e1'' = Some (- 25)" "js_number '' 0x1F '' = Some 31"
  "js_number '''' = Some 0" "js_number ''1-2'' = None" "js_number ''12abc'' = None" "js_integer ''1.5'' = None"
  by code_simp+

end
