(* ===== verification/Cron.thy ===== *)
theory Cron
  imports Js_Number
begin

text \<open>
  When a schedule fires: \<^verbatim>\<open>server/src/triggers/cron.ts\<close>. A \<^verbatim>\<open>Date\<close> is the five numbers that are read from
  it. The set a field denotes is a list of its members, in the order they are added.
\<close>

record cron_date =
  cd_minute :: int
  cd_hour :: int
  cd_day :: int
  cd_month :: int
  cd_weekday :: int

definition bounds :: "(int \<times> int) list" where
  "bounds = [(0, 59), (0, 23), (1, 31), (1, 12), (0, 6)]"

text \<open>\<^verbatim>\<open>expression.trim().split(/\s+/)\<close>.\<close>

definition cron_fields :: "string \<Rightarrow> string list" where
  "cron_fields expression =
     (let t = js_trim expression in
      if t = [] then [[]] else filter (\<lambda>w. w \<noteq> []) (split_when js_space t))"

text \<open>One part of a field: where it starts and ends, and its step.\<close>

definition cron_part :: "int \<times> int \<Rightarrow> string \<Rightarrow> (int \<times> int \<times> int) option" where
  "cron_part bound part =
     (let pieces = split_on CHR ''/'' part;
          range_part = hd pieces;
          step_part = (case tl pieces of [] \<Rightarrow> None | s # _ \<Rightarrow> Some s) in
      case (case step_part of None \<Rightarrow> Some 1 | Some s \<Rightarrow> js_integer s) of
        None \<Rightarrow> None
      | Some step \<Rightarrow>
          if step < 1 then None
          else
            (case (if range_part = ''*'' \<or> range_part = [] then Some bound
                   else if CHR ''-'' \<in> set range_part
                   then (case map js_integer (split_on CHR ''-'' range_part) of
                           Some a # Some b # _ \<Rightarrow> Some (a, b)
                         | _ \<Rightarrow> None)
                   else (case js_integer range_part of
                           None \<Rightarrow> None
                         | Some v \<Rightarrow> Some (v, if step_part = None then v else snd bound))) of
               None \<Rightarrow> None
             | Some (from, to) \<Rightarrow>
                 if from < fst bound \<or> snd bound < to \<or> to < from then None else Some (from, to, step)))"

text \<open>\<^verbatim>\<open>for (let v = from; v <= to; v += step) out.add(v)\<close>.\<close>

function count_by :: "int \<Rightarrow> int \<Rightarrow> int \<Rightarrow> int list" where
  "count_by v to step = (if v \<le> to \<and> 1 \<le> step then v # count_by (v + step) to step else [])"
  by pat_completeness auto
termination by (relation "measure (\<lambda>(v, to, step). nat (to + 1 - v))") auto

declare count_by.simps [simp del]

fun parse_parts :: "int \<times> int \<Rightarrow> string list \<Rightarrow> int list \<Rightarrow> int list option" where
  "parse_parts bound [] out = Some out"
| "parse_parts bound (p # ps) out =
     (case cron_part bound p of
        None \<Rightarrow> None
      | Some (from, to, step) \<Rightarrow> parse_parts bound ps (out @ count_by from to step))"

definition parse_field :: "string \<Rightarrow> int \<times> int \<Rightarrow> int list option" where
  "parse_field field bound =
     (case parse_parts bound (split_on CHR '','' field) [] of
        None \<Rightarrow> None
      | Some out \<Rightarrow> if out = [] then None else Some out)"

definition is_valid_cron :: "string \<Rightarrow> bool" where
  "is_valid_cron expression =
     (let fields = cron_fields expression in
      length fields = 5 \<and> list_all (\<lambda>(f, b). parse_field f b \<noteq> None) (zip fields bounds))"

definition cron_matches :: "string \<Rightarrow> cron_date \<Rightarrow> bool" where
  "cron_matches expression date =
     (let fields = cron_fields expression in
      if length fields \<noteq> 5 then False
      else case map (\<lambda>(f, b). parse_field f b) (zip fields bounds) of
          [Some minute, Some hour, Some day, Some month, Some weekday] \<Rightarrow>
            if cd_minute date \<notin> set minute \<or> cd_hour date \<notin> set hour \<or> cd_month date \<notin> set month then False
            else
              let dom_restricted = (fields ! 2 \<noteq> ''*''); dow_restricted = (fields ! 4 \<noteq> ''*'');
                  dom_match = (cd_day date \<in> set day); dow_match = (cd_weekday date \<in> set weekday) in
              if dom_restricted \<and> dow_restricted then dom_match \<or> dow_match
              else if dom_restricted then dom_match
              else if dow_restricted then dow_match
              else True
        | _ \<Rightarrow> False)"

section \<open>What a field means\<close>

text \<open>A value satisfies a part when it lies in the range and a whole number of steps from its start.\<close>

definition part_holds :: "int \<times> int \<Rightarrow> string \<Rightarrow> int \<Rightarrow> bool" where
  "part_holds bound part v =
     (case cron_part bound part of
        None \<Rightarrow> False
      | Some (from, to, step) \<Rightarrow> from \<le> v \<and> v \<le> to \<and> (v - from) mod step = 0)"

definition field_holds :: "int \<times> int \<Rightarrow> string \<Rightarrow> int \<Rightarrow> bool" where
  "field_holds bound field v = list_ex (\<lambda>p. part_holds bound p v) (split_on CHR '','' field)"

definition field_ok :: "int \<times> int \<Rightarrow> string \<Rightarrow> bool" where
  "field_ok bound field = list_all (\<lambda>p. cron_part bound p \<noteq> None) (split_on CHR '','' field)"

lemma set_count_by: "1 \<le> step \<Longrightarrow> w \<in> set (count_by v to step) \<longleftrightarrow> v \<le> w \<and> w \<le> to \<and> (w - v) mod step = 0"
proof (induction v to step rule: count_by.induct)
  case (1 v to step)
  show ?case
  proof (cases "v \<le> to")
    case False
    then show ?thesis by (subst count_by.simps) auto
  next
    case True
    have shift: "(w - v) mod step = (w - (v + step)) mod step"
      by (metis add_diff_cancel_left' diff_diff_eq minus_mod_self2)
    have near: "w = v" if "v \<le> w" "w < v + step" "(w - v) mod step = 0"
      using that by (simp add: mod_pos_pos_trivial)
    have "w \<in> set (count_by v to step) \<longleftrightarrow> w = v \<or> w \<in> set (count_by (v + step) to step)"
      using True 1(2) by (subst count_by.simps) simp
    also have "\<dots> \<longleftrightarrow> w = v \<or> v + step \<le> w \<and> w \<le> to \<and> (w - (v + step)) mod step = 0"
      using 1 True by simp
    also have "\<dots> \<longleftrightarrow> v \<le> w \<and> w \<le> to \<and> (w - v) mod step = 0"
      using True 1(2) shift near by (metis add_le_cancel_left add_0_right add_increasing2 cancel_comm_monoid_add_class.diff_cancel
          dual_order.trans linorder_not_le mod_0 order_refl zero_le_one)
    finally show ?thesis .
  qed
qed

lemma cron_part_bounds:
  "cron_part (lo, hi) p = Some (from, to, step) \<Longrightarrow> lo \<le> from \<and> to \<le> hi \<and> from \<le> to \<and> 1 \<le> step"
  by (auto simp: cron_part_def Let_def split: option.splits if_splits list.splits prod.splits)

lemma parse_parts_some:
  "parse_parts (lo, hi) ps out \<noteq> None \<longleftrightarrow> list_all (\<lambda>p. cron_part (lo, hi) p \<noteq> None) ps"
  by (induction ps arbitrary: out) (auto split: option.split)

lemma parse_parts_set:
  "parse_parts (lo, hi) ps out = Some vs \<Longrightarrow>
     v \<in> set vs \<longleftrightarrow> v \<in> set out \<or> list_ex (\<lambda>p. part_holds (lo, hi) p v) ps"
proof (induction ps arbitrary: out)
  case (Cons p ps)
  then obtain a z step where p: "cron_part (lo, hi) p = Some (a, z, step)"
    and rest: "parse_parts (lo, hi) ps (out @ count_by a z step) = Some vs"
    by (auto split: option.splits)
  from Cons.IH [OF rest] cron_part_bounds [OF p] show ?case
    by (auto simp: part_holds_def p set_count_by)
qed simp

lemma parse_parts_nonempty: "parse_parts (lo, hi) (p # ps) out = Some vs \<Longrightarrow> vs \<noteq> []"
proof -
  assume a: "parse_parts (lo, hi) (p # ps) out = Some vs"
  then obtain x z step where p: "cron_part (lo, hi) p = Some (x, z, step)" by (auto split: option.splits)
  then have "part_holds (lo, hi) p x" using cron_part_bounds [OF p] by (simp add: part_holds_def)
  then have "x \<in> set vs" using parse_parts_set [OF a, of x] by simp
  then show "vs \<noteq> []" by auto
qed

lemma parse_field_cases:
  "parse_field field (lo, hi) = None \<longleftrightarrow> \<not> field_ok (lo, hi) field"
  "parse_field field (lo, hi) = Some vs \<Longrightarrow> v \<in> set vs \<longleftrightarrow> field_holds (lo, hi) field v"
proof -
  obtain p ps where parts: "split_on CHR '','' field = p # ps"
    using split_when_not_Nil by (metis list.exhaust)
  show "parse_field field (lo, hi) = None \<longleftrightarrow> \<not> field_ok (lo, hi) field"
    using parse_parts_some [of lo hi "p # ps" "[]"] parse_parts_nonempty [of lo hi p ps "[]"]
    by (auto simp: parse_field_def field_ok_def parts split: option.splits)
  assume "parse_field field (lo, hi) = Some vs"
  then have "parse_parts (lo, hi) (p # ps) [] = Some vs"
    by (auto simp: parse_field_def parts split: option.splits if_splits)
  from parse_parts_set [OF this, of v] show "v \<in> set vs \<longleftrightarrow> field_holds (lo, hi) field v"
    by (simp add: field_holds_def parts)
qed

lemma parse_field_Some: "(\<exists>vs. parse_field field (lo, hi) = Some vs) \<longleftrightarrow> field_ok (lo, hi) field"
  using parse_field_cases(1) [of field lo hi] by (cases "parse_field field (lo, hi)") simp_all


text \<open>A comma too many fires every minute. The part after a trailing comma is empty and stands for the
  whole range, so a schedule meant for nine o'clock is accepted and fires all through the hour.\<close>

theorem trailing_comma_fires_always:
  "is_valid_cron ''0, 9 * * *''
   \<and> list_all (\<lambda>m. cron_matches ''0, 9 * * *'' \<lparr>cd_minute = m, cd_hour = 9, cd_day = 4, cd_month = 7, cd_weekday = 2\<rparr>) [0, 17, 59]
   \<and> \<not> cron_matches ''0 9 * * *'' \<lparr>cd_minute = 17, cd_hour = 9, cd_day = 4, cd_month = 7, cd_weekday = 2\<rparr>"
  by code_simp

end
