(* ===== verification/Triggers.thy ===== *)
theory Triggers
  imports Cron Audit_Trail
begin

text \<open>
  Runs that start themselves: \<^verbatim>\<open>server/src/triggers/engine.ts\<close>. The table is a list of rows, one per id. A
  firing awaits the database and the run, so it is a step relation over what those awaits deliver;
  reading one answer of the run endpoint, and the loop of runs and tool calls, are functions. The hash
  of a token, random ids, JSON parsing, a tool's execution and the run endpoint are parameters.
\<close>

section \<open>The table\<close>

datatype trigger_kind = Cron_trigger | Webhook_trigger

datatype thread_mode = Continue_thread | New_thread

record trigger =
  tg_id :: string
  tg_name :: string
  tg_agent :: string
  tg_kind :: trigger_kind
  tg_schedule :: "string option"
  tg_prompt :: string
  tg_enabled :: bool
  tg_mode :: thread_mode
  tg_thread :: "string option"
  tg_fired :: "int option"
  tg_status :: "string option"
  tg_reply :: "string option"

record trigger_row = trigger +
  tr_token_hash :: "string option"
  tr_created_by :: "string option"

definition to_trigger :: "trigger_row \<Rightarrow> trigger" where
  "to_trigger r = trigger.truncate r"

text \<open>\<^verbatim>\<open>list\<close>: \<open>collate\<close> is the key of \<^verbatim>\<open>localeCompare\<close>.\<close>

definition list_triggers :: "(string \<Rightarrow> nat) \<Rightarrow> trigger_row list \<Rightarrow> trigger list" where
  "list_triggers collate rows = sort_key (\<lambda>t. collate (tg_name t)) (map to_trigger rows)"

definition get_row :: "string \<Rightarrow> trigger_row list \<Rightarrow> trigger_row option" where
  "get_row i rows = find (\<lambda>r. tg_id r = i) rows"

definition get_trigger :: "string \<Rightarrow> trigger_row list \<Rightarrow> trigger option" where
  "get_trigger i rows = map_option to_trigger (get_row i rows)"

record new_trigger =
  nt_name :: string
  nt_agent :: string
  nt_kind :: trigger_kind
  nt_schedule :: "string option"
  nt_prompt :: string
  nt_mode :: "thread_mode option"
  nt_created_by :: "string option"

text \<open>\<^verbatim>\<open>create\<close>, given the fresh id and the fresh token: the token goes to the caller, its hash to the row.\<close>

definition create_trigger ::
  "(string \<Rightarrow> string) \<Rightarrow> string \<Rightarrow> string \<Rightarrow> new_trigger \<Rightarrow> trigger_row list \<Rightarrow> (trigger \<times> string option) \<times> trigger_row list" where
  "create_trigger sha256 fresh_id fresh_token n rows =
     (let token = (if nt_kind n = Webhook_trigger then Some fresh_token else None);
          row = \<lparr>tg_id = fresh_id, tg_name = nt_name n, tg_agent = nt_agent n, tg_kind = nt_kind n,
                 tg_schedule = nt_schedule n, tg_prompt = nt_prompt n, tg_enabled = True,
                 tg_mode = (case nt_mode n of None \<Rightarrow> Continue_thread | Some m \<Rightarrow> m),
                 tg_thread = None, tg_fired = None, tg_status = None, tg_reply = None,
                 tr_token_hash = map_option sha256 token, tr_created_by = nt_created_by n\<rparr>
      in ((to_trigger row, token), rows @ [row]))"

record trigger_patch =
  pt_name :: "string option"
  pt_schedule :: "string option"
  pt_prompt :: "string option"
  pt_enabled :: "bool option"
  pt_mode :: "thread_mode option"

definition or_kept :: "'a option \<Rightarrow> 'a \<Rightarrow> 'a" where
  "or_kept new old = (case new of None \<Rightarrow> old | Some v \<Rightarrow> v)"

definition patch_row :: "trigger_patch \<Rightarrow> trigger_row \<Rightarrow> trigger_row" where
  "patch_row p r =
     r\<lparr>tg_name := or_kept (pt_name p) (tg_name r),
       tg_schedule := (case pt_schedule p of None \<Rightarrow> tg_schedule r | Some s \<Rightarrow> Some s),
       tg_prompt := or_kept (pt_prompt p) (tg_prompt r),
       tg_enabled := or_kept (pt_enabled p) (tg_enabled r),
       tg_mode := or_kept (pt_mode p) (tg_mode r)\<rparr>"

definition change_row :: "string \<Rightarrow> (trigger_row \<Rightarrow> trigger_row) \<Rightarrow> trigger_row list \<Rightarrow> trigger_row list" where
  "change_row i f rows = map (\<lambda>r. if tg_id r = i then f r else r) rows"

definition update_trigger :: "string \<Rightarrow> trigger_patch \<Rightarrow> trigger_row list \<Rightarrow> bool \<times> trigger_row list" where
  "update_trigger i p rows = (get_row i rows \<noteq> None, change_row i (patch_row p) rows)"

definition remove_trigger :: "string \<Rightarrow> trigger_row list \<Rightarrow> bool \<times> trigger_row list" where
  "remove_trigger i rows = (get_row i rows \<noteq> None, filter (\<lambda>r. tg_id r \<noteq> i) rows)"

definition verify_webhook :: "(string \<Rightarrow> string) \<Rightarrow> string \<Rightarrow> string \<Rightarrow> trigger_row list \<Rightarrow> bool" where
  "verify_webhook sha256 i token rows =
     (case get_row i rows of
        None \<Rightarrow> False
      | Some r \<Rightarrow> if \<not> truthy (tr_token_hash r) \<or> \<not> tg_enabled r then False
                  else tr_token_hash r = Some (sha256 token))"

section \<open>One answer of the run endpoint\<close>

record tool_call =
  tc_id :: string
  tc_name :: string
  tc_arguments :: string

type_synonym run_answer = "string \<times> tool_call list"

definition add_arguments :: "string option \<Rightarrow> string option \<Rightarrow> tool_call list \<Rightarrow> tool_call list" where
  "add_arguments i delta calls =
     (if truthy delta
      then (case List.extract (\<lambda>c. Some (tc_id c) = i) calls of
              None \<Rightarrow> calls
            | Some (pre, c, post) \<Rightarrow> pre @ [c\<lparr>tc_arguments := tc_arguments c @ the delta\<rparr>] @ post)
      else calls)"

text \<open>One line: what is not \<^verbatim>\<open>data:\<close> or does not parse is passed over, a run error ends the reading.\<close>

definition read_line ::
  "(string \<Rightarrow> jsv option) \<Rightarrow> string list \<Rightarrow> string \<Rightarrow> run_answer \<Rightarrow> string + run_answer" where
  "read_line parse_json tools line ans =
     (if \<not> prefix ''data:'' line then Inr ans
      else case parse_json (drop 5 line) of
          None \<Rightarrow> Inr ans
        | Some e \<Rightarrow>
            let kind = js_string_field e ''type''; delta = js_string_field e ''delta'';
                call_id = js_string_field e ''toolCallId''; call_name = js_string_field e ''toolCallName'' in
            if kind = Some ''TEXT_MESSAGE_CONTENT'' \<and> truthy delta then Inr (fst ans @ the delta, snd ans)
            else if kind = Some ''TOOL_CALL_START'' \<and> truthy call_id \<and> truthy call_name \<and> the call_name \<in> set tools
            then Inr (fst ans, snd ans @ [\<lparr>tc_id = the call_id, tc_name = the call_name, tc_arguments = []\<rparr>])
            else if kind = Some ''TOOL_CALL_ARGS'' then Inr (fst ans, add_arguments call_id delta (snd ans))
            else if kind = Some ''RUN_ERROR''
            then Inl (case js_string_field e ''message'' of None \<Rightarrow> ''The run reported an error.'' | Some m \<Rightarrow> m)
            else Inr ans)"

fun read_lines ::
  "(string \<Rightarrow> jsv option) \<Rightarrow> string list \<Rightarrow> string list \<Rightarrow> run_answer \<Rightarrow> string + run_answer" where
  "read_lines parse_json tools [] ans = Inr ans"
| "read_lines parse_json tools (l # ls) ans =
     (case read_line parse_json tools l ans of
        Inl e \<Rightarrow> Inl e
      | Inr ans' \<Rightarrow> read_lines parse_json tools ls ans')"

text \<open>The chunks of the body as they arrive, with the unfinished line kept for the next.\<close>

fun read_chunks ::
  "(string \<Rightarrow> jsv option) \<Rightarrow> string list \<Rightarrow> string list \<Rightarrow> string \<Rightarrow> run_answer \<Rightarrow> string + run_answer" where
  "read_chunks parse_json tools [] buffer ans = Inr ans"
| "read_chunks parse_json tools (chunk # chunks) buffer ans =
     (let lines = split_on CHR 0x0A (buffer @ chunk) in
      case read_lines parse_json tools (butlast lines) ans of
        Inl e \<Rightarrow> Inl e
      | Inr ans' \<Rightarrow> read_chunks parse_json tools chunks (last lines) ans')"

text \<open>The response: its status, whether it is a success, and its body when it has one.\<close>

record run_response =
  rr_status :: int
  rr_body :: "string list option"

definition run_once :: "(string \<Rightarrow> jsv option) \<Rightarrow> string list \<Rightarrow> run_response \<Rightarrow> string + run_answer" where
  "run_once parse_json tools r =
     (case rr_body r of
        Some chunks \<Rightarrow>
          if 200 \<le> rr_status r \<and> rr_status r \<le> 299 then read_chunks parse_json tools chunks [] ([], [])
          else Inl (''The run answered '' @ show_int (rr_status r) @ ''.'')
      | None \<Rightarrow> Inl (''The run answered '' @ show_int (rr_status r) @ ''.''))"

section \<open>Runs and tool calls\<close>

datatype run_message =
    User_message string
  | Assistant_message string "tool_call list"
  | Tool_message string jsv

definition or_braces :: "string \<Rightarrow> string" where
  "or_braces s = (if s = [] then ''{}'' else s)"

text \<open>The arguments of a call, an empty object when they do not parse; and what a call comes to.\<close>

definition call_arguments :: "(string \<Rightarrow> jsv option) \<Rightarrow> tool_call \<Rightarrow> jsv" where
  "call_arguments parse_json c =
     (case parse_json (or_braces (tc_arguments c)) of None \<Rightarrow> JObj [] | Some v \<Rightarrow> v)"

definition call_outcome ::
  "(string \<Rightarrow> jsv option) \<Rightarrow> string list \<Rightarrow> (string \<Rightarrow> jsv \<Rightarrow> jsv) \<Rightarrow> (string \<Rightarrow> jsv \<Rightarrow> string) \<Rightarrow> tool_call \<Rightarrow> jsv" where
  "call_outcome parse_json tools execute describe c =
     (let parsed = call_arguments parse_json c in
      if tc_name c \<in> set tools then execute (tc_name c) parsed
      else JObj [(''ok'', JBool False),
                 (''reason'', JStr (''Not a tool this surface executes: '' @ describe (tc_name c) parsed))])"

definition assistant_turn :: "string \<Rightarrow> tool_call list \<Rightarrow> run_message" where
  "assistant_turn txt calls = Assistant_message txt (map (\<lambda>c. c\<lparr>tc_arguments := or_braces (tc_arguments c)\<rparr>) calls)"

text \<open>The run endpoint answers by all the messages so far; the loop is cut after as many turns as \<open>turns\<close>.\<close>

fun run_turns ::
  "(run_message list \<Rightarrow> string + run_answer) \<Rightarrow> (tool_call \<Rightarrow> jsv) \<Rightarrow> nat \<Rightarrow> run_message list \<Rightarrow> string \<Rightarrow>
   (string + string) \<times> run_message list" where
  "run_turns ask outcome 0 messages final = (Inr final, messages)"
| "run_turns ask outcome (Suc turns) messages final =
     (case ask messages of
        Inl e \<Rightarrow> (Inl e, messages)
      | Inr (txt, calls) \<Rightarrow>
          let final' = (if txt \<noteq> [] then txt else final) in
          if calls = [] then (Inr final', messages)
          else run_turns ask outcome turns
                 (messages @ [assistant_turn txt calls] @ map (\<lambda>c. Tool_message (tc_id c) (outcome c)) calls) final')"

definition run_to_completion ::
  "(run_message list \<Rightarrow> string + run_answer) \<Rightarrow> (tool_call \<Rightarrow> jsv) \<Rightarrow> string \<Rightarrow> (string + string) \<times> run_message list" where
  "run_to_completion ask outcome prompt = run_turns ask outcome 60 [User_message prompt] []"

section \<open>Firings\<close>

datatype fire_cause = By_cron | By_webhook | By_hand

text \<open>A firing waits for its first write, for the run, for its last write and for its audit row.\<close>

datatype fire_phase = Starting | Running_turns | Ending string string | Auditing string string

record firing =
  fr_trigger :: trigger
  fr_cause :: fire_cause
  fr_thread :: string
  fr_phase :: fire_phase

record engine =
  en_rows :: "trigger_row list"
  en_in_flight :: "string list"
  en_firings :: "firing list"
  en_audit :: "audit_input list"

definition already_running :: "string \<times> string" where
  "already_running = (''error'', ''A firing is already running.'')"

text \<open>\<^verbatim>\<open>fire\<close> up to its first wait; an answer only when it returns at once.\<close>

definition fire_asked :: "string \<Rightarrow> trigger \<Rightarrow> fire_cause \<Rightarrow> engine \<Rightarrow> (string \<times> string) option \<times> engine" where
  "fire_asked fresh_thread t cause en =
     (if tg_id t \<in> set (en_in_flight en) then (Some already_running, en)
      else (None,
        en\<lparr>en_in_flight := tg_id t # en_in_flight en,
           en_firings := en_firings en @
             [\<lparr>fr_trigger = t, fr_cause = cause,
               fr_thread = (case tg_mode t of
                  Continue_thread \<Rightarrow> (case tg_thread t of Some i \<Rightarrow> i | None \<Rightarrow> ''trigger-'' @ tg_id t)
                | New_thread \<Rightarrow> fresh_thread),
               fr_phase = Starting\<rparr>]\<rparr>))"

definition firing_prompt :: "trigger \<Rightarrow> string option \<Rightarrow> string" where
  "firing_prompt t extra =
     (if truthy extra
      then tg_prompt t @ [CHR 0x0A, CHR 0x0A] @ ''The request that fired this:'' @ [CHR 0x0A] @ ''```'' @ [CHR 0x0A]
             @ take 4000 (the extra) @ [CHR 0x0A] @ ''```''
      else tg_prompt t)"

definition cause_text :: "fire_cause \<Rightarrow> string" where
  "cause_text c = (case c of By_cron \<Rightarrow> ''cron'' | By_webhook \<Rightarrow> ''webhook'' | By_hand \<Rightarrow> ''manual'')"

definition fired_row :: "firing \<Rightarrow> string \<Rightarrow> audit_input" where
  "fired_row f status = record_audit_event
     \<lparr>ai_type = ''trigger.fired'', ai_target_type = ''trigger'', ai_target_id = Some (tg_id (fr_trigger f)),
      ai_actor = None,
      ai_payload = JObj [(''trigger'', JStr (tg_id (fr_trigger f))), (''name'', JStr (tg_name (fr_trigger f))),
        (''bot'', JStr (tg_agent (fr_trigger f))), (''cause'', JStr (cause_text (fr_cause f))),
        (''status'', JStr status), (''thread'', JStr (fr_thread f))]\<rparr>"

definition drop_firing :: "nat \<Rightarrow> engine \<Rightarrow> engine" where
  "drop_firing n en = en\<lparr>en_firings := take n (en_firings en) @ drop (Suc n) (en_firings en)\<rparr>"

definition move_firing :: "nat \<Rightarrow> fire_phase \<Rightarrow> engine \<Rightarrow> engine" where
  "move_firing n ph en = en\<lparr>en_firings := (en_firings en)[n := (en_firings en ! n)\<lparr>fr_phase := ph\<rparr>]\<rparr>"

text \<open>The first write: when it fails the call is rejected, before the \<^verbatim>\<open>try\<close> that would clear the flight.\<close>

definition start_written :: "nat \<Rightarrow> int \<Rightarrow> bool \<Rightarrow> engine \<Rightarrow> engine" where
  "start_written n now ok en =
     (if n < length (en_firings en) \<and> fr_phase (en_firings en ! n) = Starting
      then let f = en_firings en ! n in
        if ok
        then move_firing n Running_turns
               (en\<lparr>en_rows := change_row (tg_id (fr_trigger f))
                  (\<lambda>r. r\<lparr>tg_status := Some ''running'', tg_fired := Some now, tg_thread := Some (fr_thread f)\<rparr>)
                  (en_rows en)\<rparr>)
        else drop_firing n en
      else en)"

definition run_ended :: "nat \<Rightarrow> string + string \<Rightarrow> engine \<Rightarrow> engine" where
  "run_ended n result en =
     (if n < length (en_firings en) \<and> fr_phase (en_firings en ! n) = Running_turns
      then move_firing n (case result of Inl m \<Rightarrow> Ending ''error'' m | Inr r \<Rightarrow> Ending ''ok'' r)
             (en\<lparr>en_in_flight := filter (\<lambda>i. i \<noteq> tg_id (fr_trigger (en_firings en ! n))) (en_in_flight en)\<rparr>)
      else en)"

definition end_written :: "nat \<Rightarrow> bool \<Rightarrow> engine \<Rightarrow> engine" where
  "end_written n ok en =
     (if n < length (en_firings en)
      then let f = en_firings en ! n in
        case fr_phase f of
          Ending status reply \<Rightarrow>
            if ok
            then move_firing n (Auditing status reply)
                   (en\<lparr>en_rows := change_row (tg_id (fr_trigger f))
                      (\<lambda>r. r\<lparr>tg_status := Some status, tg_reply := Some (take 2000 reply)\<rparr>) (en_rows en)\<rparr>)
            else drop_firing n en
        | _ \<Rightarrow> en
      else en)"

definition audited :: "nat \<Rightarrow> bool \<Rightarrow> engine \<Rightarrow> engine" where
  "audited n ok en =
     (if n < length (en_firings en)
      then let f = en_firings en ! n in
        case fr_phase f of
          Auditing status reply \<Rightarrow>
            drop_firing n (if ok then en\<lparr>en_audit := en_audit en @ [fired_row f status]\<rparr> else en)
        | _ \<Rightarrow> en
      else en)"

text \<open>\<^verbatim>\<open>tick\<close>: what is due when the rows have been read; the flights are looked at one by one.\<close>

definition is_due :: "cron_date \<Rightarrow> trigger \<Rightarrow> bool" where
  "is_due now t =
     (tg_enabled t \<and> tg_kind t = Cron_trigger \<and> truthy (tg_schedule t) \<and> cron_matches (the (tg_schedule t)) now)"

fun tick_over :: "cron_date \<Rightarrow> (string \<Rightarrow> string) \<Rightarrow> trigger list \<Rightarrow> engine \<Rightarrow> engine" where
  "tick_over now fresh [] en = en"
| "tick_over now fresh (t # ts) en =
     tick_over now fresh ts
       (if is_due now t \<and> tg_id t \<notin> set (en_in_flight en)
        then snd (fire_asked (fresh (tg_id t)) t By_cron en) else en)"

datatype engine_event =
    Fire_asked string trigger fire_cause
  | Ticked cron_date "string \<Rightarrow> string" "trigger list"
  | Start_written nat int bool
  | Run_ended nat "string + string"
  | End_written nat bool
  | Audited nat bool
  | Rows_changed "trigger_row list"

fun engine_step :: "engine_event \<Rightarrow> engine \<Rightarrow> engine" where
  "engine_step (Fire_asked fresh t c) en = snd (fire_asked fresh t c en)"
| "engine_step (Ticked now fresh ts) en = tick_over now fresh ts en"
| "engine_step (Start_written n now ok) en = start_written n now ok en"
| "engine_step (Run_ended n r) en = run_ended n r en"
| "engine_step (End_written n ok) en = end_written n ok en"
| "engine_step (Audited n ok) en = audited n ok en"
| "engine_step (Rows_changed rows) en = en\<lparr>en_rows := rows\<rparr>"

definition new_engine :: "trigger_row list \<Rightarrow> engine" where
  "new_engine rows = \<lparr>en_rows = rows, en_in_flight = [], en_firings = [], en_audit = []\<rparr>"

section \<open>Reading an answer\<close>

lemma read_lines_append:
  "read_lines pj tools (xs @ ys) ans =
     (case read_lines pj tools xs ans of Inl e \<Rightarrow> Inl e | Inr ans' \<Rightarrow> read_lines pj tools ys ans')"
  by (induction xs arbitrary: ans) (auto split: sum.split)

lemma split_when_append_last:
  "split_when p (xs @ ys) = butlast (split_when p xs) @ split_when p (last (split_when p xs) @ ys)"
proof (induction xs)
  case (Cons x xs)
  obtain w ws where w: "split_when p xs = w # ws" using split_when_not_Nil by (metis list.exhaust)
  show ?case
  proof (cases "p x")
    case True
    with Cons show ?thesis by (simp add: w)
  next
    case False
    with Cons show ?thesis by (cases "ws = []") (auto simp: w split: list.split)
  qed
qed simp

text \<open>Where the network cuts the answer does not matter. Reading the chunks one by one gives what
  reading them as one gives, whatever lines the cuts go through.\<close>

theorem chunks_do_not_matter:
  "run_once parse_json tools \<lparr>rr_status = st, rr_body = Some chunks\<rparr> =
     run_once parse_json tools \<lparr>rr_status = st, rr_body = Some [concat chunks]\<rparr>"
proof -
  have "read_chunks parse_json tools chunks buffer ans =
      read_lines parse_json tools (butlast (split_on CHR 0x0A (buffer @ concat chunks))) ans"
    if "CHR 0x0A \<notin> set buffer" for buffer ans
    using that
  proof (induction chunks arbitrary: buffer ans)
    case Nil
    then have "split_on CHR 0x0A buffer = [buffer]" by (intro split_when_none) blast
    then show ?case by simp
  next
    case (Cons chunk chunks)
    let ?ls = "split_on CHR 0x0A (buffer @ chunk)"
    have "last ?ls \<in> set ?ls" by simp
    then have "CHR 0x0A \<notin> set (last ?ls)" by (blast dest: split_when_pieces)
    moreover have "butlast (split_on CHR 0x0A (buffer @ concat (chunk # chunks))) =
        butlast ?ls @ butlast (split_on CHR 0x0A (last ?ls @ concat chunks))"
      using split_when_append_last [of "\<lambda>c. c = CHR 0x0A" "buffer @ chunk" "concat chunks"]
      by (simp add: butlast_append)
    ultimately show ?case
      using Cons.IH by (simp add: Let_def read_lines_append split: sum.split)
  qed
  from this [of "[]"] show ?thesis by (simp add: run_once_def Let_def split: sum.split)
qed

section \<open>The loop of tool calls\<close>

text \<open>Every call a coworker makes is followed by its result, in order, before it is asked again.\<close>

definition tool_id :: "run_message \<Rightarrow> string option" where
  "tool_id m = (case m of Tool_message i v \<Rightarrow> Some i | _ \<Rightarrow> None)"

fun answered :: "run_message list \<Rightarrow> bool" where
  "answered [] = True"
| "answered (User_message t # ms) = answered ms"
| "answered (Assistant_message t calls # ms) =
     (map tool_id (take (length calls) ms) = map (\<lambda>c. Some (tc_id c)) calls \<and> answered (drop (length calls) ms))"
| "answered (Tool_message i v # ms) = False"

definition turns_taken :: "run_message list \<Rightarrow> nat" where
  "turns_taken ms = length (filter (\<lambda>m. case m of Assistant_message t calls \<Rightarrow> True | _ \<Rightarrow> False) ms)"

lemma answered_append: "answered ms \<Longrightarrow> answered (ms @ ns) = answered ns"
proof (induction ms rule: answered.induct)
  case (3 t calls ms)
  then have "length (map tool_id (take (length calls) ms)) = length calls"
    by (metis answered.simps(3) length_map)
  then have "length calls \<le> length ms" by simp
  with 3 show ?case by simp
qed simp_all

lemma answered_turn:
  "answered (assistant_turn t calls # map (\<lambda>c. Tool_message (tc_id c) (f c)) calls)"
  by (simp add: assistant_turn_def tool_id_def o_def)

lemma turns_append: "turns_taken (ms @ ns) = turns_taken ms + turns_taken ns"
  by (simp add: turns_taken_def)

lemma turns_one: "turns_taken (assistant_turn t calls # map (\<lambda>c. Tool_message (tc_id c) (f c)) calls) = 1"
  by (induction calls) (simp_all add: turns_taken_def assistant_turn_def)

lemma run_turns_facts:
  "answered ms \<Longrightarrow> answered (snd (run_turns ask outcome n ms final))
     \<and> turns_taken (snd (run_turns ask outcome n ms final)) \<le> turns_taken ms + n"
proof (induction n arbitrary: ms final)
  case (Suc n)
  show ?case
  proof (cases "ask ms")
    case (Inr a)
    obtain reply calls where a: "a = (reply, calls)" by (cases a)
    let ?ms = "ms @ assistant_turn reply calls # map (\<lambda>c. Tool_message (tc_id c) (outcome c)) calls"
    have "answered ?ms" using Suc.prems answered_append answered_turn by blast
    moreover have "turns_taken ?ms = Suc (turns_taken ms)" by (simp only: turns_append turns_one)
    ultimately show ?thesis
      using Suc.IH [of ?ms "if reply \<noteq> [] then reply else final"] Suc.prems
      by (cases "reply = []") (simp_all add: Inr a Let_def)
  qed (use Suc.prems in simp)
qed simp


section \<open>One firing at a time\<close>

text \<open>The triggers whose firing has begun and whose run has not ended.\<close>

definition under_way :: "firing \<Rightarrow> bool" where
  "under_way f = (fr_phase f = Starting \<or> fr_phase f = Running_turns)"

definition busy :: "engine \<Rightarrow> string list" where
  "busy en = map (\<lambda>f. tg_id (fr_trigger f)) (filter under_way (en_firings en))"

definition flight_inv :: "engine \<Rightarrow> bool" where
  "flight_inv en \<longleftrightarrow> distinct (busy en) \<and> set (busy en) \<subseteq> set (en_in_flight en)"

definition busy_list :: "firing list \<Rightarrow> string list" where
  "busy_list fs = map (\<lambda>f. tg_id (fr_trigger f)) (filter under_way fs)"

lemma busy_update:
  "n < length fs \<Longrightarrow>
     busy_list (fs[n := f]) = busy_list (take n fs) @ busy_list [f] @ busy_list (drop (Suc n) fs)"
  by (simp add: busy_list_def upd_conv_take_nth_drop)

lemma busy_nth: "n < length fs \<Longrightarrow> busy_list fs = busy_list (take n fs) @ busy_list [fs ! n] @ busy_list (drop (Suc n) fs)"
  by (subst id_take_nth_drop [of n fs]) (simp_all add: busy_list_def)

lemma busy_dropped: "busy_list (take n fs @ drop (Suc n) fs) = busy_list (take n fs) @ busy_list (drop (Suc n) fs)"
  by (simp add: busy_list_def)

lemma flight_inv_list: "flight_inv en \<longleftrightarrow> distinct (busy_list (en_firings en)) \<and> set (busy_list (en_firings en)) \<subseteq> set (en_in_flight en)"
  by (simp add: flight_inv_def busy_def busy_list_def)

lemma busy_list_simps:
  "busy_list [] = []" "busy_list [f] = (if under_way f then [tg_id (fr_trigger f)] else [])"
  "busy_list (fs @ gs) = busy_list fs @ busy_list gs"
  by (simp_all add: busy_list_def)

lemma flight_inv_drop:
  assumes "flight_inv en" "n < length (en_firings en)"
  shows "flight_inv (drop_firing n en)"
  using assms busy_nth [OF assms(2)] unfolding flight_inv_list drop_firing_def by (auto simp: busy_dropped)

lemma flight_inv_move:
  assumes "flight_inv en" "n < length (en_firings en)"
    and "under_way ((en_firings en ! n)\<lparr>fr_phase := ph\<rparr>) \<longrightarrow> under_way (en_firings en ! n)"
  shows "flight_inv (move_firing n ph en)"
  using assms busy_nth [OF assms(2)] unfolding flight_inv_list move_firing_def
  by (auto simp: busy_update busy_list_simps)

lemma flight_inv_fire: "flight_inv en \<Longrightarrow> flight_inv (snd (fire_asked fresh t c en))"
  by (auto simp: fire_asked_def flight_inv_list busy_list_simps)

lemma flight_inv_ended:
  assumes "flight_inv en" "n < length (en_firings en)" "under_way (en_firings en ! n)"
    and "ph = Ending status reply"
  shows "flight_inv (move_firing n ph
     (en\<lparr>en_in_flight := filter (\<lambda>i. i \<noteq> tg_id (fr_trigger (en_firings en ! n))) (en_in_flight en)\<rparr>))"
  using assms busy_nth [OF assms(2)] unfolding flight_inv_list move_firing_def
  by (auto simp: busy_update busy_list_simps under_way_def)

lemma flight_inv_cong:
  "flight_inv en \<Longrightarrow> en_firings en' = en_firings en \<Longrightarrow> en_in_flight en' = en_in_flight en \<Longrightarrow> flight_inv en'"
  by (simp add: flight_inv_list)

lemma flight_inv_tick: "flight_inv en \<Longrightarrow> flight_inv (tick_over now fresh ts en)"
  by (induction ts arbitrary: en) (auto intro: flight_inv_fire)

lemma engine_step_flight: "flight_inv en \<Longrightarrow> flight_inv (engine_step e en)"
proof (induction e en rule: engine_step.induct)
  case (1 fresh t c en)
  then show ?case by (simp add: flight_inv_fire)
next
  case (2 now fresh ts en)
  then show ?case by (simp add: flight_inv_tick)
next
  case (3 n now ok en)
  let ?f = "en_firings en ! n"
  show ?case
  proof (cases "n < length (en_firings en) \<and> fr_phase ?f = Starting")
    case True
    let ?en = "en\<lparr>en_rows := change_row (tg_id (fr_trigger ?f))
        (\<lambda>r. r\<lparr>tg_status := Some ''running'', tg_fired := Some now, tg_thread := Some (fr_thread ?f)\<rparr>) (en_rows en)\<rparr>"
    have "flight_inv ?en" by (rule flight_inv_cong [OF 3]) simp_all
    then have "flight_inv (move_firing n Running_turns ?en)"
      using True by (intro flight_inv_move) (simp_all add: under_way_def)
    with True flight_inv_drop [OF 3] show ?thesis by (simp add: start_written_def Let_def)
  qed (use 3 in \<open>auto simp: start_written_def\<close>)
next
  case (4 n r en)
  have "flight_inv (move_firing n (case r of Inl m \<Rightarrow> Ending ''error'' m | Inr m \<Rightarrow> Ending ''ok'' m)
      (en\<lparr>en_in_flight := filter (\<lambda>i. i \<noteq> tg_id (fr_trigger (en_firings en ! n))) (en_in_flight en)\<rparr>))"
    if "n < length (en_firings en)" "fr_phase (en_firings en ! n) = Running_turns"
    using flight_inv_ended [OF 4 that(1)] that(2) by (cases r) (simp_all add: under_way_def)
  with 4 show ?case by (simp add: run_ended_def)
next
  case (5 n ok en)
  have moved: "flight_inv (move_firing n (Auditing st rp)
      (en\<lparr>en_rows := change_row i g (en_rows en)\<rparr>))" if "n < length (en_firings en)" for st rp i g
    using that by (intro flight_inv_move flight_inv_cong [OF 5]) (simp_all add: under_way_def)
  with 5 flight_inv_drop [OF 5] show ?case
    by (auto simp: end_written_def Let_def split: fire_phase.split)
next
  case (6 n ok en)
  have "flight_inv (drop_firing n (en\<lparr>en_audit := as\<rparr>))" if "n < length (en_firings en)" for as
    using that by (intro flight_inv_drop flight_inv_cong [OF 6]) simp_all
  with 6 flight_inv_drop [OF 6] show ?case
    by (auto simp: audited_def Let_def split: fire_phase.split)
next
  case (7 rows en)
  then show ?case using flight_inv_cong by simp
qed

lemma reachable_flight: "flight_inv (fold engine_step events (new_engine rows))"
proof (induction events rule: rev_induct)
  case Nil
  show ?case by (simp add: new_engine_def flight_inv_def busy_def)
next
  case (snoc e events)
  then show ?case by (simp add: engine_step_flight)
qed

text \<open>C15: a trigger runs one firing at a time. However asks, ticks, runs, writes that fail and edits of the
  table interleave, no two firings of one trigger are between their beginning and the end of their run.\<close>

theorem firings_not_stacked:
  "distinct (busy (fold engine_step events (new_engine rows)))"
  using reachable_flight by (simp add: flight_inv_def)

section \<open>A first write that fails\<close>

text \<open>An id in the set of flights that no firing is running for.\<close>

definition stranded :: "string \<Rightarrow> engine \<Rightarrow> bool" where
  "stranded i en = (i \<in> set (en_in_flight en) \<and> i \<notin> set (busy en))"

lemma stranded_list: "stranded i en = (i \<in> set (en_in_flight en) \<and> i \<notin> set (busy_list (en_firings en)))"
  by (simp add: stranded_def busy_def busy_list_def)

lemma stranded_cong:
  "stranded i en \<Longrightarrow> en_firings en' = en_firings en \<Longrightarrow> en_in_flight en' = en_in_flight en \<Longrightarrow> stranded i en'"
  by (simp add: stranded_list)

lemma stranded_drop: "stranded i en \<Longrightarrow> n < length (en_firings en) \<Longrightarrow> stranded i (drop_firing n en)"
  using busy_nth [of n "en_firings en"] by (auto simp: stranded_list drop_firing_def busy_dropped)

lemma stranded_move:
  "stranded i en \<Longrightarrow> n < length (en_firings en) \<Longrightarrow>
     under_way ((en_firings en ! n)\<lparr>fr_phase := ph\<rparr>) \<longrightarrow> under_way (en_firings en ! n) \<Longrightarrow>
     stranded i (move_firing n ph en)"
  using busy_nth [of n "en_firings en"]
  by (auto simp: stranded_list move_firing_def busy_update busy_list_simps)

lemma stranded_fire: "stranded i en \<Longrightarrow> stranded i (snd (fire_asked fresh t c en))"
  by (auto simp: fire_asked_def stranded_list busy_list_simps)

lemma stranded_tick: "stranded i en \<Longrightarrow> stranded i (tick_over now fresh ts en)"
  by (induction ts arbitrary: en) (auto intro: stranded_fire)

lemma stranded_ended:
  assumes "stranded i en" "n < length (en_firings en)" "fr_phase (en_firings en ! n) = Running_turns"
    and "ph = Ending status reply"
  shows "stranded i (move_firing n ph
     (en\<lparr>en_in_flight := filter (\<lambda>j. j \<noteq> tg_id (fr_trigger (en_firings en ! n))) (en_in_flight en)\<rparr>))"
  using assms busy_nth [OF assms(2)] unfolding stranded_list move_firing_def
  by (auto simp: busy_update busy_list_simps under_way_def)

lemma engine_step_stranded: "stranded i en \<Longrightarrow> stranded i (engine_step e en)"
proof (induction e en rule: engine_step.induct)
  case (1 fresh t c en)
  then show ?case by (simp add: stranded_fire)
next
  case (2 now fresh ts en)
  then show ?case by (simp add: stranded_tick)
next
  case (3 n now ok en)
  have "stranded i (move_firing n Running_turns (en\<lparr>en_rows := rows\<rparr>))"
    if "n < length (en_firings en)" "fr_phase (en_firings en ! n) = Starting" for rows
    using that by (intro stranded_move stranded_cong [OF 3]) (simp_all add: under_way_def)
  with stranded_drop [OF 3] 3 show ?case by (simp add: start_written_def Let_def)
next
  case (4 n r en)
  have "stranded i (move_firing n (case r of Inl m \<Rightarrow> Ending ''error'' m | Inr m \<Rightarrow> Ending ''ok'' m)
      (en\<lparr>en_in_flight := filter (\<lambda>j. j \<noteq> tg_id (fr_trigger (en_firings en ! n))) (en_in_flight en)\<rparr>))"
    if "n < length (en_firings en)" "fr_phase (en_firings en ! n) = Running_turns"
    using stranded_ended [OF 4 that] by (cases r) simp_all
  with 4 show ?case by (simp add: run_ended_def)
next
  case (5 n ok en)
  have "stranded i (move_firing n (Auditing st rp) (en\<lparr>en_rows := rows\<rparr>))"
    if "n < length (en_firings en)" for st rp rows
    using that by (intro stranded_move stranded_cong [OF 5]) (simp_all add: under_way_def)
  with stranded_drop [OF 5] 5 show ?case
    by (auto simp: end_written_def Let_def split: fire_phase.split)
next
  case (6 n ok en)
  have "stranded i (drop_firing n (en\<lparr>en_audit := as\<rparr>))" if "n < length (en_firings en)" for as
    using that by (intro stranded_drop stranded_cong [OF 6]) simp_all
  with stranded_drop [OF 6] 6 show ?case
    by (auto simp: audited_def Let_def split: fire_phase.split)
next
  case (7 rows en)
  then show ?case using stranded_cong by simp
qed

lemma stranded_run: "stranded i en \<Longrightarrow> stranded i (fold engine_step events en)"
  by (induction events arbitrary: en) (simp_all add: engine_step_stranded)

lemma failed_start_strands:
  assumes "flight_inv en" "n < length (en_firings en)" "fr_phase (en_firings en ! n) = Starting"
  shows "stranded (tg_id (fr_trigger (en_firings en ! n))) (start_written n now False en)"
  using assms busy_nth [OF assms(2)]
  by (auto simp: start_written_def Let_def stranded_list flight_inv_list drop_firing_def busy_dropped
      busy_list_simps under_way_def)

text \<open>a first write that fails is the end of a trigger. From any state the engine can reach, when the update
  that marks a firing as running is rejected, no run of that trigger is ever under way again and every
  later asking is answered that a firing is already running, whatever happens afterwards.\<close>

theorem failed_start_blocks_trigger:
  assumes "en = fold engine_step before (new_engine rows)"
    and "n < length (en_firings en)" and "fr_phase (en_firings en ! n) = Starting"
    and "i = tg_id (fr_trigger (en_firings en ! n))"
  shows "i \<notin> set (busy (fold engine_step (Start_written n now False # after) en))
     \<and> fst (fire_asked fresh (t\<lparr>tg_id := i\<rparr>) c (fold engine_step (Start_written n now False # after) en))
         = Some already_running"
proof -
  have "stranded i (fold engine_step after (start_written n now False en))"
    using failed_start_strands assms reachable_flight stranded_run by blast
  then show ?thesis by (simp add: stranded_def fire_asked_def)
qed

definition hourly :: "string \<Rightarrow> trigger" where
  "hourly i = \<lparr>tg_id = i, tg_name = ''report'', tg_agent = ''writer'', tg_kind = Cron_trigger, tg_schedule = Some ''0 * * * *'',
     tg_prompt = ''Write the report.'', tg_enabled = True, tg_mode = New_thread, tg_thread = None, tg_fired = None,
     tg_status = None, tg_reply = None\<rparr>"

theorem failed_start_blocks_trigger_witness:
  "fst (fire_asked ''t2'' (hourly ''a'') By_hand
     (fold engine_step [Start_written 0 1000 False, Rows_changed []]
       (fold engine_step [Fire_asked ''t1'' (hourly ''a'') By_cron] (new_engine [])))) = Some already_running"
proof -
  have "n = 0 \<Longrightarrow> n < length (en_firings (fold engine_step [Fire_asked ''t1'' (hourly ''a'') By_cron] (new_engine [])))"
    "fr_phase (en_firings (fold engine_step [Fire_asked ''t1'' (hourly ''a'') By_cron] (new_engine [])) ! 0) = Starting"
    "tg_id (fr_trigger (en_firings (fold engine_step [Fire_asked ''t1'' (hourly ''a'') By_cron] (new_engine [])) ! 0)) = ''a''" for n :: nat
    by (simp_all add: fire_asked_def new_engine_def hourly_def)
  with failed_start_blocks_trigger [OF refl, where n = 0 and before = "[Fire_asked ''t1'' (hourly ''a'') By_cron]"
      and rows = "[]" and i = "''a''" and after = "[Rows_changed []]" and fresh = "''t2''" and t = "hourly ''a''" and c = By_hand]
  show ?thesis by (simp add: hourly_def)
qed

section \<open>What a tick fires\<close>

lemma tick_over_fires:
  "distinct (map tg_id ts) \<Longrightarrow>
   map (\<lambda>f. (fr_trigger f, fr_cause f, fr_phase f)) (en_firings (tick_over now fresh ts en)) =
     map (\<lambda>f. (fr_trigger f, fr_cause f, fr_phase f)) (en_firings en)
     @ map (\<lambda>t. (t, By_cron, Starting))
         (filter (\<lambda>t. is_due now t \<and> tg_id t \<notin> set (en_in_flight en)) ts)"
proof (induction ts arbitrary: en)
  case (Cons t ts)
  have "filter (\<lambda>u. is_due now u \<and> tg_id u \<notin> set (tg_id t # en_in_flight en)) ts =
      filter (\<lambda>u. is_due now u \<and> tg_id u \<notin> set (en_in_flight en)) ts"
  proof (intro filter_cong refl)
    fix u assume "u \<in> set ts"
    then have "tg_id u \<noteq> tg_id t" using Cons.prems by (metis distinct.simps(2) image_eqI list.set_map list.simps(9))
    then show "(is_due now u \<and> tg_id u \<notin> set (tg_id t # en_in_flight en)) =
        (is_due now u \<and> tg_id u \<notin> set (en_in_flight en))" by simp
  qed
  with Cons show ?case by (simp add: fire_asked_def)
qed simp

text \<open>A tick fires exactly what is due: of the rows it read, in their order, each enabled cron trigger whose
  schedule matches the minute and that is not already firing, each once, with the cron cause.\<close>

theorem tick_fires_due:
  assumes "distinct (map tg_id ts)"
  shows "map (\<lambda>f. (fr_trigger f, fr_cause f)) (drop (length (en_firings en)) (en_firings (tick_over now fresh ts en))) =
     map (\<lambda>t. (t, By_cron)) (filter (\<lambda>t. is_due now t \<and> tg_id t \<notin> set (en_in_flight en)) ts)"
proof -
  have "map (\<lambda>(t, c, p). (t, c)) (map (\<lambda>f. (fr_trigger f, fr_cause f, fr_phase f)) (en_firings (tick_over now fresh ts en))) =
     map (\<lambda>(t, c, p). (t, c)) (map (\<lambda>f. (fr_trigger f, fr_cause f, fr_phase f)) (en_firings en)
     @ map (\<lambda>t. (t, By_cron, Starting))
         (filter (\<lambda>t. is_due now t \<and> tg_id t \<notin> set (en_in_flight en)) ts))"
    using tick_over_fires [OF assms] by (rule arg_cong)
  then show ?thesis by (simp add: o_def drop_map [symmetric])
qed

theorem tick_fires_due_witness:
  "map (\<lambda>f. tg_id (fr_trigger f))
     (en_firings (tick_over \<lparr>cd_minute = 0, cd_hour = 9, cd_day = 1, cd_month = 6, cd_weekday = 1\<rparr> (\<lambda>i. ''t-'' @ i)
        [hourly ''a'', (hourly ''b'')\<lparr>tg_enabled := False\<rparr>, hourly ''c''] (new_engine []))) = [''a'', ''c'']"
proof -
  let ?now = "\<lparr>cd_minute = 0, cd_hour = 9, cd_day = 1, cd_month = 6, cd_weekday = 1\<rparr>"
  let ?ts = "[hourly ''a'', (hourly ''b'')\<lparr>tg_enabled := False\<rparr>, hourly ''c'']"
  have "map (\<lambda>t. (t, By_cron)) (filter (\<lambda>t. is_due ?now t \<and> tg_id t \<notin> set []) ?ts)
      = [(hourly ''a'', By_cron), (hourly ''c'', By_cron)]"
    by code_simp
  moreover have "distinct (map tg_id ?ts)" by (simp add: hourly_def)
  ultimately have "map (\<lambda>f. (fr_trigger f, fr_cause f)) (en_firings (tick_over ?now (\<lambda>i. ''t-'' @ i) ?ts (new_engine [])))
      = [(hourly ''a'', By_cron), (hourly ''c'', By_cron)]"
    using tick_fires_due [of ?ts "new_engine []" ?now "\<lambda>i. ''t-'' @ i"] by (simp add: new_engine_def)
  then have "map (tg_id \<circ> fst) (map (\<lambda>f. (fr_trigger f, fr_cause f)) (en_firings (tick_over ?now (\<lambda>i. ''t-'' @ i) ?ts (new_engine []))))
      = [''a'', ''c'']"
    by (simp add: hourly_def)
  then show ?thesis by (simp add: o_def)
qed

end
