(* ===== verification/Codec.thy ===== *)
theory Codec
  imports Prelude
begin

text \<open>
  Text as Node turns it into bytes and back, shared by the statements the server signs and the
  addresses it builds: UTF-8 of a JavaScript string, base64url of bytes, \<^verbatim>\<open>JSON.stringify\<close>, and the
  percent encoding of a path segment.  Bytes are natural numbers below 256.
\<close>

section \<open>UTF-8\<close>

definition utf8_char :: "char \<Rightarrow> nat list" where
  "utf8_char c = (let n = char_code c in if n < 128 then [n] else [192 + n div 64, 128 + n mod 64])"

definition utf8 :: "string \<Rightarrow> nat list" where
  "utf8 s = concat (map utf8_char s)"

lemma utf8_simps [simp]: "utf8 [] = []" "utf8 (c # s) = utf8_char c @ utf8 s" "utf8 (s @ t) = utf8 s @ utf8 t"
  by (simp_all add: utf8_def)

lemma utf8_char_prefix: "utf8_char c @ xs = utf8_char d @ ys \<Longrightarrow> c = d"
proof -
  assume *: "utf8_char c @ xs = utf8_char d @ ys"
  have "char_code c = char_code d"
    using * char_code_less [of c] char_code_less [of d]
    by (auto simp: utf8_char_def Let_def split: if_splits) (metis div_mult_mod_eq)
  then show "c = d" by (simp add: char_code_inj)
qed

lemma utf8_char_not_Nil [simp]: "utf8_char c \<noteq> []"
  by (simp add: utf8_char_def Let_def)

lemma utf8_inject [simp]: "utf8 s = utf8 t \<longleftrightarrow> s = t"
proof
  show "utf8 s = utf8 t \<Longrightarrow> s = t"
  proof (induction s t rule: list_induct2')
    case (4 c s d t)
    then have "c = d" using utf8_char_prefix by auto
    with 4 show ?case by simp
  qed auto
qed simp

section \<open>base64url\<close>

definition b64_char :: "nat \<Rightarrow> char" where
  "b64_char d =
     (if d < 26 then char_of (65 + d) else if d < 52 then char_of (71 + d)
      else if d < 62 then char_of (d - 4) else if d = 62 then CHR ''-'' else CHR ''_'')"

fun b64url :: "nat list \<Rightarrow> string" where
  "b64url (a # b # c # bs) =
     b64_char (a div 4) # b64_char (a mod 4 * 16 + b div 16) # b64_char (b mod 16 * 4 + c div 64)
       # b64_char (c mod 64) # b64url bs"
| "b64url [a, b] = [b64_char (a div 4), b64_char (a mod 4 * 16 + b div 16), b64_char (b mod 16 * 4)]"
| "b64url [a] = [b64_char (a div 4), b64_char (a mod 4 * 16)]"
| "b64url [] = []"

text \<open>Node reads both alphabets and passes over what belongs to neither.\<close>

definition b64_digit :: "char \<Rightarrow> nat option" where
  "b64_digit ch =
     (let n = char_code ch in
      if 65 \<le> n \<and> n \<le> 90 then Some (n - 65)
      else if 97 \<le> n \<and> n \<le> 122 then Some (n - 71)
      else if 48 \<le> n \<and> n \<le> 57 then Some (n + 4)
      else if n = 45 \<or> n = 43 then Some 62
      else if n = 95 \<or> n = 47 then Some 63
      else None)"

fun b64_bytes :: "nat list \<Rightarrow> nat list" where
  "b64_bytes (p # q # r # s # ds) =
     (p * 4 + q div 16) # (q mod 16 * 16 + r div 4) # (r mod 4 * 64 + s) # b64_bytes ds"
| "b64_bytes [p, q, r] = [p * 4 + q div 16, q mod 16 * 16 + r div 4]"
| "b64_bytes [p, q] = [p * 4 + q div 16]"
| "b64_bytes ds = []"

definition b64url_decode :: "string \<Rightarrow> nat list" where
  "b64url_decode s = b64_bytes (List.map_filter b64_digit s)"

lemma b64_digit_char [simp]: "d < 64 \<Longrightarrow> b64_digit (b64_char d) = Some d"
  by (auto simp: b64_digit_def b64_char_def char_code_def Let_def of_char_mod_256)

lemma map_filter_Cons: "List.map_filter f (x # xs) = (case f x of None \<Rightarrow> List.map_filter f xs | Some y \<Rightarrow> y # List.map_filter f xs)"
  by (simp add: List.map_filter_def split: option.split)

lemma map_filter_Nil: "List.map_filter f [] = []"
  by (simp add: List.map_filter_def)

lemma sextets:
  fixes a b :: nat
  assumes "a < 256" "b < 256"
  shows "a div 4 < 64" "a mod 4 * 16 + b div 16 < 64" "a mod 16 * 4 + b div 64 < 64" "a mod 64 < 64"
    "(a mod 4 * 16 + b div 16) div 16 = a mod 4" "(a mod 4 * 16 + b div 16) mod 16 = b div 16"
    "(a mod 16 * 4 + b div 64) div 4 = a mod 16" "(a mod 16 * 4 + b div 64) mod 4 = b div 64"
proof -
  have "b div 16 < 16" "b div 64 < 4" "a mod 4 < 4" "a mod 16 < 16" using assms by simp_all
  then show "a mod 4 * 16 + b div 16 < 64" "a mod 16 * 4 + b div 64 < 64"
    "(a mod 4 * 16 + b div 16) div 16 = a mod 4" "(a mod 4 * 16 + b div 16) mod 16 = b div 16"
    "(a mod 16 * 4 + b div 64) div 4 = a mod 16" "(a mod 16 * 4 + b div 64) mod 4 = b div 64"
    by simp_all
qed (use assms in simp_all)

lemma map_filter_b64_char:
  "d < 64 \<Longrightarrow> List.map_filter b64_digit (b64_char d # s) = d # List.map_filter b64_digit s"
  by (simp add: map_filter_Cons)

lemma b64url_roundtrip: "(\<forall>b \<in> set bs. b < 256) \<Longrightarrow> b64url_decode (b64url bs) = bs"
proof (induction bs rule: b64url.induct)
  case (1 a b c bs)
  then have small: "a < 256" "b < 256" "c < 256" by simp_all
  have "List.map_filter b64_digit (b64url (a # b # c # bs)) =
      a div 4 # (a mod 4 * 16 + b div 16) # (b mod 16 * 4 + c div 64) # c mod 64
        # List.map_filter b64_digit (b64url bs)"
    using sextets [OF small(1,2)] sextets [OF small(2,3)] sextets [OF small(3,3)]
    by (simp only: b64url.simps map_filter_b64_char)
  then have "b64url_decode (b64url (a # b # c # bs)) =
      (a div 4 * 4 + a mod 4) # (b div 16 * 16 + b mod 16) # (c div 64 * 64 + c mod 64) # b64url_decode (b64url bs)"
    by (simp only: b64url_decode_def b64_bytes.simps sextets [OF small(1,2)] sextets [OF small(2,3)])
  moreover have "b64url_decode (b64url bs) = bs" using 1 by simp
  ultimately show ?case by (simp only: div_mult_mod_eq)
next
  case (2 a b)
  then have small: "a < 256" "b < 256" by simp_all
  have last: "b mod 16 * 4 + 0 div 64 < 64" "(b mod 16 * 4 + 0 div 64) div 4 = b mod 16"
    using sextets [of b 0] small by simp_all
  then have last: "b mod 16 * 4 < 64" "(b mod 16 * 4) div 4 = b mod 16" by simp_all
  have "List.map_filter b64_digit (b64url [a, b]) = [a div 4, a mod 4 * 16 + b div 16, b mod 16 * 4]"
    using last sextets [OF small] by (simp only: b64url.simps map_filter_b64_char map_filter_Nil)
  then have "b64url_decode (b64url [a, b]) = [a div 4 * 4 + a mod 4, b div 16 * 16 + b mod 16]"
    by (simp only: b64url_decode_def b64_bytes.simps sextets [OF small] last)
  then show ?case by (simp only: div_mult_mod_eq)
next
  case (3 a)
  then have small: "a < 256" by simp
  have last: "a mod 4 * 16 < 64" "(a mod 4 * 16) div 16 = a mod 4" using sextets [of a 0] small by simp_all
  have "List.map_filter b64_digit (b64url [a]) = [a div 4, a mod 4 * 16]"
    using last sextets [OF small small] by (simp only: b64url.simps map_filter_b64_char map_filter_Nil)
  then have "b64url_decode (b64url [a]) = [a div 4 * 4 + a mod 4]"
    by (simp only: b64url_decode_def b64_bytes.simps last)
  then show ?case by (simp only: div_mult_mod_eq)
qed (simp add: b64url_decode_def List.map_filter_simps)

lemma char_code_dot: "char_code (CHR ''.'') = 46"
  by (simp add: char_code_def)

lemma b64_char_no_dot [simp]: "b64_char d \<noteq> CHR ''.''" "CHR ''.'' \<noteq> b64_char d"
proof -
  have "char_code (b64_char d) \<noteq> 46"
    by (auto simp: b64_char_def char_code_def of_char_mod_256)
  then show "b64_char d \<noteq> CHR ''.''" "CHR ''.'' \<noteq> b64_char d" by (metis char_code_dot)+
qed

lemma b64url_no_dot [simp]: "CHR ''.'' \<notin> set (b64url bs)"
  by (induction bs rule: b64url.induct) simp_all

lemma b64url_eq_Nil [simp]: "b64url bs = [] \<longleftrightarrow> bs = []"
  by (cases bs rule: b64url.cases) simp_all

lemma length_b64url: "length (b64url bs) = (4 * length bs + 2) div 3"
  by (induction bs rule: b64url.induct) simp_all

section \<open>JSON text\<close>

fun js_stringify :: "jsv \<Rightarrow> string" where
  "js_stringify JUndef = ''null''"
| "js_stringify JNull = ''null''"
| "js_stringify (JBool b) = (if b then ''true'' else ''false'')"
| "js_stringify (JNum n) = show_int n"
| "js_stringify (JStr s) = json_quote s"
| "js_stringify (JArr vs) = ''['' @ join_with '','' (map js_stringify vs) @ '']''"
| "js_stringify (JObj kvs) =
     ''{'' @ join_with '','' (concat (map (\<lambda>(k, v). if v = JUndef then [] else [json_quote k @ '':'' @ js_stringify v]) kvs)) @ ''}''"

section \<open>Percent encoding\<close>

definition upper_hex :: "nat \<Rightarrow> char" where
  "upper_hex d = (if d < 10 then char_of (48 + d) else char_of (55 + d))"

definition unreserved :: "char \<Rightarrow> bool" where
  "unreserved c =
     (let n = char_code c in
      (65 \<le> n \<and> n \<le> 90) \<or> (97 \<le> n \<and> n \<le> 122) \<or> (48 \<le> n \<and> n \<le> 57) \<or> c \<in> set ''-_.!~*''
        \<or> n \<in> {39, 40, 41})"

definition percent :: "nat \<Rightarrow> string" where
  "percent b = [CHR ''%'', upper_hex (b div 16), upper_hex (b mod 16)]"

definition encode_uri_component :: "string \<Rightarrow> string" where
  "encode_uri_component s = concat (map (\<lambda>c. if unreserved c then [c] else concat (map percent (utf8_char c))) s)"

text \<open>No path separator, query or fragment mark survives.\<close>

definition path_mark :: "char \<Rightarrow> bool" where
  "path_mark c = (char_code c \<in> {35, 47, 58, 63})"

lemma upper_hex_plain: "d < 16 \<Longrightarrow> \<not> path_mark (upper_hex d)"
  by (auto simp: upper_hex_def path_mark_def)

lemma byte_bounds: "q < 4 \<Longrightarrow> 192 + q < (256::nat)" "r < 64 \<Longrightarrow> 128 + r < (256::nat)"
  by simp_all

lemma utf8_char_byte: "b \<in> set (utf8_char c) \<Longrightarrow> b < 256"
proof -
  have "char_code c < 4 * 64" by simp
  then have high: "char_code c div 64 < 4" by (rule less_mult_imp_div_less)
  have low: "char_code c mod 64 < 64" by (rule mod_less_divisor) simp
  assume "b \<in> set (utf8_char c)"
  then consider "b = char_code c" | "b = 192 + char_code c div 64" | "b = 128 + char_code c mod 64"
    unfolding utf8_char_def Let_def
    by (cases "char_code c < 128") (simp_all only: if_True if_False list.set insert_iff empty_iff, blast+)
  then show "b < 256"
  proof cases
    case 2
    then show ?thesis using byte_bounds(1) [OF high] by (simp only:)
  next
    case 3
    then show ?thesis using byte_bounds(2) [OF low] by (simp only:)
  qed simp
qed

lemma utf8_bytes: "b \<in> set (utf8 s) \<Longrightarrow> b < 256"
  unfolding utf8_def set_concat set_map using utf8_char_byte by blast

lemma percent_plain: "b < 256 \<Longrightarrow> c \<in> set (percent b) \<Longrightarrow> \<not> path_mark c"
proof -
  assume "b < 256"
  then have "b < 16 * 16" by simp
  then have "b div 16 < 16" by (rule less_mult_imp_div_less)
  then have "\<not> path_mark (upper_hex (b div 16))" by (rule upper_hex_plain)
  moreover have "b mod 16 < 16" by (rule mod_less_divisor) simp
  then have "\<not> path_mark (upper_hex (b mod 16))" by (rule upper_hex_plain)
  moreover have "\<not> path_mark (CHR ''%'')" by (simp add: path_mark_def char_code_def)
  ultimately show "c \<in> set (percent b) \<Longrightarrow> \<not> path_mark c"
    unfolding percent_def by (metis empty_iff insert_iff list.set(1) list.set(2))
qed

lemma unreserved_plain: "unreserved c \<Longrightarrow> \<not> path_mark c"
  by (auto simp: unreserved_def path_mark_def Let_def char_code_def)

lemma encode_uri_component_plain: "c \<in> set (encode_uri_component s) \<Longrightarrow> \<not> path_mark c"
  using unreserved_plain percent_plain utf8_char_byte
  by (fastforce simp: encode_uri_component_def split: if_splits)

end
