(* ===== verification/Signed.thy ===== *)
theory Signed
  imports Codec
begin

text \<open>
  What the server signs and later recognises: \<^verbatim>\<open>server/src/auth/signed-value.ts\<close>, the callback tokens
  and run assertions of \<^verbatim>\<open>server/src/agents/callback-token.ts\<close> with the verdict over a tool call, and
  the connect flow of \<^verbatim>\<open>server/src/plugins/oauth.ts\<close>.

  HMAC-SHA-256 is a parameter from key and data to bytes, SHA-256 one from bytes to bytes, and
  \<^verbatim>\<open>JSON.parse\<close> over UTF-8 bytes one that answers \<open>Inl\<close> where it throws.  No theorem here assumes
  anything of the first two; where a theorem reads a statement back, it is assumed that parsing the
  text of that statement gives it.
\<close>

section \<open>A signed value\<close>

type_synonym mac = "nat list \<Rightarrow> nat list \<Rightarrow> nat list"

definition signing_key :: "mac \<Rightarrow> string \<Rightarrow> string \<Rightarrow> nat list" where
  "signing_key hmac encryption_key label = hmac (utf8 encryption_key) (utf8 label)"

definition sign :: "mac \<Rightarrow> string \<Rightarrow> string \<Rightarrow> string \<Rightarrow> string" where
  "sign hmac val encryption_key label =
     val @ ''.'' @ b64url (hmac (signing_key hmac encryption_key label) (utf8 val))"

definition last_index_of :: "char \<Rightarrow> string \<Rightarrow> int" where
  "last_index_of c s = int (length (dropWhile (\<lambda>d. d \<noteq> c) (rev s))) - 1"

definition verify :: "mac \<Rightarrow> string option \<Rightarrow> string \<Rightarrow> string \<Rightarrow> string option" where
  "verify hmac stamped encryption_key label =
     (if \<not> truthy stamped then None
      else let s = the stamped; separator = last_index_of (CHR ''.'') s in
        if separator \<le> 0 then None
        else let val = take (nat separator) s;
                 given = utf8 s; wanted = utf8 (sign hmac val encryption_key label) in
          if length given \<noteq> length wanted then None
          else if given = wanted then Some val else None)"

section \<open>Callback tokens and run assertions\<close>

definition token_prefix :: string where
  "token_prefix = ''obot_agt_''"

definition run_label :: string where
  "run_label = ''openbot:agent-run''"

definition run_ttl_ms :: int where
  "run_ttl_ms = 10 * 60 * 1000"

text \<open>The bytes are the 32 that \<^verbatim>\<open>randomBytes\<close> gives.\<close>

definition mint_callback_token :: "nat list \<Rightarrow> string" where
  "mint_callback_token random = token_prefix @ b64url random"

definition hash_callback_token :: "(nat list \<Rightarrow> nat list) \<Rightarrow> string \<Rightarrow> string" where
  "hash_callback_token sha256 token = concat (map (\<lambda>b. [hex_digit (b div 16), hex_digit (b mod 16)]) (sha256 (utf8 token)))"

definition looks_like_callback_token :: "string \<Rightarrow> bool" where
  "looks_like_callback_token v \<longleftrightarrow> prefix token_prefix v \<and> length v > length token_prefix + 20"

definition same_token :: "string \<Rightarrow> string \<Rightarrow> bool" where
  "same_token a b =
     (let left = utf8 a; right = utf8 b in
      if length left \<noteq> length right then False else left = right)"

record run_assertion =
  ra_bot :: string
  ra_actor :: string
  ra_run :: string

definition signed_run :: "run_assertion \<Rightarrow> int \<Rightarrow> jsv" where
  "signed_run run ex =
     JObj [(''botId'', JStr (ra_bot run)), (''actorId'', JStr (ra_actor run)), (''runId'', JStr (ra_run run)),
           (''exp'', JNum ex)]"

definition mint_run_assertion :: "mac \<Rightarrow> run_assertion \<Rightarrow> string \<Rightarrow> int \<Rightarrow> string" where
  "mint_run_assertion hmac run encryption_key now =
     sign hmac (b64url (utf8 (js_stringify (signed_run run (now + run_ttl_ms))))) encryption_key run_label"

definition run_of_payload :: "jsv \<Rightarrow> int \<Rightarrow> run_assertion option" where
  "run_of_payload payload now =
     (case (js_string_field payload ''botId'', js_string_field payload ''actorId'',
            js_string_field payload ''runId'', js_field payload ''exp'') of
        (Some b, Some a, Some r, Some (JNum ex)) \<Rightarrow>
          if ex \<le> now then None else Some \<lparr>ra_bot = b, ra_actor = a, ra_run = r\<rparr>
      | _ \<Rightarrow> None)"

definition read_run_assertion ::
  "mac \<Rightarrow> (nat list \<Rightarrow> string + jsv) \<Rightarrow> jsv \<Rightarrow> string \<Rightarrow> int \<Rightarrow> run_assertion option" where
  "read_run_assertion hmac parse_json stamped encryption_key now =
     (case stamped of
        JStr s \<Rightarrow>
          if s = [] then None
          else (case verify hmac (Some s) encryption_key run_label of
              None \<Rightarrow> None
            | Some val \<Rightarrow>
                (case parse_json (b64url_decode val) of
                   Inl e \<Rightarrow> None
                 | Inr payload \<Rightarrow> run_of_payload payload now))
      | _ \<Rightarrow> None)"

datatype call_verdict = Accepted string string | Refused int string

definition not_authorised :: call_verdict where
  "not_authorised = Refused 401 ''Not authorised.''"

definition caller_of ::
  "(nat list \<Rightarrow> nat list) \<Rightarrow> (string \<Rightarrow> string option) \<Rightarrow> string option \<Rightarrow> string \<Rightarrow> run_assertion \<Rightarrow> string option" where
  "caller_of sha256 lookup legacy presented run =
     (if looks_like_callback_token presented then lookup (hash_callback_token sha256 presented)
      else if truthy legacy \<and> same_token presented (the legacy) then Some (ra_bot run)
      else None)"

definition authorise_agent_call ::
  "mac \<Rightarrow> (nat list \<Rightarrow> nat list) \<Rightarrow> (nat list \<Rightarrow> string + jsv) \<Rightarrow> (string \<Rightarrow> string option) \<Rightarrow> string option
     \<Rightarrow> string \<Rightarrow> jsv \<Rightarrow> string \<Rightarrow> int \<Rightarrow> call_verdict" where
  "authorise_agent_call hmac sha256 parse_json lookup legacy presented run encryption_key now =
     (if presented = [] then not_authorised
      else case read_run_assertion hmac parse_json run encryption_key now of
        None \<Rightarrow> not_authorised
      | Some a \<Rightarrow>
          (case caller_of sha256 lookup legacy presented a of
             None \<Rightarrow> not_authorised
           | Some caller \<Rightarrow>
               if caller \<noteq> ra_bot a then Refused 403 ''That token is not for this Bot.''
               else Accepted (ra_bot a) (ra_actor a)))"

section \<open>The connect flow\<close>

definition connect_label :: string where
  "connect_label = ''mcp-oauth-connect''"

definition state_ttl_ms :: int where
  "state_ttl_ms = 10 * 60000"

datatype connect_origin = Settings | Admin

record connect_state =
  cs_user :: string
  cs_server :: string
  cs_verifier :: string
  cs_return :: "connect_origin option"

definition origin_text :: "connect_origin \<Rightarrow> string" where
  "origin_text r = (case r of Settings \<Rightarrow> ''settings'' | Admin \<Rightarrow> ''admin'')"

definition strip_slashes :: "string \<Rightarrow> string" where
  "strip_slashes s = rev (dropWhile (\<lambda>c. c = CHR ''/'') (rev s))"

definition redirect_uri_for :: "string \<Rightarrow> string" where
  "redirect_uri_for public_url = strip_slashes public_url @ ''/api/plugins/oauth/callback''"

text \<open>Where somebody is sent back to: the server they connected, or \<open>None\<close> for a failure.\<close>

definition connected_accounts_url_for :: "string option \<Rightarrow> string option \<Rightarrow> connect_origin \<Rightarrow> string" where
  "connected_accounts_url_for app_url server return_to =
     (let origin = (case app_url of None \<Rightarrow> [] | Some u \<Rightarrow> strip_slashes u);
          base = origin @ ''/settings/connected-accounts'' in
      case server of
        Some i \<Rightarrow>
          if return_to = Admin then origin @ ''/admin/plugins/'' @ encode_uri_component i
          else base @ ''/'' @ encode_uri_component i
      | None \<Rightarrow> base @ ''?connected=failed'')"

definition create_verifier :: "nat list \<Rightarrow> string" where
  "create_verifier random = b64url random"

definition challenge_for :: "(nat list \<Rightarrow> nat list) \<Rightarrow> string \<Rightarrow> string" where
  "challenge_for sha256 verifier = b64url (sha256 (utf8 verifier))"

definition signed_state :: "connect_state \<Rightarrow> int \<Rightarrow> jsv" where
  "signed_state st ex =
     JObj ([(''userId'', JStr (cs_user st)), (''serverId'', JStr (cs_server st)), (''verifier'', JStr (cs_verifier st))]
       @ (case cs_return st of None \<Rightarrow> [] | Some r \<Rightarrow> [(''returnTo'', JStr (origin_text r))])
       @ [(''exp'', JNum ex)])"

definition sign_connect_state :: "mac \<Rightarrow> connect_state \<Rightarrow> string \<Rightarrow> int \<Rightarrow> string" where
  "sign_connect_state hmac st encryption_key now =
     sign hmac (b64url (utf8 (js_stringify (signed_state st (now + state_ttl_ms))))) encryption_key connect_label"

definition state_of_payload :: "jsv \<Rightarrow> int \<Rightarrow> connect_state option" where
  "state_of_payload payload now =
     (case (js_string_field payload ''userId'', js_string_field payload ''serverId'',
            js_string_field payload ''verifier'', js_field payload ''exp'') of
        (Some u, Some s, Some v, Some (JNum ex)) \<Rightarrow>
          if u = [] \<or> s = [] \<or> v = [] \<or> ex \<le> now then None
          else Some \<lparr>cs_user = u, cs_server = s, cs_verifier = v,
            cs_return = Some (if js_string_field payload ''returnTo'' = Some ''admin'' then Admin else Settings)\<rparr>
      | _ \<Rightarrow> None)"

definition read_connect_state ::
  "mac \<Rightarrow> (nat list \<Rightarrow> string + jsv) \<Rightarrow> string \<Rightarrow> string \<Rightarrow> int \<Rightarrow> connect_state option" where
  "read_connect_state hmac parse_json stamped encryption_key now =
     (case verify hmac (Some stamped) encryption_key connect_label of
        None \<Rightarrow> None
      | Some val \<Rightarrow>
          (case parse_json (b64url_decode val) of
             Inl e \<Rightarrow> None
           | Inr payload \<Rightarrow> state_of_payload payload now))"

text \<open>The query of the consent screen, in order; \<^verbatim>\<open>URLSearchParams\<close> and \<^verbatim>\<open>URL\<close> write it out.\<close>

definition authorization_query :: "string list \<Rightarrow> string \<Rightarrow> string \<Rightarrow> string \<Rightarrow> string \<Rightarrow> (string \<times> string) list" where
  "authorization_query scopes client_id redirect_uri state code_challenge =
     [(''client_id'', client_id), (''redirect_uri'', redirect_uri), (''response_type'', ''code''),
      (''scope'', join_with '' '' scopes), (''access_type'', ''offline''), (''prompt'', ''consent''),
      (''state'', state), (''code_challenge'', code_challenge), (''code_challenge_method'', ''S256'')]"

record redeemed_grant =
  rg_refresh :: string
  rg_scope :: string

text \<open>The token endpoint: a call that is rejected, or an answer whose body may not be JSON.\<close>

datatype token_answer = No_answer string | Token_answer bool "string + jsv"

definition redeem_body :: "string \<Rightarrow> string \<Rightarrow> string \<Rightarrow> string \<Rightarrow> string \<Rightarrow> (string \<times> string) list" where
  "redeem_body client_id client_secret code redirect_uri verifier =
     [(''grant_type'', ''authorization_code''), (''code'', code), (''client_id'', client_id),
      (''client_secret'', client_secret), (''redirect_uri'', redirect_uri), (''code_verifier'', verifier)]"

definition redeem_authorization_code ::
  "(string \<Rightarrow> (string \<times> string) list \<Rightarrow> token_answer) \<Rightarrow> string \<Rightarrow> string \<Rightarrow> string \<Rightarrow> string \<Rightarrow> string \<Rightarrow> string
     \<Rightarrow> string + redeemed_grant option" where
  "redeem_authorization_code fetch token_url client_id client_secret code redirect_uri verifier =
     (case fetch token_url (redeem_body client_id client_secret code redirect_uri verifier) of
        No_answer e \<Rightarrow> Inl e
      | Token_answer ok body \<Rightarrow>
          if \<not> ok then Inr None
          else (case body of
              Inl e \<Rightarrow> Inl e
            | Inr JNull \<Rightarrow> Inl ''TypeError''
            | Inr b \<Rightarrow>
                if \<not> truthy (js_string_field b ''refresh_token'') then Inr None
                else Inr (Some \<lparr>rg_refresh = the (js_string_field b ''refresh_token''),
                  rg_scope = (case js_string_field b ''scope'' of Some s \<Rightarrow> s | None \<Rightarrow> [])\<rparr>)))"

section \<open>What a signature says\<close>

lemma last_index_of_append: "c \<notin> set t \<Longrightarrow> last_index_of c (s @ c # t) = int (length s)"
proof -
  assume "c \<notin> set t"
  then have "dropWhile (\<lambda>d. d \<noteq> c) (rev t @ c # rev s) = c # rev s" by (subst dropWhile_append2) auto
  then show ?thesis by (simp add: last_index_of_def)
qed

lemma sign_not_Nil [simp]: "sign hmac v ek label \<noteq> []"
  by (simp add: sign_def)

lemma last_index_of_sign [simp]: "last_index_of (CHR ''.'') (sign hmac v ek label) = int (length v)"
  by (simp add: sign_def last_index_of_append)

lemma take_sign [simp]: "take (length v) (sign hmac v ek label) = v"
  by (simp add: sign_def)

lemma verify_sign: "v \<noteq> [] \<Longrightarrow> verify hmac (Some (sign hmac v ek label)) ek label = Some v"
  unfolding verify_def by (simp add: Let_def)

lemma verify_sound: "verify hmac (Some s) ek label = Some v \<Longrightarrow> v \<noteq> [] \<and> s = sign hmac v ek label"
  unfolding verify_def by (auto simp: Let_def split: if_splits)

text \<open>verification recognises exactly what was signed. A string is accepted, and read as a value, just
  when it is that value signed with this deployment's key under this label and the value is not empty.\<close>

theorem verify_iff:
  "verify hmac stamped ek label = Some v \<longleftrightarrow> v \<noteq> [] \<and> stamped = Some (sign hmac v ek label)"
proof (cases stamped)
  case (Some s)
  then show ?thesis using verify_sign verify_sound by blast
qed (simp add: verify_def)

section \<open>Statements that come back\<close>

lemma stringify_object [simp]: "utf8 (js_stringify (JObj kvs)) \<noteq> []"
  by (simp del: utf8_def)

lemma run_of_signed_run:
  "run_of_payload (signed_run run ex) now = (if now < ex then Some run else None)"
  by (simp add: run_of_payload_def signed_run_def js_string_field_def js_field_def)

text \<open>An assertion says what it was minted to say, for ten minutes. Read back with the same key it
  names the Bot, the person and the run it was minted for until it expires, and nothing from then on.\<close>

theorem run_assertion_roundtrip:
  assumes "parse_json (utf8 (js_stringify (signed_run run (issued + run_ttl_ms)))) = Inr (signed_run run (issued + run_ttl_ms))"
  shows "read_run_assertion hmac parse_json (JStr (mint_run_assertion hmac run ek issued)) ek now =
     (if now < issued + 600000 then Some run else None)"
proof -
  let ?t = "js_stringify (signed_run run (issued + run_ttl_ms))"
  have "b64url (utf8 ?t) \<noteq> []" by (simp add: signed_run_def)
  moreover have "b64url_decode (b64url (utf8 ?t)) = utf8 ?t"
    using utf8_bytes by (blast intro: b64url_roundtrip)
  ultimately show ?thesis
    using assms by (simp add: read_run_assertion_def mint_run_assertion_def verify_sign run_of_signed_run run_ttl_ms_def)
qed

theorem run_assertion_roundtrip_witness:
  "read_run_assertion (\<lambda>k d. k) (\<lambda>t. Inr (signed_run \<lparr>ra_bot = ''ada'', ra_actor = ''kim'', ra_run = ''r1''\<rparr> 600000))
     (JStr (mint_run_assertion (\<lambda>k d. k) \<lparr>ra_bot = ''ada'', ra_actor = ''kim'', ra_run = ''r1''\<rparr> ''key'' 0)) ''key'' 599999
   = Some \<lparr>ra_bot = ''ada'', ra_actor = ''kim'', ra_run = ''r1''\<rparr>"
  by (subst run_assertion_roundtrip) (simp_all add: run_ttl_ms_def)

text \<open>What a connect state says when it is read: where to go back to is always one of the two screens.\<close>

definition settled :: "connect_state \<Rightarrow> connect_state" where
  "settled st = st\<lparr>cs_return := Some (if cs_return st = Some Admin then Admin else Settings)\<rparr>"

definition complete :: "connect_state \<Rightarrow> bool" where
  "complete st \<longleftrightarrow> cs_user st \<noteq> [] \<and> cs_server st \<noteq> [] \<and> cs_verifier st \<noteq> []"

lemma state_of_signed_state:
  "state_of_payload (signed_state st ex) now = (if complete st \<and> now < ex then Some (settled st) else None)"
  by (cases st; cases "cs_return st")
    (auto simp: state_of_payload_def signed_state_def js_string_field_def js_field_def complete_def settled_def
      origin_text_def split: connect_origin.splits)

text \<open>a connect state comes back as it went. Signed for a person, a server and a verifier, it reads back as
  those and one of the two screens for ten minutes, and as nothing afterwards.\<close>

theorem connect_state_roundtrip:
  assumes "parse_json (utf8 (js_stringify (signed_state st (issued + state_ttl_ms)))) = Inr (signed_state st (issued + state_ttl_ms))"
  shows "read_connect_state hmac parse_json (sign_connect_state hmac st ek issued) ek now =
     (if complete st \<and> now < issued + 600000 then Some (settled st) else None)"
proof -
  let ?t = "js_stringify (signed_state st (issued + state_ttl_ms))"
  have "b64url (utf8 ?t) \<noteq> []" by (simp add: signed_state_def)
  moreover have "b64url_decode (b64url (utf8 ?t)) = utf8 ?t"
    using utf8_bytes by (blast intro: b64url_roundtrip)
  ultimately show ?thesis
    using assms by (simp add: read_connect_state_def sign_connect_state_def verify_sign state_of_signed_state state_ttl_ms_def)
qed

theorem connect_state_roundtrip_witness:
  "read_connect_state (\<lambda>k d. k)
     (\<lambda>t. Inr (signed_state \<lparr>cs_user = ''kim'', cs_server = ''mail'', cs_verifier = ''v'', cs_return = Some Admin\<rparr> 600000))
     (sign_connect_state (\<lambda>k d. k) \<lparr>cs_user = ''kim'', cs_server = ''mail'', cs_verifier = ''v'', cs_return = Some Admin\<rparr> ''key'' 0)
     ''key'' 1
   = Some \<lparr>cs_user = ''kim'', cs_server = ''mail'', cs_verifier = ''v'', cs_return = Some Admin\<rparr>"
  by (subst connect_state_roundtrip) (simp_all add: state_ttl_ms_def complete_def settled_def)

text \<open>Two labels under which no value carries the same signature.\<close>

definition apart :: "mac \<Rightarrow> string \<Rightarrow> string \<Rightarrow> string \<Rightarrow> bool" where
  "apart hmac ek a b \<longleftrightarrow> (\<forall>v. sign hmac v ek a \<noteq> sign hmac v ek b)"

text \<open>A statement of one kind is never taken for another. Where the two derived keys sign no value alike, no
  string at all is both an acceptable run assertion and an acceptable connect state.\<close>

theorem statements_kept_apart:
  assumes "apart hmac ek run_label connect_label"
  shows "read_run_assertion hmac parse_json (JStr s) ek now = None
     \<or> read_connect_state hmac parse_json' s ek now' = None"
proof (rule disjCI)
  assume "read_connect_state hmac parse_json' s ek now' \<noteq> None"
  then obtain w where "verify hmac (Some s) ek connect_label = Some w"
    by (auto simp: read_connect_state_def split: option.splits)
  then have w: "s = sign hmac w ek connect_label" using verify_sound by blast
  have "verify hmac (Some s) ek run_label = None"
  proof (rule ccontr)
    assume "verify hmac (Some s) ek run_label \<noteq> None"
    then obtain v where v: "s = sign hmac v ek run_label" using verify_sound by blast
    have "v = w" using last_index_of_sign take_sign v w by (metis of_nat_eq_iff)
    with v w assms show False unfolding apart_def by metis
  qed
  then show "read_run_assertion hmac parse_json (JStr s) ek now = None" by (simp add: read_run_assertion_def)
qed

theorem statements_kept_apart_witness:
  "read_run_assertion (\<lambda>k d. if k = [107] then d else k) (\<lambda>t. Inr JNull) (JStr ''x.y'') ''k'' 0 = None
   \<or> read_connect_state (\<lambda>k d. if k = [107] then d else k) (\<lambda>t. Inr JNull) ''x.y'' ''k'' 0 = None"
proof (rule statements_kept_apart)
  have "utf8 ''k'' = [107]" "utf8 run_label \<noteq> [107]" "utf8 connect_label \<noteq> [107]"
    "b64url (utf8 run_label) \<noteq> b64url (utf8 connect_label)"
    by code_simp+
  then show "apart (\<lambda>k d. if k = [107] then d else k) ''k'' run_label connect_label"
    unfolding apart_def sign_def signing_key_def by simp
qed

section \<open>The verdict over a tool call\<close>

lemma same_token_iff [simp]: "same_token a b \<longleftrightarrow> a = b"
  by (auto simp: same_token_def Let_def)

text \<open>Who holds a token that is presented for a run: the agent it was issued to, or, with the
  deployment's own token, the Bot of the run itself.\<close>

definition entitled :: "(nat list \<Rightarrow> nat list) \<Rightarrow> (string \<Rightarrow> string option) \<Rightarrow> string option \<Rightarrow> string \<Rightarrow> string \<Rightarrow> bool" where
  "entitled sha256 lookup legacy presented the_bot \<longleftrightarrow>
     presented \<noteq> [] \<and>
     (if looks_like_callback_token presented then lookup (hash_callback_token sha256 presented) = Some the_bot
      else legacy = Some presented)"

text \<open>a tool call acts only as the Bot and the person it was signed for. It is accepted exactly when the
  assertion is one this deployment signed and that has not expired, it names that Bot and that person,
  and the presented token belongs to that Bot; every other call is refused with 401 or 403.\<close>

theorem tool_call_verdict:
  "authorise_agent_call hmac sha256 parse_json lookup legacy presented run ek now =
     (case read_run_assertion hmac parse_json run ek now of
        None \<Rightarrow> not_authorised
      | Some a \<Rightarrow>
          if entitled sha256 lookup legacy presented (ra_bot a) then Accepted (ra_bot a) (ra_actor a)
          else if presented \<noteq> [] \<and> looks_like_callback_token presented
               \<and> lookup (hash_callback_token sha256 presented) \<noteq> None
          then Refused 403 ''That token is not for this Bot.'' else not_authorised)"
  by (cases legacy)
    (auto simp: authorise_agent_call_def entitled_def caller_of_def split: option.splits)

text \<open>an accepted call carries a signature of this deployment. Whatever the token, a verdict that accepts
  shows a value signed under the label of runs whose payload names the Bot and the person and expires later.\<close>

theorem accepted_call_was_signed:
  assumes "authorise_agent_call hmac sha256 parse_json lookup legacy presented run ek now = Accepted the_bot actor"
  shows "\<exists>v payload ex. run = JStr (sign hmac v ek run_label) \<and> parse_json (b64url_decode v) = Inr payload
     \<and> js_string_field payload ''botId'' = Some the_bot \<and> js_string_field payload ''actorId'' = Some actor
     \<and> js_field payload ''exp'' = Some (JNum ex) \<and> now < ex"
proof -
  obtain a where a: "read_run_assertion hmac parse_json run ek now = Some a" "the_bot = ra_bot a" "actor = ra_actor a"
    using assms by (auto simp: authorise_agent_call_def not_authorised_def split: if_splits option.splits)
  then obtain s v payload where s: "run = JStr s" "verify hmac (Some s) ek run_label = Some v"
      "parse_json (b64url_decode v) = Inr payload" "run_of_payload payload now = Some a"
    by (auto simp: read_run_assertion_def split: jsv.splits if_splits option.splits sum.splits)
  with a verify_sound show ?thesis
    by (fastforce simp: run_of_payload_def split: option.splits jsv.splits if_splits)
qed

lemma minted_token_recognised: "length random = 32 \<Longrightarrow> looks_like_callback_token (mint_callback_token random)"
  by (simp add: looks_like_callback_token_def mint_callback_token_def length_b64url)

section \<open>Where a person is sent back to\<close>

text \<open>the connect flow never leaves the app. Whatever the server id holds, the address is the app's own
  origin, then one of three fixed paths, then nothing that could open another segment, a query or a
  fragment.\<close>

definition own_screens :: "string list" where
  "own_screens = [''/admin/plugins/'', ''/settings/connected-accounts/'', ''/settings/connected-accounts?connected=failed'']"

theorem returns_to_own_screen:
  "\<exists>screen rest. connected_accounts_url_for app_url server return_to =
       (case app_url of None \<Rightarrow> [] | Some u \<Rightarrow> strip_slashes u) @ screen @ rest
     \<and> screen \<in> set own_screens \<and> filter path_mark rest = []"
proof -
  have plain: "filter path_mark (encode_uri_component i) = []" for i
    using encode_uri_component_plain by (simp add: filter_empty_conv)
  show ?thesis
  proof (cases server)
    case None
    then show ?thesis by (intro exI [of _ "own_screens ! 2"] exI [of _ "[]"])
        (simp add: connected_accounts_url_for_def own_screens_def Let_def)
  next
    case (Some i)
    then show ?thesis using plain [of i]
      by (intro exI [of _ "own_screens ! (if return_to = Admin then 0 else 1)"] exI [of _ "encode_uri_component i"])
        (simp add: connected_accounts_url_for_def own_screens_def Let_def)
  qed
qed

end
