(* ===== verification/Routing.thy ===== *)
theory Routing
  imports Complex_Main Prelude
begin

text \<open>
  Choosing the coworker an untagged message is for: \<^verbatim>\<open>server/src/routing/classify.ts\<close>.  The model is the
  argument \<open>ask\<close>, which answers \<open>Inl\<close> where it rejects.  \<^verbatim>\<open>JSON.parse\<close> of the braces found in an
  answer is the argument \<open>parse_reply\<close>: the three fields the router reads, a confidence as the
  rational number it is.
\<close>

section \<open>The definitions\<close>

record routing_candidate =
  rc_id :: string
  rc_name :: string
  rc_role :: string
  rc_reaches :: "string list option"

record routing_decision =
  rd_agent :: string
  rd_name :: string
  rd_reason :: string
  rd_fallback :: bool

record routing_reply =
  rp_agent :: "jsv option"
  rp_reason :: "jsv option"
  rp_confidence :: "rat option"

definition min_confidence :: rat where
  "min_confidence = 6 / 10"

definition reaches :: "routing_candidate \<Rightarrow> string list" where
  "reaches c = (case rc_reaches c of None \<Rightarrow> [] | Some ss \<Rightarrow> ss)"

definition roster_entry :: "routing_candidate \<Rightarrow> string" where
  "roster_entry c =
     join_with [CHR 0x0A]
       ([''- id: '' @ rc_id c, ''  name: '' @ rc_name c, ''  for: '' @ rc_role c]
        @ (if reaches c \<noteq> [] then [''  can reach: '' @ join_with '', '' (reaches c)] else []))"

definition reply_form :: string where
  "reply_form =
     (let q = [CHR 0x22] in
      ''Reply with only JSON: {'' @ q @ ''agentId'' @ q @ '': '' @ q @ ''<one id from the list>'' @ q @ '', ''
        @ q @ ''reason'' @ q @ '': '' @ q @ ''<short, names the fit>'' @ q @ '', '' @ q @ ''confidence'' @ q @ '': <0..1>}.'')"

definition reach_rule :: string where
  "reach_rule = ''When the message names a system a coworker can reach, prefer that coworker: one that cannot reach it has no way to answer and will fall back to a browser that is signed in as nobody. Purpose still comes first ''
     @ [CHR 0xE2, CHR 0x80, CHR 0x94] @ '' a specialist with no systems listed is right for a question about its specialism.''"

definition routing_prompt :: "string \<Rightarrow> routing_candidate list \<Rightarrow> string" where
  "routing_prompt t candidates =
     join_with [CHR 0x0A]
       ([''You route a person'' @ [CHR 0x27] @ ''s message to the one coworker best suited to it.'',
         ''Here are the coworkers and what each is for:'',
         join_with [CHR 0x0A] (map roster_entry candidates),
         [],
         reply_form,
         ''Pick the specialist whose purpose matches the message. If none clearly fits, use the most general coworker and give it a low confidence.'']
        @ (if list_ex (\<lambda>c. reaches c \<noteq> []) candidates then [reach_rule] else [])
        @ [[], ''Message: '' @ t])"

text \<open>\<^verbatim>\<open>replace(/[-_]+/g, " ")\<close>: a run of separators becomes one space.\<close>

fun loosen :: "bool \<Rightarrow> string \<Rightarrow> string" where
  "loosen inside [] = []"
| "loosen inside (c # cs) =
     (if c = CHR ''-'' \<or> c = CHR ''_'' then (if inside then loosen True cs else CHR '' '' # loosen True cs)
      else c # loosen False cs)"

definition names_system :: "string \<Rightarrow> string \<Rightarrow> bool" where
  "names_system t system =
     (str_includes (js_lower t) (loosen False (js_lower system)) \<or> str_includes (js_lower t) (js_lower system))"

definition named_systems :: "string \<Rightarrow> routing_candidate list \<Rightarrow> string list" where
  "named_systems t candidates =
     rev (remdups (rev (filter (names_system t) (concat (map reaches candidates)))))"

definition holders_of :: "string \<Rightarrow> routing_candidate list \<Rightarrow> routing_candidate list" where
  "holders_of system candidates = filter (\<lambda>c. system \<in> set (reaches c)) candidates"

fun first_sole_holder :: "routing_candidate list \<Rightarrow> string list \<Rightarrow> (routing_candidate \<times> string) option" where
  "first_sole_holder candidates [] = None"
| "first_sole_holder candidates (s # ss) =
     (case holders_of s candidates of
        [only] \<Rightarrow> Some (only, s)
      | _ \<Rightarrow> first_sole_holder candidates ss)"

definition only_coworker_reaching :: "string \<Rightarrow> routing_candidate list \<Rightarrow> (routing_candidate \<times> string) option" where
  "only_coworker_reaching t candidates = first_sole_holder candidates (named_systems t candidates)"

text \<open>\<^verbatim>\<open>new Map\<close> of the candidates by id: of two with one id the later stands.\<close>

definition by_id :: "routing_candidate list \<Rightarrow> string \<Rightarrow> routing_candidate option" where
  "by_id candidates i = map_of (rev (map (\<lambda>c. (rc_id c, c)) candidates)) i"

definition fallback_to :: "string \<Rightarrow> routing_candidate list \<Rightarrow> string \<Rightarrow> string \<Rightarrow> routing_decision" where
  "fallback_to t candidates default_id reason =
     (case only_coworker_reaching t candidates of
        Some (c, system) \<Rightarrow>
          \<lparr>rd_agent = rc_id c, rd_name = rc_name c, rd_reason = ''the only coworker that can reach '' @ system,
           rd_fallback = True\<rparr>
      | None \<Rightarrow>
          (case (case by_id candidates default_id of
                   Some c \<Rightarrow> Some c
                 | None \<Rightarrow> (case candidates of [] \<Rightarrow> None | c # cs \<Rightarrow> Some c)) of
             Some c \<Rightarrow> \<lparr>rd_agent = rc_id c, rd_name = rc_name c, rd_reason = reason, rd_fallback = True\<rparr>
           | None \<Rightarrow> \<lparr>rd_agent = default_id, rd_name = default_id, rd_reason = reason, rd_fallback = True\<rparr>))"

text \<open>\<^verbatim>\<open>raw.match(/\{[\s\S]*\}/)\<close>: from the first opening brace to the last closing one after it.\<close>

definition braces_of :: "string \<Rightarrow> string option" where
  "braces_of raw =
     (let opened = dropWhile (\<lambda>c. c \<noteq> CHR ''{'') raw;
          closed = rev (dropWhile (\<lambda>c. c \<noteq> CHR ''}'') (rev opened)) in
      if closed = [] then None else Some closed)"

definition no_reply :: routing_reply where
  "no_reply = \<lparr>rp_agent = None, rp_reason = None, rp_confidence = None\<rparr>"

definition reply_agent :: "routing_reply \<Rightarrow> string" where
  "reply_agent r = (case rp_agent r of Some (JStr i) \<Rightarrow> i | _ \<Rightarrow> [])"

definition reply_reason :: "routing_reply \<Rightarrow> routing_candidate \<Rightarrow> string" where
  "reply_reason r c =
     (case rp_reason r of
        Some (JStr s) \<Rightarrow> if js_trim s \<noteq> [] then js_trim s else ''matches '' @ rc_name c
      | _ \<Rightarrow> ''matches '' @ rc_name c)"

definition route ::
  "(string \<Rightarrow> string + routing_reply) \<Rightarrow> (string \<Rightarrow> string + string) \<Rightarrow> string \<Rightarrow> routing_candidate list \<Rightarrow> string
     \<Rightarrow> routing_decision" where
  "route parse_reply ask t candidates default_id =
     (let fallback = fallback_to t candidates default_id in
      if length candidates \<le> 1 then fallback ''the only coworker available''
      else case ask (routing_prompt t candidates) of
        Inl e \<Rightarrow> fallback ''sent to your default while the router was unreachable''
      | Inr raw \<Rightarrow>
          (case (case braces_of raw of None \<Rightarrow> Inr no_reply | Some b \<Rightarrow> parse_reply b) of
             Inl e \<Rightarrow> fallback (''sent to your default; the router'' @ [CHR 0x27] @ ''s answer did not parse'')
           | Inr parsed \<Rightarrow>
               (case by_id candidates (reply_agent parsed) of
                  None \<Rightarrow> fallback ''sent to your default; the router named no coworker on your roster''
                | Some c \<Rightarrow>
                    if (case rp_confidence parsed of Some n \<Rightarrow> n | None \<Rightarrow> 0) < min_confidence
                    then fallback ''sent to your default; no specialist was a confident match''
                    else \<lparr>rd_agent = rc_id c, rd_name = rc_name c, rd_reason = reply_reason parsed c,
                      rd_fallback = False\<rparr>)))"

section \<open>The decision is one of the roster\<close>

lemma by_id_sound: "by_id candidates i = Some c \<Longrightarrow> c \<in> set candidates \<and> rc_id c = i"
  unfolding by_id_def by (drule map_of_SomeD) auto

lemma by_id_iff: "by_id candidates i = None \<longleftrightarrow> i \<notin> rc_id ` set candidates"
  by (auto simp: by_id_def map_of_eq_None_iff image_image)

text \<open>One candidate alone reaches a system the message names.\<close>

definition sole_reach :: "string \<Rightarrow> routing_candidate list \<Rightarrow> routing_candidate \<Rightarrow> bool" where
  "sole_reach t candidates c = list_ex (\<lambda>s. names_system t s \<and> holders_of s candidates = [c]) (reaches c)"

lemma first_sole_holder_sound:
  "first_sole_holder candidates ss = Some (c, s) \<Longrightarrow> s \<in> set ss \<and> holders_of s candidates = [c]"
  by (induction ss) (auto split: list.splits)

lemma only_reaching_sound:
  assumes "only_coworker_reaching t candidates = Some (c, s)"
  shows "c \<in> set candidates \<and> sole_reach t candidates c \<and> s \<in> set (reaches c) \<and> names_system t s"
proof -
  have *: "s \<in> set (named_systems t candidates)" "holders_of s candidates = [c]"
    using assms first_sole_holder_sound unfolding only_coworker_reaching_def by blast+
  then have "c \<in> set (holders_of s candidates)" by simp
  then have "c \<in> set candidates" "s \<in> set (reaches c)" by (simp_all add: holders_of_def)
  with * show ?thesis by (auto simp: named_systems_def sole_reach_def list_ex_iff)
qed

lemma only_reaching_none:
  assumes "only_coworker_reaching t candidates = None" "c \<in> set candidates"
  shows "\<not> sole_reach t candidates c"
proof -
  have none: "first_sole_holder candidates ss = None \<Longrightarrow> s \<in> set ss \<Longrightarrow> holders_of s candidates \<noteq> [c]" for ss s
    by (induction ss) (auto split: list.splits)
  from assms none [of "named_systems t candidates"] show ?thesis
    by (auto simp: only_coworker_reaching_def named_systems_def sole_reach_def list_ex_iff)
qed

text \<open>A decision for somebody on the roster, under the name the roster has.\<close>

definition on_roster :: "routing_candidate list \<Rightarrow> routing_decision \<Rightarrow> bool" where
  "on_roster candidates d = list_ex (\<lambda>c. rd_agent d = rc_id c \<and> rd_name d = rc_name c) candidates"

lemma fallback_on_roster: "candidates \<noteq> [] \<Longrightarrow> on_roster candidates (fallback_to t candidates default_id reason)"
proof (cases "only_coworker_reaching t candidates")
  case None
  assume ne: "candidates \<noteq> []"
  show ?thesis
  proof (cases "by_id candidates default_id")
    case None
    with ne \<open>only_coworker_reaching t candidates = None\<close> show ?thesis
      by (cases candidates) (simp_all add: fallback_to_def on_roster_def)
  next
    case (Some c)
    with by_id_sound [OF Some] None show ?thesis by (auto simp: fallback_to_def on_roster_def list_ex_iff)
  qed
next
  case (Some cs)
  then obtain c s where "only_coworker_reaching t candidates = Some (c, s)" by (cases cs) simp
  with only_reaching_sound [OF this] show ?thesis by (auto simp: fallback_to_def on_roster_def list_ex_iff)
qed

text \<open>A message always goes to a coworker of the roster. Whatever the model answers, also when it fails,
  does not parse or names somebody who is not there, the decision names a candidate; it is the default
  that is named whenever it is on the roster, nobody alone reaches a system of the message and the
  decision says it is a fallback; without a roster the default id itself is answered.\<close>

theorem decision_on_roster:
  "(if candidates = [] then rd_agent (route parse_reply ask t candidates default_id) = default_id
    else on_roster candidates (route parse_reply ask t candidates default_id))
   \<and> (if rd_fallback (route parse_reply ask t candidates default_id)
         \<and> default_id \<in> rc_id ` set candidates \<and> \<not> list_ex (sole_reach t candidates) candidates
      then rd_agent (route parse_reply ask t candidates default_id) = default_id else True)"
proof -
  have default: "rd_agent (fallback_to t candidates default_id reason) = default_id"
    if "default_id \<in> rc_id ` set candidates" "\<not> list_ex (sole_reach t candidates) candidates" for reason
  proof -
    have "only_coworker_reaching t candidates = None"
    proof (cases "only_coworker_reaching t candidates")
      case (Some cs)
      then obtain c s where "only_coworker_reaching t candidates = Some (c, s)" by (cases cs) simp
      with only_reaching_sound [OF this] that(2) show ?thesis by (auto simp: list_ex_iff)
    qed
    moreover have "by_id candidates default_id \<noteq> None" using that(1) by_id_iff by metis
    then obtain c where c: "by_id candidates default_id = Some c" by blast
    ultimately show ?thesis using by_id_sound [OF c] by (simp add: fallback_to_def)
  qed
  have empty: "rd_agent (fallback_to t [] default_id reason) = default_id" for reason
    by (simp add: fallback_to_def only_coworker_reaching_def named_systems_def by_id_def)
  have chosen: "on_roster candidates \<lparr>rd_agent = rc_id c, rd_name = rc_name c, rd_reason = w, rd_fallback = b\<rparr>"
    if "by_id candidates i = Some c" for c i w b
    using by_id_sound [OF that] by (auto simp: on_roster_def list_ex_iff)
  show ?thesis
  proof (cases "candidates = []")
    case True
    then show ?thesis using empty by (simp add: route_def)
  next
    case False
    show ?thesis
      unfolding route_def Let_def
      using fallback_on_roster [OF False] default chosen
      by (simp add: False split: sum.split option.split)
  qed
qed

text \<open>Only a confident answer about somebody on the roster decides. A decision that is no fallback comes
  from an answer whose braces parse, name a candidate and carry a confidence of at least 0.6.\<close>

theorem inferred_only_when_confident:
  assumes "\<not> rd_fallback (route parse_reply ask t candidates default_id)"
  shows "\<exists>raw b r. ask (routing_prompt t candidates) = Inr raw \<and> braces_of raw = Some b \<and> parse_reply b = Inr r
     \<and> rd_agent (route parse_reply ask t candidates default_id) = reply_agent r
     \<and> reply_agent r \<in> rc_id ` set candidates
     \<and> (case rp_confidence r of Some n \<Rightarrow> 6 / 10 \<le> n | None \<Rightarrow> False)"
proof -
  have fall: "rd_fallback (fallback_to t candidates default_id reason)" for reason
    by (simp add: fallback_to_def split: option.split prod.split)
  obtain raw where raw: "ask (routing_prompt t candidates) = Inr raw" "\<not> length candidates \<le> 1"
    using assms fall by (cases "ask (routing_prompt t candidates)") (auto simp: route_def Let_def split: if_splits)
  then obtain r where r: "(case braces_of raw of None \<Rightarrow> Inr no_reply | Some b \<Rightarrow> parse_reply b) = Inr r"
    using assms fall
    by (cases "case braces_of raw of None \<Rightarrow> Inr no_reply | Some b \<Rightarrow> parse_reply b") (auto simp: route_def Let_def)
  then obtain c where c: "by_id candidates (reply_agent r) = Some c"
      "\<not> (case rp_confidence r of Some n \<Rightarrow> n | None \<Rightarrow> 0) < min_confidence"
      "rd_agent (route parse_reply ask t candidates default_id) = rc_id c"
    using assms fall raw
    by (cases "by_id candidates (reply_agent r)") (auto simp: route_def Let_def split: if_splits)
  then have conf: "case rp_confidence r of Some n \<Rightarrow> 6 / 10 \<le> n | None \<Rightarrow> False"
    by (cases "rp_confidence r") (simp_all add: min_confidence_def not_less)
  then have "r \<noteq> no_reply" by (auto simp: no_reply_def)
  then obtain b where "braces_of raw = Some b" "parse_reply b = Inr r"
    using r by (cases "braces_of raw") simp_all
  moreover have "reply_agent r \<in> rc_id ` set candidates" using by_id_sound [OF c(1)] by (metis image_eqI)
  ultimately show ?thesis using raw c conf by_id_sound [OF c(1)] by auto
qed

definition routing_example :: "routing_candidate list" where
  "routing_example =
     [\<lparr>rc_id = ''a'', rc_name = ''Ada'', rc_role = ''sums'', rc_reaches = None\<rparr>,
      \<lparr>rc_id = ''b'', rc_name = ''Bea'', rc_role = ''mail'', rc_reaches = Some [''mail'']\<rparr>]"

theorem inferred_only_when_confident_witness:
  "let go = route (\<lambda>b. Inr \<lparr>rp_agent = Some (JStr ''a''), rp_reason = None, rp_confidence = Some (7 / 10)\<rparr>)
      (\<lambda>q. Inr ''{}'') ''add these'' routing_example ''b'' in
   rd_agent go \<in> rc_id ` set routing_example \<and> \<not> rd_fallback go"
proof -
  let ?go = "route (\<lambda>b. Inr \<lparr>rp_agent = Some (JStr ''a''), rp_reason = None, rp_confidence = Some (7 / 10)\<rparr>)
      (\<lambda>q. Inr ''{}'') ''add these'' routing_example ''b''"
  have "\<not> rd_fallback ?go"
    by (simp add: route_def Let_def routing_example_def braces_of_def by_id_def reply_agent_def min_confidence_def)
  with inferred_only_when_confident [OF this] show ?thesis by auto
qed

end
