(* ===== verification/Threads.thy ===== *)
theory Threads
  imports Prelude
begin

text \<open>
  The runner that owns a deployment's threads, \<^verbatim>\<open>server/src/runtime/postgres-runner.ts\<close>.  One thread is a
  state machine: its cached state, the live runs that were started on it (the last one is the newest) and
  its rows in the database.  Each awaited call splits a handler, so a step is what happens between two
  waits; whether a wait ends well is an argument of the step that follows it.  Events and messages are
  JavaScript values.  What the agent packages do, \<open>compact\<close> of a list of events and \<open>finalize\<close> of a run that
  ends (the events it then has and those appended), are arguments, as is the clock.
\<close>

section \<open>State\<close>

record historic_run =
  hr_run :: string
  hr_agent :: string
  hr_parent :: "string option"
  hr_events :: "jsv list"
  hr_messages :: "jsv list"
  hr_created :: int

datatype load_state = Not_loaded | Loading | Loaded | Load_failed

record thread_state =
  ts_id :: string
  ts_agent :: string
  ts_user :: string
  ts_name :: "string option"
  ts_created :: int
  ts_updated :: int
  ts_runs :: "historic_run list"
  ts_load :: load_state
  ts_running :: bool
  ts_current :: "string option"
  ts_active :: "nat option"
  ts_subject :: "nat option"
  ts_stop :: bool

datatype run_phase = Streaming | Persisting historic_run | Telling historic_run | Ended | Refused_run string

record live_run =
  lr_run :: string
  lr_agent :: "string option"
  lr_user :: string
  lr_parent :: "string option"
  lr_seen :: "string option list"
  lr_input :: jsv
  lr_events :: "jsv list"
  lr_sent :: "jsv list"
  lr_stop :: bool
  lr_owns :: bool
  lr_phase :: run_phase

record thread_row =
  tr_id :: string
  tr_agent :: string
  tr_user :: string
  tr_name :: "string option"
  tr_created :: int
  tr_updated :: int

record run_row =
  rr_sequence :: nat
  rr_run :: historic_run

record thread_world =
  tw_state :: thread_state
  tw_live :: "live_run list"
  tw_row :: "thread_row option"
  tw_rows :: "run_row list"

definition new_state :: "string \<Rightarrow> int \<Rightarrow> thread_state" where
  "new_state i now =
     \<lparr>ts_id = i, ts_agent = ''default'', ts_user = [], ts_name = None, ts_created = now, ts_updated = now, ts_runs = [],
      ts_load = Not_loaded, ts_running = False, ts_current = None, ts_active = None, ts_subject = None, ts_stop = False\<rparr>"

section \<open>Loading\<close>

text \<open>\<^verbatim>\<open>orderBy(asc(sequence))\<close>.\<close>

definition reload :: "run_row list \<Rightarrow> historic_run list" where
  "reload rows = map rr_run (sort_key rr_sequence rows)"

definition hydrate_asked :: "thread_world \<Rightarrow> thread_world" where
  "hydrate_asked w =
     (if ts_load (tw_state w) = Not_loaded then w\<lparr>tw_state := (tw_state w)\<lparr>ts_load := Loading\<rparr>\<rparr> else w)"

definition with_row :: "thread_row \<Rightarrow> thread_state \<Rightarrow> thread_state" where
  "with_row row st = st\<lparr>ts_agent := tr_agent row, ts_user := tr_user row, ts_name := tr_name row,
     ts_created := tr_created row, ts_updated := tr_updated row\<rparr>"

definition hydrate_done :: "bool \<Rightarrow> thread_world \<Rightarrow> thread_world" where
  "hydrate_done ok w =
     (let st = tw_state w in
      if ts_load st \<noteq> Loading then w
      else if \<not> ok then w\<lparr>tw_state := st\<lparr>ts_load := Load_failed\<rparr>\<rparr>
      else case tw_row w of
          None \<Rightarrow> w\<lparr>tw_state := st\<lparr>ts_load := Loaded\<rparr>\<rparr>
        | Some row \<Rightarrow> w\<lparr>tw_state := (with_row row st)\<lparr>ts_runs := reload (tw_rows w), ts_load := Loaded\<rparr>\<rparr>)"

section \<open>A run\<close>

definition js_true :: "jsv option \<Rightarrow> bool" where
  "js_true v = (case v of
       None \<Rightarrow> False | Some JUndef \<Rightarrow> False | Some JNull \<Rightarrow> False | Some (JBool b) \<Rightarrow> b
     | Some (JNum n) \<Rightarrow> n \<noteq> 0 | Some (JStr s) \<Rightarrow> s \<noteq> [] | Some (JArr vs) \<Rightarrow> True | Some (JObj kvs) \<Rightarrow> True)"

definition js_put :: "string \<Rightarrow> jsv \<Rightarrow> jsv \<Rightarrow> jsv" where
  "js_put k v target =
     (case target of
        JObj kvs \<Rightarrow>
          JObj (if k \<in> fst ` set kvs then map (\<lambda>(j, u). if j = k then (j, v) else (j, u)) kvs else kvs @ [(k, v)])
      | _ \<Rightarrow> target)"

definition event_type :: "jsv \<Rightarrow> string option" where
  "event_type e = js_string_field e ''type''"

definition input_messages :: "jsv option \<Rightarrow> jsv list" where
  "input_messages input =
     (case input of
        None \<Rightarrow> []
      | Some v \<Rightarrow> (case js_field v ''messages'' of Some (JArr ms) \<Rightarrow> ms | _ \<Rightarrow> []))"

definition event_ids :: "jsv \<Rightarrow> string option list" where
  "event_ids e =
     (case js_string_field e ''messageId'' of Some i \<Rightarrow> [Some i] | None \<Rightarrow> [])
     @ (if event_type e = Some ''RUN_STARTED''
        then map (\<lambda>m. js_string_field m ''id'') (input_messages (js_field e ''input'')) else [])"

definition historic_ids :: "historic_run list \<Rightarrow> string option list" where
  "historic_ids runs = concat (map event_ids (concat (map hr_events runs)))"

record run_request =
  rq_agent :: "string option"
  rq_run :: string
  rq_input :: jsv
  rq_user :: "string option"

definition last_run_id :: "historic_run list \<Rightarrow> string option" where
  "last_run_id runs = (if runs = [] then None else Some (hr_run (last runs)))"

definition new_live :: "thread_state \<Rightarrow> run_request \<Rightarrow> string \<Rightarrow> live_run" where
  "new_live st r user =
     \<lparr>lr_run = rq_run r, lr_agent = rq_agent r, lr_user = user, lr_parent = last_run_id (ts_runs st),
      lr_seen = historic_ids (ts_runs st), lr_input = rq_input r, lr_events = [], lr_sent = [], lr_stop = False,
      lr_owns = False, lr_phase = Streaming\<rparr>"

definition refused_live :: "run_request \<Rightarrow> string \<Rightarrow> live_run" where
  "refused_live r why =
     \<lparr>lr_run = rq_run r, lr_agent = rq_agent r, lr_user = [], lr_parent = None, lr_seen = [], lr_input = rq_input r,
      lr_events = [], lr_sent = [], lr_stop = False, lr_owns = False, lr_phase = Refused_run why\<rparr>"

definition change_live :: "nat \<Rightarrow> (live_run \<Rightarrow> live_run) \<Rightarrow> thread_world \<Rightarrow> thread_world" where
  "change_live n f w =
     (if n < length (tw_live w) then w\<lparr>tw_live := (tw_live w)[n := f (tw_live w ! n)]\<rparr> else w)"

definition supersede :: "thread_world \<Rightarrow> thread_world" where
  "supersede w =
     (let w' = (case ts_active (tw_state w) of None \<Rightarrow> w | Some n \<Rightarrow> change_live n (\<lambda>l. l\<lparr>lr_stop := True\<rparr>) w) in
      w'\<lparr>tw_state := (tw_state w')\<lparr>ts_running := False\<rparr>\<rparr>)"

definition start_run :: "bool \<Rightarrow> run_request \<Rightarrow> thread_world \<Rightarrow> thread_world" where
  "start_run superseding r w =
     (if ts_load (tw_state w) = Load_failed then w\<lparr>tw_live := tw_live w @ [refused_live r ''Load failed'']\<rparr>
      else if ts_load (tw_state w) \<noteq> Loaded then w
      else if (ts_running (tw_state w) \<or> ts_stop (tw_state w)) \<and> \<not> superseding
      then w\<lparr>tw_live := tw_live w @ [refused_live r ''Thread already running'']\<rparr>
      else
        let w' = (if ts_running (tw_state w) \<or> ts_stop (tw_state w) then supersede w else w);
            st = tw_state w'; n = length (tw_live w');
            user = (case rq_user r of Some u \<Rightarrow> u | None \<Rightarrow> ts_user st) in
        w'\<lparr>tw_state := st\<lparr>ts_user := (if ts_user st = [] then user else ts_user st),
             ts_agent := (case rq_agent r of Some a \<Rightarrow> a | None \<Rightarrow> ts_agent st),
             ts_running := True, ts_current := Some (rq_run r), ts_active := Some n, ts_stop := False,
             ts_subject := Some n\<rparr>,
           tw_live := tw_live w' @ [new_live st r user]\<rparr>)"

definition process_event :: "live_run \<Rightarrow> jsv \<Rightarrow> jsv" where
  "process_event l e =
     (if event_type e = Some ''RUN_STARTED'' \<and> \<not> js_true (js_field e ''input'')
      then js_put ''input''
        (case js_field (lr_input l) ''messages'' of
           Some (JArr ms) \<Rightarrow>
             js_put ''messages'' (JArr (filter (\<lambda>m. js_string_field m ''id'' \<notin> set (lr_seen l)) ms)) (lr_input l)
         | _ \<Rightarrow> lr_input l) e
      else e)"

definition run_emitted :: "nat \<Rightarrow> jsv \<Rightarrow> thread_world \<Rightarrow> thread_world" where
  "run_emitted n e w =
     (if n < length (tw_live w) \<and> lr_phase (tw_live w ! n) = Streaming
      then change_live n (\<lambda>l. l\<lparr>lr_events := lr_events l @ [process_event l e], lr_sent := lr_sent l @ [process_event l e]\<rparr>) w
      else w)"

text \<open>The end of \<^verbatim>\<open>finalizeRun\<close>: the thread is given back if this run held it when it ended.\<close>

definition finish_run :: "nat \<Rightarrow> thread_world \<Rightarrow> thread_world" where
  "finish_run n w =
     (let l = tw_live w ! n; st = tw_state w;
          st1 = (if lr_owns l
                 then st\<lparr>ts_current := None, ts_active := None, ts_stop := False, ts_running := False\<rparr> else st);
          st2 = (if ts_subject st1 = Some n then st1\<lparr>ts_subject := None\<rparr> else st1) in
      change_live n (\<lambda>l. l\<lparr>lr_phase := Ended\<rparr>) (w\<lparr>tw_state := st2\<rparr>))"

text \<open>\<^verbatim>\<open>finalizeRun\<close> up to its first wait: the message is the error of a run that was interrupted.\<close>

definition run_returned ::
  "(jsv list \<Rightarrow> jsv list) \<Rightarrow> (jsv list \<Rightarrow> bool \<Rightarrow> string option \<Rightarrow> jsv list \<times> jsv list) \<Rightarrow> nat \<Rightarrow> string option
     \<Rightarrow> jsv list \<Rightarrow> int \<Rightarrow> thread_world \<Rightarrow> thread_world" where
  "run_returned compact finalize n interruption messages now w =
     (if n < length (tw_live w) \<and> lr_phase (tw_live w ! n) = Streaming
      then
        let l = tw_live w ! n; before = length (lr_events l);
            (events, appended) = finalize (lr_events l) (lr_stop l) interruption;
            owns = (ts_current (tw_state w) = Some (lr_run l));
            run = \<lparr>hr_run = lr_run l, hr_agent = (case lr_agent l of Some a \<Rightarrow> a | None \<Rightarrow> ''default''),
                   hr_parent = lr_parent l, hr_events = compact events, hr_messages = messages, hr_created = now\<rparr>;
            w' = change_live n (\<lambda>l. l\<lparr>lr_events := events, lr_sent := lr_sent l @ appended, lr_owns := owns\<rparr>) w in
        if owns \<and> (interruption = None \<or> before > 0)
        then change_live n (\<lambda>l. l\<lparr>lr_phase := Persisting run\<rparr>) w'
        else finish_run n w'
      else w)"

text \<open>The transaction: the thread's row is written or refreshed, a run whose id is there already is left out.\<close>

definition persist_rows :: "string \<Rightarrow> historic_run \<Rightarrow> thread_world \<Rightarrow> thread_world" where
  "persist_rows user run w =
     (let st = tw_state w in
      w\<lparr>tw_row := Some (case tw_row w of
            None \<Rightarrow> \<lparr>tr_id = ts_id st, tr_agent = hr_agent run, tr_user = user, tr_name = None, tr_created = ts_created st,
                     tr_updated = hr_created run\<rparr>
          | Some row \<Rightarrow> row\<lparr>tr_updated := hr_created run, tr_agent := hr_agent run\<rparr>),
        tw_rows := (if hr_run run \<in> (hr_run \<circ> rr_run) ` set (tw_rows w) then tw_rows w
                    else tw_rows w @ [\<lparr>rr_sequence = length (ts_runs st), rr_run = run\<rparr>])\<rparr>)"

definition push_run :: "historic_run \<Rightarrow> thread_world \<Rightarrow> thread_world" where
  "push_run run w = w\<lparr>tw_state := (tw_state w)\<lparr>ts_runs := ts_runs (tw_state w) @ [run]\<rparr>\<rparr>"

definition run_persisted :: "bool \<Rightarrow> nat \<Rightarrow> bool \<Rightarrow> thread_world \<Rightarrow> thread_world" where
  "run_persisted hooked n ok w =
     (if n < length (tw_live w)
      then (case lr_phase (tw_live w ! n) of
          Persisting run \<Rightarrow>
            if \<not> ok then finish_run n (push_run run w)
            else
              let w' = push_run run (persist_rows (lr_user (tw_live w ! n)) run w);
                  w'' = w'\<lparr>tw_state := (tw_state w')\<lparr>ts_updated := hr_created run\<rparr>\<rparr> in
              if hooked then change_live n (\<lambda>l. l\<lparr>lr_phase := Telling run\<rparr>) w'' else finish_run n w''
        | _ \<Rightarrow> w)
      else w)"

text \<open>\<^verbatim>\<open>onRunPersisted\<close> is awaited inside the same \<^verbatim>\<open>try\<close>; its rejection reaches the same \<^verbatim>\<open>catch\<close>.\<close>

definition run_told :: "nat \<Rightarrow> bool \<Rightarrow> thread_world \<Rightarrow> thread_world" where
  "run_told n ok w =
     (if n < length (tw_live w)
      then (case lr_phase (tw_live w ! n) of
          Telling run \<Rightarrow> finish_run n (if ok then w else push_run run w)
        | _ \<Rightarrow> w)
      else w)"

section \<open>Stopping, watching, listing\<close>

definition stop_run :: "string option \<Rightarrow> bool \<Rightarrow> thread_world \<Rightarrow> bool \<times> thread_world" where
  "stop_run run_id abort_ok w =
     (let st = tw_state w in
      if \<not> ts_running st then (False, w)
      else if run_id \<noteq> None \<and> ts_current st \<noteq> run_id then (False, w)
      else if ts_stop st then (False, w)
      else case ts_active st of
          None \<Rightarrow> (False, w)
        | Some n \<Rightarrow>
            if abort_ok
            then (True, change_live n (\<lambda>l. l\<lparr>lr_stop := True\<rparr>) (w\<lparr>tw_state := st\<lparr>ts_stop := True, ts_running := False\<rparr>\<rparr>))
            else (False, change_live n (\<lambda>l. l\<lparr>lr_stop := False\<rparr>) (w\<lparr>tw_state := st\<lparr>ts_stop := False, ts_running := True\<rparr>\<rparr>)))"

definition historic_events :: "(jsv list \<Rightarrow> jsv list) \<Rightarrow> thread_state \<Rightarrow> jsv list" where
  "historic_events compact st = (if ts_runs st = [] then [] else compact (concat (map hr_events (ts_runs st))))"

definition string_ids :: "jsv list \<Rightarrow> string list" where
  "string_ids es = concat (map (\<lambda>e. case js_string_field e ''messageId'' of Some i \<Rightarrow> [i] | None \<Rightarrow> []) es)"

text \<open>What a connection is sent: the history, then, of a run under way, what it sends but no message of the
  history again.\<close>

definition connected :: "(jsv list \<Rightarrow> jsv list) \<Rightarrow> thread_state \<Rightarrow> jsv list \<Rightarrow> jsv list" where
  "connected compact st live =
     (let past = historic_events compact st in
      if ts_runs st = [] \<and> \<not> ts_running st then []
      else past @ (if ts_subject st \<noteq> None \<and> (ts_running st \<or> ts_stop st)
                   then filter (\<lambda>e. case js_string_field e ''messageId'' of Some i \<Rightarrow> i \<notin> set (string_ids past) | None \<Rightarrow> True) live
                   else []))"

definition thread_messages :: "thread_state option \<Rightarrow> jsv list" where
  "thread_messages st =
     (case st of None \<Rightarrow> [] | Some s \<Rightarrow> if ts_runs s = [] then [] else hr_messages (last (ts_runs s)))"

definition snapshot_state :: "jsv list \<Rightarrow> jsv option" where
  "snapshot_state es =
     (case dropWhile (\<lambda>e. event_type e \<noteq> Some ''STATE_SNAPSHOT'') (rev es) of
        [] \<Rightarrow> None
      | e # rest \<Rightarrow> (case js_field e ''snapshot'' of Some (JObj kvs) \<Rightarrow> Some (JObj kvs) | _ \<Rightarrow> None))"

definition has_thread :: "thread_row option \<Rightarrow> string \<Rightarrow> bool" where
  "has_thread row user = (case row of None \<Rightarrow> False | Some r \<Rightarrow> tr_user r = user)"

text \<open>The map of cached threads, in the order they were first touched.\<close>

definition state_of :: "string \<Rightarrow> int \<Rightarrow> thread_state list \<Rightarrow> thread_state list" where
  "state_of i now cache = (if i \<in> ts_id ` set cache then cache else cache @ [new_state i now])"

definition warm :: "thread_row list \<Rightarrow> int \<Rightarrow> thread_state list \<Rightarrow> thread_state list" where
  "warm rows now cache =
     fold (\<lambda>row c. map (\<lambda>st. if ts_id st = tr_id row then with_row row st else st) (state_of (tr_id row) now c))
       (take 1000 (rev (sort_key tr_updated rows))) cache"

definition listed :: "thread_state \<Rightarrow> bool" where
  "listed st \<longleftrightarrow> \<not> (ts_runs st = [] \<and> ts_load st = Not_loaded)"

definition list_threads :: "thread_state list \<Rightarrow> thread_state list" where
  "list_threads cache = rev (sort_key ts_updated (filter listed cache))"

section \<open>Steps\<close>

datatype thread_event =
    Hydrate_asked
  | Hydrate_done bool
  | Start_asked run_request
  | Run_emitted nat jsv
  | Run_returned nat "string option" "jsv list" int
  | Run_persisted nat bool
  | Run_told nat bool
  | Stop_asked "string option" bool

fun thread_step ::
  "bool \<Rightarrow> bool \<Rightarrow> (jsv list \<Rightarrow> jsv list) \<Rightarrow> (jsv list \<Rightarrow> bool \<Rightarrow> string option \<Rightarrow> jsv list \<times> jsv list)
     \<Rightarrow> thread_event \<Rightarrow> thread_world \<Rightarrow> thread_world" where
  "thread_step superseding hooked compact finalize Hydrate_asked w = hydrate_asked w"
| "thread_step superseding hooked compact finalize (Hydrate_done ok) w = hydrate_done ok w"
| "thread_step superseding hooked compact finalize (Start_asked r) w = start_run superseding r w"
| "thread_step superseding hooked compact finalize (Run_emitted n e) w = run_emitted n e w"
| "thread_step superseding hooked compact finalize (Run_returned n i ms now) w = run_returned compact finalize n i ms now w"
| "thread_step superseding hooked compact finalize (Run_persisted n ok) w = run_persisted hooked n ok w"
| "thread_step superseding hooked compact finalize (Run_told n ok) w = run_told n ok w"
| "thread_step superseding hooked compact finalize (Stop_asked i ok) w = snd (stop_run i ok w)"

definition new_world :: "string \<Rightarrow> int \<Rightarrow> thread_row option \<Rightarrow> run_row list \<Rightarrow> thread_world" where
  "new_world i now row rows = \<lparr>tw_state = new_state i now, tw_live = [], tw_row = row, tw_rows = rows\<rparr>"

section \<open>One run at a time\<close>

definition unfinished :: "live_run \<Rightarrow> bool" where
  "unfinished l = (case lr_phase l of Ended \<Rightarrow> False | Refused_run why \<Rightarrow> False | _ \<Rightarrow> True)"

text \<open>The run that holds the thread is the only one that has not ended.\<close>

definition run_inv :: "thread_world \<Rightarrow> bool" where
  "run_inv w \<longleftrightarrow>
     (case ts_active (tw_state w) of
        None \<Rightarrow> \<not> ts_running (tw_state w) \<and> \<not> ts_stop (tw_state w) \<and> list_all (\<lambda>l. \<not> unfinished l) (tw_live w)
      | Some n \<Rightarrow>
          n < length (tw_live w) \<and> unfinished (tw_live w ! n) \<and> (ts_running (tw_state w) \<or> ts_stop (tw_state w))
          \<and> ts_current (tw_state w) = Some (lr_run (tw_live w ! n))
          \<and> (lr_phase (tw_live w ! n) = Streaming \<or> lr_owns (tw_live w ! n))
          \<and> list_all (\<lambda>l. \<not> unfinished l) (take n (tw_live w)) \<and> list_all (\<lambda>l. \<not> unfinished l) (drop (Suc n) (tw_live w)))"

lemma unfinished_simps [simp]:
  "lr_phase l = Streaming \<Longrightarrow> unfinished l" "lr_phase l = Persisting h \<Longrightarrow> unfinished l"
  "lr_phase l = Telling h \<Longrightarrow> unfinished l" "lr_phase l = Ended \<Longrightarrow> \<not> unfinished l"
  "lr_phase l = Refused_run why \<Longrightarrow> \<not> unfinished l"
  by (simp_all add: unfinished_def)

lemma run_inv_active:
  assumes "run_inv w" "n < length (tw_live w)" "unfinished (tw_live w ! n)"
  shows "ts_active (tw_state w) = Some n"
proof (cases "ts_active (tw_state w)")
  case None
  with assms show ?thesis by (auto simp: run_inv_def list_all_length)
next
  case (Some m)
  have "n = m"
  proof (rule ccontr)
    assume "n \<noteq> m"
    then consider "n < m" | "m < n" by linarith
    then show False
    proof cases
      case 1
      with assms Some show False by (auto simp: run_inv_def list_all_length)
    next
      case 2
      then have "tw_live w ! n = drop (Suc m) (tw_live w) ! (n - Suc m)" "n - Suc m < length (drop (Suc m) (tw_live w))"
        using assms(2) by simp_all
      with assms Some show False by (auto simp: run_inv_def list_all_length)
    qed
  qed
  with Some show ?thesis by simp
qed

lemma run_inv_change:
  assumes "run_inv w" "ts_active (tw_state w) = Some n" "unfinished (f (tw_live w ! n))"
    and "lr_run (f (tw_live w ! n)) = lr_run (tw_live w ! n)"
    and "lr_phase (f (tw_live w ! n)) = Streaming \<or> lr_owns (f (tw_live w ! n))"
  shows "run_inv (change_live n f w)"
  using assms by (auto simp: run_inv_def change_live_def)

lemma run_inv_state:
  assumes "run_inv w" "ts_active (tw_state w') = ts_active (tw_state w)" "ts_current (tw_state w') = ts_current (tw_state w)"
    and "ts_running (tw_state w') \<or> ts_stop (tw_state w') \<longleftrightarrow> ts_running (tw_state w) \<or> ts_stop (tw_state w)"
    and "tw_live w' = tw_live w"
  shows "run_inv w'"
  using assms by (cases "ts_active (tw_state w)") (simp_all add: run_inv_def)

lemma run_inv_finish:
  assumes "run_inv w" "ts_active (tw_state w) = Some n" "lr_owns (tw_live w ! n)"
  shows "run_inv (finish_run n w)"
proof -
  have n: "n < length (tw_live w)" and rest: "list_all (\<lambda>l. \<not> unfinished l) (take n (tw_live w))"
      "list_all (\<lambda>l. \<not> unfinished l) (drop (Suc n) (tw_live w))"
    using assms by (simp_all add: run_inv_def)
  have "list_all (\<lambda>l. \<not> unfinished l) ((tw_live w)[n := (tw_live w ! n)\<lparr>lr_phase := Ended\<rparr>])"
    using n rest by (simp add: upd_conv_take_nth_drop)
  with n assms show ?thesis by (simp add: run_inv_def finish_run_def change_live_def Let_def)
qed

lemma run_inv_refused: "run_inv w \<Longrightarrow> run_inv (w\<lparr>tw_live := tw_live w @ [refused_live r why]\<rparr>)"
  by (cases "ts_active (tw_state w)") (auto simp: run_inv_def refused_live_def nth_append)

lemma run_inv_start: "run_inv w \<Longrightarrow> run_inv (start_run False r w)"
proof -
  assume inv: "run_inv w"
  show ?thesis
  proof (cases "ts_running (tw_state w) \<or> ts_stop (tw_state w)")
    case True
    with inv run_inv_refused [OF inv] show ?thesis by (simp add: start_run_def)
  next
    case False
    then have "ts_active (tw_state w) = None" "list_all (\<lambda>l. \<not> unfinished l) (tw_live w)"
      using inv by (cases "ts_active (tw_state w)"; simp add: run_inv_def)+
    with inv False run_inv_refused [OF inv] show ?thesis
      by (simp add: start_run_def run_inv_def Let_def new_live_def)
  qed
qed

lemma run_inv_returned: "run_inv w \<Longrightarrow> run_inv (run_returned compact finalize n i ms now w)"
proof -
  assume inv: "run_inv w"
  show ?thesis
  proof (cases "n < length (tw_live w) \<and> lr_phase (tw_live w ! n) = Streaming")
    case True
    then have act: "ts_active (tw_state w) = Some n" using run_inv_active [OF inv] by simp
    obtain es ap where fin: "finalize (lr_events (tw_live w ! n)) (lr_stop (tw_live w ! n)) i = (es, ap)" by fastforce
    have own: "ts_current (tw_state w) = Some (lr_run (tw_live w ! n))" using inv act by (simp add: run_inv_def)
    let ?f = "\<lambda>l. l\<lparr>lr_events := es, lr_sent := lr_sent l @ ap, lr_owns := True\<rparr>"
    have changed: "run_inv (change_live n ?f w)" using inv act True by (intro run_inv_change) simp_all
    have nth: "tw_live (change_live n ?f w) ! n = ?f (tw_live w ! n)" "tw_state (change_live n ?f w) = tw_state w"
      using True by (simp_all add: change_live_def)
    have "run_inv (change_live n (\<lambda>l. l\<lparr>lr_phase := Persisting h\<rparr>) (change_live n ?f w))" for h
      by (rule run_inv_change [OF changed]) (simp_all add: nth act)
    moreover have "run_inv (finish_run n (change_live n ?f w))"
      using changed act by (intro run_inv_finish) (simp_all add: nth)
    ultimately show ?thesis using True by (simp add: run_returned_def Let_def fin own)
  next
    case False
    with inv show ?thesis unfolding run_returned_def by (simp only: if_False)
  qed
qed

lemma world_simps [simp]:
  "tw_live (push_run h w) = tw_live w" "tw_live (persist_rows u h w) = tw_live w"
  "tw_state (persist_rows u h w) = tw_state w"
  "tw_state (push_run h w) = (tw_state w)\<lparr>ts_runs := ts_runs (tw_state w) @ [h]\<rparr>"
  "tw_rows (push_run h w) = tw_rows w" "tw_row (push_run h w) = tw_row w"
  by (simp_all add: push_run_def persist_rows_def Let_def)

lemma run_inv_persisted: "run_inv w \<Longrightarrow> run_inv (run_persisted hooked n ok w)"
proof -
  assume inv: "run_inv w"
  show ?thesis
  proof (cases "n < length (tw_live w) \<and> (\<exists>h. lr_phase (tw_live w ! n) = Persisting h)")
    case True
    then obtain h where h: "lr_phase (tw_live w ! n) = Persisting h" and n: "n < length (tw_live w)" by blast
    then have act: "ts_active (tw_state w) = Some n" using run_inv_active [OF inv] by simp
    have owns: "lr_owns (tw_live w ! n)" using inv act h by (simp add: run_inv_def)
    have pushed: "run_inv w'" if "tw_live w' = tw_live w"
        "ts_active (tw_state w') = ts_active (tw_state w)" "ts_current (tw_state w') = ts_current (tw_state w)"
        "ts_running (tw_state w') = ts_running (tw_state w)" "ts_stop (tw_state w') = ts_stop (tw_state w)" for w'
      using that by (intro run_inv_state [OF inv]) simp_all
    show ?thesis
      using n h act owns
      by (simp add: run_persisted_def Let_def)
        (intro conjI impI run_inv_finish run_inv_change pushed; simp)
  qed (use inv in \<open>auto simp: run_persisted_def split: run_phase.split\<close>)
qed

lemma run_inv_told: "run_inv w \<Longrightarrow> run_inv (run_told n ok w)"
proof -
  assume inv: "run_inv w"
  show ?thesis
  proof (cases "n < length (tw_live w) \<and> (\<exists>h. lr_phase (tw_live w ! n) = Telling h)")
    case True
    then obtain h where h: "lr_phase (tw_live w ! n) = Telling h" and n: "n < length (tw_live w)" by blast
    then have act: "ts_active (tw_state w) = Some n" using run_inv_active [OF inv] by simp
    have owns: "lr_owns (tw_live w ! n)" using inv act h by (simp add: run_inv_def)
    have "run_inv (push_run h w)" by (rule run_inv_state [OF inv]) simp_all
    with n h act owns inv show ?thesis by (simp add: run_told_def run_inv_finish)
  qed (use inv in \<open>auto simp: run_told_def split: run_phase.split\<close>)
qed

lemma run_inv_stop: "run_inv w \<Longrightarrow> run_inv (snd (stop_run i ok w))"
proof -
  assume inv: "run_inv w"
  show ?thesis
  proof (cases "ts_active (tw_state w)")
    case (Some n)
    have "run_inv (change_live n (\<lambda>l. l\<lparr>lr_stop := b\<rparr>) (w\<lparr>tw_state := (tw_state w)\<lparr>ts_stop := b, ts_running := \<not> b\<rparr>\<rparr>))" for b
    proof -
      have "run_inv (w\<lparr>tw_state := (tw_state w)\<lparr>ts_stop := b, ts_running := \<not> b\<rparr>\<rparr>)"
        using inv Some by (cases b) (simp_all add: run_inv_def)
      then show ?thesis by (rule run_inv_change) (use inv Some in \<open>auto simp: run_inv_def unfinished_def\<close>)
    qed
    from this [of True] this [of False] inv show ?thesis by (simp add: stop_run_def Let_def Some)
  qed (use inv in \<open>simp add: stop_run_def Let_def\<close>)
qed

lemma run_inv_step: "run_inv w \<Longrightarrow> run_inv (thread_step False hooked compact finalize e w)"
proof (cases e)
  case (Hydrate_done ok)
  assume inv: "run_inv w"
  show ?thesis unfolding Hydrate_done thread_step.simps hydrate_done_def Let_def
    by (auto intro!: run_inv_state [OF inv] simp: with_row_def inv split: option.split)
next
  case (Run_emitted n e)
  assume inv: "run_inv w"
  show ?thesis
  proof (cases "n < length (tw_live w) \<and> lr_phase (tw_live w ! n) = Streaming")
    case True
    with run_inv_active [OF inv] have "ts_active (tw_state w) = Some n" by simp
    with True inv show ?thesis unfolding Run_emitted thread_step.simps run_emitted_def
      by (auto intro: run_inv_change)
  next
    case False
    with inv show ?thesis unfolding Run_emitted thread_step.simps run_emitted_def by (simp only: if_False)
  qed
next
  case Hydrate_asked
  assume inv: "run_inv w"
  show ?thesis unfolding Hydrate_asked thread_step.simps hydrate_asked_def
    by (auto intro!: run_inv_state [OF inv] simp: inv)
qed (simp_all add: run_inv_start run_inv_returned run_inv_persisted run_inv_told run_inv_stop)

lemma run_inv_reachable: "run_inv (fold (thread_step False hooked compact finalize) events (new_world i now row rows))"
proof (induction events rule: rev_induct)
  case Nil
  show ?case by (simp add: new_world_def run_inv_def new_state_def)
qed (simp add: run_inv_step)

text \<open>C10: a thread runs one turn at a time. However loads, starts, events, ends, failing writes and stops
  interleave, at most one run that was started on it has not ended, and the thread is marked as running or
  stopping exactly while there is one.\<close>

theorem one_turn_at_a_time:
  "let w = fold (thread_step False hooked compact finalize) events (new_world i now row rows) in
     length (filter unfinished (tw_live w)) = (if ts_running (tw_state w) \<or> ts_stop (tw_state w) then 1 else 0)"
proof -
  let ?w = "fold (thread_step False hooked compact finalize) events (new_world i now row rows)"
  have inv: "run_inv ?w" by (rule run_inv_reachable)
  show ?thesis
  proof (cases "ts_active (tw_state ?w)")
    case None
    with inv show ?thesis by (simp add: run_inv_def Let_def filter_empty_conv list_all_iff)
  next
    case (Some n)
    with inv have *: "n < length (tw_live ?w)" "unfinished (tw_live ?w ! n)"
        "filter unfinished (take n (tw_live ?w)) = []" "filter unfinished (drop (Suc n) (tw_live ?w)) = []"
      by (simp_all add: run_inv_def filter_empty_conv list_all_iff)
    have "filter unfinished (tw_live ?w) = [tw_live ?w ! n]"
      by (subst id_take_nth_drop [OF *(1)]) (simp add: *)
    with inv Some show ?thesis by (simp add: run_inv_def Let_def)
  qed
qed

section \<open>What a restart finds\<close>

text \<open>Each run names the one before it as its parent.\<close>

fun lineage :: "string option \<Rightarrow> historic_run list \<Rightarrow> bool" where
  "lineage p [] = True"
| "lineage p (r # rs) = (hr_parent r = p \<and> lineage (Some (hr_run r)) rs)"

lemma lineage_append: "lineage p (rs @ [r]) \<longleftrightarrow> lineage p rs \<and> hr_parent r = (if rs = [] then p else Some (hr_run (last rs)))"
  by (induction rs arbitrary: p) auto

lemma lineage_last: "lineage None (rs @ [r]) \<longleftrightarrow> lineage None rs \<and> hr_parent r = last_run_id rs"
  by (simp add: lineage_append last_run_id_def)

definition live_ok :: "thread_state \<Rightarrow> live_run \<Rightarrow> bool" where
  "live_ok st l =
     (case lr_phase l of
        Streaming \<Rightarrow> ts_load st = Loaded \<and> lr_parent l = last_run_id (ts_runs st)
      | Persisting h \<Rightarrow> ts_load st = Loaded \<and> hr_parent h = last_run_id (ts_runs st)
      | Telling h \<Rightarrow> ts_load st = Loaded
      | _ \<Rightarrow> True)"

definition hist_inv :: "thread_world \<Rightarrow> bool" where
  "hist_inv w \<longleftrightarrow>
     (if tw_row w = None then tw_rows w = [] else True)
     \<and> map rr_sequence (tw_rows w) = [0..<length (tw_rows w)]
     \<and> lineage None (map rr_run (tw_rows w))
     \<and> ts_runs (tw_state w) = (if ts_load (tw_state w) = Loaded then map rr_run (tw_rows w) else [])
     \<and> list_all (live_ok (tw_state w)) (tw_live w)"

lemma live_ok_finished [simp]: "\<not> unfinished l \<Longrightarrow> live_ok st l"
  by (simp add: live_ok_def unfinished_def split: run_phase.splits)

lemma live_ok_cong: "ts_load st' = ts_load st \<Longrightarrow> ts_runs st' = ts_runs st \<Longrightarrow> live_ok st' = live_ok st"
  by (auto simp: live_ok_def fun_eq_iff split: run_phase.split)

lemma live_ok_same: "lr_phase l' = lr_phase l \<Longrightarrow> lr_parent l' = lr_parent l \<Longrightarrow> live_ok st l' = live_ok st l"
  by (auto simp: live_ok_def split: run_phase.split)

lemma hist_inv_state:
  assumes "hist_inv w" "ts_load (tw_state w') = ts_load (tw_state w)" "ts_runs (tw_state w') = ts_runs (tw_state w)"
    and "tw_row w' = tw_row w" "tw_rows w' = tw_rows w" "list_all (live_ok (tw_state w)) (tw_live w')"
  shows "hist_inv w'"
  using assms live_ok_cong [of "tw_state w'" "tw_state w"] by (simp add: hist_inv_def)

lemma change_live_simps [simp]:
  "tw_state (change_live n f w) = tw_state w" "tw_row (change_live n f w) = tw_row w" "tw_rows (change_live n f w) = tw_rows w"
  by (simp_all add: change_live_def)

lemma list_all_update: "list_all P xs \<Longrightarrow> (n < length xs \<Longrightarrow> P y) \<Longrightarrow> list_all P (xs[n := y])"
  by (cases "n < length xs") (auto simp: list_all_length nth_list_update)

lemma hist_inv_change:
  assumes "hist_inv w" "n < length (tw_live w) \<Longrightarrow> live_ok (tw_state w) (f (tw_live w ! n))"
  shows "hist_inv (change_live n f w)"
proof -
  have "list_all (live_ok (tw_state w)) (tw_live (change_live n f w))"
    using assms by (simp add: change_live_def hist_inv_def list_all_update)
  then show ?thesis using assms(1) by (intro hist_inv_state [OF assms(1)]) simp_all
qed

lemma hist_inv_live: "hist_inv w \<Longrightarrow> n < length (tw_live w) \<Longrightarrow> live_ok (tw_state w) (tw_live w ! n)"
  by (simp add: hist_inv_def list_all_length)

lemma hist_inv_finish: "hist_inv w \<Longrightarrow> hist_inv (finish_run n w)"
  unfolding finish_run_def Let_def
  by (rule hist_inv_change, rule hist_inv_state) (auto simp: hist_inv_def)

lemma sort_key_sorted: "sorted (map f xs) \<Longrightarrow> sort_key f xs = xs"
  by (simp add: sort_key_id_if_sorted)

lemma reload_ordered: "map rr_sequence rows = [0..<length rows] \<Longrightarrow> reload rows = map rr_run rows"
  by (simp add: reload_def sort_key_sorted)

lemma hist_inv_persisted:
  assumes inv: "run_inv w" and hist: "hist_inv w" and "distinct (map hr_run (ts_runs (tw_state w)) @ [hr_run h])"
    and n: "n < length (tw_live w)" and ph: "lr_phase (tw_live w ! n) = Persisting h"
    and f: "lr_phase (f (tw_live w ! n)) = Telling h \<or> \<not> unfinished (f (tw_live w ! n))"
    and w': "tw_state w' = st" "tw_live w' = (tw_live w)[n := f (tw_live w ! n)]"
      "tw_row w' = tw_row (persist_rows u h w)" "tw_rows w' = tw_rows (persist_rows u h w)"
    and st: "ts_load st = ts_load (tw_state w)" "ts_runs st = ts_runs (tw_state w) @ [h]"
  shows "hist_inv w'"
proof -
  have ok: "ts_load (tw_state w) = Loaded" "hr_parent h = last_run_id (ts_runs (tw_state w))"
    using hist_inv_live [OF hist n] ph by (simp_all add: live_ok_def)
  then have runs: "ts_runs (tw_state w) = map rr_run (tw_rows w)" using hist by (simp add: hist_inv_def)
  then have rows: "tw_rows w' = tw_rows w @ [\<lparr>rr_sequence = length (tw_rows w), rr_run = h\<rparr>]"
    using assms(3) w' by (auto simp: persist_rows_def Let_def)
  have act: "ts_active (tw_state w) = Some n" using run_inv_active [OF inv n] ph by simp
  then have "list_all (live_ok st) (take n (tw_live w))" "list_all (live_ok st) (drop (Suc n) (tw_live w))"
    using inv by (auto simp: run_inv_def list_all_iff)
  moreover have "live_ok st (f (tw_live w ! n))" using f
  proof
    assume "lr_phase (f (tw_live w ! n)) = Telling h"
    then show ?thesis using st ok by (simp add: live_ok_def)
  qed (rule live_ok_finished)
  ultimately have "list_all (live_ok st) (tw_live w')" using n by (simp add: w' upd_conv_take_nth_drop)
  moreover have "tw_row w' \<noteq> None" by (simp add: w' persist_rows_def Let_def)
  ultimately show ?thesis
    using hist ok runs st by (auto simp: hist_inv_def rows w' lineage_last)
qed

text \<open>Every write and every hook succeeds.\<close>

fun undisturbed :: "thread_event \<Rightarrow> bool" where
  "undisturbed (Run_persisted n ok) = ok"
| "undisturbed (Run_told n ok) = ok"
| "undisturbed e = True"

lemma hist_inv_step:
  assumes inv: "run_inv w" and hist: "hist_inv w" and "undisturbed e"
    and dis: "distinct (map hr_run (ts_runs (tw_state (thread_step False hooked compact finalize e w))))"
  shows "hist_inv (thread_step False hooked compact finalize e w)"
proof (cases e)
  case Hydrate_asked
  have "hist_inv (w\<lparr>tw_state := (tw_state w)\<lparr>ts_load := Loading\<rparr>\<rparr>)" if "ts_load (tw_state w) = Not_loaded"
    using hist that by (auto simp: hist_inv_def live_ok_def list_all_iff split: run_phase.splits)
  with hist show ?thesis by (simp add: Hydrate_asked hydrate_asked_def)
next
  case (Hydrate_done ok)
  have finished: "list_all (live_ok st) (tw_live w)" if "ts_load (tw_state w) = Loading" for st
    using hist that by (auto simp: hist_inv_def live_ok_def list_all_iff split: run_phase.splits)
  with hist show ?thesis
    by (simp add: Hydrate_done hydrate_done_def Let_def hist_inv_def with_row_def reload_ordered split: option.split)
next
  case (Start_asked r)
  have refused: "hist_inv (w\<lparr>tw_live := tw_live w @ [refused_live r why]\<rparr>)" for why
    using hist by (intro hist_inv_state [OF hist]) (simp_all add: hist_inv_def refused_live_def)
  have started: "hist_inv (w\<lparr>tw_state := st, tw_live := tw_live w @ [new_live (tw_state w) r user]\<rparr>)"
    if "ts_load (tw_state w) = Loaded" "ts_load st = Loaded" "ts_runs st = ts_runs (tw_state w)" for st user
    using hist that by (intro hist_inv_state [OF hist]) (simp_all add: hist_inv_def new_live_def live_ok_def)
  show ?thesis using hist refused started by (simp add: Start_asked start_run_def Let_def)
next
  case (Run_emitted n ev)
  have "hist_inv (change_live n (\<lambda>l. l\<lparr>lr_events := lr_events l @ [process_event l ev], lr_sent := lr_sent l @ [process_event l ev]\<rparr>) w)"
    by (rule hist_inv_change [OF hist], subst live_ok_same [of _ "tw_live w ! n"]) (simp_all add: hist_inv_live [OF hist])
  with hist show ?thesis by (simp add: Run_emitted run_emitted_def)
next
  case (Run_returned n i ms now)
  show ?thesis
  proof (cases "n < length (tw_live w) \<and> lr_phase (tw_live w ! n) = Streaming")
    case True
    obtain es ap where fin: "finalize (lr_events (tw_live w ! n)) (lr_stop (tw_live w ! n)) i = (es, ap)" by fastforce
    have ok: "ts_load (tw_state w) = Loaded" "lr_parent (tw_live w ! n) = last_run_id (ts_runs (tw_state w))"
      using hist_inv_live [OF hist, of n] True by (simp_all add: live_ok_def)
    have changed: "hist_inv (change_live n (\<lambda>l. l\<lparr>lr_events := es, lr_sent := lr_sent l @ ap, lr_owns := b\<rparr>) w)" for b
      using ok True by (intro hist_inv_change [OF hist]) (simp add: live_ok_def)
    have persisting: "hist_inv (change_live n (\<lambda>l. l\<lparr>lr_phase := Persisting h\<rparr>)
        (change_live n (\<lambda>l. l\<lparr>lr_events := es, lr_sent := lr_sent l @ ap, lr_owns := b\<rparr>) w))"
      if "hr_parent h = lr_parent (tw_live w ! n)" for b h
      using ok that by (intro hist_inv_change [OF changed]) (simp add: live_ok_def)
    show ?thesis
      using True persisting hist_inv_finish [OF changed] by (simp add: Run_returned run_returned_def Let_def fin)
  next
    case False
    with hist show ?thesis unfolding Run_returned thread_step.simps run_returned_def by (simp only: if_False)
  qed
next
  case (Run_persisted n ok)
  show ?thesis
  proof (cases "n < length (tw_live w) \<and> (\<exists>h. lr_phase (tw_live w ! n) = Persisting h)")
    case True
    then obtain h where h: "lr_phase (tw_live w ! n) = Persisting h" and n: "n < length (tw_live w)" by blast
    have ok: "ok" using \<open>undisturbed e\<close> by (simp add: Run_persisted)
    have runs: "ts_runs (tw_state (run_persisted hooked n ok w)) = ts_runs (tw_state w) @ [h]"
      "ts_load (tw_state (run_persisted hooked n ok w)) = ts_load (tw_state w)"
      using n h ok by (simp_all add: run_persisted_def Let_def finish_run_def)
    have d: "distinct (map hr_run (ts_runs (tw_state w)) @ [hr_run h])"
      using dis by (simp add: Run_persisted runs)
    have live: "tw_live (run_persisted hooked n ok w) =
        (tw_live w)[n := (if hooked then (tw_live w ! n)\<lparr>lr_phase := Telling h\<rparr> else (tw_live w ! n)\<lparr>lr_phase := Ended\<rparr>)]"
      "tw_row (run_persisted hooked n ok w) = tw_row (persist_rows (lr_user (tw_live w ! n)) h w)"
      "tw_rows (run_persisted hooked n ok w) = tw_rows (persist_rows (lr_user (tw_live w ! n)) h w)"
      using n h ok by (simp_all add: run_persisted_def Let_def finish_run_def change_live_def)
    show ?thesis
      unfolding Run_persisted thread_step.simps
      by (rule hist_inv_persisted [OF inv hist d n h, where
            f = "\<lambda>l. if hooked then l\<lparr>lr_phase := Telling h\<rparr> else l\<lparr>lr_phase := Ended\<rparr>", OF _ refl _ live(2,3) runs(2,1)])
        (simp_all add: live)
  next
    case False
    with hist show ?thesis by (auto simp: Run_persisted run_persisted_def split: run_phase.split)
  qed
next
  case (Run_told n ok)
  then have "ok" using \<open>undisturbed e\<close> by simp
  with hist show ?thesis by (auto simp: Run_told run_told_def hist_inv_finish split: run_phase.split)
next
  case (Stop_asked i ok)
  have stopped: "hist_inv (change_live n (\<lambda>l. l\<lparr>lr_stop := b\<rparr>) (w\<lparr>tw_state := (tw_state w)\<lparr>ts_stop := b, ts_running := c\<rparr>\<rparr>))"
    for n b c
  proof -
    have w: "hist_inv (w\<lparr>tw_state := (tw_state w)\<lparr>ts_stop := b, ts_running := c\<rparr>\<rparr>)"
      using hist by (intro hist_inv_state [OF hist]) (simp_all add: hist_inv_def)
    show ?thesis
      by (rule hist_inv_change [OF w], subst live_ok_same [of _ "tw_live w ! n"])
        (use hist_inv_live [OF hist] in \<open>simp_all add: live_ok_cong [of "(tw_state w)\<lparr>ts_stop := b, ts_running := c\<rparr>" "tw_state w"]\<close>)
  qed
  with hist show ?thesis by (simp add: Stop_asked stop_run_def Let_def split: option.split)
qed

text \<open>Before a thread is loaded nothing runs on it.\<close>

definition base_inv :: "thread_world \<Rightarrow> bool" where
  "base_inv w \<longleftrightarrow> ts_load (tw_state w) = Loaded \<or> (ts_runs (tw_state w) = [] \<and> list_all (\<lambda>l. \<not> unfinished l) (tw_live w))"

lemma finish_run_simps [simp]:
  "ts_load (tw_state (finish_run n w)) = ts_load (tw_state w)" "ts_runs (tw_state (finish_run n w)) = ts_runs (tw_state w)"
  by (simp_all add: finish_run_def Let_def)

lemma loaded_step:
  assumes "ts_load (tw_state w) = Loaded"
  shows "ts_load (tw_state (thread_step False hooked compact finalize e w)) = Loaded
     \<and> prefix (ts_runs (tw_state w)) (ts_runs (tw_state (thread_step False hooked compact finalize e w)))"
proof (cases e)
  case (Run_returned n i ms now)
  obtain es ap where fin: "finalize (lr_events (tw_live w ! n)) (lr_stop (tw_live w ! n)) i = (es, ap)" by fastforce
  show ?thesis using assms by (simp add: Run_returned run_returned_def Let_def fin)
next
  case (Run_persisted n ok)
  show ?thesis using assms
    by (cases "lr_phase (tw_live w ! n)") (simp_all add: Run_persisted run_persisted_def Let_def)
next
  case (Run_told n ok)
  show ?thesis using assms
    by (cases "lr_phase (tw_live w ! n)") (simp_all add: Run_told run_told_def)
qed (use assms in \<open>simp_all add: hydrate_asked_def hydrate_done_def start_run_def Let_def run_emitted_def stop_run_def
    split: option.split\<close>)

lemma finished_nth: "list_all (\<lambda>l. \<not> unfinished l) ls \<Longrightarrow> n < length ls \<Longrightarrow> \<not> unfinished (ls ! n)"
  by (simp add: list_all_length)

lemma base_inv_step: "base_inv w \<Longrightarrow> base_inv (thread_step False hooked compact finalize e w)"
proof (cases "ts_load (tw_state w) = Loaded")
  case True
  then show ?thesis using loaded_step by (simp add: base_inv_def)
next
  case False
  assume base: "base_inv w"
  then have fin: "list_all (\<lambda>l. \<not> unfinished l) (tw_live w)" and none: "ts_runs (tw_state w) = []"
    using False by (simp_all add: base_inv_def)
  have nth: "n < length (tw_live w) \<Longrightarrow> \<not> unfinished (tw_live w ! n)" for n using finished_nth [OF fin] .
  have phase: "lr_phase (tw_live w ! n) \<noteq> Streaming" "lr_phase (tw_live w ! n) \<noteq> Persisting h"
      "lr_phase (tw_live w ! n) \<noteq> Telling h" if "n < length (tw_live w)" for n h
    using nth [OF that] by auto
  show ?thesis
  proof (cases e)
    case Hydrate_asked
    with base False show ?thesis by (simp add: base_inv_def hydrate_asked_def)
  next
    case (Hydrate_done ok)
    with base False show ?thesis by (auto simp: base_inv_def hydrate_done_def Let_def split: option.split)
  next
    case (Start_asked r)
    with base False show ?thesis by (simp add: base_inv_def start_run_def refused_live_def)
  next
    case (Run_emitted n ev)
    have "\<not> (n < length (tw_live w) \<and> lr_phase (tw_live w ! n) = Streaming)" using phase(1) by blast
    then have "thread_step False hooked compact finalize e w = w"
      unfolding Run_emitted thread_step.simps run_emitted_def by (simp only: if_False)
    with base show ?thesis by simp
  next
    case (Run_returned n i ms now)
    have "\<not> (n < length (tw_live w) \<and> lr_phase (tw_live w ! n) = Streaming)" using phase(1) by blast
    then have "thread_step False hooked compact finalize e w = w"
      unfolding Run_returned thread_step.simps run_returned_def by (simp only: if_False)
    with base show ?thesis by simp
  next
    case (Run_persisted n ok)
    show ?thesis
    proof (cases "n < length (tw_live w)")
      case True
      with base phase(2) [OF True] show ?thesis by (simp add: Run_persisted run_persisted_def split: run_phase.split)
    qed (use base in \<open>simp add: Run_persisted run_persisted_def\<close>)
  next
    case (Run_told n ok)
    show ?thesis
    proof (cases "n < length (tw_live w)")
      case True
      with base phase(3) [OF True] show ?thesis by (simp add: Run_told run_told_def split: run_phase.split)
    qed (use base in \<open>simp add: Run_told run_told_def\<close>)
  next
    case (Stop_asked i ok)
    have "list_all (\<lambda>l. \<not> unfinished l) (tw_live (change_live n (\<lambda>l. l\<lparr>lr_stop := b\<rparr>) (w\<lparr>tw_state := st\<rparr>)))" for n b st
      using fin nth [of n] by (auto simp: change_live_def unfinished_def intro: list_all_update)
    with base False none show ?thesis
      by (simp add: Stop_asked stop_run_def Let_def base_inv_def split: option.split)
  qed
qed

lemma distinct_before:
  assumes "base_inv w" "distinct (map hr_run (ts_runs (tw_state (thread_step False hooked compact finalize e w))))"
  shows "distinct (map hr_run (ts_runs (tw_state w)))"
proof (cases "ts_load (tw_state w) = Loaded")
  case True
  then obtain ys where "ts_runs (tw_state (thread_step False hooked compact finalize e w)) = ts_runs (tw_state w) @ ys"
    using loaded_step by (meson prefixE)
  with assms(2) show ?thesis by simp
qed (use assms(1) in \<open>simp add: base_inv_def\<close>)

lemma hist_inv_run:
  assumes "hist_inv (new_world i now row rows)" "list_all undisturbed events"
    and "distinct (map hr_run (ts_runs (tw_state (fold (thread_step False hooked compact finalize) events (new_world i now row rows)))))"
  shows "hist_inv (fold (thread_step False hooked compact finalize) events (new_world i now row rows))"
  using assms(2,3)
proof (induction events rule: rev_induct)
  case (snoc e events)
  let ?w = "fold (thread_step False hooked compact finalize) events (new_world i now row rows)"
  have base: "base_inv ?w"
  proof (induction events rule: rev_induct)
    case Nil
    show ?case by (simp add: base_inv_def new_world_def new_state_def)
  qed (simp add: base_inv_step)
  have "hist_inv ?w" using snoc.IH snoc.prems distinct_before [OF base] by simp
  with hist_inv_step [OF run_inv_reachable] snoc.prems show ?case by simp
qed (use assms(1) in simp)


section \<open>What goes wrong\<close>

text \<open>A thread that is loaded, runs one turn and ends it, with a hook that rejects.\<close>

definition hook_failure :: "thread_event list" where
  "hook_failure =
     [Hydrate_asked, Hydrate_done True,
      Start_asked \<lparr>rq_agent = Some ''ada'', rq_run = ''r1'', rq_input = JObj [], rq_user = Some ''kim''\<rparr>,
      Run_returned 0 None [JStr ''hello''] 5, Run_persisted 0 True, Run_told 0 False]"

text \<open>A hook that rejects doubles a turn. The run was written and pushed before the hook was called, and the
  branch meant for a failed write pushes it again, so the history holds it twice while the rows hold it
  once.\<close>

theorem rejected_hook_doubles_turn:
  "map hr_run (ts_runs (tw_state (fold (thread_step False True id (\<lambda>es stop m. (es, []))) hook_failure (new_world ''t'' 0 None []))))
     = [''r1'', ''r1'']
   \<and> map (hr_run \<circ> rr_run) (tw_rows (fold (thread_step False True id (\<lambda>es stop m. (es, []))) hook_failure (new_world ''t'' 0 None [])))
     = [''r1'']"
  by (simp add: hook_failure_def new_world_def new_state_def hydrate_asked_def hydrate_done_def start_run_def new_live_def
      run_returned_def run_persisted_def run_told_def finish_run_def change_live_def push_run_def persist_rows_def Let_def
      last_run_id_def historic_ids_def)

lemma load_failed_step:
  assumes "ts_load (tw_state w) = Load_failed"
  shows "ts_load (tw_state (thread_step False hooked compact finalize e w)) = Load_failed"
proof (cases e)
  case (Run_returned n i ms now)
  obtain es ap where fin: "finalize (lr_events (tw_live w ! n)) (lr_stop (tw_live w ! n)) i = (es, ap)" by fastforce
  show ?thesis using assms by (simp add: Run_returned run_returned_def Let_def fin)
next
  case (Run_persisted n ok)
  show ?thesis using assms
    by (cases "lr_phase (tw_live w ! n)") (simp_all add: Run_persisted run_persisted_def Let_def)
next
  case (Run_told n ok)
  show ?thesis using assms
    by (cases "lr_phase (tw_live w ! n)") (simp_all add: Run_told run_told_def)
qed (use assms in \<open>simp_all add: hydrate_asked_def hydrate_done_def start_run_def Let_def run_emitted_def stop_run_def
    split: option.split\<close>)

lemma base_inv_reachable: "base_inv (fold (thread_step False hooked compact finalize) events (new_world i now row rows))"
proof (induction events rule: rev_induct)
  case Nil
  show ?case by (simp add: base_inv_def new_world_def new_state_def)
qed (simp add: base_inv_step)

text \<open>a load that fails once blocks its thread for good. The failed load is kept as the answer to every later
  one, so from then on no run is ever under way on the thread and its history stays empty, whatever is
  asked, though the rows are still there.\<close>

theorem failed_load_blocks_thread:
  "let w = fold (thread_step False hooked compact finalize) before (new_world i now row rows);
       w' = fold (thread_step False hooked compact finalize) after w in
     if ts_load (tw_state w) = Load_failed
     then ts_load (tw_state w') = Load_failed \<and> filter unfinished (tw_live w') = [] \<and> ts_runs (tw_state w') = []
     else True"
proof -
  let ?w = "fold (thread_step False hooked compact finalize) before (new_world i now row rows)"
  let ?w' = "fold (thread_step False hooked compact finalize) after ?w"
  have "ts_load (tw_state ?w') = Load_failed" if "ts_load (tw_state ?w) = Load_failed"
    using that by (induction after rule: rev_induct) (simp_all add: load_failed_step)
  moreover have "base_inv ?w'" using base_inv_reachable [of _ _ _ "before @ after"] by simp
  ultimately show ?thesis by (auto simp: Let_def base_inv_def filter_empty_conv list_all_iff)
qed

text \<open>warming the index lists nothing. After a start has read the threads of the database into an empty cache,
  the list of threads is empty, since a thread that nobody has loaded is left out of it.\<close>

theorem warm_lists_nothing: "list_threads (warm rows now []) = []"
proof -
  have "list_all (\<lambda>st. \<not> listed st) (fold (\<lambda>row c. map (\<lambda>st. if ts_id st = tr_id row then with_row row st else st)
      (state_of (tr_id row) now c)) rs cache)" if "list_all (\<lambda>st. \<not> listed st) cache" for rs cache
    using that
  proof (induction rs arbitrary: cache)
    case (Cons row rs)
    have "list_all (\<lambda>st. \<not> listed st) (map (\<lambda>st. if ts_id st = tr_id row then with_row row st else st)
        (state_of (tr_id row) now cache))"
      using Cons.prems by (auto simp: list_all_iff state_of_def listed_def with_row_def new_state_def)
    with Cons.IH show ?case by simp
  qed simp
  from this [of "[]"] show ?thesis by (simp add: list_threads_def warm_def list_all_iff filter_empty_conv)
qed

text \<open>A second run that takes the thread over while the first one's row is being written.\<close>

definition taken_over :: "thread_event list" where
  "taken_over =
     [Hydrate_asked, Hydrate_done True,
      Start_asked \<lparr>rq_agent = Some ''ada'', rq_run = ''r1'', rq_input = JObj [], rq_user = Some ''kim''\<rparr>,
      Run_returned 0 None [] 5,
      Start_asked \<lparr>rq_agent = Some ''ada'', rq_run = ''r2'', rq_input = JObj [], rq_user = Some ''kim''\<rparr>,
      Run_persisted 0 True, Run_returned 1 None [] 9]"

text \<open>a run that supersedes one being written is lost. Where runs may supersede each other, the run that gives
  the thread back after its write gives back what the newer run holds by then, and the newer run is
  neither written nor kept when it ends.\<close>

theorem superseding_run_lost:
  "map hr_run (ts_runs (tw_state (fold (thread_step True False id (\<lambda>es stop m. (es, []))) taken_over (new_world ''t'' 0 None []))))
     = [''r1'']
   \<and> map lr_phase (tw_live (fold (thread_step True False id (\<lambda>es stop m. (es, []))) taken_over (new_world ''t'' 0 None [])))
     = [Ended, Ended]"
  by (simp add: taken_over_def new_world_def new_state_def hydrate_asked_def hydrate_done_def start_run_def new_live_def
      supersede_def run_returned_def run_persisted_def finish_run_def change_live_def push_run_def persist_rows_def Let_def
      last_run_id_def historic_ids_def)

section \<open>A connection\<close>

text \<open>nobody is sent a message twice. What a connection to a running thread is sent begins with the history,
  and no event that follows carries the id of a message of the history.\<close>

theorem connection_repeats_nothing:
  "prefix (historic_events compact st) (connected compact st live)
   \<and> (set (string_ids (historic_events compact st))
       \<inter> set (string_ids (drop (length (historic_events compact st)) (connected compact st live))) = {})"
proof (cases "ts_runs st = [] \<and> \<not> ts_running st")
  case True
  then show ?thesis by (simp add: connected_def historic_events_def string_ids_def Let_def)
next
  case False
  have new: "set (string_ids past) \<inter> set (string_ids (filter (\<lambda>e. case js_string_field e ''messageId'' of
      Some i \<Rightarrow> i \<notin> set (string_ids past) | None \<Rightarrow> True) es)) = {}" for past es
    by (induction es) (auto simp: string_ids_def split: option.split)
  have "string_ids [] = []" by (simp add: string_ids_def)
  moreover have "connected compact st live = historic_events compact st @
      (if ts_subject st \<noteq> None \<and> (ts_running st \<or> ts_stop st)
       then filter (\<lambda>e. case js_string_field e ''messageId'' of
           Some i \<Rightarrow> i \<notin> set (string_ids (historic_events compact st)) | None \<Rightarrow> True) live
       else [])"
    using False by (simp only: connected_def Let_def if_False)
  ultimately show ?thesis using new [of "historic_events compact st" live] by simp
qed

end
