(* ===== verification/Mesh.thy ===== *)
theory Mesh
  imports Codec Audit_Trail
begin

text \<open>
  Many machines under one deployment: the tables of \<^verbatim>\<open>server/src/mesh/store.ts\<close> (enrolled nodes, one-time
  enrollment tokens, placements) and the provider of \<^verbatim>\<open>server/src/mesh/provider.ts\<close> that finds the machine
  a Bot's computer is on and moves it to another.

  SHA-256, the encryption under the deployment key and the clock are arguments.  A supervisor is modelled
  by what its verbs do to the computers of its machine: for each Bot a volume, which a bundle is a copy
  of, and whether the computer runs; each call may fail, which an argument decides, and a failing call
  may have left anything on the machine it was made to except that a failing stop keeps the volume.
\<close>

section \<open>The node store\<close>

record mesh_node =
  mn_id :: string
  mn_name :: string
  mn_url :: string
  mn_backend :: string
  mn_enabled :: bool
  mn_enrolled :: int
  mn_seen :: "int option"
  mn_health :: "jsv option"

record node_row =
  nr_node :: mesh_node
  nr_token :: string
  nr_by :: "string option"

record enroll_input =
  ei_id :: string
  ei_name :: string
  ei_url :: string
  ei_token :: string
  ei_backend :: string
  ei_by :: "string option"

record enrollment_row =
  et_hash :: string
  et_by :: "string option"
  et_expires :: int
  et_used :: "int option"
  et_node :: "string option"

definition enrollment_ttl_ms :: int where
  "enrollment_ttl_ms = 30 * 60 * 1000"

definition sha256_hex :: "(nat list \<Rightarrow> nat list) \<Rightarrow> string \<Rightarrow> string" where
  "sha256_hex sha v = concat (map (\<lambda>b. [hex_digit (b div 16), hex_digit (b mod 16)]) (sha (utf8 v)))"

definition list_nodes :: "node_row list \<Rightarrow> mesh_node list" where
  "list_nodes rows = map nr_node (sort_key (\<lambda>r. mn_enrolled (nr_node r)) rows)"

definition row_of_node :: "string \<Rightarrow> node_row list \<Rightarrow> node_row option" where
  "row_of_node i rows = (case filter (\<lambda>r. mn_id (nr_node r) = i) rows of [] \<Rightarrow> None | r # rs \<Rightarrow> Some r)"

definition get_node :: "string \<Rightarrow> node_row list \<Rightarrow> mesh_node option" where
  "get_node i rows = map_option nr_node (row_of_node i rows)"

definition token_for :: "(string \<Rightarrow> string) \<Rightarrow> string \<Rightarrow> node_row list \<Rightarrow> string option" where
  "token_for decrypt i rows = map_option (\<lambda>r. decrypt (nr_token r)) (row_of_node i rows)"

definition enroll_node :: "(string \<Rightarrow> string) \<Rightarrow> enroll_input \<Rightarrow> int \<Rightarrow> node_row list \<Rightarrow> node_row list" where
  "enroll_node encrypt e now rows =
     (let token = encrypt (ei_token e) in
      if ei_id e \<in> (mn_id \<circ> nr_node) ` set rows
      then map (\<lambda>r. if mn_id (nr_node r) = ei_id e
             then r\<lparr>nr_node := (nr_node r)\<lparr>mn_name := ei_name e, mn_url := ei_url e, mn_backend := ei_backend e,
                      mn_seen := Some now\<rparr>, nr_token := token\<rparr>
             else r) rows
      else rows @ [\<lparr>nr_node = \<lparr>mn_id = ei_id e, mn_name = ei_name e, mn_url = ei_url e, mn_backend = ei_backend e,
               mn_enabled = True, mn_enrolled = now, mn_seen = Some now, mn_health = None\<rparr>,
             nr_token = token, nr_by = ei_by e\<rparr>])"

definition change_node :: "string \<Rightarrow> (mesh_node \<Rightarrow> mesh_node) \<Rightarrow> node_row list \<Rightarrow> node_row list" where
  "change_node i f rows = map (\<lambda>r. if mn_id (nr_node r) = i then r\<lparr>nr_node := f (nr_node r)\<rparr> else r) rows"

definition known_node :: "string \<Rightarrow> node_row list \<Rightarrow> bool" where
  "known_node i rows = list_ex (\<lambda>r. mn_id (nr_node r) = i) rows"

definition remove_node :: "string \<Rightarrow> node_row list \<Rightarrow> bool \<times> node_row list" where
  "remove_node i rows = (known_node i rows, filter (\<lambda>r. mn_id (nr_node r) \<noteq> i) rows)"

definition set_placement_enabled :: "string \<Rightarrow> bool \<Rightarrow> node_row list \<Rightarrow> bool \<times> node_row list" where
  "set_placement_enabled i on rows = (known_node i rows, change_node i (\<lambda>n. n\<lparr>mn_enabled := on\<rparr>) rows)"

definition record_health :: "string \<Rightarrow> jsv option \<Rightarrow> int \<Rightarrow> node_row list \<Rightarrow> node_row list" where
  "record_health i health now rows =
     change_node i (\<lambda>n. n\<lparr>mn_health := health, mn_seen := (if health \<noteq> None then Some now else mn_seen n)\<rparr>) rows"

section \<open>Enrollment tokens\<close>

definition mint_enrollment_token ::
  "(nat list \<Rightarrow> nat list) \<Rightarrow> nat list \<Rightarrow> string option \<Rightarrow> int \<Rightarrow> enrollment_row list \<Rightarrow> string \<times> enrollment_row list" where
  "mint_enrollment_token sha random created_by now rows =
     (let token = ''slice-enroll-'' @ b64url random in
      (token, rows @ [\<lparr>et_hash = sha256_hex sha token, et_by = created_by, et_expires = now + enrollment_ttl_ms,
         et_used = None, et_node = None\<rparr>]))"

definition spendable :: "string \<Rightarrow> enrollment_row \<Rightarrow> bool" where
  "spendable h r \<longleftrightarrow> et_hash r = h \<and> et_used r = None"

definition consume_enrollment_token ::
  "(nat list \<Rightarrow> nat list) \<Rightarrow> string \<Rightarrow> string \<Rightarrow> int \<Rightarrow> enrollment_row list \<Rightarrow> bool \<times> enrollment_row list" where
  "consume_enrollment_token sha token node_id now rows =
     (let h = sha256_hex sha token in
      ((case filter (spendable h) rows of [] \<Rightarrow> False | r # rs \<Rightarrow> et_expires r > now),
       map (\<lambda>r. if spendable h r then r\<lparr>et_used := Some now, et_node := Some node_id\<rparr> else r) rows))"

section \<open>Placements\<close>

record placement =
  pl_bot :: string
  pl_node :: string
  pl_from :: "string option"

definition local_node :: string where
  "local_node = ''local''"

definition placement_of :: "string \<Rightarrow> placement list \<Rightarrow> string" where
  "placement_of i ps = (case filter (\<lambda>p. pl_bot p = i) ps of [] \<Rightarrow> local_node | p # rest \<Rightarrow> pl_node p)"

definition set_placement :: "string \<Rightarrow> string \<Rightarrow> string option \<Rightarrow> placement list \<Rightarrow> placement list" where
  "set_placement i node moved_from ps =
     (if i \<in> pl_bot ` set ps
      then map (\<lambda>p. if pl_bot p = i then p\<lparr>pl_node := node, pl_from := moved_from\<rparr> else p) ps
      else ps @ [\<lparr>pl_bot = i, pl_node = node, pl_from = moved_from\<rparr>])"

definition all_placements :: "placement list \<Rightarrow> (string \<times> string) list" where
  "all_placements ps = map (\<lambda>p. (pl_bot p, pl_node p)) ps"

section \<open>The clients\<close>

text \<open>A client is known by the address and the token it was built with.\<close>

record mesh_client =
  mc_url :: string
  mc_token :: string

record cached_client =
  cc_key :: string
  cc_client :: mesh_client

record mesh =
  me_local :: "mesh_client option"
  me_nodes :: "node_row list"
  me_placements :: "placement list"
  me_clients :: "(string \<times> cached_client) list"
  me_audit :: "audit_input list"

definition client_key :: "mesh_node \<Rightarrow> string \<Rightarrow> string" where
  "client_key node token = mn_url node @ ''|'' @ show_nat (length token) @ ''|'' @ mn_backend node"

definition not_enrolled :: "string \<Rightarrow> string" where
  "not_enrolled i = ''Node '' @ [CHR 0x22] @ i @ [CHR 0x22] @ '' is not enrolled.''"

definition client_for_node :: "(string \<Rightarrow> string) \<Rightarrow> string \<Rightarrow> mesh \<Rightarrow> (string + mesh_client) \<times> mesh" where
  "client_for_node decrypt i m =
     (if i = local_node
      then (case me_local m of
          None \<Rightarrow> (Inl ''This deployment has no local supervisor; the Bot must be placed on an enrolled node.'', m)
        | Some c \<Rightarrow> (Inr c, m))
      else case get_node i (me_nodes m) of
          None \<Rightarrow> (Inl (not_enrolled i), m)
        | Some node \<Rightarrow>
            (case token_for decrypt i (me_nodes m) of
               None \<Rightarrow> (Inl (''Node '' @ [CHR 0x22] @ i @ [CHR 0x22] @ '' has no token.''), m)
             | Some token \<Rightarrow>
                 (let key = client_key node token in
                  case map_of (me_clients m) i of
                    Some c \<Rightarrow>
                      if cc_key c = key then (Inr (cc_client c), m)
                      else (Inr \<lparr>mc_url = mn_url node, mc_token = token\<rparr>,
                        m\<lparr>me_clients := (i, \<lparr>cc_key = key, cc_client = \<lparr>mc_url = mn_url node, mc_token = token\<rparr>\<rparr>) # me_clients m\<rparr>)
                  | None \<Rightarrow> (Inr \<lparr>mc_url = mn_url node, mc_token = token\<rparr>,
                        m\<lparr>me_clients := (i, \<lparr>cc_key = key, cc_client = \<lparr>mc_url = mn_url node, mc_token = token\<rparr>\<rparr>) # me_clients m\<rparr>))))"

definition provider_for :: "(string \<Rightarrow> string) \<Rightarrow> string \<Rightarrow> mesh \<Rightarrow> (string + mesh_client) \<times> mesh" where
  "provider_for decrypt i m = client_for_node decrypt (placement_of i (me_placements m)) m"

section \<open>Moving a Bot\<close>

datatype computer_status = Ready | Starting_up | Stopped | Unreachable

text \<open>The computers of one machine.\<close>

record machine =
  ma_volume :: "string \<Rightarrow> string option"
  ma_running :: "string \<Rightarrow> bool"

type_synonym machines = "string \<Rightarrow> machine"

definition start_on :: "string \<Rightarrow> machine \<Rightarrow> machine" where
  "start_on b ma = ma\<lparr>ma_running := (ma_running ma)(b := True),
     ma_volume := (ma_volume ma)(b := Some (case ma_volume ma b of Some v \<Rightarrow> v | None \<Rightarrow> []))\<rparr>"

definition stop_on :: "string \<Rightarrow> machine \<Rightarrow> machine" where
  "stop_on b ma = ma\<lparr>ma_running := (ma_running ma)(b := False)\<rparr>"

definition restore_on :: "string \<Rightarrow> string \<Rightarrow> machine \<Rightarrow> machine" where
  "restore_on b v ma = ma\<lparr>ma_volume := (ma_volume ma)(b := Some v)\<rparr>"

definition state_on :: "string \<Rightarrow> machine \<Rightarrow> computer_status" where
  "state_on b ma = (if ma_running ma b then Ready else Stopped)"

text \<open>The calls of a move that can fail, each with what a failing call left behind.\<close>

record move_faults =
  mf_status :: "string + computer_status option"
  mf_source_locate :: "string option"
  mf_bundle :: "string option"
  mf_target_locate :: "(string \<times> machine) option"
  mf_restore :: "(string \<times> machine) option"
  mf_stop :: "string option"
  mf_placement :: "string option"
  mf_audit :: "string option"

record moved =
  mo_from :: string
  mo_to :: string
  mo_bytes :: nat

definition moved_row :: "string \<Rightarrow> string \<Rightarrow> string \<Rightarrow> nat \<Rightarrow> string option \<Rightarrow> audit_input" where
  "moved_row b source target bytes actor = record_audit_event
     \<lparr>ai_type = ''computer.moved'', ai_target_type = ''bot'', ai_target_id = Some b,
      ai_actor = (if truthy actor then actor else None),
      ai_payload = JObj [(''bot'', JStr b), (''from'', JStr source), (''to'', JStr target), (''bytes'', JNum (int bytes))]\<rparr>"

text \<open>Stop, placement and audit row, in the order a move has them.\<close>

definition move_settled ::
  "move_faults \<Rightarrow> string \<Rightarrow> string \<Rightarrow> string \<Rightarrow> string option \<Rightarrow> string option \<Rightarrow> mesh \<times> machines
     \<Rightarrow> (string + moved) \<times> mesh \<times> machines" where
  "move_settled f b source target parcel actor w =
     (let (m, ms) = w; bytes = (case parcel of None \<Rightarrow> 0 | Some v \<Rightarrow> length v) in
      if parcel \<noteq> None \<and> mf_stop f \<noteq> None then (Inl (the (mf_stop f)), m, ms)
      else
        let ms' = (if parcel \<noteq> None then ms(source := stop_on b (ms source)) else ms) in
        case mf_placement f of
          Some e \<Rightarrow> (Inl e, m, ms')
        | None \<Rightarrow>
            (let m' = m\<lparr>me_placements := set_placement b target (Some source) (me_placements m)\<rparr> in
             case mf_audit f of
               Some e \<Rightarrow> (Inl e, m', ms')
             | None \<Rightarrow> (Inr \<lparr>mo_from = source, mo_to = target, mo_bytes = bytes\<rparr>,
                 m'\<lparr>me_audit := me_audit m' @ [moved_row b source target bytes actor]\<rparr>, ms')))"

definition move_target ::
  "move_faults \<Rightarrow> string \<Rightarrow> string \<Rightarrow> string \<Rightarrow> string option \<Rightarrow> string option \<Rightarrow> mesh \<times> machines
     \<Rightarrow> (string + moved) \<times> mesh \<times> machines" where
  "move_target f b source target parcel actor w =
     (let (m, ms) = w in
      case mf_target_locate f of
        Some (e, left) \<Rightarrow> (Inl e, m, ms(target := left))
      | None \<Rightarrow>
          (let ms' = ms(target := start_on b (ms target)) in
           case parcel of
             None \<Rightarrow> move_settled f b source target parcel actor (m, ms')
           | Some v \<Rightarrow>
               (case mf_restore f of
                  Some (e, left) \<Rightarrow> (Inl e, m, ms'(target := left))
                | None \<Rightarrow> move_settled f b source target parcel actor (m, ms'(target := restore_on b v (ms' target))))))"

definition move_computer ::
  "move_faults \<Rightarrow> string \<Rightarrow> string \<Rightarrow> string \<Rightarrow> string option \<Rightarrow> mesh \<times> machines \<Rightarrow> (string + moved) \<times> mesh \<times> machines" where
  "move_computer f b source target actor w =
     (let (m, ms) = w in
      case mf_status f of
        Inl e \<Rightarrow> (Inl e, m, ms)
      | Inr override \<Rightarrow>
          (let st = (case override of Some s \<Rightarrow> s | None \<Rightarrow> state_on b (ms source)) in
           if st = Ready \<or> st = Starting_up
           then (case mf_source_locate f of
               Some e \<Rightarrow> (Inl e, m, ms)
             | None \<Rightarrow>
                 (let ms' = ms(source := start_on b (ms source)) in
                  case mf_bundle f of
                    Some e \<Rightarrow> (Inl e, m, ms')
                  | None \<Rightarrow> move_target f b source target (ma_volume (ms' source) b) actor (m, ms')))
           else move_target f b source target None actor (m, ms)))"

definition move_bot ::
  "(string \<Rightarrow> string) \<Rightarrow> move_faults \<Rightarrow> string \<Rightarrow> string \<Rightarrow> string option \<Rightarrow> mesh \<times> machines
     \<Rightarrow> (string + moved) \<times> mesh \<times> machines" where
  "move_bot decrypt f b target actor w =
     (let (m, ms) = w; source = placement_of b (me_placements m) in
      if source = target then (Inl (b @ '' is already on '' @ target @ ''.''), m, ms)
      else case (if target = local_node then None
                 else case get_node target (me_nodes m) of
                     None \<Rightarrow> Some (not_enrolled target)
                   | Some n \<Rightarrow> if mn_enabled n then None
                       else Some (''Node '' @ [CHR 0x22] @ target @ [CHR 0x22] @ '' is not accepting placements.'')) of
          Some e \<Rightarrow> (Inl e, m, ms)
        | None \<Rightarrow>
            (case client_for_node decrypt source m of
               (Inl e, m1) \<Rightarrow> (Inl e, m1, ms)
             | (Inr c, m1) \<Rightarrow>
                 (case client_for_node decrypt target m1 of
                    (Inl e, m2) \<Rightarrow> (Inl e, m2, ms)
                  | (Inr c', m2) \<Rightarrow> move_computer f b source target actor (m2, ms))))"

section \<open>What every machine says\<close>

record node_capacity =
  nc_id :: string
  nc_name :: string
  nc_backend :: string
  nc_enabled :: bool
  nc_reachable :: bool
  nc_capacity :: jsv
  nc_error :: "string option"

text \<open>What a machine answers to the question for its capacity, what the local one says its backend is, and
  whether the health of an enrolled one could be stored.\<close>

record capacity_answer =
  ca_capacity :: "string + jsv"
  ca_backend :: "string option"
  ca_health :: "string option"

definition failed_entry :: "mesh_node \<Rightarrow> string \<Rightarrow> node_capacity" where
  "failed_entry n e =
     \<lparr>nc_id = mn_id n, nc_name = mn_name n, nc_backend = mn_backend n, nc_enabled = mn_enabled n, nc_reachable = False,
      nc_capacity = JNull, nc_error = Some e\<rparr>"

definition capacity_entries :: "mesh_node \<Rightarrow> capacity_answer \<Rightarrow> node_capacity list" where
  "capacity_entries n a =
     (case ca_capacity a of
        Inl e \<Rightarrow> [failed_entry n e]
      | Inr c \<Rightarrow>
          \<lparr>nc_id = mn_id n, nc_name = mn_name n,
           nc_backend = (if mn_id n = local_node then (case ca_backend a of Some k \<Rightarrow> k | None \<Rightarrow> mn_backend n) else mn_backend n),
           nc_enabled = mn_enabled n, nc_reachable = True, nc_capacity = c, nc_error = None\<rparr>
          # (if mn_id n = local_node then []
             else (case ca_health a of None \<Rightarrow> [] | Some e \<Rightarrow> [failed_entry n e])))"

definition health_recorded :: "int \<Rightarrow> (string \<Rightarrow> capacity_answer) \<Rightarrow> mesh_node \<Rightarrow> node_row list \<Rightarrow> node_row list" where
  "health_recorded now answers n rows =
     (case ca_capacity (answers (mn_id n)) of
        Inr c \<Rightarrow>
          if mn_id n = local_node \<or> ca_health (answers (mn_id n)) \<noteq> None then rows
          else record_health (mn_id n) (Some (if c = JNull then JObj [] else c)) now rows
      | Inl e \<Rightarrow> rows)"

definition local_entry :: "string \<Rightarrow> mesh_node" where
  "local_entry name =
     \<lparr>mn_id = local_node, mn_name = ''This machine'', mn_url = [], mn_backend = name, mn_enabled = True, mn_enrolled = 0,
      mn_seen = None, mn_health = None\<rparr>"

definition capacity_targets :: "string option \<Rightarrow> mesh \<Rightarrow> mesh_node list" where
  "capacity_targets local_name m =
     (case local_name of None \<Rightarrow> [] | Some k \<Rightarrow> [local_entry k]) @ list_nodes (me_nodes m)"

text \<open>\<open>collate\<close> ranks ids as \<^verbatim>\<open>localeCompare\<close> does.\<close>

definition capacity_by_node ::
  "(string \<Rightarrow> nat) \<Rightarrow> int \<Rightarrow> (string \<Rightarrow> capacity_answer) \<Rightarrow> string option \<Rightarrow> mesh \<Rightarrow> node_capacity list \<times> mesh" where
  "capacity_by_node collate now answers local_name m =
     (let targets = capacity_targets local_name m in
      (sort_key (\<lambda>e. (if nc_id e = local_node then 0 else 1 :: nat, collate (nc_id e)))
         (concat (map (\<lambda>n. capacity_entries n (answers (mn_id n))) targets)),
       m\<lparr>me_nodes := fold (health_recorded now answers) targets (me_nodes m)\<rparr>))"

text \<open>The computers of every machine that answers, in the order the machines answered.\<close>

definition list_placed :: "(string \<Rightarrow> string + 'a list) \<Rightarrow> string list \<Rightarrow> ('a \<times> string) list" where
  "list_placed answers ids = concat (map (\<lambda>i. case answers i of Inl e \<Rightarrow> [] | Inr cs \<Rightarrow> map (\<lambda>c. (c, i)) cs) ids)"

section \<open>Where a Bot is\<close>

lemma placed_elsewhere:
  "i \<noteq> j \<Longrightarrow> filter (\<lambda>p. pl_bot p = i) (map (\<lambda>p. if pl_bot p = j then p\<lparr>pl_node := n, pl_from := w\<rparr> else p) ps) =
     filter (\<lambda>p. pl_bot p = i) ps"
  by (induction ps) auto

lemma placed_here:
  "j \<in> pl_bot ` set ps \<Longrightarrow>
     placement_of j (map (\<lambda>p. if pl_bot p = j then p\<lparr>pl_node := n, pl_from := w\<rparr> else p) ps) = n"
  by (induction ps) (auto simp: placement_of_def)

lemma set_placement_get: "placement_of i (set_placement j n w ps) = (if i = j then n else placement_of i ps)"
proof (cases "j \<in> pl_bot ` set ps")
  case True
  show ?thesis
  proof (cases "i = j")
    case True
    with \<open>j \<in> pl_bot ` set ps\<close> show ?thesis by (simp add: set_placement_def placed_here)
  next
    case False
    with \<open>j \<in> pl_bot ` set ps\<close> show ?thesis by (simp add: set_placement_def placement_of_def placed_elsewhere)
  qed
next
  case False
  then have "filter (\<lambda>p. pl_bot p = j) ps = []" by (auto simp: filter_empty_conv)
  with False show ?thesis by (auto simp: set_placement_def placement_of_def)
qed

lemma client_for_node_keeps [simp]:
  "client_for_node decrypt i m = (r, m') \<Longrightarrow> me_placements m' = me_placements m \<and> me_nodes m' = me_nodes m \<and> me_audit m' = me_audit m"
  by (auto simp: client_for_node_def Let_def split: if_splits option.splits)

section \<open>What a move does\<close>

text \<open>How a move ended: with an answer the Bot is on the target and the source is told to stop when there was
  something to carry; with an error it is where it was, unless only the audit row could not be written.\<close>

definition move_ended :: "move_faults \<Rightarrow> string \<Rightarrow> string \<Rightarrow> string \<Rightarrow> string option \<Rightarrow> mesh \<Rightarrow> (string + moved) \<times> mesh \<times> machines \<Rightarrow> bool" where
  "move_ended f b source target carried m out =
     (case out of (res, m', ms') \<Rightarrow>
        (case res of
           Inl e \<Rightarrow> me_placements m' = me_placements m \<or> (mf_audit f \<noteq> None \<and> placement_of b (me_placements m') = target)
         | Inr r \<Rightarrow> placement_of b (me_placements m') = target \<and> mo_from r = source \<and> mo_to r = target
             \<and> ma_running (ms' target) b
             \<and> (case carried of None \<Rightarrow> True | Some v \<Rightarrow> ma_volume (ms' target) b = Some v \<and> \<not> ma_running (ms' source) b)))"

lemma move_settled_ends:
  assumes "source \<noteq> target" "ma_running (ms target) b"
    and "case parcel of None \<Rightarrow> True | Some v \<Rightarrow> ma_volume (ms target) b = Some v"
  shows "move_ended f b source target parcel m (move_settled f b source target parcel actor (m, ms))"
  using assms by (auto simp: move_settled_def move_ended_def Let_def set_placement_get stop_on_def split: option.splits)

lemma move_target_ends:
  assumes "source \<noteq> target"
  shows "move_ended f b source target parcel m (move_target f b source target parcel actor (m, ms))"
proof (cases "mf_target_locate f")
  case None
  note located = None
  show ?thesis
  proof (cases parcel)
    case None
    then show ?thesis
      using move_settled_ends [OF assms, where parcel = None] located
      by (simp add: move_target_def start_on_def Let_def)
  next
    case (Some v)
    then show ?thesis
      using move_settled_ends [OF assms, where parcel = "Some v"] located
      by (auto simp: move_target_def move_ended_def start_on_def restore_on_def Let_def split: option.split)
  qed
next
  case (Some e)
  then show ?thesis by (cases e) (simp add: move_target_def move_ended_def)
qed

lemma move_settled_source: "source \<noteq> target \<Longrightarrow> move_settled f b source target parcel actor (m, ms) = (res, m', ms') \<Longrightarrow>
   ma_volume (ms' source) b = ma_volume (ms source) b"
  by (auto simp: move_settled_def Let_def stop_on_def split: if_splits option.splits)

lemma move_target_source:
  assumes "source \<noteq> target" "move_target f b source target parcel actor (m, ms) = (res, m', ms')"
  shows "ma_volume (ms' source) b = ma_volume (ms source) b"
proof -
  have "ma_volume (ms' source) b = ma_volume (ms source) b"
    if "move_settled f b source target p actor (m, ms(target := x)) = (res, m', ms')" for p x
    using move_settled_source [OF assms(1) that] assms(1) by simp
  with assms show ?thesis by (auto simp: move_target_def Let_def split: option.splits)
qed

text \<open>Where there is something to carry, what a move of the computer carries.\<close>

definition carried :: "move_faults \<Rightarrow> string \<Rightarrow> machine \<Rightarrow> string option" where
  "carried f b ma =
     (case mf_status f of
        Inl e \<Rightarrow> None
      | Inr override \<Rightarrow>
          (let st = (case override of Some s \<Rightarrow> s | None \<Rightarrow> state_on b ma) in
           if st = Ready \<or> st = Starting_up then ma_volume (start_on b ma) b else None))"

lemma move_ended_error: "me_placements m' = me_placements m \<Longrightarrow> move_ended f b source target c m (Inl e, m', ms')"
  by (simp add: move_ended_def)

lemma move_computer_ends:
  assumes "source \<noteq> target"
  shows "move_ended f b source target (carried f b (ms source)) m (move_computer f b source target actor (m, ms))"
    and "ma_volume (ms source) b = Some v \<Longrightarrow> move_computer f b source target actor (m, ms) = (res, m', ms') \<Longrightarrow>
      ma_volume (ms' source) b = Some v"
proof -
  show "move_ended f b source target (carried f b (ms source)) m (move_computer f b source target actor (m, ms))"
    by (auto simp: move_computer_def carried_def Let_def intro: move_ended_error move_target_ends [OF assms]
        split: sum.split option.split)
next
  assume v: "ma_volume (ms source) b = Some v" "move_computer f b source target actor (m, ms) = (res, m', ms')"
  have kept: "ma_volume (start_on b (ms source)) b = Some v" using v by (simp add: start_on_def)
  show "ma_volume (ms' source) b = Some v"
    using v kept move_target_source [OF assms]
    by (fastforce simp: move_computer_def Let_def split: sum.splits option.splits if_splits)
qed


section \<open>What a move leaves behind\<close>

definition no_faults :: move_faults where
  "no_faults = \<lparr>mf_status = Inr None, mf_source_locate = None, mf_bundle = None, mf_target_locate = None, mf_restore = None,
     mf_stop = None, mf_placement = None, mf_audit = None\<rparr>"

definition two_nodes :: mesh where
  "two_nodes =
     \<lparr>me_local = Some \<lparr>mc_url = ''http://local'', mc_token = ''t''\<rparr>,
      me_nodes = enroll_node (\<lambda>t. t) \<lparr>ei_id = ''attic'', ei_name = ''Attic'', ei_url = ''http://attic'', ei_token = ''old'',
        ei_backend = ''docker'', ei_by = None\<rparr> 0 [],
      me_placements = [], me_clients = [], me_audit = []\<rparr>"

definition stopped_machines :: machines where
  "stopped_machines = (\<lambda>i. \<lparr>ma_volume = (if i = local_node then [''ada'' \<mapsto> ''work''] else Map.empty), ma_running = (\<lambda>b. False)\<rparr>)"

text \<open>A stopped computer leaves its state behind. Moving a Bot whose computer is stopped succeeds and starts
  it on the target with an empty volume, while what it had stays on the machine it left.\<close>

theorem stopped_state_left_behind:
  "case move_bot (\<lambda>t. t) no_faults ''ada'' ''attic'' None (two_nodes, stopped_machines) of (res, m', ms') \<Rightarrow>
     placement_of ''ada'' (me_placements m') = ''attic''
     \<and> ma_volume (ms' ''attic'') ''ada'' = Some [] \<and> ma_volume (ms' local_node) ''ada'' = Some ''work''"
  by code_simp

section \<open>Tokens\<close>

text \<open>A node that is enrolled again with another token is called with the old one. The cached client is kept
  by the length of the token, so a new token of the same length, for the same address and backend, is not
  picked up.\<close>

theorem rotated_token_not_used:
  "let m1 = snd (client_for_node (\<lambda>t. t) ''attic'' two_nodes);
       m2 = m1\<lparr>me_nodes := enroll_node (\<lambda>t. t) \<lparr>ei_id = ''attic'', ei_name = ''Attic'', ei_url = ''http://attic'',
              ei_token = ''new'', ei_backend = ''docker'', ei_by = None\<rparr> 1 (me_nodes m1)\<rparr> in
   token_for (\<lambda>t. t) ''attic'' (me_nodes m2) = Some ''new''
   \<and> fst (client_for_node (\<lambda>t. t) ''attic'' m2) = Inr \<lparr>mc_url = ''http://attic'', mc_token = ''old''\<rparr>"
  by code_simp

text \<open>An enrollment token is spent once. Once a token has been offered, with whatever answer, every later
  offer of it is refused, whatever other tokens were offered in between.\<close>

theorem enrollment_token_spent_once:
  "fst (consume_enrollment_token sha token node now
     (fold (\<lambda>(t, n, at) rows. snd (consume_enrollment_token sha t n at rows)) offers
        (snd (consume_enrollment_token sha token first_node first_at rows)))) = False"
proof -
  let ?h = "sha256_hex sha token"
  have spent: "filter (spendable ?h) (fold (\<lambda>(t, n, at) rows. snd (consume_enrollment_token sha t n at rows)) offers rows) = []"
    if "filter (spendable ?h) rows = []" for rows
    using that
  proof (induction offers arbitrary: rows)
    case (Cons offer offers)
    obtain t n at where o: "offer = (t, n, at)" by (cases offer)
    have "filter (spendable ?h) (snd (consume_enrollment_token sha t n at rows)) = []"
      using Cons.prems by (auto simp: consume_enrollment_token_def Let_def filter_empty_conv spendable_def)
    with Cons.IH show ?case by (simp add: o)
  qed simp
  have "filter (spendable ?h) (snd (consume_enrollment_token sha token first_node first_at rows)) = []"
    by (auto simp: consume_enrollment_token_def Let_def filter_empty_conv spendable_def)
  then have "filter (spendable ?h) (fold (\<lambda>(t, n, at) rows. snd (consume_enrollment_token sha t n at rows)) offers
      (snd (consume_enrollment_token sha token first_node first_at rows))) = []" by (rule spent)
  then show ?thesis by (simp add: consume_enrollment_token_def Let_def)
qed

text \<open>A machine whose health cannot be stored is listed twice, as reachable and as not: the entry is added
  before the write whose failure adds the other.\<close>

theorem unstored_health_lists_twice:
  "map nc_reachable (capacity_entries (local_entry ''x''\<lparr>mn_id := ''attic''\<rparr>) \<lparr>ca_capacity = Inr v, ca_backend = None, ca_health = Some e\<rparr>)
     = [True, False]"
  by (simp add: capacity_entries_def local_entry_def local_node_def failed_entry_def)

end
