(* ===== verification/Totp.thy ===== *)
theory Totp
  imports Codec
begin

unbundle bit_operations_syntax

text \<open>
  One-time codes, \<^verbatim>\<open>server/src/connections/totp.ts\<close>: the base32 reader over 32-bit integers, as JavaScript's
  shifts have them, and the truncation of RFC 6238.  HMAC-SHA-1 is an argument from key and message bytes
  to bytes.  The seed's letters are Latin-1; the two whose capital lies beyond it stay as they are, which
  no base32 character is.
\<close>

section \<open>The definitions\<close>

definition base32 :: string where
  "base32 = ''ABCDEFGHIJKLMNOPQRSTUVWXYZ234567''"

fun index_of :: "char \<Rightarrow> string \<Rightarrow> nat option" where
  "index_of c [] = None"
| "index_of c (d # ds) = (if c = d then Some 0 else map_option Suc (index_of c ds))"

definition upper_text :: "char \<Rightarrow> string" where
  "upper_text c =
     (let n = char_code c in
      if n = 223 then ''SS''
      else if (97 \<le> n \<and> n \<le> 122) \<or> (224 \<le> n \<and> n \<le> 254 \<and> n \<noteq> 247) then [char_of (n - 32)] else [c])"

definition clean_seed :: "string \<Rightarrow> string" where
  "clean_seed seed =
     filter (\<lambda>c. \<not> js_space c \<and> c \<noteq> CHR ''='' \<and> c \<noteq> CHR ''-'') (concat (map upper_text seed))"

text \<open>One turn of the loop over the characters, with \<open>bits\<close>, \<open>value\<close> and \<open>out\<close> as its state.\<close>

definition take_sextet :: "nat \<Rightarrow> nat \<times> 32 word \<times> nat list \<Rightarrow> nat \<times> 32 word \<times> nat list" where
  "take_sextet idx st =
     (case st of (bits, v, out) \<Rightarrow>
        let v' = push_bit 5 v OR word_of_nat idx; bits' = bits + 5 in
        if bits' \<ge> 8 then (bits' - 8, v', out @ [unat (drop_bit (bits' - 8) v' AND 0xFF)])
        else (bits', v', out))"

fun base32_loop :: "string \<Rightarrow> nat \<times> 32 word \<times> nat list \<Rightarrow> string + nat list" where
  "base32_loop [] st = Inr (snd (snd st))"
| "base32_loop (c # cs) st =
     (case index_of c base32 of
        None \<Rightarrow> Inl (''Not a base32 character: '' @ [c])
      | Some idx \<Rightarrow> base32_loop cs (take_sextet idx st))"

definition decode_base32 :: "string \<Rightarrow> string + nat list" where
  "decode_base32 seed = base32_loop (clean_seed seed) (0, 0, [])"

text \<open>\<^verbatim>\<open>setBigUint64\<close> of the step counter; a time is in milliseconds, and the division by the step is exact.\<close>

definition counter_bytes :: "int \<Rightarrow> nat list" where
  "counter_bytes counter = map (\<lambda>i. nat (counter div 2 ^ (8 * (7 - i)) mod 256)) [0..<8]"

definition byte_at :: "nat list \<Rightarrow> nat \<Rightarrow> 32 word" where
  "byte_at mac i = (if i < length mac then ucast (word_of_nat (mac ! i) :: 8 word) else 0)"

definition truncated :: "nat list \<Rightarrow> 32 word" where
  "truncated mac =
     (let offset = unat (byte_at mac (length mac - 1) AND 0x0F) in
      push_bit 24 (byte_at mac offset AND 0x7F) OR push_bit 16 (byte_at mac (offset + 1))
        OR push_bit 8 (byte_at mac (offset + 2)) OR byte_at mac (offset + 3))"

text \<open>\<^verbatim>\<open>%\<close> takes the sign of its left operand.\<close>

definition js_rem :: "int \<Rightarrow> int \<Rightarrow> int" where
  "js_rem x m = (if x < 0 then - ((- x) mod m) else x mod m)"

definition pad_zeros :: "nat \<Rightarrow> string \<Rightarrow> string" where
  "pad_zeros n s = replicate (n - length s) (CHR ''0'') @ s"

definition totp_code :: "(nat list \<Rightarrow> nat list \<Rightarrow> nat list) \<Rightarrow> string \<Rightarrow> int \<Rightarrow> int \<Rightarrow> nat \<Rightarrow> string + string" where
  "totp_code hmac seed at_ms step_seconds digits =
     (case decode_base32 seed of
        Inl e \<Rightarrow> Inl e
      | Inr key \<Rightarrow>
          Inr (pad_zeros digits
            (show_int (js_rem (sint (truncated (hmac key (counter_bytes (at_ms div (1000 * step_seconds)))))) (10 ^ digits)))))"

section \<open>The reader and the number it reads\<close>

text \<open>The characters as digits of one large number.\<close>

definition base32_number :: "nat list \<Rightarrow> nat" where
  "base32_number ds = foldl (\<lambda>n d. 32 * n + d) 0 ds"

text \<open>Its leading bytes, most significant first; the bits that make no whole byte are left out.\<close>

definition leading_bytes :: "nat list \<Rightarrow> nat list" where
  "leading_bytes ds =
     map (\<lambda>k. base32_number ds div 2 ^ (5 * length ds - 8 * (k + 1)) mod 256) [0..<5 * length ds div 8]"

lemma base32_number_append [simp]: "base32_number (ds @ [d]) = 32 * base32_number ds + d"
  by (simp add: base32_number_def)

lemma push_or_word:
  assumes "d < 32"
  shows "push_bit 5 (word_of_nat n :: 32 word) OR word_of_nat d = word_of_nat (32 * n + d)"
proof -
  have "take_bit 5 (int d) = int d" using assms by (simp add: take_bit_int_eq_self)
  then have "push_bit 5 (int n) OR int d = int d + push_bit 5 (int n)"
    using concat_bit_eq [of 5 "int d" "int n"] by (simp add: concat_bit_def or.commute)
  then have num: "push_bit 5 (int n) OR int d = int (32 * n + d)" by (simp add: push_bit_eq_mult)
  have "push_bit 5 (word_of_nat n :: 32 word) OR word_of_nat d = of_int (push_bit 5 (int n) OR int d)"
    by (simp add: of_int_or_eq of_int_push_bit push_bit_of_nat)
  then show ?thesis unfolding num by simp
qed

lemma emitted_byte: "m + 8 \<le> 32 \<Longrightarrow> unat (drop_bit m (word_of_nat n :: 32 word) AND 0xFF) = n div 2 ^ m mod 256"
proof -
  assume m: "m + 8 \<le> 32"
  have "(0xFF :: 32 word) = mask 8" by (simp add: mask_eq_exp_minus_1)
  then have "drop_bit m (word_of_nat n :: 32 word) AND 0xFF = take_bit 8 (drop_bit m (word_of_nat n))"
    by (simp only: take_bit_eq_mask)
  then have "unat (drop_bit m (word_of_nat n :: 32 word) AND 0xFF) = take_bit 8 (drop_bit m (take_bit 32 n))"
    by (simp add: unsigned_take_bit_eq unsigned_drop_bit_eq unsigned_of_nat)
  also have "\<dots> = take_bit 8 (drop_bit m n)"
    using m by (auto simp: bit_eq_iff bit_simps)
  finally show ?thesis by (simp add: take_bit_eq_mod drop_bit_eq_div)
qed

lemma eights:
  fixes l :: nat
  shows "(l + 5) mod 8 = (if l mod 8 + 5 \<ge> 8 then l mod 8 + 5 - 8 else l mod 8 + 5)"
    and "(l + 5) div 8 = (if l mod 8 + 5 \<ge> 8 then Suc (l div 8) else l div 8)"
    and "l + 5 - 8 * (l div 8 + 1) = l mod 8 + 5 - 8"
    and "k < l div 8 \<Longrightarrow> l + 5 - 8 * (k + 1) = 5 + (l - 8 * (k + 1))"
proof -
  have r: "l mod 8 < 8" by simp
  have "(l + 5) mod 8 = (l mod 8 + 5) mod 8" by (rule mod_add_left_eq [symmetric])
  moreover have "r < 8 \<Longrightarrow> (r + 5) mod 8 = (if r + 5 \<ge> 8 then r + 5 - 8 else r + 5)" for r :: nat
    by (simp add: le_mod_geq)
  ultimately show "(l + 5) mod 8 = (if l mod 8 + 5 \<ge> 8 then l mod 8 + 5 - 8 else l mod 8 + 5)"
    using r by (simp only:)
  have "(8 * q + r + 5) div 8 = (if r + 5 \<ge> 8 then Suc q else q)" if "r < 8" for q r :: nat
  proof -
    have "(8 * q + r + 5) div 8 = q + (r + 5) div 8" by (metis add.assoc div_mult_self4 zero_neq_numeral)
    also have "(r + 5) div 8 = (if r + 5 \<ge> 8 then 1 else 0)" using that by (cases "8 \<le> r + 5") (simp_all add: le_div_geq)
    finally show ?thesis by simp
  qed
  from this [OF r, of "l div 8"]
  show "(l + 5) div 8 = (if l mod 8 + 5 \<ge> 8 then Suc (l div 8) else l div 8)" by (simp only: mult_div_mod_eq)
  have "8 * q + r + 5 - 8 * (q + 1) = r + 5 - 8" for q r :: nat by simp
  from this [of "l div 8" "l mod 8"] show "l + 5 - 8 * (l div 8 + 1) = l mod 8 + 5 - 8" by (simp only: mult_div_mod_eq)
  assume "k < l div 8"
  then have "(k + 1) * 8 \<le> l" by (metis Suc_eq_plus1 Suc_leI less_eq_div_iff_mult_less_eq zero_less_numeral)
  moreover have "m \<le> l \<Longrightarrow> l + 5 - m = 5 + (l - m)" for m by simp
  ultimately show "l + 5 - 8 * (k + 1) = 5 + (l - 8 * (k + 1))" by (simp only: mult.commute)
qed

lemma leading_bytes_append:
  assumes "d < 32"
  shows "leading_bytes (ds @ [d]) = leading_bytes ds @
     (if 5 * length ds mod 8 + 5 \<ge> 8
      then [(32 * base32_number ds + d) div 2 ^ (5 * length ds mod 8 + 5 - 8) mod 256] else [])"
proof -
  let ?L = "5 * length ds" and ?N = "32 * base32_number ds + d"
  have old: "?N div 2 ^ (?L + 5 - 8 * (k + 1)) = base32_number ds div 2 ^ (?L - 8 * (k + 1))" if "k < ?L div 8" for k
  proof -
    have "?L + 5 - 8 * (k + 1) = 5 + (?L - 8 * (k + 1))" using that by (rule eights(4))
    moreover have "n div 2 ^ (5 + m) = n div 32 div 2 ^ m" for n m :: nat
      by (simp add: power_add div_mult2_eq)
    ultimately have "?N div 2 ^ (?L + 5 - 8 * (k + 1)) = ?N div 32 div 2 ^ (?L - 8 * (k + 1))" by (simp only:)
    also have "?N div 32 = base32_number ds" using assms by simp
    finally show ?thesis .
  qed
  have last: "?L + 5 - 8 * (?L div 8 + 1) = ?L mod 8 + 5 - 8"
    by (rule eights(3))
  have len: "(?L + 5) div 8 = (if ?L mod 8 + 5 \<ge> 8 then Suc (?L div 8) else ?L div 8)"
    by (rule eights(2))
  have "leading_bytes (ds @ [d]) = map (\<lambda>k. ?N div 2 ^ (?L + 5 - 8 * (k + 1)) mod 256) [0..<(?L + 5) div 8]"
    by (simp add: leading_bytes_def add.commute)
  also have "\<dots> = map (\<lambda>k. ?N div 2 ^ (?L + 5 - 8 * (k + 1)) mod 256) [0..<?L div 8] @
      (if ?L mod 8 + 5 \<ge> 8 then [?N div 2 ^ (?L + 5 - 8 * (?L div 8 + 1)) mod 256] else [])"
    unfolding len by simp
  also have "map (\<lambda>k. ?N div 2 ^ (?L + 5 - 8 * (k + 1)) mod 256) [0..<?L div 8] = leading_bytes ds"
    unfolding leading_bytes_def
  proof (rule map_cong [OF refl])
    fix k assume "k \<in> set [0..<?L div 8]"
    then have k: "k < ?L div 8" by (simp only: set_upt atLeastLessThan_iff)
    show "?N div 2 ^ (?L + 5 - 8 * (k + 1)) mod 256 = base32_number ds div 2 ^ (?L - 8 * (k + 1)) mod 256"
      unfolding old [OF k] ..
  qed
  finally show ?thesis unfolding last .
qed

lemma take_sextets:
  "list_all (\<lambda>d. d < 32) ds \<Longrightarrow>
   fold take_sextet ds (0, 0, []) = (5 * length ds mod 8, word_of_nat (base32_number ds), leading_bytes ds)"
proof (induction ds rule: rev_induct)
  case Nil
  show ?case by (simp add: base32_number_def leading_bytes_def)
next
  case (snoc d ds)
  then have d: "d < 32" and IH: "fold take_sextet ds (0, 0, []) =
      (5 * length ds mod 8, word_of_nat (base32_number ds), leading_bytes ds)" by simp_all
  let ?b = "5 * length ds mod 8"
  have b: "?b < 8" by simp
  have next_bits: "5 * length (ds @ [d]) mod 8 = (if ?b + 5 \<ge> 8 then ?b + 5 - 8 else ?b + 5)"
    using eights(1) [of "5 * length ds"] by (simp only: length_append_singleton mult_Suc_right add.commute)
  have "m < 8 \<Longrightarrow> m + 5 - 8 + 8 \<le> 32" for m :: nat by simp
  then have "?b + 5 - 8 + 8 \<le> 32" using b .
  then have byte: "unat (drop_bit (?b + 5 - 8) (word_of_nat (32 * base32_number ds + d) :: 32 word) AND 0xFF) =
      (32 * base32_number ds + d) div 2 ^ (?b + 5 - 8) mod 256" by (rule emitted_byte)
  have "fold take_sextet (ds @ [d]) (0, 0, []) = take_sextet d (?b, word_of_nat (base32_number ds), leading_bytes ds)"
    by (simp add: IH)
  also have "\<dots> = (5 * length (ds @ [d]) mod 8, word_of_nat (base32_number (ds @ [d])), leading_bytes (ds @ [d]))"
    unfolding take_sextet_def prod.case Let_def push_or_word [OF d] byte next_bits leading_bytes_append [OF d] base32_number_append
    by simp
  finally show ?case .
qed

lemma index_of_bound: "index_of c s = Some i \<Longrightarrow> i < length s"
  by (induction s arbitrary: i) (auto split: if_splits)

lemma base32_loop_steps:
  "base32_loop cs st =
     (case find (\<lambda>c. index_of c base32 = None) cs of
        Some c \<Rightarrow> Inl (''Not a base32 character: '' @ [c])
      | None \<Rightarrow> Inr (snd (snd (fold take_sextet (map (\<lambda>c. the (index_of c base32)) cs) st))))"
  by (induction cs arbitrary: st) (auto split: option.split)

text \<open>The base32 reader reads the seed's number. Though its accumulator is a 32-bit integer that overflows
  on any seed of more than six characters, the bytes are the leading bytes of the number the characters
  spell in base 32, of any length; the first character that is not in the alphabet is an error.\<close>

theorem base32_reads_number:
  "decode_base32 seed =
     (case find (\<lambda>c. index_of c base32 = None) (clean_seed seed) of
        Some c \<Rightarrow> Inl (''Not a base32 character: '' @ [c])
      | None \<Rightarrow> Inr (leading_bytes (map (\<lambda>c. the (index_of c base32)) (clean_seed seed))))"
proof (cases "find (\<lambda>c. index_of c base32 = None) (clean_seed seed)")
  case None
  have "length base32 = 32" by (simp add: base32_def)
  then have "the (index_of c base32) < 32" if "c \<in> set (clean_seed seed)" for c
    using None that index_of_bound by (fastforce simp: find_None_iff)
  then have "list_all (\<lambda>d. d < 32) (map (\<lambda>c. the (index_of c base32)) (clean_seed seed))"
    by (simp add: list_all_iff)
  from take_sextets [OF this] None show ?thesis by (simp add: decode_base32_def base32_loop_steps)
qed (simp add: decode_base32_def base32_loop_steps)

section \<open>The code\<close>

lemma truncated_positive: "0 \<le> sint (truncated mac)"
proof -
  have "\<not> bit (truncated mac) 31"
    by (simp add: truncated_def byte_at_def Let_def bit_simps bit_numeral_rec)
  then show ?thesis using bit_last_iff [of "truncated mac"] by simp
qed

lemma length_show_nat: "n < 10 ^ Suc k \<Longrightarrow> length (show_nat n) \<le> Suc k"
proof (induction k arbitrary: n)
  case 0
  then show ?case by (subst show_nat.simps) simp
next
  case (Suc k)
  show ?case
  proof (cases "n < 10")
    case False
    have "n div 10 < 10 ^ Suc k" using Suc.prems by (simp add: less_mult_imp_div_less mult.commute)
    with Suc.IH False show ?thesis by (simp add: show_nat.simps [of n])
  qed (simp add: show_nat.simps [of n])
qed

definition digit :: "char \<Rightarrow> bool" where
  "digit c \<longleftrightarrow> 48 \<le> char_code c \<and> char_code c \<le> 57"

lemma show_nat_digits: "list_all digit (show_nat n)"
  using set_show_nat by (fastforce simp: list_all_iff digit_def digit_char_def)

lemma pad_zeros_facts:
  "list_all digit s \<Longrightarrow> list_all digit (pad_zeros n s)" "length s \<le> n \<Longrightarrow> length (pad_zeros n s) = n"
  by (simp_all add: pad_zeros_def digit_def char_code_def list_all_iff set_replicate_conv_if)

text \<open>A one-time code has its digits. Whatever the seed, the moment and the length of the digest, the code
  is exactly as many decimal digits as were asked for, zeros in front included, or the seed's error.\<close>

theorem totp_code_digits:
  "case totp_code hmac seed at_ms step_seconds (Suc k) of
     Inl e \<Rightarrow> decode_base32 seed = Inl e
   | Inr code \<Rightarrow> length code = Suc k \<and> list_all digit code"
proof (cases "decode_base32 seed")
  case (Inr key)
  let ?x = "sint (truncated (hmac key (counter_bytes (at_ms div (1000 * step_seconds)))))"
  have pos: "0 \<le> ?x" by (rule truncated_positive)
  have "?x mod 10 ^ Suc k < 10 ^ Suc k" by (rule pos_mod_bound) simp
  then have "nat (?x mod 10 ^ Suc k) < 10 ^ Suc k" by (simp add: nat_less_iff nat_power_eq)
  then have "length (show_nat (nat (?x mod 10 ^ Suc k))) \<le> Suc k" by (rule length_show_nat)
  moreover have "show_int (js_rem ?x (10 ^ Suc k)) = show_nat (nat (?x mod 10 ^ Suc k))"
  proof -
    have "0 \<le> ?x mod 10 ^ Suc k" by (rule pos_mod_sign) simp
    then have neg: "\<not> ?x mod 10 ^ Suc k < 0" "\<not> ?x < 0" using pos by (simp_all only: not_less)
    show ?thesis unfolding js_rem_def if_not_P [OF neg(2)] show_int_def if_not_P [OF neg(1)] ..
  qed
  ultimately show ?thesis
    using show_nat_digits by (simp add: totp_code_def Inr pad_zeros_facts del: power_Suc)
qed (simp add: totp_code_def)

end
