(* ===== verification/Egress.thy ===== *)
theory Egress
  imports Shell
begin

text \<open>
  What leaves a computer with somebody's key: the rules of \<^verbatim>\<open>server/src/connections/egress-rules.ts\<close>, the
  two proxies of \<^verbatim>\<open>server/src/egress/routes.ts\<close>, and the proxy a Bot's own traffic takes in
  \<^verbatim>\<open>agent-computer/src/egress.ts\<close>.

  The vault, the provider table and the network are arguments.  A route's ids are the parameters the
  router read from the path; the pattern built from them is matched as the text they are, which is what it
  means for ids without characters that are special in a regular expression.  A pathname holds no line
  break.
\<close>

section \<open>The rules of a connection\<close>

record egress_rule =
  er_method :: string
  er_pattern :: string

definition upper_char :: "char \<Rightarrow> char" where
  "upper_char c = (let n = char_code c in if 97 \<le> n \<and> n \<le> 122 then char_of (n - 32) else c)"

text \<open>\<^verbatim>\<open>toUpperCase\<close> of ASCII text, which is all it is used on here.\<close>

definition ascii_upper :: "string \<Rightarrow> string" where
  "ascii_upper s = map upper_char s"

definition method_char :: "char \<Rightarrow> bool" where
  "method_char c \<longleftrightarrow> letter c \<or> c = CHR ''*''"

definition parse_rule :: "string \<Rightarrow> egress_rule option" where
  "parse_rule t =
     (let m = takeWhile method_char t; rest = dropWhile method_char t; p = dropWhile js_space rest in
      if m \<noteq> [] \<and> p \<noteq> rest \<and> prefix ''/'' p \<and> list_all (\<lambda>c. \<not> js_space c) p
      then Some \<lparr>er_method = ascii_upper m, er_pattern = p\<rparr> else None)"

fun parse_egress_rules :: "string list \<Rightarrow> egress_rule list option" where
  "parse_egress_rules [] = Some []"
| "parse_egress_rules (line # ls) =
     (if js_trim line = [] then parse_egress_rules ls
      else case parse_rule (js_trim line) of
          None \<Rightarrow> None
        | Some r \<Rightarrow> map_option (\<lambda>rs. r # rs) (parse_egress_rules ls))"

definition path_parts :: "string \<Rightarrow> string list" where
  "path_parts p = filter (\<lambda>w. w \<noteq> []) (split_on (CHR ''/'') p)"

fun parts_match :: "string list \<Rightarrow> string list \<Rightarrow> bool" where
  "parts_match [] path = (path = [])"
| "parts_match (p # ps) path =
     (if p = ''**'' then True
      else case path of
          [] \<Rightarrow> False
        | q # qs \<Rightarrow> if p \<noteq> ''*'' \<and> p \<noteq> q then False else parts_match ps qs)"

definition path_matches :: "string \<Rightarrow> string \<Rightarrow> bool" where
  "path_matches pattern path = parts_match (path_parts pattern) (path_parts path)"

definition request_allowed :: "egress_rule list option \<Rightarrow> string \<Rightarrow> string \<Rightarrow> bool" where
  "request_allowed rules method path =
     (case rules of
        None \<Rightarrow> True
      | Some rs \<Rightarrow> rs = [] \<or>
          list_ex (\<lambda>r. (er_method r = ''*'' \<or> er_method r = ascii_upper method) \<and> path_matches (er_pattern r) path) rs)"

section \<open>The two proxies\<close>

record egress_request =
  eq_method :: string
  eq_path :: string
  eq_header :: "string \<Rightarrow> string option"
  eq_body :: string

record egress_connection =
  ec_kind :: string
  ec_base :: "string option"
  ec_rules :: "string list option"

record egress_vault =
  ev_get :: "string \<Rightarrow> egress_connection option"
  ev_allowed :: "string \<Rightarrow> string \<Rightarrow> bool"
  ev_secret :: "string \<Rightarrow> string option"

record egress_provider =
  ep_kind :: string
  ep_base :: "string option"

record outgoing =
  og_method :: string
  og_url :: string
  og_headers :: "(string \<times> string) list"
  og_body :: "string option"

record upstream_answer =
  ua_status :: int
  ua_header :: "string \<Rightarrow> string option"
  ua_body :: string

datatype egress_answer =
    Egress_error int string
  | Egress_passed int "(string \<times> string) list" string

definition bearer_stripped :: "string \<Rightarrow> string" where
  "bearer_stripped s =
     (let rest = drop 6 s; after = dropWhile js_space rest in
      if js_lower (take 6 s) = ''bearer'' \<and> after \<noteq> rest then after else s)"

definition offered_key :: "egress_request \<Rightarrow> string" where
  "offered_key r =
     (case eq_header r ''authorization'' of
        Some a \<Rightarrow> bearer_stripped a
      | None \<Rightarrow> (case eq_header r ''x-api-key'' of Some k \<Rightarrow> k | None \<Rightarrow> []))"

definition from_computer :: "string option \<Rightarrow> egress_request \<Rightarrow> bool" where
  "from_computer computer_token r \<longleftrightarrow> truthy computer_token \<and> offered_key r = the computer_token"

text \<open>What \<^verbatim>\<open>replace(new RegExp(`^.*...`), "")\<close> leaves: the text after the last occurrence.\<close>

fun after_last :: "string \<Rightarrow> string \<Rightarrow> string option" where
  "after_last n [] = (if n = [] then Some [] else None)"
| "after_last n (c # s) =
     (case after_last n s of
        Some r \<Rightarrow> Some r
      | None \<Rightarrow> if prefix n (c # s) then Some (drop (length n) (c # s)) else None)"

definition sub_path :: "string \<Rightarrow> string \<Rightarrow> string" where
  "sub_path mount path = (case after_last mount path of Some r \<Rightarrow> r | None \<Rightarrow> path)"

definition copied_headers :: "string list \<Rightarrow> (string \<Rightarrow> string option) \<Rightarrow> (string \<times> string) list" where
  "copied_headers names header = concat (map (\<lambda>n. if truthy (header n) then [(n, the (header n))] else []) names)"

definition body_of :: "egress_request \<Rightarrow> string option" where
  "body_of r = (if eq_method r = ''GET'' \<or> eq_method r = ''HEAD'' then None else Some (eq_body r))"

definition passed_on :: "upstream_answer \<Rightarrow> egress_answer" where
  "passed_on a = Egress_passed (ua_status a) (copied_headers [''content-type'', ''cache-control''] (ua_header a)) (ua_body a)"

definition conn_egress ::
  "string option \<Rightarrow> egress_vault option \<Rightarrow> (outgoing \<Rightarrow> string + upstream_answer) \<Rightarrow> string \<Rightarrow> string \<Rightarrow> egress_request
     \<Rightarrow> egress_answer \<times> outgoing list" where
  "conn_egress computer_token connections fetch bot_id connection_id r =
     (if \<not> from_computer computer_token r then (Egress_error 401 ''Not a computer.'', [])
      else case connections of
        None \<Rightarrow> (Egress_error 404 ''No connections vault.'', [])
      | Some vault \<Rightarrow>
          (case ev_get vault connection_id of
             None \<Rightarrow> (Egress_error 404 ''No such connection.'', [])
           | Some conn \<Rightarrow>
               if ec_kind conn \<noteq> ''api'' then (Egress_error 404 ''No such connection.'', [])
               else if \<not> truthy (ec_base conn) then (Egress_error 503 ''The connection has no base URL.'', [])
               else if \<not> ev_allowed vault connection_id bot_id
               then (Egress_error 403 (''No grant: an administrator has not allowed '' @ bot_id @ '' to use '' @ connection_id @ ''.''), [])
               else let sub = sub_path (''/egress/conn/'' @ bot_id @ ''/'' @ connection_id) (eq_path r);
                        rules = parse_egress_rules (case ec_rules conn of None \<Rightarrow> [] | Some ls \<Rightarrow> ls) in
                 if \<not> request_allowed rules (eq_method r) sub
                 then (Egress_error 403 (''The connection '' @ connection_id @ '' does not allow '' @ eq_method r @ '' '' @ sub @ ''.''), [])
                 else (case ev_secret vault connection_id of
                     None \<Rightarrow> (Egress_error 503 ''The connection has no secret.'', [])
                   | Some key \<Rightarrow>
                       if key = [] then (Egress_error 503 ''The connection has no secret.'', [])
                       else let out = \<lparr>og_method = eq_method r, og_url = drop_trailing_slash (the (ec_base conn)) @ sub,
                                  og_headers = copied_headers [''content-type'', ''accept''] (eq_header r)
                                    @ [(''authorization'', ''Bearer '' @ key)],
                                  og_body = body_of r\<rparr> in
                         (case fetch out of
                            Inl e \<Rightarrow> (Egress_error 502 (''The service could not be reached: '' @ e), [out])
                          | Inr a \<Rightarrow> (passed_on a, [out])))))"

definition allowed_paths :: "string list" where
  "allowed_paths = [''/v1/messages'', ''/v1/messages/count_tokens'', ''/chat/completions'', ''/v1/chat/completions'',
     ''/models'', ''/v1/models'']"

definition provider_base :: "egress_provider \<Rightarrow> string" where
  "provider_base p = drop_trailing_slash
     (case ep_base p of
        Some b \<Rightarrow> b
      | None \<Rightarrow> if ep_kind p = ''anthropic'' then ''https://api.anthropic.com'' else ''https://api.openai.com'')"

definition provider_headers :: "egress_provider \<Rightarrow> string \<Rightarrow> egress_request \<Rightarrow> (string \<times> string) list" where
  "provider_headers p key r =
     (let copied = copied_headers [''content-type'', ''accept'', ''anthropic-version'', ''anthropic-beta''] (eq_header r) in
      if prefix ''anthropic'' (ep_kind p) \<and> ep_base p = None
      then copied @ [(''x-api-key'', key)]
        @ (if map_of copied ''anthropic-version'' = None then [(''anthropic-version'', ''2023-06-01'')] else [])
      else copied @ [(''authorization'', ''Bearer '' @ key)])"

definition provider_egress ::
  "string option \<Rightarrow> (string \<Rightarrow> egress_provider option) \<Rightarrow> (string \<Rightarrow> string option) \<Rightarrow> (outgoing \<Rightarrow> string + upstream_answer)
     \<Rightarrow> string \<Rightarrow> egress_request \<Rightarrow> egress_answer \<times> outgoing list" where
  "provider_egress computer_token get secret_of fetch provider_id r =
     (if \<not> from_computer computer_token r then (Egress_error 401 ''Not a computer.'', [])
      else case get provider_id of
        None \<Rightarrow> (Egress_error 404 ''No such provider.'', [])
      | Some p \<Rightarrow>
          (let sub = sub_path (''/egress/'' @ provider_id) (eq_path r) in
           if sub \<notin> set allowed_paths then (Egress_error 404 (''The egress proxy does not forward '' @ sub @ ''.''), [])
           else (case secret_of provider_id of
               None \<Rightarrow> (Egress_error 503 ''The provider has no key.'', [])
             | Some key \<Rightarrow>
                 if key = [] then (Egress_error 503 ''The provider has no key.'', [])
                 else let out = \<lparr>og_method = eq_method r, og_url = provider_base p @ sub,
                            og_headers = provider_headers p key r, og_body = body_of r\<rparr> in
                   (case fetch out of
                      Inl e \<Rightarrow> (Egress_error 502 (''The provider could not be reached: '' @ e), [out])
                    | Inr a \<Rightarrow> (passed_on a, [out])))))"

section \<open>The proxy of a Bot\<close>

record egress =
  eg_server :: string
  eg_username :: "string option"
  eg_password :: "string option"

definition egress_variable_for :: "string \<Rightarrow> string" where
  "egress_variable_for bot_id =
     ''EGRESS_PROXY_'' @ ascii_upper (map (\<lambda>c. if letter c \<or> (48 \<le> char_code c \<and> char_code c \<le> 57) then c else CHR ''_'') bot_id)"

definition or_else :: "'a option \<Rightarrow> 'a option \<Rightarrow> 'a option" where
  "or_else a b = (case a of None \<Rightarrow> b | Some v \<Rightarrow> Some v)"

text \<open>\<^verbatim>\<open>new URL\<close> and \<^verbatim>\<open>decodeURIComponent\<close> are arguments, each with \<open>None\<close> where it throws.\<close>

definition decoded :: "(string \<Rightarrow> string option) \<Rightarrow> string \<Rightarrow> string option option" where
  "decoded decode s = (if s = [] then Some None else map_option Some (decode s))"

definition egress_for ::
  "(string \<Rightarrow> proxy_url option) \<Rightarrow> (string \<Rightarrow> string option) \<Rightarrow> string \<Rightarrow> (string \<Rightarrow> string option) \<Rightarrow> egress option" where
  "egress_for parse decode bot_id env =
     (let raw = or_else (env (egress_variable_for bot_id)) (env ''EGRESS_PROXY_DEFAULT'') in
      if \<not> truthy (map_option js_trim raw) then None
      else let t = js_trim (the raw); bare = \<lparr>eg_server = t, eg_username = None, eg_password = None\<rparr> in
        Some (case parse t of
            None \<Rightarrow> bare
          | Some u \<Rightarrow>
              (case (decoded decode (px_username u), decoded decode (px_password u)) of
                 (Some n, Some p) \<Rightarrow>
                   \<lparr>eg_server = drop_trailing_slash (px_without u),
                    eg_username = (if truthy n then n else None), eg_password = (if truthy p then p else None)\<rparr>
               | _ \<Rightarrow> bare)))"

text \<open>\<open>host_of_url\<close> is the host \<^verbatim>\<open>new URL\<close> gives, \<open>None\<close> where it throws.\<close>

definition egress_label ::
  "(string \<Rightarrow> proxy_url option) \<Rightarrow> (string \<Rightarrow> string option) \<Rightarrow> (string \<Rightarrow> string option) \<Rightarrow> string \<Rightarrow> (string \<Rightarrow> string option)
     \<Rightarrow> string option" where
  "egress_label parse decode host_of_url bot_id env =
     map_option (\<lambda>p. case host_of_url (eg_server p) of
         Some h \<Rightarrow> if h \<noteq> [] then h else eg_server p
       | None \<Rightarrow> eg_server p) (egress_for parse decode bot_id env)"

section \<open>What a rule lets through\<close>

text \<open>A pattern as a reader means it: pieces that stand for themselves or, as a star, for any one piece, and
  from the first double star on for any tail.\<close>

definition piece_fits :: "string \<Rightarrow> string \<Rightarrow> bool" where
  "piece_fits p q \<longleftrightarrow> p = ''*'' \<or> p = q"

definition pattern_means :: "string list \<Rightarrow> string list \<Rightarrow> bool" where
  "pattern_means ps path =
     (let fixed = takeWhile (\<lambda>p. p \<noteq> ''**'') ps in
      list_all2 piece_fits fixed (take (length fixed) path)
      \<and> (if ''**'' \<in> set ps then True else length path = length ps))"

lemma parts_match_means: "parts_match ps path = pattern_means ps path"
proof (induction ps path rule: parts_match.induct)
  case (2 p ps path)
  then show ?case
    by (cases path) (auto simp: pattern_means_def piece_fits_def Let_def)
qed (simp add: pattern_means_def)

text \<open>A list of rules means what its documentation says. A request is let through exactly when there
  are no rules or some rule has its method, or a star, and a pattern that covers its path: a star for
  one piece, a double star for any tail, every other piece for itself.\<close>

theorem rules_mean_their_text:
  "request_allowed (Some rules) method path \<longleftrightarrow>
     rules = [] \<or> list_ex (\<lambda>r. (er_method r = ''*'' \<or> er_method r = ascii_upper method)
        \<and> pattern_means (path_parts (er_pattern r)) (path_parts path)) rules"
  by (simp add: request_allowed_def path_matches_def parts_match_means)

section \<open>What the proxies send\<close>

text \<open>The checks a request of a computer passes before the secret of a connection is used for it.\<close>

definition conn_permitted :: "string option \<Rightarrow> egress_vault option \<Rightarrow> string \<Rightarrow> string \<Rightarrow> egress_request \<Rightarrow> bool" where
  "conn_permitted computer_token connections bot_id connection_id r =
     (from_computer computer_token r
      \<and> (case connections of
           None \<Rightarrow> False
         | Some vault \<Rightarrow>
             (case ev_get vault connection_id of
                None \<Rightarrow> False
              | Some conn \<Rightarrow>
                  ec_kind conn = ''api'' \<and> truthy (ec_base conn) \<and> ev_allowed vault connection_id bot_id
                  \<and> request_allowed (parse_egress_rules (case ec_rules conn of None \<Rightarrow> [] | Some ls \<Rightarrow> ls)) (eq_method r)
                      (sub_path (''/egress/conn/'' @ bot_id @ ''/'' @ connection_id) (eq_path r))
                  \<and> truthy (ev_secret vault connection_id))))"

definition bearer_key :: "outgoing \<Rightarrow> string option" where
  "bearer_key out = map_option (drop 7) (map_of (og_headers out) ''authorization'')"

lemma bearer_key_sent:
  "bearer_key \<lparr>og_method = m, og_url = u,
     og_headers = copied_headers [''content-type'', ''accept''] h @ [(''authorization'', ''Bearer '' @ key)],
     og_body = b\<rparr> = Some key"
  by (simp add: bearer_key_def copied_headers_def)


text \<open>The model proxy is no general tunnel. Whatever a computer asks, every request sent goes to the
  provider's base followed by one of six fixed paths.\<close>

theorem provider_proxy_fixed_paths:
  "list_all (\<lambda>out. \<exists>p path. get provider_id = Some p \<and> path \<in> set allowed_paths \<and> og_url out = provider_base p @ path
       \<and> og_method out = eq_method r)
     (snd (provider_egress computer_token get secret_of fetch provider_id r))"
  by (auto simp: provider_egress_def Let_def split: option.splits sum.splits)

text \<open>Where a request is sent: what stands between the two slashes and the next mark.\<close>

definition authority_of :: "string \<Rightarrow> string" where
  "authority_of u = takeWhile (\<lambda>c. c \<notin> set ''/?#'') (drop 2 (dropWhile (\<lambda>c. c \<noteq> CHR ''/'') u))"

definition example_vault :: "string list \<Rightarrow> egress_vault" where
  "example_vault rules =
     \<lparr>ev_get = (\<lambda>i. if i = ''deploys'' then Some \<lparr>ec_kind = ''api'', ec_base = Some ''https://api.deploys.test'', ec_rules = Some rules\<rparr> else None),
      ev_allowed = (\<lambda>i b. i = ''deploys'' \<and> b = ''ada''),
      ev_secret = (\<lambda>i. if i = ''deploys'' then Some ''s3cret'' else None)\<rparr>"

definition crafted_request :: egress_request where
  "crafted_request =
     \<lparr>eq_method = ''GET'', eq_path = ''/api/egress/conn/ada/deploys/egress/conn/ada/deploys.evil.test/v1/sites'',
      eq_header = (\<lambda>n. if n = ''x-api-key'' then Some ''computer'' else None), eq_body = []\<rparr>"

text \<open>The connection proxy can be sent to another host. The pattern that strips the mount from the path is
  greedy and what it leaves is joined to the base as it is, so a path that repeats the mount makes the
  host of the base the front of another host, and the secret goes there.\<close>

theorem connection_secret_leaves_host:
  "map (\<lambda>out. (authority_of (og_url out), bearer_key out))
     (snd (conn_egress (Some ''computer'') (Some (example_vault [])) (\<lambda>out. Inl ''closed'') ''ada'' ''deploys'' crafted_request))
   = [(''api.deploys.test.evil.test'', Some ''s3cret'')]"
  by code_simp

text \<open>Rules that do not parse allow everything. A single line that is no rule makes the whole list count as
  absent, so a connection meant for one path lets every request through.\<close>

theorem broken_rules_allow_everything:
  "request_allowed (parse_egress_rules (ls @ [''not a rule''] @ ls')) method path"
proof -
  have broken: "parse_rule (js_trim ''not a rule'') = None" "js_trim ''not a rule'' \<noteq> []" by code_simp+
  have "parse_egress_rules (ls @ [''not a rule''] @ ls') = None"
    by (induction ls) (simp_all add: broken split: option.split)
  then show ?thesis by (simp add: request_allowed_def)
qed

section \<open>The proxy of a Bot\<close>

text \<open>Two Bots can share a proxy without saying so. The variable a Bot's proxy is read from is the same for
  ids that differ only in case or in the characters that are neither letters nor digits.\<close>

theorem proxy_variables_collide:
  "egress_variable_for ''sales-bot'' = egress_variable_for ''sales_bot''
   \<and> egress_variable_for ''sales-bot'' = egress_variable_for ''Sales.Bot''"
  by code_simp

text \<open>The label of a proxy written without a scheme shows its password. A parser that reads the user as a
  scheme finds no user and no host in such an address, and the label is then the whole of it.\<close>

definition schemeless_url :: "string \<Rightarrow> proxy_url option" where
  "schemeless_url t = Some \<lparr>px_username = [], px_password = [], px_without = t\<rparr>"

theorem schemeless_label_shows_password:
  "egress_label schemeless_url Some (\<lambda>u. Some []) ''ada'' (\<lambda>n. if n = ''EGRESS_PROXY_ADA'' then Some ''user:pw@proxy:8080'' else None)
   = Some ''user:pw@proxy:8080''"
  by code_simp

end
