(* ===== verification/Vault.thy ===== *)
theory Vault
  imports Totp Audit_Trail Egress
begin

text \<open>
  The connections vault, \<^verbatim>\<open>server/src/connections/store.ts\<close>: named credentials, who may use them, and the
  three ways a secret leaves it; with the references to 1Password of \<^verbatim>\<open>onepassword.ts\<close>.  The encryption
  under the deployment's key, the \<^verbatim>\<open>op\<close> program and the clock are arguments; a call that throws is \<open>Inl\<close>.
\<close>

section \<open>Connections and grants\<close>

record connection_row =
  cn_id :: string
  cn_name :: string
  cn_kind :: string
  cn_service :: string
  cn_base :: "string option"
  cn_login :: "string option"
  cn_username :: "string option"
  cn_op_ref :: "string option"
  cn_op_account :: "string option"
  cn_secret :: "string option"
  cn_totp :: "string option"
  cn_rules :: "string list option"
  cn_notes :: "string option"
  cn_session :: "string option"
  cn_session_at :: "int option"
  cn_session_hint :: "string option"
  cn_verified :: "int option"
  cn_verify_status :: "string option"
  cn_verify_note :: "string option"
  cn_updated :: int

text \<open>What is shown of a row: every field but the three sealed ones, of which two are only said to be there.\<close>

record connection_view =
  cv_id :: string
  cv_name :: string
  cv_kind :: string
  cv_service :: string
  cv_base :: "string option"
  cv_login :: "string option"
  cv_username :: "string option"
  cv_has_totp :: bool
  cv_op_ref :: "string option"
  cv_op_account :: "string option"
  cv_rules :: "string list option"
  cv_notes :: "string option"
  cv_verified :: "int option"
  cv_verify_status :: "string option"
  cv_verify_note :: "string option"
  cv_has_session :: bool
  cv_session_at :: "int option"
  cv_session_hint :: "string option"
  cv_grants :: "string list"
  cv_updated :: int

record vault_state =
  va_rows :: "connection_row list"
  va_grants :: "(string \<times> string) list"
  va_audit :: "audit_input list"

definition connection_row_of :: "string \<Rightarrow> connection_row list \<Rightarrow> connection_row option" where
  "connection_row_of i rows = find (\<lambda>r. cn_id r = i) rows"

definition to_connection :: "connection_row \<Rightarrow> string list \<Rightarrow> connection_view" where
  "to_connection r grants =
     \<lparr>cv_id = cn_id r, cv_name = cn_name r, cv_kind = cn_kind r, cv_service = cn_service r, cv_base = cn_base r,
      cv_login = cn_login r, cv_username = cn_username r, cv_has_totp = (cn_totp r \<noteq> None), cv_op_ref = cn_op_ref r,
      cv_op_account = cn_op_account r, cv_rules = cn_rules r, cv_notes = cn_notes r, cv_verified = cn_verified r,
      cv_verify_status = cn_verify_status r, cv_verify_note = cn_verify_note r, cv_has_session = (cn_session r \<noteq> None),
      cv_session_at = cn_session_at r, cv_session_hint = cn_session_hint r, cv_grants = grants, cv_updated = cn_updated r\<rparr>"

definition grants_of :: "string \<Rightarrow> vault_state \<Rightarrow> string list" where
  "grants_of i v = map snd (filter (\<lambda>g. fst g = i) (va_grants v))"

definition get_connection :: "string \<Rightarrow> vault_state \<Rightarrow> connection_view option" where
  "get_connection i v = map_option (\<lambda>r. to_connection r (grants_of i v)) (connection_row_of i (va_rows v))"

text \<open>\<open>order\<close> ranks ids as the database does.\<close>

definition list_connections :: "(string \<Rightarrow> nat) \<Rightarrow> vault_state \<Rightarrow> connection_view list" where
  "list_connections order v = map (\<lambda>r. to_connection r (grants_of (cn_id r) v)) (sort_key (order \<circ> cn_id) (va_rows v))"

text \<open>What is saved: an absent secret is \<open>None\<close>; a seed is absent, cleared, or a text; of the nullable fields
  absent and null are one.\<close>

record connection_input =
  cx_id :: string
  cx_name :: string
  cx_kind :: string
  cx_service :: string
  cx_base :: "string option"
  cx_login :: "string option"
  cx_username :: "string option"
  cx_op_ref :: "string option"
  cx_op_account :: "string option"
  cx_secret :: "string option"
  cx_totp :: "string option option"
  cx_rules :: "string list option option"
  cx_notes :: "string option"
  cx_actor :: "string option"

definition vault_event :: "string \<Rightarrow> string \<Rightarrow> (string \<times> jsv) list \<Rightarrow> audit_input" where
  "vault_event kind i payload = record_audit_event
     \<lparr>ai_type = kind, ai_target_type = ''connection'', ai_target_id = Some i, ai_actor = None, ai_payload = JObj payload\<rparr>"

definition or_null :: "string option \<Rightarrow> jsv" where
  "or_null v = (case v of None \<Rightarrow> JNull | Some s \<Rightarrow> JStr s)"

definition saved_fields :: "(string \<Rightarrow> string) \<Rightarrow> connection_input \<Rightarrow> int \<Rightarrow> connection_row \<Rightarrow> connection_row" where
  "saved_fields encrypt x now r =
     r\<lparr>cn_name := cx_name x, cn_kind := cx_kind x, cn_service := cx_service x, cn_base := cx_base x, cn_login := cx_login x,
       cn_username := cx_username x, cn_op_ref := cx_op_ref x, cn_op_account := cx_op_account x,
       cn_rules := (case cx_rules x of None \<Rightarrow> None | Some rs \<Rightarrow> rs), cn_notes := cx_notes x, cn_updated := now,
       cn_secret := (if truthy (cx_secret x) then Some (encrypt (the (cx_secret x))) else cn_secret r),
       cn_totp := (case cx_totp x of
           None \<Rightarrow> cn_totp r
         | Some None \<Rightarrow> None
         | Some (Some seed) \<Rightarrow> if seed \<noteq> [] then Some (encrypt seed) else cn_totp r)\<rparr>"

definition empty_row :: "string \<Rightarrow> connection_row" where
  "empty_row i =
     \<lparr>cn_id = i, cn_name = [], cn_kind = [], cn_service = [], cn_base = None, cn_login = None, cn_username = None,
      cn_op_ref = None, cn_op_account = None, cn_secret = None, cn_totp = None, cn_rules = None, cn_notes = None,
      cn_session = None, cn_session_at = None, cn_session_hint = None, cn_verified = None, cn_verify_status = None,
      cn_verify_note = None, cn_updated = 0\<rparr>"

definition change_connection :: "string \<Rightarrow> (connection_row \<Rightarrow> connection_row) \<Rightarrow> connection_row list \<Rightarrow> connection_row list" where
  "change_connection i f rows = map (\<lambda>r. if cn_id r = i then f r else r) rows"

definition saved_event :: "connection_input \<Rightarrow> audit_input" where
  "saved_event x = vault_event ''connection.saved'' (cx_id x)
     [(''connection'', JStr (cx_id x)), (''service'', JStr (cx_service x)), (''kind'', JStr (cx_kind x)),
      (''secretChanged'', JBool (truthy (cx_secret x))), (''by'', or_null (cx_actor x))]"

definition upsert_connection :: "(string \<Rightarrow> string) \<Rightarrow> connection_input \<Rightarrow> int \<Rightarrow> vault_state \<Rightarrow> (string + bool) \<times> vault_state" where
  "upsert_connection encrypt x now v =
     (let existing = connection_row_of (cx_id x) (va_rows v) in
      if existing = None \<and> \<not> truthy (cx_secret x) \<and> cx_kind x \<noteq> ''web''
      then (Inl ''A new connection needs a secret.'', v)
      else if (case existing of None \<Rightarrow> False | Some r \<Rightarrow> cx_base x \<noteq> cn_base r \<and> \<not> truthy (cx_secret x))
      then (Inl ''Changing the base URL requires re-entering the secret.'', v)
      else (Inr (existing = None),
        v\<lparr>va_rows := (if existing \<noteq> None then change_connection (cx_id x) (saved_fields encrypt x now) (va_rows v)
             else va_rows v @ [saved_fields encrypt x now (empty_row (cx_id x))]),
          va_audit := va_audit v @ [saved_event x]\<rparr>))"

definition remove_connection :: "string \<Rightarrow> string option \<Rightarrow> vault_state \<Rightarrow> bool \<times> vault_state" where
  "remove_connection i actor v =
     (if connection_row_of i (va_rows v) = None then (False, v)
      else (True, v\<lparr>va_rows := filter (\<lambda>r. cn_id r \<noteq> i) (va_rows v),
         va_grants := filter (\<lambda>g. fst g \<noteq> i) (va_grants v),
         va_audit := va_audit v @ [vault_event ''connection.removed'' i [(''connection'', JStr i), (''by'', or_null actor)]]\<rparr>))"

text \<open>A grant refers to a connection that is there; of one already made nothing is stored again.\<close>

definition grant_connection :: "string \<Rightarrow> string \<Rightarrow> string option \<Rightarrow> vault_state \<Rightarrow> (string + unit) \<times> vault_state" where
  "grant_connection i b by_whom v =
     (if connection_row_of i (va_rows v) = None then (Inl ''foreign key'', v)
      else (Inr (), v\<lparr>va_grants := (if (i, b) \<in> set (va_grants v) then va_grants v else va_grants v @ [(i, b)]),
         va_audit := va_audit v @ [vault_event ''connection.granted'' i
           [(''connection'', JStr i), (''bot'', JStr b), (''by'', or_null by_whom)]]\<rparr>))"

definition revoke_connection :: "string \<Rightarrow> string \<Rightarrow> vault_state \<Rightarrow> bool \<times> vault_state" where
  "revoke_connection i b v =
     (if (i, b) \<notin> set (va_grants v) then (False, v)
      else (True, v\<lparr>va_grants := filter (\<lambda>g. g \<noteq> (i, b)) (va_grants v),
         va_audit := va_audit v @ [vault_event ''connection.revoked'' i [(''connection'', JStr i), (''bot'', JStr b)]]\<rparr>))"

definition connection_allowed :: "string \<Rightarrow> string \<Rightarrow> vault_state \<Rightarrow> bool" where
  "connection_allowed i b v \<longleftrightarrow> (i, b) \<in> set (va_grants v)"

definition record_verify :: "string \<Rightarrow> bool \<Rightarrow> string \<Rightarrow> int \<Rightarrow> vault_state \<Rightarrow> vault_state" where
  "record_verify i ok note now v =
     (let status = (if ok then ''ok'' else ''failed'') in
      v\<lparr>va_rows := change_connection i (\<lambda>r. r\<lparr>cn_verified := Some now, cn_verify_status := Some status,
           cn_verify_note := Some (take 500 note)\<rparr>) (va_rows v),
        va_audit := va_audit v @ [vault_event ''connection.verified'' i [(''connection'', JStr i), (''status'', JStr status)]]\<rparr>)"

definition store_session :: "(string \<Rightarrow> string) \<Rightarrow> string \<Rightarrow> string \<Rightarrow> string option \<Rightarrow> int \<Rightarrow> vault_state \<Rightarrow> vault_state" where
  "store_session encrypt i state_json hint now v =
     v\<lparr>va_rows := change_connection i (\<lambda>r. r\<lparr>cn_session := Some (encrypt state_json), cn_session_at := Some now,
         cn_session_hint := hint, cn_updated := now\<rparr>) (va_rows v),
       va_audit := va_audit v @ [vault_event ''connection.session_captured'' i
         [(''connection'', JStr i), (''expiresHint'', or_null hint)]]\<rparr>"

definition clear_session :: "string \<Rightarrow> vault_state \<Rightarrow> vault_state" where
  "clear_session i v = v\<lparr>va_rows := change_connection i
     (\<lambda>r. r\<lparr>cn_session := None, cn_session_at := None, cn_session_hint := None\<rparr>) (va_rows v)\<rparr>"

section \<open>1Password\<close>

text \<open>One run of the \<^verbatim>\<open>op\<close> program with its arguments and the service account's token: what it wrote, what
  it complained of and its exit code, or the reason it could not be started.\<close>

record op_run =
  or_out :: string
  or_err :: string
  or_code :: int

type_synonym op_program = "string list \<Rightarrow> string option \<Rightarrow> string + op_run"

definition op_account :: "string \<Rightarrow> string option \<Rightarrow> string list" where
  "op_account account token = (if truthy token then [] else if account \<noteq> [] then [''--account'', account] else [])"

definition without_slashes :: "string \<Rightarrow> string" where
  "without_slashes s = rev (dropWhile (\<lambda>c. c = CHR ''/'') (rev s))"

definition op_read :: "op_program \<Rightarrow> string \<Rightarrow> string \<Rightarrow> string \<Rightarrow> string option \<Rightarrow> string + string" where
  "op_read op account ref field token =
     (case op ([''read'', without_slashes ref @ ''/'' @ field] @ op_account account token) (if truthy token then token else None) of
        Inl e \<Rightarrow> Inl e
      | Inr r \<Rightarrow>
          if or_code r \<noteq> 0 then Inl (if js_trim (or_err r) \<noteq> [] then js_trim (or_err r) else ''op exited '' @ show_int (or_code r))
          else Inr (js_trim (or_out r)))"

definition op_password :: "op_program \<Rightarrow> string \<Rightarrow> string \<Rightarrow> string option \<Rightarrow> string + string" where
  "op_password op account ref token =
     (case op_read op account ref ''password'' token of
        Inl e \<Rightarrow> Inl (''1Password read failed: '' @ e)
      | Inr v \<Rightarrow> Inr v)"

text \<open>\<^verbatim>\<open>/^op:\/\/([^/]+)\/([^/]+)/\<close>: the vault and the item.\<close>

definition op_parts :: "string \<Rightarrow> (string \<times> string) option" where
  "op_parts ref =
     (let t = js_trim ref; rest = drop 5 t;
          vault = takeWhile (\<lambda>c. c \<noteq> CHR ''/'') rest;
          item = takeWhile (\<lambda>c. c \<noteq> CHR ''/'') (drop (Suc (length vault)) rest) in
      if take 5 t = ''op://'' \<and> vault \<noteq> [] \<and> length vault < length rest \<and> item \<noteq> [] then Some (vault, item) else None)"

definition short_digits :: "string \<Rightarrow> bool" where
  "short_digits s \<longleftrightarrow> 4 \<le> length s \<and> length s \<le> 10 \<and> list_all digit s"

definition op_otp :: "op_program \<Rightarrow> string \<Rightarrow> string \<Rightarrow> string option \<Rightarrow> string option" where
  "op_otp op account ref token =
     (case op_parts ref of
        None \<Rightarrow> None
      | Some (vault, item) \<Rightarrow>
          (case op ([''item'', ''get'', item, ''--vault'', vault, ''--otp''] @ op_account account token)
                (if truthy token then token else None) of
             Inl e \<Rightarrow> None
           | Inr r \<Rightarrow>
               if or_code r \<noteq> 0 then None
               else if short_digits (js_trim (or_out r)) then Some (js_trim (or_out r)) else None))"

definition op_username :: "op_program \<Rightarrow> string \<Rightarrow> string \<Rightarrow> string option \<Rightarrow> string option" where
  "op_username op account ref token =
     (case op_read op account ref ''username'' token of
        Inl e \<Rightarrow> None
      | Inr v \<Rightarrow> if v = [] then None else Some v)"

section \<open>What leaves the vault\<close>

definition account_of :: "connection_row \<Rightarrow> string" where
  "account_of r = (case cn_op_account r of Some a \<Rightarrow> a | None \<Rightarrow> [])"

definition opened :: "(string \<Rightarrow> string + string) \<Rightarrow> string option \<Rightarrow> string + string option" where
  "opened decrypt stored =
     (if \<not> truthy stored then Inr None
      else case decrypt (the stored) of Inl e \<Rightarrow> Inl e | Inr t \<Rightarrow> Inr (Some t))"

definition secret_of :: "(string \<Rightarrow> string + string) \<Rightarrow> op_program \<Rightarrow> string \<Rightarrow> vault_state \<Rightarrow> string + string option" where
  "secret_of decrypt op i v =
     (case connection_row_of i (va_rows v) of
        None \<Rightarrow> Inr None
      | Some r \<Rightarrow>
          if truthy (cn_op_ref r)
          then (case op_password op (account_of r) (the (cn_op_ref r)) None of Inl e \<Rightarrow> Inl e | Inr p \<Rightarrow> Inr (Some p))
          else opened decrypt (cn_secret r))"

definition totp_code_of ::
  "(string \<Rightarrow> string + string) \<Rightarrow> op_program \<Rightarrow> (nat list \<Rightarrow> nat list \<Rightarrow> nat list) \<Rightarrow> int \<Rightarrow> string \<Rightarrow> vault_state
     \<Rightarrow> string + string option" where
  "totp_code_of decrypt op hmac now i v =
     (case connection_row_of i (va_rows v) of
        None \<Rightarrow> Inr None
      | Some r \<Rightarrow>
          if truthy (cn_op_ref r) then Inr (op_otp op (account_of r) (the (cn_op_ref r)) None)
          else (case opened decrypt (cn_totp r) of
              Inl e \<Rightarrow> Inl e
            | Inr None \<Rightarrow> Inr None
            | Inr (Some seed) \<Rightarrow> (case totp_code hmac seed now 30 6 of Inl e \<Rightarrow> Inl e | Inr c \<Rightarrow> Inr (Some c))))"

record op_credential =
  oc_username :: "string option"
  oc_password :: "string option"
  oc_otp :: "string option"

definition op_creds_of :: "op_program \<Rightarrow> string \<Rightarrow> vault_state \<Rightarrow> op_credential option \<times> vault_state" where
  "op_creds_of op i v =
     (case connection_row_of i (va_rows v) of
        None \<Rightarrow> (None, v)
      | Some r \<Rightarrow>
          if \<not> truthy (cn_op_ref r) then (None, v)
          else (Some \<lparr>oc_username = (if truthy (cn_username r) then cn_username r else op_username op (account_of r) (the (cn_op_ref r)) None),
              oc_password = (case op_password op (account_of r) (the (cn_op_ref r)) None of Inl e \<Rightarrow> None | Inr p \<Rightarrow> Some p),
              oc_otp = op_otp op (account_of r) (the (cn_op_ref r)) None\<rparr>,
            v\<lparr>va_audit := va_audit v @ [vault_event ''connection.secret_typed'' i
              [(''connection'', JStr i), (''via'', JStr ''op-cred''), (''fields'', JStr ''username,password,otp'')]]\<rparr>))"

definition session_of_connection :: "(string \<Rightarrow> string + string) \<Rightarrow> string \<Rightarrow> vault_state \<Rightarrow> string + string option" where
  "session_of_connection decrypt i v =
     (case connection_row_of i (va_rows v) of None \<Rightarrow> Inr None | Some r \<Rightarrow> opened decrypt (cn_session r))"

definition totp_seed_of :: "(string \<Rightarrow> string + string) \<Rightarrow> string \<Rightarrow> vault_state \<Rightarrow> string + string option" where
  "totp_seed_of decrypt i v =
     (case connection_row_of i (va_rows v) of None \<Rightarrow> Inr None | Some r \<Rightarrow> opened decrypt (cn_totp r))"

section \<open>The operations of the vault\<close>

datatype vault_op =
    Upsert_op connection_input int
  | Remove_op string "string option"
  | Grant_op string string "string option"
  | Revoke_grant string string
  | Verify_op string bool string int
  | Session_op string string "string option" int
  | Clear_op string
  | Creds_op string

fun vault_step :: "(string \<Rightarrow> string) \<Rightarrow> op_program \<Rightarrow> vault_op \<Rightarrow> vault_state \<Rightarrow> vault_state" where
  "vault_step encrypt op (Upsert_op x now) v = snd (upsert_connection encrypt x now v)"
| "vault_step encrypt op (Remove_op i actor) v = snd (remove_connection i actor v)"
| "vault_step encrypt op (Grant_op i b who) v = snd (grant_connection i b who v)"
| "vault_step encrypt op (Revoke_grant i b) v = snd (revoke_connection i b v)"
| "vault_step encrypt op (Verify_op i ok note now) v = record_verify i ok note now v"
| "vault_step encrypt op (Session_op i s hint now) v = store_session encrypt i s hint now v"
| "vault_step encrypt op (Clear_op i) v = clear_session i v"
| "vault_step encrypt op (Creds_op i) v = snd (op_creds_of op i v)"

definition new_vault :: vault_state where
  "new_vault = \<lparr>va_rows = [], va_grants = [], va_audit = []\<rparr>"

section \<open>Where a secret may go\<close>

text \<open>What was entered: the connection, the address that was on the form, and the secret as it was sealed.\<close>

definition entered_by :: "(string \<Rightarrow> string) \<Rightarrow> vault_op \<Rightarrow> (string \<times> string option \<times> string) list" where
  "entered_by encrypt oper =
     (case oper of
        Upsert_op x now \<Rightarrow> if truthy (cx_secret x) then [(cx_id x, cx_base x, encrypt (the (cx_secret x)))] else []
      | _ \<Rightarrow> [])"

definition entered :: "(string \<Rightarrow> string) \<Rightarrow> vault_op list \<Rightarrow> (string \<times> string option \<times> string) list" where
  "entered encrypt ops = concat (map (entered_by encrypt) ops)"

definition entered_row :: "(string \<times> string option \<times> string) list \<Rightarrow> connection_row \<Rightarrow> bool" where
  "entered_row es r = (case cn_secret r of None \<Rightarrow> True | Some s \<Rightarrow> (cn_id r, cn_base r, s) \<in> set es)"

definition vault_inv :: "(string \<times> string option \<times> string) list \<Rightarrow> vault_state \<Rightarrow> bool" where
  "vault_inv es v \<longleftrightarrow> distinct (map cn_id (va_rows v)) \<and> list_all (entered_row es) (va_rows v)
     \<and> list_all (\<lambda>g. fst g \<in> set (map cn_id (va_rows v))) (va_grants v)"

lemma change_connection_ids [simp]:
  "(\<And>r. cn_id (f r) = cn_id r) \<Longrightarrow> map cn_id (change_connection i f rows) = map cn_id rows"
  by (simp add: change_connection_def)

lemma connection_row_of_iff: "connection_row_of i rows = None \<longleftrightarrow> i \<notin> set (map cn_id rows)"
  by (auto simp: connection_row_of_def find_None_iff)

lemma connection_row_of_in: "connection_row_of i rows = Some r \<Longrightarrow> r \<in> set rows \<and> cn_id r = i"
  by (auto simp: connection_row_of_def find_Some_iff)

lemma connection_row_unique:
  "distinct (map cn_id rows) \<Longrightarrow> connection_row_of i rows = Some r \<Longrightarrow> r' \<in> set rows \<Longrightarrow> cn_id r' = i \<Longrightarrow> r' = r"
  using connection_row_of_in [of i rows r] by (metis distinct_map inj_onD)

lemma entered_mono: "entered_row es r \<Longrightarrow> entered_row (es @ es') r"
  by (auto simp: entered_row_def split: option.splits)

lemma vault_inv_changed:
  assumes "vault_inv es v" "va_grants v' = va_grants v" "va_rows v' = change_connection i f (va_rows v)"
    and "\<And>r. cn_id (f r) = cn_id r" "\<And>r. r \<in> set (va_rows v) \<Longrightarrow> cn_id r = i \<Longrightarrow> entered_row es (f r)"
  shows "vault_inv es v'"
proof -
  have ids: "map cn_id (va_rows v') = map cn_id (va_rows v)" using assms(3,4) by simp
  have "list_all (entered_row es) (va_rows v')"
    using assms(1,3,5) by (auto simp: vault_inv_def change_connection_def list_all_iff)
  then show ?thesis using assms(1,2) unfolding vault_inv_def ids by simp
qed

lemma vault_inv_kept:
  assumes "vault_inv es v" "va_grants v' = va_grants v" "va_rows v' = change_connection i f (va_rows v)"
    and "\<And>r. cn_id (f r) = cn_id r \<and> cn_base (f r) = cn_base r \<and> cn_secret (f r) = cn_secret r"
  shows "vault_inv es v'"
proof -
  have "entered_row es (f r) = entered_row es r" for r
    using assms(4) [of r] by (cases "cn_secret r") (simp_all add: entered_row_def)
  with assms show ?thesis by (intro vault_inv_changed [OF assms(1-3)]) (auto simp: vault_inv_def list_all_iff)
qed

lemma vault_inv_upsert:
  assumes inv: "vault_inv es v"
  shows "vault_inv (es @ entered_by encrypt (Upsert_op x now)) (snd (upsert_connection encrypt x now v))"
proof -
  let ?es = "es @ entered_by encrypt (Upsert_op x now)"
  have old: "entered_row ?es r" if "r \<in> set (va_rows v)" for r
    using inv that entered_mono by (auto simp: vault_inv_def list_all_iff)
  have same: "vault_inv ?es v" using inv old by (auto simp: vault_inv_def list_all_iff)
  show ?thesis
  proof (cases "connection_row_of (cx_id x) (va_rows v)")
    case None
    let ?new = "saved_fields encrypt x now (empty_row (cx_id x))"
    have new: "entered_row ?es ?new" "cn_id ?new = cx_id x"
      by (auto simp: entered_row_def saved_fields_def empty_row_def entered_by_def split: option.split)
    with None same have "vault_inv ?es (v\<lparr>va_rows := va_rows v @ [?new], va_audit := as\<rparr>)" for as
      by (auto simp: vault_inv_def list_all_iff connection_row_of_iff)
    with None same show ?thesis by (simp add: upsert_connection_def)
  next
    case (Some r)
    have saved: "entered_row ?es (saved_fields encrypt x now r')"
      if "r' \<in> set (va_rows v)" "cn_id r' = cx_id x" "\<not> (cx_base x \<noteq> cn_base r \<and> \<not> truthy (cx_secret x))" for r'
    proof -
      have "r' = r" using connection_row_unique [OF _ Some that(1,2)] inv by (simp add: vault_inv_def)
      then show ?thesis using that old [OF that(1)]
        by (auto simp: entered_row_def saved_fields_def entered_by_def split: option.splits)
    qed
    have "vault_inv ?es (v\<lparr>va_rows := change_connection (cx_id x) (saved_fields encrypt x now) (va_rows v), va_audit := as\<rparr>)"
      if ok: "\<not> (cx_base x \<noteq> cn_base r \<and> \<not> truthy (cx_secret x))" for as
    proof (rule vault_inv_changed [OF same, where i = "cx_id x" and f = "saved_fields encrypt x now"])
      fix r' assume r': "r' \<in> set (va_rows v)" "cn_id r' = cx_id x"
      have "r' = r" using connection_row_unique [OF _ Some r'] inv by (simp add: vault_inv_def)
      with saved [OF r'] ok show "entered_row ?es (saved_fields encrypt x now r')" by simp
    qed (simp_all add: saved_fields_def)
    with Some same show ?thesis by (auto simp: upsert_connection_def Let_def)
  qed
qed

lemma vault_inv_step:
  assumes inv: "vault_inv es v"
  shows "vault_inv (es @ entered_by encrypt oper) (vault_step encrypt op oper v)"
proof (cases oper)
  case (Upsert_op x now)
  show ?thesis unfolding Upsert_op vault_step.simps by (rule vault_inv_upsert [OF inv])
next
  case (Remove_op i actor)
  with inv show ?thesis
    by (auto simp: remove_connection_def vault_inv_def list_all_iff entered_by_def distinct_map inj_on_def)
next
  case (Grant_op i b who)
  with inv show ?thesis
    by (auto simp: grant_connection_def vault_inv_def list_all_iff entered_by_def connection_row_of_iff)
next
  case (Revoke_grant i b)
  with inv show ?thesis by (auto simp: revoke_connection_def vault_inv_def list_all_iff entered_by_def)
next
  case (Verify_op i ok remark now)
  show ?thesis unfolding Verify_op vault_step.simps entered_by_def vault_op.case append_Nil2
    by (rule vault_inv_kept [OF inv, where i = i and f = "\<lambda>r. r\<lparr>cn_verified := Some now, cn_verify_status := Some (if ok then ''ok'' else ''failed''),
        cn_verify_note := Some (take 500 remark)\<rparr>"])
      (simp_all add: record_verify_def Let_def)
next
  case (Session_op i s hint now)
  show ?thesis unfolding Session_op vault_step.simps entered_by_def vault_op.case append_Nil2
    by (rule vault_inv_kept [OF inv, where i = i and f = "\<lambda>r. r\<lparr>cn_session := Some (encrypt s), cn_session_at := Some now, cn_session_hint := hint, cn_updated := now\<rparr>"])
      (simp_all add: store_session_def)
next
  case (Clear_op i)
  show ?thesis unfolding Clear_op vault_step.simps entered_by_def vault_op.case append_Nil2
    by (rule vault_inv_kept [OF inv, where i = i and f = "\<lambda>r. r\<lparr>cn_session := None, cn_session_at := None, cn_session_hint := None\<rparr>"])
      (simp_all add: clear_session_def)
next
  case (Creds_op i)
  with inv show ?thesis by (auto simp: op_creds_of_def vault_inv_def entered_by_def split: option.split)
qed

lemma vault_inv_run: "vault_inv (entered encrypt ops) (fold (vault_step encrypt op) ops new_vault)"
proof (induction ops rule: rev_induct)
  case Nil
  show ?case by (simp add: vault_inv_def new_vault_def entered_def)
next
  case (snoc oper ops)
  from vault_inv_step [OF snoc, of encrypt oper op] show ?case by (simp add: entered_def)
qed

text \<open>A stored secret is never held with an address it was not entered with. Whatever is saved, removed,
  granted and verified in whatever order, a connection that holds a secret has the base URL that was on
  the form when that secret was typed.\<close>

theorem secret_stays_with_its_address:
  "list_all (\<lambda>r. case cn_secret r of None \<Rightarrow> True | Some s \<Rightarrow> (cn_id r, cn_base r, s) \<in> set (entered encrypt ops))
     (va_rows (fold (vault_step encrypt op) ops new_vault))"
  using vault_inv_run [of encrypt ops op] unfolding vault_inv_def entered_row_def [abs_def] by blast

text \<open>The vault as the egress proxy uses it; a secret that cannot be read is none.\<close>

definition egress_view :: "(string \<Rightarrow> string + string) \<Rightarrow> op_program \<Rightarrow> vault_state \<Rightarrow> egress_vault" where
  "egress_view decrypt op v =
     \<lparr>ev_get = (\<lambda>i. map_option (\<lambda>c. \<lparr>ec_kind = cv_kind c, ec_base = cv_base c, ec_rules = cv_rules c\<rparr>) (get_connection i v)),
      ev_allowed = (\<lambda>i b. connection_allowed i b v),
      ev_secret = (\<lambda>i. case secret_of decrypt op i v of Inr (Some s) \<Rightarrow> Some s | _ \<Rightarrow> None)\<rparr>"

lemma conn_egress_sends:
  "out \<in> set (snd (conn_egress computer_token (Some vault) fetch b i r)) \<Longrightarrow>
   \<exists>conn base key sub. ev_get vault i = Some conn \<and> ec_base conn = Some base \<and> ev_secret vault i = Some key
     \<and> bearer_key out = Some key \<and> og_url out = drop_trailing_slash base @ sub \<and> ev_allowed vault i b"
  using bearer_key_sent
  by (auto simp: conn_egress_def Let_def simp del: append_Cons dest!: truthyE split: if_splits option.splits sum.splits)


section \<open>Grants\<close>

definition grants_pair :: "string \<Rightarrow> string \<Rightarrow> vault_op \<Rightarrow> bool" where
  "grants_pair i b oper = (case oper of Grant_op j c who \<Rightarrow> j = i \<and> c = b | _ \<Rightarrow> False)"

lemma not_allowed_step:
  "\<not> grants_pair i b oper \<Longrightarrow> \<not> connection_allowed i b v \<Longrightarrow> \<not> connection_allowed i b (vault_step encrypt op oper v)"
  by (cases oper)
    (auto simp: connection_allowed_def grants_pair_def upsert_connection_def remove_connection_def grant_connection_def
      revoke_connection_def record_verify_def store_session_def clear_session_def op_creds_of_def Let_def split: option.split)

lemma not_allowed_run:
  "list_all (\<lambda>oper. \<not> grants_pair i b oper) later \<Longrightarrow> \<not> connection_allowed i b v \<Longrightarrow>
   \<not> connection_allowed i b (fold (vault_step encrypt op) later v)"
  by (induction later arbitrary: v) (simp_all add: not_allowed_step)

text \<open>A grant that was taken back stays taken back. After a grant is revoked, or its connection removed, the
  Bot may not use the connection until an administrator grants it anew, also when a connection is saved
  again under the same name.\<close>

theorem no_use_after_revocation:
  "let v = fold (vault_step encrypt op) ops new_vault in
   if list_all (\<lambda>oper. \<not> grants_pair i b oper) later
   then \<not> connection_allowed i b (fold (vault_step encrypt op) later (snd (revoke_connection i b v)))
      \<and> \<not> connection_allowed i b (fold (vault_step encrypt op) later (snd (remove_connection i actor v)))
   else True"
proof -
  let ?v = "fold (vault_step encrypt op) ops new_vault"
  have "\<not> connection_allowed i b (snd (revoke_connection i b ?v))"
    by (simp add: revoke_connection_def connection_allowed_def)
  moreover have "\<not> connection_allowed i b (snd (remove_connection i actor ?v))"
  proof (cases "connection_row_of i (va_rows ?v)")
    case None
    have "(i, b) \<notin> set (va_grants ?v)"
      using vault_inv_run [of encrypt ops op] None unfolding vault_inv_def list_all_iff connection_row_of_iff
      by (metis fst_conv)
    with None show ?thesis by (simp add: remove_connection_def connection_allowed_def)
  qed (simp add: remove_connection_def connection_allowed_def)
  ultimately show ?thesis by (simp add: not_allowed_run Let_def)
qed

section \<open>Saving without the rules\<close>

definition form :: "string list option option \<Rightarrow> string option \<Rightarrow> connection_input" where
  "form rules secret =
     \<lparr>cx_id = ''dns'', cx_name = ''Dns'', cx_kind = ''api'', cx_service = ''dns'', cx_base = Some ''https://dns.test'',
      cx_login = None, cx_username = None, cx_op_ref = None, cx_op_account = None, cx_secret = secret, cx_totp = None,
      cx_rules = rules, cx_notes = None, cx_actor = None\<rparr>"

definition saved_rules :: "vault_op list \<Rightarrow> egress_rule list option option" where
  "saved_rules ops =
     map_option (\<lambda>r. parse_egress_rules (case cn_rules r of None \<Rightarrow> [] | Some ls \<Rightarrow> ls))
       (connection_row_of ''dns'' (va_rows (fold (vault_step id (\<lambda>a t. Inl ''none'')) ops new_vault)))"

text \<open>A save that says nothing of the rules removes them. The route passes an absent list on as absent, the
  store writes it as none, and a connection that let one path through then lets every request through.\<close>

theorem silent_save_removes_rules:
  "(case saved_rules [Upsert_op (form (Some (Some [''GET /zones''])) (Some ''s'')) 1] of
      Some rules \<Rightarrow> \<not> request_allowed rules ''DELETE'' ''/zones/1'' | None \<Rightarrow> False)
   \<and> (case saved_rules [Upsert_op (form (Some (Some [''GET /zones''])) (Some ''s'')) 1, Upsert_op (form None None) 2] of
      Some rules \<Rightarrow> request_allowed rules ''DELETE'' ''/zones/1'' | None \<Rightarrow> False)"
  by code_simp

end
