(* ===== verification/Roles.thy ===== *)
theory Roles
  imports Prelude
begin

text \<open>
  Who may do what: \<^verbatim>\<open>server/src/auth/roles.ts\<close> and the guards of \<^verbatim>\<open>server/src/auth/guards.ts\<close>.  The tables
  are lists of rows; what the session library answers is an argument.
\<close>

section \<open>Roles\<close>

datatype role = Admin_role | User_role

type_synonym role_rows = "(string \<times> role) list"

definition is_configured_admin :: "string \<Rightarrow> string list \<Rightarrow> bool" where
  "is_configured_admin email initial = list_ex (\<lambda>a. js_lower (js_trim a) = js_lower (js_trim email)) initial"

definition role_for_email :: "string \<Rightarrow> string list \<Rightarrow> role" where
  "role_for_email email initial = (if is_configured_admin email initial then Admin_role else User_role)"

definition set_role :: "string \<Rightarrow> role \<Rightarrow> role_rows \<Rightarrow> role_rows" where
  "set_role u r rows =
     (let kept = filter (\<lambda>(v, s). \<not> (v = u \<and> s \<noteq> r)) rows in
      if (u, r) \<in> set kept then kept else kept @ [(u, r)])"

definition seed_role :: "string \<Rightarrow> string \<Rightarrow> string list \<Rightarrow> role_rows \<Rightarrow> role_rows" where
  "seed_role u email initial rows = set_role u (role_for_email email initial) rows"

definition apply_configured_admin :: "string list \<Rightarrow> (string \<Rightarrow> string option) \<Rightarrow> string \<Rightarrow> role_rows \<Rightarrow> bool \<times> role_rows" where
  "apply_configured_admin initial email_of u rows =
     (if initial = [] then (False, rows)
      else case email_of u of
          None \<Rightarrow> (False, rows)
        | Some email \<Rightarrow>
            if \<not> is_configured_admin email initial then (False, rows)
            else ((u, Admin_role) \<notin> set rows, set_role u Admin_role rows))"

section \<open>Guards\<close>

definition roles_for_user :: "string \<Rightarrow> role_rows \<Rightarrow> role list" where
  "roles_for_user u rows = map snd (filter (\<lambda>(v, s). v = u) rows)"

record session_user =
  su_id :: string
  su_email :: string
  su_name :: "string option"
  su_image :: "string option"

record actor =
  ac_user :: session_user
  ac_role :: role

definition require_user :: "session_user option \<Rightarrow> role_rows \<Rightarrow> (int \<times> string) + actor" where
  "require_user session rows =
     (case session of
        None \<Rightarrow> Inl (401, ''Authentication required.'')
      | Some u \<Rightarrow>
          (let roles = roles_for_user (su_id u) rows in
           if Admin_role \<in> set roles then Inr \<lparr>ac_user = u, ac_role = Admin_role\<rparr>
           else if User_role \<in> set roles then Inr \<lparr>ac_user = u, ac_role = User_role\<rparr>
           else Inl (403, ''Authorization required.'')))"

definition require_admin :: "actor \<Rightarrow> (int \<times> string) option" where
  "require_admin a = (if ac_role a \<noteq> Admin_role then Some (403, ''Administrator access required.'') else None)"

section \<open>One role each\<close>

datatype role_op =
    Seeded string string
  | Set_by_admin string role
  | Signed_in string

fun role_step :: "string list \<Rightarrow> (string \<Rightarrow> string option) \<Rightarrow> role_op \<Rightarrow> role_rows \<Rightarrow> role_rows" where
  "role_step initial email_of (Seeded u email) rows = seed_role u email initial rows"
| "role_step initial email_of (Set_by_admin u r) rows = set_role u r rows"
| "role_step initial email_of (Signed_in u) rows = snd (apply_configured_admin initial email_of u rows)"

definition one_role :: "role_rows \<Rightarrow> bool" where
  "one_role rows \<longleftrightarrow> distinct (map fst rows)"

lemma set_role_one: "one_role rows \<Longrightarrow> one_role (set_role u r rows)"
proof -
  assume one: "one_role rows"
  let ?kept = "filter (\<lambda>(v, s). \<not> (v = u \<and> s \<noteq> r)) rows"
  have kept: "distinct (map fst ?kept)" using one by (simp add: one_role_def distinct_map_filter)
  have "u \<notin> fst ` set ?kept" if "(u, r) \<notin> set ?kept" using that by auto
  with kept show ?thesis by (auto simp: one_role_def set_role_def Let_def)
qed

lemma role_step_one: "one_role rows \<Longrightarrow> one_role (role_step initial email_of op rows)"
  by (cases op) (auto simp: seed_role_def set_role_one apply_configured_admin_def split: option.split)

lemma one_role_run: "one_role (fold (role_step initial email_of) ops [])"
  by (induction ops rule: rev_induct) (simp_all add: role_step_one one_role_def [of "[]"])

lemma one_role_length: "one_role rows \<Longrightarrow> length (roles_for_user u rows) \<le> 1"
  unfolding one_role_def roles_for_user_def
proof (induction rows)
  case (Cons p rows)
  then show ?case by (cases p) (auto simp: image_iff filter_empty_conv split: prod.splits)
qed simp

lemma set_role_here: "one_role rows \<Longrightarrow> roles_for_user u (set_role u r rows) = [r]"
proof -
  assume one: "one_role rows"
  have "(u, r) \<in> set (set_role u r rows)" by (auto simp: set_role_def Let_def)
  then have "r \<in> set (roles_for_user u (set_role u r rows))" by (force simp: roles_for_user_def)
  moreover have "length (roles_for_user u (set_role u r rows)) \<le> 1"
    by (rule one_role_length [OF set_role_one [OF one]])
  ultimately show ?thesis by (cases "roles_for_user u (set_role u r rows)") auto
qed

lemma set_role_elsewhere: "v \<noteq> u \<Longrightarrow> roles_for_user v (set_role u r rows) = roles_for_user v rows"
  by (induction rows) (auto simp: roles_for_user_def set_role_def Let_def split: if_splits)

text \<open>The configured administrator always gets back in, and nobody else is changed. Whatever roles were
  given and taken, a sign-in gives somebody named by the configuration exactly the role of administrator
  and tells whether it granted it; of everybody else, the one who signs in included, the roles stay as
  they are. Nobody ever has two roles.\<close>

theorem sign_in_keeps_floor:
  "let rows = fold (role_step initial email_of) ops []; (granted, rows') = apply_configured_admin initial email_of u rows;
       named = (case email_of u of None \<Rightarrow> False | Some email \<Rightarrow> is_configured_admin email initial) in
     (if named then roles_for_user u rows' = [Admin_role] \<and> (granted \<longleftrightarrow> roles_for_user u rows \<noteq> [Admin_role])
      else rows' = rows \<and> \<not> granted)
     \<and> (if v \<noteq> u then roles_for_user v rows' = roles_for_user v rows else True)
     \<and> distinct (map fst rows')"
proof -
  let ?rows = "fold (role_step initial email_of) ops []"
  let ?named = "case email_of u of None \<Rightarrow> False | Some email \<Rightarrow> is_configured_admin email initial"
  have one: "one_role ?rows" by (rule one_role_run)
  have member: "(u, Admin_role) \<in> set ?rows \<longleftrightarrow> Admin_role \<in> set (roles_for_user u ?rows)"
    by (force simp: roles_for_user_def)
  have had: "(u, Admin_role) \<in> set ?rows \<longleftrightarrow> roles_for_user u ?rows = [Admin_role]"
    using one_role_length [OF one, of u] unfolding member by (cases "roles_for_user u ?rows") auto
  show ?thesis
  proof (cases ?named)
    case True
    then obtain email where e: "email_of u = Some email" "is_configured_admin email initial"
      by (auto split: option.splits)
    then have "initial \<noteq> []" by (auto simp: is_configured_admin_def)
    with e had set_role_here [OF one] set_role_elsewhere [of v u] set_role_one [OF one] show ?thesis
      by (simp add: apply_configured_admin_def one_role_def)
  next
    case False
    then have "apply_configured_admin initial email_of u ?rows = (False, ?rows)"
      by (simp add: apply_configured_admin_def split: option.splits)
    with False one show ?thesis by (simp add: one_role_def)
  qed
qed

end
