(* ===== verification/Catalogue.thy ===== *)
theory Catalogue
  imports Prelude Target
begin

text \<open>
  The catalogue of servers a deployment will talk to, \<^verbatim>\<open>server/src/plugins/catalogue.ts\<close>, with the choice
  of protocol of \<^verbatim>\<open>transport.ts\<close>, and the two names a tool has, from \<^verbatim>\<open>store.ts\<close>.  The pattern of a
  vendor with a host for each customer is a regular expression, \<open>test\<close>; the URL parser is \<open>parse_url\<close>.
\<close>

section \<open>Entries\<close>

datatype catalogue_auth =
    No_auth
  | Deployment_bearer
  | User_oauth string string string "string list"

datatype transport_kind = Via_mcp | Via_drive_rest

record catalogue_entry =
  ce_key :: string
  ce_title :: string
  ce_vendor :: string
  ce_summary :: string
  ce_host :: "string option"
  ce_pattern :: "string option"
  ce_path :: string
  ce_auth :: catalogue_auth
  ce_writes :: "string list"
  ce_transport :: "transport_kind option"
  ce_docs :: string

definition catalogue :: "catalogue_entry list" where
  "catalogue =
     [\<lparr>ce_key = ''google-drive'', ce_title = ''Google Drive'', ce_vendor = ''Google'',
       ce_summary = ''Files in the Drive of whoever is asking.'',
       ce_host = Some ''https://www.googleapis.com'', ce_pattern = None, ce_path = ''/drive/v3'',
       ce_auth = User_oauth ''https://accounts.google.com/o/oauth2/v2/auth'' ''https://oauth2.googleapis.com/token''
         ''https://oauth2.googleapis.com/revoke'' [''https://www.googleapis.com/auth/drive.readonly''],
       ce_writes = [''create_file'', ''copy_file''], ce_transport = Some Via_drive_rest,
       ce_docs = ''https://developers.google.com/workspace/guides/configure-mcp-servers''\<rparr>]"

definition catalogue_entry_of :: "string \<Rightarrow> catalogue_entry option" where
  "catalogue_entry_of key = find (\<lambda>e. ce_key e = key) catalogue"

definition transport_for :: "catalogue_entry option \<Rightarrow> transport_kind" where
  "transport_for entry =
     (case entry of None \<Rightarrow> Via_mcp | Some e \<Rightarrow> (case ce_transport e of None \<Rightarrow> Via_mcp | Some k \<Rightarrow> k))"

text \<open>\<^verbatim>\<open>listNeedsCredential\<close> of the two protocols.\<close>

definition list_needs_credential :: "transport_kind \<Rightarrow> bool" where
  "list_needs_credential k = (k = Via_mcp)"

section \<open>Where a server is\<close>

definition host_admissible :: "(string \<Rightarrow> string \<Rightarrow> bool) \<Rightarrow> catalogue_entry \<Rightarrow> string \<Rightarrow> bool" where
  "host_admissible test e host =
     (case ce_host e of
        Some h \<Rightarrow> h = host
      | None \<Rightarrow> (case ce_pattern e of None \<Rightarrow> False | Some p \<Rightarrow> test p host))"

definition resolve_server_url ::
  "(string \<Rightarrow> string \<Rightarrow> bool) \<Rightarrow> string \<Rightarrow> string option \<Rightarrow> (string \<times> catalogue_entry) option" where
  "resolve_server_url test key instance_host =
     (case catalogue_entry_of key of
        None \<Rightarrow> None
      | Some e \<Rightarrow>
          (case (case ce_host e of Some h \<Rightarrow> Some h | None \<Rightarrow> instance_host) of
             None \<Rightarrow> None
           | Some host \<Rightarrow>
               if host_admissible test e host
               then Some (host @ (if ce_path e = ''/'' then [] else ce_path e), e) else None))"

definition classify_tool :: "catalogue_entry option \<Rightarrow> string \<Rightarrow> bool \<Rightarrow> bool" where
  "classify_tool entry tool advertised =
     (case entry of
        None \<Rightarrow> True
      | Some e \<Rightarrow> if \<not> advertised then True else tool \<in> set (ce_writes e))"

text \<open>The answer says whether the tool counts as a write.\<close>

definition ends_with :: "string \<Rightarrow> string \<Rightarrow> bool" where
  "ends_with s t = suffix t s"

definition custom_url_refusal :: "url_parser \<Rightarrow> string \<Rightarrow> string option" where
  "custom_url_refusal parse_url raw =
     (case parse_url raw of
        None \<Rightarrow> Some ''That is not a URL.''
      | Some u \<Rightarrow>
          if url_protocol u \<noteq> ''https:'' then Some ''An MCP server must be reached over https.''
          else let host = js_lower (url_hostname u) in
            if CHR '':'' \<in> set host \<or> (host \<noteq> [] \<and> set host \<subseteq> set ''0123456789.'')
            then Some ''Give a hostname rather than an IP address.''
            else if host = ''localhost'' \<or> ends_with host ''.localhost''
            then Some ''That address is local to the deployment.''
            else if ends_with host ''.internal'' \<or> ends_with host ''.local'' \<or> ends_with host ''.localdomain''
                \<or> CHR ''.'' \<notin> set host
            then Some ''That address is not reachable from outside this network.''
            else None)"

section \<open>The two names of a tool\<close>

definition tool_name_for :: "string \<Rightarrow> string" where
  "tool_name_for ref = ''mcp__'' @ replace_first ''/'' ''__'' ref"

fun text_index :: "string \<Rightarrow> string \<Rightarrow> nat option" where
  "text_index n [] = (if n = [] then Some 0 else None)"
| "text_index n (c # h) = (if prefix n (c # h) then Some 0 else map_option Suc (text_index n h))"

definition ref_from_tool_name :: "string \<Rightarrow> string option" where
  "ref_from_tool_name t =
     (if \<not> prefix ''mcp__'' t then None
      else let rest = drop 5 t in
        case text_index ''__'' rest of
          None \<Rightarrow> None
        | Some n \<Rightarrow> if n = 0 then None else Some (take n rest @ ''/'' @ drop (n + 2) rest))"

text \<open>The pattern of a custom server's name: \<^verbatim>\<open>^[a-z0-9][a-z0-9-]{0,38}[a-z0-9]$\<close>.\<close>

definition slug_char :: "char \<Rightarrow> bool" where
  "slug_char c \<longleftrightarrow> (let n = char_code c in (97 \<le> n \<and> n \<le> 122) \<or> (48 \<le> n \<and> n \<le> 57))"

definition server_slug :: "string \<Rightarrow> bool" where
  "server_slug s \<longleftrightarrow>
     2 \<le> length s \<and> length s \<le> 40 \<and> slug_char (hd s) \<and> slug_char (last s)
     \<and> list_all (\<lambda>c. slug_char c \<or> c = CHR ''-'') s"

section \<open>Facts\<close>

lemma catalogue_entry_key: "catalogue_entry_of key = Some e \<Longrightarrow> e \<in> set catalogue \<and> ce_key e = key"
  unfolding catalogue_entry_of_def by (auto simp: find_Some_iff)

text \<open>A name a server can have: no character of it is a slash or an underscore.\<close>

definition plain_server :: "string \<Rightarrow> bool" where
  "plain_server s \<longleftrightarrow> s \<noteq> [] \<and> list_all (\<lambda>c. slug_char c \<or> c = CHR ''-'') s"

lemma plain_server_slug: "server_slug s \<Longrightarrow> plain_server s"
  unfolding server_slug_def plain_server_def by auto

lemma plain_server_catalogue: "e \<in> set catalogue \<Longrightarrow> plain_server (ce_key e)"
  by (simp add: catalogue_def plain_server_def slug_char_def char_code_def)

lemma replace_slash: "CHR ''/'' \<notin> set s \<Longrightarrow> replace_first ''/'' new (s @ ''/'' @ t) = s @ new @ t"
  by (induction s) simp_all

lemma text_index_plain:
  "CHR ''_'' \<notin> set s \<Longrightarrow> text_index ''__'' (s @ ''__'' @ t) = Some (length s)"
  by (induction s) simp_all

lemma plain_server_chars:
  assumes "plain_server s"
  shows "CHR ''/'' \<notin> set s" "CHR ''_'' \<notin> set s" "s \<noteq> []"
proof -
  have "\<not> slug_char (CHR ''/'')" "\<not> slug_char (CHR ''_'')" by (simp_all add: slug_char_def char_code_def)
  with assms show "CHR ''/'' \<notin> set s" "CHR ''_'' \<notin> set s" "s \<noteq> []"
    by (auto simp: plain_server_def list_all_iff)
qed

text \<open>The two names of a tool never drift apart. The name a model is offered is turned back into the very
  ref it was made of, for every server a deployment can have and whatever the tool is called, slashes and
  underscores included; so two refs are never offered under one name.\<close>

theorem tool_names_roundtrip:
  assumes "plain_server server"
  shows "ref_from_tool_name (tool_name_for (server @ ''/'' @ tool)) = Some (server @ ''/'' @ tool)"
proof -
  have name: "tool_name_for (server @ ''/'' @ tool) = ''mcp__'' @ server @ ''__'' @ tool"
    using plain_server_chars [OF assms] by (simp add: tool_name_for_def replace_slash [simplified])
  have "text_index ''__'' (server @ ''__'' @ tool) = Some (length server)"
    using plain_server_chars [OF assms] by (intro text_index_plain)
  then show ?thesis
    using plain_server_chars [OF assms] unfolding name ref_from_tool_name_def by simp
qed

theorem tool_names_roundtrip_witness:
  "ref_from_tool_name (tool_name_for ''google-drive/read__x/y'') = Some ''google-drive/read__x/y''"
  using tool_names_roundtrip [of "''google-drive''" "''read__x/y''"]
  by (simp add: plain_server_def slug_char_def char_code_def)

text \<open>The local machine passes the check of a custom URL when its name is written with a final dot, which
  names the same host.\<close>

theorem custom_url_accepts_final_dot:
  "custom_url_refusal (\<lambda>raw. Some \<lparr>url_protocol = ''https:'', url_hostname = ''localhost.'', url_host = ''localhost.'',
     url_href = ''https://localhost./''\<rparr>) ''https://localhost./'' = None
   \<and> custom_url_refusal (\<lambda>raw. Some \<lparr>url_protocol = ''https:'', url_hostname = ''localhost'', url_host = ''localhost'',
     url_href = ''https://localhost/''\<rparr>) ''https://localhost/'' \<noteq> None"
  by code_simp

end
