(* ===== verification/Credentials.thy ===== *)
theory Credentials
  imports Codec Audit_Trail
begin

text \<open>
  Stored credentials, \<^verbatim>\<open>server/src/credentials.ts\<close>: the envelope a secret is encrypted into, the table, and
  the service that creates, rotates and revokes credentials and writes the audit rows.

  AES-GCM is two arguments: \<open>seal\<close> from key, initialisation vector and plain bytes to cipher bytes, and
  \<open>open_text\<close> from key, vector and cipher bytes to the text of the plain bytes, \<open>None\<close> where it throws.
  \<^verbatim>\<open>JSON.parse\<close> is \<open>parse_json\<close>.  The vector, a new row's id and the clock are arguments of each call.
\<close>

section \<open>The envelope\<close>

text \<open>Plain base64: the other alphabet, padded to a multiple of four.\<close>

definition b64_std_char :: "char \<Rightarrow> char" where
  "b64_std_char c = (if c = CHR ''-'' then CHR ''+'' else if c = CHR ''_'' then CHR ''/'' else c)"

definition b64 :: "nat list \<Rightarrow> string" where
  "b64 bs = (let s = map b64_std_char (b64url bs) in s @ replicate ((4 - length s mod 4) mod 4) (CHR ''=''))"

definition key_ok :: "nat list \<Rightarrow> bool" where
  "key_ok key \<longleftrightarrow> length key \<in> {16, 24, 32}"

definition aes_key :: "string \<Rightarrow> nat list option" where
  "aes_key encoded = (let key = b64url_decode encoded in if key_ok key then Some key else None)"

definition envelope :: "nat list \<Rightarrow> nat list \<Rightarrow> jsv" where
  "envelope iv cipher = JObj [(''version'', JNum 1), (''iv'', JStr (b64 iv)), (''ciphertext'', JStr (b64 cipher))]"

definition encrypt_secret :: "(nat list \<Rightarrow> nat list \<Rightarrow> nat list \<Rightarrow> nat list) \<Rightarrow> nat list \<Rightarrow> string \<Rightarrow> string \<Rightarrow> string option" where
  "encrypt_secret seal iv encoded plaintext =
     (case aes_key encoded of
        None \<Rightarrow> None
      | Some key \<Rightarrow> Some (js_stringify (envelope iv (seal key iv (utf8 plaintext)))))"

definition parse_envelope :: "(string \<Rightarrow> string + jsv) \<Rightarrow> string \<Rightarrow> (string \<times> string) option" where
  "parse_envelope parse_json v =
     (case parse_json v of
        Inl e \<Rightarrow> None
      | Inr j \<Rightarrow>
          (case (js_field j ''version'', js_string_field j ''iv'', js_string_field j ''ciphertext'') of
             (Some (JNum n), Some iv, Some c) \<Rightarrow> if n = 1 then Some (iv, c) else None
           | _ \<Rightarrow> None))"

definition decrypt_secret ::
  "(nat list \<Rightarrow> nat list \<Rightarrow> nat list \<Rightarrow> string option) \<Rightarrow> (string \<Rightarrow> string + jsv) \<Rightarrow> string \<Rightarrow> string \<Rightarrow> string + string" where
  "decrypt_secret open_text parse_json encoded v =
     (case parse_envelope parse_json v of
        None \<Rightarrow> Inl ''Credential envelope is invalid''
      | Some (iv, c) \<Rightarrow>
          (case aes_key encoded of
             None \<Rightarrow> Inl ''DataError''
           | Some key \<Rightarrow>
               (case open_text key (b64url_decode iv) (b64url_decode c) of
                  None \<Rightarrow> Inl ''OperationError''
                | Some t \<Rightarrow> Inr t)))"

section \<open>The table\<close>

record credential_row =
  cr_id :: string
  cr_kind :: string
  cr_provider :: string
  cr_key :: string
  cr_metadata :: jsv
  cr_value :: string
  cr_created :: int
  cr_revoked :: "int option"

record credential_status =
  cs_id :: string
  cs_kind :: string
  cs_provider :: string
  cs_key :: string
  cs_metadata :: jsv
  cs_revoked :: "int option"

record credential_world =
  cw_rows :: "credential_row list"
  cw_audit :: "audit_input list"

definition row_with :: "string \<Rightarrow> credential_row list \<Rightarrow> credential_row option" where
  "row_with i rows = find (\<lambda>r. cr_id r = i) rows"

definition store_create :: "credential_row \<Rightarrow> credential_row list \<Rightarrow> (string + credential_row) \<times> credential_row list" where
  "store_create r rows =
     (if row_with (cr_id r) rows \<noteq> None then (Inl ''duplicate key'', rows) else (Inr r, rows @ [r]))"

definition store_revoke :: "string \<Rightarrow> int \<Rightarrow> credential_row list \<Rightarrow> (string + int) \<times> credential_row list" where
  "store_revoke i now rows =
     (if row_with i rows = None then (Inl ''Credential was not found'', rows)
      else (Inr now, map (\<lambda>r. if cr_id r = i then r\<lparr>cr_revoked := Some now\<rparr> else r) rows))"

definition read_secret :: "string \<Rightarrow> credential_row list \<Rightarrow> (string \<times> int option) option" where
  "read_secret i rows = map_option (\<lambda>r. (cr_value r, cr_revoked r)) (row_with i rows)"

text \<open>\<open>(createdAt, id)\<close>: the newest row, and of two of one moment the one with the greater id.\<close>

definition newer :: "(string \<Rightarrow> nat list) \<Rightarrow> credential_row \<Rightarrow> credential_row \<Rightarrow> bool" where
  "newer codes a b \<longleftrightarrow> cr_created a > cr_created b \<or> (cr_created a = cr_created b \<and> lexordp (<) (codes (cr_id b)) (codes (cr_id a)))"

fun newest :: "credential_row list \<Rightarrow> credential_row option" where
  "newest [] = None"
| "newest (r # rs) =
     (case newest rs of
        None \<Rightarrow> Some r
      | Some s \<Rightarrow> Some (if newer (map char_code) s r then s else r))"

definition read_model_secret :: "string \<Rightarrow> string \<Rightarrow> credential_row list \<Rightarrow> string option" where
  "read_model_secret provider key rows =
     map_option cr_value
       (newest (filter (\<lambda>r. cr_kind r = ''model'' \<and> cr_provider r = provider \<and> cr_key r = key \<and> cr_revoked r = None) rows))"

definition status_of :: "credential_row \<Rightarrow> credential_status" where
  "status_of r = \<lparr>cs_id = cr_id r, cs_kind = cr_kind r, cs_provider = cr_provider r, cs_key = cr_key r,
     cs_metadata = cr_metadata r, cs_revoked = cr_revoked r\<rparr>"

definition list_credentials :: "credential_row list \<Rightarrow> credential_status list" where
  "list_credentials rows = map status_of (sort_key cr_created rows)"

section \<open>Use and administration\<close>

definition decrypt_credential_for_use ::
  "(string \<Rightarrow> string + string) \<Rightarrow> string \<Rightarrow> credential_row list \<Rightarrow> string + string" where
  "decrypt_credential_for_use decrypt i rows =
     (case read_secret i rows of
        None \<Rightarrow> Inl ''Credential was not found''
      | Some (v, revoked) \<Rightarrow> if revoked \<noteq> None then Inl ''Credential is revoked'' else decrypt v)"

definition resolve_model_api_key ::
  "(string \<Rightarrow> string + string) \<Rightarrow> string \<Rightarrow> string \<Rightarrow> string option \<Rightarrow> credential_row list \<Rightarrow> string + string option" where
  "resolve_model_api_key decrypt provider key env_key rows =
     (case read_model_secret provider key rows of
        Some v \<Rightarrow> (case decrypt v of Inl e \<Rightarrow> Inl e | Inr t \<Rightarrow> Inr (Some t))
      | None \<Rightarrow> Inr (if truthy (map_option js_trim env_key) then map_option js_trim env_key else None))"

record credential_input =
  ci_kind :: string
  ci_provider :: string
  ci_key :: string
  ci_metadata :: jsv
  ci_plaintext :: string
  ci_actor :: "string option"

text \<open>\<open>encrypt\<close> is \<open>encrypt_secret\<close> under the deployment's key, with the vector this call draws.\<close>

definition persist_credential ::
  "(string \<Rightarrow> string option) \<Rightarrow> credential_input \<Rightarrow> string \<Rightarrow> int \<Rightarrow> credential_row list
     \<Rightarrow> (string + credential_status) \<times> credential_row list" where
  "persist_credential encrypt i fresh now rows =
     (case encrypt (ci_plaintext i) of
        None \<Rightarrow> (Inl ''DataError'', rows)
      | Some v \<Rightarrow>
          (case store_create \<lparr>cr_id = fresh, cr_kind = ci_kind i, cr_provider = ci_provider i, cr_key = ci_key i,
               cr_metadata = ci_metadata i, cr_value = v, cr_created = now, cr_revoked = None\<rparr> rows of
             (Inl e, rows') \<Rightarrow> (Inl e, rows')
           | (Inr r, rows') \<Rightarrow> (Inr (status_of r), rows')))"

definition named_fields :: "credential_input \<Rightarrow> (string \<times> jsv) list" where
  "named_fields i = [(''kind'', JStr (ci_kind i)), (''provider'', JStr (ci_provider i)), (''keyId'', JStr (ci_key i))]"

definition credential_event :: "string \<Rightarrow> string \<Rightarrow> string option \<Rightarrow> (string \<times> jsv) list \<Rightarrow> audit_input" where
  "credential_event kind i actor payload = record_audit_event
     \<lparr>ai_type = kind, ai_target_type = ''credential'', ai_target_id = Some i, ai_actor = actor, ai_payload = JObj payload\<rparr>"

definition create_credential ::
  "(string \<Rightarrow> string option) \<Rightarrow> credential_input \<Rightarrow> string \<Rightarrow> int \<Rightarrow> credential_world
     \<Rightarrow> (string + credential_status) \<times> credential_world" where
  "create_credential encrypt i fresh now w =
     (case persist_credential encrypt i fresh now (cw_rows w) of
        (Inl e, rows) \<Rightarrow> (Inl e, w\<lparr>cw_rows := rows\<rparr>)
      | (Inr c, rows) \<Rightarrow>
          (Inr c, w\<lparr>cw_rows := rows,
             cw_audit := cw_audit w @ [credential_event ''credential.created'' (cs_id c) (ci_actor i) (named_fields i)]\<rparr>))"

definition rotate_credential ::
  "(string \<Rightarrow> string option) \<Rightarrow> credential_input \<Rightarrow> string \<Rightarrow> string \<Rightarrow> int \<Rightarrow> credential_world
     \<Rightarrow> (string + credential_status) \<times> credential_world" where
  "rotate_credential encrypt i previous fresh now w =
     (case persist_credential encrypt i fresh now (cw_rows w) of
        (Inl e, rows) \<Rightarrow> (Inl e, w\<lparr>cw_rows := rows\<rparr>)
      | (Inr c, rows) \<Rightarrow>
          (case store_revoke previous now rows of
             (Inl e, rows') \<Rightarrow> (Inl e, w\<lparr>cw_rows := rows'\<rparr>)
           | (Inr at, rows') \<Rightarrow>
               (Inr c, w\<lparr>cw_rows := rows',
                  cw_audit := cw_audit w @ [credential_event ''credential.rotated'' (cs_id c) (ci_actor i)
                    ((''previousCredentialId'', JStr previous) # named_fields i)]\<rparr>)))"

definition revoke_credential :: "string \<Rightarrow> string option \<Rightarrow> int \<Rightarrow> credential_world \<Rightarrow> (string + int) \<times> credential_world" where
  "revoke_credential i actor now w =
     (case store_revoke i now (cw_rows w) of
        (Inl e, rows) \<Rightarrow> (Inl e, w\<lparr>cw_rows := rows\<rparr>)
      | (Inr at, rows) \<Rightarrow>
          (Inr at, w\<lparr>cw_rows := rows, cw_audit := cw_audit w @ [credential_event ''credential.revoked'' i actor []]\<rparr>))"

datatype credential_op =
    Create_op credential_input string int
  | Rotate_op credential_input string string int
  | Revoke_op string "string option" int

fun credential_step :: "(string \<Rightarrow> string option) \<Rightarrow> credential_op \<Rightarrow> credential_world \<Rightarrow> credential_world" where
  "credential_step encrypt (Create_op i fresh now) w = snd (create_credential encrypt i fresh now w)"
| "credential_step encrypt (Rotate_op i previous fresh now) w = snd (rotate_credential encrypt i previous fresh now w)"
| "credential_step encrypt (Revoke_op i actor now) w = snd (revoke_credential i actor now w)"

section \<open>The envelope gives the secret back\<close>

lemma b64_std_digit: "b64_digit (b64_std_char c) = b64_digit c"
  by (simp add: b64_std_char_def b64_digit_def char_code_def Let_def)

lemma b64_decode [simp]: "b64url_decode (b64 bs) = b64url_decode (b64url bs)"
proof -
  have std: "List.map_filter b64_digit (map b64_std_char s) = List.map_filter b64_digit s" for s
    by (induction s) (simp_all add: map_filter_Cons map_filter_Nil b64_std_digit split: option.split)
  have pad: "List.map_filter b64_digit (replicate n (CHR ''='')) = []" for n
    by (induction n) (simp_all add: map_filter_Cons map_filter_Nil b64_digit_def char_code_def)
  have append: "List.map_filter b64_digit (s @ t) = List.map_filter b64_digit s @ List.map_filter b64_digit t" for s t
    by (simp add: List.map_filter_def)
  show ?thesis by (simp add: b64_def b64url_decode_def Let_def append std pad)
qed

definition all_bytes :: "nat list \<Rightarrow> bool" where
  "all_bytes bs = list_all (\<lambda>b. b < 256) bs"

lemma b64_back: "all_bytes bs \<Longrightarrow> b64url_decode (b64 bs) = bs"
  by (simp add: all_bytes_def list_all_iff b64url_roundtrip)

text \<open>What is encrypted is read back. Under one key, with any vector, the envelope written for a secret
  decrypts to that secret, provided the cipher opens what it sealed and the envelope parses as it was
  written.\<close>

theorem secret_roundtrip:
  assumes "aes_key encoded = Some key"
    and "open_text key iv (seal key iv (utf8 plaintext)) = Some plaintext"
    and "parse_json (js_stringify (envelope iv (seal key iv (utf8 plaintext)))) = Inr (envelope iv (seal key iv (utf8 plaintext)))"
    and "all_bytes iv" and "all_bytes (seal key iv (utf8 plaintext))"
  shows "decrypt_secret open_text parse_json encoded (the (encrypt_secret seal iv encoded plaintext)) = Inr plaintext"
proof -
  have "parse_envelope parse_json (the (encrypt_secret seal iv encoded plaintext)) = Some (b64 iv, b64 (seal key iv (utf8 plaintext)))"
    using assms(1,3) by (simp add: parse_envelope_def encrypt_secret_def envelope_def js_field_def js_string_field_def
        del: js_stringify.simps)
  then show ?thesis using assms b64_back by (simp add: decrypt_secret_def del: b64_decode)
qed

theorem secret_roundtrip_witness:
  "decrypt_secret (\<lambda>k iv c. Some ''hi'') (\<lambda>t. Inr (envelope [1, 2] [104, 105])) (b64 (replicate 16 0))
     (the (encrypt_secret (\<lambda>k iv p. p) [1, 2] (b64 (replicate 16 0)) ''hi'')) = Inr ''hi''"
proof -
  have key: "aes_key (b64 (replicate 16 0)) = Some (replicate 16 0)"
    by code_simp
  have "utf8 ''hi'' = [104, 105]" by code_simp
  then show ?thesis by (intro secret_roundtrip [OF key]) (simp_all add: all_bytes_def)
qed

section \<open>A revoked credential\<close>

lemma row_with_append: "row_with i (rows @ rs) = (case row_with i rows of None \<Rightarrow> row_with i rs | Some r \<Rightarrow> Some r)"
  by (induction rows) (auto simp: row_with_def)

lemma row_with_revoke:
  "row_with i (map (\<lambda>r. if cr_id r = j then r\<lparr>cr_revoked := Some now\<rparr> else r) rows) =
     map_option (\<lambda>r. if i = j then r\<lparr>cr_revoked := Some now\<rparr> else r) (row_with i rows)"
proof (induction rows)
  case (Cons r rows)
  then show ?case by (cases "cr_id r = i") (auto simp: row_with_def)
qed (simp add: row_with_def)

definition is_revoked :: "string \<Rightarrow> credential_row list \<Rightarrow> bool" where
  "is_revoked i rows = (case row_with i rows of None \<Rightarrow> False | Some r \<Rightarrow> cr_revoked r \<noteq> None)"

lemma is_revoked_store:
  "is_revoked i rows \<Longrightarrow> is_revoked i (snd (store_create r rows))"
  "is_revoked i rows \<Longrightarrow> is_revoked i (snd (store_revoke j now rows))"
  by (auto simp: is_revoked_def store_create_def store_revoke_def row_with_append row_with_revoke split: option.splits)

lemma persist_rows: "snd (persist_credential encrypt c fresh now rows) = rows
    \<or> (\<exists>r. snd (persist_credential encrypt c fresh now rows) = snd (store_create r rows))"
proof (cases "encrypt (ci_plaintext c)")
  case (Some v)
  let ?r = "\<lparr>cr_id = fresh, cr_kind = ci_kind c, cr_provider = ci_provider c, cr_key = ci_key c,
               cr_metadata = ci_metadata c, cr_value = v, cr_created = now, cr_revoked = None\<rparr>"
  have "snd (persist_credential encrypt c fresh now rows) = snd (store_create ?r rows)"
    by (simp add: persist_credential_def Some split: prod.split sum.split)
  then show ?thesis by blast
qed (simp add: persist_credential_def)

lemma is_revoked_persist: "is_revoked i rows \<Longrightarrow> is_revoked i (snd (persist_credential encrypt c fresh now rows))"
  using is_revoked_store(1) persist_rows by metis

lemma is_revoked_step: "is_revoked i (cw_rows w) \<Longrightarrow> is_revoked i (cw_rows (credential_step encrypt op w))"
proof (cases op)
  case (Create_op c fresh now)
  assume "is_revoked i (cw_rows w)"
  with is_revoked_persist [OF this, of encrypt c fresh now] show ?thesis
    by (auto simp: Create_op create_credential_def split: sum.split prod.split)
next
  case (Rotate_op c previous fresh now)
  assume *: "is_revoked i (cw_rows w)"
  obtain r rows where p: "persist_credential encrypt c fresh now (cw_rows w) = (r, rows)" by fastforce
  obtain r' rows' where q: "store_revoke previous now rows = (r', rows')" by fastforce
  have "is_revoked i rows" using is_revoked_persist [OF *, of encrypt c fresh now] p by simp
  then have "is_revoked i rows'" using is_revoked_store(2) [of i rows previous now] q by simp
  with \<open>is_revoked i rows\<close> show ?thesis
    by (cases r; cases r') (simp_all add: Rotate_op rotate_credential_def p q)
next
  case (Revoke_op j actor now)
  assume "is_revoked i (cw_rows w)"
  with is_revoked_store(2) [OF this, of j now] show ?thesis
    by (auto simp: Revoke_op revoke_credential_def split: sum.split prod.split)
qed

text \<open>A revoked credential is never used again. Once a revocation has answered, using that credential is
  refused, whatever credentials are created, rotated or revoked afterwards.\<close>

theorem revoked_stays_refused:
  "case revoke_credential i actor now w of (res, w') \<Rightarrow>
     (case res of
        Inl e \<Rightarrow> True
      | Inr at \<Rightarrow> decrypt_credential_for_use decrypt i (cw_rows (fold (credential_step encrypt) ops w')) = Inl ''Credential is revoked'')"
proof (cases "row_with i (cw_rows w)")
  case None
  then show ?thesis by (simp add: revoke_credential_def store_revoke_def)
next
  case (Some r)
  obtain res w' where out: "revoke_credential i actor now w = (res, w')" by fastforce
  have "is_revoked i (cw_rows w')"
    using out Some by (auto simp: revoke_credential_def store_revoke_def is_revoked_def row_with_revoke)
  then have "is_revoked i (cw_rows (fold (credential_step encrypt) ops w'))"
    by (induction ops arbitrary: w') (simp_all add: is_revoked_step)
  then have "decrypt_credential_for_use decrypt i (cw_rows (fold (credential_step encrypt) ops w')) = Inl ''Credential is revoked''"
    by (auto simp: decrypt_credential_for_use_def read_secret_def is_revoked_def split: option.splits)
  then show ?thesis by (simp add: out split: sum.split)
qed

section \<open>Rotation\<close>

lemma newest_in: "newest rs = Some r \<Longrightarrow> r \<in> set rs"
  by (induction rs arbitrary: r) (auto split: option.splits if_splits)

lemma newest_none [simp]: "newest rs = None \<longleftrightarrow> rs = []"
  by (induction rs) (auto split: option.splits)

lemma newest_last:
  "(\<forall>s \<in> set rs. cr_created s < cr_created r) \<Longrightarrow> newest (rs @ [r]) = Some r"
  by (induction rs) (auto simp: newer_def)

lemma newest_filter_revoked:
  "filter P (map (\<lambda>r. if cr_id r = j then r\<lparr>cr_revoked := Some now\<rparr> else r) rows) =
     map (\<lambda>r. if cr_id r = j then r\<lparr>cr_revoked := Some now\<rparr> else r)
       (filter (\<lambda>r. P (if cr_id r = j then r\<lparr>cr_revoked := Some now\<rparr> else r)) rows)"
  by (simp add: filter_map o_def)

text \<open>After a rotation the new secret is the one in use. When a model credential is rotated at a time later
  than every row, what the model's key resolves to from then on is what the new secret was sealed into,
  and the one it replaced is refused.\<close>

theorem rotation_takes_over:
  assumes "rotate_credential encrypt i previous fresh now w = (Inr c, w')"
    and "ci_kind i = ''model''" and "previous \<noteq> fresh" and "\<forall>r \<in> set (cw_rows w). cr_created r < now"
  shows "read_model_secret (ci_provider i) (ci_key i) (cw_rows w') = encrypt (ci_plaintext i)
     \<and> decrypt_credential_for_use decrypt previous (cw_rows w') = Inl ''Credential is revoked''"
proof -
  obtain v where v: "encrypt (ci_plaintext i) = Some v" and fresh: "row_with fresh (cw_rows w) = None"
    using assms(1) by (auto simp: rotate_credential_def persist_credential_def store_create_def split: option.splits if_splits)
  let ?r = "\<lparr>cr_id = fresh, cr_kind = ci_kind i, cr_provider = ci_provider i, cr_key = ci_key i,
               cr_metadata = ci_metadata i, cr_value = v, cr_created = now, cr_revoked = None\<rparr>"
  let ?f = "\<lambda>r. if cr_id r = previous then r\<lparr>cr_revoked := Some now\<rparr> else r"
  have prev: "row_with previous (cw_rows w @ [?r]) \<noteq> None" and w': "cw_rows w' = map ?f (cw_rows w @ [?r])"
    using assms(1) v fresh
    by (auto simp: rotate_credential_def persist_credential_def store_create_def store_revoke_def split: if_splits)
  let ?P = "\<lambda>r. cr_kind r = ''model'' \<and> cr_provider r = ci_provider i \<and> cr_key r = ci_key i \<and> cr_revoked r = None"
  have "filter ?P (cw_rows w') = filter ?P (map ?f (cw_rows w)) @ [?r]"
    using assms(2,3) by (simp add: w')
  moreover have "\<forall>s \<in> set (filter ?P (map ?f (cw_rows w))). cr_created s < now"
    using assms(4) by auto
  ultimately have "newest (filter ?P (cw_rows w')) = Some ?r" by (simp add: newest_last)
  moreover have "decrypt_credential_for_use decrypt previous (cw_rows w') = Inl ''Credential is revoked''"
    using prev by (auto simp: decrypt_credential_for_use_def read_secret_def w' row_with_revoke simp del: map_append)
  ultimately show ?thesis by (simp add: read_model_secret_def v)
qed

definition example_input :: "string \<Rightarrow> credential_input" where
  "example_input t = \<lparr>ci_kind = ''model'', ci_provider = ''openai'', ci_key = ''k'', ci_metadata = JObj [], ci_plaintext = t, ci_actor = None\<rparr>"

definition one_credential :: credential_world where
  "one_credential = snd (create_credential Some (example_input ''old'') ''c1'' 5 \<lparr>cw_rows = [], cw_audit = []\<rparr>)"

theorem rotation_takes_over_witness:
  "read_model_secret ''openai'' ''k'' (cw_rows (snd (rotate_credential Some (example_input ''new'') ''c1'' ''c2'' 9 one_credential)))
     = Some ''new''"
proof -
  obtain c w' where out: "rotate_credential Some (example_input ''new'') ''c1'' ''c2'' 9 one_credential = (Inr c, w')"
    by (simp add: rotate_credential_def one_credential_def create_credential_def persist_credential_def store_create_def
        store_revoke_def row_with_def example_input_def)
  have "\<forall>r \<in> set (cw_rows one_credential). cr_created r < 9"
    by (simp add: one_credential_def create_credential_def persist_credential_def store_create_def row_with_def)
  from rotation_takes_over [OF out _ _ this] show ?thesis unfolding out snd_conv by (simp add: example_input_def)
qed

text \<open>A rotation that fails leaves an unrecorded credential behind. The new secret is stored before the
  previous one is looked for, so naming one that does not exist is an error that has added a credential in
  use and no audit row.\<close>

theorem failed_rotation_is_unrecorded:
  "case rotate_credential Some (example_input ''new'') ''gone'' ''c2'' 9 one_credential of (res, w') \<Rightarrow>
     res = Inl ''Credential was not found'' \<and> cw_audit w' = cw_audit one_credential
     \<and> read_model_secret ''openai'' ''k'' (cw_rows w') = Some ''new''"
  by (simp add: rotate_credential_def one_credential_def create_credential_def persist_credential_def store_create_def
      store_revoke_def row_with_def example_input_def read_model_secret_def newer_def)

definition alike :: "credential_row \<Rightarrow> credential_row \<Rightarrow> bool" where
  "alike a b \<longleftrightarrow> cr_created a = cr_created b \<and> status_of a = status_of b"

lemma alike_created: "alike a b \<Longrightarrow> cr_created a = cr_created b"
  by (simp add: alike_def)

lemma alike_insort: "list_all2 alike xs ys \<Longrightarrow> alike a b \<Longrightarrow> list_all2 alike (insort_key cr_created a xs) (insort_key cr_created b ys)"
proof (induction rule: list_all2_induct)
  case (Cons x xs y ys)
  then show ?case using alike_created [of a b] alike_created [of x y] by simp
qed simp

lemma alike_sort: "list_all2 alike xs ys \<Longrightarrow> list_all2 alike (sort_key cr_created xs) (sort_key cr_created ys)"
  by (induction rule: list_all2_induct) (simp_all add: alike_insort)

lemma alike_listed: "list_all2 alike xs ys \<Longrightarrow> list_credentials xs = list_credentials ys"
  unfolding list_credentials_def by (rule list_all2_map_eq, drule alike_sort) (erule list_all2_mono, simp add: alike_def)

text \<open>Listings and the audit trail hold nothing of a secret. Two creations that differ only in the secret
  give the same answer, the same listing and the same rows of the trail.\<close>

theorem listing_hides_secret:
  "case (create_credential encrypt i fresh now w, create_credential encrypt (i\<lparr>ci_plaintext := t\<rparr>) fresh now w) of
     ((res, w1), (res', w2)) \<Rightarrow>
       (if encrypt (ci_plaintext i) \<noteq> None \<and> encrypt t \<noteq> None
        then res = res' \<and> cw_audit w1 = cw_audit w2 \<and> list_credentials (cw_rows w1) = list_credentials (cw_rows w2) else True)"
proof -
  let ?row = "\<lambda>v. \<lparr>cr_id = fresh, cr_kind = ci_kind i, cr_provider = ci_provider i, cr_key = ci_key i,
               cr_metadata = ci_metadata i, cr_value = v, cr_created = now, cr_revoked = None\<rparr>"
  have "list_all2 alike (cw_rows w @ [?row u]) (cw_rows w @ [?row v])" for u v
    by (intro list_all2_appendI list_all2_refl) (simp_all add: alike_def status_of_def)
  then have "list_credentials (cw_rows w @ [?row u]) = list_credentials (cw_rows w @ [?row v])" for u v
    by (rule alike_listed)
  then show ?thesis
    by (cases "encrypt (ci_plaintext i)"; cases "encrypt t"; cases "row_with fresh (cw_rows w)")
      (simp_all add: create_credential_def persist_credential_def store_create_def named_fields_def status_of_def)
qed

end
