(* ===== verification/Selection.thy ===== *)
theory Selection
  imports Prelude
begin

text \<open>
  Choosing which granted tools a run is offered: \<^verbatim>\<open>server/src/plugins/selection.ts\<close>.  The call of the
  model is the argument \<open>ask\<close>, which answers \<open>Inl\<close> where it throws and \<open>None\<close> for \<^verbatim>\<open>null\<close>;
  \<^verbatim>\<open>JSON.parse\<close> is the argument \<open>parse_json\<close>.
\<close>

section \<open>The definitions\<close>

record selectable_skill =
  sk_slug :: string
  sk_title :: string
  sk_summary :: string
  sk_tools :: "string list"

record selectable_tool =
  st_ref :: string

datatype selection_reason = Under_floor | Nothing_declared | Unavailable | Nothing_chosen | Selected

record selection =
  sel_offered :: "selectable_tool list"
  sel_skills :: "string list"
  sel_reason :: selection_reason
  sel_granted :: nat

definition selection_floor :: nat where
  "selection_floor = 12"

definition selection_prompt :: "string \<Rightarrow> selectable_skill list \<Rightarrow> string" where
  "selection_prompt t skills =
     (let catalogue = join_with [CHR 0x0A]
            (map (\<lambda>s. ''- '' @ sk_slug s @ '': '' @ sk_title s @ ''. '' @ sk_summary s) skills) in
      join_with [CHR 0x0A]
        [''You choose which capabilities to load for the message below. You are not answering it.'',
         [],
         ''Capabilities available:'',
         catalogue,
         [],
         ''Message:'',
         t,
         [],
         ''Reply with only JSON: {'' @ [CHR 0x22] @ ''skills'' @ [CHR 0x22] @ '': ['' @ [CHR 0x22] @ ''<slug>'' @ [CHR 0x22] @ '', ...]}.'',
         ''Choose every capability that might be needed, including ones you are only somewhat sure about.'',
         ''Choosing one that turns out to be unnecessary costs almost nothing. Failing to choose one that'',
         ''was needed means the work cannot be done at all, because its tools will not be loaded. When in'',
         ''doubt, include it. Use an empty list only when the message plainly needs none of them.''])"

text \<open>\<^verbatim>\<open>[...new Set(list)]\<close>: each element once, where it first stood.\<close>

definition unique :: "'a list \<Rightarrow> 'a list" where
  "unique xs = rev (remdups (rev xs))"

definition known_slugs :: "selectable_skill list \<Rightarrow> jsv list \<Rightarrow> string list" where
  "known_slugs skills vs =
     concat (map (\<lambda>v. case v of JStr s \<Rightarrow> if s \<in> set (map sk_slug skills) then [s] else [] | _ \<Rightarrow> []) vs)"

definition read_chosen_skills :: "(string \<Rightarrow> string + jsv) \<Rightarrow> string \<Rightarrow> selectable_skill list \<Rightarrow> string list option" where
  "read_chosen_skills parse_json answer skills =
     (case parse_json answer of
        Inl e \<Rightarrow> None
      | Inr v \<Rightarrow>
          (case js_field v ''skills'' of
             Some (JArr vs) \<Rightarrow> Some (unique (known_slugs skills vs))
           | _ \<Rightarrow> None))"

definition declared_by :: "selectable_skill list \<Rightarrow> string list \<Rightarrow> string list" where
  "declared_by skills granted = unique (filter (\<lambda>r. r \<in> set granted) (concat (map sk_tools skills)))"

definition everything :: "selectable_tool list \<Rightarrow> selection_reason \<Rightarrow> selection" where
  "everything tools reason =
     \<lparr>sel_offered = tools, sel_skills = [], sel_reason = reason, sel_granted = length tools\<rparr>"

definition chosen_skills ::
  "(string \<Rightarrow> string + jsv) \<Rightarrow> (string \<Rightarrow> string + string option) \<Rightarrow> selectable_skill list \<Rightarrow> string \<Rightarrow> string list option" where
  "chosen_skills parse_json ask skills t =
     (case ask (selection_prompt t skills) of
        Inr (Some answer) \<Rightarrow> read_chosen_skills parse_json answer skills
      | _ \<Rightarrow> None)"

definition select_tools ::
  "(string \<Rightarrow> string + jsv) \<Rightarrow> (string \<Rightarrow> string + string option) \<Rightarrow> selectable_tool list \<Rightarrow> selectable_skill list
     \<Rightarrow> string \<Rightarrow> nat option \<Rightarrow> selection" where
  "select_tools parse_json ask tools skills t floor_given =
     (if length tools \<le> (case floor_given of None \<Rightarrow> selection_floor | Some n \<Rightarrow> n) then everything tools Under_floor
      else let granted = map st_ref tools; declared = declared_by skills granted in
        if declared = [] then everything tools Nothing_declared
        else if js_trim t = [] then everything tools Unavailable
        else case chosen_skills parse_json ask skills t of
            None \<Rightarrow> everything tools Unavailable
          | Some chosen \<Rightarrow>
              if chosen = [] then everything tools Nothing_chosen
              else let wanted = declared_by (filter (\<lambda>s. sk_slug s \<in> set chosen) skills) granted in
                \<lparr>sel_offered = filter (\<lambda>u. st_ref u \<notin> set declared \<or> st_ref u \<in> set wanted) tools,
                 sel_skills = chosen, sel_reason = Selected, sel_granted = length tools\<rparr>)"

record chat_message =
  cm_role :: "string option"
  cm_content :: jsv

definition part_text :: "jsv \<Rightarrow> string" where
  "part_text v = (case js_string_field v ''text'' of Some s \<Rightarrow> s | None \<Rightarrow> [])"

definition user_text :: "jsv \<Rightarrow> string" where
  "user_text content =
     (case content of
        JStr s \<Rightarrow> s
      | JArr vs \<Rightarrow> js_trim (join_with '' '' (filter (\<lambda>w. w \<noteq> []) (map part_text vs)))
      | _ \<Rightarrow> [])"

definition latest_user_text :: "chat_message list \<Rightarrow> string" where
  "latest_user_text messages =
     (case dropWhile (\<lambda>m. cm_role m \<noteq> Some ''user'') (rev messages) of
        [] \<Rightarrow> []
      | m # ms \<Rightarrow> user_text (cm_content m))"

section \<open>What is offered\<close>

lemma set_unique [simp]: "set (unique xs) = set xs"
  by (simp add: unique_def)

lemma distinct_unique [simp]: "distinct (unique xs)"
  by (simp add: unique_def)

lemma unique_eq_Nil [simp]: "unique xs = [] \<longleftrightarrow> xs = []"
  by (simp add: unique_def)

text \<open>A skill among these asks for the tool.\<close>

definition claimed :: "selectable_skill list \<Rightarrow> selectable_tool \<Rightarrow> bool" where
  "claimed skills u = list_ex (\<lambda>s. st_ref u \<in> set (sk_tools s)) skills"

lemma declared_by_iff: "u \<in> set tools \<Longrightarrow> st_ref u \<in> set (declared_by skills (map st_ref tools)) \<longleftrightarrow> claimed skills u"
  by (auto simp: declared_by_def claimed_def list_ex_iff)

lemma known_slugs_subset: "set (known_slugs skills vs) \<subseteq> set (map sk_slug skills)"
  by (auto simp: known_slugs_def split: jsv.splits if_splits)

lemma chosen_skills_known:
  "chosen_skills parse_json ask skills t = Some chosen \<Longrightarrow> distinct chosen \<and> set chosen \<subseteq> set (map sk_slug skills)"
  using known_slugs_subset
  by (fastforce simp: chosen_skills_def read_chosen_skills_def split: sum.splits option.splits jsv.splits)

text \<open>Narrowing never widens, and drops only what the choice covers. Whatever the skills declare and the
  model answers, the offer is the granted tools in their order without those that some skill claims and
  no chosen skill does; unless skills were chosen nothing is dropped, and those chosen are skills the Bot
  holds.\<close>

theorem offer_within_grants:
  "let s = select_tools parse_json ask tools skills t fl in
     sel_offered s = filter (\<lambda>u. if sel_reason s = Selected \<and> claimed skills u
         then claimed (filter (\<lambda>k. sk_slug k \<in> set (sel_skills s)) skills) u else True) tools
     \<and> (sel_reason s = Selected \<longleftrightarrow> sel_skills s \<noteq> [])
     \<and> set (sel_skills s) \<subseteq> set (map sk_slug skills) \<and> distinct (sel_skills s) \<and> sel_granted s = length tools"
proof -
  have all: "filter (\<lambda>u. True) tools = tools" by simp
  show ?thesis
  proof (cases "chosen_skills parse_json ask skills t")
    case None
    then show ?thesis by (simp add: select_tools_def everything_def Let_def)
  next
    case (Some chosen)
    have "filter (\<lambda>u. st_ref u \<notin> set (declared_by skills (map st_ref tools)) \<or>
              st_ref u \<in> set (declared_by ks (map st_ref tools))) tools =
        filter (\<lambda>u. if claimed skills u then claimed ks u else True) tools" for ks
      by (rule filter_cong) (simp_all add: declared_by_iff)
    then show ?thesis
      using chosen_skills_known [OF Some] by (simp add: select_tools_def everything_def Let_def Some)
  qed
qed

text \<open>A tool a person granted is lost to a failing model in no case. When the choosing call throws,
  answers nothing, answers what does not parse or holds no list of skills, everything granted is offered.\<close>

theorem failed_choice_offers_all:
  "if chosen_skills parse_json ask skills t = None \<or> chosen_skills parse_json ask skills t = Some []
   then sel_offered (select_tools parse_json ask tools skills t fl) = tools else True"
  by (auto simp: select_tools_def everything_def Let_def)

end
