(* ===== verification/Plugins.thy ===== *)
theory Plugins
  imports Catalogue Credentials Selection Gateway
begin

text \<open>
  The plugin store, \<^verbatim>\<open>server/src/plugins/store.ts\<close>: the servers a deployment has added and their tools, the
  skills, which Bots may use any of it, the accounts people have connected, and the one path a call takes.

  An operation is a function of the world to an error or a value, with the world afterwards; the world
  holds the tables, the vault's rows, the audit trail and everything that was sent out.  What answers is
  the record \<open>plugin_env\<close>: encryption and decryption under the deployment's key, \<^verbatim>\<open>JSON.parse\<close>, the network of
  the token endpoint and of the two protocols (functions of what was sent so far), the CEL evaluator, and
  whether an audit row can be written.  Of the database it is modelled that a primary key refuses a second
  row, that the pointer to a credential must name one, and that a server's tools and accounts go with it.
\<close>

section \<open>Data\<close>

datatype plugin_error =
    Plugin_refused string "string option"
  | Entry_unknown string
  | Custom_refused string
  | Server_failed string
  | Plain_error string

fun plugin_message :: "plugin_error \<Rightarrow> string" where
  "plugin_message (Plugin_refused m r) = m"
| "plugin_message (Entry_unknown k) = k @ '' is not a server this deployment will connect to.''"
| "plugin_message (Custom_refused m) = m"
| "plugin_message (Server_failed m) = m"
| "plugin_message (Plain_error m) = m"

datatype plugin_kind = Mcp_plugin | Skill_plugin

record server_row =
  sv_id :: string
  sv_title :: string
  sv_vendor :: string
  sv_url :: string
  sv_provenance :: string
  sv_credential :: "string option"
  sv_refreshed :: "int option"
  sv_error :: "string option"
  sv_added :: "string option"

record tool_row =
  tl_server :: string
  tl_name :: string
  tl_description :: string
  tl_schema :: jsv

record vendor_tool =
  vt_name :: string
  vt_description :: string
  vt_schema :: jsv

record user_credential =
  uc_server :: string
  uc_user :: string
  uc_credential :: string
  uc_scope :: string
  uc_connected :: int

text \<open>A skill's id and its slug are one text: the store writes both from the slug.\<close>

record skill_row =
  si_slug :: string
  si_owner :: "string option"
  si_title :: string
  si_summary :: string
  si_instructions :: string
  si_origin :: string
  si_by :: "string option"

record declared_tool =
  dt_skill :: string
  dt_ref :: string

record plugin_grant =
  gr_kind :: plugin_kind
  gr_ref :: string
  gr_agent :: string

record oauth_client =
  oc_id :: string
  oc_secret :: string

datatype plugin_sent =
    Token_asked string "(string \<times> string) list"
  | Tools_asked transport_kind string "string option"
  | Tool_called transport_kind string "string option" string "(string \<times> jsv) list"

record plugin_world =
  pw_servers :: "server_row list"
  pw_tools :: "tool_row list"
  pw_people :: "user_credential list"
  pw_skills :: "skill_row list"
  pw_declared :: "declared_tool list"
  pw_grants :: "plugin_grant list"
  pw_agents :: "(string \<times> string option) list"
  pw_credentials :: "credential_row list"
  pw_audit :: "audit_input list"
  pw_sent :: "plugin_sent list"

text \<open>An answer of the token endpoint: the call fails, or a status and a body that may not be JSON.\<close>

record plugin_env =
  pv_decrypt :: "string \<Rightarrow> string + string"
  pv_encrypt :: "string \<Rightarrow> string option"
  pv_parse :: "string \<Rightarrow> string + jsv"
  pv_pattern :: "string \<Rightarrow> string \<Rightarrow> bool"
  pv_url :: url_parser
  pv_token :: "plugin_sent list \<Rightarrow> string + (nat \<times> (string + jsv))"
  pv_list :: "plugin_sent list \<Rightarrow> plugin_error + vendor_tool list"
  pv_call :: "plugin_sent list \<Rightarrow> plugin_error + (string \<times> bool)"
  pv_cel :: cel_evaluator
  pv_regex :: "string \<Rightarrow> string \<Rightarrow> bool option"
  pv_policy :: action_policy
  pv_collate :: "string \<Rightarrow> nat"
  pv_audit :: "audit_input list \<Rightarrow> audit_input \<Rightarrow> string option"

section \<open>Operations that may throw\<close>

type_synonym 'a plugin_io = "plugin_world \<Rightarrow> (plugin_error + 'a) \<times> plugin_world"

definition pm_return :: "'a \<Rightarrow> 'a plugin_io" where
  "pm_return x w = (Inr x, w)"

definition pm_throw :: "plugin_error \<Rightarrow> 'a plugin_io" where
  "pm_throw e w = (Inl e, w)"

definition pm_bind :: "'a plugin_io \<Rightarrow> ('a \<Rightarrow> 'b plugin_io) \<Rightarrow> 'b plugin_io" where
  "pm_bind m k w = (case m w of (Inl e, w') \<Rightarrow> (Inl e, w') | (Inr x, w') \<Rightarrow> k x w')"

definition pm_catch :: "'a plugin_io \<Rightarrow> (plugin_error \<Rightarrow> 'a plugin_io) \<Rightarrow> 'a plugin_io" where
  "pm_catch m h w = (case m w of (Inl e, w') \<Rightarrow> h e w' | (Inr x, w') \<Rightarrow> (Inr x, w'))"

definition pm_get :: "plugin_world plugin_io" where
  "pm_get w = (Inr w, w)"

definition pm_change :: "(plugin_world \<Rightarrow> plugin_world) \<Rightarrow> unit plugin_io" where
  "pm_change f w = (Inr (), f w)"

definition pm_lift :: "plugin_error + 'a \<Rightarrow> 'a plugin_io" where
  "pm_lift r w = (r, w)"

abbreviation pm_then :: "'a plugin_io \<Rightarrow> 'b plugin_io \<Rightarrow> 'b plugin_io" where
  "pm_then m n \<equiv> pm_bind m (\<lambda>_. n)"

text \<open>Something is sent and answered.\<close>

definition pm_send :: "(plugin_sent list \<Rightarrow> plugin_error + 'a) \<Rightarrow> plugin_sent \<Rightarrow> 'a plugin_io" where
  "pm_send answer s w = (let sent = pw_sent w @ [s] in (answer sent, w\<lparr>pw_sent := sent\<rparr>))"

definition plugin_event ::
  "plugin_env \<Rightarrow> string \<Rightarrow> string \<Rightarrow> string \<Rightarrow> (string \<times> jsv) list \<Rightarrow> unit plugin_io" where
  "plugin_event env kind target_type target payload w =
     (let ev = record_audit_event
        \<lparr>ai_type = kind, ai_target_type = target_type, ai_target_id = Some target, ai_actor = None, ai_payload = JObj payload\<rparr> in
      case pv_audit env (pw_audit w) ev of
        Some m \<Rightarrow> (Inl (Plain_error m), w)
      | None \<Rightarrow> (Inr (), w\<lparr>pw_audit := pw_audit w @ [ev]\<rparr>))"

definition or_nothing :: "string option \<Rightarrow> jsv" where
  "or_nothing v = (case v of None \<Rightarrow> JNull | Some s \<Rightarrow> JStr s)"

section \<open>What is held\<close>

definition grants_for :: "plugin_kind \<Rightarrow> string \<Rightarrow> plugin_world \<Rightarrow> string list" where
  "grants_for kind ref w = map gr_agent (filter (\<lambda>g. gr_kind g = kind \<and> gr_ref g = ref) (pw_grants w))"

text \<open>The refs a skill declares, in their order; \<open>collate\<close> is the order of the database.\<close>

definition tools_declared_by :: "(string \<Rightarrow> nat) \<Rightarrow> string \<Rightarrow> plugin_world \<Rightarrow> string list" where
  "tools_declared_by collate i w = sort_key collate (map dt_ref (filter (\<lambda>d. dt_skill d = i) (pw_declared w)))"

definition tool_ref :: "tool_row \<Rightarrow> string" where
  "tool_ref t = tl_server t @ ''/'' @ tl_name t"

definition known_tool_refs :: "string list \<Rightarrow> plugin_world \<Rightarrow> string set" where
  "known_tool_refs refs w =
     set (filter (\<lambda>r. r \<in> tool_ref ` set (filter (\<lambda>t. tl_server t \<in> set (map (\<lambda>r. hd (split_on (CHR ''/'') r)) refs)) (pw_tools w))) refs)"

definition server_with :: "string \<Rightarrow> plugin_world \<Rightarrow> server_row option" where
  "server_with i w = find (\<lambda>s. sv_id s = i) (pw_servers w)"

definition change_server :: "string \<Rightarrow> (server_row \<Rightarrow> server_row) \<Rightarrow> plugin_world \<Rightarrow> plugin_world" where
  "change_server i f w = w\<lparr>pw_servers := map (\<lambda>s. if sv_id s = i then f s else s) (pw_servers w)\<rparr>"

definition effective_url :: "(string \<Rightarrow> string \<Rightarrow> bool) \<Rightarrow> server_row \<Rightarrow> catalogue_entry option \<Rightarrow> string" where
  "effective_url test row entry =
     (case entry of
        None \<Rightarrow> sv_url row
      | Some e \<Rightarrow>
          if ce_host e = None then sv_url row
          else (case resolve_server_url test (sv_id row) None of Some (u, e') \<Rightarrow> u | None \<Rightarrow> sv_url row))"

definition is_user_oauth :: "catalogue_entry option \<Rightarrow> bool" where
  "is_user_oauth entry = (case entry of None \<Rightarrow> False | Some e \<Rightarrow> (case ce_auth e of User_oauth a t r s \<Rightarrow> True | _ \<Rightarrow> False))"

definition reached_as_for :: "catalogue_entry option \<Rightarrow> string \<Rightarrow> string" where
  "reached_as_for entry actor = (if is_user_oauth entry then actor else ''deployment'')"

definition require_server :: "string \<Rightarrow> (server_row \<times> catalogue_entry option) plugin_io" where
  "require_server i w =
     (case server_with i w of
        None \<Rightarrow> (Inl (Entry_unknown i), w)
      | Some row \<Rightarrow>
          if sv_provenance row = ''first-party'' \<and> catalogue_entry_of (sv_id row) = None
          then (Inl (Entry_unknown (sv_id row)), w)
          else (Inr (row, catalogue_entry_of (sv_id row)), w))"

section \<open>Whose credential a call goes out with\<close>

definition exchange_body :: "oauth_client \<Rightarrow> string \<Rightarrow> (string \<times> string) list" where
  "exchange_body client refresh =
     [(''grant_type'', ''refresh_token''), (''refresh_token'', refresh), (''client_id'', oc_id client),
      (''client_secret'', oc_secret client)]"

definition exchange_refresh_token :: "plugin_env \<Rightarrow> string \<Rightarrow> oauth_client \<Rightarrow> string \<Rightarrow> string plugin_io" where
  "exchange_refresh_token env token_url client refresh =
     pm_send (\<lambda>sent. case pv_token env sent of
         Inl m \<Rightarrow> Inl (Plain_error m)
       | Inr (st, body) \<Rightarrow>
           if \<not> (200 \<le> st \<and> st < 300) then Inl (Server_failed (''The vendor would not renew this access ('' @ show_nat st @ '').''))
           else (case body of
               Inl m \<Rightarrow> Inl (Plain_error m)
             | Inr b \<Rightarrow>
                 if b = JNull then Inl (Plain_error ''TypeError'')
                 else if \<not> truthy (js_string_field b ''access_token'')
                 then Inl (Server_failed ''The vendor renewed this access with no token.'')
                 else Inr (the (js_string_field b ''access_token''))))
       (Token_asked token_url (exchange_body client refresh))"

definition secret_for :: "plugin_env \<Rightarrow> string \<Rightarrow> string \<Rightarrow> string plugin_io" where
  "secret_for env i on_revoked w =
     ((case decrypt_credential_for_use (pv_decrypt env) i (pw_credentials w) of
         Inr s \<Rightarrow> Inr s
       | Inl m \<Rightarrow>
           if str_includes m ''revoked'' \<or> str_includes m ''not found'' then Inl (Plugin_refused on_revoked None)
           else Inl (Plain_error m)), w)"

text \<open>A field that is absent is written into the form as \<^verbatim>\<open>undefined\<close>.\<close>

definition client_of :: "jsv \<Rightarrow> plugin_error + oauth_client" where
  "client_of j =
     (if j = JNull then Inl (Plain_error ''TypeError'')
      else Inr \<lparr>oc_id = (case js_string_field j ''clientId'' of Some s \<Rightarrow> s | None \<Rightarrow> ''undefined''),
                oc_secret = (case js_string_field j ''clientSecret'' of Some s \<Rightarrow> s | None \<Rightarrow> ''undefined'')\<rparr>)"

definition held_by :: "string \<Rightarrow> string \<Rightarrow> plugin_world \<Rightarrow> user_credential option" where
  "held_by server user w = find (\<lambda>u. uc_server u = server \<and> uc_user u = user) (pw_people w)"

text \<open>What a person, or an administrator, is told to do.\<close>

definition unattributed :: "string \<Rightarrow> string" where
  "unattributed server = server @ '' answers as the person asking, and this run is not attributed to anybody.''"

definition not_connected :: "string \<Rightarrow> string" where
  "not_connected title = ''You have not connected your '' @ title @ '' account. Connect it in Settings and ask again.''"

definition access_withdrawn :: "string \<Rightarrow> string" where
  "access_withdrawn title = ''Your '' @ title @ '' access was withdrawn. Connect it again in Settings.''"

definition no_client :: "string \<Rightarrow> string" where
  "no_client title = title @
     '' has no OAuth client registered for this deployment, so this cannot be called. An administrator has to add one.''"

definition unusable_client :: "string \<Rightarrow> string" where
  "unusable_client title = title @
     '' has no usable OAuth client for this deployment. An administrator has to add one again.''"

definition credential_gone :: "string \<Rightarrow> string" where
  "credential_gone server = server @
     '' needs a credential this deployment no longer holds. An administrator has to add it again.''"

definition own_token :: "plugin_env \<Rightarrow> server_row \<Rightarrow> string \<Rightarrow> string \<Rightarrow> string \<Rightarrow> string plugin_io" where
  "own_token env row title token_url actor =
     (if actor = []
      then pm_throw (Plugin_refused (unattributed (sv_id row)) None)
      else pm_bind pm_get (\<lambda>w.
        case held_by (sv_id row) actor w of
          None \<Rightarrow> pm_throw (Plugin_refused (not_connected title) None)
        | Some held \<Rightarrow>
            pm_bind (secret_for env (uc_credential held) (access_withdrawn title)) (\<lambda>refresh.
              case sv_credential row of
                None \<Rightarrow> pm_throw (Plugin_refused (no_client title) None)
              | Some i \<Rightarrow>
                  pm_bind (secret_for env i (unusable_client title)) (\<lambda>text.
                    pm_bind (pm_lift (case pv_parse env text of Inl m \<Rightarrow> Inl (Plain_error m) | Inr j \<Rightarrow> client_of j)) (\<lambda>client.
                      exchange_refresh_token env token_url client refresh)))))"

definition connection_token_for ::
  "plugin_env \<Rightarrow> server_row \<Rightarrow> catalogue_entry option \<Rightarrow> string \<Rightarrow> string option plugin_io" where
  "connection_token_for env row entry actor =
     (case (case entry of None \<Rightarrow> None | Some e \<Rightarrow>
              (case ce_auth e of User_oauth a token_url r s \<Rightarrow> Some (ce_title e, token_url) | _ \<Rightarrow> None)) of
        None \<Rightarrow>
          (case sv_credential row of
             None \<Rightarrow> pm_return None
           | Some i \<Rightarrow>
               if i = [] then pm_return None
               else pm_bind (secret_for env i (credential_gone (sv_id row)))
                 (\<lambda>token. pm_return (Some token)))
      | Some (title, token_url) \<Rightarrow> pm_bind (own_token env row title token_url actor) (\<lambda>token. pm_return (Some token)))"

section \<open>Adding, removing and asking a server\<close>

text \<open>An insert of a server whose pointer names no credential is refused; a second row of one id is an update.\<close>

definition store_server :: "server_row \<Rightarrow> (server_row \<Rightarrow> server_row) \<Rightarrow> unit plugin_io" where
  "store_server row again w =
     (if (case sv_credential row of None \<Rightarrow> False | Some c \<Rightarrow> row_with c (pw_credentials w) = None)
      then (Inl (Plain_error ''foreign key''), w)
      else (Inr (), if server_with (sv_id row) w \<noteq> None then change_server (sv_id row) again w
                    else w\<lparr>pw_servers := pw_servers w @ [row]\<rparr>))"

definition tool_row_of :: "string \<Rightarrow> vendor_tool \<Rightarrow> tool_row" where
  "tool_row_of i t = \<lparr>tl_server = i, tl_name = vt_name t, tl_description = vt_description t, tl_schema = vt_schema t\<rparr>"

text \<open>The rows are one insert, refused when two have one name.\<close>

definition store_tools :: "string \<Rightarrow> vendor_tool list \<Rightarrow> unit plugin_io" where
  "store_tools i tools w =
     (if \<not> distinct (map vt_name tools) then (Inl (Plain_error ''duplicate key''), w)
      else (Inr (), w\<lparr>pw_tools := pw_tools w @ map (tool_row_of i) tools\<rparr>))"

definition drop_tools :: "string \<Rightarrow> plugin_world \<Rightarrow> plugin_world" where
  "drop_tools i w = w\<lparr>pw_tools := filter (\<lambda>t. tl_server t \<noteq> i) (pw_tools w)\<rparr>"

definition refresh_tools :: "plugin_env \<Rightarrow> string \<Rightarrow> string \<Rightarrow> int \<Rightarrow> nat plugin_io" where
  "refresh_tools env i actor now =
     pm_bind (require_server i) (\<lambda>(row, entry).
       let kind = transport_for entry in
       pm_catch
         (pm_bind (if list_needs_credential kind then connection_token_for env row entry actor else pm_return None) (\<lambda>token.
          pm_bind (pm_send (pv_list env) (Tools_asked kind (effective_url (pv_pattern env) row entry) token)) (\<lambda>tools.
          pm_then (pm_change (drop_tools i))
         (pm_then (store_tools i tools)
         (pm_then (pm_change (change_server i (\<lambda>s. s\<lparr>sv_refreshed := Some now, sv_error := None\<rparr>)))
            (pm_return (length tools)))))))
         (\<lambda>e. pm_then (pm_change (change_server i (\<lambda>s. s\<lparr>sv_error := Some (plugin_message e)\<rparr>))) (pm_return 0)))"

record tool_record =
  tr_ref :: string
  tr_tool :: tool_row
  tr_write :: bool
  tr_granted :: "string list"

record server_record =
  sr_row :: server_row
  sr_url :: string
  sr_summary :: string
  sr_docs :: string
  sr_has_credential :: bool
  sr_tools :: "tool_record list"

definition tool_record_of :: "plugin_world \<Rightarrow> catalogue_entry option \<Rightarrow> tool_row \<Rightarrow> tool_record" where
  "tool_record_of w entry t =
     \<lparr>tr_ref = tool_ref t, tr_tool = t, tr_write = classify_tool entry (tl_name t) True,
      tr_granted = grants_for Mcp_plugin (tool_ref t) w\<rparr>"

definition server_record_of :: "plugin_env \<Rightarrow> plugin_world \<Rightarrow> server_row \<Rightarrow> server_record" where
  "server_record_of env w row =
     (let entry = catalogue_entry_of (sv_id row) in
      \<lparr>sr_row = row, sr_url = effective_url (pv_pattern env) row entry,
       sr_summary = (case entry of None \<Rightarrow> [] | Some e \<Rightarrow> ce_summary e),
       sr_docs = (case entry of None \<Rightarrow> [] | Some e \<Rightarrow> ce_docs e),
       sr_has_credential = (sv_credential row \<noteq> None),
       sr_tools = map (tool_record_of w entry)
         (filter (\<lambda>t. tl_server t = sv_id row) (sort_key (pv_collate env \<circ> tl_name) (pw_tools w)))\<rparr>)"

definition list_servers :: "plugin_env \<Rightarrow> plugin_world \<Rightarrow> server_record list" where
  "list_servers env w = map (server_record_of env w) (sort_key (pv_collate env \<circ> sv_title) (pw_servers w))"

definition listed_server :: "plugin_env \<Rightarrow> string \<Rightarrow> string \<Rightarrow> server_record plugin_io" where
  "listed_server env i asked w =
     (case find (\<lambda>s. sv_id (sr_row s) = i) (list_servers env w) of
        None \<Rightarrow> (Inl (Entry_unknown asked), w)
      | Some s \<Rightarrow> (Inr s, w))"

definition add_server ::
  "plugin_env \<Rightarrow> string \<Rightarrow> string option \<Rightarrow> string option \<Rightarrow> string \<Rightarrow> int \<Rightarrow> server_record plugin_io" where
  "add_server env key instance_host cred by now =
     (case resolve_server_url (pv_pattern env) key instance_host of
        None \<Rightarrow> pm_throw (Entry_unknown key)
      | Some (u, e) \<Rightarrow>
          pm_then (store_server
              \<lparr>sv_id = ce_key e, sv_title = ce_title e, sv_vendor = ce_vendor e, sv_url = u, sv_provenance = ''first-party'',
               sv_credential = cred, sv_refreshed = None, sv_error = None, sv_added = Some by\<rparr>
              (\<lambda>s. s\<lparr>sv_url := u, sv_credential := cred, sv_added := Some by\<rparr>))
         (pm_then (plugin_event env ''configuration.changed'' ''mcp_server'' (ce_key e)
              [(''actor'', JStr by), (''change'', JStr ''mcp_server_added''), (''server'', JStr (ce_key e)), (''url'', JStr u)])
         (pm_then (refresh_tools env (ce_key e) [] now)
           (listed_server env (ce_key e) key))))"

definition add_custom_server ::
  "plugin_env \<Rightarrow> string \<Rightarrow> string \<Rightarrow> string \<Rightarrow> string option \<Rightarrow> string \<Rightarrow> int \<Rightarrow> server_record plugin_io" where
  "add_custom_server env i title raw cred by now =
     (case custom_url_refusal (pv_url env) raw of
        Some m \<Rightarrow> pm_throw (Custom_refused m)
      | None \<Rightarrow>
          if catalogue_entry_of i \<noteq> None
          then pm_throw (Custom_refused (i @ '' is the name of a server this deployment already knows. Choose another.''))
          else if \<not> server_slug i
          then pm_throw (Custom_refused ''A server name is lower-case letters, numbers and hyphens.'')
          else
            pm_then (store_server
              \<lparr>sv_id = i, sv_title = title, sv_vendor = url_hostname (the (pv_url env raw)), sv_url = raw, sv_provenance = ''custom'',
               sv_credential = cred, sv_refreshed = None, sv_error = None, sv_added = Some by\<rparr>
              (\<lambda>s. s\<lparr>sv_title := title, sv_url := raw, sv_credential := cred, sv_added := Some by\<rparr>))
           (pm_then (plugin_event env ''configuration.changed'' ''mcp_server'' i
              [(''actor'', JStr by), (''change'', JStr ''mcp_server_added''), (''server'', JStr i), (''url'', JStr raw),
               (''provenance'', JStr ''custom'')])
           (pm_then (refresh_tools env i [] now)
             (listed_server env i i))))"

text \<open>A server's tools and the accounts connected to it go with it.\<close>

definition remove_server :: "plugin_env \<Rightarrow> string \<Rightarrow> string \<Rightarrow> unit plugin_io" where
  "remove_server env i by =
     pm_then (pm_change (\<lambda>w. (drop_tools i w)\<lparr>pw_servers := filter (\<lambda>s. sv_id s \<noteq> i) (pw_servers w),
         pw_people := filter (\<lambda>u. uc_server u \<noteq> i) (pw_people w)\<rparr>))
       (plugin_event env ''configuration.changed'' ''mcp_server'' i
          [(''actor'', JStr by), (''change'', JStr ''mcp_server_removed''), (''server'', JStr i)])"

section \<open>Skills\<close>

record skill_actor =
  ka_id :: string
  ka_admin :: bool

record skill_record =
  kr_row :: skill_row
  kr_granted :: "string list"
  kr_tools :: "string list"

definition list_skills :: "plugin_env \<Rightarrow> skill_actor option \<Rightarrow> plugin_world \<Rightarrow> skill_record list" where
  "list_skills env actor w =
     map (\<lambda>k. \<lparr>kr_row = k, kr_granted = grants_for Skill_plugin (si_slug k) w,
            kr_tools = tools_declared_by (pv_collate env) (si_slug k) w\<rparr>)
       (sort_key (pv_collate env \<circ> si_title)
         (filter (\<lambda>k. case actor of None \<Rightarrow> True
            | Some a \<Rightarrow> ka_admin a \<or> si_owner k = None \<or> si_owner k = Some (ka_id a)) (pw_skills w)))"

definition skill_with :: "string \<Rightarrow> plugin_world \<Rightarrow> skill_row option" where
  "skill_with slug w = find (\<lambda>k. si_slug k = slug) (pw_skills w)"

definition skill_owner :: "string \<Rightarrow> plugin_world \<Rightarrow> string option option" where
  "skill_owner slug w = map_option si_owner (skill_with slug w)"

definition agent_owner :: "string \<Rightarrow> plugin_world \<Rightarrow> string option option" where
  "agent_owner i w = map_of (pw_agents w) i"

record skill_input =
  kx_slug :: string
  kx_title :: string
  kx_summary :: string
  kx_instructions :: string
  kx_origin :: "string option"
  kx_owner :: "string option"
  kx_tools :: "string list option"
  kx_by :: string

definition declared_refs :: "skill_input \<Rightarrow> string list option" where
  "declared_refs x = map_option (\<lambda>ts. unique (filter (\<lambda>r. r \<noteq> []) (map js_trim ts))) (kx_tools x)"

definition store_skill :: "skill_input \<Rightarrow> plugin_world \<Rightarrow> plugin_world" where
  "store_skill x w =
     w\<lparr>pw_skills :=
        (if skill_with (kx_slug x) w \<noteq> None
         then map (\<lambda>k. if si_slug k = kx_slug x
             then k\<lparr>si_title := kx_title x, si_summary := kx_summary x, si_instructions := kx_instructions x\<rparr> else k) (pw_skills w)
         else pw_skills w @
           [\<lparr>si_slug = kx_slug x, si_owner = kx_owner x, si_title = kx_title x, si_summary = kx_summary x,
             si_instructions = kx_instructions x, si_origin = (case kx_origin x of None \<Rightarrow> ''yours'' | Some s \<Rightarrow> s),
             si_by = Some (kx_by x)\<rparr>])\<rparr>"

definition store_declared :: "string \<Rightarrow> string list \<Rightarrow> plugin_world \<Rightarrow> plugin_world" where
  "store_declared slug refs w =
     w\<lparr>pw_declared := filter (\<lambda>d. dt_skill d \<noteq> slug) (pw_declared w) @ map (\<lambda>r. \<lparr>dt_skill = slug, dt_ref = r\<rparr>) refs\<rparr>"

definition install_skill :: "plugin_env \<Rightarrow> skill_input \<Rightarrow> unit plugin_io" where
  "install_skill env x =
     pm_bind pm_get (\<lambda>w.
       let declared = declared_refs x;
           unknown = (case declared of None \<Rightarrow> [] | Some refs \<Rightarrow> filter (\<lambda>r. r \<notin> known_tool_refs refs w) refs) in
       if unknown \<noteq> []
       then pm_throw (Plugin_refused (''No tool by that name has been seen here: '' @ join_with '', '' unknown @
         ''. A skill names tools as serverId/toolName, and the server has to have been refreshed at least once.'') None)
       else
         pm_then (pm_change (store_skill x))
        (pm_then (case declared of None \<Rightarrow> pm_return () | Some refs \<Rightarrow> pm_change (store_declared (kx_slug x) refs))
           (plugin_event env ''configuration.changed'' ''skill'' (kx_slug x)
             ([(''actor'', JStr (kx_by x)), (''change'', JStr ''skill_installed''), (''skill'', JStr (kx_slug x))]
              @ (case declared of None \<Rightarrow> [] | Some refs \<Rightarrow> [(''declares'', JArr (map JStr refs))])))))"

definition uninstall_skill :: "plugin_env \<Rightarrow> string \<Rightarrow> string \<Rightarrow> unit plugin_io" where
  "uninstall_skill env slug by =
     pm_then (pm_change (\<lambda>w. w\<lparr>pw_skills := filter (\<lambda>k. si_slug k \<noteq> slug) (pw_skills w),
         pw_declared := filter (\<lambda>d. dt_skill d \<noteq> slug) (pw_declared w)\<rparr>))
       (plugin_event env ''configuration.changed'' ''skill'' slug
          [(''actor'', JStr by), (''change'', JStr ''skill_uninstalled''), (''skill'', JStr slug)])"

section \<open>Grants\<close>

definition kind_text :: "plugin_kind \<Rightarrow> string" where
  "kind_text k = (case k of Mcp_plugin \<Rightarrow> ''mcp'' | Skill_plugin \<Rightarrow> ''skill'')"

definition grant_event :: "plugin_env \<Rightarrow> string \<Rightarrow> plugin_kind \<Rightarrow> string \<Rightarrow> string \<Rightarrow> string \<Rightarrow> unit plugin_io" where
  "grant_event env change kind ref agent by =
     plugin_event env ''configuration.changed'' (case kind of Mcp_plugin \<Rightarrow> ''mcp_tool'' | Skill_plugin \<Rightarrow> ''skill'') ref
       [(''actor'', JStr by), (''change'', JStr change), (''kind'', JStr (kind_text kind)), (''ref'', JStr ref), (''bot'', JStr agent)]"

definition granted :: "plugin_kind \<Rightarrow> string \<Rightarrow> string \<Rightarrow> plugin_world \<Rightarrow> bool" where
  "granted kind ref agent w = list_ex (\<lambda>g. gr_kind g = kind \<and> gr_ref g = ref \<and> gr_agent g = agent) (pw_grants w)"

definition grant_plugin :: "plugin_env \<Rightarrow> plugin_kind \<Rightarrow> string \<Rightarrow> string \<Rightarrow> string \<Rightarrow> unit plugin_io" where
  "grant_plugin env kind ref agent by =
     pm_then (pm_change (\<lambda>w. if granted kind ref agent w then w
         else w\<lparr>pw_grants := pw_grants w @ [\<lparr>gr_kind = kind, gr_ref = ref, gr_agent = agent\<rparr>]\<rparr>))
       (grant_event env ''plugin_granted'' kind ref agent by)"

definition revoke_plugin :: "plugin_env \<Rightarrow> plugin_kind \<Rightarrow> string \<Rightarrow> string \<Rightarrow> string \<Rightarrow> unit plugin_io" where
  "revoke_plugin env kind ref agent by =
     pm_then (pm_change (\<lambda>w. w\<lparr>pw_grants :=
         filter (\<lambda>g. \<not> (gr_kind g = kind \<and> gr_ref g = ref \<and> gr_agent g = agent)) (pw_grants w)\<rparr>))
       (grant_event env ''plugin_revoked'' kind ref agent by)"

text \<open>The refusal, when the Bot was not given the plugin.\<close>

definition decide :: "plugin_kind \<Rightarrow> string \<Rightarrow> string \<Rightarrow> plugin_world \<Rightarrow> string option" where
  "decide kind ref agent w =
     (if granted kind ref agent w then None
      else Some (''This Bot has not been given the '' @ (case kind of Mcp_plugin \<Rightarrow> ''tool '' | Skill_plugin \<Rightarrow> ''skill '') @ ref @ ''.''))"

record offered_tool =
  ot_ref :: string
  ot_name :: string
  ot_description :: string
  ot_schema :: jsv

record granted_plugins =
  gp_tools :: "offered_tool list"
  gp_skills :: "(skill_row \<times> string list) list"

definition list_for_agent :: "plugin_env \<Rightarrow> string \<Rightarrow> plugin_world \<Rightarrow> granted_plugins" where
  "list_for_agent env agent w =
     (let held = filter (\<lambda>g. gr_agent g = agent) (pw_grants w);
          refs = map gr_ref (filter (\<lambda>g. gr_kind g = Mcp_plugin) held);
          slugs = map gr_ref (filter (\<lambda>g. gr_kind g = Skill_plugin) held);
          servers = map (\<lambda>r. hd (split_on (CHR ''/'') r)) refs in
      \<lparr>gp_tools = map (\<lambda>t. \<lparr>ot_ref = tool_ref t, ot_name = tool_name_for (tool_ref t), ot_description = tl_description t,
            ot_schema = tl_schema t\<rparr>)
          (filter (\<lambda>t. tool_ref t \<in> set refs)
            (sort_key (pv_collate env \<circ> tl_name) (filter (\<lambda>t. tl_server t \<in> set servers) (pw_tools w)))),
       gp_skills = map (\<lambda>k. (k, tools_declared_by (pv_collate env) (si_slug k) w))
          (filter (\<lambda>k. si_slug k \<in> set slugs) (pw_skills w))\<rparr>)"

end
