(* ===== verification/Plugin_Calls.thy ===== *)
theory Plugin_Calls
  imports Plugins
begin

text \<open>
  The accounts people connect, the one path a tool call takes, and what a run is handed of it
  (\<^verbatim>\<open>server/src/plugins/store.ts\<close>, \<^verbatim>\<open>tools.ts\<close>): whose credential reaches a vendor, when a call is made
  at all, and what the trail says of it.
\<close>

section \<open>Secrets the store writes\<close>

definition store_secret ::
  "plugin_env \<Rightarrow> string \<Rightarrow> int \<Rightarrow> string \<Rightarrow> string \<Rightarrow> string \<Rightarrow> jsv \<Rightarrow> string \<Rightarrow> string plugin_io" where
  "store_secret env fresh now kind provider key metadata plaintext w =
     (case pv_encrypt env plaintext of
        None \<Rightarrow> (Inl (Plain_error ''DataError''), w)
      | Some v \<Rightarrow>
          (case store_create \<lparr>cr_id = fresh, cr_kind = kind, cr_provider = provider, cr_key = key, cr_metadata = metadata,
               cr_value = v, cr_created = now, cr_revoked = None\<rparr> (pw_credentials w) of
             (Inl m, rows) \<Rightarrow> (Inl (Plain_error m), w\<lparr>pw_credentials := rows\<rparr>)
           | (Inr r, rows) \<Rightarrow> (Inr (cr_id r), w\<lparr>pw_credentials := rows\<rparr>)))"

text \<open>\<^verbatim>\<open>credentials.revoke(id).catch(() => ...)\<close>.\<close>

definition revoke_quietly :: "string \<Rightarrow> int \<Rightarrow> plugin_world \<Rightarrow> plugin_world" where
  "revoke_quietly i now w = w\<lparr>pw_credentials := snd (store_revoke i now (pw_credentials w))\<rparr>"

definition register_oauth_client ::
  "plugin_env \<Rightarrow> string \<Rightarrow> oauth_client \<Rightarrow> string \<Rightarrow> string \<Rightarrow> int \<Rightarrow> unit plugin_io" where
  "register_oauth_client env server client by fresh now =
     pm_bind (require_server server) (\<lambda>(row, entry).
       if \<not> is_user_oauth entry then pm_throw (Custom_refused (server @ '' is not reached with an OAuth client.''))
       else
         pm_bind (store_secret env fresh now ''mcp_oauth_client'' server (''oauth-client-'' @ server)
             (JObj [(''server'', JStr server), (''clientId'', JStr (oc_id client))])
             (js_stringify (JObj [(''clientId'', JStr (oc_id client)), (''clientSecret'', JStr (oc_secret client))]))) (\<lambda>i.
         pm_then (pm_change (change_server server (\<lambda>s. s\<lparr>sv_credential := Some i\<rparr>)))
        (pm_then (if truthy (sv_credential row) then pm_change (revoke_quietly (the (sv_credential row)) now) else pm_return ())
           (plugin_event env ''mcp.oauth_client_registered'' ''mcp_server'' server
              [(''actor'', JStr by), (''server'', JStr server), (''clientId'', JStr (oc_id client)),
               (''replaced'', JBool (sv_credential row \<noteq> None))]))))"

text \<open>The row of the pair is written once and then updated; the server it names has to be there.\<close>

definition store_connection :: "user_credential \<Rightarrow> unit plugin_io" where
  "store_connection u w =
     (if server_with (uc_server u) w = None then (Inl (Plain_error ''foreign key''), w)
      else (Inr (), w\<lparr>pw_people :=
        (if held_by (uc_server u) (uc_user u) w \<noteq> None
         then map (\<lambda>v. if uc_server v = uc_server u \<and> uc_user v = uc_user u
             then v\<lparr>uc_credential := uc_credential u, uc_scope := uc_scope u\<rparr> else v) (pw_people w)
         else pw_people w @ [u])\<rparr>))"

definition record_connection ::
  "plugin_env \<Rightarrow> string \<Rightarrow> string \<Rightarrow> string \<Rightarrow> string \<Rightarrow> string \<Rightarrow> int \<Rightarrow> unit plugin_io" where
  "record_connection env server user refresh scope fresh now =
     pm_bind pm_get (\<lambda>w. let previous = held_by server user w in
       pm_bind (store_secret env fresh now ''mcp_user_token'' server user
           (JObj [(''server'', JStr server), (''scope'', JStr scope)]) refresh) (\<lambda>i.
       pm_then (store_connection \<lparr>uc_server = server, uc_user = user, uc_credential = i, uc_scope = scope, uc_connected = now\<rparr>)
      (pm_then (case previous of None \<Rightarrow> pm_return () | Some p \<Rightarrow> pm_change (revoke_quietly (uc_credential p) now))
         (plugin_event env ''mcp.account_connected'' ''mcp_server'' server
            [(''actor'', JStr user), (''server'', JStr server), (''scope'', JStr scope),
             (''reconnected'', JBool (previous \<noteq> None))]))))"

definition oauth_client_for :: "plugin_env \<Rightarrow> string \<Rightarrow> plugin_world \<Rightarrow> jsv option" where
  "oauth_client_for env server w =
     (case server_with server w of
        None \<Rightarrow> None
      | Some row \<Rightarrow>
          if \<not> truthy (sv_credential row) then None
          else (case decrypt_credential_for_use (pv_decrypt env) (the (sv_credential row)) (pw_credentials w) of
              Inl m \<Rightarrow> None
            | Inr text \<Rightarrow> (case pv_parse env text of Inl m \<Rightarrow> None | Inr j \<Rightarrow> Some j)))"

definition connections_for :: "plugin_env \<Rightarrow> string \<Rightarrow> plugin_world \<Rightarrow> (string \<times> string \<times> int) list" where
  "connections_for env user w =
     map (\<lambda>u. (uc_server u, uc_scope u, uc_connected u))
       (sort_key (pv_collate env \<circ> uc_server) (filter (\<lambda>u. uc_user u = user) (pw_people w)))"

text \<open>The loop over what the person owns, \<open>n\<close> being how many were retired so far.\<close>

fun retire_all :: "plugin_env \<Rightarrow> string \<Rightarrow> string \<Rightarrow> int \<Rightarrow> credential_row list \<Rightarrow> nat \<Rightarrow> nat plugin_io" where
  "retire_all env user by now [] n = pm_return n"
| "retire_all env user by now (c # cs) n =
     (if cr_revoked c \<noteq> None then retire_all env user by now cs n
      else
        pm_then (\<lambda>w. case store_revoke (cr_id c) now (pw_credentials w) of
            (Inl m, rows) \<Rightarrow> (Inl (Plain_error m), w\<lparr>pw_credentials := rows\<rparr>)
          | (Inr at, rows) \<Rightarrow> (Inr at, w\<lparr>pw_credentials := rows\<rparr>))
       (pm_then (plugin_event env ''mcp.account_disconnected'' ''mcp_server'' (cr_provider c)
            [(''actor'', JStr by), (''server'', JStr (cr_provider c)), (''owner'', JStr user),
             (''reason'', JStr ''person_removed''), (''vendorRevoked'', JBool False)])
          (retire_all env user by now cs (Suc n))))"

definition retire_connections_for :: "plugin_env \<Rightarrow> string \<Rightarrow> string \<Rightarrow> int \<Rightarrow> nat plugin_io" where
  "retire_connections_for env user by now =
     (if user = [] then pm_return 0
      else pm_bind pm_get (\<lambda>w.
        pm_bind (retire_all env user by now (filter (\<lambda>c. cr_kind c = ''mcp_user_token'' \<and> cr_key c = user) (pw_credentials w)) 0) (\<lambda>n.
        pm_then (pm_change (\<lambda>w. w\<lparr>pw_people := filter (\<lambda>u. uc_user u \<noteq> user) (pw_people w)\<rparr>))
          (pm_return n))))"

section \<open>A call\<close>

definition without_empty_optionals :: "(string \<times> jsv) list \<Rightarrow> jsv option \<Rightarrow> (string \<times> jsv) list" where
  "without_empty_optionals args schema =
     (let required = (case schema of None \<Rightarrow> [] | Some s \<Rightarrow>
            (case js_field s ''required'' of Some (JArr vs) \<Rightarrow> vs | _ \<Rightarrow> [])) in
      filter (\<lambda>(k, v). JStr k \<in> set required \<or> v \<noteq> JStr []) args)"

definition call_context :: "string \<Rightarrow> string \<Rightarrow> string \<Rightarrow> string \<Rightarrow> string \<Rightarrow> bool \<Rightarrow> policy_context" where
  "call_context ref bot_id actor server tool writes =
     \<lparr>ctx_tool = tool_name_for ref, ctx_bot = bot_id, ctx_url = [], ctx_host = [], ctx_actor = actor,
      ctx_element = Some \<lparr>pe_ref = [], pe_role = [], pe_name = [], pe_type = Some []\<rparr>, ctx_key = Some [],
      ctx_intent = Some (if writes then Write_tool else Read_tool),
      ctx_file = Some \<lparr>pf_path = [], pf_name = [], pf_extension = []\<rparr>,
      ctx_mcp = Some \<lparr>pm_server = server, pm_tool = tool, pm_effect = (if writes then Mcp_write else Mcp_read)\<rparr>,
      ctx_command = None\<rparr>"

definition call_payload ::
  "string \<Rightarrow> string \<Rightarrow> string \<Rightarrow> string \<Rightarrow> bool \<Rightarrow> string \<Rightarrow> policy_decision \<Rightarrow> (string \<times> jsv) list" where
  "call_payload actor bot_id server tool writes reached d =
     [(''actor'', JStr actor), (''bot'', JStr bot_id), (''server'', JStr server), (''tool'', JStr tool),
      (''effect'', JStr (if writes then ''write'' else ''read'')), (''reachedAs'', JStr reached),
      (''decision'', JObj [(''allowed'', JBool (dec_allowed d)), (''mode'', JStr (mode_text (dec_mode d))),
         (''rule'', or_nothing (dec_matched d)), (''source'', JStr (source_text (dec_source d))),
         (''carriedOut'', JBool (dec_forward d))])]"

definition advertised_tool :: "string \<Rightarrow> string \<Rightarrow> plugin_world \<Rightarrow> tool_row option" where
  "advertised_tool server tool w = find (\<lambda>t. tl_server t = server \<and> tl_name t = tool) (pw_tools w)"

text \<open>The attempt of a call that is let through: the token, the vendor, the row.\<close>

definition attempt_call ::
  "plugin_env \<Rightarrow> server_row \<Rightarrow> catalogue_entry option \<Rightarrow> string \<Rightarrow> string \<Rightarrow> string \<Rightarrow> (string \<times> jsv) list
     \<Rightarrow> (string \<times> jsv) list \<Rightarrow> (string \<times> bool) plugin_io" where
  "attempt_call env row entry ref actor tool args decided =
     pm_catch
       (pm_bind (connection_token_for env row entry actor) (\<lambda>token.
        pm_bind (pm_send (pv_call env)
            (Tool_called (transport_for entry) (effective_url (pv_pattern env) row entry) token tool args)) (\<lambda>(text, is_error).
        pm_then (plugin_event env (if is_error then ''mcp.call_failed'' else ''mcp.call_succeeded'') ''mcp_tool'' ref
            (if is_error then decided @ [(''failure'', JStr (if text = [] then ''the tool reported an error'' else take 400 text))]
             else decided))
          (pm_return (text, is_error)))))
       (\<lambda>e. pm_then (plugin_event env ''mcp.call_failed'' ''mcp_tool'' ref (decided @ [(''failure'', JStr (plugin_message e))]))
          (pm_throw e))"

text \<open>Whether the tool counts as a write, what the policy says, and the row of the decision.\<close>

definition call_writes :: "string \<Rightarrow> string \<Rightarrow> catalogue_entry option \<Rightarrow> plugin_world \<Rightarrow> bool" where
  "call_writes server tool entry w = classify_tool entry tool (advertised_tool server tool w \<noteq> None)"

definition call_verdict_of ::
  "plugin_env \<Rightarrow> string \<Rightarrow> string \<Rightarrow> string \<Rightarrow> string \<Rightarrow> string \<Rightarrow> catalogue_entry option \<Rightarrow> plugin_world \<Rightarrow> policy_decision" where
  "call_verdict_of env ref bot_id actor server tool entry w =
     fst (evaluate_action_policy (pv_cel env) (pv_regex env) (Some (pv_policy env))
       (call_context ref bot_id actor server tool (call_writes server tool entry w)))"

definition decided_call ::
  "plugin_env \<Rightarrow> string \<Rightarrow> (string \<times> jsv) list \<Rightarrow> string \<Rightarrow> string \<Rightarrow> string \<Rightarrow> string \<Rightarrow> server_row
     \<Rightarrow> catalogue_entry option \<Rightarrow> (string \<times> bool) plugin_io" where
  "decided_call env ref args bot_id actor server tool row entry =
     pm_bind pm_get (\<lambda>w.
       let d = call_verdict_of env ref bot_id actor server tool entry w;
           decided = call_payload actor bot_id server tool (call_writes server tool entry w) (reached_as_for entry actor) d in
       if \<not> dec_forward d
       then pm_then (plugin_event env ''mcp.call_rejected'' ''mcp_tool'' ref decided)
              (pm_throw (Plugin_refused (dec_reason d) (dec_matched d)))
       else attempt_call env row entry ref actor tool
              (without_empty_optionals args (map_option tl_schema (advertised_tool server tool w))) decided)"

definition call_tool ::
  "plugin_env \<Rightarrow> string \<Rightarrow> (string \<times> jsv) list \<Rightarrow> string \<Rightarrow> string \<Rightarrow> (string \<times> bool) plugin_io" where
  "call_tool env ref args bot_id actor =
     (let parts = split_on (CHR ''/'') ref; server = hd parts; tool = join_with ''/'' (tl parts) in
      if server = [] \<or> tool = [] then pm_throw (Plugin_refused (ref @ '' is not a tool.'') None)
      else pm_bind pm_get (\<lambda>w.
        case decide Mcp_plugin ref bot_id w of
          Some reason \<Rightarrow>
            pm_then (plugin_event env ''mcp.call_rejected'' ''mcp_tool'' ref
                [(''actor'', JStr actor), (''bot'', JStr bot_id), (''server'', JStr server), (''tool'', JStr tool),
                 (''refusal'', JStr ''not_granted''), (''reason'', JStr reason)])
              (pm_throw (Plugin_refused reason None))
        | None \<Rightarrow>
            pm_bind (require_server server) (\<lambda>(row, entry). decided_call env ref args bot_id actor server tool row entry)))"

section \<open>What a run is handed\<close>

definition tool_answer :: "plugin_error + string \<times> bool \<Rightarrow> string" where
  "tool_answer r =
     (case r of
        Inr (text, is_error) \<Rightarrow> if is_error then ''The vendor reported an error: '' @ text else text
      | Inl (Plugin_refused m rule) \<Rightarrow> ''Refused. '' @ m
      | Inl e \<Rightarrow> ''That tool could not be called: '' @ plugin_message e)"

definition execute_tool :: "plugin_env \<Rightarrow> string \<Rightarrow> jsv \<Rightarrow> string \<Rightarrow> string \<Rightarrow> plugin_world \<Rightarrow> string \<times> plugin_world" where
  "execute_tool env ref args bot_id actor w =
     (case call_tool env ref (case args of JObj kvs \<Rightarrow> kvs | _ \<Rightarrow> []) bot_id actor w of (r, w') \<Rightarrow> (tool_answer r, w'))"

definition granted_tools :: "plugin_env \<Rightarrow> string \<Rightarrow> plugin_world \<Rightarrow> selectable_tool list" where
  "granted_tools env bot_id w = map (\<lambda>t. \<lparr>st_ref = ot_ref t\<rparr>) (gp_tools (list_for_agent env bot_id w))"

definition granted_skills :: "plugin_env \<Rightarrow> string \<Rightarrow> plugin_world \<Rightarrow> selectable_skill list" where
  "granted_skills env bot_id w =
     map (\<lambda>(k, refs). \<lparr>sk_slug = si_slug k, sk_title = si_title k, sk_summary = si_summary k, sk_tools = refs\<rparr>)
       (gp_skills (list_for_agent env bot_id w))"

end
