(* ===== verification/Plugin_Facts.thy ===== *)
theory Plugin_Facts
  imports Plugin_Calls
begin

text \<open>
  What holds of the plugin store: a call goes out only with a grant and the policy's leave, with the
  credential of the person asking where a vendor is reached as that person, and the trail says what
  happened.  Relations between the world before and after an operation are proved once for each way of
  putting operations together (\<open>steps\<close>) and then for each operation.
\<close>

section \<open>Operations and a relation they keep\<close>

named_theorems steps_intro

definition steps :: "(plugin_world \<Rightarrow> plugin_world \<Rightarrow> bool) \<Rightarrow> 'a plugin_io \<Rightarrow> bool" where
  "steps R m \<longleftrightarrow> (\<forall>w. R w (snd (m w)))"

locale kept =
  fixes R :: "plugin_world \<Rightarrow> plugin_world \<Rightarrow> bool"
  assumes same: "R w w"
    and joined: "R u v \<Longrightarrow> R v w \<Longrightarrow> R u w"
    and audit_only: "R w (w\<lparr>pw_audit := as\<rparr>)"
begin

lemma steps_return: "steps R (pm_return x)" "steps R (pm_throw e)" "steps R pm_get" "steps R (pm_lift r)"
  by (simp_all add: steps_def pm_return_def pm_throw_def pm_get_def pm_lift_def same)

lemma steps_D: "steps R m \<Longrightarrow> m w = (r, w') \<Longrightarrow> R w w'"
  unfolding steps_def by (metis snd_conv)

lemma steps_bind:
  assumes "steps R m" and "\<And>x. steps R (k x)"
  shows "steps R (pm_bind m k)"
proof (unfold steps_def, rule allI)
  fix w
  obtain r w' where m: "m w = (r, w')" by fastforce
  have "R w w'" using steps_D [OF assms(1) m] .
  then show "R w (snd (pm_bind m k w))"
    using assms(2) by (cases r) (auto simp: pm_bind_def m steps_def intro: joined)
qed

lemma steps_catch:
  assumes "steps R m" and "\<And>e. steps R (h e)"
  shows "steps R (pm_catch m h)"
proof (unfold steps_def, rule allI)
  fix w
  obtain r w' where m: "m w = (r, w')" by fastforce
  have "R w w'" using steps_D [OF assms(1) m] .
  then show "R w (snd (pm_catch m h w))"
    using assms(2) by (cases r) (auto simp: pm_catch_def m steps_def intro: joined)
qed

lemma steps_change: "(\<And>w. R w (f w)) \<Longrightarrow> steps R (pm_change f)"
  by (simp add: steps_def pm_change_def)

lemma steps_event: "steps R (plugin_event env kind tt t payload)"
  by (auto simp: steps_def plugin_event_def Let_def same audit_only split: option.split)

lemma steps_require: "steps R (require_server i)"
  by (auto simp: steps_def require_server_def same split: option.split)

lemma steps_secret_for: "steps R (secret_for env i on_revoked)"
  by (simp add: steps_def secret_for_def same)

lemma steps_listed: "steps R (listed_server env i asked)"
  by (auto simp: steps_def listed_server_def same split: option.split)

lemmas steps_all = steps_return steps_bind steps_catch steps_event steps_require steps_secret_for steps_listed

end

text \<open>What an operation adds to what was sent.\<close>

definition appends :: "(plugin_sent \<Rightarrow> bool) \<Rightarrow> plugin_world \<Rightarrow> plugin_world \<Rightarrow> bool" where
  "appends P w w' \<longleftrightarrow> (\<exists>new. pw_sent w' = pw_sent w @ new \<and> list_all P new)"

interpretation sent: kept "appends P" for P
proof
  fix u v w as
  show "appends P w w" by (simp add: appends_def)
  show "appends P u v \<Longrightarrow> appends P v w \<Longrightarrow> appends P u w" by (fastforce simp: appends_def)
  show "appends P w (w\<lparr>pw_audit := as\<rparr>)" by (simp add: appends_def)
qed

text \<open>An operation that leaves the accounts and only grows the vault.\<close>

definition vault_kept :: "plugin_world \<Rightarrow> plugin_world \<Rightarrow> bool" where
  "vault_kept w w' \<longleftrightarrow> pw_people w' = pw_people w \<and> pw_credentials w' = pw_credentials w"

interpretation vault: kept vault_kept
  by unfold_locales (simp_all add: vault_kept_def)

lemma appends_send: "P s \<Longrightarrow> steps (appends P) (pm_send f s)"
  by (simp add: steps_def appends_def pm_send_def Let_def)

lemma appends_change: "(\<And>w. pw_sent (f w) = pw_sent w) \<Longrightarrow> steps (appends P) (pm_change f)"
  by (simp add: steps_def pm_change_def appends_def)

lemma vault_send: "steps vault_kept (pm_send f s)"
  by (simp add: steps_def vault_kept_def pm_send_def Let_def)

section \<open>A call needs a grant and the policy's leave\<close>

text \<open>Whether a call of this ref by this Bot is one the store lets through.\<close>

definition call_let_through :: "plugin_env \<Rightarrow> string \<Rightarrow> string \<Rightarrow> string \<Rightarrow> plugin_world \<Rightarrow> bool" where
  "call_let_through env ref bot_id actor w \<longleftrightarrow>
     (let server = hd (split_on (CHR ''/'') ref); tool = join_with ''/'' (tl (split_on (CHR ''/'') ref)) in
      server \<noteq> [] \<and> tool \<noteq> [] \<and> granted Mcp_plugin ref bot_id w
      \<and> (case require_server server w of
           (Inl e, w') \<Rightarrow> False
         | (Inr (row, entry), w') \<Rightarrow> dec_forward (call_verdict_of env ref bot_id actor server tool entry w)))"

lemma require_server_world: "require_server i w = (r, w') \<Longrightarrow> w' = w"
  by (auto simp: require_server_def split: option.splits if_splits)

text \<open>The rest of a refused call: a row, and the refusal.\<close>

lemma refused_sends: "pw_sent (snd (pm_then (plugin_event env kind tt t p) (pm_throw e) w)) = pw_sent w"
  by (auto simp: pm_bind_def plugin_event_def pm_throw_def Let_def split: option.split)

theorem stopped_call_sends_nothing:
  "if call_let_through env ref bot_id actor w then True
   else pw_sent (snd (call_tool env ref args bot_id actor w)) = pw_sent w"
proof -
  let ?server = "hd (split_on (CHR ''/'') ref)"
  let ?tool = "join_with ''/'' (tl (split_on (CHR ''/'') ref))"
  have "pw_sent (snd (call_tool env ref args bot_id actor w)) = pw_sent w" if "\<not> call_let_through env ref bot_id actor w"
  proof (cases "?server = [] \<or> ?tool = [] \<or> \<not> granted Mcp_plugin ref bot_id w")
    case True
    then show ?thesis
      by (auto simp: call_tool_def Let_def pm_throw_def pm_bind_def [of pm_get] pm_get_def decide_def refused_sends)
  next
    case False
    obtain r where r: "require_server ?server w = (r, w)"
      using require_server_world by (metis surj_pair)
    show ?thesis
    proof (cases r)
      case (Inl e)
      with False r show ?thesis
        by (simp add: call_tool_def Let_def pm_bind_def pm_get_def decide_def)
    next
      case (Inr re)
      obtain row entry where re: "re = (row, entry)" by (cases re)
      have "\<not> dec_forward (call_verdict_of env ref bot_id actor ?server ?tool entry w)"
        using that False r Inr re by (simp add: call_let_through_def Let_def)
      with False r Inr re show ?thesis
        by (simp add: call_tool_def Let_def pm_bind_def [of pm_get] pm_bind_def [of "require_server i" for i] pm_get_def decide_def
            decided_call_def refused_sends)
    qed
  qed
  then show ?thesis by simp
qed

section \<open>What the trail says of a call\<close>

text \<open>A token is asked for with the refresh token the vault holds for the person asking, or not at all.\<close>

lemma secret_for_cases:
  "secret_for env i m w = (r, w') \<Longrightarrow>
   w' = w \<and> (case r of Inr s \<Rightarrow> decrypt_credential_for_use (pv_decrypt env) i (pw_credentials w) = Inr s | Inl e \<Rightarrow> True)"
  by (auto simp: secret_for_def split: sum.splits if_splits)

lemma pm_bind_Inr: "m w = (Inr x, w') \<Longrightarrow> pm_bind m k w = k x w'"
  by (simp add: pm_bind_def)

lemma pm_bind_Inl: "m w = (Inl e, w') \<Longrightarrow> pm_bind m k w = (Inl e, w')"
  by (simp add: pm_bind_def)

lemma pm_bind_get [simp]: "pm_bind pm_get k w = k w w"
  by (simp add: pm_bind_def pm_get_def)

lemma pm_bind_lift [simp]: "pm_bind (pm_lift r) k w = (case r of Inl e \<Rightarrow> (Inl e, w) | Inr x \<Rightarrow> k x w)"
  by (simp add: pm_bind_def pm_lift_def)

lemma pm_throw_apply [simp]: "pm_throw e w = (Inl e, w)"
  by (simp add: pm_throw_def)

text \<open>The access token in the answer to what was last sent.\<close>

definition minted :: "plugin_env \<Rightarrow> plugin_sent list \<Rightarrow> string option" where
  "minted env sent = (case pv_token env sent of Inr (st, Inr b) \<Rightarrow> js_string_field b ''access_token'' | _ \<Rightarrow> None)"

lemma exchange_cases:
  assumes "exchange_refresh_token env token_url client refresh w = (r, w')"
  shows "w' = w\<lparr>pw_sent := pw_sent w @ [Token_asked token_url (exchange_body client refresh)]\<rparr>
    \<and> (case r of Inr t \<Rightarrow> minted env (pw_sent w') = Some t | Inl e \<Rightarrow> True)"
  using assms
  by (auto simp: exchange_refresh_token_def pm_send_def Let_def minted_def split: sum.splits prod.splits if_splits dest!: truthyE)

text \<open>The part of \<open>own_token\<close> after the person's refresh token was read.\<close>

lemma client_part_cases:
  assumes "pm_bind (secret_for env i m) (\<lambda>text.
      pm_bind (pm_lift (case pv_parse env text of Inl m \<Rightarrow> Inl (Plain_error m) | Inr j \<Rightarrow> client_of j)) (\<lambda>client.
        exchange_refresh_token env token_url client refresh)) w = (r, w')"
  shows "(w' = w \<and> (\<exists>e. r = Inl e)) \<or>
    (\<exists>client. w' = w\<lparr>pw_sent := pw_sent w @ [Token_asked token_url (exchange_body client refresh)]\<rparr>
       \<and> (case r of Inr t \<Rightarrow> minted env (pw_sent w') = Some t | Inl e \<Rightarrow> True))"
proof -
  obtain y v where y: "secret_for env i m w = (y, v)" by fastforce
  then have v: "v = w" using secret_for_cases by blast
  show ?thesis
  proof (cases y)
    case (Inl e)
    then show ?thesis using assms y v by (auto simp: pm_bind_Inl)
  next
    case (Inr plain)
    let ?c = "case pv_parse env plain of Inl m \<Rightarrow> Inl (Plain_error m) | Inr j \<Rightarrow> client_of j"
    have "(r, w') = (case ?c of Inl e \<Rightarrow> (Inl e, w) | Inr client \<Rightarrow> exchange_refresh_token env token_url client refresh w)"
      using assms y v Inr by (simp only: pm_bind_Inr pm_bind_lift)
    then show ?thesis using exchange_cases [of env token_url _ refresh w r w'] by (cases ?c) auto
  qed
qed

lemma own_token_cases:
  assumes "own_token env row title token_url actor w = (r, w')"
  shows "(w' = w \<and> (\<exists>e. r = Inl e)) \<or>
    (\<exists>held refresh client. actor \<noteq> [] \<and> held_by (sv_id row) actor w = Some held
       \<and> decrypt_credential_for_use (pv_decrypt env) (uc_credential held) (pw_credentials w) = Inr refresh
       \<and> w' = w\<lparr>pw_sent := pw_sent w @ [Token_asked token_url (exchange_body client refresh)]\<rparr>
       \<and> (case r of Inr t \<Rightarrow> minted env (pw_sent w') = Some t | Inl e \<Rightarrow> True))"
proof (cases "actor = [] \<or> held_by (sv_id row) actor w = None")
  case True
  with assms show ?thesis by (cases "actor = []") (auto simp: own_token_def)
next
  case False
  then obtain held where held: "actor \<noteq> []" "held_by (sv_id row) actor w = Some held" by auto
  obtain x v where x: "secret_for env (uc_credential held) (access_withdrawn title) w = (x, v)" by fastforce
  then have v: "v = w" using secret_for_cases by blast
  show ?thesis
  proof (cases x)
    case (Inl e)
    with assms held x v show ?thesis by (auto simp: own_token_def pm_bind_Inl)
  next
    case (Inr refresh)
    with x secret_for_cases have dec: "decrypt_credential_for_use (pv_decrypt env) (uc_credential held) (pw_credentials w) = Inr refresh"
      by fastforce
    show ?thesis
    proof (cases "sv_credential row")
      case None
      with assms held x v Inr show ?thesis by (auto simp: own_token_def pm_bind_Inr)
    next
      case (Some i)
      have "pm_bind (secret_for env i (unusable_client title)) (\<lambda>text.
          pm_bind (pm_lift (case pv_parse env text of Inl m \<Rightarrow> Inl (Plain_error m) | Inr j \<Rightarrow> client_of j)) (\<lambda>client.
            exchange_refresh_token env token_url client refresh)) w = (r, w')"
        using assms held x v Inr Some by (simp add: own_token_def pm_bind_Inr)
      from client_part_cases [OF this] show ?thesis using held dec by blast
    qed
  qed
qed

lemma token_for_keeps:
  assumes "connection_token_for env row entry actor w = (r, w')"
  shows "w' = w\<lparr>pw_sent := pw_sent w'\<rparr>"
proof (cases "case entry of None \<Rightarrow> None | Some e \<Rightarrow>
    (case ce_auth e of User_oauth a token_url r s \<Rightarrow> Some (ce_title e, token_url) | _ \<Rightarrow> None)")
  case None
  with assms show ?thesis
    by (auto simp: connection_token_for_def pm_return_def pm_bind_def dest!: secret_for_cases
        split: option.splits if_splits prod.splits sum.splits)
next
  case (Some tu)
  obtain title token_url where tu: "tu = (title, token_url)" by (cases tu)
  obtain x v where x: "own_token env row title token_url actor w = (x, v)" by fastforce
  have "w' = v"
    using assms Some tu x by (auto simp: connection_token_for_def pm_bind_def pm_return_def split: sum.splits)
  then show ?thesis using own_token_cases [OF x] by auto
qed

text \<open>The environment in which every audit row can be written.\<close>

definition recording :: "plugin_env \<Rightarrow> plugin_env" where
  "recording env = env\<lparr>pv_audit := (\<lambda>as ev. None)\<rparr>"

lemma event_recorded:
  "plugin_event (recording env) kind tt t p w =
     (Inr (), w\<lparr>pw_audit := pw_audit w @
       [record_audit_event \<lparr>ai_type = kind, ai_target_type = tt, ai_target_id = Some t, ai_actor = None, ai_payload = JObj p\<rparr>]\<rparr>)"
  by (simp add: plugin_event_def recording_def)

lemma record_type [simp]: "ai_type (record_audit_event e) = ai_type e"
  by (simp add: record_audit_event_def)

definition added_rows :: "plugin_world \<Rightarrow> plugin_world \<Rightarrow> string list \<Rightarrow> bool" where
  "added_rows w w' kinds \<longleftrightarrow> (\<exists>rows. pw_audit w' = pw_audit w @ rows \<and> map ai_type rows = kinds)"

lemma added_rows_simps [simp]:
  "added_rows w w ks \<longleftrightarrow> ks = []"
  "added_rows w (w\<lparr>pw_audit := pw_audit w @ [ev]\<rparr>) ks \<longleftrightarrow> ks = [ai_type ev]"
  by (auto simp: added_rows_def)

lemma attempt_recorded:
  "case attempt_call (recording env) row entry ref actor tool args p w of
     (r, w') \<Rightarrow> added_rows w w'
       [case r of Inr (t, err) \<Rightarrow> if err then ''mcp.call_failed'' else ''mcp.call_succeeded'' | Inl e \<Rightarrow> ''mcp.call_failed'']"
proof -
  obtain x v where x: "connection_token_for (recording env) row entry actor w = (x, v)" by fastforce
  have v: "pw_audit v = pw_audit w" using token_for_keeps [OF x] by (metis plugin_world.ext_inject plugin_world.surjective plugin_world.update_convs(10))
  show ?thesis
    using v by (cases x)
      (auto simp: attempt_call_def pm_catch_def pm_bind_def x event_recorded pm_throw_def pm_return_def pm_send_def Let_def
        added_rows_def split: sum.split)
qed


end
