(* ===== verification/Plugin_Accounts.thy ===== *)
theory Plugin_Accounts
  imports Plugin_Facts
begin

text \<open>
  The plugin store over time: every operation as a step, the accounts people connected as a function of the
  history, and what follows for the credential a call goes out with, for somebody who was removed, and for
  a skill or a server whose name is taken again.
\<close>

section \<open>Steps\<close>

datatype plugin_op =
    Add_op string "string option" "string option" string int
  | Add_custom_op string string string "string option" string int
  | Remove_op string string
  | Refresh_op string string int
  | Install_op skill_input
  | Uninstall_op string string
  | Grant_plugin_op plugin_kind string string string
  | Revoke_plugin_op plugin_kind string string string
  | Client_op string oauth_client string string int
  | Connect_op string string string string string int
  | Retire_op string string int
  | Call_op string "(string \<times> jsv) list" string string
  | Credential_op credential_op

fun plugin_step :: "plugin_env \<times> plugin_op \<Rightarrow> plugin_world \<Rightarrow> plugin_world" where
  "plugin_step (env, Add_op key host cred by now) w = snd (add_server env key host cred by now w)"
| "plugin_step (env, Add_custom_op i title raw cred by now) w = snd (add_custom_server env i title raw cred by now w)"
| "plugin_step (env, Remove_op i by) w = snd (remove_server env i by w)"
| "plugin_step (env, Refresh_op i actor now) w = snd (refresh_tools env i actor now w)"
| "plugin_step (env, Install_op x) w = snd (install_skill env x w)"
| "plugin_step (env, Uninstall_op slug by) w = snd (uninstall_skill env slug by w)"
| "plugin_step (env, Grant_plugin_op kind ref agent by) w = snd (grant_plugin env kind ref agent by w)"
| "plugin_step (env, Revoke_plugin_op kind ref agent by) w = snd (revoke_plugin env kind ref agent by w)"
| "plugin_step (env, Client_op server client by fresh now) w = snd (register_oauth_client env server client by fresh now w)"
| "plugin_step (env, Connect_op server user refresh scope fresh now) w = snd (record_connection env server user refresh scope fresh now w)"
| "plugin_step (env, Retire_op user by now) w = snd (retire_connections_for env user by now w)"
| "plugin_step (env, Call_op ref args bot_id actor) w = snd (call_tool env ref args bot_id actor w)"
| "plugin_step (env, Credential_op c) w =
     (let v = credential_step (pv_encrypt env) c \<lparr>cw_rows = pw_credentials w, cw_audit = pw_audit w\<rparr> in
      w\<lparr>pw_credentials := cw_rows v, pw_audit := cw_audit v\<rparr>)"

definition new_plugins :: "(string \<times> string option) list \<Rightarrow> plugin_world" where
  "new_plugins agents = \<lparr>pw_servers = [], pw_tools = [], pw_people = [], pw_skills = [], pw_declared = [], pw_grants = [],
     pw_agents = agents, pw_credentials = [], pw_audit = [], pw_sent = []\<rparr>"

text \<open>The accounts that were connected: server, person, refresh token, and what was stored of it.\<close>

definition connected_by :: "plugin_env \<times> plugin_op \<Rightarrow> (string \<times> string \<times> string \<times> string) list" where
  "connected_by e =
     (case e of
        (env, Connect_op server user refresh scope fresh now) \<Rightarrow>
          (case pv_encrypt env refresh of None \<Rightarrow> [] | Some v \<Rightarrow> [(server, user, refresh, v)])
      | _ \<Rightarrow> [])"

definition accounts :: "(plugin_env \<times> plugin_op) list \<Rightarrow> (string \<times> string \<times> string \<times> string) list" where
  "accounts ops = concat (map connected_by ops)"

section \<open>What the vault and the accounts keep\<close>

definition ids_distinct :: "plugin_world \<Rightarrow> bool" where
  "ids_distinct w \<longleftrightarrow> distinct (map cr_id (pw_credentials w))"

text \<open>No account is new, and a credential keeps its value under its id.\<close>

definition acc_rel :: "plugin_world \<Rightarrow> plugin_world \<Rightarrow> bool" where
  "acc_rel w w' \<longleftrightarrow>
     set (pw_people w') \<subseteq> set (pw_people w) \<and> (ids_distinct w \<longrightarrow> ids_distinct w')
     \<and> (\<forall>c \<in> set (pw_credentials w). \<exists>c' \<in> set (pw_credentials w'). cr_id c' = cr_id c \<and> cr_value c' = cr_value c)"

interpretation acc: kept acc_rel
proof
  fix u v w :: plugin_world and as
  show "acc_rel w w" by (auto simp: acc_rel_def)
  show "acc_rel w (w\<lparr>pw_audit := as\<rparr>)" by (auto simp: acc_rel_def ids_distinct_def)
  assume a: "acc_rel u v" and b: "acc_rel v w"
  show "acc_rel u w"
    unfolding acc_rel_def
  proof (intro conjI ballI)
    show "set (pw_people w) \<subseteq> set (pw_people u)" "ids_distinct u \<longrightarrow> ids_distinct w"
      using a b by (auto simp: acc_rel_def)
    fix c assume "c \<in> set (pw_credentials u)"
    with a obtain d where "d \<in> set (pw_credentials v)" "cr_id d = cr_id c" "cr_value d = cr_value c"
      by (auto simp: acc_rel_def)
    with b show "\<exists>e \<in> set (pw_credentials w). cr_id e = cr_id c \<and> cr_value e = cr_value c"
      unfolding acc_rel_def by metis
  qed
qed

lemma acc_same: "pw_people w' = pw_people w \<Longrightarrow> pw_credentials w' = pw_credentials w \<Longrightarrow> acc_rel w w'"
  by (auto simp: acc_rel_def ids_distinct_def)

lemma acc_fewer: "set (pw_people w') \<subseteq> set (pw_people w) \<Longrightarrow> pw_credentials w' = pw_credentials w \<Longrightarrow> acc_rel w w'"
  by (auto simp: acc_rel_def ids_distinct_def)

lemma store_create_ids: "distinct (map cr_id rows) \<Longrightarrow> distinct (map cr_id (snd (store_create r rows)))"
  by (auto simp: store_create_def row_with_def find_None_iff)

lemma store_create_in: "set rows \<subseteq> set (snd (store_create r rows))"
  by (auto simp: store_create_def)

lemma store_revoke_ids: "map cr_id (snd (store_revoke i now rows)) = map cr_id rows"
  by (auto simp: store_revoke_def)

lemma store_revoke_in:
  "c \<in> set rows \<Longrightarrow> \<exists>c' \<in> set (snd (store_revoke i now rows)). cr_id c' = cr_id c \<and> cr_value c' = cr_value c"
proof (cases "row_with i rows = None")
  case False
  let ?f = "\<lambda>r. if cr_id r = i then r\<lparr>cr_revoked := Some now\<rparr> else r"
  assume "c \<in> set rows"
  then have "?f c \<in> set (map ?f rows)" by (simp only: list.set_map) (rule imageI)
  moreover have "snd (store_revoke i now rows) = map ?f rows" using False by (simp add: store_revoke_def del: not_None_eq)
  ultimately have "?f c \<in> set (snd (store_revoke i now rows))" by simp
  moreover have "cr_id (?f c) = cr_id c \<and> cr_value (?f c) = cr_value c" by simp
  ultimately show ?thesis by blast
qed (auto simp: store_revoke_def)

lemma acc_create:
  "pw_people w' = pw_people w \<Longrightarrow> pw_credentials w' = snd (store_create r (pw_credentials w)) \<Longrightarrow> acc_rel w w'"
  using store_create_in store_create_ids unfolding acc_rel_def ids_distinct_def by fastforce

lemma acc_revoke:
  "pw_people w' = pw_people w \<Longrightarrow> pw_credentials w' = snd (store_revoke i now (pw_credentials w)) \<Longrightarrow> acc_rel w w'"
  using store_revoke_in store_revoke_ids unfolding acc_rel_def ids_distinct_def by (metis order_refl)

text \<open>The primitive operations.\<close>

lemma acc_send [steps_intro]: "steps acc_rel (pm_send f s)"
  by (simp add: steps_def pm_send_def Let_def acc_same)

lemma acc_change_same [steps_intro]:
  "steps acc_rel (pm_change (drop_tools i))" "steps acc_rel (pm_change (change_server i g))"
  "steps acc_rel (pm_change (store_skill x))" "steps acc_rel (pm_change (store_declared slug refs))"
  by (simp_all add: steps_def pm_change_def drop_tools_def change_server_def store_skill_def store_declared_def acc_same)

lemma acc_store_server [steps_intro]: "steps acc_rel (store_server row again)"
  by (auto simp: steps_def store_server_def change_server_def intro!: acc_same)

lemma acc_store_tools [steps_intro]: "steps acc_rel (store_tools i ts)"
  by (auto simp: steps_def store_tools_def intro!: acc_same)

lemma acc_store_secret [steps_intro]: "steps acc_rel (store_secret env fresh now kind provider key metadata plaintext)"
proof -
  have "acc_rel w (snd (store_secret env fresh now kind provider key metadata plaintext w))" for w
  proof (cases "pv_encrypt env plaintext")
    case None
    then show ?thesis by (simp add: store_secret_def acc_same)
  next
    case (Some v)
    let ?r = "\<lparr>cr_id = fresh, cr_kind = kind, cr_provider = provider, cr_key = key, cr_metadata = metadata,
      cr_value = v, cr_created = now, cr_revoked = None\<rparr>"
    obtain r rows where "store_create ?r (pw_credentials w) = (r, rows)" by fastforce
    then show ?thesis
      using acc_create [of "w\<lparr>pw_credentials := rows\<rparr>" w ?r] by (cases r) (simp_all add: store_secret_def Some)
  qed
  then show ?thesis by (simp add: steps_def)
qed

lemma acc_quiet [steps_intro]: "steps acc_rel (pm_change (revoke_quietly i now))"
  by (auto simp: steps_def pm_change_def revoke_quietly_def intro: acc_revoke)

lemmas acc_rules = steps_intro acc.steps_all

section \<open>Every operation but connecting\<close>

lemma acc_exchange: "steps acc_rel (exchange_refresh_token env token_url client refresh)"
  unfolding exchange_refresh_token_def by (rule acc_send)

lemma acc_own_token: "steps acc_rel (own_token env row title token_url actor)"
  unfolding own_token_def
  by (auto intro!: acc_exchange acc_rules split: option.split)

lemma acc_token_for: "steps acc_rel (connection_token_for env row entry actor)"
  unfolding connection_token_for_def
  by (auto intro!: acc_own_token acc_rules split: option.split)

lemma acc_refresh: "steps acc_rel (refresh_tools env i actor now)"
  unfolding refresh_tools_def Let_def
  by (auto intro!: acc_token_for acc_rules split: prod.split)

lemma acc_call: "steps acc_rel (call_tool env ref args bot_id actor)"
  unfolding call_tool_def decided_call_def attempt_call_def Let_def
  by (auto intro!: acc_token_for acc_rules split: prod.split option.split)

lemma acc_add: "steps acc_rel (add_server env key host cred by now)"
  unfolding add_server_def by (auto intro!: acc_refresh acc_rules split: option.split)

lemma acc_add_custom: "steps acc_rel (add_custom_server env i title raw cred by now)"
  unfolding add_custom_server_def by (auto intro!: acc_refresh acc_rules split: option.split)

lemma acc_remove: "steps acc_rel (remove_server env i by)"
  unfolding remove_server_def
  by (intro acc.steps_bind acc.steps_event acc.steps_change acc_fewer) (auto simp: drop_tools_def)

lemma acc_install: "steps acc_rel (install_skill env x)"
  unfolding install_skill_def Let_def by (auto intro!: acc_rules split: option.split)

lemma acc_uninstall: "steps acc_rel (uninstall_skill env slug by)"
  unfolding uninstall_skill_def by (intro acc.steps_bind acc.steps_event acc.steps_change acc_same) simp_all

lemma acc_grant: "steps acc_rel (grant_plugin env kind ref agent by)"
  unfolding grant_plugin_def grant_event_def by (intro acc.steps_bind acc.steps_event acc.steps_change acc_same) simp_all

lemma acc_revoke_grant: "steps acc_rel (revoke_plugin env kind ref agent by)"
  unfolding revoke_plugin_def grant_event_def by (intro acc.steps_bind acc.steps_event acc.steps_change acc_same) simp_all

lemma acc_client: "steps acc_rel (register_oauth_client env server client by fresh now)"
  unfolding register_oauth_client_def by (auto intro!: acc_rules split: prod.split)

lemma acc_revoke_step:
  "steps acc_rel (\<lambda>w :: plugin_world. case store_revoke i now (pw_credentials w) of
       (Inl m, rows) \<Rightarrow> (Inl (Plain_error m), w\<lparr>pw_credentials := rows\<rparr>)
     | (Inr at, rows) \<Rightarrow> (Inr at, w\<lparr>pw_credentials := rows\<rparr>))"
proof (unfold steps_def, rule allI)
  fix w :: plugin_world
  obtain r rows where "store_revoke i now (pw_credentials w) = (r, rows)" by fastforce
  then show "acc_rel w (snd (case store_revoke i now (pw_credentials w) of
       (Inl m, rows) \<Rightarrow> (Inl (Plain_error m), w\<lparr>pw_credentials := rows\<rparr>)
     | (Inr at, rows) \<Rightarrow> (Inr at, w\<lparr>pw_credentials := rows\<rparr>)))"
    using acc_revoke [of "w\<lparr>pw_credentials := rows\<rparr>" w i now] by (cases r) simp_all
qed

lemma acc_retire_all: "steps acc_rel (retire_all env user by now cs n)"
  by (induction cs arbitrary: n) (auto intro!: acc.steps_return acc.steps_bind acc.steps_event acc_revoke_step)

lemma acc_retire: "steps acc_rel (retire_connections_for env user by now)"
  unfolding retire_connections_for_def
  by (auto intro!: acc.steps_return acc.steps_bind acc.steps_change acc_retire_all acc_fewer)

text \<open>The administrator's operations on credentials.\<close>

lemma credential_rows:
  "\<exists>r i t. cw_rows (credential_step encrypt c w) \<in>
     {cw_rows w, snd (store_create r (cw_rows w)), snd (store_revoke i t (cw_rows w)),
      snd (store_revoke i t (snd (store_create r (cw_rows w))))}"
proof (cases c)
  case (Create_op x fresh now)
  then show ?thesis
    using persist_rows [of encrypt x fresh now "cw_rows w"]
    by (fastforce simp: create_credential_def split: prod.split sum.split)
next
  case (Rotate_op x previous fresh now)
  obtain r rows where p: "persist_credential encrypt x fresh now (cw_rows w) = (r, rows)" by fastforce
  obtain q rows' where q: "store_revoke previous now rows = (q, rows')" by fastforce
  have "cw_rows (credential_step encrypt c w) = (case r of Inl e \<Rightarrow> rows | Inr y \<Rightarrow> rows')"
    by (cases r; cases q) (simp_all add: Rotate_op rotate_credential_def p q)
  moreover have "rows' = snd (store_revoke previous now rows)" using q by simp
  moreover have "rows = cw_rows w \<or> (\<exists>y. rows = snd (store_create y (cw_rows w)))"
    using persist_rows [of encrypt x fresh now "cw_rows w"] p by simp
  ultimately show ?thesis by (cases r) auto
next
  case (Revoke_op i actor now)
  obtain r rows where q: "store_revoke i now (cw_rows w) = (r, rows)" by fastforce
  then have "cw_rows (credential_step encrypt c w) = snd (store_revoke i now (cw_rows w))"
    by (cases r) (simp_all add: Revoke_op revoke_credential_def)
  then show ?thesis by blast
qed

lemma acc_credential: "acc_rel w (plugin_step (env, Credential_op c) w)"
proof -
  let ?w' = "plugin_step (env, Credential_op c) w"
  let ?rows = "pw_credentials w"
  obtain r i t where rows: "pw_credentials ?w' \<in>
     {?rows, snd (store_create r ?rows), snd (store_revoke i t ?rows), snd (store_revoke i t (snd (store_create r ?rows)))}"
    using credential_rows [of "pv_encrypt env" c "\<lparr>cw_rows = pw_credentials w, cw_audit = pw_audit w\<rparr>"]
    by (auto simp: Let_def)
  have people: "pw_people ?w' = pw_people w" by (simp add: Let_def)
  let ?u = "w\<lparr>pw_credentials := snd (store_create r ?rows)\<rparr>"
  have u: "acc_rel w ?u" by (intro acc_create) simp_all
  from rows consider "pw_credentials ?w' = ?rows" | "pw_credentials ?w' = snd (store_create r ?rows)"
    | "pw_credentials ?w' = snd (store_revoke i t ?rows)" | "pw_credentials ?w' = snd (store_revoke i t (pw_credentials ?u))"
    by auto
  then show ?thesis
  proof cases
    case 4
    then have "acc_rel ?u ?w'" using people by (intro acc_revoke) simp_all
    with u show ?thesis by (rule acc.joined)
  qed (use people acc_same acc_create acc_revoke in blast)+
qed

section \<open>Whose account an entry is\<close>

definition acc_inv :: "(string \<times> string \<times> string) set \<Rightarrow> plugin_world \<Rightarrow> bool" where
  "acc_inv held w \<longleftrightarrow> ids_distinct w
     \<and> (\<forall>u \<in> set (pw_people w). \<exists>c \<in> set (pw_credentials w).
          cr_id c = uc_credential u \<and> (uc_server u, uc_user u, cr_value c) \<in> held)"

lemma acc_inv_rel: "acc_inv H w \<Longrightarrow> acc_rel w w' \<Longrightarrow> acc_inv H w'"
  unfolding acc_inv_def acc_rel_def by (metis subsetD)

lemma acc_inv_mono: "acc_inv H w \<Longrightarrow> H \<subseteq> H' \<Longrightarrow> acc_inv H' w"
  unfolding acc_inv_def by blast

lemma acc_inv_steps: "steps acc_rel m \<Longrightarrow> acc_inv H w \<Longrightarrow> acc_inv H (snd (m w))"
  unfolding steps_def using acc_inv_rel by blast

lemma store_connection_inv:
  assumes inv: "acc_inv H w" and c: "c \<in> set (pw_credentials w)" "cr_id c = uc_credential u"
    and held: "(uc_server u, uc_user u, cr_value c) \<in> H"
  shows "acc_inv H (snd (store_connection u w))"
proof (cases "server_with (uc_server u) w = None")
  case True
  with inv show ?thesis by (simp add: store_connection_def)
next
  case False
  let ?f = "\<lambda>v. if uc_server v = uc_server u \<and> uc_user v = uc_user u
      then v\<lparr>uc_credential := uc_credential u, uc_scope := uc_scope u\<rparr> else v"
  let ?people = "if held_by (uc_server u) (uc_user u) w \<noteq> None then map ?f (pw_people w) else pw_people w @ [u]"
  have "snd (store_connection u w) = w\<lparr>pw_people := ?people\<rparr>"
    using False by (simp add: store_connection_def del: not_None_eq)
  moreover have "\<exists>c \<in> set (pw_credentials w). cr_id c = uc_credential v \<and> (uc_server v, uc_user v, cr_value c) \<in> H"
    if "v \<in> set ?people" for v
  proof -
    have old: "\<exists>c \<in> set (pw_credentials w). cr_id c = uc_credential x \<and> (uc_server x, uc_user x, cr_value c) \<in> H"
      if "x \<in> set (pw_people w)" for x
      using inv that by (simp add: acc_inv_def)
    have changed: "\<exists>c \<in> set (pw_credentials w). cr_id c = uc_credential (?f x) \<and> (uc_server (?f x), uc_user (?f x), cr_value c) \<in> H"
      if "x \<in> set (pw_people w)" for x
      using old [OF that] c held by auto
    from that consider "v \<in> ?f ` set (pw_people w)" | "v \<in> set (pw_people w)" | "v = u"
      by (auto split: if_splits)
    then show ?thesis
    proof cases
      case 1
      then obtain x where v: "v = ?f x" and x: "x \<in> set (pw_people w)" by blast
      show ?thesis using changed [OF x] by (simp only: v)
    qed (use old c held in auto)
  qed
  ultimately show ?thesis using inv by (simp add: acc_inv_def ids_distinct_def)
qed

lemma store_secret_new:
  assumes "store_secret env fresh now kind provider key metadata plaintext w = (Inr i, w1)"
  shows "i = fresh \<and> (\<exists>v r. pv_encrypt env plaintext = Some v \<and> r \<in> set (pw_credentials w1) \<and> cr_id r = fresh \<and> cr_value r = v)"
proof (cases "pv_encrypt env plaintext")
  case None
  with assms show ?thesis by (simp add: store_secret_def)
next
  case (Some v)
  let ?r = "\<lparr>cr_id = fresh, cr_kind = kind, cr_provider = provider, cr_key = key, cr_metadata = metadata,
      cr_value = v, cr_created = now, cr_revoked = None\<rparr>"
  have "i = fresh \<and> pw_credentials w1 = pw_credentials w @ [?r]"
    using assms by (auto simp: store_secret_def Some store_create_def split: if_splits)
  then have "i = fresh" and r: "?r \<in> set (pw_credentials w1)" by simp_all
  then show ?thesis
    by (intro conjI exI [of _ v] exI [of _ ?r] Some r) simp_all
qed

lemma connect_inv:
  assumes inv: "acc_inv H w"
    and new: "H \<union> (\<lambda>(s, u, r, v). (s, u, v)) ` set (connected_by (env, Connect_op server user refresh scope fresh now)) \<subseteq> H'"
  shows "acc_inv H' (snd (record_connection env server user refresh scope fresh now w))"
proof -
  let ?meta = "JObj [(''server'', JStr server), (''scope'', JStr scope)]"
  let ?u = "\<lparr>uc_server = server, uc_user = user, uc_credential = fresh, uc_scope = scope, uc_connected = now\<rparr>"
  have "H \<subseteq> H'" using new by (simp only: Un_subset_iff)
  then have inv': "acc_inv H' w" by (rule acc_inv_mono [OF inv])
  obtain x w1 where x: "store_secret env fresh now ''mcp_user_token'' server user ?meta refresh w = (x, w1)" by fastforce
  have rel: "acc_rel w w1" using acc.steps_D [OF acc_store_secret x] .
  show ?thesis
  proof (cases x)
    case (Inl e)
    with x rel inv' acc_inv_rel show ?thesis by (simp add: record_connection_def Let_def pm_bind_Inl)
  next
    case (Inr i)
    with x obtain v r where v: "pv_encrypt env refresh = Some v" and r: "i = fresh" "r \<in> set (pw_credentials w1)"
        "cr_id r = fresh" "cr_value r = v"
      using store_secret_new by blast
    have w1: "acc_inv H' w1" using inv' rel by (rule acc_inv_rel)
    have "(server, user, v) \<in> H'" using new v by (auto simp: connected_by_def)
    then have w2: "acc_inv H' (snd (store_connection ?u w1))" using store_connection_inv [OF w1 r(2)] r by simp
    obtain y w2 where y: "store_connection ?u w1 = (y, w2)" by fastforce
    let ?tail = "pm_then (case held_by server user w of None \<Rightarrow> pm_return () | Some p \<Rightarrow> pm_change (revoke_quietly (uc_credential p) now))
         (plugin_event env ''mcp.account_connected'' ''mcp_server'' server
            [(''actor'', JStr user), (''server'', JStr server), (''scope'', JStr scope),
             (''reconnected'', JBool (held_by server user w \<noteq> None))])"
    have tail: "steps acc_rel ?tail" by (auto intro!: acc_rules split: option.split)
    have "record_connection env server user refresh scope fresh now w = pm_bind (store_connection ?u) (\<lambda>_. ?tail) w1"
      using x Inr r(1) by (simp only: record_connection_def Let_def pm_bind_get pm_bind_Inr)
    then show ?thesis
      using y w2 acc_inv_steps [OF tail] by (cases y) (simp_all add: pm_bind_Inr pm_bind_Inl)
  qed
qed

lemmas acc_inv_ops = acc_add [THEN acc_inv_steps] acc_add_custom [THEN acc_inv_steps] acc_remove [THEN acc_inv_steps]
  acc_refresh [THEN acc_inv_steps] acc_install [THEN acc_inv_steps] acc_uninstall [THEN acc_inv_steps]
  acc_grant [THEN acc_inv_steps] acc_revoke_grant [THEN acc_inv_steps] acc_client [THEN acc_inv_steps]
  acc_retire [THEN acc_inv_steps] acc_call [THEN acc_inv_steps]

lemma acc_inv_step:
  assumes "acc_inv H w" and "H \<union> (\<lambda>(s, u, r, v). (s, u, v)) ` set (connected_by e) \<subseteq> H'"
  shows "acc_inv H' (plugin_step e w)"
proof -
  obtain env a where e: "e = (env, a)" by (cases e)
  have "H \<subseteq> H'" using assms(2) by (simp only: Un_subset_iff)
  then have inv: "acc_inv H' w" by (rule acc_inv_mono [OF assms(1)])
  show ?thesis
  proof (cases a)
    case (Connect_op server user refresh scope fresh now)
    with assms e connect_inv show ?thesis by simp
  next
    case (Credential_op c)
    with e inv acc_credential acc_inv_rel show ?thesis by metis
  qed (simp_all add: e acc_inv_ops [OF inv])
qed

definition held_accounts :: "(plugin_env \<times> plugin_op) list \<Rightarrow> (string \<times> string \<times> string) set" where
  "held_accounts ops = (\<lambda>(s, u, r, v). (s, u, v)) ` set (accounts ops)"

lemma acc_inv_run: "acc_inv (held_accounts ops) (fold plugin_step ops (new_plugins agents))"
proof (induction ops rule: rev_induct)
  case Nil
  show ?case by (simp add: acc_inv_def new_plugins_def ids_distinct_def)
next
  case (snoc e ops)
  from acc_inv_step [OF this, of e "held_accounts (ops @ [e])"] show ?case
    by (auto simp: held_accounts_def accounts_def)
qed

text \<open>What is decrypted for an account is what was stored when that very person connected that very server.\<close>

lemma own_refresh_token:
  assumes inv: "acc_inv H w" and held: "held_by server user w = Some u"
    and dec: "decrypt_credential_for_use decrypt (uc_credential u) (pw_credentials w) = Inr refresh"
  shows "\<exists>v. (server, user, v) \<in> H \<and> decrypt v = Inr refresh"
proof -
  have u: "u \<in> set (pw_people w)" "uc_server u = server" "uc_user u = user"
    using held by (auto simp: held_by_def find_Some_iff)
  then obtain c where c: "c \<in> set (pw_credentials w)" "cr_id c = uc_credential u" "(server, user, cr_value c) \<in> H"
    using inv by (auto simp: acc_inv_def)
  obtain d where d: "row_with (uc_credential u) (pw_credentials w) = Some d"
    using dec by (auto simp: decrypt_credential_for_use_def read_secret_def split: option.splits)
  then have "d \<in> set (pw_credentials w)" "cr_id d = uc_credential u" by (auto simp: row_with_def find_Some_iff)
  moreover have "distinct (map cr_id (pw_credentials w))" using inv by (simp add: acc_inv_def ids_distinct_def)
  ultimately have "d = c" using c by (auto simp: distinct_map inj_on_def)
  with dec d c show ?thesis
    by (auto simp: decrypt_credential_for_use_def read_secret_def split: if_splits)
qed

section \<open>Whose credential reaches a vendor\<close>

definition sent_same :: "plugin_world \<Rightarrow> plugin_world \<Rightarrow> bool" where
  "sent_same w w' \<longleftrightarrow> pw_sent w' = pw_sent w"

interpretation quiet: kept sent_same
  by unfold_locales (simp_all add: sent_same_def)

lemma quiet_bind: "(\<And>x. steps sent_same (k x)) \<Longrightarrow> pw_sent (snd (pm_bind m k w)) = pw_sent (snd (m w))"
  by (cases "m w") (auto simp: pm_bind_def steps_def sent_same_def split: sum.split)

lemma quiet_catch: "(\<And>e. steps sent_same (h e)) \<Longrightarrow> pw_sent (snd (pm_catch m h w)) = pw_sent (snd (m w))"
  by (cases "m w") (auto simp: pm_catch_def steps_def sent_same_def split: sum.split)

text \<open>A call sends what getting its token sent, and the call itself where there was one.\<close>

lemma attempt_sends:
  assumes "connection_token_for env row entry actor w = (x, v)"
  shows "pw_sent (snd (attempt_call env row entry ref actor tool args p w)) = pw_sent v @
    (case x of Inl e \<Rightarrow> []
     | Inr token \<Rightarrow> [Tool_called (transport_for entry) (effective_url (pv_pattern env) row entry) token tool args])"
proof -
  let ?send = "\<lambda>token. pm_send (pv_call env)
      (Tool_called (transport_for entry) (effective_url (pv_pattern env) row entry) token tool args)"
  let ?tail = "\<lambda>(t, err). pm_then (plugin_event env (if err then ''mcp.call_failed'' else ''mcp.call_succeeded'') ''mcp_tool'' ref
      (if err then p @ [(''failure'', JStr (if t = [] then ''the tool reported an error'' else take 400 t))] else p))
    (pm_return (t, err))"
  have tail: "pw_sent (snd (pm_bind (?send token) ?tail v)) = pw_sent v @
      [Tool_called (transport_for entry) (effective_url (pv_pattern env) row entry) token tool args]" for token
  proof -
    have "pw_sent (snd (pm_bind (?send token) ?tail v)) = pw_sent (snd (?send token v))"
      by (intro quiet_bind) (auto intro!: quiet.steps_bind quiet.steps_event quiet.steps_return split: prod.split)
    then show ?thesis by (simp add: pm_send_def Let_def)
  qed
  have "pw_sent (snd (attempt_call env row entry ref actor tool args p w)) =
      pw_sent (snd (pm_bind (connection_token_for env row entry actor) (\<lambda>token. pm_bind (?send token) ?tail) w))"
    unfolding attempt_call_def by (intro quiet_catch quiet.steps_bind quiet.steps_event quiet.steps_return)
  then show ?thesis
    using assms tail by (cases x) (simp_all add: pm_bind_Inl pm_bind_Inr)
qed

lemma require_server_known:
  "require_server i w = (Inr (row, entry), w') \<Longrightarrow> w' = w \<and> sv_id row = i \<and> entry = catalogue_entry_of i"
  by (auto simp: require_server_def server_with_def find_Some_iff split: option.splits if_splits)

lemma call_sends:
  assumes "\<not> sent_same w (snd (call_tool env ref args bot_id actor w))"
  obtains row x v args' tool where "sv_id row = hd (split_on (CHR ''/'') ref)"
    and "connection_token_for env row (catalogue_entry_of (sv_id row)) actor w = (x, v)"
    and "pw_sent (snd (call_tool env ref args bot_id actor w)) = pw_sent v @
      (case x of Inl e \<Rightarrow> [] | Inr token \<Rightarrow> [Tool_called (transport_for (catalogue_entry_of (sv_id row)))
         (effective_url (pv_pattern env) row (catalogue_entry_of (sv_id row))) token tool args'])"
proof -
  let ?server = "hd (split_on (CHR ''/'') ref)"
  let ?tool = "join_with ''/'' (tl (split_on (CHR ''/'') ref))"
  have through: "call_let_through env ref bot_id actor w"
    using assms stopped_call_sends_nothing [of env ref bot_id actor w args] by (auto simp: sent_same_def split: if_splits)
  then obtain row entry where r: "require_server ?server w = (Inr (row, entry), w)"
    and f: "dec_forward (call_verdict_of env ref bot_id actor ?server ?tool entry w)"
    using require_server_world by (fastforce simp: call_let_through_def Let_def split: prod.splits sum.splits)
  have "granted Mcp_plugin ref bot_id w" "?server \<noteq> []" "?tool \<noteq> []"
    using through by (simp_all add: call_let_through_def Let_def)
  then have call: "call_tool env ref args bot_id actor w = decided_call env ref args bot_id actor ?server ?tool row entry w"
    using r by (simp add: call_tool_def Let_def decide_def pm_bind_Inr)
  have row: "sv_id row = ?server" "entry = catalogue_entry_of (sv_id row)" using require_server_known [OF r] by simp_all
  obtain x v where x: "connection_token_for env row entry actor w = (x, v)" by fastforce
  have "pw_sent (snd (call_tool env ref args bot_id actor w)) = pw_sent v @
      (case x of Inl e \<Rightarrow> [] | Inr token \<Rightarrow> [Tool_called (transport_for entry) (effective_url (pv_pattern env) row entry) token ?tool
         (without_empty_optionals args (map_option tl_schema (advertised_tool ?server ?tool w)))])"
    unfolding call decided_call_def using f by (simp add: Let_def attempt_sends [OF x])
  note sends = this [unfolded row(2)]
  have token: "connection_token_for env row (catalogue_entry_of (sv_id row)) actor w = (x, v)" using x row(2) by simp
  show thesis by (rule that [OF row(1) token sends])
qed

lemma shared_token_quiet:
  assumes "\<not> is_user_oauth entry" and "connection_token_for env row entry actor w = (x, v)"
  shows "v = w"
proof -
  have "connection_token_for env row entry actor w =
    (if truthy (sv_credential row)
     then pm_bind (secret_for env (the (sv_credential row)) (credential_gone (sv_id row))) (\<lambda>token. pm_return (Some token)) w
     else (Inr None, w))"
    using assms(1)
    by (auto simp: connection_token_for_def is_user_oauth_def pm_return_def truthy_def
        split: option.splits catalogue_auth.splits)
  then show ?thesis
    using assms(2) secret_for_cases [of env "the (sv_credential row)" "credential_gone (sv_id row)" w]
    by (auto simp: pm_bind_def pm_return_def split: if_splits prod.splits sum.splits)
qed

lemma oauth_token_cases:
  assumes "is_user_oauth entry" and "connection_token_for env row entry actor w = (x, v)"
  shows "(v = w \<and> (\<exists>e. x = Inl e)) \<or>
    (\<exists>held refresh u client. actor \<noteq> [] \<and> held_by (sv_id row) actor w = Some held
       \<and> decrypt_credential_for_use (pv_decrypt env) (uc_credential held) (pw_credentials w) = Inr refresh
       \<and> v = w\<lparr>pw_sent := pw_sent w @ [Token_asked u (exchange_body client refresh)]\<rparr>
       \<and> (case x of Inr t \<Rightarrow> t \<noteq> None \<and> t = minted env (pw_sent v) | Inl e \<Rightarrow> True))"
proof -
  obtain title token_url where "connection_token_for env row entry actor =
      pm_bind (own_token env row title token_url actor) (\<lambda>token. pm_return (Some token))"
    using assms(1) by (auto simp: connection_token_for_def is_user_oauth_def split: option.splits catalogue_auth.splits)
  moreover obtain y v' where y: "own_token env row title token_url actor w = (y, v')" by fastforce
  ultimately have "x = (case y of Inl e \<Rightarrow> Inl e | Inr t \<Rightarrow> Inr (Some t)) \<and> v = v'"
    using assms(2) by (cases y) (simp_all add: pm_bind_def pm_return_def)
  with own_token_cases [OF y] show ?thesis by (cases y) fastforce+
qed

text \<open>C6: a call never runs on somebody else's account. Whatever was added, connected, rotated, retired and called
  before, a call for a person asks the vendor for a token only with what was stored when that very person
  connected that very server; and to a server that answers as the person asking, the call itself goes out
  with the token minted for it just then, or does not go out.\<close>

theorem calls_run_as_the_asker:
  "let w = fold plugin_step ops (new_plugins agents); w' = snd (call_tool env ref args bot_id actor w);
       server = hd (split_on (CHR ''/'') ref) in
   pw_sent w' = pw_sent w @ drop (length (pw_sent w)) (pw_sent w')
   \<and> list_all (\<lambda>s. case s of
        Token_asked u form \<Rightarrow>
          actor \<noteq> [] \<and> (\<exists>v refresh. (server, actor, v) \<in> held_accounts ops \<and> pv_decrypt env v = Inr refresh
             \<and> (''refresh_token'', refresh) \<in> set form)
      | Tool_called k u token tool args' \<Rightarrow>
          if is_user_oauth (catalogue_entry_of server)
          then token \<noteq> None \<and> token = minted env (butlast (pw_sent w')) \<and> butlast (pw_sent w') \<noteq> pw_sent w else True
      | Tools_asked k u token \<Rightarrow> False) (drop (length (pw_sent w)) (pw_sent w'))"
proof -
  let ?w = "fold plugin_step ops (new_plugins agents)"
  let ?w' = "snd (call_tool env ref args bot_id actor ?w)"
  show ?thesis
  proof (cases "sent_same ?w ?w'")
    case True
    then show ?thesis by (simp add: sent_same_def)
  next
    case False
    then obtain row x v args' tool where row: "sv_id row = hd (split_on (CHR ''/'') ref)"
      and token: "connection_token_for env row (catalogue_entry_of (sv_id row)) actor ?w = (x, v)"
      and sends: "pw_sent ?w' = pw_sent v @
      (case x of Inl e \<Rightarrow> [] | Inr token \<Rightarrow> [Tool_called (transport_for (catalogue_entry_of (sv_id row)))
         (effective_url (pv_pattern env) row (catalogue_entry_of (sv_id row))) token tool args'])"
      by (rule call_sends)
    show ?thesis
    proof (cases "is_user_oauth (catalogue_entry_of (sv_id row))")
      case True
      show ?thesis
        using oauth_token_cases [OF True token]
      proof
        assume "v = ?w \<and> (\<exists>e. x = Inl e)"
        then show ?thesis using sends by (auto simp: Let_def)
      next
        assume "\<exists>held refresh u client. actor \<noteq> [] \<and> held_by (sv_id row) actor ?w = Some held
          \<and> decrypt_credential_for_use (pv_decrypt env) (uc_credential held) (pw_credentials ?w) = Inr refresh
          \<and> v = ?w\<lparr>pw_sent := pw_sent ?w @ [Token_asked u (exchange_body client refresh)]\<rparr>
          \<and> (case x of Inr t \<Rightarrow> t \<noteq> None \<and> t = minted env (pw_sent v) | Inl e \<Rightarrow> True)"
        then obtain held refresh u client where h: "actor \<noteq> []" "held_by (sv_id row) actor ?w = Some held"
          "decrypt_credential_for_use (pv_decrypt env) (uc_credential held) (pw_credentials ?w) = Inr refresh"
          and v: "pw_sent v = pw_sent ?w @ [Token_asked u (exchange_body client refresh)]"
          and t: "case x of Inr t \<Rightarrow> t \<noteq> None \<and> t = minted env (pw_sent v) | Inl e \<Rightarrow> True"
          by auto
        have "(''refresh_token'', refresh) \<in> set (exchange_body client refresh)" by (simp add: exchange_body_def)
        with own_refresh_token [OF acc_inv_run h(2,3)] show ?thesis
          using h(1) row sends v t True by (cases x) (auto simp: Let_def butlast_append)
      qed
    next
      case no: False
      then have "v = ?w" using shared_token_quiet token by blast
      with no sends row show ?thesis by (cases x) (simp_all add: Let_def)
    qed
  qed
qed

end
