(* ===== verification/Plugin_People.thy ===== *)
theory Plugin_People
  imports Plugin_Accounts
begin

text \<open>
  People and the plugin store: what is left of somebody who was removed, who may put a skill on a Bot
  (\<^verbatim>\<open>server/src/plugins/routes.ts\<close>), and where names that are taken again, failing rows and failing
  listings do what they are not meant to.
\<close>

section \<open>Retiring somebody's connections\<close>

text \<open>The rows of the vault as they were, some revoked since.\<close>

definition same_but_revoked :: "credential_row \<Rightarrow> credential_row \<Rightarrow> bool" where
  "same_but_revoked c c' \<longleftrightarrow> cr_id c' = cr_id c \<and> cr_kind c' = cr_kind c \<and> cr_key c' = cr_key c
     \<and> (cr_revoked c \<noteq> None \<longrightarrow> cr_revoked c' \<noteq> None)"

definition revoked_since :: "credential_row list \<Rightarrow> credential_row list \<Rightarrow> bool" where
  "revoked_since rows rows' \<longleftrightarrow> list_all2 same_but_revoked rows rows'"

lemma revoked_since_refl: "revoked_since rows rows"
  by (auto simp: revoked_since_def same_but_revoked_def intro: list_all2_refl)

lemma revoked_since_trans: "revoked_since u v \<Longrightarrow> revoked_since v w \<Longrightarrow> revoked_since u w"
  unfolding revoked_since_def
  by (rule list_all2_trans [of same_but_revoked same_but_revoked]) (auto simp: same_but_revoked_def)

lemma revoked_since_revoke: "revoked_since rows (snd (store_revoke i now rows))"
  by (auto simp: store_revoke_def revoked_since_def list.rel_map same_but_revoked_def intro!: list_all2_refl)

lemma revoke_revokes:
  "store_revoke i now rows = (Inr at, rows') \<Longrightarrow> \<forall>c \<in> set rows'. cr_id c = i \<longrightarrow> cr_revoked c \<noteq> None"
proof -
  let ?f = "\<lambda>r. if cr_id r = i then r\<lparr>cr_revoked := Some now\<rparr> else r"
  assume "store_revoke i now rows = (Inr at, rows')"
  then have "rows' = map ?f rows" by (simp add: store_revoke_def split: if_splits)
  then have rows: "set rows' = ?f ` set rows" by (simp only: list.set_map)
  have fact: "cr_id (?f r) = i \<longrightarrow> cr_revoked (?f r) \<noteq> None" for r by simp
  show ?thesis unfolding rows by (rule ballI, erule imageE, simp only:, rule fact)
qed

lemma revoked_since_keeps:
  assumes "revoked_since rows rows'" and "\<forall>c \<in> set rows. cr_id c = i \<longrightarrow> cr_revoked c \<noteq> None"
  shows "\<forall>c \<in> set rows'. cr_id c = i \<longrightarrow> cr_revoked c \<noteq> None"
  using assms unfolding revoked_since_def
  by (induction rule: list_all2_induct) (auto simp: same_but_revoked_def)

lemma event_vault: "pw_credentials (snd (plugin_event env kind tt t p w)) = pw_credentials w"
  by (simp add: plugin_event_def Let_def split: option.split)

lemma retire_all_revokes:
  "retire_all env user by now cs n w = (Inr m, w') \<Longrightarrow>
     revoked_since (pw_credentials w) (pw_credentials w')
     \<and> (\<forall>c \<in> set cs. cr_revoked c = None \<longrightarrow> (\<forall>d \<in> set (pw_credentials w'). cr_id d = cr_id c \<longrightarrow> cr_revoked d \<noteq> None))"
proof (induction cs arbitrary: n w)
  case Nil
  then show ?case by (simp add: pm_return_def revoked_since_refl)
next
  case (Cons c cs)
  show ?case
  proof (cases "cr_revoked c = None")
    case False
    with Cons show ?thesis by auto
  next
    case True
    obtain r rows where r: "store_revoke (cr_id c) now (pw_credentials w) = (r, rows)" by fastforce
    let ?w1 = "w\<lparr>pw_credentials := rows\<rparr>"
    let ?ev = "plugin_event env ''mcp.account_disconnected'' ''mcp_server'' (cr_provider c)
            [(''actor'', JStr by), (''server'', JStr (cr_provider c)), (''owner'', JStr user),
             (''reason'', JStr ''person_removed''), (''vendorRevoked'', JBool False)]"
    obtain q w2 where q: "?ev ?w1 = (q, w2)" by fastforce
    have rest: "r = Inr (case r of Inr at \<Rightarrow> at | Inl e \<Rightarrow> 0) \<and> q = Inr () \<and> retire_all env user by now cs (Suc n) w2 = (Inr m, w')"
      using Cons.prems True r q by (cases r; cases q) (simp_all add: pm_bind_def)
    have "pw_credentials (snd (?ev ?w1)) = rows" by (simp add: event_vault)
    then have w2: "pw_credentials w2 = rows" using q by simp
    from rest Cons.IH have later: "revoked_since rows (pw_credentials w')"
      "\<forall>c \<in> set cs. cr_revoked c = None \<longrightarrow> (\<forall>d \<in> set (pw_credentials w'). cr_id d = cr_id c \<longrightarrow> cr_revoked d \<noteq> None)"
      using w2 by metis+
    have "revoked_since (pw_credentials w) rows" using revoked_since_revoke [of "pw_credentials w" "cr_id c" now] r by simp
    moreover have "\<forall>d \<in> set (pw_credentials w'). cr_id d = cr_id c \<longrightarrow> cr_revoked d \<noteq> None"
      using revoke_revokes r rest later(1) revoked_since_keeps by metis
    ultimately show ?thesis using later revoked_since_trans by auto
  qed
qed

text \<open>No account of this person is held.\<close>

definition users_rel :: "string \<Rightarrow> plugin_world \<Rightarrow> plugin_world \<Rightarrow> bool" where
  "users_rel user w w' \<longleftrightarrow> uc_user ` set (pw_people w') \<subseteq> insert user (uc_user ` set (pw_people w))"

interpretation users: kept "users_rel user" for user
proof
  fix u v w :: plugin_world and as
  show "users_rel user w w" "users_rel user w (w\<lparr>pw_audit := as\<rparr>)" by (auto simp: users_rel_def)
  show "users_rel user u v \<Longrightarrow> users_rel user v w \<Longrightarrow> users_rel user u w" unfolding users_rel_def by blast
qed

lemma users_acc: "acc_rel w w' \<Longrightarrow> uc_user ` set (pw_people w') \<subseteq> uc_user ` set (pw_people w)"
  by (auto simp: acc_rel_def)

lemma users_steps: "steps acc_rel m \<Longrightarrow> steps (users_rel user) m"
  using users_acc unfolding steps_def users_rel_def by blast

lemma users_connect: "steps (users_rel user) (record_connection env server user refresh scope fresh now)"
proof -
  have "steps (users_rel user) (store_connection u)" if "uc_user u = user" for u
    using that by (auto simp: steps_def users_rel_def store_connection_def)
  then show ?thesis
    unfolding record_connection_def Let_def
    by (auto intro!: users.steps_bind users.steps_return users.steps_event
        users_steps [OF acc_store_secret] users_steps [OF acc_quiet]
        split: option.split)
qed

definition connects :: "string \<Rightarrow> plugin_env \<times> plugin_op \<Rightarrow> bool" where
  "connects user e = (case snd e of Connect_op server u refresh scope fresh now \<Rightarrow> u = user | _ \<Rightarrow> False)"

definition nobody :: "string \<Rightarrow> plugin_world \<Rightarrow> bool" where
  "nobody user w \<longleftrightarrow> user \<notin> uc_user ` set (pw_people w)"

lemma acc_other_steps:
  "(case a of Connect_op server u refresh scope fresh now \<Rightarrow> False | _ \<Rightarrow> True) \<Longrightarrow> acc_rel w (plugin_step (env, a) w)"
proof (cases a)
  case (Credential_op c)
  then show ?thesis using acc_credential by metis
qed (use acc_add acc_add_custom acc_remove acc_refresh acc_install acc_uninstall acc_grant acc_revoke_grant acc_client
  acc_retire acc_call in \<open>auto simp: steps_def\<close>)

lemma nobody_step: "\<not> connects user e \<Longrightarrow> nobody user w \<Longrightarrow> nobody user (plugin_step e w)"
proof -
  assume no: "\<not> connects user e" and n: "nobody user w"
  obtain env a where e: "e = (env, a)" by (cases e)
  show ?thesis
  proof (cases "case a of Connect_op server u refresh scope fresh now \<Rightarrow> False | _ \<Rightarrow> True")
    case True
    then show ?thesis using users_acc acc_other_steps n unfolding nobody_def e by blast
  next
    case False
    then obtain server u refresh scope fresh now where a: "a = Connect_op server u refresh scope fresh now"
      by (auto split: plugin_op.splits)
    with no e have "u \<noteq> user" by (simp add: connects_def)
    with users_connect [of u env server refresh scope fresh now] n show ?thesis
      unfolding nobody_def e a by (auto simp: steps_def users_rel_def)
  qed
qed

lemma nobody_run: "list_all (\<lambda>e. \<not> connects user e) ops \<Longrightarrow> nobody user w \<Longrightarrow> nobody user (fold plugin_step ops w)"
  by (induction ops arbitrary: w) (simp_all add: nobody_step)

text \<open>C7: nothing usable is left of somebody who was removed. Once retiring a person's connections has answered,
  every token of theirs in the vault is revoked; and until they connect an account again, no call made for
  them sends anything to a server that answers as the person asking, whatever else happens.\<close>

theorem removed_person_has_no_access:
  "case retire_connections_for env user by now w of (r, w') \<Rightarrow>
     (case r of
        Inl e \<Rightarrow> True
      | Inr n \<Rightarrow>
          if user = [] then w' = w
          else
            list_all (\<lambda>c. if cr_kind c = ''mcp_user_token'' \<and> cr_key c = user then cr_revoked c \<noteq> None else True) (pw_credentials w')
            \<and> (if list_all (\<lambda>e. \<not> connects user e) later \<and> is_user_oauth (catalogue_entry_of (hd (split_on (CHR ''/'') ref)))
               then pw_sent (snd (call_tool env' ref args bot_id user (fold plugin_step later w')))
                  = pw_sent (fold plugin_step later w')
               else True))"
proof (cases "user = [] \<or> (\<exists>e. fst (retire_connections_for env user by now w) = Inl e)")
  case True
  then show ?thesis by (auto simp: retire_connections_for_def pm_return_def split: prod.split sum.split)
next
  case False
  let ?owned = "filter (\<lambda>c. cr_kind c = ''mcp_user_token'' \<and> cr_key c = user) (pw_credentials w)"
  obtain x v where x: "retire_all env user by now ?owned 0 w = (x, v)" by fastforce
  with False obtain n where n: "x = Inr n" by (cases x) (auto simp: retire_connections_for_def pm_bind_Inl)
  let ?w' = "v\<lparr>pw_people := filter (\<lambda>u. uc_user u \<noteq> user) (pw_people v)\<rparr>"
  have outcome: "retire_connections_for env user by now w = (Inr n, ?w')"
    using False x n by (simp add: retire_connections_for_def pm_bind_Inr) (simp add: pm_bind_def pm_change_def pm_return_def)
  have since: "revoked_since (pw_credentials w) (pw_credentials v)"
    and all: "\<forall>c \<in> set ?owned. cr_revoked c = None \<longrightarrow>
      (\<forall>d \<in> set (pw_credentials v). cr_id d = cr_id c \<longrightarrow> cr_revoked d \<noteq> None)"
    using retire_all_revokes [OF x [unfolded n]] by blast+
  have "cr_revoked d \<noteq> None" if d: "d \<in> set (pw_credentials v)" "cr_kind d = ''mcp_user_token''" "cr_key d = user" for d
  proof -
    obtain k where k: "k < length (pw_credentials v)" "d = pw_credentials v ! k" using d(1) by (metis in_set_conv_nth)
    let ?c = "pw_credentials w ! k"
    have c: "same_but_revoked ?c d" "?c \<in> set (pw_credentials w)"
      using since k by (auto simp: revoked_since_def list_all2_conv_all_nth)
    show ?thesis
    proof (cases "cr_revoked ?c = None")
      case True
      have "?c \<in> set ?owned" "cr_id d = cr_id ?c" using c d by (auto simp: same_but_revoked_def)
      then show ?thesis using all True d(1) by blast
    qed (use c in \<open>simp add: same_but_revoked_def\<close>)
  qed
  then have vault: "list_all (\<lambda>c. if cr_kind c = ''mcp_user_token'' \<and> cr_key c = user then cr_revoked c \<noteq> None else True)
      (pw_credentials ?w')"
    by (auto simp: list_all_iff)
  have quiet: "pw_sent (snd (call_tool env' ref args bot_id user (fold plugin_step later ?w'))) = pw_sent (fold plugin_step later ?w')"
    if l: "list_all (\<lambda>e. \<not> connects user e) later" and o: "is_user_oauth (catalogue_entry_of (hd (split_on (CHR ''/'') ref)))"
  proof (rule ccontr)
    let ?u = "fold plugin_step later ?w'"
    have "nobody user ?u" using l by (intro nobody_run) (auto simp: nobody_def)
    then have none: "held_by i user ?u = None" for i by (auto simp: held_by_def nobody_def find_None_iff)
    assume "pw_sent (snd (call_tool env' ref args bot_id user ?u)) \<noteq> pw_sent ?u"
    then have "\<not> sent_same ?u (snd (call_tool env' ref args bot_id user ?u))" by (simp add: sent_same_def)
    then obtain row y z args' tool where row: "sv_id row = hd (split_on (CHR ''/'') ref)"
      and token: "connection_token_for env' row (catalogue_entry_of (sv_id row)) user ?u = (y, z)"
      and sends: "pw_sent (snd (call_tool env' ref args bot_id user ?u)) = pw_sent z @
      (case y of Inl e \<Rightarrow> [] | Inr token \<Rightarrow> [Tool_called (transport_for (catalogue_entry_of (sv_id row)))
         (effective_url (pv_pattern env') row (catalogue_entry_of (sv_id row))) token tool args'])"
      by (rule call_sends)
    have "z = ?u \<and> (\<exists>e. y = Inl e)"
      using oauth_token_cases [OF _ token] o row none by auto
    with sends \<open>pw_sent (snd (call_tool env' ref args bot_id user ?u)) \<noteq> pw_sent ?u\<close> show False by auto
  qed
  show ?thesis using outcome False vault quiet by simp
qed

section \<open>Who may put a skill on a Bot\<close>

text \<open>\<^verbatim>\<open>skillRefusal\<close> and \<^verbatim>\<open>enablementRefusal\<close>, with the text of the refusal.\<close>

definition skill_refusal :: "skill_actor \<Rightarrow> string \<Rightarrow> plugin_world \<Rightarrow> string option" where
  "skill_refusal actor slug w =
     (if ka_admin actor then None
      else case skill_owner slug w of
        None \<Rightarrow> None
      | Some None \<Rightarrow> Some (slug @ '' belongs to this deployment. An administrator looks after it.'')
      | Some (Some owner) \<Rightarrow>
          if owner = ka_id actor then None else Some (slug @ '' is somebody else's skill.''))"

definition enablement_refusal :: "skill_actor \<Rightarrow> plugin_kind \<Rightarrow> string \<Rightarrow> string \<Rightarrow> plugin_world \<Rightarrow> string option" where
  "enablement_refusal actor kind ref agent w =
     (if ka_admin actor then None
      else if kind = Mcp_plugin then Some ''An administrator decides which Bots may reach a tool.''
      else case skill_owner ref w of
        None \<Rightarrow> Some (''There is no skill called '' @ ref @ ''.'')
      | Some None \<Rightarrow> Some (ref @ '' belongs to this deployment. An administrator decides which Bots use it.'')
      | Some (Some owner) \<Rightarrow>
          if owner \<noteq> ka_id actor then Some (ref @ '' is somebody else's skill.'')
          else (case agent_owner agent w of
              None \<Rightarrow> Some ''There is no such Bot.''
            | Some bot_owner \<Rightarrow>
                if bot_owner \<noteq> Some (ka_id actor) then Some ''You can only put your own skills on Bots you own.'' else None))"

definition post_skill :: "plugin_env \<Rightarrow> skill_actor \<Rightarrow> skill_input \<Rightarrow> bool \<Rightarrow> plugin_world \<Rightarrow> (nat \<times> string) option \<times> plugin_world" where
  "post_skill env actor x global w =
     (if kx_slug x = [] \<or> kx_title x = [] \<or> kx_instructions x = []
      then (Some (400, ''A slug, a title and instructions are required.''), w)
      else if \<not> server_slug (kx_slug x) then (Some (400, ''A slug is lower-case letters, numbers and hyphens.''), w)
      else if global \<and> \<not> ka_admin actor then (Some (403, ''Only an administrator writes a skill for the deployment.''), w)
      else case skill_refusal actor (kx_slug x) w of
        Some m \<Rightarrow> (Some (403, m), w)
      | None \<Rightarrow>
          (case install_skill env (x\<lparr>kx_owner := (if global then None else Some (ka_id actor))\<rparr>) w of
             (Inl e, w') \<Rightarrow> (Some (case e of Plugin_refused m r \<Rightarrow> (400, m) | _ \<Rightarrow> (500, plugin_message e)), w')
           | (Inr u, w') \<Rightarrow> (None, w')))"

definition delete_skill :: "plugin_env \<Rightarrow> skill_actor \<Rightarrow> string \<Rightarrow> string \<Rightarrow> plugin_world \<Rightarrow> (nat \<times> string) option \<times> plugin_world" where
  "delete_skill env actor slug by w =
     (case skill_refusal actor slug w of
        Some m \<Rightarrow> (Some (403, m), w)
      | None \<Rightarrow>
          (case uninstall_skill env slug by w of
             (Inl e, w') \<Rightarrow> (Some (500, plugin_message e), w') | (Inr u, w') \<Rightarrow> (None, w')))"

definition post_grant ::
  "plugin_env \<Rightarrow> skill_actor \<Rightarrow> plugin_kind \<Rightarrow> string \<Rightarrow> string \<Rightarrow> string \<Rightarrow> plugin_world \<Rightarrow> (nat \<times> string) option \<times> plugin_world" where
  "post_grant env actor kind ref agent by w =
     (if ref = [] \<or> agent = [] then (Some (400, ''A kind, a ref and a Bot are required.''), w)
      else case enablement_refusal actor kind ref agent w of
        Some m \<Rightarrow> (Some (403, m), w)
      | None \<Rightarrow>
          (case grant_plugin env kind ref agent by w of
             (Inl e, w') \<Rightarrow> (Some (500, plugin_message e), w') | (Inr u, w') \<Rightarrow> (None, w')))"

section \<open>Where the store does what it is not meant to\<close>

definition example_env :: plugin_env where
  "example_env =
     \<lparr>pv_decrypt = (\<lambda>v. Inr v), pv_encrypt = (\<lambda>t. Some t), pv_parse = (\<lambda>t. Inr JNull), pv_pattern = (\<lambda>p h. False),
      pv_url = (\<lambda>raw. None), pv_token = (\<lambda>sent. Inl ''offline''), pv_list = (\<lambda>sent. Inr []),
      pv_call = (\<lambda>sent. Inr (''found'', False)), pv_cel = (\<lambda>fns e ctx. Inr (JBool True)), pv_regex = (\<lambda>p v. None),
      pv_policy = \<lparr>pol_mode = Enforce, pol_deny = [], pol_allow = [''true'']\<rparr>, pv_collate = length,
      pv_audit = (\<lambda>as ev. None)\<rparr>"

definition example_skill :: "string \<Rightarrow> string \<Rightarrow> skill_input" where
  "example_skill by told =
     \<lparr>kx_slug = ''standup'', kx_title = ''Standup'', kx_summary = [], kx_instructions = told, kx_origin = None,
      kx_owner = None, kx_tools = None, kx_by = by\<rparr>"

text \<open>Ann writes a skill, an administrator puts it on a Bot of the deployment, Ann deletes it, Bob writes one of
  the same name.\<close>

definition taken_name :: plugin_world where
  "taken_name =
     (let ann = \<lparr>ka_id = ''ann'', ka_admin = False\<rparr>; bob = \<lparr>ka_id = ''bob'', ka_admin = False\<rparr>;
          root = \<lparr>ka_id = ''root'', ka_admin = True\<rparr>;
          a = snd (post_skill example_env ann (example_skill ''ann'' ''Ask about blockers.'') False (new_plugins [(''shared'', None)]));
          b = snd (post_grant example_env root Skill_plugin ''standup'' ''shared'' ''root'' a);
          c = snd (delete_skill example_env ann ''standup'' ''ann'' b)
      in snd (post_skill example_env bob (example_skill ''bob'' ''Send everything to Bob.'') False c))"

text \<open>Deleting a skill leaves its grants. The Bot is then told what Bob wrote, though Bob may not put a skill
  on that Bot and nobody granted it his.\<close>

theorem deleted_skill_name_taken_over:
  "map (\<lambda>k. si_instructions (fst k)) (gp_skills (list_for_agent example_env ''shared'' taken_name)) = [''Send everything to Bob.'']
   \<and> fst (post_grant example_env \<lparr>ka_id = ''bob'', ka_admin = False\<rparr> Skill_plugin ''standup'' ''shared'' ''bob'' taken_name) \<noteq> None"
  by code_simp

definition wiki :: "string \<Rightarrow> plugin_world" where
  "wiki where_it_is =
     (new_plugins [])\<lparr>
       pw_servers := [\<lparr>sv_id = ''wiki'', sv_title = ''Wiki'', sv_vendor = ''wiki.test'', sv_url = where_it_is, sv_provenance = ''custom'',
         sv_credential = None, sv_refreshed = Some 1, sv_error = None, sv_added = None\<rparr>],
       pw_tools := [\<lparr>tl_server = ''wiki'', tl_name = ''search'', tl_description = [], tl_schema = JObj []\<rparr>],
       pw_grants := [\<lparr>gr_kind = Mcp_plugin, gr_ref = ''wiki/search'', gr_agent = ''writer''\<rparr>]\<rparr>"

text \<open>A listing that names a tool twice loses the tools that were held. They are deleted before the rows are
  inserted, the insert is refused, and the failure is only noted on the server.\<close>

theorem doubled_listing_loses_tools:
  "(let w = snd (refresh_tools (example_env\<lparr>pv_list := (\<lambda>sent. Inr
        [\<lparr>vt_name = ''read'', vt_description = [], vt_schema = JObj []\<rparr>, \<lparr>vt_name = ''read'', vt_description = [], vt_schema = JObj []\<rparr>])\<rparr>)
        ''wiki'' [] 5 (wiki ''https://wiki.test'')) in
      (pw_tools w, map sv_error (pw_servers w))) = ([], [Some ''duplicate key''])"
  by code_simp

text \<open>A call that worked is reported and recorded as failed when its row of success cannot be written: the
  insert stands inside the try whose catch records failures.\<close>

theorem unrecorded_success_is_a_failure:
  "(case call_tool (example_env\<lparr>pv_audit := (\<lambda>as ev. if ai_type ev = ''mcp.call_succeeded'' then Some ''timeout'' else None)\<rparr>)
        ''wiki/search'' [] ''writer'' ''ann'' (wiki ''https://wiki.test'') of
      (r, w) \<Rightarrow> (r, map ai_type (pw_audit w), length (pw_sent w))) = (Inl (Plain_error ''timeout''), [''mcp.call_failed''], 1)"
  by code_simp

text \<open>A rule about commands refuses every tool call. The context of a call binds every other field, so that
  rules about the browser come out false, but no command: a rule that names it cannot be evaluated and
  counts as a match.\<close>

theorem command_rule_refuses_tool_calls:
  "(let env = example_env\<lparr>pv_policy := \<lparr>pol_mode = Enforce, pol_deny = [''contains(command, rm)''], pol_allow = [''true'']\<rparr>,
        pv_cel := (\<lambda>fns e ctx. if e = ''true'' then Inr (JBool True)
          else case ctx_command ctx of None \<Rightarrow> Inl ''Identifier command not found'' | Some c \<Rightarrow> Inr (JBool (fn_contains fns c ''rm'')))\<rparr> in
    case call_tool env ''wiki/search'' [] ''writer'' ''ann'' (wiki ''https://wiki.test'') of
      (r, w) \<Rightarrow> (case r of Inl (Plugin_refused m rule) \<Rightarrow> rule | _ \<Rightarrow> None, map ai_type (pw_audit w), pw_sent w))
   = (Some ''contains(command, rm)'', [''mcp.call_rejected''], [])"
  by code_simp

text \<open>Removing a server leaves its grants. A server added later under the name, at another address, is
  called with them.\<close>

theorem removed_server_grants_stay:
  "(let gone = snd (remove_server example_env ''wiki'' ''root'' (wiki ''https://wiki.test''));
        back = gone\<lparr>pw_servers := pw_servers (wiki ''https://elsewhere.test'')\<rparr> in
    map (\<lambda>s. case s of Tool_called k u t n a \<Rightarrow> u | _ \<Rightarrow> []) (pw_sent (snd (call_tool example_env ''wiki/search'' [] ''writer'' ''ann'' back))))
   = [''https://elsewhere.test'']"
  by code_simp

end
