(* ===== verification/Agents.thy ===== *)
theory Agents
  imports Credentials Signed Target Roles "HOL-Library.AList"
begin

text \<open>
  The coworkers of a deployment (\<^verbatim>\<open>server/src/agents\<close>): their profiles and who may see, change and run them,
  the key a customer's agent sits behind, and the token it calls back with.

  The tables are one record. A transaction is a function on it whose writes are undone when it throws or when
  its commit fails, which is an argument; the vault is reached through its own connection, so what was written
  there stays. Ids, random bytes and the clock are arguments, as are encryption, the hash and the URL parser.
  A coworker's configuration is the JSON object every writer makes it, and its package is one that is there,
  which the reference between the tables says.
\<close>

section \<open>Tables\<close>

datatype agent_type = Built_in_agent | Remote_agent
datatype visibility = Public | Private

record agent_row =
  ag_id :: string
  ag_name :: string
  ag_type :: agent_type
  ag_configuration :: "(string \<times> jsv) list"
  ag_package :: "string option"

record profile_row =
  pf_agent :: string
  pf_owner :: "string option"
  pf_title :: string
  pf_role :: string
  pf_seed :: string
  pf_visibility :: visibility
  pf_token :: "string option"
  pf_deleted :: "int option"

record preference_row =
  pr_user :: string
  pr_agent :: string
  pr_hidden :: "int option"

record agent_tables =
  at_agents :: "agent_row list"
  at_profiles :: "profile_row list"
  at_preferences :: "preference_row list"

record agent_world =
  aw_tables :: agent_tables
  aw_vault :: "credential_row list"

record agent_actor =
  aa_id :: string
  aa_role :: role

datatype agent_error =
    Agent_not_found string
  | Agent_not_manageable string
  | Agent_protected string
  | Managed_unavailable
  | Agent_failure string

fun agent_error_text :: "agent_error \<Rightarrow> string" where
  "agent_error_text (Agent_not_found i) = ''Agent '' @ i @ '' was not found.''"
| "agent_error_text (Agent_not_manageable i) = ''Agent '' @ i @ '' cannot be managed by this actor.''"
| "agent_error_text (Agent_protected i) = ''Agent '' @ i @ '' is protected.''"
| "agent_error_text Managed_unavailable = ''This deployment has no managed Bot. Give the coworker its own AG-UI endpoint.''"
| "agent_error_text (Agent_failure m) = m"

text \<open>What is answered of a coworker.\<close>

record agent_profile =
  ap_id :: string
  ap_name :: string
  ap_title :: string
  ap_role :: string
  ap_seed :: string
  ap_visibility :: visibility
  ap_owner :: "string option"
  ap_system :: bool
  ap_hidden :: bool
  ap_deleted :: "int option"
  ap_endpoint :: "string option"
  ap_harness :: "string option"
  ap_has_auth :: bool
  ap_has_token :: bool

record agent_input =
  an_name :: string
  an_title :: string
  an_role :: string
  an_visibility :: visibility
  an_endpoint :: "string option"
  an_auth :: "(string \<times> string) option"

section \<open>Who may do what\<close>

definition can_access_agent :: "agent_actor \<Rightarrow> agent_profile \<Rightarrow> bool" where
  "can_access_agent actor p \<longleftrightarrow>
     (if ap_deleted p \<noteq> None then False
      else ap_visibility p = Public \<or> ap_owner p = Some (aa_id actor) \<or> aa_role actor = Admin_role)"

definition can_manage_agent :: "agent_actor \<Rightarrow> agent_profile \<Rightarrow> bool" where
  "can_manage_agent actor p \<longleftrightarrow>
     (if ap_system p \<or> ap_deleted p \<noteq> None then False
      else ap_owner p = Some (aa_id actor) \<or> aa_role actor = Admin_role)"

definition require_manageable :: "agent_actor \<Rightarrow> agent_profile \<Rightarrow> agent_error option" where
  "require_manageable actor p =
     (if ap_system p then Some (Agent_protected (ap_id p))
      else if \<not> can_manage_agent actor p then Some (Agent_not_manageable (ap_id p)) else None)"

section \<open>The key an agent sits behind\<close>

record agent_auth =
  au_header :: string
  au_credential :: string

definition auth_from_configuration :: "(string \<times> jsv) list \<Rightarrow> agent_auth option" where
  "auth_from_configuration configuration =
     (case map_of configuration ''auth'' of
        Some auth \<Rightarrow>
          (case (js_string_field auth ''header'', js_string_field auth ''credentialId'') of
             (Some h, Some c) \<Rightarrow> Some \<lparr>au_header = h, au_credential = c\<rparr> | _ \<Rightarrow> None)
      | None \<Rightarrow> None)"

definition credential_id_of :: "(string \<times> jsv) list \<Rightarrow> string option" where
  "credential_id_of configuration =
     (case map_of configuration ''auth'' of Some auth \<Rightarrow> js_string_field auth ''credentialId'' | None \<Rightarrow> None)"

definition store_agent_auth ::
  "(string \<Rightarrow> string option) \<Rightarrow> string \<Rightarrow> int \<Rightarrow> string \<Rightarrow> string \<Rightarrow> string \<Rightarrow> credential_row list
     \<Rightarrow> (string + jsv) \<times> credential_row list" where
  "store_agent_auth encrypt fresh now agent header v rows =
     (case encrypt v of
        None \<Rightarrow> (Inl ''DataError'', rows)
      | Some sealed \<Rightarrow>
          (case store_create \<lparr>cr_id = fresh, cr_kind = ''agent'', cr_provider = ''ag-ui'', cr_key = agent,
               cr_metadata = JObj [(''header'', JStr header)], cr_value = sealed, cr_created = now, cr_revoked = None\<rparr> rows of
             (Inl m, rows') \<Rightarrow> (Inl m, rows')
           | (Inr r, rows') \<Rightarrow> (Inr (JObj [(''header'', JStr header), (''credentialId'', JStr (cr_id r))]), rows')))"

definition retire_replaced_key ::
  "int \<Rightarrow> (string \<times> jsv) list \<Rightarrow> (string \<times> jsv) list \<Rightarrow> credential_row list \<Rightarrow> credential_row list" where
  "retire_replaced_key now previous later rows =
     (let before = credential_id_of previous in
      if \<not> truthy before \<or> before = credential_id_of later then rows
      else snd (store_revoke (the before) now rows))"

text \<open>The headers to send to this agent, or none, or the error of a secret that cannot be read.\<close>

definition agent_auth_headers ::
  "(string \<Rightarrow> string + string) \<Rightarrow> credential_row list \<Rightarrow> agent_auth option \<Rightarrow> string + (string \<times> string) option" where
  "agent_auth_headers decrypt rows auth =
     (case auth of
        None \<Rightarrow> Inr None
      | Some a \<Rightarrow>
          (case read_secret (au_credential a) rows of
             None \<Rightarrow> Inr None
           | Some (sealed, revoked) \<Rightarrow>
               if revoked \<noteq> None then Inr None
               else (case decrypt sealed of Inl e \<Rightarrow> Inl e | Inr v \<Rightarrow> Inr (Some (au_header a, v)))))"

section \<open>Reading\<close>

definition endpoint_of :: "(string \<times> jsv) list \<Rightarrow> string option" where
  "endpoint_of configuration = (case map_of configuration ''endpoint'' of Some (JStr e) \<Rightarrow> Some e | _ \<Rightarrow> None)"

definition harness_of :: "(string \<times> jsv) list \<Rightarrow> string option" where
  "harness_of configuration = (case map_of configuration ''harness'' of Some (JStr (c # h)) \<Rightarrow> Some (c # h) | _ \<Rightarrow> None)"

definition hidden_at :: "agent_tables \<Rightarrow> agent_actor \<Rightarrow> string \<Rightarrow> int option" where
  "hidden_at t actor i =
     Option.bind (find (\<lambda>h. pr_agent h = i \<and> pr_user h = aa_id actor) (at_preferences t)) pr_hidden"

definition map_profile :: "agent_tables \<Rightarrow> agent_actor \<Rightarrow> agent_row \<times> profile_row \<Rightarrow> agent_profile" where
  "map_profile t actor = (\<lambda>(a, p).
     \<lparr>ap_id = ag_id a, ap_name = ag_name a, ap_title = pf_title p, ap_role = pf_role p, ap_seed = pf_seed p,
      ap_visibility = pf_visibility p, ap_owner = pf_owner p, ap_system = (ag_package a \<noteq> None),
      ap_hidden = (hidden_at t actor (ag_id a) \<noteq> None), ap_deleted = pf_deleted p,
      ap_endpoint = endpoint_of (ag_configuration a), ap_harness = harness_of (ag_configuration a),
      ap_has_auth = (auth_from_configuration (ag_configuration a) \<noteq> None), ap_has_token = (pf_token p \<noteq> None)\<rparr>)"

text \<open>The inner join of the two tables, and the condition a query filters by.\<close>

definition joined_profiles :: "agent_tables \<Rightarrow> (agent_row \<times> profile_row) list" where
  "joined_profiles t = filter (\<lambda>(a, p). pf_agent p = ag_id a) (List.product (at_agents t) (at_profiles t))"

definition access_filter :: "agent_actor \<Rightarrow> profile_row \<Rightarrow> bool" where
  "access_filter actor p \<longleftrightarrow>
     (if aa_role actor = Admin_role then True else pf_visibility p = Public \<or> pf_owner p = Some (aa_id actor))"

definition readable :: "agent_actor \<Rightarrow> agent_tables \<Rightarrow> (agent_row \<times> profile_row) list" where
  "readable actor t = filter (\<lambda>(a, p). pf_deleted p = None \<and> access_filter actor p) (joined_profiles t)"

definition find_accessible :: "agent_tables \<Rightarrow> agent_actor \<Rightarrow> string \<Rightarrow> agent_profile option" where
  "find_accessible t actor i = map_option (map_profile t actor) (find (\<lambda>(a, p). ag_id a = i) (readable actor t))"

definition list_agents :: "agent_actor \<Rightarrow> bool \<Rightarrow> agent_tables \<Rightarrow> agent_profile list" where
  "list_agents actor hidden t =
     map (map_profile t actor) (filter (\<lambda>(a, p). (hidden_at t actor (ag_id a) \<noteq> None) = hidden) (readable actor t))"

definition find_by_token_hash :: "string \<Rightarrow> agent_tables \<Rightarrow> string option" where
  "find_by_token_hash hash t =
     (case find (\<lambda>p. pf_token p = Some hash \<and> pf_deleted p = None) (at_profiles t) of
        None \<Rightarrow> None
      | Some p \<Rightarrow>
          (case pf_token p of None \<Rightarrow> None | Some stored \<Rightarrow>
             if stored = [] then None else if same_token stored hash then Some (pf_agent p) else None))"

section \<open>Changes\<close>

record agent_env =
  ae_managed :: "string option"
  ae_encrypt :: "(string \<Rightarrow> string option) option"
  ae_sha256 :: "nat list \<Rightarrow> nat list"
  ae_commits :: bool

text \<open>The tables are as before when the body throws or the commit fails.\<close>

definition transaction ::
  "agent_env \<Rightarrow> (agent_world \<Rightarrow> (agent_error + 'a) \<times> agent_world) \<Rightarrow> agent_world \<Rightarrow> (agent_error + 'a) \<times> agent_world" where
  "transaction env body w =
     (case body w of
        (Inl e, w') \<Rightarrow> (Inl e, w'\<lparr>aw_tables := aw_tables w\<rparr>)
      | (Inr r, w') \<Rightarrow>
          if ae_commits env then (Inr r, w')
          else (Inl (Agent_failure ''could not commit''), w'\<lparr>aw_tables := aw_tables w\<rparr>))"

definition insert_agent :: "agent_row \<Rightarrow> profile_row \<Rightarrow> agent_tables \<Rightarrow> agent_tables option" where
  "insert_agent a p t =
     (if list_ex (\<lambda>b. ag_id b = ag_id a) (at_agents t) \<or> list_ex (\<lambda>q. pf_agent q = pf_agent p) (at_profiles t) then None
      else Some (t\<lparr>at_agents := at_agents t @ [a], at_profiles := at_profiles t @ [p]\<rparr>))"

definition change_profile :: "string \<Rightarrow> (profile_row \<Rightarrow> profile_row) \<Rightarrow> agent_tables \<Rightarrow> agent_tables" where
  "change_profile i f t = t\<lparr>at_profiles := map (\<lambda>p. if pf_agent p = i then f p else p) (at_profiles t)\<rparr>"

definition change_agent :: "string \<Rightarrow> (agent_row \<Rightarrow> agent_row) \<Rightarrow> agent_tables \<Rightarrow> agent_tables" where
  "change_agent i f t = t\<lparr>at_agents := map (\<lambda>a. if ag_id a = i then f a else a) (at_agents t)\<rparr>"

definition configuration_of :: "string \<Rightarrow> agent_tables \<Rightarrow> (string \<times> jsv) list" where
  "configuration_of i t = (case find (\<lambda>a. ag_id a = i) (at_agents t) of None \<Rightarrow> [] | Some a \<Rightarrow> ag_configuration a)"

text \<open>\<^verbatim>\<open>...(input.auth && vault ? { auth: await storeAgentAuth(...) } : {})\<close>.\<close>

definition with_auth ::
  "agent_env \<Rightarrow> agent_input \<Rightarrow> string \<Rightarrow> string \<Rightarrow> int \<Rightarrow> (string \<times> jsv) list \<Rightarrow> credential_row list
     \<Rightarrow> (agent_error + (string \<times> jsv) list) \<times> credential_row list" where
  "with_auth env input agent fresh now configuration rows =
     (case (an_auth input, ae_encrypt env) of
        (Some (header, v), Some encrypt) \<Rightarrow>
          (case store_agent_auth encrypt fresh now agent header v rows of
             (Inl m, rows') \<Rightarrow> (Inl (Agent_failure m), rows')
           | (Inr auth, rows') \<Rightarrow> (Inr (AList.update ''auth'' auth configuration), rows'))
      | _ \<Rightarrow> (Inr configuration, rows))"

definition answer_profile :: "agent_actor \<Rightarrow> string \<Rightarrow> agent_world \<Rightarrow> (agent_error + agent_profile) \<times> agent_world" where
  "answer_profile actor i w =
     (case find_accessible (aw_tables w) actor i of None \<Rightarrow> (Inl (Agent_not_found i), w) | Some p \<Rightarrow> (Inr p, w))"

definition create_agent ::
  "agent_env \<Rightarrow> agent_actor \<Rightarrow> agent_input \<Rightarrow> string \<Rightarrow> string \<Rightarrow> int \<Rightarrow> agent_world \<Rightarrow> (agent_error + agent_profile) \<times> agent_world" where
  "create_agent env actor input i fresh now =
     transaction env (\<lambda>w.
       case (if truthy (an_endpoint input) then an_endpoint input else ae_managed env) of
         None \<Rightarrow> (Inl Managed_unavailable, w)
       | Some endpoint \<Rightarrow>
           (case with_auth env input i fresh now [(''endpoint'', JStr endpoint)] (aw_vault w) of
              (Inl e, rows) \<Rightarrow> (Inl e, w\<lparr>aw_vault := rows\<rparr>)
            | (Inr configuration, rows) \<Rightarrow>
                (case insert_agent
                     \<lparr>ag_id = i, ag_name = an_name input, ag_type = Remote_agent, ag_configuration = configuration, ag_package = None\<rparr>
                     \<lparr>pf_agent = i, pf_owner = Some (aa_id actor), pf_title = an_title input, pf_role = an_role input, pf_seed = i,
                      pf_visibility = an_visibility input, pf_token = None, pf_deleted = None\<rparr> (aw_tables w) of
                   None \<Rightarrow> (Inl (Agent_failure ''duplicate key''), w\<lparr>aw_vault := rows\<rparr>)
                 | Some t \<Rightarrow> answer_profile actor i (w\<lparr>aw_tables := t, aw_vault := rows\<rparr>))))"

text \<open>The profile of an agent this actor may manage, or why not.\<close>

definition managed_profile :: "agent_tables \<Rightarrow> agent_actor \<Rightarrow> string \<Rightarrow> agent_error + agent_profile" where
  "managed_profile t actor i =
     (case find_accessible t actor i of
        None \<Rightarrow> Inl (Agent_not_found i)
      | Some p \<Rightarrow> (case require_manageable actor p of Some e \<Rightarrow> Inl e | None \<Rightarrow> Inr p))"

definition update_agent ::
  "agent_env \<Rightarrow> agent_actor \<Rightarrow> string \<Rightarrow> agent_input \<Rightarrow> string \<Rightarrow> int \<Rightarrow> agent_world \<Rightarrow> (agent_error + agent_profile) \<times> agent_world" where
  "update_agent env actor i input fresh now =
     transaction env (\<lambda>w.
       case managed_profile (aw_tables w) actor i of
         Inl e \<Rightarrow> (Inl e, w)
       | Inr profile \<Rightarrow>
           let previous = configuration_of i (aw_tables w);
               moved = (if truthy (an_endpoint input) then AList.update ''endpoint'' (JStr (the (an_endpoint input))) previous
                        else previous) in
           (case with_auth env input i fresh now moved (aw_vault w) of
              (Inl e, rows) \<Rightarrow> (Inl e, w\<lparr>aw_vault := rows\<rparr>)
            | (Inr configuration, rows) \<Rightarrow>
                let rows' = (if an_auth input \<noteq> None \<and> ae_encrypt env \<noteq> None
                             then retire_replaced_key now previous configuration rows else rows);
                    t = change_profile i (\<lambda>p. p\<lparr>pf_title := an_title input, pf_role := an_role input,
                            pf_visibility := an_visibility input\<rparr>)
                          (change_agent i (\<lambda>a. a\<lparr>ag_name := an_name input, ag_configuration := configuration\<rparr>) (aw_tables w)) in
                answer_profile actor i (w\<lparr>aw_tables := t, aw_vault := rows'\<rparr>)))"

definition duplicate_agent ::
  "agent_env \<Rightarrow> agent_actor \<Rightarrow> string \<Rightarrow> string \<Rightarrow> agent_world \<Rightarrow> (agent_error + agent_profile) \<times> agent_world" where
  "duplicate_agent env actor i copy =
     transaction env (\<lambda>w.
       case find_accessible (aw_tables w) actor i of
         None \<Rightarrow> (Inl (Agent_not_found i), w)
       | Some source \<Rightarrow>
           (case ae_managed env of
              None \<Rightarrow> (Inl Managed_unavailable, w)
            | Some endpoint \<Rightarrow>
                (case insert_agent
                     \<lparr>ag_id = copy, ag_name = ap_name source, ag_type = Remote_agent,
                      ag_configuration = [(''endpoint'', JStr endpoint)], ag_package = None\<rparr>
                     \<lparr>pf_agent = copy, pf_owner = Some (aa_id actor), pf_title = ap_title source, pf_role = ap_role source,
                      pf_seed = ap_seed source, pf_visibility = Private, pf_token = None, pf_deleted = None\<rparr> (aw_tables w) of
                   None \<Rightarrow> (Inl (Agent_failure ''duplicate key''), w)
                 | Some t \<Rightarrow> answer_profile actor copy (w\<lparr>aw_tables := t\<rparr>))))"

definition set_hidden_row :: "string \<Rightarrow> string \<Rightarrow> int option \<Rightarrow> preference_row list \<Rightarrow> preference_row list" where
  "set_hidden_row u i h rows =
     (if list_ex (\<lambda>r. pr_user r = u \<and> pr_agent r = i) rows
      then map (\<lambda>r. if pr_user r = u \<and> pr_agent r = i then r\<lparr>pr_hidden := h\<rparr> else r) rows
      else rows @ [\<lparr>pr_user = u, pr_agent = i, pr_hidden = h\<rparr>])"

definition set_hidden :: "agent_env \<Rightarrow> agent_actor \<Rightarrow> string \<Rightarrow> bool \<Rightarrow> int \<Rightarrow> agent_world \<Rightarrow> (agent_error + unit) \<times> agent_world" where
  "set_hidden env actor i hidden now =
     transaction env (\<lambda>w.
       case find_accessible (aw_tables w) actor i of
         None \<Rightarrow> (Inl (Agent_not_found i), w)
       | Some p \<Rightarrow>
           (Inr (), w\<lparr>aw_tables := (aw_tables w)\<lparr>at_preferences :=
              set_hidden_row (aa_id actor) i (if hidden then Some now else None) (at_preferences (aw_tables w))\<rparr>\<rparr>))"

definition soft_delete :: "agent_env \<Rightarrow> agent_actor \<Rightarrow> string \<Rightarrow> int \<Rightarrow> agent_world \<Rightarrow> (agent_error + unit) \<times> agent_world" where
  "soft_delete env actor i now =
     transaction env (\<lambda>w.
       case managed_profile (aw_tables w) actor i of
         Inl e \<Rightarrow> (Inl e, w)
       | Inr profile \<Rightarrow>
           let t = change_profile i (\<lambda>p. p\<lparr>pf_deleted := Some now\<rparr>) (aw_tables w) in
           (Inr (), w\<lparr>aw_tables := t,
              aw_vault := (if ae_encrypt env \<noteq> None then retire_replaced_key now (configuration_of i t) [] (aw_vault w)
                           else aw_vault w)\<rparr>))"

definition issue_callback_token ::
  "agent_env \<Rightarrow> agent_actor \<Rightarrow> string \<Rightarrow> nat list \<Rightarrow> agent_world \<Rightarrow> (agent_error + string) \<times> agent_world" where
  "issue_callback_token env actor i random =
     transaction env (\<lambda>w.
       case managed_profile (aw_tables w) actor i of
         Inl e \<Rightarrow> (Inl e, w)
       | Inr profile \<Rightarrow>
           let token = mint_callback_token random in
           (Inr token, w\<lparr>aw_tables := change_profile i (\<lambda>p. p\<lparr>pf_token := Some (hash_callback_token (ae_sha256 env) token)\<rparr>)
              (aw_tables w)\<rparr>))"

definition revoke_callback_token :: "agent_env \<Rightarrow> agent_actor \<Rightarrow> string \<Rightarrow> agent_world \<Rightarrow> (agent_error + unit) \<times> agent_world" where
  "revoke_callback_token env actor i =
     transaction env (\<lambda>w.
       case managed_profile (aw_tables w) actor i of
         Inl e \<Rightarrow> (Inl e, w)
       | Inr profile \<Rightarrow> (Inr (), w\<lparr>aw_tables := change_profile i (\<lambda>p. p\<lparr>pf_token := None\<rparr>) (aw_tables w)\<rparr>))"

section \<open>What a person types\<close>

text \<open>\<^verbatim>\<open>checkAgentEndpoint\<close>: the wording of a navigation, restated.\<close>

definition check_agent_endpoint :: "url_parser \<Rightarrow> bool \<Rightarrow> jsv option \<Rightarrow> string + string" where
  "check_agent_endpoint parse_url allow_private raw =
     (case raw of
        Some (JStr t) \<Rightarrow>
          if js_trim t = [] then Inl ''An agent needs a web address.''
          else (case check_navigation_target parse_url allow_private (js_trim t) of
              Allowed u \<Rightarrow> Inr u
            | verdict.Refused m \<Rightarrow>
                Inl (if str_includes m ''the assistant is never allowed to open it.''
                     then replace_first ''the assistant is never allowed to open it.'' ''an agent may not live there.'' m
                     else replace_first ''the assistant is not allowed to open it.'' ''an agent may not live there.'' m))
      | _ \<Rightarrow> Inl ''An agent needs a web address.'')"

definition bounded_text :: "jsv option \<Rightarrow> nat \<Rightarrow> string \<Rightarrow> string + string" where
  "bounded_text v most error =
     (case v of
        Some (JStr t) \<Rightarrow> if js_trim t \<noteq> [] \<and> length (js_trim t) \<le> most then Inr (js_trim t) else Inl error
      | _ \<Rightarrow> Inl error)"

definition header_char :: "char \<Rightarrow> bool" where
  "header_char c \<longleftrightarrow> (let n = char_code c in (65 \<le> n \<and> n \<le> 90) \<or> (97 \<le> n \<and> n \<le> 122) \<or> (48 \<le> n \<and> n \<le> 57) \<or> n = 45)"

definition parse_visibility :: "jsv option \<Rightarrow> visibility option" where
  "parse_visibility v =
     (case v of
        Some (JStr t) \<Rightarrow> if js_trim t = ''public'' then Some Public else if js_trim t = ''private'' then Some Private else None
      | _ \<Rightarrow> None)"

definition parse_auth :: "jsv option \<Rightarrow> string + (string \<times> string) option" where
  "parse_auth v =
     (case v of
        None \<Rightarrow> Inr None
      | Some supplied \<Rightarrow>
          let key = (case js_string_field supplied ''value'' of Some t \<Rightarrow> js_trim t | None \<Rightarrow> []);
              header = (case js_string_field supplied ''header'' of
                  Some t \<Rightarrow> if js_trim t \<noteq> [] then js_trim t else ''Authorization'' | None \<Rightarrow> ''Authorization'') in
          if key = [] then Inr None
          else if \<not> list_all header_char header then Inl ''That is not a valid header name.''
          else Inr (Some (header, key)))"

definition parse_endpoint :: "url_parser \<Rightarrow> bool \<Rightarrow> jsv option \<Rightarrow> string + string option" where
  "parse_endpoint parse_url allow_private v =
     (if v = None \<or> v = Some JUndef \<or> v = Some (JStr []) then Inr None
      else (case check_agent_endpoint parse_url allow_private v of Inl m \<Rightarrow> Inl m | Inr u \<Rightarrow> Inr (Some u)))"

definition parse_agent_input :: "url_parser \<Rightarrow> bool \<Rightarrow> jsv \<Rightarrow> string + agent_input" where
  "parse_agent_input parse_url allow_private input =
     (case input of
        JObj entries \<Rightarrow>
          (case bounded_text (js_field input ''name'') 80 ''Name must be text between 1 and 80 characters.'' of
             Inl e \<Rightarrow> Inl e
           | Inr name \<Rightarrow>
          (case bounded_text (js_field input ''title'') 120 ''Title must be text between 1 and 120 characters.'' of
             Inl e \<Rightarrow> Inl e
           | Inr title \<Rightarrow>
          (case bounded_text (js_field input ''roleDescription'') 1000 ''Role description must be text between 1 and 1000 characters.'' of
             Inl e \<Rightarrow> Inl e
           | Inr job \<Rightarrow>
          (case parse_visibility (js_field input ''visibility'') of
             None \<Rightarrow> Inl ''Visibility must be public or private.''
           | Some visible \<Rightarrow>
          (case parse_endpoint parse_url allow_private (js_field input ''endpoint'') of
             Inl e \<Rightarrow> Inl e
           | Inr endpoint \<Rightarrow>
          (case parse_auth (js_field input ''auth'') of
             Inl e \<Rightarrow> Inl e
           | Inr auth \<Rightarrow>
               Inr \<lparr>an_name = name, an_title = title, an_role = job, an_visibility = visible, an_endpoint = endpoint, an_auth = auth\<rparr>))))))
      | _ \<Rightarrow> Inl ''Agent input must be a JSON object.'')"

section \<open>Trying an endpoint\<close>

definition max_probe_bytes :: nat where
  "max_probe_bytes = 8000"

definition line_type :: "(string \<Rightarrow> string + jsv) \<Rightarrow> string \<Rightarrow> string option" where
  "line_type parse line =
     (let t = js_trim line in
      if prefix ''event:'' t then Some (js_trim (drop 6 t))
      else if prefix ''data:'' t
      then (case parse (js_trim (drop 5 t)) of Inl e \<Rightarrow> None | Inr v \<Rightarrow> js_string_field v ''type'')
      else None)"

text \<open>In the order they came, each once.\<close>

definition event_types_from :: "(string \<Rightarrow> string + jsv) \<Rightarrow> string \<Rightarrow> string list" where
  "event_types_from parse body = rev (remdups (rev (List.map_filter (line_type parse) (split_on (CHR 0x0A) body))))"

text \<open>The answer to the probe; the body is \<open>None\<close> where the connection broke.\<close>

datatype probe_answer = Probe_late | Probe_unreachable | Probe_answered nat "string option" "string option"

datatype probe_result = Probe_ok "string list" nat | Probe_bad string "nat option"

definition test_agent_connection ::
  "url_parser \<Rightarrow> bool \<Rightarrow> (string \<Rightarrow> string + jsv) \<Rightarrow> (string \<Rightarrow> probe_answer) \<Rightarrow> jsv option \<Rightarrow> probe_result" where
  "test_agent_connection parse_url allow_private parse net raw =
     (case check_agent_endpoint parse_url allow_private raw of
        Inl m \<Rightarrow> Probe_bad m None
      | Inr u \<Rightarrow>
          (case net u of
             Probe_late \<Rightarrow> Probe_bad (''The agent did not answer in time. It may be starting up, or the address may be ''
                 @ ''unreachable from this server.'') None
           | Probe_unreachable \<Rightarrow> Probe_bad (''This server could not reach that address. If your agent runs on your own machine, ''
                 @ ''it needs to be reachable from here, a tunnel, or somewhere this server can dial.'') None
           | Probe_answered status body kind \<Rightarrow>
               if \<not> (200 \<le> status \<and> status < 300)
               then Probe_bad (if status = 401 \<or> status = 403
                   then ''The agent refused this request. If it needs a key, add it as a header.''
                   else ''The agent answered '' @ show_nat status @ ''. An AG-UI endpoint answers a POST with a stream of events.'')
                   (Some status)
               else (case body of
                   None \<Rightarrow> Probe_bad ''The agent started answering and the connection broke.'' (Some status)
                 | Some t \<Rightarrow>
                     let events = event_types_from parse (take max_probe_bytes t) in
                     if events = []
                     then Probe_bad (''That address answered, but not with AG-UI events (it sent ''
                         @ (case kind of None \<Rightarrow> ''nothing'' | Some k \<Rightarrow> k)
                         @ ''). Check it is the agent's AG-UI path and not its home page.'') (Some status)
                     else Probe_ok events status)))"

section \<open>Sequences of operations\<close>

datatype agent_op =
    Create_agent agent_input string string int
  | Update_agent string agent_input string int
  | Duplicate_agent string string
  | Hide_agent string bool int
  | Delete_agent string int
  | Issue_token string "nat list"
  | Revoke_token string

fun agent_step :: "agent_env \<times> agent_actor \<times> agent_op \<Rightarrow> agent_world \<Rightarrow> agent_world" where
  "agent_step (env, actor, Create_agent input i fresh now) w = snd (create_agent env actor input i fresh now w)"
| "agent_step (env, actor, Update_agent i input fresh now) w = snd (update_agent env actor i input fresh now w)"
| "agent_step (env, actor, Duplicate_agent i copy) w = snd (duplicate_agent env actor i copy w)"
| "agent_step (env, actor, Hide_agent i h now) w = snd (set_hidden env actor i h now w)"
| "agent_step (env, actor, Delete_agent i now) w = snd (soft_delete env actor i now w)"
| "agent_step (env, actor, Issue_token i random) w = snd (issue_callback_token env actor i random w)"
| "agent_step (env, actor, Revoke_token i) w = snd (revoke_callback_token env actor i w)"

text \<open>The primary keys of the two tables.\<close>

definition tables_ok :: "agent_tables \<Rightarrow> bool" where
  "tables_ok t \<longleftrightarrow> distinct (map ag_id (at_agents t)) \<and> distinct (map pf_agent (at_profiles t))"

lemma in_joined [simp]:
  "(a, p) \<in> set (joined_profiles t) \<longleftrightarrow> a \<in> set (at_agents t) \<and> p \<in> set (at_profiles t) \<and> pf_agent p = ag_id a"
  by (auto simp: joined_profiles_def)

lemma joined_unique:
  assumes "tables_ok t" "(a, p) \<in> set (joined_profiles t)" "(b, q) \<in> set (joined_profiles t)" "ag_id a = ag_id b"
  shows "a = b \<and> p = q"
  using assms unfolding tables_ok_def distinct_map inj_on_def in_joined by metis

text \<open>What a change may touch: nothing that was there, or the two rows of one agent this actor manages.\<close>

definition rows_stay :: "(string \<Rightarrow> bool) \<Rightarrow> agent_tables \<Rightarrow> agent_tables \<Rightarrow> bool" where
  "rows_stay spared t t' \<longleftrightarrow>
     (\<forall>a \<in> set (at_agents t). spared (ag_id a) \<longrightarrow> a \<in> set (at_agents t'))
     \<and> (\<forall>p \<in> set (at_profiles t). spared (pf_agent p) \<longrightarrow> p \<in> set (at_profiles t'))"

lemma rows_stay_refl [simp]: "rows_stay spared t t"
  by (simp add: rows_stay_def)

lemma rows_stay_insert: "insert_agent a p t = Some t' \<Longrightarrow> rows_stay spared t t'"
  by (auto simp: insert_agent_def rows_stay_def split: if_splits)

lemma rows_stay_profile: "rows_stay (\<lambda>j. j \<noteq> i) t (change_profile i f t)"
  by (auto simp: rows_stay_def change_profile_def image_iff)

lemma rows_stay_agent: "rows_stay (\<lambda>j. j \<noteq> i) t (change_agent i f t)"
  by (auto simp: rows_stay_def change_agent_def image_iff)

lemma rows_stay_trans: "rows_stay s t u \<Longrightarrow> rows_stay s u v \<Longrightarrow> rows_stay s t v"
  by (auto simp: rows_stay_def)

lemma ok_insert: "tables_ok t \<Longrightarrow> insert_agent a p t = Some t' \<Longrightarrow> tables_ok t'"
  by (auto simp: insert_agent_def tables_ok_def list_ex_iff split: if_splits) blast+

lemma ok_profile: "tables_ok t \<Longrightarrow> (\<And>p. pf_agent (f p) = pf_agent p) \<Longrightarrow> tables_ok (change_profile i f t)"
  unfolding tables_ok_def change_profile_def by (simp add: comp_def if_distrib [of pf_agent] cong: if_cong)

lemma ok_agent: "tables_ok t \<Longrightarrow> (\<And>a. ag_id (f a) = ag_id a) \<Longrightarrow> tables_ok (change_agent i f t)"
  unfolding tables_ok_def change_agent_def by (simp add: comp_def if_distrib [of ag_id] cong: if_cong)

definition step_ok :: "agent_actor \<Rightarrow> agent_tables \<Rightarrow> agent_tables \<Rightarrow> bool" where
  "step_ok actor t t' \<longleftrightarrow>
     (tables_ok t \<longrightarrow> tables_ok t')
     \<and> (rows_stay (\<lambda>j. True) t t' \<or> (\<exists>i p. managed_profile t actor i = Inr p \<and> rows_stay (\<lambda>j. j \<noteq> i) t t'))"

lemma step_ok_refl [simp]: "step_ok actor t t"
  by (simp add: step_ok_def)

lemma step_ok_insert: "insert_agent a p t = Some t' \<Longrightarrow> step_ok actor t t'"
  using ok_insert rows_stay_insert unfolding step_ok_def by blast

lemma step_ok_managed:
  "managed_profile t actor i = Inr p \<Longrightarrow> (tables_ok t \<Longrightarrow> tables_ok t') \<Longrightarrow> rows_stay (\<lambda>j. j \<noteq> i) t t' \<Longrightarrow> step_ok actor t t'"
  unfolding step_ok_def by blast

lemma transaction_tables:
  "aw_tables (snd (transaction env body w)) = aw_tables w \<or>
   (\<exists>r. fst (body w) = Inr r \<and> aw_tables (snd (transaction env body w)) = aw_tables (snd (body w)))"
  by (auto simp: transaction_def split: prod.split sum.split)

lemma transaction_step:
  "(\<And>r. fst (body w) = Inr r \<Longrightarrow> step_ok actor (aw_tables w) (aw_tables (snd (body w))))
   \<Longrightarrow> step_ok actor (aw_tables w) (aw_tables (snd (transaction env body w)))"
  using transaction_tables [of env body w] by auto

lemma answer_world [simp]: "snd (answer_profile actor i w) = w"
  by (simp add: answer_profile_def split: option.split)

lemma step_ok_step: "step_ok actor (aw_tables w) (aw_tables (agent_step (env, actor, op) w))"
proof (cases op)
  case (Create_agent input i fresh now)
  show ?thesis unfolding Create_agent agent_step.simps create_agent_def
    by (rule transaction_step) (auto split: option.splits sum.splits prod.splits intro: step_ok_insert)
next
  case (Update_agent i input fresh now)
  show ?thesis unfolding Update_agent agent_step.simps update_agent_def
    by (rule transaction_step)
       (auto simp: Let_def split: option.splits sum.splits prod.splits
          intro!: step_ok_managed ok_profile ok_agent rows_stay_trans [OF rows_stay_agent rows_stay_profile])
next
  case (Duplicate_agent i copy)
  show ?thesis unfolding Duplicate_agent agent_step.simps duplicate_agent_def
    by (rule transaction_step) (auto split: option.splits sum.splits prod.splits intro: step_ok_insert)
next
  case (Hide_agent i h now)
  have "step_ok actor t (t\<lparr>at_preferences := x\<rparr>)" for t x
    by (simp add: step_ok_def tables_ok_def rows_stay_def)
  then show ?thesis unfolding Hide_agent agent_step.simps set_hidden_def
    by (intro transaction_step) (auto split: option.splits)
next
  case (Delete_agent i now)
  show ?thesis unfolding Delete_agent agent_step.simps soft_delete_def
    by (rule transaction_step)
       (auto simp: Let_def split: sum.splits intro!: step_ok_managed ok_profile rows_stay_profile)
next
  case (Issue_token i random)
  show ?thesis unfolding Issue_token agent_step.simps issue_callback_token_def
    by (rule transaction_step)
       (auto simp: Let_def split: sum.splits intro!: step_ok_managed ok_profile rows_stay_profile)
next
  case (Revoke_token i)
  show ?thesis unfolding Revoke_token agent_step.simps revoke_callback_token_def
    by (rule transaction_step)
       (auto split: sum.splits intro!: step_ok_managed ok_profile rows_stay_profile)
qed

lemma tables_ok_run: "tables_ok (aw_tables w) \<Longrightarrow> tables_ok (aw_tables (fold agent_step steps w))"
proof (induction steps arbitrary: w)
  case (Cons e steps)
  obtain env actor op where e: "e = (env, actor, op)" by (cases e)
  have "tables_ok (aw_tables (agent_step e w))"
    using step_ok_step [of actor w env op] Cons.prems unfolding e step_ok_def by blast
  then show ?case using Cons.IH by simp
qed simp

section \<open>Who sees a coworker\<close>

lemma found_in: "find P xs = Some x \<Longrightarrow> P x \<and> x \<in> set xs"
  by (induction xs) (auto split: if_splits)

lemma find_filter_unique:
  "(\<And>x y. x \<in> set xs \<Longrightarrow> y \<in> set xs \<Longrightarrow> P x \<Longrightarrow> P y \<Longrightarrow> x = y) \<Longrightarrow>
   find P (filter Q xs) = (case find P xs of None \<Rightarrow> None | Some x \<Rightarrow> if Q x then Some x else None)"
proof (induction xs)
  case (Cons x xs)
  show ?case
  proof (cases "P x \<and> \<not> Q x")
    case True
    have "find P (filter Q xs) = None"
      unfolding find_None_iff using Cons.prems True by (metis filter_is_subset list.set_intros(1,2) mem_Collect_eq set_filter subsetD)
    then show ?thesis using True by simp
  next
    case False
    have "find P (filter Q xs) = (case find P xs of None \<Rightarrow> None | Some x \<Rightarrow> if Q x then Some x else None)"
      by (rule Cons.IH) (use Cons.prems in auto)
    then show ?thesis using False by auto
  qed
qed simp

lemma can_access_iff:
  "can_access_agent actor (map_profile t actor (a, p)) \<longleftrightarrow> pf_deleted p = None \<and> access_filter actor p"
  by (auto simp: can_access_agent_def map_profile_def access_filter_def)

text \<open>The query that reads a coworker is the policy on who may. Whatever was done to the tables, a person is
  answered a coworker exactly when it is there and the policy lets that person have it, and a listing holds
  nothing else.\<close>

theorem reading_is_access:
  "let t = aw_tables (fold agent_step steps w) in
   if tables_ok (aw_tables w) then
     find_accessible t actor i =
       (case find (\<lambda>(a, p). ag_id a = i) (joined_profiles t) of
          None \<Rightarrow> None
        | Some r \<Rightarrow> if can_access_agent actor (map_profile t actor r) then Some (map_profile t actor r) else None)
     \<and> list_all (can_access_agent actor) (list_agents actor hidden t)
   else True"
proof -
  let ?t = "aw_tables (fold agent_step steps w)"
  {
    assume "tables_ok (aw_tables w)"
    then have ok: "tables_ok ?t" by (rule tables_ok_run)
    have one: "x = y" if "x \<in> set (joined_profiles ?t)" "y \<in> set (joined_profiles ?t)"
      "(\<lambda>(a, p). ag_id a = i) x" "(\<lambda>(a, p). ag_id a = i) y" for x y
    proof -
      obtain a p b q where xy: "x = (a, p)" "y = (b, q)" by (cases x, cases y)
      show ?thesis using that joined_unique [OF ok, of a p b q] unfolding xy by simp
    qed
    have find: "find (\<lambda>(a, p). ag_id a = i) (readable actor ?t) =
        (case find (\<lambda>(a, p). ag_id a = i) (joined_profiles ?t) of None \<Rightarrow> None
         | Some x \<Rightarrow> if (\<lambda>(a, p). pf_deleted p = None \<and> access_filter actor p) x then Some x else None)"
      unfolding readable_def by (rule find_filter_unique [OF one])
    have "find_accessible ?t actor i =
       (case find (\<lambda>(a, p). ag_id a = i) (joined_profiles ?t) of
          None \<Rightarrow> None
        | Some r \<Rightarrow> if can_access_agent actor (map_profile ?t actor r) then Some (map_profile ?t actor r) else None)"
      unfolding find_accessible_def find by (auto simp: can_access_iff split: option.split)
    moreover have "list_all (can_access_agent actor) (list_agents actor hidden ?t)"
      by (auto simp: list_all_iff list_agents_def readable_def can_access_iff)
    ultimately have "find_accessible ?t actor i =
       (case find (\<lambda>(a, p). ag_id a = i) (joined_profiles ?t) of
          None \<Rightarrow> None
        | Some r \<Rightarrow> if can_access_agent actor (map_profile ?t actor r) then Some (map_profile ?t actor r) else None)
      \<and> list_all (can_access_agent actor) (list_agents actor hidden ?t)" by blast
  }
  then show ?thesis unfolding Let_def by (cases "tables_ok (aw_tables w)") (simp_all only: if_True if_False simp_thms)
qed

section \<open>Who changes a coworker\<close>

lemma managed_is:
  assumes ok: "tables_ok t" and row: "(a, p) \<in> set (joined_profiles t)" and managed: "managed_profile t actor (ag_id a) = Inr q"
  shows "ag_package a = None \<and> pf_deleted p = None \<and> (pf_owner p = Some (aa_id actor) \<or> aa_role actor = Admin_role)"
proof -
  obtain b r where found: "find (\<lambda>(a', p). ag_id a' = ag_id a) (readable actor t) = Some (b, r)" and q: "q = map_profile t actor (b, r)"
    and may: "require_manageable actor q = None"
    using managed by (auto simp: managed_profile_def find_accessible_def split: option.splits)
  have "(b, r) \<in> set (joined_profiles t)" "ag_id b = ag_id a"
    using found_in [OF found] by (auto simp: readable_def)
  then have "b = a \<and> r = p" using joined_unique [OF ok _ row] by blast
  then show ?thesis using may q
    by (auto simp: require_manageable_def can_manage_agent_def map_profile_def split: if_splits)
qed

definition may_change :: "agent_actor \<Rightarrow> agent_row \<times> profile_row \<Rightarrow> bool" where
  "may_change actor = (\<lambda>(a, p). ag_package a = None \<and> pf_deleted p = None
     \<and> (pf_owner p = Some (aa_id actor) \<or> aa_role actor = Admin_role))"

lemma step_spares:
  assumes "tables_ok (aw_tables w)" "(a, p) \<in> set (joined_profiles (aw_tables w))" "\<not> may_change actor (a, p)"
  shows "(a, p) \<in> set (joined_profiles (aw_tables (agent_step (env, actor, op) w)))"
proof -
  let ?t = "aw_tables w" and ?t' = "aw_tables (agent_step (env, actor, op) w)"
  consider "rows_stay (\<lambda>j. True) ?t ?t'" | i q where "managed_profile ?t actor i = Inr q" "rows_stay (\<lambda>j. j \<noteq> i) ?t ?t'"
    using step_ok_step [of actor w env op] unfolding step_ok_def by blast
  then have "rows_stay (\<lambda>j. j = ag_id a) ?t ?t'"
  proof cases
    case 1
    then show ?thesis by (simp add: rows_stay_def)
  next
    case (2 i q)
    have "i \<noteq> ag_id a"
    proof
      assume "i = ag_id a"
      then show False using managed_is [OF assms(1,2)] 2(1) assms(3) by (auto simp: may_change_def)
    qed
    then show ?thesis using 2(2) by (simp add: rows_stay_def)
  qed
  then show ?thesis using assms(2) by (auto simp: rows_stay_def)
qed

text \<open>C21: a coworker is changed only by who manages it. Over any operations of anybody, a coworker that is part of the
  deployment's package, one that was deleted, and one that is neither the actor's own nor open to an
  administrator keep their name, their profile, their endpoint, their key and their token.\<close>

theorem only_managers_change_a_coworker:
  "if tables_ok (aw_tables w) \<and> row \<in> set (joined_profiles (aw_tables w))
       \<and> list_all (\<lambda>(env, actor, op). \<not> may_change actor row) steps
   then row \<in> set (joined_profiles (aw_tables (fold agent_step steps w))) else True"
proof -
  have "tables_ok (aw_tables w) \<Longrightarrow> row \<in> set (joined_profiles (aw_tables w))
      \<Longrightarrow> list_all (\<lambda>(env, actor, op). \<not> may_change actor row) steps
      \<Longrightarrow> row \<in> set (joined_profiles (aw_tables (fold agent_step steps w)))"
  proof (induction steps arbitrary: w)
    case (Cons e steps)
    obtain env actor op where e: "e = (env, actor, op)" by (cases e)
    have "tables_ok (aw_tables (agent_step e w))"
      using step_ok_step [of actor w env op] Cons.prems unfolding e step_ok_def by blast
    moreover have "row \<in> set (joined_profiles (aw_tables (agent_step e w)))"
      using step_spares [of w "fst row" "snd row" actor env op] Cons.prems unfolding e by simp
    ultimately show ?case using Cons.IH Cons.prems(3) by simp
  qed simp
  then show ?thesis by simp
qed

section \<open>A key that was replaced or whose coworker was deleted\<close>

definition dead_key :: "string option \<Rightarrow> credential_row list \<Rightarrow> bool" where
  "dead_key i rows \<longleftrightarrow> (if truthy i then row_with (the i) rows = None \<or> (\<exists>r. row_with (the i) rows = Some r \<and> cr_revoked r \<noteq> None) else True)"

lemma row_with_revoked:
  "row_with i (map (\<lambda>r. if cr_id r = j then r\<lparr>cr_revoked := now\<rparr> else r) rows) =
   map_option (\<lambda>r. if i = j then r\<lparr>cr_revoked := now\<rparr> else r) (row_with i rows)"
  unfolding row_with_def by (induction rows) auto

lemma retire_kills:
  assumes "credential_id_of previous \<noteq> credential_id_of later"
  shows "dead_key (credential_id_of previous) (retire_replaced_key now previous later rows)"
  using assms by (auto simp: dead_key_def retire_replaced_key_def store_revoke_def Let_def row_with_revoked)

lemma dead_key_sends_nothing:
  "auth_from_configuration configuration = Some a \<Longrightarrow> au_credential a \<noteq> [] \<Longrightarrow> dead_key (credential_id_of configuration) rows
   \<Longrightarrow> agent_auth_headers decrypt rows (Some a) = Inr None"
  by (auto simp: auth_from_configuration_def credential_id_of_def dead_key_def agent_auth_headers_def read_secret_def
      split: option.splits)

text \<open>The key in a configuration that was updated is the one just stored.\<close>

lemma update_credential: "credential_id_of (AList.update ''auth'' (JObj [h, (''credentialId'', JStr i)]) cfg) =
  (if fst h = ''credentialId'' then credential_id_of (AList.update ''auth'' (JObj [h]) cfg) else Some i)"
  by (cases h) (auto simp: credential_id_of_def update_conv js_string_field_def js_field_def)

lemma with_auth_stored:
  assumes "with_auth env input agent fresh now cfg rows = (Inr configuration, rows')" "an_auth input \<noteq> None" "ae_encrypt env \<noteq> None"
  shows "credential_id_of configuration = Some fresh \<and> row_with fresh rows = None"
  using assms
  by (auto simp: with_auth_def store_agent_auth_def store_create_def update_credential split: option.splits sum.splits prod.splits if_splits)


section \<open>Where it does what it is not meant to\<close>

definition example_agents :: agent_world where
  "example_agents =
     \<lparr>aw_tables = \<lparr>at_agents = [\<lparr>ag_id = ''a'', ag_name = ''Ann'', ag_type = Remote_agent,
          ag_configuration = [(''endpoint'', JStr ''https://old.test''), (''auth'', JObj [(''header'', JStr ''Authorization''), (''credentialId'', JStr ''k1'')])],
          ag_package = None\<rparr>],
        at_profiles = [\<lparr>pf_agent = ''a'', pf_owner = Some ''u'', pf_title = ''T'', pf_role = ''R'', pf_seed = ''a'', pf_visibility = Private,
          pf_token = None, pf_deleted = None\<rparr>],
        at_preferences = []\<rparr>,
      aw_vault = [\<lparr>cr_id = ''k1'', cr_kind = ''agent'', cr_provider = ''ag-ui'', cr_key = ''a'', cr_metadata = JNull, cr_value = ''sealed'',
          cr_created = 0, cr_revoked = None\<rparr>]\<rparr>"

definition example_edit :: agent_input where
  "example_edit = \<lparr>an_name = ''Ann'', an_title = ''T'', an_role = ''R'', an_visibility = Private, an_endpoint = None,
     an_auth = Some (''Authorization'', ''new'')\<rparr>"

lemmas agent_ops = update_agent_def transaction_def managed_profile_def find_accessible_def readable_def joined_profiles_def
  access_filter_def map_profile_def require_manageable_def can_manage_agent_def configuration_of_def with_auth_def
  store_agent_auth_def store_create_def row_with_def retire_replaced_key_def credential_id_of_def store_revoke_def
  answer_profile_def change_profile_def change_agent_def js_string_field_def js_field_def

text \<open>An edit that is not committed leaves a coworker without a key. The old key is revoked over the vault's own
  connection before the rows are written, so when the commit fails the coworker still points at it, and no
  header is sent from then on. The comment says a failure there leaves it with a key too many.\<close>

theorem failed_edit_loses_key:
  "let env = \<lparr>ae_managed = None, ae_encrypt = Some (\<lambda>v. Some v), ae_sha256 = (\<lambda>b. b), ae_commits = False\<rparr>;
       w' = snd (update_agent env \<lparr>aa_id = ''u'', aa_role = User_role\<rparr> ''a'' example_edit ''k2'' 5 example_agents) in
   aw_tables w' = aw_tables example_agents
   \<and> map (\<lambda>r. (cr_id r, cr_revoked r)) (aw_vault w') = [(''k1'', Some 5), (''k2'', None)]
   \<and> credential_id_of (configuration_of ''a'' (aw_tables w')) = Some ''k1''"
  by (simp add: example_agents_def example_edit_def agent_ops Let_def)

lemma inserted_agent: "insert_agent a p t = Some t' \<Longrightarrow> b \<in> set (at_agents t') \<Longrightarrow> ag_id b = ag_id a \<Longrightarrow> b = a"
  by (auto simp: insert_agent_def list_ex_iff split: if_splits)

text \<open>A copy of a coworker does not inherit its endpoint. It runs on the deployment's own, whatever the original
  runs on; the route records the copy because, it says, a second coworker now points at that address.\<close>

theorem copy_is_managed:
  "case duplicate_agent env actor i copy w of (Inr p, w') \<Rightarrow> ap_endpoint p = ae_managed env | (Inl e, w') \<Rightarrow> True"
proof -
  have "ap_endpoint p = Some endpoint"
    if made: "insert_agent \<lparr>ag_id = copy, ag_name = n, ag_type = ty, ag_configuration = [(''endpoint'', JStr endpoint)], ag_package = None\<rparr> q t = Some t'"
      and found: "find_accessible t' actor copy = Some p" for n ty endpoint q t t' p
  proof -
    obtain a r where a: "p = map_profile t' actor (a, r)" "ag_id a = copy" "a \<in> set (at_agents t')"
      using found found_in by (fastforce simp: find_accessible_def readable_def)
    then have "ag_configuration a = [(''endpoint'', JStr endpoint)]"
      using inserted_agent [OF made a(3)] by simp
    then show ?thesis using a by (simp add: map_profile_def endpoint_of_def)
  qed
  then show ?thesis
    by (auto simp: duplicate_agent_def transaction_def answer_profile_def split: option.splits sum.splits prod.splits if_splits)
qed

end
