(* ===== verification/Vendors.thy ===== *)
theory Vendors
  imports Signed Plugins
begin

text \<open>
  The two protocols a tool is reached by (\<^verbatim>\<open>server/src/plugins/mcp.ts\<close>, \<^verbatim>\<open>google-drive-rest.ts\<close>) and what a
  Bot is told of its tools (\<^verbatim>\<open>tools.ts\<close>).

  The client of the MCP package answers with a value or fails with a code and a message; Google Drive is a
  function of the requests sent to it so far. \<^verbatim>\<open>JSON.parse\<close> is a parameter. Of the bodies the documented
  types are used: a name, a type, a link are text, and what is not is read as absent.
\<close>

section \<open>What a model is told a tool returned\<close>

definition max_result_chars :: nat where
  "max_result_chars = 20000"

definition nothing_found :: string where
  "nothing_found = ''The tool returned no content. Nothing was found, so there is nothing here to answer from.''"

definition part_of_result :: "jsv \<Rightarrow> string option" where
  "part_of_result part =
     (if part = JNull \<or> part = JUndef then None
      else if js_field part ''type'' = Some (JStr ''text'') \<and> js_string_field part ''text'' \<noteq> None
      then js_string_field part ''text''
      else Some (''['' @ (case js_string_field part ''type'' of None \<Rightarrow> ''unknown'' | Some t \<Rightarrow> t) @ '']''))"

definition truncation_notice :: "nat \<Rightarrow> string" where
  "truncation_notice n = [CHR 0x0A, CHR 0x0A] @ ''[truncated: the tool returned '' @ show_nat n @ '' characters]''"

definition capped_text :: "string \<Rightarrow> string \<times> bool" where
  "capped_text joined =
     (if length joined \<le> max_result_chars then (joined, False)
      else (take max_result_chars joined @ truncation_notice (length joined), True))"

text \<open>\<open>None\<close> is the error of reading a field of \<^verbatim>\<open>null\<close>.\<close>

definition result_text :: "jsv option \<Rightarrow> (string \<times> bool) option" where
  "result_text content =
     (let parts = (case content of Some (JArr vs) \<Rightarrow> vs | _ \<Rightarrow> []); texts = map part_of_result parts in
      if None \<in> set texts then None
      else
        let joined = join_with [CHR 0x0A] (map the texts) in
        Some (if js_trim joined = [] then (nothing_found, False) else capped_text joined))"

section \<open>What an administrator is told went wrong\<close>

text \<open>A failure of the MCP client: \<^verbatim>\<open>code\<close>, where the error has one, and its message.\<close>

record client_failure =
  cf_code :: "jsv option"
  cf_message :: string

definition trimmed :: "string \<Rightarrow> string" where
  "trimmed v = (if length v > 400 then take 400 v @ [CHR 0xE2, CHR 0x80, CHR 0xA6] else v)"

definition first_text :: "jsv list \<Rightarrow> string option" where
  "first_text parts =
     (case filter (\<lambda>t. truthy t) (map (\<lambda>part. js_string_field part ''text'') parts) of [] \<Rightarrow> None | t # ts \<Rightarrow> t)"

definition reason_from :: "(string \<Rightarrow> string + jsv) \<Rightarrow> string \<Rightarrow> string option" where
  "reason_from parse message =
     (let body = dropWhile (\<lambda>c. c \<noteq> CHR ''{'') message in
      if body = [] then None
      else case parse body of
          Inl e \<Rightarrow> None
        | Inr parsed \<Rightarrow>
            (case Option.bind (js_field parsed ''error'') (\<lambda>e. js_string_field e ''message'') of
               Some (c # m) \<Rightarrow> Some (trimmed (c # m))
             | _ \<Rightarrow>
                 (case js_field parsed ''result'' of
                    None \<Rightarrow> None
                  | Some r \<Rightarrow>
                      (case (js_field r ''isError'', js_field r ''content'') of
                         (Some (JBool True), Some (JArr parts)) \<Rightarrow> map_option trimmed (first_text parts)
                       | _ \<Rightarrow> None))))"

definition vendor_failure :: "(string \<Rightarrow> string + jsv) \<Rightarrow> client_failure \<Rightarrow> string" where
  "vendor_failure parse e =
     (case cf_code e of
        Some (JNum n) \<Rightarrow>
          if n = 401
          then ''The vendor rejected this credential (401). For a connector reached as the person asking, reconnecting ''
             @ ''the account is the usual fix; if it persists, the scopes it was granted may not cover this server.''
          else if n = 403
          then (case reason_from parse (cf_message e) of
              Some detail \<Rightarrow> ''The vendor accepted the credential and refused the request (403). It said: '' @ detail
            | None \<Rightarrow> ''The vendor accepted the credential and refused the request (403). The account may lack access, ''
                @ ''or the API may not be enabled for this project.'')
          else ''The vendor answered '' @ show_int n @ ''.''
      | _ \<Rightarrow> cf_message e)"

text \<open>What the client answered, as the program hands it on.\<close>

definition mcp_list_tools ::
  "(string \<Rightarrow> string + jsv) \<Rightarrow> client_failure + (string \<times> string option \<times> jsv option) list \<Rightarrow> plugin_error + vendor_tool list" where
  "mcp_list_tools parse answer =
     (case answer of
        Inl e \<Rightarrow> Inl (Server_failed (vendor_failure parse e))
      | Inr tools \<Rightarrow>
          Inr (map (\<lambda>(name, description, schema).
             \<lparr>vt_name = name, vt_description = (case description of None \<Rightarrow> [] | Some d \<Rightarrow> d),
              vt_schema = (case schema of None \<Rightarrow> JObj [] | Some s \<Rightarrow> s)\<rparr>) tools))"

record call_result =
  ct_text :: string
  ct_error :: bool
  ct_truncated :: bool

definition mcp_call_tool ::
  "(string \<Rightarrow> string + jsv) \<Rightarrow> string \<Rightarrow> client_failure + (jsv option \<times> jsv option) \<Rightarrow> plugin_error + call_result" where
  "mcp_call_tool parse type_error answer =
     (case answer of
        Inl e \<Rightarrow> Inl (Server_failed (vendor_failure parse e))
      | Inr (content, is_error) \<Rightarrow>
          (case result_text content of
             None \<Rightarrow> Inl (Server_failed (vendor_failure parse \<lparr>cf_code = None, cf_message = type_error\<rparr>))
           | Some (t, short) \<Rightarrow> Inr \<lparr>ct_text = t, ct_error = (is_error = Some (JBool True)), ct_truncated = short\<rparr>))"

section \<open>Google Drive over its REST interface\<close>

definition drive_page_size :: nat where
  "drive_page_size = 25"

definition file_fields :: string where
  "file_fields = ''id,name,mimeType,modifiedTime,webViewLink,size,owners(emailAddress)''"

definition exportable :: "string \<Rightarrow> string option" where
  "exportable = map_of
     [(''application/vnd.google-apps.document'', ''text/plain''),
      (''application/vnd.google-apps.spreadsheet'', ''text/csv''),
      (''application/vnd.google-apps.presentation'', ''text/plain'')]"

definition text_argument :: "string \<Rightarrow> string \<Rightarrow> jsv" where
  "text_argument name description =
     JObj [(''type'', JStr ''object''),
       (''properties'', JObj [(name, JObj [(''type'', JStr ''string''), (''description'', JStr description)])]),
       (''required'', JArr [JStr name])]"

definition drive_tools :: "vendor_tool list" where
  "drive_tools =
    [\<lparr>vt_name = ''search_files'',
      vt_description = ''Search the files in your Google Drive by name and full text. Returns matching files with their ''
        @ ''names, types, last modified times and links.'',
      vt_schema = text_argument ''query'' ''What to look for, in file names and file contents.''\<rparr>,
     \<lparr>vt_name = ''list_recent_files'',
      vt_description = ''List the files in your Google Drive that changed most recently, newest first.'',
      vt_schema = JObj [(''type'', JStr ''object''), (''properties'', JObj [])]\<rparr>,
     \<lparr>vt_name = ''get_file_metadata'',
      vt_description = ''Get the name, type, size, owner, last modified time and link for one file, by its id.'',
      vt_schema = text_argument ''fileId'' ''The file's Drive id.''\<rparr>,
     \<lparr>vt_name = ''read_file_content'',
      vt_description = ''Read the text of one file in your Google Drive, by its id. Google Docs, Sheets and Slides are ''
        @ ''exported as text.'',
      vt_schema = text_argument ''fileId'' ''The file's Drive id.''\<rparr>]"

text \<open>A request: the text given to \<^verbatim>\<open>new URL\<close>, the query that is set on it, and the token it carries.\<close>

record drive_asked =
  da_url :: string
  da_query :: "(string \<times> string) list"
  da_token :: string

datatype drive_reply = Reply_late | Reply_unreachable string | Reply nat string

type_synonym drive_net = "drive_asked list \<Rightarrow> drive_reply"
type_synonym json_parser = "string \<Rightarrow> string + jsv"

definition refused_text :: "json_parser \<Rightarrow> nat \<Rightarrow> string \<Rightarrow> string" where
  "refused_text parse status body =
     (let detail = (case parse body of
          Inl e \<Rightarrow> []
        | Inr parsed \<Rightarrow>
            (case Option.bind (js_field parsed ''error'') (\<lambda>e. js_string_field e ''message'') of None \<Rightarrow> [] | Some m \<Rightarrow> m)) in
      ''Google Drive refused this request ('' @ show_nat status
      @ (if detail = [] then '').'' else ''): '' @ detail))"

text \<open>The body of an answer that is \<^verbatim>\<open>ok\<close>, or what the person is told.\<close>

definition drive_request ::
  "drive_net \<Rightarrow> json_parser \<Rightarrow> string \<Rightarrow> string option \<Rightarrow> string \<Rightarrow> (string \<times> string) list \<Rightarrow> drive_asked list
    \<Rightarrow> (string + string) \<times> drive_asked list" where
  "drive_request net parse url token path query sent =
     (if \<not> truthy token then (Inl ''No credential was available for this call.'', sent)
      else
        let sent' = sent @ [\<lparr>da_url = strip_slashes url @ path, da_query = query, da_token = the token\<rparr>] in
        (case net sent' of
           Reply_late \<Rightarrow> Inl ''Google Drive did not answer in time.''
         | Reply_unreachable m \<Rightarrow> Inl (''Google Drive could not be reached: '' @ m)
         | Reply status body \<Rightarrow>
             if 200 \<le> status \<and> status < 300 then Inr body else Inl (refused_text parse status body), sent'))"

definition is_textual :: "string option \<Rightarrow> bool" where
  "is_textual mime =
     (if \<not> truthy mime then False
      else
        let kind = js_lower (js_trim (hd (split_on (CHR '';'') (the mime)))) in
        prefix ''text/'' kind
        \<or> kind \<in> set [''application/json'', ''application/xml'', ''application/xhtml+xml'', ''application/javascript'',
            ''application/x-ndjson'', ''application/yaml'', ''application/x-yaml'', ''application/sql'', ''application/toml''])"

record drive_file =
  df_id :: "string option"
  df_name :: "string option"
  df_mime :: "string option"
  df_modified :: "string option"
  df_link :: "string option"
  df_size :: "string option"
  df_owner :: "string option"

definition first_owner :: "jsv \<Rightarrow> string option" where
  "first_owner v = (case js_field v ''owners'' of Some (JArr (x # xs)) \<Rightarrow> js_string_field x ''emailAddress'' | _ \<Rightarrow> None)"

definition file_of_json :: "jsv \<Rightarrow> drive_file" where
  "file_of_json v = \<lparr>df_id = js_string_field v ''id'', df_name = js_string_field v ''name'', df_mime = js_string_field v ''mimeType'',
     df_modified = js_string_field v ''modifiedTime'', df_link = js_string_field v ''webViewLink'',
     df_size = js_string_field v ''size'', df_owner = first_owner v\<rparr>"

definition escape_with :: "char set \<Rightarrow> string \<Rightarrow> string" where
  "escape_with marks s = concat (map (\<lambda>c. if c \<in> marks then [CHR 0x5C, c] else [c]) s)"

definition or_text :: "string \<Rightarrow> string option \<Rightarrow> string" where
  "or_text other v = (case v of None \<Rightarrow> other | Some t \<Rightarrow> t)"

definition when_set :: "string option \<Rightarrow> (string \<Rightarrow> string) \<Rightarrow> string list" where
  "when_set v f = (if truthy v then [f (the v)] else [])"

definition file_line :: "drive_file \<Rightarrow> string" where
  "file_line f =
     (let name = or_text ''(untitled)'' (df_name f) in
      ''- '' @ join_with [CHR '' '', CHR 0xB7, CHR '' '']
        ([if truthy (df_link f)
          then ''['' @ escape_with {CHR ''['', CHR '']''} name @ '']('' @ the (df_link f) @ '')'' else name]
         @ when_set (df_mime f) (\<lambda>t. t)
         @ when_set (df_modified f) (\<lambda>t. ''modified '' @ t)
         @ when_set (df_id f) (\<lambda>t. ''id: '' @ t)))"

definition drive_query :: "string \<Rightarrow> string" where
  "drive_query q =
     (let escaped = escape_with {CHR 0x5C, CHR 0x27} q in
      ''name contains '' @ [CHR 0x27] @ escaped @ [CHR 0x27] @ '' or fullText contains '' @ [CHR 0x27] @ escaped @ [CHR 0x27])"

definition as_result :: "string \<Rightarrow> call_result" where
  "as_result t =
     (let joined = js_trim t in
      if joined = [] then \<lparr>ct_text = nothing_found, ct_error = False, ct_truncated = False\<rparr>
      else (case capped_text joined of (shown, short) \<Rightarrow> \<lparr>ct_text = shown, ct_error = False, ct_truncated = short\<rparr>))"

definition drive_failure :: "string \<Rightarrow> call_result" where
  "drive_failure m = \<lparr>ct_text = m, ct_error = True, ct_truncated = False\<rparr>"

definition string_arg :: "(string \<times> jsv) list \<Rightarrow> string \<Rightarrow> string option" where
  "string_arg args key = (case map_of args key of Some (JStr v) \<Rightarrow> if js_trim v \<noteq> [] then Some v else None | _ \<Rightarrow> None)"

text \<open>
  What a call ends in: an error that is thrown, which is a body that is not JSON or is \<^verbatim>\<open>null\<close>, or a result;
  and the requests sent.
\<close>

type_synonym drive_done = "(string + call_result) \<times> drive_asked list"

definition object_of :: "json_parser \<Rightarrow> string \<Rightarrow> string + jsv" where
  "object_of parse body =
     (case parse body of Inl e \<Rightarrow> Inl e
      | Inr v \<Rightarrow> if v = JNull \<or> v = JUndef then Inl ''Cannot read properties of null'' else Inr v)"

text \<open>\<^verbatim>\<open>body.files ?? []\<close>, which has to be a list of objects.\<close>

definition files_of :: "jsv \<Rightarrow> string + drive_file list" where
  "files_of v =
     (case js_field v ''files'' of
        Some (JArr fs) \<Rightarrow> if JNull \<in> set fs \<or> JUndef \<in> set fs then Inl ''Cannot read properties of null'' else Inr (map file_of_json fs)
      | None \<Rightarrow> Inr [] | Some JNull \<Rightarrow> Inr [] | Some JUndef \<Rightarrow> Inr []
      | Some w \<Rightarrow> Inl ''files.map is not a function'')"

definition search_drive ::
  "drive_net \<Rightarrow> json_parser \<Rightarrow> string \<Rightarrow> string option \<Rightarrow> string option \<Rightarrow> drive_asked list \<Rightarrow> drive_done" where
  "search_drive net parse url token query sent =
     (case drive_request net parse url token ''/files''
         ([(''pageSize'', show_nat drive_page_size), (''fields'', ''files('' @ file_fields @ '')'')]
          @ (case query of Some q \<Rightarrow> [(''q'', drive_query q)] | None \<Rightarrow> [(''orderBy'', ''modifiedTime desc'')])) sent of
        (Inl m, sent') \<Rightarrow> (Inr (drive_failure m), sent')
      | (Inr body, sent') \<Rightarrow>
          (case object_of parse body of
             Inl e \<Rightarrow> (Inl e, sent')
           | Inr v \<Rightarrow>
               (case files_of v of
                  Inl e \<Rightarrow> (Inl e, sent')
                | Inr files \<Rightarrow> (Inr (as_result (join_with [CHR 0x0A] (map file_line files))), sent'))))"

definition file_path :: "string \<Rightarrow> string" where
  "file_path i = ''/files/'' @ encode_uri_component i"

definition drive_metadata ::
  "drive_net \<Rightarrow> json_parser \<Rightarrow> string \<Rightarrow> string option \<Rightarrow> string \<Rightarrow> drive_asked list \<Rightarrow> drive_done" where
  "drive_metadata net parse url token i sent =
     (case drive_request net parse url token (file_path i) [(''fields'', file_fields)] sent of
        (Inl m, sent') \<Rightarrow> (Inr (drive_failure m), sent')
      | (Inr body, sent') \<Rightarrow>
          (case object_of parse body of
             Inl e \<Rightarrow> (Inl e, sent')
           | Inr v \<Rightarrow>
               let f = file_of_json v in
               (Inr (as_result (join_with [CHR 0x0A]
                  (file_line f # when_set (df_size f) (\<lambda>n. ''size: '' @ n @ '' bytes'') @ when_set (df_owner f) (\<lambda>who. ''owner: '' @ who)))),
                sent')))"

definition unreadable :: "string \<Rightarrow> drive_file \<Rightarrow> string" where
  "unreadable i f =
     or_text i (df_name f) @ '' is a '' @ or_text ''binary'' (df_mime f) @ '' file, which this connector cannot read as text. ''
     @ ''Its metadata and link are available, and somebody can open it themselves.''"

definition export_as :: "drive_file \<Rightarrow> string option" where
  "export_as f = (if truthy (df_mime f) then exportable (the (df_mime f)) else None)"

definition read_drive_file ::
  "drive_net \<Rightarrow> json_parser \<Rightarrow> string \<Rightarrow> string option \<Rightarrow> string \<Rightarrow> drive_asked list \<Rightarrow> drive_done" where
  "read_drive_file net parse url token i sent =
     (case drive_request net parse url token (file_path i) [(''fields'', ''id,name,mimeType'')] sent of
        (Inl m, sent1) \<Rightarrow> (Inr (drive_failure m), sent1)
      | (Inr body, sent1) \<Rightarrow>
          (case object_of parse body of
             Inl e \<Rightarrow> (Inl e, sent1)
           | Inr v \<Rightarrow>
               let f = file_of_json v in
               if export_as f = None \<and> \<not> is_textual (df_mime f) then (Inr (drive_failure (unreadable i f)), sent1)
               else
                 (case (case export_as f of
                      Some kind \<Rightarrow> drive_request net parse url token (file_path i @ ''/export'') [(''mimeType'', kind)] sent1
                    | None \<Rightarrow> drive_request net parse url token (file_path i) [(''alt'', ''media'')] sent1) of
                    (Inl m, sent2) \<Rightarrow> (Inr (drive_failure m), sent2)
                  | (Inr content, sent2) \<Rightarrow>
                      (Inr (as_result (or_text i (df_name f) @ [CHR 0x0A, CHR 0x0A] @ content)), sent2))))"

definition drive_call ::
  "drive_net \<Rightarrow> json_parser \<Rightarrow> string \<Rightarrow> string option \<Rightarrow> string \<Rightarrow> (string \<times> jsv) list \<Rightarrow> drive_asked list \<Rightarrow> drive_done" where
  "drive_call net parse url token tool args sent =
     (if tool = ''search_files'' \<or> tool = ''list_recent_files''
      then (if tool = ''search_files'' \<and> string_arg args ''query'' = None
            then (Inr (drive_failure ''A search needs something to search for.''), sent)
            else search_drive net parse url token (string_arg args ''query'') sent)
      else if tool = ''get_file_metadata''
      then (case string_arg args ''fileId'' of
          None \<Rightarrow> (Inr (drive_failure ''A file id is needed to look a file up.''), sent)
        | Some i \<Rightarrow> drive_metadata net parse url token i sent)
      else if tool = ''read_file_content''
      then (case string_arg args ''fileId'' of
          None \<Rightarrow> (Inr (drive_failure ''A file id is needed to read a file.''), sent)
        | Some i \<Rightarrow> read_drive_file net parse url token i sent)
      else (Inr (drive_failure (tool @ '' is not a tool this connector implements. The stored tool list is out of date; ''
          @ ''refresh it on the Plugins page.'')), sent))"

section \<open>What a Bot is told of its tools\<close>

text \<open>\<^verbatim>\<open>s.split("__")\<close>.\<close>

fun split_double_low :: "string \<Rightarrow> string list" where
  "split_double_low [] = [[]]"
| "split_double_low [c] = [[c]]"
| "split_double_low (c # d # cs) =
     (if c = CHR ''_'' \<and> d = CHR ''_'' then [] # split_double_low cs
      else case split_double_low (d # cs) of [] \<Rightarrow> [[c]] | w # ws \<Rightarrow> (c # w) # ws)"

text \<open>The system a tool is on, and its name there.\<close>

definition system_of_tool :: "string \<Rightarrow> string \<times> string" where
  "system_of_tool name =
     (let parts = split_double_low (if prefix ''mcp__'' name then drop 5 name else name) in
      if length parts > 1 then (hd parts, join_with ''__'' (tl parts)) else (''this deployment'', name))"

text \<open>The map from a system to its tools, in the order systems are first met.\<close>

fun add_to_system :: "string \<Rightarrow> string \<Rightarrow> (string \<times> string list) list \<Rightarrow> (string \<times> string list) list" where
  "add_to_system sys t [] = [(sys, [t])]"
| "add_to_system sys t ((s, ts) # rest) = (if s = sys then (s, ts @ [t]) # rest else (s, ts) # add_to_system sys t rest)"

definition by_system :: "string list \<Rightarrow> (string \<times> string list) list" where
  "by_system names = fold (\<lambda>n m. case system_of_tool n of (s, t) \<Rightarrow> add_to_system s t m) names []"

definition held_text :: "string list" where
  "held_text =
    [''Use them for anything about those systems. Do NOT browse to one of their websites instead: your'',
     ''browser is signed in as nobody, so it sees less than these tools do and will meet a sign-in wall'',
     ''that connecting an account has already solved.'',
     ''If one of these systems is involved and no tool above covers the part you need, that is a'',
     ''missing grant and not something to work around. Say so plainly, name the capability you would'',
     ''need, and say an administrator can grant it on that connector. Do not reach for the browser, do'',
     ''not ask the person to sign in, and do not ask them to fetch it for you: they already have the'',
     ''access, and the thing that is missing is yours, not theirs.'']"

definition missing_text :: "string list \<Rightarrow> string list" where
  "missing_text systems =
    [''This deployment also connects to: '' @ join_with '', '' systems @ ''. You hold none of their tools.'',
     ''If a question needs one of them, say plainly that you have not been granted it and that an'',
     ''administrator can grant it on that connector. Do NOT browse to its website: that is not the'',
     ''same thing, your browser is signed in as nobody, and it will meet a sign-in wall that the'',
     ''connector exists to avoid. Do not ask the person to sign in there either.'']"

definition granted_tool_guidance :: "string list \<Rightarrow> string list \<Rightarrow> string" where
  "granted_tool_guidance tools connected =
     (if tools = [] \<and> connected = [] then []
      else
        let held = by_system tools; missing = filter (\<lambda>s. s \<notin> set (map fst held)) connected in
        join_with [CHR 0x0A]
          ((if tools \<noteq> [] then [''You can reach these systems directly, as the person asking, with their own access:''] else [])
           @ map (\<lambda>(s, ts). ''- '' @ s @ '': '' @ join_with '', '' ts) held
           @ (if tools \<noteq> [] then held_text else [])
           @ (if missing \<noteq> [] then (if tools \<noteq> [] then [[]] else []) @ missing_text missing else [])))"

section \<open>What a term and a name become\<close>

text \<open>
  How text up to a mark is read where a backslash takes the next character as it is: a quoted term of
  Drive's query language, and the text of a markdown link.
\<close>

fun read_until :: "char \<Rightarrow> string \<Rightarrow> (string \<times> string) option" where
  "read_until mark [] = None"
| "read_until mark (c # cs) =
     (if c = mark then Some ([], cs)
      else if c = CHR 0x5C then
        (case cs of [] \<Rightarrow> None | d # ds \<Rightarrow> map_option (\<lambda>(q, rest). (d # q, rest)) (read_until mark ds))
      else map_option (\<lambda>(q, rest). (c # q, rest)) (read_until mark cs))"

lemma escape_with_Nil [simp]: "escape_with marks [] = []"
  by (simp add: escape_with_def)

lemma escape_with_Cons [simp]: "escape_with marks (c # s) = (if c \<in> marks then [CHR 0x5C, c] else [c]) @ escape_with marks s"
  by (simp add: escape_with_def)

lemma read_until_escaped:
  assumes "mark \<in> marks" "CHR 0x5C \<in> marks \<or> CHR 0x5C \<notin> set s" "mark \<noteq> CHR 0x5C"
  shows "read_until mark (escape_with marks s @ mark # rest) = Some (s, rest)"
  using assms by (induction s) auto

lemma prefix_append_drop: "prefix a (a @ b) = True" "drop (length a) (a @ b) = b"
  by simp_all

definition read_query :: "string \<Rightarrow> (string \<times> string) option" where
  "read_query t =
     (let opening = ''name contains '' @ [CHR 0x27]; middle = '' or fullText contains '' @ [CHR 0x27] in
      if \<not> prefix opening t then None
      else (case read_until (CHR 0x27) (drop (length opening) t) of
          None \<Rightarrow> None
        | Some (a, rest) \<Rightarrow>
            if \<not> prefix middle rest then None
            else (case read_until (CHR 0x27) (drop (length middle) rest) of
                Some (b, []) \<Rightarrow> Some (a, b) | _ \<Rightarrow> None)))"

text \<open>A search term is only ever a term. Whatever a model asks to search for, quotes and backslashes included,
  the query sent to Drive is read there as the two clauses of the program, each with exactly that term.\<close>

theorem search_term_stays_a_term: "read_query (drive_query q) = Some (q, q)"
proof -
  let ?e = "escape_with {CHR 0x5C, CHR 0x27} q"
  have read: "read_until (CHR 0x27) (?e @ CHR 0x27 # rest) = Some (q, rest)" for rest
    by (rule read_until_escaped) simp_all
  have drive_query: "drive_query q = (''name contains '' @ [CHR 0x27]) @ ?e @ CHR 0x27 # (('' or fullText contains '' @ [CHR 0x27]) @ ?e @ [CHR 0x27])"
    unfolding drive_query_def Let_def by simp
  show ?thesis unfolding drive_query read_query_def Let_def
    by (simp only: prefix_append_drop read if_True not_True_eq_False if_False option.case prod.case list.case)
qed

text \<open>The name in a link is read as the name when it holds no backslash.\<close>

lemma name_read_back:
  assumes "CHR 0x5C \<notin> set name"
  shows "read_until (CHR '']'') (escape_with {CHR ''['', CHR '']''} name @ CHR '']'' # rest) = Some (name, rest)"
  using assms by (intro read_until_escaped) simp_all

text \<open>A file name can replace the link it stands in. The brackets of a name are escaped and its backslashes are
  not, so a backslash before a bracket takes the escape away: the text of the link ends inside the name, and
  what follows in the name is the address a reader is sent to.\<close>

theorem file_name_replaces_link:
  "read_until (CHR '']'') (drop 3 (file_line
      \<lparr>df_id = None, df_name = Some ([CHR ''A'', CHR 0x5C] @ ''](https://evil.test)''), df_mime = None, df_modified = None,
       df_link = Some ''https://drive.test/f'', df_size = None, df_owner = None\<rparr>))
   = Some ([CHR ''A'', CHR 0x5C], ''(https://evil.test)](https://drive.test/f)'')"
  by (simp add: file_line_def or_text_def when_set_def)

section \<open>What comes back is never blank and never without end\<close>

lemma js_trim_blank: "js_trim s = [] \<longleftrightarrow> (\<forall>c \<in> set s. js_space c)"
proof
  assume "js_trim s = []"
  then have rest: "\<forall>c \<in> set (dropWhile js_space s). js_space c" by (simp add: js_trim_def)
  have "dropWhile js_space s = []"
  proof (rule ccontr)
    assume some: "dropWhile js_space s \<noteq> []"
    then show False using rest hd_dropWhile [OF some] hd_in_set [OF some] by blast
  qed
  then show "\<forall>c \<in> set s. js_space c" by simp
next
  assume "\<forall>c \<in> set s. js_space c"
  then have "dropWhile js_space s = []" by simp
  then show "js_trim s = []" unfolding js_trim_def by (simp only: rev.simps dropWhile.simps)
qed

lemma notice_not_blank: "js_trim (a @ truncation_notice n) \<noteq> []"
  unfolding js_trim_blank truncation_notice_def
  by (rule notI, drule bspec [of _ _ "CHR ''[''"]) (simp_all add: js_space_def char_code_def)

definition said :: "string \<Rightarrow> bool \<Rightarrow> bool" where
  "said t short \<longleftrightarrow> js_trim t \<noteq> [] \<and>
     (if short then \<exists>n > max_result_chars. suffix (truncation_notice n) t
        \<and> length t = max_result_chars + length (truncation_notice n)
      else length t \<le> max_result_chars)"

lemma nothing_found_said: "said nothing_found False"
  by (simp add: said_def nothing_found_def max_result_chars_def js_trim_blank js_space_def char_code_def)

lemma capped_said: "js_trim joined \<noteq> [] \<Longrightarrow> capped_text joined = (t, short) \<Longrightarrow> said t short"
  using notice_not_blank by (auto simp: capped_text_def said_def suffix_def split: if_splits intro: exI [of _ "length joined"])

text \<open>What a model reads of a tool is never blank and is bounded. Whatever a vendor answers, over either
  protocol, the text holds something, and has at most twenty thousand characters, or exactly that many and a
  notice at its end that says how many there were.\<close>

theorem results_said_and_bounded:
  "(case result_text content of None \<Rightarrow> True | Some (t, short) \<Rightarrow> said t short)
   \<and> said (ct_text (as_result body)) (ct_truncated (as_result body))"
proof (rule conjI)
  show "case result_text content of None \<Rightarrow> True | Some (t, short) \<Rightarrow> said t short"
    using nothing_found_said capped_said by (auto simp: result_text_def Let_def split: option.split)
  have "js_trim body \<noteq> [] \<Longrightarrow> js_trim (js_trim body) \<noteq> []" by simp
  then show "said (ct_text (as_result body)) (ct_truncated (as_result body))"
    using nothing_found_said capped_said [of "js_trim body"]
    by (auto simp: as_result_def Let_def split: prod.split)
qed

section \<open>What is sent to Drive\<close>

lemma drive_request_sends:
  "snd (drive_request net parse url token path query sent) = sent \<or>
   (truthy token \<and> snd (drive_request net parse url token path query sent)
      = sent @ [\<lparr>da_url = strip_slashes url @ path, da_query = query, da_token = the token\<rparr>])"
  by (simp add: drive_request_def Let_def)

text \<open>The requests a call may make, and the type a file's content is fetched with.\<close>

definition file_request :: "string \<Rightarrow> string option \<Rightarrow> drive_asked \<Rightarrow> bool" where
  "file_request url token d \<longleftrightarrow> truthy token \<and> da_token d = the token \<and>
     (\<exists>rest. da_url d = strip_slashes url @ ''/files'' @ rest
        \<and> (rest = [] \<or> (\<exists>i. rest = CHR ''/'' # encode_uri_component i) \<or> (\<exists>i. rest = CHR ''/'' # encode_uri_component i @ ''/export'')))"

definition sends_few :: "nat \<Rightarrow> string \<Rightarrow> string option \<Rightarrow> drive_asked list \<Rightarrow> drive_asked list \<Rightarrow> bool" where
  "sends_few n url token sent sent' \<longleftrightarrow> (\<exists>ds. sent' = sent @ ds \<and> length ds \<le> n \<and> list_all (file_request url token) ds)"

lemma sends_few_refl: "sends_few n url token sent sent"
  by (simp add: sends_few_def)

lemma sends_few_mono: "sends_few m url token sent sent' \<Longrightarrow> m \<le> n \<Longrightarrow> sends_few n url token sent sent'"
  by (auto simp: sends_few_def)

lemma sends_few_trans:
  "sends_few m url token a b \<Longrightarrow> sends_few n url token b c \<Longrightarrow> sends_few (m + n) url token a c"
  by (auto simp: sends_few_def)

lemma request_sends_few:
  assumes "drive_request net parse url token path query sent = (r, sent')"
    "path = ''/files'' @ rest" "rest = [] \<or> (\<exists>i. rest = CHR ''/'' # encode_uri_component i) \<or> (\<exists>i. rest = CHR ''/'' # encode_uri_component i @ ''/export'')"
  shows "sends_few 1 url token sent sent'"
  using drive_request_sends [of net parse url token path query sent] assms
  by (auto simp: sends_few_def file_request_def)

lemma file_path_form: "file_path i = ''/files'' @ (CHR ''/'' # encode_uri_component i)"
  by (simp add: file_path_def)

lemma search_sends_few: "sends_few 1 url token sent (snd (search_drive net parse url token query sent))"
  unfolding search_drive_def
  by (auto simp del: One_nat_def split: prod.split sum.split
      intro: request_sends_few [where rest = "[]"])

lemma describe_sends_few: "sends_few 1 url token sent (snd (drive_metadata net parse url token i sent))"
  unfolding drive_metadata_def
  by (auto simp del: One_nat_def simp: Let_def split: prod.split sum.split
      intro: request_sends_few [OF _ file_path_form])

lemma read_sends_few: "sends_few 2 url token sent (snd (read_drive_file net parse url token i sent))"
proof -
  obtain r sent1 where first: "drive_request net parse url token (file_path i) [(''fields'', ''id,name,mimeType'')] sent = (r, sent1)"
    by fastforce
  have one: "sends_few 1 url token sent sent1"
    by (rule request_sends_few [OF first file_path_form]) blast
  have next_one: "sends_few 1 url token sent1 (snd (drive_request net parse url token (file_path i @ ''/export'') q sent1))"
    "sends_few 1 url token sent1 (snd (drive_request net parse url token (file_path i) q' sent1))" for q q'
    by (rule request_sends_few [OF prod.collapse [symmetric]], simp add: file_path_def, blast)+
  have two: "sends_few 2 url token sent sent2" if "sends_few 1 url token sent1 sent2" for sent2
    using sends_few_trans [OF one that] by (simp add: numeral_2_eq_2)
  have pair: "snd (case x of (Inl m, s2) \<Rightarrow> (f m, s2) | (Inr c, s2) \<Rightarrow> (g c, s2)) = snd x" for x :: "(string + string) \<times> drive_asked list"
    and f g :: "string \<Rightarrow> string + call_result"
    by (simp split: prod.split sum.split)
  show ?thesis
    unfolding read_drive_file_def first Let_def
    using sends_few_mono [OF one, of 2] two [OF next_one(1)] two [OF next_one(2)]
    by (simp add: pair split: sum.split option.split)
qed

text \<open>A call of a Drive tool reaches nothing but the files of the one Drive. Whatever tool and arguments a model
  names and whatever Drive answers, at most two requests are sent, each to the files of the server's address
  with the token the call was given, and none when there is no token; an id in it can neither end the path,
  nor begin a query.\<close>

theorem drive_reaches_only_files:
  "sends_few 2 url token sent (snd (drive_call net parse url token tool args sent))
   \<and> list_all (\<lambda>c. \<not> path_mark c) (encode_uri_component i)"
proof (rule conjI)
  have one: "sends_few 2 url token sent (snd (search_drive net parse url token q sent))"
    "sends_few 2 url token sent (snd (drive_metadata net parse url token j sent))" for q j
    using sends_few_mono [OF search_sends_few, of 2] sends_few_mono [OF describe_sends_few, of 2] by simp_all
  show "sends_few 2 url token sent (snd (drive_call net parse url token tool args sent))"
    unfolding drive_call_def
    by (cases "string_arg args ''fileId''")
       (simp_all only: if_split_mem2 snd_conv sends_few_refl read_sends_few one option.case if_splits, simp_all add: sends_few_refl one read_sends_few)
  show "list_all (\<lambda>c. \<not> path_mark c) (encode_uri_component i)"
    unfolding list_all_iff using encode_uri_component_plain by blast
qed

text \<open>An id of two dots leaves the files. It is encoded to itself, and the parser that is given the address
  takes two dots as the folder above, so the request with the person's token goes to the root of the interface.\<close>

theorem dotted_id_leaves_files:
  "snd (drive_call (\<lambda>ds. Reply_late) parse ''https://www.googleapis.com/drive/v3'' (Some ''t'') ''get_file_metadata''
      [(''fileId'', JStr ''..'')] [])
   = [\<lparr>da_url = ''https://www.googleapis.com/drive/v3/files/..'', da_query = [(''fields'', file_fields)], da_token = ''t''\<rparr>]"
  by (simp add: drive_call_def drive_metadata_def drive_request_def string_arg_def file_path_def encode_uri_component_def
      unreserved_def strip_slashes_def js_trim_def js_space_def char_code_def)

section \<open>A Bot is told all of its tools\<close>

lemma add_to_system_keys: "fst ` set (add_to_system s t m) = insert s (fst ` set m)"
proof (induction m)
  case (Cons p m)
  then show ?case by (cases p) auto
qed simp

lemma add_to_system_distinct: "distinct (map fst m) \<Longrightarrow> distinct (map fst (add_to_system s t m))"
proof (induction m)
  case (Cons p m)
  then show ?case using add_to_system_keys [of s t m] by (cases p) (auto simp del: image_iff)
qed simp

lemma add_to_system_lookup:
  "map_of (add_to_system s t m) s' =
     (if s' = s then Some (case map_of m s of None \<Rightarrow> [t] | Some ts \<Rightarrow> ts @ [t]) else map_of m s')"
  by (induction m) auto

definition tools_of_system :: "string \<Rightarrow> string list \<Rightarrow> string list" where
  "tools_of_system s names = map snd (filter (\<lambda>p. fst p = s) (map system_of_tool names))"

lemma by_system_snoc: "by_system (names @ [n]) = add_to_system (fst (system_of_tool n)) (snd (system_of_tool n)) (by_system names)"
  by (simp add: by_system_def case_prod_beta)

lemma by_system_distinct: "distinct (map fst (by_system names))"
  by (induction names rule: rev_induct) (simp_all add: by_system_snoc add_to_system_distinct, simp add: by_system_def)

lemma by_system_lookup:
  "map_of (by_system names) s = (if tools_of_system s names = [] then None else Some (tools_of_system s names))"
proof (induction names rule: rev_induct)
  case Nil
  then show ?case by (simp add: by_system_def tools_of_system_def)
next
  case (snoc n names)
  then show ?case
    by (auto simp: by_system_snoc add_to_system_lookup tools_of_system_def split: option.splits if_splits)
qed

lemma split_double_low_not_Nil: "split_double_low s \<noteq> []"
  by (induction s rule: split_double_low.induct) (auto split: list.splits)

lemma join_split_double_low: "join_with ''__'' (split_double_low s) = s"
proof (induction s rule: split_double_low.induct)
  case (3 c d cs)
  show ?case
  proof (cases "c = CHR ''_'' \<and> d = CHR ''_''")
    case True
    obtain w ws where "split_double_low cs = w # ws" using split_double_low_not_Nil by (metis list.exhaust)
    then show ?thesis using True 3(1) by simp
  next
    case False
    obtain w ws where w: "split_double_low (d # cs) = w # ws" using split_double_low_not_Nil by (metis list.exhaust)
    have "join_with ''__'' (w # ws) = d # cs" using 3(2) [OF False] w by simp
    then have "join_with ''__'' ((c # w) # ws) = c # d # cs" by (cases ws) simp_all
    then show ?thesis using w by (simp only: split_double_low.simps if_not_P [OF False] list.case)
  qed
qed simp_all

lemma split_double_low_at:
  "CHR ''_'' \<notin> set server \<Longrightarrow> split_double_low (server @ ''__'' @ tool) = server # split_double_low tool"
proof (induction server)
  case (Cons c server)
  then show ?case by (cases server) auto
qed simp

text \<open>A Bot is told of each of its tools, under the system it is on. The systems named are those of the tools, each
  once with its tools in their order; and the tool of a server is told under that server's id, by its name.\<close>

theorem guidance_names_every_tool:
  "distinct (map fst (by_system names))
   \<and> map_of (by_system names) s = (if tools_of_system s names = [] then None else Some (tools_of_system s names))
   \<and> (if plain_server server then system_of_tool (tool_name_for (server @ ''/'' @ tool)) = (server, tool) else True)"
proof (intro conjI by_system_distinct by_system_lookup)
  have "system_of_tool (tool_name_for (server @ ''/'' @ tool)) = (server, tool)" if plain: "plain_server server"
  proof -
    have name: "tool_name_for (server @ ''/'' @ tool) = ''mcp__'' @ server @ ''__'' @ tool"
      using plain_server_chars [OF plain] by (simp add: tool_name_for_def replace_slash [simplified])
    have pieces: "split_double_low (server @ ''__'' @ tool) = server # split_double_low tool"
      by (rule split_double_low_at [OF plain_server_chars(2) [OF plain]])
    then show ?thesis
      using split_double_low_not_Nil [of tool] unfolding name system_of_tool_def Let_def
      by (simp add: pieces [simplified] join_split_double_low [simplified])
  qed
  then show "if plain_server server then system_of_tool (tool_name_for (server @ ''/'' @ tool)) = (server, tool) else True"
    by simp
qed

end
