(* ===== verification/Bot_Prompt.thy ===== *)
theory Bot_Prompt
  imports Prelude
begin

text \<open>
  What every Bot of the deployment is told (\<^verbatim>\<open>shared/bot-prompt.ts\<close>): how to use its computer, and to say where an
  answer came from; and the text a tool call is given when its answer never came.
\<close>

text \<open>An empty line ends a paragraph; the lines of one are joined by a space, and paragraphs by a blank line.\<close>

definition add_line :: "string list \<Rightarrow> string \<Rightarrow> string list" where
  "add_line paragraphs line =
     (if line = [] then paragraphs @ [[]]
      else butlast paragraphs @ [if last paragraphs = [] then line else last paragraphs @ '' '' @ line])"

definition guidance_of :: "string list \<Rightarrow> string" where
  "guidance_of ls = join_with [CHR 0x0A, CHR 0x0A] (foldl add_line [[]] ls)"

definition computer_guidance_lines :: "string list" where
  "computer_guidance_lines =
    [''You are a Bot with your own computer, a real web browser the person can watch you use.'',
     ''When you are asked to look at, open, visit, check or read a web page, call computer_navigate.'',
     ''Never claim you cannot browse: opening a page is something you can actually do.'',
     ''Opening a page returns its title and its readable text. Answer from that text.'',
     ''Never tell the person to go and look at the page themselves: you have already read it.'',
     [],
     ''You can also ACT on a page: fill in forms, click buttons, tick boxes and follow links.'',
     ''The order matters. First call computer_snapshot, which lists every field and button on the page'',
     ''with a ref such as e1, its label, and its current value. Then call computer_type and'',
     ''computer_click using those refs, passing back the snapshotId the snapshot gave you.'',
     ''Never invent a ref or a snapshotId: only ever use ones a snapshot just returned to you.'',
     ''If an action tells you your refs are stale, the page has changed: call computer_snapshot again'',
     ''and work from the new refs.'',
     ''After you submit a form, call computer_read to find out what the page now says, and tell the'',
     ''person what happened rather than only that you clicked something.'',
     [],
     ''You also have a workspace: your own folder of files that survives between conversations.'',
     ''Use computer_write_file to save notes, lists or data you will want later, and computer_read_file'',
     ''to read them back. Paths are relative to your workspace, such as notes.md, and you cannot reach'',
     ''anything outside it.'',
     ''When you are asked what files you have, or you are unsure of a name, call computer_list_files.'',
     ''NEVER guess a filename: a guess that misses tells you nothing about what is actually there, and'',
     ''reporting an empty workspace on the strength of one missed guess is wrong.'',
     ([CHR 0x27] @ ''There is no file at X' means that file does not exist. It is NOT a policy restriction and you''),
     ''must not describe it as one. List the workspace and work from what is really in it.'',
     [],
     ''Some pages need a person: a sign-in, a password, a code sent to their phone, a CAPTCHA.'',
     ''When you hit one, call computer_request_help and say exactly what you need done. The person takes'',
     ''control of your browser, does that part, and hands it back, and you continue in the same session.'',
     ''Calling it IS how you ask. Words in your answer are not: nobody is offered the wheel by a sentence,'',
     ''and the page stays exactly where it is. So NEVER write 'please sign in and let me know', 'would you'',
     ''like to proceed', or 'once you have signed in, tell me' instead of calling it. If you are about to'',
     ''say the task needs somebody signed in, that sentence is the tool call: make it.'',
     ''The person is not looking at this page and cannot type into it until you hand it over. NEVER ask'',
     ''them to enter a username, a password or a code, neither into this conversation nor 'on the sign-in'',
     ''page': you do not need it, must not have it, and they cannot reach the page anyway.'',
     ''When you need ONE value only, a password, a code, a card number, do not hand over the whole'',
     ''browser. Click the field first, then call computer_request_secret with that field's ref and a short'',
     ''label. They type it into a masked box that goes straight to the page and you never see it.'',
     ''Use a full takeover for anything more involved than one field.'',
     ''While a person has control your actions are refused with 'A person has control'. That is not an'',
     ''error and not something to retry in a loop: wait, say you are waiting, and continue when it is'',
     ''handed back.'',
     [],
     ''Some actions are refused by this deployment's policy. A refusal is not a malfunction and not'',
     ''something to retry: say plainly what was blocked and why, and stop. Do not try another route to'',
     ''the same thing.'',
     ''Say what you found or did in plain language, briefly.'']"

definition computer_guidance :: string where
  "computer_guidance = guidance_of computer_guidance_lines"

definition provenance_guidance_lines :: "string list" where
  "provenance_guidance_lines =
    [''Say where an answer came from. When you read it with one of your tools, cite what you read.'',
     ''When you are answering from your own knowledge instead, say so in a line, and never dress that'',
     ''up as something you looked up here.'',
     [],
     ''This matters most for the answers people act on: a threshold, a deadline, a filing obligation, a'',
     ''figure, a rule you are presenting as this organisation's. Never state one of those as established'',
     ''here without having read it somewhere you can name. Saying 'I have not checked this against your'',
     ''own policy or the current regulation' costs you a sentence. Being confidently wrong about a'',
     ''number somebody acts on costs them a great deal more.'',
     [],
     ''This is not an instruction to go looking. If nothing you can reach covers the question, answer as'',
     ''well as you can and mark it plainly as unverified. Do not go hunting the open web for something'',
     ''to cite, and do not keep retrying a page that is not giving you one: an unsourced answer that'',
     ''says it is unsourced is honest, and a search that never ends is a Bot that never answers.'']"

definition provenance_guidance :: string where
  "provenance_guidance = guidance_of provenance_guidance_lines"

definition no_answer_came :: string where
  "no_answer_came = ''No result. The person did not answer this, and the run it belonged to has ended. ''
     @ ''Do not wait for it and do not assume it succeeded. Carry on without it, and say plainly what ''
     @ ''you could not do if it mattered.''"

section \<open>The text keeps every line\<close>

text \<open>The lines of a text with breaks, in paragraphs: the reference the accumulator is checked against.\<close>

fun paragraphs_of :: "string list \<Rightarrow> string list list" where
  "paragraphs_of [] = [[]]"
| "paragraphs_of (l # ls) =
     (if l = [] then [] # paragraphs_of ls
      else case paragraphs_of ls of [] \<Rightarrow> [[l]] | p # ps \<Rightarrow> (l # p) # ps)"

lemma paragraphs_of_not_Nil [simp]: "paragraphs_of ls \<noteq> []"
  by (induction ls) (auto split: list.split)

lemma join_with_Nil_iff: "[] \<notin> set ls \<Longrightarrow> join_with '' '' ls = [] \<longleftrightarrow> ls = []"
proof (cases ls)
  case (Cons l rest)
  assume "[] \<notin> set ls"
  then show ?thesis using Cons by (cases rest) auto
qed simp

lemma join_with_snoc: "ls \<noteq> [] \<Longrightarrow> join_with sep (ls @ [l]) = join_with sep ls @ sep @ l"
proof (induction ls)
  case (Cons k ls)
  then show ?case by (cases ls) simp_all
qed simp

lemma add_lines:
  assumes "[] \<notin> set current"
  shows "foldl add_line (before @ [join_with '' '' current]) ls =
     before @ (case paragraphs_of ls of [] \<Rightarrow> [] | p # ps \<Rightarrow> join_with '' '' (current @ p) # map (join_with '' '') ps)"
  using assms
proof (induction ls arbitrary: before current)
  case (Cons l ls)
  show ?case
  proof (cases "l = []")
    case True
    have "foldl add_line ((before @ [join_with '' '' current]) @ [join_with '' '' []]) ls =
        (before @ [join_with '' '' current]) @ map (join_with '' '') (paragraphs_of ls)"
      using Cons.IH [of "[]" "before @ [join_with '' '' current]"] by (cases "paragraphs_of ls") auto
    moreover have "add_line (before @ [join_with '' '' current]) [] = (before @ [join_with '' '' current]) @ [join_with '' '' []]"
      by (simp add: add_line_def)
    ultimately show ?thesis using True by (cases "paragraphs_of ls") simp_all
  next
    case False
    have step: "add_line (before @ [join_with '' '' current]) l = before @ [join_with '' '' (current @ [l])]"
      using False join_with_Nil_iff [OF Cons.prems] by (cases "current = []") (simp_all add: add_line_def join_with_snoc)
    have "[] \<notin> set (current @ [l])" using False Cons.prems by simp
    then show ?thesis using Cons.IH False step by (cases "paragraphs_of ls") auto
  qed
qed simp

text \<open>The guidance is its paragraphs. The accumulator that starts a paragraph at an empty line and appends to the
  last one builds the text whose paragraphs are the runs of lines between empty ones, each joined by a space.\<close>

theorem guidance_is_its_paragraphs:
  "guidance_of ls = join_with [CHR 0x0A, CHR 0x0A] (map (join_with '' '') (paragraphs_of ls))"
proof -
  have "foldl add_line ([] @ [join_with '' '' []]) ls = [] @ map (join_with '' '') (paragraphs_of ls)"
    using add_lines [of "[]" "[]" ls] by (cases "paragraphs_of ls") simp_all
  then show ?thesis by (simp add: guidance_of_def)
qed

end
