(* ===== verification/Copilot.thy ===== *)
theory Copilot
  imports Agents Vendors Plugin_Facts Bot_Prompt
begin

text \<open>
  From the coworkers a person may run to what a run sends (\<^verbatim>\<open>server/src/agents/runtime-agents.ts\<close> and
  \<^verbatim>\<open>copilot.ts\<close>): which are registered, with what key, what each is told and offered, and on whose behalf.

  The runtime that streams a run and the agents of its package are not modelled; a run is the request they
  are given. The URL parser, the signing of a run, the choice of skills by a model, the conversion of a tool's
  schema and the location of a computer are parameters.
\<close>

section \<open>Registered coworkers\<close>

record standing_message =
  sm_id :: string
  sm_content :: string

definition standing_role_message :: "string \<Rightarrow> string \<Rightarrow> string \<Rightarrow> string \<Rightarrow> standing_message" where
  "standing_role_message i name title job =
     \<lparr>sm_id = ''standing-role:'' @ i,
      sm_content = join_with [CHR 0x0A, CHR 0x0A]
        [''You are '' @ name @ '', '' @ title @ ''.'', job,
         ''This standing role applies in every channel. Treat channel messages as task-specific instructions within it.'',
         provenance_guidance]\<rparr>"

datatype registered_kind =
    Runs_built_in string
  | Runs_remote string standing_message "string option" "(string \<times> string) list"
  | Runs_nowhere string

record registered_agent =
  rg_id :: string
  rg_name :: string
  rg_kind :: registered_kind

definition is_http_url :: "url_parser \<Rightarrow> string \<Rightarrow> bool" where
  "is_http_url parse_url v = (case parse_url v of None \<Rightarrow> False | Some u \<Rightarrow> url_protocol u \<in> set [''http:'', ''https:''])"

definition text_field :: "string \<Rightarrow> (string \<times> jsv) list \<Rightarrow> string option" where
  "text_field k configuration = (case map_of configuration k of Some (JStr t) \<Rightarrow> Some t | _ \<Rightarrow> None)"

definition registered_from_row :: "url_parser \<Rightarrow> agent_row \<times> profile_row \<Rightarrow> registered_agent option" where
  "registered_from_row parse_url = (\<lambda>(a, p).
     let role_message = standing_role_message (ag_id a) (ag_name a) (pf_title p) (pf_role p);
         registered = (\<lambda>k. \<lparr>rg_id = ag_id a, rg_name = ag_name a, rg_kind = k\<rparr>) in
     if ag_type a = Built_in_agent then
       (case map_option js_trim (text_field ''systemPrompt'' (ag_configuration a)) of
          Some (c # t) \<Rightarrow> Some (registered (Runs_built_in (c # t))) | _ \<Rightarrow> None)
     else
       (case map_option js_trim (text_field ''harness'' (ag_configuration a)) of
          Some (c # h) \<Rightarrow> Some (registered (Runs_remote (''harness://'' @ c # h) role_message (Some (c # h)) []))
        | _ \<Rightarrow>
            (case text_field ''endpoint'' (ag_configuration a) of
               Some e \<Rightarrow> if is_http_url parse_url e then Some (registered (Runs_remote e role_message None [])) else None
             | None \<Rightarrow> None)))"

section \<open>What one person may run\<close>

text \<open>The channels a coworker worked in, and who is a member of which.\<close>

record channel_tables =
  ch_agents :: "(string \<times> string) list"
  ch_members :: "(string \<times> string) list"

record runtime_env =
  re_url :: url_parser
  re_decrypt :: "(string \<Rightarrow> string + string) option"
  re_managed :: "(string \<times> string) option"

definition tombstones :: "channel_tables \<Rightarrow> agent_actor \<Rightarrow> agent_tables \<Rightarrow> (string \<times> string) list" where
  "tombstones channels actor t =
     remdups (map (\<lambda>(a, p). (ag_id a, ag_name a))
       (filter (\<lambda>(a, p). pf_deleted p \<noteq> None
           \<and> list_ex (\<lambda>(i, c). i = ag_id a \<and> (c, aa_id actor) \<in> set (ch_members channels)) (ch_agents channels))
         (joined_profiles t)))"

definition deleted_reason :: "string \<Rightarrow> string" where
  "deleted_reason name = name @ '' has been deleted and can no longer run. Its conversations remain readable.''"

definition managed_header :: string where
  "managed_header = ''x-openbot-agent-token''"

text \<open>The key of the coworker, then the token of the deployment's own Bot.\<close>

definition with_headers ::
  "runtime_env \<Rightarrow> credential_row list \<Rightarrow> (string \<times> jsv) list \<Rightarrow> registered_agent \<Rightarrow> string + registered_agent" where
  "with_headers env rows configuration agent =
     (case rg_kind agent of
        Runs_remote endpoint role_message harness headers \<Rightarrow>
          (case (case re_decrypt env of None \<Rightarrow> Inr None
                 | Some decrypt \<Rightarrow> agent_auth_headers decrypt rows (auth_from_configuration configuration)) of
             Inl e \<Rightarrow> Inl e
           | Inr key \<Rightarrow>
               let own = (case key of None \<Rightarrow> headers | Some h \<Rightarrow> [h]);
                   all_headers = (case re_managed env of
                       Some (u, token) \<Rightarrow> if endpoint = u then AList.update managed_header token own else own
                     | None \<Rightarrow> own) in
               Inr (agent\<lparr>rg_kind := Runs_remote endpoint role_message harness all_headers\<rparr>))
      | _ \<Rightarrow> Inr agent)"

fun register_active ::
  "runtime_env \<Rightarrow> credential_row list \<Rightarrow> (agent_row \<times> profile_row) list \<Rightarrow> (string \<times> registered_agent) list
     \<Rightarrow> string + (string \<times> registered_agent) list" where
  "register_active env rows [] m = Inr m"
| "register_active env rows (r # rs) m =
     (case registered_from_row (re_url env) r of
        None \<Rightarrow> register_active env rows rs m
      | Some agent \<Rightarrow>
          (case with_headers env rows (ag_configuration (fst r)) agent of
             Inl e \<Rightarrow> Inl e
           | Inr agent' \<Rightarrow> register_active env rows rs (AList.update (rg_id agent') agent' m)))"

definition load_runtime_agents ::
  "runtime_env \<Rightarrow> channel_tables \<Rightarrow> agent_actor \<Rightarrow> agent_world \<Rightarrow> string + registered_agent list" where
  "load_runtime_agents env channels actor w =
     (case register_active env (aw_vault w) (readable actor (aw_tables w)) [] of
        Inl e \<Rightarrow> Inl e
      | Inr m \<Rightarrow>
          Inr (map snd (fold (\<lambda>(i, name) m. if map_of m i \<noteq> None then m
              else m @ [(i, \<lparr>rg_id = i, rg_name = name, rg_kind = Runs_nowhere (deleted_reason name)\<rparr>)])
            (tombstones channels actor (aw_tables w)) m)))"

section \<open>A run of a coworker that lives elsewhere\<close>

text \<open>A tool as the endpoint is offered it; \<open>convert\<close> is the schema of what the tool takes.\<close>

definition tool_json :: "(jsv \<Rightarrow> jsv) \<Rightarrow> offered_tool \<Rightarrow> jsv" where
  "tool_json convert t =
     JObj [(''name'', JStr (ot_name t)), (''description'', JStr (ot_description t)), (''parameters'', convert (ot_schema t))]"

record history_message =
  rm_id :: "string option"
  rm_role :: string
  rm_content :: jsv

record run_input =
  ri_run :: string
  ri_messages :: "history_message list"
  ri_tools :: "jsv list option"
  ri_forwarded :: "(string \<times> jsv) list option"

definition system_message :: "string \<Rightarrow> string \<Rightarrow> history_message" where
  "system_message i content = \<lparr>rm_id = Some i, rm_role = ''system'', rm_content = JStr content\<rparr>"

definition holdings_message :: "string \<Rightarrow> string list \<Rightarrow> offered_tool list \<Rightarrow> history_message option" where
  "holdings_message agent vendors offered =
     (let holdings = granted_tool_guidance (map ot_name offered) vendors in
      if holdings = [] then None else Some (system_message (''granted-tools:'' @ agent) holdings))"

definition list_or_none :: "'a list option \<Rightarrow> 'a list" where
  "list_or_none v = (case v of None \<Rightarrow> [] | Some xs \<Rightarrow> xs)"

definition run_with ::
  "(jsv \<Rightarrow> jsv) \<Rightarrow> (string \<Rightarrow> string \<Rightarrow> string) option \<Rightarrow> string list \<Rightarrow> string \<Rightarrow> standing_message
     \<Rightarrow> offered_tool list \<Rightarrow> run_input \<Rightarrow> run_input" where
  "run_with convert sign_run vendors agent standing tools input =
     (let holdings = holdings_message agent vendors tools;
          props = AList.update ''openbotDeploymentTools'' (JArr (map (\<lambda>t. JStr (ot_name t)) tools))
              (AList.update ''openbotBotId'' (JStr agent) (list_or_none (ri_forwarded input))) in
      input\<lparr>ri_messages := system_message (sm_id standing) (sm_content standing)
              # (case holdings of None \<Rightarrow> [] | Some h \<Rightarrow> [h])
              @ filter (\<lambda>m. rm_id m \<noteq> Some (sm_id standing) \<and> rm_id m \<noteq> Option.bind holdings rm_id) (ri_messages input),
            ri_tools := Some (list_or_none (ri_tools input) @ map (tool_json convert) tools),
            ri_forwarded := Some (case sign_run of
                Some s \<Rightarrow> AList.update ''openbotRun'' (JStr (s agent (ri_run input))) props | None \<Rightarrow> props)\<rparr>)"

section \<open>Which tools, for which message\<close>

record tool_selection =
  ts_skills :: "string \<Rightarrow> (string + selectable_skill list)"
  ts_parse :: "string \<Rightarrow> string + jsv"
  ts_ask :: "string \<Rightarrow> string + string option"
  ts_floor :: "nat option"

definition skills_for :: "tool_selection option \<Rightarrow> string \<Rightarrow> selectable_skill list" where
  "skills_for selection agent =
     (case selection of None \<Rightarrow> [] | Some s \<Rightarrow> (case ts_skills s agent of Inl e \<Rightarrow> [] | Inr skills \<Rightarrow> skills))"

definition narrows :: "tool_selection option \<Rightarrow> string \<Rightarrow> offered_tool list \<Rightarrow> bool" where
  "narrows selection agent held \<longleftrightarrow>
     (case selection of None \<Rightarrow> False
      | Some s \<Rightarrow> list_ex (\<lambda>k. sk_tools k \<noteq> []) (skills_for selection agent)
          \<and> length held > (case ts_floor s of None \<Rightarrow> selection_floor | Some n \<Rightarrow> n))"

definition chat_of :: "history_message \<Rightarrow> chat_message" where
  "chat_of m = \<lparr>cm_role = Some (rm_role m), cm_content = rm_content m\<rparr>"

definition offered_for :: "tool_selection option \<Rightarrow> string \<Rightarrow> offered_tool list \<Rightarrow> run_input \<Rightarrow> offered_tool list" where
  "offered_for selection agent held input =
     (if narrows selection agent held then
        (case selection of None \<Rightarrow> held
         | Some s \<Rightarrow>
             let chosen = select_tools (ts_parse s) (ts_ask s) (map (\<lambda>t. \<lparr>st_ref = ot_ref t\<rparr>) held)
                   (skills_for selection agent) (latest_user_text (map chat_of (ri_messages input))) (ts_floor s) in
             filter (\<lambda>t. \<lparr>st_ref = ot_ref t\<rparr> \<in> set (sel_offered chosen)) held)
      else held)"

section \<open>A Bot that runs here\<close>

record runtime_model =
  md_provider :: string
  md_default :: string
  md_base :: "string option"

datatype language_model = Model_named string | Model_at string string string

definition language_model_of :: "runtime_model \<Rightarrow> string \<Rightarrow> language_model" where
  "language_model_of model key =
     (if \<not> truthy (md_base model) then Model_named (md_provider model @ ''/'' @ md_default model)
      else Model_at key (the (md_base model)) (md_default model))"

definition tool_steps :: nat where
  "tool_steps = 8"

datatype built_in_configuration =
    Fails_to_start string
  | Answers_with language_model string string "(offered_tool list \<times> nat) option"

definition built_in_agent_configuration ::
  "string \<Rightarrow> string \<Rightarrow> runtime_model \<Rightarrow> string option \<Rightarrow> offered_tool list \<Rightarrow> string option \<Rightarrow> string list \<Rightarrow> built_in_configuration" where
  "built_in_agent_configuration name system_prompt model key tools computer vendors =
     (if \<not> truthy key
      then Fails_to_start (''Model credential is not configured for '' @ name @ ''. Add the package credential or set OPENAI_API_KEY.'')
      else
        let holdings = granted_tool_guidance (map ot_name tools) vendors in
        Answers_with (language_model_of model (the key))
          (join_with [CHR 0x0A, CHR 0x0A]
             ([system_prompt, provenance_guidance] @ (if holdings \<noteq> [] then [holdings] else [])
              @ (if truthy computer then [the computer] else [])))
          (the key)
          (if tools \<noteq> [] then Some (tools, tool_steps) else None))"

section \<open>A request\<close>

datatype built_run =
    Refuses string
  | Runs_here built_in_configuration
  | Sends string "(string \<times> string) list" "string option" run_input

record run_setup =
  rs_model :: runtime_model
  rs_key :: "string option"
  rs_computer :: "string option"
  rs_vendors :: "string list"
  rs_sign :: "(string \<Rightarrow> string \<Rightarrow> string) option"
  rs_convert :: "jsv \<Rightarrow> jsv"
  rs_selection :: "tool_selection option"

definition build_run :: "run_setup \<Rightarrow> (string \<Rightarrow> offered_tool list) \<Rightarrow> registered_agent \<Rightarrow> run_input \<Rightarrow> built_run" where
  "build_run setup load_tools agent input =
     (let offered = offered_for (rs_selection setup) (rg_id agent) (load_tools (rg_id agent)) input in
      case rg_kind agent of
        Runs_nowhere reason \<Rightarrow> Refuses reason
      | Runs_built_in prompt \<Rightarrow>
          Runs_here (built_in_agent_configuration (rg_name agent) prompt (rs_model setup) (rs_key setup) offered
            (rs_computer setup) (rs_vendors setup))
      | Runs_remote endpoint role_message harness headers \<Rightarrow>
          Sends endpoint headers harness
            (run_with (rs_convert setup) (rs_sign setup) (rs_vendors setup) (rg_id agent) role_message offered input))"

definition is_built_in :: "registered_agent \<Rightarrow> bool" where
  "is_built_in agent \<longleftrightarrow> (case rg_kind agent of Runs_built_in p \<Rightarrow> True | _ \<Rightarrow> False)"

text \<open>The key of the model is asked for only where a Bot runs here; vendors that cannot be listed are none.\<close>

definition resolve_runtime_agents ::
  "(unit \<Rightarrow> string + registered_agent list) \<Rightarrow> (unit \<Rightarrow> string + string option) \<Rightarrow> (unit \<Rightarrow> string + string list) \<Rightarrow> run_setup
     \<Rightarrow> string + (registered_agent list \<times> run_setup)" where
  "resolve_runtime_agents load_agents resolve_key load_vendors setup =
     (case load_agents () of
        Inl e \<Rightarrow> Inl e
      | Inr [] \<Rightarrow> Inl ''No agents are registered. Add one to the tenant package or the agents table.''
      | Inr agents \<Rightarrow>
          (case (if list_ex is_built_in agents then resolve_key () else Inr None) of
             Inl e \<Rightarrow> Inl e
           | Inr key \<Rightarrow>
               Inr (agents, setup\<lparr>rs_key := key,
                 rs_vendors := (case load_vendors () of Inl e \<Rightarrow> [] | Inr vs \<Rightarrow> vs)\<rparr>)))"

section \<open>A harness in the Bot's own computer\<close>

record harness_runtime =
  hr_locate :: "string \<Rightarrow> string + string"
  hr_token :: "string option"
  hr_artifacts :: "string \<Rightarrow> string + jsv list"
  hr_model :: "string \<Rightarrow> string + jsv option"

record harness_request =
  hq_url :: string
  hq_headers :: "(string \<times> string) list"
  hq_body :: "string option"

definition without_slash :: "string \<Rightarrow> string" where
  "without_slash s = (if suffix ''/'' s then butlast s else s)"

text \<open>\<^verbatim>\<open>{ ...JSON.parse(body), ...extra }\<close>, or the body as it was where any of it throws.\<close>

definition harness_body :: "(string \<Rightarrow> string + jsv) \<Rightarrow> harness_runtime \<Rightarrow> string \<Rightarrow> string \<Rightarrow> string" where
  "harness_body parse env agent body =
     (case hr_artifacts env agent of
        Inl e \<Rightarrow> body
      | Inr artifacts \<Rightarrow>
          (case hr_model env agent of
             Inl e \<Rightarrow> body
           | Inr model \<Rightarrow>
               let extra = (if artifacts \<noteq> [] then [(''artifacts'', JArr artifacts)] else [])
                   @ (case model of None \<Rightarrow> [] | Some m \<Rightarrow> [(''model'', m)]) in
               if extra = [] then body
               else (case parse body of
                   Inl e \<Rightarrow> body
                 | Inr v \<Rightarrow> js_stringify (JObj (fold (\<lambda>(k, x). AList.update k x) extra
                     (case v of JObj kvs \<Rightarrow> kvs | _ \<Rightarrow> []))))))"

definition harness_fetch ::
  "(string \<Rightarrow> string + jsv) \<Rightarrow> harness_runtime option \<Rightarrow> string \<Rightarrow> string \<Rightarrow> string option \<Rightarrow> (string \<times> string) list \<Rightarrow> string option
     \<Rightarrow> string + harness_request" where
  "harness_fetch parse runtime agent name harness headers body =
     (case runtime of
        None \<Rightarrow> Inl (name @ '' runs a managed harness, but this deployment has no computers to run it in.'')
      | Some env \<Rightarrow>
          (case hr_locate env agent of
             Inl e \<Rightarrow> Inl e
           | Inr base \<Rightarrow>
               let h1 = (if truthy (hr_token env) then AList.update ''x-openbot-computer-token'' (the (hr_token env)) headers else headers);
                   h2 = AList.update ''x-openbot-bot-id'' agent h1;
                   h3 = (if truthy harness then AList.update ''x-openbot-harness'' (the harness) h2 else h2) in
               Inr \<lparr>hq_url = without_slash base @ ''/harness/run'', hq_headers = h3,
                    hq_body = map_option (harness_body parse env agent) body\<rparr>))"

section \<open>A run whose tools are chosen first\<close>

text \<open>
  \<^verbatim>\<open>RunSelectedAgent\<close>: between the subscription and the choice nothing runs, and stopping reaches only the
  Bot that was built.
\<close>

datatype selected_phase = Not_started | Choosing | Running_inner | Stopped_inner

fun selected_run :: "selected_phase \<Rightarrow> selected_phase" where
  "selected_run Not_started = Choosing"
| "selected_run p = p"

fun selected_built :: "selected_phase \<Rightarrow> selected_phase" where
  "selected_built Choosing = Running_inner"
| "selected_built p = p"

fun selected_abort :: "selected_phase \<Rightarrow> selected_phase" where
  "selected_abort Running_inner = Stopped_inner"
| "selected_abort p = p"

section \<open>What a run says of itself\<close>

lemma holdings_id: "holdings_message agent vendors tools = Some h \<Longrightarrow> rm_id h = Some (''granted-tools:'' @ agent)"
  by (auto simp: holdings_message_def system_message_def Let_def split: if_splits)

lemma run_with_messages:
  "ri_messages (run_with convert sign_run vendors agent standing tools input) =
     system_message (sm_id standing) (sm_content standing)
     # (case holdings_message agent vendors tools of None \<Rightarrow> [] | Some h \<Rightarrow> [h])
     @ filter (\<lambda>m. rm_id m \<noteq> Some (sm_id standing) \<and> rm_id m \<noteq> Option.bind (holdings_message agent vendors tools) rm_id) (ri_messages input)"
  by (simp add: run_with_def Let_def)

text \<open>A run states the coworker's role once, first, however often a thread is replayed. Whatever messages are
  carried in, the first one out is the role and no other message has its id; and running what came out again
  changes no message.\<close>

theorem role_stated_once:
  "let s = standing_role_message agent name title job; out = run_with convert sign_run vendors agent s tools input in
   hd (ri_messages out) = system_message (sm_id s) (sm_content s)
   \<and> filter (\<lambda>m. rm_id m = Some (sm_id s)) (ri_messages out) = [hd (ri_messages out)]
   \<and> ri_messages (run_with convert sign_run vendors agent s tools out) = ri_messages out"
proof -
  let ?s = "standing_role_message agent name title job"
  have other: "Some (sm_id ?s) \<noteq> rm_id h" if "holdings_message agent vendors tools = Some h" for h
    using holdings_id [OF that] by (simp add: standing_role_message_def)
  show ?thesis
    unfolding Let_def run_with_messages
    by (cases "holdings_message agent vendors tools")
       (use other in \<open>auto simp: system_message_def filter_empty_conv conj_commute\<close>)
qed

lemma run_with_forwarded:
  "list_or_none (ri_forwarded (run_with convert sign_run vendors agent standing tools input)) =
     (let props = AList.update ''openbotDeploymentTools'' (JArr (map (\<lambda>t. JStr (ot_name t)) tools))
              (AList.update ''openbotBotId'' (JStr agent) (list_or_none (ri_forwarded input))) in
      case sign_run of Some s \<Rightarrow> AList.update ''openbotRun'' (JStr (s agent (ri_run input))) props | None \<Rightarrow> props)"
  by (simp add: run_with_def Let_def list_or_none_def)

text \<open>Who a run is for is said by the deployment. Whatever the surface forwards, the run that reaches an endpoint
  names the coworker it is for, the tools this deployment runs, and, where the deployment signs, its own signed
  statement of this very run.\<close>

theorem run_is_attributed:
  "let props = map_of (list_or_none (ri_forwarded (run_with convert (Some s) vendors agent standing tools input))) in
   props ''openbotBotId'' = Some (JStr agent)
   \<and> props ''openbotDeploymentTools'' = Some (JArr (map (\<lambda>t. JStr (ot_name t)) tools))
   \<and> props ''openbotRun'' = Some (JStr (s agent (ri_run input)))"
  unfolding run_with_forwarded Let_def by (simp add: update_conv)

text \<open>Without signing, what a client claims goes through. The comment says the agent is then given nothing to
  hand back; a statement in the properties the surface forwards is passed on as it came.\<close>

theorem unsigned_claim_is_forwarded:
  "map_of (list_or_none (ri_forwarded (run_with convert None vendors agent standing tools
      (input\<lparr>ri_forwarded := Some [(''openbotRun'', claim)]\<rparr>)))) ''openbotRun'' = Some claim"
  unfolding run_with_forwarded Let_def by (simp add: update_conv list_or_none_def)

text \<open>A coworker whose grants are all gone can still be told it has them. The copy of the message about its tools
  is dropped only where a new one is sent, so one that a thread carries in stays when there is nothing to say.\<close>

theorem old_holdings_stay:
  "ri_messages (run_with convert sign_run [] ''a'' (standing_role_message ''a'' name title job) []
     \<lparr>ri_run = ''r'', ri_messages = [system_message ''granted-tools:a'' ''You can reach google-drive.''], ri_tools = None, ri_forwarded = None\<rparr>)
   = [system_message ''standing-role:a'' (sm_content (standing_role_message ''a'' name title job)),
      system_message ''granted-tools:a'' ''You can reach google-drive.'']"
  by (simp add: run_with_messages holdings_message_def granted_tool_guidance_def system_message_def standing_role_message_def)

text \<open>Stopping does not reach a run whose tools are still being chosen. There is no Bot to stop yet, and the one
  that is built afterwards runs.\<close>

theorem stop_is_lost_while_choosing:
  "selected_built (selected_abort (selected_run Not_started)) = Running_inner"
  by simp

section \<open>What a run is offered\<close>

definition load_granted :: "plugin_env \<Rightarrow> plugin_world \<Rightarrow> string \<Rightarrow> offered_tool list" where
  "load_granted env w b = gp_tools (list_for_agent env b w)"

lemma load_granted_granted:
  "t \<in> set (load_granted env w b) \<Longrightarrow> granted Mcp_plugin (ot_ref t) b w \<and> ot_name t = tool_name_for (ot_ref t)"
  by (auto simp: load_granted_def list_for_agent_def granted_def Let_def list_ex_iff)

lemma offered_for_subset: "set (offered_for selection agent tools input) \<subseteq> set tools"
  by (auto simp: offered_for_def Let_def split: option.splits if_splits)


section \<open>What a person may run, and with what key\<close>

text \<open>A header comes from the coworker's own key, or is the deployment's token at the deployment's own endpoint.\<close>

definition own_header :: "runtime_env \<Rightarrow> credential_row list \<Rightarrow> agent_row \<Rightarrow> string \<Rightarrow> string \<times> string \<Rightarrow> bool" where
  "own_header env rows a endpoint h \<longleftrightarrow>
     re_managed env = Some (endpoint, snd h) \<and> fst h = managed_header
     \<or> (\<exists>decrypt. re_decrypt env = Some decrypt
          \<and> agent_auth_headers decrypt rows (auth_from_configuration (ag_configuration a)) = Inr (Some h))"

definition may_run :: "agent_actor \<Rightarrow> profile_row \<Rightarrow> bool" where
  "may_run actor p \<longleftrightarrow> pf_deleted p = None
     \<and> (pf_visibility p = Public \<or> pf_owner p = Some (aa_id actor) \<or> aa_role actor = Admin_role)"

definition registered_well ::
  "runtime_env \<Rightarrow> channel_tables \<Rightarrow> agent_actor \<Rightarrow> agent_world \<Rightarrow> registered_agent \<Rightarrow> bool" where
  "registered_well env channels actor w g \<longleftrightarrow>
     list_ex (\<lambda>(a, p). ag_id a = rg_id g \<and>
       (case rg_kind g of
          Runs_nowhere reason \<Rightarrow> pf_deleted p \<noteq> None
            \<and> list_ex (\<lambda>(i, c). i = ag_id a \<and> (c, aa_id actor) \<in> set (ch_members channels)) (ch_agents channels)
        | Runs_built_in prompt \<Rightarrow> may_run actor p
        | Runs_remote endpoint role_message harness headers \<Rightarrow>
            may_run actor p \<and> list_all (own_header env (aw_vault w) a endpoint) headers)) (joined_profiles (aw_tables w))"

lemma in_readable: "(a, p) \<in> set (readable actor t) \<Longrightarrow> (a, p) \<in> set (joined_profiles t) \<and> may_run actor p"
  by (auto simp: readable_def access_filter_def may_run_def split: if_splits)

lemma own_key_headers:
  assumes "list_all (own_header env rows a e) own" "re_managed env = Some (e, token)"
  shows "list_all (own_header env rows a e) (AList.update managed_header token own)"
proof -
  have "x \<in> set (AList.update k v xs) \<Longrightarrow> x = (k, v) \<or> x \<in> set xs" for x :: "string \<times> string" and k v xs
    by (induction xs) (auto split: if_splits)
  then show ?thesis using assms unfolding list_all_iff own_header_def by fastforce
qed

lemma registered_row:
  "registered_from_row parse_url (a, p) = Some g \<Longrightarrow>
     rg_id g = ag_id a \<and> (case rg_kind g of Runs_nowhere r \<Rightarrow> False | Runs_built_in t \<Rightarrow> True | Runs_remote e m h hs \<Rightarrow> hs = [])"
  by (auto simp: registered_from_row_def Let_def split: if_splits option.splits list.splits)

lemma with_headers_well:
  assumes row: "(a, p) \<in> set (readable actor (aw_tables w))" and registered: "registered_from_row parse_url (a, p) = Some g"
    and headers: "with_headers env (aw_vault w) (ag_configuration a) g = Inr g'"
  shows "registered_well env channels actor w g' \<and> rg_id g' = rg_id g"
proof -
  note there = in_readable [OF row] and g = registered_row [OF registered]
  show ?thesis
  proof (cases "rg_kind g")
    case (Runs_built_in prompt)
    then have "g' = g" using headers by (simp add: with_headers_def)
    then show ?thesis using Runs_built_in there g by (auto simp: registered_well_def list_ex_iff simp del: in_joined)
  next
    case (Runs_nowhere reason)
    then show ?thesis using g by simp
  next
    case (Runs_remote e m harness hs)
    let ?found = "case re_decrypt env of None \<Rightarrow> Inr None
        | Some decrypt \<Rightarrow> agent_auth_headers decrypt (aw_vault w) (auth_from_configuration (ag_configuration a))"
    obtain key where key: "?found = Inr key" and g': "rg_id g' = rg_id g"
      "rg_kind g' = Runs_remote e m harness
         (let own = (case key of None \<Rightarrow> hs | Some h \<Rightarrow> [h]) in
          case re_managed env of Some (u, token) \<Rightarrow> if e = u then AList.update managed_header token own else own | None \<Rightarrow> own)"
      using headers Runs_remote by (auto simp: with_headers_def Let_def split: sum.splits)
    have managed: "list_all (own_header env (aw_vault w) a e) own \<Longrightarrow> list_all (own_header env (aw_vault w) a e)
        (case re_managed env of Some (u, token) \<Rightarrow> if e = u then AList.update managed_header token own else own | None \<Rightarrow> own)" for own
      using own_key_headers by (auto split: option.split)
    have own: "list_all (own_header env (aw_vault w) a e) (case key of None \<Rightarrow> hs | Some h \<Rightarrow> [h])"
      using key g Runs_remote by (auto simp: own_header_def split: option.splits)
    have "list_all (own_header env (aw_vault w) a e)
        (let own = (case key of None \<Rightarrow> hs | Some h \<Rightarrow> [h]) in
          case re_managed env of Some (u, token) \<Rightarrow> if e = u then AList.update managed_header token own else own | None \<Rightarrow> own)"
      unfolding Let_def by (rule managed [OF own])
    then show ?thesis using there g g' by (auto simp: registered_well_def list_ex_iff simp del: in_joined)
  qed
qed

lemma set_update: "x \<in> set (AList.update k v xs) \<Longrightarrow> x = (k, v) \<or> x \<in> set xs"
  by (induction xs) (auto split: if_splits)

lemma register_active_well:
  assumes "register_active env (aw_vault w) rs m = Inr m'" "set rs \<subseteq> set (readable actor (aw_tables w))"
    "list_all (\<lambda>(i, g). registered_well env channels actor w g) m"
  shows "list_all (\<lambda>(i, g). registered_well env channels actor w g) m'"
  using assms
proof (induction rs arbitrary: m)
  case (Cons r rs)
  obtain a p where r: "r = (a, p)" by (cases r)
  show ?case
  proof (cases "registered_from_row (re_url env) r")
    case None
    then show ?thesis using Cons by simp
  next
    case (Some g)
    then obtain g' where g': "with_headers env (aw_vault w) (ag_configuration a) g = Inr g'"
      and rest: "register_active env (aw_vault w) rs (AList.update (rg_id g') g' m) = Inr m'"
      using Cons.prems(1) r by (auto split: sum.splits)
    have "registered_well env channels actor w g'"
      using with_headers_well [OF _ _ g'] Some Cons.prems(2) r by auto
    then have "list_all (\<lambda>(i, g). registered_well env channels actor w g) (AList.update (rg_id g') g' m)"
      using Cons.prems(3) set_update unfolding list_all_iff by (metis (no_types, lifting) case_prodI old.prod.case prod.collapse)
    then show ?thesis using Cons.IH [OF rest] Cons.prems(2) by simp
  qed
qed simp

lemma tombstone_well:
  assumes "(i, name) \<in> set (tombstones channels actor (aw_tables w))"
  shows "registered_well env channels actor w \<lparr>rg_id = i, rg_name = name, rg_kind = Runs_nowhere (deleted_reason name)\<rparr>"
proof -
  obtain a p where "(a, p) \<in> set (joined_profiles (aw_tables w))" "i = ag_id a" "pf_deleted p \<noteq> None"
    "list_ex (\<lambda>(i, c). i = ag_id a \<and> (c, aa_id actor) \<in> set (ch_members channels)) (ch_agents channels)"
    using assms by (auto simp: tombstones_def simp del: in_joined)
  then show ?thesis by (auto simp: registered_well_def list_ex_iff simp del: in_joined)
qed

text \<open>A person runs only what is theirs to run, each coworker with its own key. Every coworker that is registered is
  one the person may see, and not deleted, or one that was deleted from a channel the person is in and is
  refused; and a header it is called with is made from its own configuration's key, or is the deployment's
  token at the deployment's endpoint.\<close>

theorem runtime_keeps_keys_apart:
  "case load_runtime_agents env channels actor w of
     Inl e \<Rightarrow> True | Inr agents \<Rightarrow> list_all (registered_well env channels actor w) agents"
proof -
  let ?well = "\<lambda>(i, g). registered_well env channels actor w g"
  have tombs: "list_all ?well (fold (\<lambda>(i, name) m. if map_of m i \<noteq> None then m
      else m @ [(i, \<lparr>rg_id = i, rg_name = name, rg_kind = Runs_nowhere (deleted_reason name)\<rparr>)]) ts m)"
    if "list_all ?well m" "set ts \<subseteq> set (tombstones channels actor (aw_tables w))" for ts m
    using that
  proof (induction ts arbitrary: m)
    case (Cons t ts)
    obtain i name where t: "t = (i, name)" by (cases t)
    have "registered_well env channels actor w \<lparr>rg_id = i, rg_name = name, rg_kind = Runs_nowhere (deleted_reason name)\<rparr>"
      using tombstone_well Cons.prems(2) t by simp
    then show ?case using Cons t by simp
  qed simp
  show ?thesis
    using tombs [OF register_active_well [of env w "readable actor (aw_tables w)" "[]" _ actor channels], OF _ subset_refl _ subset_refl]
    by (auto simp: load_runtime_agents_def list_all_iff split: sum.split)
qed

definition shared_agent :: "string \<Rightarrow> string \<Rightarrow> agent_row" where
  "shared_agent i key = \<lparr>ag_id = i, ag_name = i, ag_type = Remote_agent,
     ag_configuration = [(''harness'', JStr ''claude-code''), (''auth'', JObj [(''header'', JStr ''Authorization''), (''credentialId'', JStr key)])],
     ag_package = None\<rparr>"

definition shared_profile :: "string \<Rightarrow> profile_row" where
  "shared_profile i = \<lparr>pf_agent = i, pf_owner = None, pf_title = ''T'', pf_role = ''R'', pf_seed = i, pf_visibility = Public,
     pf_token = None, pf_deleted = None\<rparr>"

definition shared_key :: "string \<Rightarrow> credential_row" where
  "shared_key i = \<lparr>cr_id = i, cr_kind = ''agent'', cr_provider = ''ag-ui'', cr_key = i, cr_metadata = JNull, cr_value = i,
     cr_created = 0, cr_revoked = None\<rparr>"

definition one_bad_key :: agent_world where
  "one_bad_key = \<lparr>aw_tables = \<lparr>at_agents = [shared_agent ''a'' ''good'', shared_agent ''b'' ''bad''],
       at_profiles = [shared_profile ''a'', shared_profile ''b''], at_preferences = []\<rparr>,
     aw_vault = [shared_key ''good'', shared_key ''bad'']\<rparr>"

text \<open>One key that cannot be read stops every coworker. A key that is missing or revoked is passed over, and one
  that does not decrypt, as after a change of the encryption key, is an error of the whole loading: nobody who
  may see that coworker can run any other.\<close>

theorem unreadable_key_stops_everyone:
  "load_runtime_agents \<lparr>re_url = (\<lambda>u. None), re_decrypt = Some (\<lambda>v. if v = ''bad'' then Inl ''OperationError'' else Inr v), re_managed = None\<rparr>
     \<lparr>ch_agents = [], ch_members = []\<rparr> \<lparr>aa_id = ''u'', aa_role = User_role\<rparr> one_bad_key = Inl ''OperationError''"
  by (simp add: load_runtime_agents_def one_bad_key_def readable_def joined_profiles_def shared_agent_def shared_profile_def
      shared_key_def access_filter_def registered_from_row_def text_field_def js_trim_def js_space_def char_code_def with_headers_def
      agent_auth_headers_def auth_from_configuration_def js_string_field_def js_field_def read_secret_def row_with_def Let_def)

end
