(* ===== verification/People.thy ===== *)
theory People
  imports Roles Codec "HOL-Library.Product_Lexorder"
begin

text \<open>
  The people of a deployment (\<^verbatim>\<open>server/src/people/store.ts\<close>): who is listed, found by a search, made an
  administrator, removed and let back.

  The tables are lists of rows, the collation of the database is an argument, and times are in milliseconds.
  What removing somebody retires besides, the accounts they connected, is an argument too.
\<close>

section \<open>Tables\<close>

record user_row =
  us_id :: string
  us_email :: string
  us_name :: "string option"
  us_image :: "string option"

record people_tables =
  pt_users :: "user_row list"
  pt_roles :: role_rows
  pt_accounts :: "(string \<times> string) list"
  pt_sessions :: "(string \<times> int) list"
  pt_revoked :: "(string \<times> string) list"

record person =
  pn_id :: string
  pn_email :: string
  pn_name :: "string option"
  pn_image :: "string option"
  pn_role :: role
  pn_providers :: "string list"
  pn_signed_in :: "int option"
  pn_revoked :: bool
  pn_configured :: bool

definition normalize_email :: "string \<Rightarrow> string" where
  "normalize_email e = js_lower (js_trim e)"

section \<open>Searching\<close>

definition escape_like :: "string \<Rightarrow> string" where
  "escape_like v = concat (map (\<lambda>c. if c \<in> {CHR 0x5C, CHR ''%'', CHR ''_''} then [CHR 0x5C, c] else [c]) v)"

text \<open>\<^verbatim>\<open>LIKE\<close> with the escape character set to a backslash.\<close>

fun like :: "string \<Rightarrow> string \<Rightarrow> bool" where
  "like [] t = (t = [])"
| "like (c # p) t =
     (if c = CHR ''%'' then like p t \<or> (case t of [] \<Rightarrow> False | d # ds \<Rightarrow> like (c # p) ds)
      else case t of
          [] \<Rightarrow> False
        | d # ds \<Rightarrow>
            if c = CHR ''_'' then like p ds
            else if c = CHR 0x5C then (case p of [] \<Rightarrow> False | e # q \<Rightarrow> e = d \<and> like q ds)
            else c = d \<and> like p ds)"

definition ilike :: "string \<Rightarrow> string \<Rightarrow> bool" where
  "ilike pattern t = like (js_lower pattern) (js_lower t)"

definition search_matches :: "string \<Rightarrow> user_row \<Rightarrow> bool" where
  "search_matches search u =
     (let pattern = ''%'' @ escape_like search @ ''%'' in
      ilike pattern (us_email u) \<or> ilike pattern (case us_name u of None \<Rightarrow> [] | Some n \<Rightarrow> n))"

section \<open>A page\<close>

definition default_page :: int where
  "default_page = 50"

definition max_page :: int where
  "max_page = 200"

record people_query =
  pq_search :: "string option"
  pq_cursor :: "(int option \<times> string) option"
  pq_limit :: "int option"
  pq_id :: "string option"

definition last_signed_in :: "people_tables \<Rightarrow> string \<Rightarrow> int option" where
  "last_signed_in t u = (case map snd (filter (\<lambda>(v, at). v = u) (pt_sessions t)) of [] \<Rightarrow> None | x # xs \<Rightarrow> Some (foldr max xs x))"

text \<open>The order of a page: newest sign-in first, those without one last, and then the address.\<close>

definition order_key :: "(string \<Rightarrow> nat) \<Rightarrow> int option \<times> string \<Rightarrow> (nat \<times> int) \<times> nat" where
  "order_key collate = (\<lambda>(at, email). ((case at of None \<Rightarrow> (1, 0) | Some t \<Rightarrow> (0, - t)), collate email))"

definition position_of :: "people_tables \<Rightarrow> user_row \<Rightarrow> int option \<times> string" where
  "position_of t u = (last_signed_in t (us_id u), us_email u)"

text \<open>The condition of the cursor as the query states it.\<close>

definition after_cursor :: "(string \<Rightarrow> nat) \<Rightarrow> int option \<times> string \<Rightarrow> int option \<times> string \<Rightarrow> bool" where
  "after_cursor collate cursor row \<longleftrightarrow>
     (fst row = None \<and> (fst cursor \<noteq> None \<or> collate (snd row) > collate (snd cursor)))
     \<or> (fst row \<noteq> None \<and> fst cursor \<noteq> None \<and>
          (the (fst row) < the (fst cursor)
           \<or> (the (fst row) = the (fst cursor) \<and> collate (snd row) > collate (snd cursor))))"

definition person_of :: "string list \<Rightarrow> people_tables \<Rightarrow> user_row \<Rightarrow> person" where
  "person_of admins t u =
     \<lparr>pn_id = us_id u, pn_email = us_email u, pn_name = us_name u, pn_image = us_image u,
      pn_role = (if (us_id u, Admin_role) \<in> set (pt_roles t) then Admin_role else User_role),
      pn_providers = remdups (map snd (filter (\<lambda>(v, p). v = us_id u) (pt_accounts t))),
      pn_signed_in = last_signed_in t (us_id u),
      pn_revoked = list_ex (\<lambda>(e, by). e = js_lower (us_email u)) (pt_revoked t),
      pn_configured = is_configured_admin (us_email u) admins\<rparr>"

definition matching :: "people_query \<Rightarrow> user_row \<Rightarrow> bool" where
  "matching query u \<longleftrightarrow>
     (if truthy (pq_id query) then us_id u = the (pq_id query) else True)
     \<and> (case map_option js_trim (pq_search query) of None \<Rightarrow> True | Some s \<Rightarrow> if s = [] then True else search_matches s u)"

definition page_limit :: "people_query \<Rightarrow> nat" where
  "page_limit query = nat (min (max (case pq_limit query of None \<Rightarrow> default_page | Some n \<Rightarrow> n) 1) max_page)"

definition list_people ::
  "(string \<Rightarrow> nat) \<Rightarrow> string list \<Rightarrow> people_query \<Rightarrow> people_tables \<Rightarrow> person list \<times> (int option \<times> string) option" where
  "list_people collate admins query t =
     (let found = filter (matching query) (pt_users t);
          after = filter (\<lambda>u. case pq_cursor query of None \<Rightarrow> True | Some c \<Rightarrow> after_cursor collate c (position_of t u)) found;
          rows = take (page_limit query + 1) (sort_key (\<lambda>u. order_key collate (position_of t u)) after);
          page = take (page_limit query) rows in
      (map (person_of admins t) page,
       if length rows > page_limit query \<and> page \<noteq> [] then Some (position_of t (last page)) else None))"

definition find_person :: "(string \<Rightarrow> nat) \<Rightarrow> string list \<Rightarrow> string \<Rightarrow> people_tables \<Rightarrow> person option" where
  "find_person collate admins u t =
     (case fst (list_people collate admins \<lparr>pq_search = None, pq_cursor = None, pq_limit = Some 1, pq_id = Some u\<rparr> t) of
        [] \<Rightarrow> None | p # ps \<Rightarrow> Some p)"

section \<open>The cursor as a client holds it\<close>

text \<open>\<open>show_time\<close> is the text of a moment. What is malformed is no cursor.\<close>

definition encode_cursor :: "(int \<Rightarrow> string) \<Rightarrow> int option \<times> string \<Rightarrow> string" where
  "encode_cursor show_time = (\<lambda>(at, email).
     b64url (utf8 (js_stringify (JObj [(''lastSignedInAt'', case at of None \<Rightarrow> JNull | Some t \<Rightarrow> JStr (show_time t)), (''email'', JStr email)]))))"

definition decode_cursor :: "(nat list \<Rightarrow> string + jsv) \<Rightarrow> string option \<Rightarrow> (string option \<times> string) option" where
  "decode_cursor parse v =
     (if \<not> truthy v then None
      else case parse (b64url_decode (the v)) of
          Inl e \<Rightarrow> None
        | Inr parsed \<Rightarrow>
            (case js_string_field parsed ''email'' of
               None \<Rightarrow> None | Some email \<Rightarrow> Some (js_string_field parsed ''lastSignedInAt'', email)))"

section \<open>Removing and letting back\<close>

definition user_email :: "string \<Rightarrow> people_tables \<Rightarrow> string option" where
  "user_email u t = map_option us_email (find (\<lambda>r. us_id r = u) (pt_users t))"

definition set_person_role :: "string \<Rightarrow> role \<Rightarrow> people_tables \<Rightarrow> people_tables" where
  "set_person_role u r t = t\<lparr>pt_roles := set_role u r (pt_roles t)\<rparr>"

text \<open>\<open>retire\<close> acts on the rest of the world after the transaction; \<open>None\<close> where nothing else is owned.\<close>

definition revoke_person ::
  "(string \<Rightarrow> string \<Rightarrow> 'w \<Rightarrow> (string + nat) \<times> 'w) option \<Rightarrow> string \<Rightarrow> string \<Rightarrow> people_tables \<times> 'w
     \<Rightarrow> (string + unit) \<times> people_tables \<times> 'w" where
  "revoke_person retire u by = (\<lambda>(t, w).
     case user_email u t of
       None \<Rightarrow> (Inr (), t, w)
     | Some email \<Rightarrow>
         let e = normalize_email email;
             t' = t\<lparr>pt_revoked := (if list_ex (\<lambda>(f, b). f = e) (pt_revoked t) then pt_revoked t else pt_revoked t @ [(e, by)]),
                    pt_sessions := filter (\<lambda>(v, at). v \<noteq> u) (pt_sessions t)\<rparr> in
         (case retire of
            None \<Rightarrow> (Inr (), t', w)
          | Some f \<Rightarrow> (case f u by w of (Inl m, w') \<Rightarrow> (Inl m, t', w') | (Inr n, w') \<Rightarrow> (Inr (), t', w'))))"

definition restore_person :: "string \<Rightarrow> people_tables \<Rightarrow> people_tables" where
  "restore_person u t =
     (case user_email u t of None \<Rightarrow> t
      | Some email \<Rightarrow> t\<lparr>pt_revoked := filter (\<lambda>(e, by). e \<noteq> normalize_email email) (pt_revoked t)\<rparr>)"

definition is_revoked_email :: "string \<Rightarrow> people_tables \<Rightarrow> bool" where
  "is_revoked_email email t = list_ex (\<lambda>(e, by). e = normalize_email email) (pt_revoked t)"

section \<open>A search finds what was typed\<close>

lemma like_percent: "like (CHR ''%'' # p) t \<longleftrightarrow> (\<exists>s. suffix s t \<and> like p s)"
proof (induction t)
  case (Cons d ds)
  have "like (CHR ''%'' # p) (d # ds) \<longleftrightarrow> like p (d # ds) \<or> like (CHR ''%'' # p) ds"
    by (subst like.simps) simp
  also have "\<dots> \<longleftrightarrow> (\<exists>s. suffix s (d # ds) \<and> like p s)"
    using Cons.IH by (auto simp: suffix_Cons)
  finally show ?case .
qed (simp add: like.simps)

lemma like_anything: "like [CHR ''%''] t"
  unfolding like_percent by (intro exI [of _ "[]"]) simp

lemma escape_like_Cons: "escape_like (c # s) = (if c \<in> {CHR 0x5C, CHR ''%'', CHR ''_''} then [CHR 0x5C, c] else [c]) @ escape_like s"
  by (simp add: escape_like_def)

lemma like_escaped: "like (escape_like s @ [CHR ''%'']) t \<longleftrightarrow> prefix s t"
proof (induction s arbitrary: t)
  case Nil
  show ?case using like_anything [of t] by (simp add: escape_like_def del: like.simps)
next
  case (Cons c s)
  show ?case
    by (cases t; cases "c \<in> {CHR 0x5C, CHR ''%'', CHR ''_''}")
       (simp_all add: escape_like_Cons Cons.IH like.simps del: insert_iff, auto)
qed

lemma like_infix: "like (CHR ''%'' # escape_like s @ [CHR ''%'']) t \<longleftrightarrow> str_includes t s"
  unfolding like_percent like_escaped str_includes_iff by (auto simp: suffix_def prefix_def)

lemma lower_escape: "js_lower (escape_like s) = escape_like (js_lower s)"
proof (induction s)
  case (Cons c s)
  have special: "lower_char c \<in> {CHR 0x5C, CHR ''%'', CHR ''_''} \<longleftrightarrow> c \<in> {CHR 0x5C, CHR ''%'', CHR ''_''}"
  proof (cases "upper_code (char_code c)")
    case True
    then have up: "(97 \<le> char_code (lower_char c) \<and> char_code (lower_char c) \<le> 122) \<or> 224 \<le> char_code (lower_char c)"
      and not: "char_code c \<notin> {92, 37, 95}"
      by (auto simp: lower_char_def upper_code_def)
    have codes: "d \<in> {CHR 0x5C, CHR ''%'', CHR ''_''} \<longleftrightarrow> char_code d \<in> {92, 37, 95}" for d
      using char_code_inj [of d "CHR 0x5C"] char_code_inj [of d "CHR ''%''"] char_code_inj [of d "CHR ''_''"]
      by (auto simp: char_code_def)
    have "char_code (lower_char c) \<notin> {92, 37, 95}" using up by auto
    then show ?thesis using not unfolding codes by blast
  next
    case False
    then show ?thesis by (simp add: lower_char_def)
  qed
  have "lower_char (CHR 0x5C) = CHR 0x5C" by (simp add: lower_char_def upper_code_def char_code_def)
  then show ?case
    using Cons special unfolding escape_like_Cons
    by (cases "c \<in> {CHR 0x5C, CHR ''%'', CHR ''_''}") (simp_all add: js_lower_def escape_like_Cons lower_char_def [symmetric] del: insert_iff)
qed (simp add: js_lower_def escape_like_def)

text \<open>A search finds the people whose address or name contains what was typed, whatever was typed. The signs that
  mean something in a pattern are escaped, so a search for a percent sign finds it and not everybody.\<close>

theorem search_is_substring:
  "search_matches s u \<longleftrightarrow>
     str_includes (js_lower (us_email u)) (js_lower s)
     \<or> str_includes (js_lower (case us_name u of None \<Rightarrow> [] | Some n \<Rightarrow> n)) (js_lower s)"
proof -
  have percent: "js_lower (''%'' @ x @ ''%'') = CHR ''%'' # js_lower x @ [CHR ''%'']" for x
    by (simp add: js_lower_def lower_char_def upper_code_def char_code_def)
  show ?thesis
    unfolding search_matches_def ilike_def Let_def percent lower_escape like_infix by simp
qed

section \<open>Following the cursor\<close>

lemma after_is_order: "after_cursor collate c r \<longleftrightarrow> order_key collate c < order_key collate r"
  by (cases c; cases r) (auto simp: after_cursor_def order_key_def less_prod_def split: option.splits)

text \<open>All that match a query, in the order of the pages.\<close>

definition everyone :: "(string \<Rightarrow> nat) \<Rightarrow> people_query \<Rightarrow> people_tables \<Rightarrow> user_row list" where
  "everyone collate query t = sort_key (\<lambda>u. order_key collate (position_of t u)) (filter (matching query) (pt_users t))"

lemma page_of_everyone:
  "list_people collate admins query t =
     (let rows = filter (\<lambda>u. case pq_cursor query of None \<Rightarrow> True | Some c \<Rightarrow> after_cursor collate c (position_of t u)) (everyone collate query t);
          page = take (page_limit query) rows in
      (map (person_of admins t) page,
       if length rows > page_limit query \<and> page \<noteq> [] then Some (position_of t (last page)) else None))"
  unfolding list_people_def everyone_def Let_def filter_sort by (simp add: min_def)

lemma everyone_cursor: "everyone collate (query\<lparr>pq_cursor := c\<rparr>) t = everyone collate query t"
proof -
  have "matching (query\<lparr>pq_cursor := c\<rparr>) = matching query" by (rule ext) (simp add: matching_def)
  then show ?thesis by (simp add: everyone_def)
qed

text \<open>The pages are the list. When no two addresses are the same to the database, the page after the one that ended
  at a person starts with the next, so following the cursors goes through everybody who matches, in order,
  each once; a page never holds more than two hundred, and it says there is another exactly when there is.\<close>

theorem next_page_continues:
  "let all = everyone collate query t; n = page_limit query in
   if distinct (map (\<lambda>u. collate (us_email u)) (pt_users t)) then
     list_people collate admins (query\<lparr>pq_cursor := None\<rparr>) t =
       (map (person_of admins t) (take n all), if n < length all then Some (position_of t (all ! (n - 1))) else None)
     \<and> (if k < length all then
          list_people collate admins (query\<lparr>pq_cursor := Some (position_of t (all ! k))\<rparr>) t =
            (map (person_of admins t) (take n (drop (Suc k) all)),
             if Suc k + n < length all then Some (position_of t (all ! (k + n))) else None)
        else True)
     \<and> 0 < n \<and> n \<le> 200
   else True"
proof -
  let ?all = "everyone collate query t" and ?n = "page_limit query" and ?f = "\<lambda>u. order_key collate (position_of t u)"
  have n: "0 < ?n" "?n \<le> 200"
    by (auto simp: page_limit_def max_page_def default_page_def min_def max_def)
  have limit: "page_limit (query\<lparr>pq_cursor := c\<rparr>) = ?n" for c by (simp add: page_limit_def)
  have first: "list_people collate admins (query\<lparr>pq_cursor := None\<rparr>) t =
      (map (person_of admins t) (take ?n ?all), if ?n < length ?all then Some (position_of t (?all ! (?n - 1))) else None)"
    unfolding page_of_everyone everyone_cursor limit Let_def using n by (auto simp: last_conv_nth)
  have rest: "list_people collate admins (query\<lparr>pq_cursor := Some (position_of t (?all ! k))\<rparr>) t =
      (map (person_of admins t) (take ?n (drop (Suc k) ?all)),
       if Suc k + ?n < length ?all then Some (position_of t (?all ! (k + ?n))) else None)"
    if dist: "distinct (map (\<lambda>u. collate (us_email u)) (pt_users t))" and k: "k < length ?all"
  proof -
    have "distinct (map (\<lambda>u. collate (us_email u)) (filter (matching query) (pt_users t)))"
      using dist by (simp add: distinct_map_filter)
    then have "distinct (map ?f (filter (matching query) (pt_users t)))"
      unfolding distinct_map inj_on_def position_of_def order_key_def by auto
    then have "distinct (map ?f ?all)"
      unfolding everyone_def by (simp add: distinct_map)
    moreover have "sorted (map ?f ?all)" by (simp add: everyone_def)
    ultimately have after: "filter (\<lambda>u. after_cursor collate (position_of t (?all ! k)) (position_of t u)) ?all = drop (Suc k) ?all"
      unfolding after_is_order using sorted_after k by blast
    show ?thesis
      unfolding page_of_everyone everyone_cursor limit Let_def
      using n by (auto simp: after last_conv_nth nth_append less_diff_conv add.commute)
  qed
  show ?thesis unfolding Let_def using first rest n by simp
qed

section \<open>Somebody who was removed\<close>

text \<open>Removing somebody sticks. Whether or not retiring what they own besides works, they are on the deny list, under
  any spelling of their address, and have no session; nobody else's session, role or place on the list changes;
  and letting them back takes them off it and no one else.\<close>

theorem removal_sticks:
  "case user_email u t of
     None \<Rightarrow> revoke_person retire u by (t, w) = (Inr (), t, w) \<and> restore_person u t = t
   | Some email \<Rightarrow>
       (case revoke_person retire u by (t, w) of (r, t', w') \<Rightarrow>
          (if normalize_email spelling = normalize_email email then is_revoked_email spelling t' \<and> \<not> is_revoked_email spelling (restore_person u t')
           else is_revoked_email spelling t' = is_revoked_email spelling t
             \<and> is_revoked_email spelling (restore_person u t') = is_revoked_email spelling t)
          \<and> last_signed_in t' u = None
          \<and> (if v \<noteq> u then last_signed_in t' v = last_signed_in t v else True)
          \<and> pt_roles t' = pt_roles t \<and> pt_users t' = pt_users t
          \<and> (case retire of None \<Rightarrow> w' = w | Some f \<Rightarrow> w' = snd (f u by w)))"
proof (cases "user_email u t")
  case None
  then show ?thesis by (simp add: revoke_person_def restore_person_def)
next
  case (Some email)
  let ?e = "normalize_email email"
  let ?t = "t\<lparr>pt_revoked := (if list_ex (\<lambda>(f, b). f = ?e) (pt_revoked t) then pt_revoked t else pt_revoked t @ [(?e, by)]),
                    pt_sessions := filter (\<lambda>(v, at). v \<noteq> u) (pt_sessions t)\<rparr>"
  have ran: "fst (snd (revoke_person retire u by (t, w))) = ?t"
    "snd (snd (revoke_person retire u by (t, w))) = (case retire of None \<Rightarrow> w | Some f \<Rightarrow> snd (f u by w))"
    by (auto simp: revoke_person_def Some Let_def split: option.split sum.split prod.split)
  have email: "user_email u ?t = Some email" using Some by (simp add: user_email_def)
  have gone: "last_signed_in ?t u = None" by (simp add: last_signed_in_def filter_empty_conv case_prod_beta)
  have kept: "last_signed_in ?t v = last_signed_in t v" if "v \<noteq> u"
  proof -
    have "filter (\<lambda>(x, at). x = v) (filter (\<lambda>(x, at). x \<noteq> u) (pt_sessions t)) = filter (\<lambda>(x, at). x = v) (pt_sessions t)"
      using that by (auto simp: filter_filter intro: filter_cong)
    then show ?thesis by (simp add: last_signed_in_def)
  qed
  have denied: "is_revoked_email spelling ?t \<longleftrightarrow> normalize_email spelling = ?e \<or> is_revoked_email spelling t"
    by (auto simp: is_revoked_email_def list_ex_iff)
  have again: "is_revoked_email spelling (restore_person u ?t) \<longleftrightarrow> normalize_email spelling \<noteq> ?e \<and> is_revoked_email spelling t"
    unfolding restore_person_def email by (auto simp: is_revoked_email_def list_ex_iff)
  show ?thesis
    unfolding Some option.case
    using ran gone kept denied again
    by (cases "revoke_person retire u by (t, w)") (auto split: option.split)
qed

end
