(* ===== verification/Policy_Store.thy ===== *)
theory Policy_Store
  imports Policy
begin

text \<open>
  The policy a deployment enforces and how it is changed while it runs (\<^verbatim>\<open>server/src/computer/policy-store.ts\<close>,
  \<^verbatim>\<open>policy-listener.ts\<close>): one saved row, a copy in the memory of every server, and the announcement on which
  the others read the row again.

  Whether a statement or a commit succeeds is an argument, as is the clock. Of Postgres the documented
  behaviour is used that a transaction in which a statement failed is not committed, and that an
  announcement made in a transaction is delivered on its commit to those that listen at that time.
\<close>

section \<open>The saved row and one server's store\<close>

definition default_action_policy :: action_policy where
  "default_action_policy = \<lparr>pol_mode = Enforce, pol_deny = [], pol_allow = [''true'']\<rparr>"

record policy_row =
  pr_policy :: action_policy
  pr_updated_by :: "string option"
  pr_updated_at :: int

text \<open>What the memory holds and what configuration said. A copy of a list is that list.\<close>

record policy_memory =
  pm_current :: action_policy
  pm_configured :: action_policy

definition create_policy_store :: "action_policy \<Rightarrow> policy_memory" where
  "create_policy_store initial = \<lparr>pm_current = initial, pm_configured = initial\<rparr>"

text \<open>The database, if there is one: the row of the policy, if there is one. A transaction ends well when its
  statements and its commit do.\<close>

type_synonym policy_table = "policy_row option option"

record policy_outcome =
  po_written :: bool
  po_announced :: bool
  po_committed :: bool

definition transaction_commits :: "policy_outcome \<Rightarrow> bool" where
  "transaction_commits out \<longleftrightarrow> po_written out \<and> po_announced out \<and> po_committed out"

text \<open>The error is logged and not thrown on, and the transaction it happened in is lost.\<close>

definition announce_log :: "policy_outcome \<Rightarrow> string list" where
  "announce_log out = (if po_written out \<and> \<not> po_announced out then [''action-policy-notify-failed''] else [])"

definition set_policy ::
  "policy_outcome \<Rightarrow> action_policy \<Rightarrow> string option \<Rightarrow> int \<Rightarrow> policy_table \<times> policy_memory
     \<Rightarrow> (string + unit) \<times> policy_table \<times> policy_memory" where
  "set_policy out p by now s =
     (case s of (db, m) \<Rightarrow>
        (case db of
           None \<Rightarrow> (Inr (), db, m\<lparr>pm_current := p\<rparr>)
         | Some row \<Rightarrow>
             if transaction_commits out
             then (Inr (), Some (Some \<lparr>pr_policy = p, pr_updated_by = by, pr_updated_at = now\<rparr>), m\<lparr>pm_current := p\<rparr>)
             else (Inl ''the transaction failed'', db, m)))"

definition reset_policy ::
  "policy_outcome \<Rightarrow> policy_table \<times> policy_memory \<Rightarrow> (string + unit) \<times> policy_table \<times> policy_memory" where
  "reset_policy out s =
     (case s of (db, m) \<Rightarrow>
        (case db of
           None \<Rightarrow> (Inr (), db, m\<lparr>pm_current := pm_configured m\<rparr>)
         | Some row \<Rightarrow>
             if transaction_commits out then (Inr (), Some None, m\<lparr>pm_current := pm_configured m\<rparr>)
             else (Inl ''the transaction failed'', db, m)))"

datatype policy_origin = The_database | Configuration

definition load_policy :: "policy_table \<Rightarrow> policy_memory \<Rightarrow> policy_origin \<times> policy_memory" where
  "load_policy db m =
     (case db of
        Some (Some row) \<Rightarrow> (The_database, m\<lparr>pm_current := pr_policy row\<rparr>)
      | _ \<Rightarrow> (Configuration, m))"

text \<open>What a server enforces that has read the row: the policy in it, or what configuration says.\<close>

definition enforced_by :: "action_policy \<Rightarrow> policy_row option \<Rightarrow> action_policy" where
  "enforced_by configured row = (case row of Some r \<Rightarrow> pr_policy r | None \<Rightarrow> configured)"

definition refresh_policy :: "policy_table \<Rightarrow> policy_memory \<Rightarrow> policy_memory" where
  "refresh_policy db m =
     (case db of None \<Rightarrow> m | Some row \<Rightarrow> m\<lparr>pm_current := enforced_by (pm_configured m) row\<rparr>)"

section \<open>A policy that arrives over HTTP\<close>

definition parse_mode :: "jsv option \<Rightarrow> policy_mode option" where
  "parse_mode v =
     (if v = Some (JStr ''enforce'') then Some Enforce
      else if v = Some (JStr ''dry-run'') then Some Dry_run else None)"

fun text_of_json :: "jsv \<Rightarrow> string option" where
  "text_of_json (JStr s) = Some s"
| "text_of_json v = None"

fun texts_of_json :: "jsv list \<Rightarrow> string list option" where
  "texts_of_json [] = Some []"
| "texts_of_json (v # vs) =
     (case text_of_json v of
        None \<Rightarrow> None
      | Some s \<Rightarrow> (case texts_of_json vs of None \<Rightarrow> None | Some ss \<Rightarrow> Some (s # ss)))"

definition parse_rules :: "jsv option \<Rightarrow> string list option" where
  "parse_rules v =
     (case v of
        None \<Rightarrow> Some []
      | Some JNull \<Rightarrow> Some []
      | Some JUndef \<Rightarrow> Some []
      | Some (JArr vs) \<Rightarrow> texts_of_json vs
      | Some _ \<Rightarrow> None)"

definition parse_action_policy :: "jsv \<Rightarrow> string + action_policy" where
  "parse_action_policy input =
     (if (case input of JObj kvs \<Rightarrow> False | JArr vs \<Rightarrow> False | _ \<Rightarrow> True) then Inl ''A policy must be an object.''
      else (case parse_mode (js_field input ''mode'') of
              None \<Rightarrow> Inl ''mode must be \"enforce\" or \"dry-run\".''
            | Some mode \<Rightarrow>
                (case parse_rules (js_field input ''deny'') of
                   None \<Rightarrow> Inl ''deny must be a list of expressions.''
                 | Some deny \<Rightarrow>
                     (case parse_rules (js_field input ''allow'') of
                        None \<Rightarrow> Inl ''allow must be a list of expressions.''
                      | Some allow \<Rightarrow> Inr \<lparr>pol_mode = mode, pol_deny = deny, pol_allow = allow\<rparr>))))"

section \<open>Many servers\<close>

text \<open>
  One server: what it enforces; the values it has read or saved and is about to assign, each when its await
  returns; the announcements it has been sent and has not yet read the row for; and whether it listens.
\<close>

record policy_server =
  sv_memory :: policy_memory
  sv_arriving :: "action_policy list"
  sv_notices :: nat
  sv_listening :: bool

record policy_fleet =
  pt_row :: "policy_row option"
  pt_servers :: "nat \<Rightarrow> policy_server"

datatype fleet_event =
    Save nat policy_outcome action_policy "string option" int   \<comment> \<open>a server's \<open>set\<close>, to its commit\<close>
  | Forget nat policy_outcome                                   \<comment> \<open>a server's \<open>reset\<close>, to its commit\<close>
  | Reread nat bool                                             \<comment> \<open>an announced re-read runs its query, or fails\<close>
  | Assign nat nat                                              \<comment> \<open>the await of one of them returns\<close>
  | Lose nat nat                                                \<comment> \<open>the listening connection drops, and so many re-reads were under way\<close>
  | Listen nat                                                  \<comment> \<open>and is there again\<close>
  | Boot nat action_policy                                      \<comment> \<open>a server starts: it loads, then listens\<close>

text \<open>An announcement reaches every server that listens.\<close>

definition told :: "(nat \<Rightarrow> policy_server) \<Rightarrow> nat \<Rightarrow> policy_server" where
  "told servers = (\<lambda>i. if sv_listening (servers i) then (servers i)\<lparr>sv_notices := Suc (sv_notices (servers i))\<rparr> else servers i)"

definition about_to :: "action_policy \<Rightarrow> policy_server \<Rightarrow> policy_server" where
  "about_to p s = s\<lparr>sv_arriving := sv_arriving s @ [p]\<rparr>"

definition remove_nth :: "nat \<Rightarrow> 'a list \<Rightarrow> 'a list" where
  "remove_nth k xs = take k xs @ drop (Suc k) xs"

definition assigned :: "nat \<Rightarrow> policy_server \<Rightarrow> policy_server" where
  "assigned k s =
     (if k < length (sv_arriving s)
      then s\<lparr>sv_memory := (sv_memory s)\<lparr>pm_current := sv_arriving s ! k\<rparr>, sv_arriving := remove_nth k (sv_arriving s)\<rparr>
      else s)"

definition reread :: "bool \<Rightarrow> policy_row option \<Rightarrow> policy_server \<Rightarrow> policy_server" where
  "reread succeeds row s =
     (if sv_notices s = 0 then s
      else (if succeeds then about_to (pm_current (refresh_policy (Some row) (sv_memory s))) else id)
             (s\<lparr>sv_notices := sv_notices s - 1\<rparr>))"

text \<open>What a \<open>set\<close> or \<open>reset\<close> of one server leaves: with the commit everybody who listens is told, and the server's
  own copy follows when its await returns.\<close>

definition changed ::
  "nat \<Rightarrow> (policy_table \<times> policy_memory \<Rightarrow> (string + unit) \<times> policy_table \<times> policy_memory) \<Rightarrow> policy_fleet \<Rightarrow> policy_fleet" where
  "changed i op f =
     (case op (Some (pt_row f), sv_memory (pt_servers f i)) of
        (Inr u, Some row, m) \<Rightarrow>
          (let t = told (pt_servers f) in \<lparr>pt_row = row, pt_servers = t(i := about_to (pm_current m) (t i))\<rparr>)
      | _ \<Rightarrow> f)"

definition booted :: "action_policy \<Rightarrow> policy_row option \<Rightarrow> policy_server" where
  "booted configured row =
     \<lparr>sv_memory = snd (load_policy (Some row) (create_policy_store configured)), sv_arriving = [], sv_notices = 1, sv_listening = True\<rparr>"

fun fleet_step :: "fleet_event \<Rightarrow> policy_fleet \<Rightarrow> policy_fleet" where
  "fleet_step (Save i out p by now) f = changed i (set_policy out p by now) f"
| "fleet_step (Forget i out) f = changed i (reset_policy out) f"
| "fleet_step (Reread i succeeds) f = f\<lparr>pt_servers := (pt_servers f)(i := reread succeeds (pt_row f) (pt_servers f i))\<rparr>"
| "fleet_step (Assign i k) f = f\<lparr>pt_servers := (pt_servers f)(i := assigned k (pt_servers f i))\<rparr>"
| "fleet_step (Lose i n) f = f\<lparr>pt_servers := (pt_servers f)(i := (pt_servers f i)\<lparr>sv_notices := min n (sv_notices (pt_servers f i)), sv_listening := False\<rparr>)\<rparr>"
| "fleet_step (Listen i) f = f\<lparr>pt_servers := (pt_servers f)(i := (pt_servers f i)\<lparr>sv_notices := Suc (sv_notices (pt_servers f i)), sv_listening := True\<rparr>)\<rparr>"
| "fleet_step (Boot i configured) f = f\<lparr>pt_servers := (pt_servers f)(i := booted configured (pt_row f))\<rparr>"

definition new_fleet :: "policy_row option \<Rightarrow> policy_memory \<Rightarrow> policy_fleet" where
  "new_fleet row m = \<lparr>pt_row = row, pt_servers = (\<lambda>i. \<lparr>sv_memory = m, sv_arriving = [], sv_notices = 0, sv_listening = False\<rparr>)\<rparr>"

section \<open>What is accepted over HTTP\<close>

lemma map_JStr_eq [simp]: "map JStr xs = map JStr ys \<longleftrightarrow> xs = ys"
  by (simp add: inj_map_eq_map inj_def)

lemma texts_of_json_iff: "texts_of_json vs = Some ss \<longleftrightarrow> vs = map JStr ss"
proof (induction vs arbitrary: ss)
  case (Cons v vs)
  then show ?case by (cases v; cases ss) (auto split: option.splits, blast)
qed auto

definition json_of_policy :: "action_policy \<Rightarrow> jsv" where
  "json_of_policy p =
     JObj [(''mode'', JStr (case pol_mode p of Enforce \<Rightarrow> ''enforce'' | Dry_run \<Rightarrow> ''dry-run'')),
           (''deny'', JArr (map JStr (pol_deny p))), (''allow'', JArr (map JStr (pol_allow p)))]"

text \<open>The list a body gives under a key, none when it gives nothing there.\<close>

definition gives_rules :: "jsv \<Rightarrow> string \<Rightarrow> string list \<Rightarrow> bool" where
  "gives_rules input key rules \<longleftrightarrow>
     js_field input key = Some (JArr (map JStr rules))
     \<or> rules = [] \<and> js_field input key \<in> {None, Some JNull, Some JUndef}"

lemma parse_rules_iff: "parse_rules (js_field input key) = Some rules \<longleftrightarrow> gives_rules input key rules"
  by (auto simp: parse_rules_def gives_rules_def texts_of_json_iff split: option.splits jsv.splits)

text \<open>A policy that is accepted is the one that was written, rule for rule. A body is accepted exactly when its mode
  is one of the two and each list is a list of texts or absent, and then nothing is dropped, added or turned
  into something else; and the body a policy is sent as is read back as that policy.\<close>

theorem policy_is_read_as_written:
  "(parse_action_policy input = Inr p \<longleftrightarrow>
      js_field input ''mode'' = Some (JStr (case pol_mode p of Enforce \<Rightarrow> ''enforce'' | Dry_run \<Rightarrow> ''dry-run''))
      \<and> gives_rules input ''deny'' (pol_deny p) \<and> gives_rules input ''allow'' (pol_allow p))
   \<and> parse_action_policy (json_of_policy p) = Inr p"
proof -
  have iff: "parse_action_policy input = Inr p \<longleftrightarrow>
      js_field input ''mode'' = Some (JStr (case pol_mode p of Enforce \<Rightarrow> ''enforce'' | Dry_run \<Rightarrow> ''dry-run''))
      \<and> gives_rules input ''deny'' (pol_deny p) \<and> gives_rules input ''allow'' (pol_allow p)" for input
    unfolding parse_rules_iff [symmetric]
    by (cases p; cases "pol_mode p")
       (auto simp: parse_action_policy_def parse_mode_def js_field_def split: option.splits jsv.splits)
  have "parse_action_policy (json_of_policy p) = Inr p"
    unfolding iff by (simp add: json_of_policy_def js_field_def gives_rules_def)
  with iff show ?thesis by blast
qed

section \<open>Keeping up\<close>

text \<open>The last value a server has read or saved, which it will enforce when nothing else comes.\<close>

definition latest :: "policy_server \<Rightarrow> action_policy" where
  "latest s = (if sv_arriving s = [] then pm_current (sv_memory s) else last (sv_arriving s))"

definition up_to_date :: "policy_row option \<Rightarrow> policy_server \<Rightarrow> bool" where
  "up_to_date row s \<longleftrightarrow> (sv_listening s \<and> sv_notices s = 0 \<longrightarrow> latest s = enforced_by (pm_configured (sv_memory s)) row)"

text \<open>Awaits return in the order their statements ran, and no re-read fails.\<close>

fun in_order :: "fleet_event \<Rightarrow> bool" where
  "in_order (Assign i k) = (k = 0)"
| "in_order (Reread i succeeds) = succeeds"
| "in_order e = True"

lemma latest_about_to [simp]: "latest (about_to p s) = p"
  by (simp add: latest_def about_to_def)

lemma about_to_simps [simp]:
  "sv_memory (about_to p s) = sv_memory s" "sv_notices (about_to p s) = sv_notices s" "sv_listening (about_to p s) = sv_listening s"
  by (simp_all add: about_to_def)

lemma assigned_first:
  "latest (assigned 0 s) = latest s" "sv_notices (assigned k s) = sv_notices s"
  "sv_listening (assigned k s) = sv_listening s" "pm_configured (sv_memory (assigned k s)) = pm_configured (sv_memory s)"
  by (cases "sv_arriving s"; simp add: assigned_def latest_def remove_nth_def)+

lemma told_simps [simp]:
  "sv_memory (told servers i) = sv_memory (servers i)"
  "sv_listening (told servers i) = sv_listening (servers i)"
  "sv_arriving (told servers i) = sv_arriving (servers i)"
  by (simp_all add: told_def)

lemma told_up_to_date: "up_to_date row (told servers i)"
  by (simp add: up_to_date_def told_def)

lemma reread_simps:
  "up_to_date row s \<Longrightarrow> up_to_date row (reread True row s)"
  "pm_configured (sv_memory (reread b row s)) = pm_configured (sv_memory s)"
  "sv_listening (reread b row s) = sv_listening s"
  by (auto simp: reread_def up_to_date_def refresh_policy_def)

text \<open>Either nothing changed, or the row did and everybody who listens was told.\<close>

lemma changed_cases:
  assumes "\<And>row m r db m'. op (Some row, m) = (r, db, m') \<Longrightarrow>
      r = Inl e \<or> (\<exists>row'. r = Inr () \<and> db = Some row' \<and> pm_current m' = enforced_by (pm_configured m) row')"
  shows "changed i op f = f \<or>
    (\<exists>row. changed i op f = \<lparr>pt_row = row, pt_servers = (told (pt_servers f))
       (i := about_to (enforced_by (pm_configured (sv_memory (pt_servers f i))) row) (told (pt_servers f) i))\<rparr>)"
proof -
  obtain r db m' where op: "op (Some (pt_row f), sv_memory (pt_servers f i)) = (r, db, m')" by (cases "op (Some (pt_row f), sv_memory (pt_servers f i))")
  from assms [OF op] show ?thesis
    by (auto simp: changed_def op Let_def)
qed

lemma set_policy_cases:
  "set_policy out p by now (Some row, m) = (r, db, m') \<Longrightarrow>
     r = Inl ''the transaction failed'' \<or> (\<exists>row'. r = Inr () \<and> db = Some row' \<and> pm_current m' = enforced_by (pm_configured m) row')"
  by (auto simp: set_policy_def enforced_by_def split: if_splits)

lemma reset_policy_cases:
  "reset_policy out (Some row, m) = (r, db, m') \<Longrightarrow>
     r = Inl ''the transaction failed'' \<or> (\<exists>row'. r = Inr () \<and> db = Some row' \<and> pm_current m' = enforced_by (pm_configured m) row')"
  by (auto simp: reset_policy_def enforced_by_def split: if_splits)

lemma changed_up_to_date:
  assumes "changed i op f = f \<or>
    (\<exists>row. changed i op f = \<lparr>pt_row = row, pt_servers = (told (pt_servers f))
       (i := about_to (enforced_by (pm_configured (sv_memory (pt_servers f i))) row) (told (pt_servers f) i))\<rparr>)"
    and "up_to_date (pt_row f) (pt_servers f j)"
  shows "up_to_date (pt_row (changed i op f)) (pt_servers (changed i op f) j)"
  using assms by (auto simp: told_up_to_date) (simp add: up_to_date_def)

lemma step_up_to_date:
  assumes "in_order e" "up_to_date (pt_row f) (pt_servers f j)"
  shows "up_to_date (pt_row (fleet_step e f)) (pt_servers (fleet_step e f) j)"
proof (cases e)
  case (Save i out p who now)
  show ?thesis unfolding Save fleet_step.simps
    by (rule changed_up_to_date [OF changed_cases assms(2)]) (rule set_policy_cases)
next
  case (Forget i out)
  show ?thesis unfolding Forget fleet_step.simps
    by (rule changed_up_to_date [OF changed_cases assms(2)]) (rule reset_policy_cases)
next
  case (Reread i b)
  then show ?thesis using assms by (cases "j = i") (simp_all add: reread_simps(1))
next
  case (Assign i k)
  then show ?thesis using assms by (cases "j = i") (simp_all add: up_to_date_def assigned_first)
next
  case (Lose i n)
  then show ?thesis using assms(2) by (cases "j = i") (simp_all add: up_to_date_def)
next
  case (Listen i)
  then show ?thesis using assms(2) by (cases "j = i") (simp_all add: up_to_date_def)
next
  case (Boot i configured)
  then show ?thesis using assms(2) by (cases "j = i") (simp_all add: up_to_date_def booted_def)
qed

lemma run_up_to_date:
  "list_all in_order events \<Longrightarrow> up_to_date (pt_row f) (pt_servers f j)
     \<Longrightarrow> up_to_date (pt_row (fold fleet_step events f)) (pt_servers (fold fleet_step events f) j)"
  by (induction events arbitrary: f) (simp_all add: step_up_to_date)

text \<open>What a server still has to do: the announced re-reads, then every assignment.\<close>

definition catching_up :: "nat \<Rightarrow> policy_fleet \<Rightarrow> fleet_event list" where
  "catching_up i f = (let s = pt_servers f i in
     replicate (sv_notices s) (Reread i True) @ replicate (sv_notices s + length (sv_arriving s)) (Assign i 0))"

lemma rereads_finish:
  "sv_notices (pt_servers f i) = n \<Longrightarrow>
     (let g = fold fleet_step (replicate n (Reread i True)) f in
        pt_row g = pt_row f \<and> sv_notices (pt_servers g i) = 0
        \<and> length (sv_arriving (pt_servers g i)) = length (sv_arriving (pt_servers f i)) + n
        \<and> sv_listening (pt_servers g i) = sv_listening (pt_servers f i)
        \<and> pm_configured (sv_memory (pt_servers g i)) = pm_configured (sv_memory (pt_servers f i)))"
proof (induction n arbitrary: f)
  case (Suc n)
  let ?f = "fleet_step (Reread i True) f"
  have "sv_notices (pt_servers ?f i) = n" using Suc.prems by (simp add: reread_def)
  from Suc.IH [OF this] Suc.prems show ?case by (simp add: Let_def reread_def about_to_def)
qed simp

lemma assigns_finish:
  "length (sv_arriving (pt_servers f i)) = n \<Longrightarrow>
     (let g = fold fleet_step (replicate n (Assign i 0)) f in
        pt_row g = pt_row f \<and> sv_notices (pt_servers g i) = sv_notices (pt_servers f i) \<and> sv_arriving (pt_servers g i) = []
        \<and> sv_listening (pt_servers g i) = sv_listening (pt_servers f i)
        \<and> pm_configured (sv_memory (pt_servers g i)) = pm_configured (sv_memory (pt_servers f i)))"
proof (induction n arbitrary: f)
  case (Suc n)
  let ?f = "fleet_step (Assign i 0) f"
  have "length (sv_arriving (pt_servers ?f i)) = n" using Suc.prems by (simp add: assigned_def remove_nth_def)
  from Suc.IH [OF this] show ?case by (simp add: Let_def assigned_first)
qed simp


text \<open>Re-reads that return out of order leave a server on an old rule. Each change asks for a query of its own and
  nothing orders their answers, so the answer to the first may be assigned last; the server then has nothing
  left to do and enforces a policy that is no longer the one saved.\<close>

theorem late_reread_leaves_old_rule:
  "let done_well = \<lparr>po_written = True, po_announced = True, po_committed = True\<rparr>;
       strict = \<lparr>pol_mode = Enforce, pol_deny = [''true''], pol_allow = []\<rparr>;
       f = fold fleet_step
         [Boot 0 default_action_policy, Reread 0 True, Assign 0 0,
          Save 1 done_well default_action_policy None 1, Reread 0 True, Save 1 done_well strict None 2, Reread 0 True,
          Assign 0 1, Assign 0 0] (new_fleet None (create_policy_store default_action_policy));
       s = pt_servers f 0 in
   map_option pr_policy (pt_row f) = Some strict \<and> sv_listening s \<and> sv_notices s = 0 \<and> sv_arriving s = []
   \<and> pm_current (sv_memory s) = default_action_policy"
  by code_simp

end
