(* ===== verification/Retention.thy ===== *)
theory Retention
  imports Audit_Trail Complex_Main
begin

text \<open>
  How long the audit trail is kept (\<^verbatim>\<open>server/src/audit-retention.ts\<close>): a sweep that deletes what is older than
  the window, batch by batch, and the timers that start one.

  A row of the table is its identity and the time it was created at. Which of the old rows one statement
  takes is not said by the query, so they are ranked by an argument; so are the clock at each
  batch, the rows others add meanwhile, and whether a statement fails. The advisory lock is held or not.
\<close>

section \<open>One sweep\<close>

definition sweep_lock :: int where
  "sweep_lock = 4192004"

definition sweep_batch :: nat where
  "sweep_batch = 5000"

definition max_batches :: nat where
  "max_batches = 200"

definition day_ms :: int where
  "day_ms = 24 * 60 * 60 * 1000"

record trail_row =
  tr_ctid :: nat
  tr_created :: int

text \<open>What the world decides of each batch: the clock of its transaction, the rows that were added before it, the
  rank by which the subquery meets the rows, and whether it fails.\<close>

record batch_world =
  bw_now :: int
  bw_added :: "trail_row list"
  bw_rank :: "trail_row \<Rightarrow> nat"
  bw_fails :: bool

definition older :: "int \<Rightarrow> int \<Rightarrow> trail_row \<Rightarrow> bool" where
  "older days now r \<longleftrightarrow> tr_created r < now - days * day_ms"

definition batch_of :: "int \<Rightarrow> batch_world \<Rightarrow> trail_row list \<Rightarrow> trail_row list" where
  "batch_of days b rows = take sweep_batch (sort_key (bw_rank b) (filter (older days (bw_now b)) rows))"

definition delete_batch :: "int \<Rightarrow> batch_world \<Rightarrow> trail_row list \<Rightarrow> nat \<times> trail_row list" where
  "delete_batch days b rows =
     (let gone = batch_of days b rows in (length gone, filter (\<lambda>r. r \<notin> set gone) rows))"

text \<open>The loop: at most so many batches are left, and the world of the one after those done.\<close>

fun sweep_loop :: "int \<Rightarrow> (nat \<Rightarrow> batch_world) \<Rightarrow> nat \<Rightarrow> nat \<Rightarrow> nat \<Rightarrow> trail_row list \<Rightarrow> (string + nat) \<times> trail_row list" where
  "sweep_loop days world 0 k deleted rows = (Inr deleted, rows)"
| "sweep_loop days world (Suc left) k deleted rows =
     (let b = world k; rows1 = rows @ bw_added b in
      if bw_fails b then (Inl ''the statement failed'', rows1)
      else (case delete_batch days b rows1 of
        (count, rows2) \<Rightarrow>
          if count < sweep_batch then (Inr (deleted + count), rows2)
          else sweep_loop days world left (Suc k) (deleted + count) rows2))"

definition sweep_audit_trail ::
  "rat \<Rightarrow> bool \<Rightarrow> (nat \<Rightarrow> batch_world) \<Rightarrow> trail_row list \<Rightarrow> (string + nat option) \<times> trail_row list" where
  "sweep_audit_trail retention_days lock_held world rows =
     (if of_int \<lfloor>retention_days\<rfloor> \<noteq> retention_days \<or> retention_days < 1 then (Inr None, rows)
      else if \<not> lock_held then (Inr None, rows)
      else (case sweep_loop \<lfloor>retention_days\<rfloor> world max_batches 0 0 rows of
          (Inl e, rows') \<Rightarrow> (Inl e, rows')
        | (Inr n, rows') \<Rightarrow> (Inr (Some n), rows')))"

section \<open>When a sweep is started\<close>

text \<open>The two timers, by the time they are due next.\<close>

record sweeper =
  sw_first :: "int option"
  sw_repeating :: "int option"

definition idle_sweeper :: sweeper where
  "idle_sweeper = \<lparr>sw_first = None, sw_repeating = None\<rparr>"

definition start_audit_retention :: "rat option \<Rightarrow> int option \<Rightarrow> int \<Rightarrow> sweeper" where
  "start_audit_retention retention_days first_run_ms now =
     (case retention_days of
        None \<Rightarrow> idle_sweeper
      | Some d \<Rightarrow>
          if d = 0 \<or> d < 1 then idle_sweeper
          else idle_sweeper\<lparr>sw_first := Some (now + (case first_run_ms of Some ms \<Rightarrow> ms | None \<Rightarrow> 60000))\<rparr>)"

text \<open>A timer that is due starts a sweep; the first one also sets the other.\<close>

definition sweeper_tick :: "int option \<Rightarrow> int \<Rightarrow> sweeper \<Rightarrow> nat \<times> sweeper" where
  "sweeper_tick interval_ms now s =
     (let interval = (case interval_ms of Some ms \<Rightarrow> ms | None \<Rightarrow> 60 * 60000);
          due = (\<lambda>timer. case timer of Some t \<Rightarrow> t \<le> now | None \<Rightarrow> False) in
      if due (sw_first s) then (1, \<lparr>sw_first = None, sw_repeating = Some (now + interval)\<rparr>)
      else if due (sw_repeating s) then (1, s\<lparr>sw_repeating := Some (now + interval)\<rparr>)
      else (0, s))"

definition stop_sweeper :: "sweeper \<Rightarrow> sweeper" where
  "stop_sweeper s = idle_sweeper"

text \<open>What the log says of a sweep that ended.\<close>

definition sweep_log :: "string + nat option \<Rightarrow> string list" where
  "sweep_log result =
     (case result of
        Inl e \<Rightarrow> [''audit-retention-failed'']
      | Inr None \<Rightarrow> []
      | Inr (Some n) \<Rightarrow> if n = 0 then [] else [''audit-retention-swept''])"

section \<open>What a sweep deletes\<close>

lemma batch_of_subset: "set (batch_of days b rows) \<subseteq> {r \<in> set rows. older days (bw_now b) r}"
  unfolding batch_of_def by (auto dest: in_set_takeD)

lemma batch_of_length: "length (batch_of days b rows) = min sweep_batch (length (filter (older days (bw_now b)) rows))"
  by (simp add: batch_of_def min.commute)

lemma batch_of_distinct: "distinct rows \<Longrightarrow> distinct (batch_of days b rows)"
  by (simp add: batch_of_def)

text \<open>A statement that found less than it could take found everything.\<close>

lemma short_batch:
  assumes "length (batch_of days b rows) < sweep_batch" "r \<in> set rows" "older days (bw_now b) r"
  shows "r \<in> set (batch_of days b rows)"
proof -
  have "length (sort_key (bw_rank b) (filter (older days (bw_now b)) rows)) \<le> sweep_batch"
    using assms(1) by (simp add: batch_of_length)
  then show ?thesis using assms(2,3) by (simp add: batch_of_def)
qed

lemma delete_count:
  assumes "distinct rows" "set gone \<subseteq> set rows" "distinct gone"
  shows "length gone + length (filter (\<lambda>r. r \<notin> set gone) rows) = length rows"
proof -
  have "length (filter (\<lambda>r. r \<in> set gone) rows) = card (set (filter (\<lambda>r. r \<in> set gone) rows))"
    using assms(1) by (intro distinct_card [symmetric]) simp
  also have "set (filter (\<lambda>r. r \<in> set gone) rows) = set gone" using assms(2) by auto
  also have "card (set gone) = length gone" using assms(3) by (simp add: distinct_card)
  finally show ?thesis using sum_length_filter_compl [of "\<lambda>r. r \<in> set gone" rows] by simp
qed

text \<open>The rows there ever were in a sweep that began so many batches from one on, and what is left of them.\<close>

definition all_rows :: "(nat \<Rightarrow> batch_world) \<Rightarrow> nat \<Rightarrow> nat \<Rightarrow> trail_row list \<Rightarrow> trail_row list" where
  "all_rows world k m rows = rows @ concat (map (\<lambda>j. bw_added (world j)) [k..<k + m])"

definition swept_well :: "int \<Rightarrow> (nat \<Rightarrow> batch_world) \<Rightarrow> nat \<Rightarrow> nat \<Rightarrow> trail_row list \<Rightarrow> trail_row list \<Rightarrow> bool" where
  "swept_well days world k m rows rows' \<longleftrightarrow>
     set rows' \<subseteq> set (all_rows world k m rows)
     \<and> list_all (\<lambda>r. r \<in> set rows' \<or> list_ex (\<lambda>j. older days (bw_now (world j)) r) [k..<k + m]) (all_rows world k m rows)"

lemma all_rows_Suc: "all_rows world k (Suc m) rows = all_rows world (Suc k) m (rows @ bw_added (world k))"
proof -
  have "[k..<k + Suc m] = k # [Suc k..<Suc k + m]" by (simp add: upt_conv_Cons del: upt_Suc)
  then show ?thesis by (simp add: all_rows_def del: upt_Suc)
qed

lemma all_rows_append: "all_rows world k m rows = rows @ all_rows world k m []"
  by (simp add: all_rows_def)

lemma sweep_loop_well:
  "sweep_loop days world left k deleted rows = (r, rows') \<Longrightarrow>
     \<exists>m \<le> left. swept_well days world k m rows rows' \<and>
       (case r of Inl e \<Rightarrow> True
        | Inr n \<Rightarrow> n \<le> deleted + left * sweep_batch
            \<and> (n < deleted + left * sweep_batch \<longrightarrow> 0 < m \<and> list_all (\<lambda>x. \<not> older days (bw_now (world (k + m - 1))) x) rows')
            \<and> (distinct (all_rows world k m rows) \<longrightarrow> n + length rows' = deleted + length (all_rows world k m rows)))"
proof (induction left arbitrary: k deleted rows)
  case 0
  then show ?case by (auto simp: swept_well_def all_rows_def list_all_iff)
next
  case (Suc left)
  let ?b = "world k" and ?rows1 = "rows @ bw_added (world k)"
  let ?gone = "batch_of days ?b ?rows1"
  let ?rows2 = "filter (\<lambda>r. r \<notin> set ?gone) ?rows1"
  have one: "all_rows world k (Suc 0) rows = ?rows1" by (simp add: all_rows_def)
  have gone: "set ?gone \<subseteq> {r \<in> set ?rows1. older days (bw_now ?b) r}" by (rule batch_of_subset)
  have count: "distinct ?rows1 \<Longrightarrow> length ?gone + length ?rows2 = length ?rows1"
    using gone by (intro delete_count batch_of_distinct) auto
  consider "bw_fails ?b" | "\<not> bw_fails ?b" "length ?gone < sweep_batch" | "\<not> bw_fails ?b" "\<not> length ?gone < sweep_batch" by blast
  then show ?case
  proof cases
    case 1
    then have "r = Inl ''the statement failed'' \<and> rows' = ?rows1" using Suc.prems by simp
    then show ?thesis by (intro exI [of _ "Suc 0"]) (auto simp: swept_well_def one list_all_iff)
  next
    case 2
    then have r: "r = Inr (deleted + length ?gone)" "rows' = ?rows2"
      using Suc.prems by (simp_all add: Let_def delete_batch_def)
    have "swept_well days world k (Suc 0) rows ?rows2"
      unfolding swept_well_def one using gone by (auto simp: list_all_iff)
    moreover have "list_all (\<lambda>x. \<not> older days (bw_now ?b) x) ?rows2"
      using short_batch [OF 2(2)] by (auto simp: list_all_iff)
    ultimately show ?thesis using 2(2) count unfolding r
      by (intro exI [of _ "Suc 0"]) (simp add: one)
  next
    case 3
    then have "sweep_loop days world left (Suc k) (deleted + length ?gone) ?rows2 = (r, rows')"
      using Suc.prems by (simp add: Let_def delete_batch_def)
    from Suc.IH [OF this] obtain m where m: "m \<le> left" "swept_well days world (Suc k) m ?rows2 rows'"
      "case r of Inl e \<Rightarrow> True
        | Inr n \<Rightarrow> n \<le> deleted + length ?gone + left * sweep_batch
            \<and> (n < deleted + length ?gone + left * sweep_batch \<longrightarrow> 0 < m \<and> list_all (\<lambda>x. \<not> older days (bw_now (world (Suc k + m - 1))) x) rows')
            \<and> (distinct (all_rows world (Suc k) m ?rows2) \<longrightarrow> n + length rows' = deleted + length ?gone + length (all_rows world (Suc k) m ?rows2))"
      by blast
    have full: "length ?gone = sweep_batch" using 3(2) by (simp add: batch_of_length)
    have all2: "set (all_rows world (Suc k) m ?rows2) \<subseteq> set (all_rows world k (Suc m) rows)"
      unfolding all_rows_Suc all_rows_append [of world "Suc k" m "?rows2"] all_rows_append [of world "Suc k" m "?rows1"] by auto
    have "swept_well days world k (Suc m) rows rows'"
      unfolding swept_well_def
    proof (intro conjI)
      show "set rows' \<subseteq> set (all_rows world k (Suc m) rows)" using m(2) all2 unfolding swept_well_def by blast
      show "list_all (\<lambda>r. r \<in> set rows' \<or> list_ex (\<lambda>j. older days (bw_now (world j)) r) [k..<k + Suc m]) (all_rows world k (Suc m) rows)"
        unfolding list_all_iff
      proof
        fix x assume "x \<in> set (all_rows world k (Suc m) rows)"
        then have "x \<in> set ?gone \<or> x \<in> set (all_rows world (Suc k) m ?rows2)"
          unfolding all_rows_Suc all_rows_append [of world "Suc k" m "?rows2"] all_rows_append [of world "Suc k" m "?rows1"] by auto
        then show "x \<in> set rows' \<or> list_ex (\<lambda>j. older days (bw_now (world j)) x) [k..<k + Suc m]"
        proof
          assume "x \<in> set ?gone"
          then have "older days (bw_now (world k)) x" using gone by blast
          then show ?thesis by (simp add: list_ex_iff del: upt_Suc) (metis atLeastLessThan_iff less_add_Suc1 order_refl)
        next
          assume "x \<in> set (all_rows world (Suc k) m ?rows2)"
          then show ?thesis using m(2) unfolding swept_well_def by (auto simp: list_all_iff list_ex_iff)
        qed
      qed
    qed
    moreover have "distinct (all_rows world (Suc k) m ?rows2) \<and>
        length ?gone + length (all_rows world (Suc k) m ?rows2) = length (all_rows world k (Suc m) rows)"
      if "distinct (all_rows world k (Suc m) rows)"
      using that count unfolding all_rows_Suc all_rows_append [of world "Suc k" m "?rows2"] all_rows_append [of world "Suc k" m "?rows1"]
      by auto
    ultimately show ?thesis using m(1,3) full
      by (intro exI [of _ "Suc m"]) (auto split: sum.splits)
  qed
qed

text \<open>C29: a sweep deletes what is older than the window, and nothing else. However the database picks its rows,
  whatever is added meanwhile and whichever statement fails, every row that is gone was older than the window
  at the clock of a batch of this sweep; at most a million go, their number is the one reported, and when
  fewer go no row is left that was older at the last batch. A number of days that is not a whole number from
  one on deletes nothing, and so does a server that does not hold the lock.\<close>

theorem sweep_keeps_the_window:
  "case sweep_audit_trail d held world rows of (r, rows') \<Rightarrow>
     (if held \<and> of_int \<lfloor>d\<rfloor> = d \<and> 1 \<le> d
      then (\<exists>m. m \<le> max_batches \<and> swept_well \<lfloor>d\<rfloor> world 0 m rows rows' \<and>
          (case r of Inl e \<Rightarrow> True | Inr None \<Rightarrow> False
           | Inr (Some n) \<Rightarrow> n \<le> 1000000
               \<and> (if n < 1000000 then list_all (\<lambda>x. \<not> older \<lfloor>d\<rfloor> (bw_now (world (m - 1))) x) rows' else True)
               \<and> (if distinct (all_rows world 0 m rows) then n + length rows' = length (all_rows world 0 m rows) else True)))
      else r = Inr None \<and> rows' = rows)"
proof (cases "held \<and> of_int \<lfloor>d\<rfloor> = d \<and> 1 \<le> d")
  case True
  obtain r rows' where loop: "sweep_loop \<lfloor>d\<rfloor> world max_batches 0 0 rows = (r, rows')" by (cases "sweep_loop \<lfloor>d\<rfloor> world max_batches 0 0 rows")
  from sweep_loop_well [OF this] obtain m where "m \<le> max_batches" "swept_well \<lfloor>d\<rfloor> world 0 m rows rows'"
    "case r of Inl e \<Rightarrow> True
      | Inr n \<Rightarrow> n \<le> 1000000 \<and> (n < 1000000 \<longrightarrow> 0 < m \<and> list_all (\<lambda>x. \<not> older \<lfloor>d\<rfloor> (bw_now (world (m - 1))) x) rows')
          \<and> (distinct (all_rows world 0 m rows) \<longrightarrow> n + length rows' = length (all_rows world 0 m rows))"
    by (cases r) (auto simp: max_batches_def sweep_batch_def)
  then show ?thesis using True loop
    by (cases r) (auto simp: sweep_audit_trail_def intro!: exI [of _ m])
next
  case False
  then show ?thesis by (auto simp: sweep_audit_trail_def)
qed

text \<open>A deployment that named no window starts no timer, and a stopped sweeper never starts a sweep again.\<close>

lemma no_window_no_sweep:
  "sweeper_tick interval_ms now (start_audit_retention None first now0) = (0, idle_sweeper)"
  "fst (sweeper_tick interval_ms now (stop_sweeper s)) = 0"
  by (simp_all add: start_audit_retention_def sweeper_tick_def idle_sweeper_def stop_sweeper_def)

end
