(* ===== verification/Providers.thy ===== *)
theory Providers
  imports Roles "HOL-Library.Product_Lexorder"
begin

text \<open>
  Where a coworker's model lives (\<^verbatim>\<open>server/src/providers/store.ts\<close>, \<^verbatim>\<open>routes.ts\<close>): the providers with their
  encrypted keys, the route a coworker has of its own, and the one question the runtime asks.

  Encryption under the deployment's key and the collation of a listing are arguments. Of the database the
  references between the tables are used: a route's provider and coworker are there, and a route goes with
  either. A transaction is a function on the tables with the ids of the rows it can see.
\<close>

section \<open>Tables\<close>

datatype provider_kind = Anthropic | Openai | Openai_compatible | Anthropic_compatible

definition kind_of_text :: "string \<Rightarrow> provider_kind option" where
  "kind_of_text s =
     (if s = ''anthropic'' then Some Anthropic
      else if s = ''openai'' then Some Openai
      else if s = ''openai-compatible'' then Some Openai_compatible
      else if s = ''anthropic-compatible'' then Some Anthropic_compatible else None)"

record provider =
  pv_id :: string
  pv_name :: string
  pv_kind :: provider_kind
  pv_base :: "string option"
  pv_model :: string
  pv_default :: bool
  pv_updated :: int

record provider_row =
  rw_provider :: provider
  rw_key :: string

record model_route =
  mr_agent :: string
  mr_provider :: string
  mr_model :: string
  mr_fallbacks :: jsv

record provider_tables =
  vt_agents :: "string list"
  vt_providers :: "provider_row list"
  vt_routes :: "model_route list"

abbreviation row_id :: "provider_row \<Rightarrow> string" where
  "row_id r \<equiv> pv_id (rw_provider r)"

definition find_provider :: "string \<Rightarrow> provider_tables \<Rightarrow> provider_row option" where
  "find_provider i t = find (\<lambda>r. row_id r = i) (vt_providers t)"

section \<open>Providers\<close>

text \<open>The default first, then by id.\<close>

definition provider_order :: "(string \<Rightarrow> nat) \<Rightarrow> provider \<Rightarrow> nat \<times> nat" where
  "provider_order collate p = (if pv_default p then 0 else 1, collate (pv_id p))"

definition list_providers :: "(string \<Rightarrow> nat) \<Rightarrow> provider_tables \<Rightarrow> provider list" where
  "list_providers collate t = sort_key (provider_order collate) (map rw_provider (vt_providers t))"

definition get_provider :: "string \<Rightarrow> provider_tables \<Rightarrow> provider option" where
  "get_provider i t = map_option rw_provider (find_provider i t)"

record provider_input =
  pn_id :: string
  pn_name :: string
  pn_kind :: provider_kind
  pn_base :: "string option"
  pn_model :: string
  pn_default :: "bool option"
  pn_key :: "string option"

definition stored_provider :: "provider_input \<Rightarrow> int \<Rightarrow> provider" where
  "stored_provider x now =
     \<lparr>pv_id = pn_id x, pv_name = pn_name x, pv_kind = pn_kind x,
      pv_base = (case pn_base x of Some u \<Rightarrow> (let v = js_trim u in if v = [] then None else Some v) | None \<Rightarrow> None),
      pv_model = pn_model x, pv_default = (pn_default x = Some True), pv_updated = now\<rparr>"

definition clear_default :: "provider_row \<Rightarrow> provider_row" where
  "clear_default r = r\<lparr>rw_provider := (rw_provider r)\<lparr>pv_default := False\<rparr>\<rparr>"

definition put_row :: "provider_row \<Rightarrow> provider_row list \<Rightarrow> provider_row list" where
  "put_row r rows =
     (if list_ex (\<lambda>q. row_id q = row_id r) rows then map (\<lambda>q. if row_id q = row_id r then r else q) rows else rows @ [r])"

text \<open>The transaction of an upsert sees the rows in \<open>seen\<close>: the one it looks up, and those whose default it clears.\<close>

definition upsert_provider ::
  "(string \<Rightarrow> string) \<Rightarrow> (string \<Rightarrow> bool) \<Rightarrow> provider_input \<Rightarrow> int \<Rightarrow> provider_tables \<Rightarrow> (string + provider) \<times> provider_tables" where
  "upsert_provider encrypt seen x now t =
     (let existing = (if seen (pn_id x) then find_provider (pn_id x) t else None);
          key = (if truthy (pn_key x) then Some (encrypt (the (pn_key x))) else map_option rw_key existing) in
      if \<not> truthy key then (Inl ''A key is required for a new provider.'', t)
      else
        let p = stored_provider x now;
            rows = put_row \<lparr>rw_provider = p, rw_key = the key\<rparr> (vt_providers t);
            rows' = (if pv_default p then map (\<lambda>r. if row_id r \<noteq> pn_id x \<and> seen (row_id r) then clear_default r else r) rows else rows) in
        (Inr p, t\<lparr>vt_providers := rows'\<rparr>))"

abbreviation sees_all :: "string \<Rightarrow> bool" where
  "sees_all \<equiv> \<lambda>i. True"

definition remove_provider :: "string \<Rightarrow> provider_tables \<Rightarrow> bool \<times> provider_tables" where
  "remove_provider i t =
     (find_provider i t \<noteq> None,
      t\<lparr>vt_providers := filter (\<lambda>r. row_id r \<noteq> i) (vt_providers t), vt_routes := filter (\<lambda>m. mr_provider m \<noteq> i) (vt_routes t)\<rparr>)"

definition secret_of_provider :: "(string \<Rightarrow> string + string) \<Rightarrow> string \<Rightarrow> provider_tables \<Rightarrow> string + string option" where
  "secret_of_provider decrypt i t =
     (case find_provider i t of
        None \<Rightarrow> Inr None
      | Some r \<Rightarrow> (case decrypt (rw_key r) of Inl e \<Rightarrow> Inl e | Inr k \<Rightarrow> Inr (Some k)))"

section \<open>Routes of coworkers\<close>

definition route_of :: "string \<Rightarrow> provider_tables \<Rightarrow> model_route option" where
  "route_of agent t = find (\<lambda>m. mr_agent m = agent) (vt_routes t)"

definition set_route :: "model_route \<Rightarrow> provider_tables \<Rightarrow> (string + unit) \<times> provider_tables" where
  "set_route m t =
     (if mr_agent m \<notin> set (vt_agents t) \<or> find_provider (mr_provider m) t = None
      then (Inl ''violates foreign key constraint'', t)
      else (Inr (), t\<lparr>vt_routes :=
        (if route_of (mr_agent m) t \<noteq> None then map (\<lambda>q. if mr_agent q = mr_agent m then m else q) (vt_routes t)
         else vt_routes t @ [m])\<rparr>))"

definition clear_route :: "string \<Rightarrow> provider_tables \<Rightarrow> bool \<times> provider_tables" where
  "clear_route agent t = (route_of agent t \<noteq> None, t\<lparr>vt_routes := filter (\<lambda>m. mr_agent m \<noteq> agent) (vt_routes t)\<rparr>)"

record resolved_route =
  rr_provider :: string
  rr_kind :: provider_kind
  rr_base :: "string option"
  rr_model :: string
  rr_key :: string

definition route_for :: "(string \<Rightarrow> string + string) \<Rightarrow> string \<Rightarrow> provider_tables \<Rightarrow> string + resolved_route option" where
  "route_for decrypt agent t =
     (let route = route_of agent t in
      case (case route of
              Some m \<Rightarrow> find_provider (mr_provider m) t
            | None \<Rightarrow> find (\<lambda>r. pv_default (rw_provider r)) (vt_providers t)) of
        None \<Rightarrow> Inr None
      | Some r \<Rightarrow>
          (case decrypt (rw_key r) of
             Inl e \<Rightarrow> Inl e
           | Inr key \<Rightarrow>
               let p = rw_provider r in
               Inr (Some \<lparr>rr_provider = pv_id p, rr_kind = pv_kind p, rr_base = pv_base p,
                  rr_model = (case route of Some m \<Rightarrow> mr_model m | None \<Rightarrow> pv_model p), rr_key = key\<rparr>)))"

section \<open>What arrives over HTTP\<close>

text \<open>\<^verbatim>\<open>/^[a-z0-9][a-z0-9-]{0,40}$/\<close>.\<close>

definition slug_sign :: "char \<Rightarrow> bool" where
  "slug_sign c \<longleftrightarrow> (let n = char_code c in 97 \<le> n \<and> n \<le> 122 \<or> 48 \<le> n \<and> n \<le> 57)"

definition provider_id :: "string \<Rightarrow> bool" where
  "provider_id s \<longleftrightarrow>
     (case s of [] \<Rightarrow> False
      | c # cs \<Rightarrow> slug_sign c \<and> list_all (\<lambda>d. slug_sign d \<or> d = CHR ''-'') cs \<and> length cs \<le> 40)"

text \<open>\<^verbatim>\<open>String(value)\<close>.\<close>

fun js_to_text :: "jsv \<Rightarrow> string" where
  "js_to_text JUndef = ''undefined''"
| "js_to_text JNull = ''null''"
| "js_to_text (JBool b) = (if b then ''true'' else ''false'')"
| "js_to_text (JNum n) = show_int n"
| "js_to_text (JStr s) = s"
| "js_to_text (JArr vs) = join_with '','' (map (\<lambda>v. if v = JNull \<or> v = JUndef then [] else js_to_text v) vs)"
| "js_to_text (JObj kvs) = ''[object Object]''"

definition http_text :: "string \<Rightarrow> bool" where
  "http_text s \<longleftrightarrow> take 7 s = ''http://'' \<or> take 8 s = ''https://''"

definition base_refused :: "jsv option \<Rightarrow> bool" where
  "base_refused v =
     (case v of
        None \<Rightarrow> False
      | Some w \<Rightarrow> w \<noteq> JUndef \<and> w \<noteq> JNull \<and> w \<noteq> JStr [] \<and> \<not> http_text (js_to_text w))"

datatype provider_reply = Refuses int string | Gives_provider provider | Ok_given | Throws string

definition admin_only :: "actor \<Rightarrow> provider_reply option" where
  "admin_only a = (case require_admin a of None \<Rightarrow> None | Some (status, e) \<Rightarrow> Some (Refuses status e))"

definition put_provider ::
  "(string \<Rightarrow> string) \<Rightarrow> actor \<Rightarrow> string \<Rightarrow> jsv option \<Rightarrow> int \<Rightarrow> provider_tables \<Rightarrow> provider_reply \<times> provider_tables" where
  "put_provider encrypt a i json now t =
     (let body = (case json of Some j \<Rightarrow> j | None \<Rightarrow> JNull) in
      case admin_only a of Some refused \<Rightarrow> (refused, t) | None \<Rightarrow>
      if \<not> provider_id i then (Refuses 400 ''id must be a short lower-case slug.'', t)
      else (case (case js_string_field body ''kind'' of Some k \<Rightarrow> kind_of_text k | None \<Rightarrow> None) of
        None \<Rightarrow> (Refuses 400 ''kind must be one of: anthropic, openai, openai-compatible, anthropic-compatible.'', t)
      | Some kind \<Rightarrow>
          let model = (case js_string_field body ''defaultModel'' of Some m \<Rightarrow> js_trim m | None \<Rightarrow> []);
              base = js_field body ''baseUrl'' in
          if model = [] then (Refuses 400 ''defaultModel is required.'', t)
          else if base_refused base then (Refuses 400 ''baseUrl must be http(s).'', t)
          else (case upsert_provider encrypt sees_all
              \<lparr>pn_id = i,
               pn_name = (case js_string_field body ''name'' of Some n \<Rightarrow> if js_trim n \<noteq> [] then n else i | None \<Rightarrow> i),
               pn_kind = kind, pn_base = js_string_field body ''baseUrl'', pn_model = model,
               pn_default = Some (js_field body ''isDefault'' = Some (JBool True)),
               pn_key = (case js_string_field body ''key'' of Some k \<Rightarrow> if k \<noteq> [] then Some k else None | None \<Rightarrow> None)\<rparr> now t of
            (Inl e, t') \<Rightarrow> (Refuses 400 e, t')
          | (Inr p, t') \<Rightarrow> (Gives_provider p, t'))))"

definition delete_provider :: "actor \<Rightarrow> string \<Rightarrow> provider_tables \<Rightarrow> provider_reply \<times> provider_tables" where
  "delete_provider a i t =
     (case admin_only a of Some refused \<Rightarrow> (refused, t)
      | None \<Rightarrow> (case remove_provider i t of (removed, t') \<Rightarrow> (if removed then Ok_given else Refuses 404 ''No such provider.'', t')))"

definition put_model_route :: "actor \<Rightarrow> string \<Rightarrow> jsv option \<Rightarrow> provider_tables \<Rightarrow> provider_reply \<times> provider_tables" where
  "put_model_route a agent json t =
     (let body = (case json of Some j \<Rightarrow> j | None \<Rightarrow> JNull) in
      case admin_only a of Some refused \<Rightarrow> (refused, t) | None \<Rightarrow>
      (case (js_string_field body ''providerId'', js_string_field body ''model'') of
         (Some provider, Some model) \<Rightarrow>
           if get_provider provider t = None then (Refuses 404 ''No such provider.'', t)
           else (case set_route
               \<lparr>mr_agent = agent, mr_provider = provider, mr_model = model,
                mr_fallbacks = (case js_field body ''fallbacks'' of Some (JArr vs) \<Rightarrow> JArr vs | _ \<Rightarrow> JArr [])\<rparr> t of
             (Inl e, t') \<Rightarrow> (Throws e, t')
           | (Inr u, t') \<Rightarrow> (Ok_given, t'))
       | _ \<Rightarrow> (Refuses 400 ''providerId and model are required.'', t)))"

definition delete_model_route :: "actor \<Rightarrow> string \<Rightarrow> provider_tables \<Rightarrow> provider_reply \<times> provider_tables" where
  "delete_model_route a agent t =
     (case admin_only a of Some refused \<Rightarrow> (refused, t)
      | None \<Rightarrow> (case clear_route agent t of (removed, t') \<Rightarrow> (if removed then Ok_given else Refuses 404 ''No route set.'', t')))"

section \<open>Every request\<close>

datatype provider_op =
    Put_provider string "jsv option" int
  | Delete_provider string
  | Put_route string "jsv option"
  | Delete_route string

fun provider_step :: "(string \<Rightarrow> string) \<Rightarrow> actor \<times> provider_op \<Rightarrow> provider_tables \<Rightarrow> provider_tables" where
  "provider_step encrypt (a, Put_provider i json now) t = snd (put_provider encrypt a i json now t)"
| "provider_step encrypt (a, Delete_provider i) t = snd (delete_provider a i t)"
| "provider_step encrypt (a, Put_route agent json) t = snd (put_model_route a agent json t)"
| "provider_step encrypt (a, Delete_route agent) t = snd (delete_model_route a agent t)"

definition defaults :: "provider_tables \<Rightarrow> provider_row list" where
  "defaults t = filter (\<lambda>r. pv_default (rw_provider r)) (vt_providers t)"

definition providers_ok :: "provider_tables \<Rightarrow> bool" where
  "providers_ok t \<longleftrightarrow>
     distinct (map row_id (vt_providers t)) \<and> length (defaults t) \<le> 1
     \<and> distinct (map mr_agent (vt_routes t)) \<and> list_all (\<lambda>m. find_provider (mr_provider m) t \<noteq> None) (vt_routes t)"

lemma find_provider_iff: "find_provider i t \<noteq> None \<longleftrightarrow> i \<in> row_id ` set (vt_providers t)"
  by (auto simp: find_provider_def find_None_iff)

lemma find_provider_SomeD: "find_provider i t = Some r \<Longrightarrow> r \<in> set (vt_providers t) \<and> row_id r = i"
  by (auto simp: find_provider_def find_Some_iff)

lemma put_row_ids:
  "set (map row_id (put_row r rows)) = insert (row_id r) (set (map row_id rows))"
  "distinct (map row_id rows) \<Longrightarrow> distinct (map row_id (put_row r rows))"
proof -
  have same: "map row_id (map (\<lambda>q. if row_id q = row_id r then r else q) rows) = map row_id rows"
    by (induction rows) auto
  show "set (map row_id (put_row r rows)) = insert (row_id r) (set (map row_id rows))"
    unfolding put_row_def using same by (auto simp: list_ex_iff simp del: map_map)
  show "distinct (map row_id rows) \<Longrightarrow> distinct (map row_id (put_row r rows))"
    unfolding put_row_def using same by (auto simp: list_ex_iff simp del: map_map)
qed

lemma clear_ids: "map row_id (map (\<lambda>r. if c r then clear_default r else r) rows) = map row_id rows"
  by (induction rows) (auto simp: clear_default_def)

lemma put_row_others: "q \<in> set (put_row r rows) \<Longrightarrow> row_id q \<noteq> row_id r \<Longrightarrow> q \<in> set rows"
  by (auto simp: put_row_def split: if_splits)

lemma one_of_key:
  assumes "distinct (map f xs)" "\<And>x. x \<in> set xs \<Longrightarrow> f x = k"
  shows "length xs \<le> 1"
proof -
  have "card (f ` set xs) \<le> card {k}" using assms(2) by (intro card_mono) auto
  then show ?thesis using assms(1) by (simp add: distinct_map card_image distinct_card)
qed

lemma put_row_defaults:
  "\<not> pv_default (rw_provider r) \<Longrightarrow>
     length (filter (\<lambda>q. pv_default (rw_provider q)) (put_row r rows)) \<le> length (filter (\<lambda>q. pv_default (rw_provider q)) rows)"
proof -
  assume r: "\<not> pv_default (rw_provider r)"
  have "length (filter (\<lambda>q. pv_default (rw_provider q)) (map (\<lambda>q. if row_id q = row_id r then r else q) xs))
      \<le> length (filter (\<lambda>q. pv_default (rw_provider q)) xs)" for xs
    using r by (induction xs) auto
  then show ?thesis using r by (auto simp: put_row_def)
qed

lemma upsert_ok:
  assumes "providers_ok t"
  shows "providers_ok (snd (upsert_provider encrypt sees_all x now t))"
proof -
  let ?key = "if truthy (pn_key x) then Some (encrypt (the (pn_key x))) else map_option rw_key (find_provider (pn_id x) t)"
  let ?p = "stored_provider x now" and ?r = "\<lparr>rw_provider = stored_provider x now, rw_key = the ?key\<rparr>"
  let ?rows = "put_row ?r (vt_providers t)"
  let ?after = "if pv_default ?p then map (\<lambda>r. if row_id r \<noteq> pn_id x then clear_default r else r) ?rows else ?rows"
  have i: "pv_id ?p = pn_id x" by (simp add: stored_provider_def)
  have ids: "map row_id ?after = map row_id ?rows" by (simp only: clear_ids split: if_split) simp
  have dist: "distinct (map row_id ?after)" using assms put_row_ids(2) unfolding ids providers_ok_def by blast
  have one: "length (filter (\<lambda>q. pv_default (rw_provider q)) ?after) \<le> 1"
  proof (cases "pv_default ?p")
    case True
    have "distinct (map row_id (filter (\<lambda>q. pv_default (rw_provider q)) ?after))" using dist by (rule distinct_map_filter)
    moreover have "row_id q = pn_id x" if "q \<in> set (filter (\<lambda>q. pv_default (rw_provider q)) ?after)" for q
      using that True by (auto simp: clear_default_def split: if_splits)
    ultimately show ?thesis by (rule one_of_key)
  next
    case False
    then have "length (filter (\<lambda>q. pv_default (rw_provider q)) ?rows) \<le> length (filter (\<lambda>q. pv_default (rw_provider q)) (vt_providers t))"
      by (intro put_row_defaults) simp
    then show ?thesis using False assms by (simp add: providers_ok_def defaults_def)
  qed
  have there: "find_provider j t \<noteq> None \<Longrightarrow> find_provider j (t\<lparr>vt_providers := ?after\<rparr>) \<noteq> None" for j
  proof -
    have "set (map row_id ?after) = insert (pn_id x) (set (map row_id (vt_providers t)))"
      unfolding ids by (simp only: put_row_ids(1)) (simp add: i)
    then show "find_provider j t \<noteq> None \<Longrightarrow> find_provider j (t\<lparr>vt_providers := ?after\<rparr>) \<noteq> None"
      unfolding find_provider_iff by (simp only: set_map) simp
  qed
  show ?thesis
  proof (cases "truthy ?key")
    case False
    then show ?thesis using assms by (simp add: upsert_provider_def Let_def)
  next
    case True
    then have "snd (upsert_provider encrypt sees_all x now t) = t\<lparr>vt_providers := ?after\<rparr>"
      by (simp add: upsert_provider_def Let_def)
    then show ?thesis using assms dist one there unfolding providers_ok_def defaults_def list_all_iff by simp
  qed
qed

lemma remove_provider_ok: "providers_ok t \<Longrightarrow> providers_ok (snd (remove_provider i t))"
proof -
  assume ok: "providers_ok t"
  have fewer: "length (filter P (filter Q xs)) \<le> length (filter P xs)" for P Q and xs :: "provider_row list"
    by (induction xs) auto
  have "length (filter (\<lambda>r. pv_default (rw_provider r)) (filter (\<lambda>r. row_id r \<noteq> i) (vt_providers t))) \<le> length (defaults t)"
    unfolding defaults_def by (rule fewer)
  then show ?thesis using ok
    by (auto simp: providers_ok_def remove_provider_def defaults_def distinct_map_filter list_all_iff find_provider_iff simp del: filter_filter not_None_eq)
qed

lemma set_route_ok: "providers_ok t \<Longrightarrow> providers_ok (snd (set_route m t))"
proof -
  assume ok: "providers_ok t"
  have same: "map mr_agent (map (\<lambda>q. if mr_agent q = mr_agent m then m else q) ms) = map mr_agent ms" for ms
    by (induction ms) auto
  have "route_of (mr_agent m) t = None \<Longrightarrow> mr_agent m \<notin> mr_agent ` set (vt_routes t)"
    by (auto simp: route_of_def find_None_iff)
  then show ?thesis using ok same [of "vt_routes t"]
    by (auto simp: providers_ok_def set_route_def defaults_def list_all_iff find_provider_def simp del: map_map)
qed

lemma clear_route_ok: "providers_ok t \<Longrightarrow> providers_ok (snd (clear_route agent t))"
  by (auto simp: providers_ok_def clear_route_def defaults_def list_all_iff find_provider_def distinct_map_filter)

lemma snd_reply [simp]:
  "snd (case u of (Inl e, t') \<Rightarrow> (f e, t') | (Inr p, t') \<Rightarrow> (g p, t')) = snd u"
  "snd (case v of (removed, t') \<Rightarrow> (h removed, t')) = snd v"
  by (simp_all split: prod.split sum.split)

lemma provider_step_ok:
  assumes "providers_ok t"
  shows "providers_ok (provider_step encrypt (a, op) t)"
proof (cases op)
  case (Put_provider i json now)
  then show ?thesis using assms upsert_ok [OF assms]
    by (simp add: put_provider_def Let_def split: option.split)
next
  case (Delete_provider i)
  then show ?thesis using assms remove_provider_ok [OF assms] by (simp add: delete_provider_def split: option.split)
next
  case (Put_route agent json)
  then show ?thesis using assms set_route_ok [OF assms]
    by (simp add: put_model_route_def Let_def split: option.split)
next
  case (Delete_route agent)
  then show ?thesis using assms clear_route_ok [OF assms] by (simp add: delete_model_route_def split: option.split)
qed

lemma provider_run_ok: "providers_ok t \<Longrightarrow> providers_ok (fold (provider_step encrypt) steps t)"
  by (induction steps arbitrary: t) (auto intro: provider_step_ok)


text \<open>Two providers added at the same time can both be the default. Each transaction clears the rows it can see,
  and neither sees the row the other is adding; the schema says the store enforces that exactly one holds it.\<close>

theorem two_defaults_at_once:
  "let x = (\<lambda>i. \<lparr>pn_id = i, pn_name = i, pn_kind = Anthropic, pn_base = None, pn_model = ''m'', pn_default = Some True, pn_key = Some ''k''\<rparr>);
       empty = \<lparr>vt_agents = [], vt_providers = [], vt_routes = []\<rparr>;
       t = snd (upsert_provider encrypt (\<lambda>i. i \<noteq> ''a'') (x ''b'') 2 (snd (upsert_provider encrypt (\<lambda>i. i \<noteq> ''b'') (x ''a'') 1 empty))) in
   if encrypt ''k'' \<noteq> [] then map row_id (defaults t) = [''a'', ''b''] else True"
  by (simp add: Let_def upsert_provider_def put_row_def stored_provider_def defaults_def)

end
