(* ===== verification/Artifacts.thy ===== *)
theory Artifacts
  imports Roles Js_Number
begin

text \<open>
  The artifact registry (\<^verbatim>\<open>server/src/artifacts/store.ts\<close>, \<^verbatim>\<open>routes.ts\<close>): versioned texts, which coworker
  carries which of them at which version, and what a run of that coworker is given.

  Random ids and the clock are arguments. Of the database the keys and the references between the tables are
  used: an artifact's id and a version of it are there once, a version and an attachment go with their
  artifact, and a version number is a 32-bit integer.
\<close>

section \<open>Tables\<close>

datatype artifact_kind = Instructions | Skill_artifact | Harness_settings | Mcp_config

definition artifact_kind_text :: "artifact_kind \<Rightarrow> string" where
  "artifact_kind_text k = (case k of Instructions \<Rightarrow> ''instructions'' | Skill_artifact \<Rightarrow> ''skill''
     | Harness_settings \<Rightarrow> ''harness_settings'' | Mcp_config \<Rightarrow> ''mcp_config'')"

definition artifact_kinds :: "artifact_kind list" where
  "artifact_kinds = [Instructions, Skill_artifact, Harness_settings, Mcp_config]"

record artifact =
  af_id :: string
  af_kind :: artifact_kind
  af_name :: string
  af_description :: "string option"
  af_latest :: int
  af_updated :: int

record artifact_version =
  vn_artifact :: string
  vn_version :: int
  vn_content :: string
  vn_by :: "string option"
  vn_created :: int

record attachment =
  at_agent :: string
  at_artifact :: string
  at_pinned :: "int option"

record artifact_tables =
  ar_profiles :: "string list"
  ar_artifacts :: "artifact list"
  ar_versions :: "artifact_version list"
  ar_attached :: "attachment list"

definition artifact_row :: "string \<Rightarrow> artifact_tables \<Rightarrow> artifact option" where
  "artifact_row i t = find (\<lambda>a. af_id a = i) (ar_artifacts t)"

definition version_content :: "string \<Rightarrow> int \<Rightarrow> artifact_tables \<Rightarrow> string option" where
  "version_content i v t = map_option vn_content (find (\<lambda>r. vn_artifact r = i \<and> vn_version r = v) (ar_versions t))"

section \<open>The name in an id\<close>

definition slug_letter :: "char \<Rightarrow> bool" where
  "slug_letter c \<longleftrightarrow> (let n = char_code c in 97 \<le> n \<and> n \<le> 122 \<or> 48 \<le> n \<and> n \<le> 57)"

text \<open>\<^verbatim>\<open>replace(/[^a-z0-9]+/g, "-")\<close>: each run of other characters is one hyphen.\<close>

fun hyphened :: "bool \<Rightarrow> string \<Rightarrow> string" where
  "hyphened inside [] = []"
| "hyphened inside (c # cs) =
     (if slug_letter c then c # hyphened False cs
      else if inside then hyphened True cs else CHR ''-'' # hyphened True cs)"

definition strip_hyphens :: "string \<Rightarrow> string" where
  "strip_hyphens s =
     (let hyphen = (\<lambda>c. c = CHR ''-'') in rev (dropWhile hyphen (rev (dropWhile hyphen s))))"

definition artifact_slug :: "string \<Rightarrow> string" where
  "artifact_slug name =
     (let s = take 40 (strip_hyphens (hyphened False (js_lower name))) in if s = [] then ''artifact'' else s)"

section \<open>Operations of the store\<close>

text \<open>Newest change first; the sort of the database keeps no order among equals, which the table's order stands for.\<close>

definition list_artifacts :: "artifact_kind option \<Rightarrow> artifact_tables \<Rightarrow> artifact list" where
  "list_artifacts kind t =
     sort_key (\<lambda>a. - af_updated a) (filter (\<lambda>a. kind = None \<or> kind = Some (af_kind a)) (ar_artifacts t))"

record artifact_content =
  ac_artifact :: artifact
  ac_version :: int
  ac_content :: string

definition get_artifact :: "string \<Rightarrow> int option \<Rightarrow> artifact_tables \<Rightarrow> artifact_content option" where
  "get_artifact i version t =
     (case artifact_row i t of
        None \<Rightarrow> None
      | Some a \<Rightarrow>
          let wanted = (case version of Some v \<Rightarrow> v | None \<Rightarrow> af_latest a) in
          Some \<lparr>ac_artifact = a, ac_version = wanted,
             ac_content = (case version_content i wanted t of Some c \<Rightarrow> c | None \<Rightarrow> [])\<rparr>)"

definition list_versions :: "string \<Rightarrow> artifact_tables \<Rightarrow> (int \<times> int) list" where
  "list_versions i t =
     map (\<lambda>r. (vn_version r, vn_created r))
       (sort_key (\<lambda>r. - vn_version r) (filter (\<lambda>r. vn_artifact r = i) (ar_versions t)))"

definition create_artifact ::
  "string \<Rightarrow> artifact_kind \<Rightarrow> string \<Rightarrow> string option \<Rightarrow> string \<Rightarrow> string option \<Rightarrow> int \<Rightarrow> artifact_tables
     \<Rightarrow> (string + artifact) \<times> artifact_tables" where
  "create_artifact uuid kind name description content who now t =
     (let i = artifact_kind_text kind @ ''-'' @ artifact_slug name @ ''-'' @ take 8 uuid;
          a = \<lparr>af_id = i, af_kind = kind, af_name = name, af_description = description, af_latest = 1, af_updated = now\<rparr> in
      if artifact_row i t \<noteq> None \<or> version_content i 1 t \<noteq> None then (Inl ''duplicate key value violates unique constraint'', t)
      else (Inr a, t\<lparr>ar_artifacts := ar_artifacts t @ [a],
             ar_versions := ar_versions t @ [\<lparr>vn_artifact = i, vn_version = 1, vn_content = content, vn_by = who, vn_created = now\<rparr>]\<rparr>))"

definition artifact_missing :: "string \<Rightarrow> string" where
  "artifact_missing i = ''Artifact '' @ i @ '' was not found.''"

definition update_artifact ::
  "string \<Rightarrow> string \<Rightarrow> string option \<Rightarrow> string option \<Rightarrow> int \<Rightarrow> artifact_tables \<Rightarrow> (string + int) \<times> artifact_tables" where
  "update_artifact i content description who now t =
     (case artifact_row i t of
        None \<Rightarrow> (Inl (artifact_missing i), t)
      | Some a \<Rightarrow>
          let next_version = af_latest a + 1 in
          if version_content i next_version t \<noteq> None then (Inl ''duplicate key value violates unique constraint'', t)
          else (Inr next_version,
            t\<lparr>ar_versions := ar_versions t @
                [\<lparr>vn_artifact = i, vn_version = next_version, vn_content = content, vn_by = who, vn_created = now\<rparr>],
              ar_artifacts := map (\<lambda>b. if af_id b = i
                then b\<lparr>af_latest := next_version, af_updated := now,
                       af_description := (case description of Some d \<Rightarrow> Some d | None \<Rightarrow> af_description b)\<rparr>
                else b) (ar_artifacts t)\<rparr>))"

definition remove_artifact :: "string \<Rightarrow> artifact_tables \<Rightarrow> bool \<times> artifact_tables" where
  "remove_artifact i t =
     (artifact_row i t \<noteq> None,
      if artifact_row i t = None then t
      else t\<lparr>ar_artifacts := filter (\<lambda>a. af_id a \<noteq> i) (ar_artifacts t),
             ar_versions := filter (\<lambda>r. vn_artifact r \<noteq> i) (ar_versions t),
             ar_attached := filter (\<lambda>r. at_artifact r \<noteq> i) (ar_attached t)\<rparr>)"

definition attach_artifact :: "string \<Rightarrow> string \<Rightarrow> int option \<Rightarrow> artifact_tables \<Rightarrow> (string + unit) \<times> artifact_tables" where
  "attach_artifact agent i pinned t =
     (let row = \<lparr>at_agent = agent, at_artifact = i, at_pinned = pinned\<rparr>;
          same = (\<lambda>r. at_agent r = agent \<and> at_artifact r = i) in
      if agent \<notin> set (ar_profiles t) \<or> artifact_row i t = None then (Inl ''violates foreign key constraint'', t)
      else (Inr (), t\<lparr>ar_attached :=
        (if list_ex same (ar_attached t) then map (\<lambda>r. if same r then row else r) (ar_attached t) else ar_attached t @ [row])\<rparr>))"

definition detach_artifact :: "string \<Rightarrow> string \<Rightarrow> artifact_tables \<Rightarrow> bool \<times> artifact_tables" where
  "detach_artifact agent i t =
     (let same = (\<lambda>r. at_agent r = agent \<and> at_artifact r = i) in
      (list_ex same (ar_attached t), t\<lparr>ar_attached := filter (\<lambda>r. \<not> same r) (ar_attached t)\<rparr>))"

text \<open>The join of the attachments of a coworker with their artifacts.\<close>

definition attached_to :: "string \<Rightarrow> artifact_tables \<Rightarrow> (artifact \<times> int option) list" where
  "attached_to agent t =
     concat (map (\<lambda>r. if at_agent r = agent
       then (case artifact_row (at_artifact r) t of Some a \<Rightarrow> [(a, at_pinned r)] | None \<Rightarrow> []) else []) (ar_attached t))"

definition artifacts_for_profile :: "string \<Rightarrow> artifact_tables \<Rightarrow> (artifact \<times> int option) list" where
  "artifacts_for_profile agent t = attached_to agent t"

record resolved_artifact =
  ra_id :: string
  ra_kind :: artifact_kind
  ra_name :: string
  ra_version :: int
  ra_content :: string

definition resolve_for_run :: "string \<Rightarrow> artifact_tables \<Rightarrow> resolved_artifact list" where
  "resolve_for_run agent t =
     map (\<lambda>(a, pinned).
       let version = (case pinned of Some v \<Rightarrow> v | None \<Rightarrow> af_latest a) in
       \<lparr>ra_id = af_id a, ra_kind = af_kind a, ra_name = af_name a, ra_version = version,
        ra_content = (case version_content (af_id a) version t of Some c \<Rightarrow> c | None \<Rightarrow> [])\<rparr>) (attached_to agent t)"

section \<open>Requests\<close>

datatype artifact_reply =
    No_reply int string
  | Listed "artifact list"
  | Shown artifact_content "(int \<times> int) list"
  | Made artifact
  | New_version int
  | Carried "(artifact \<times> int option) list"
  | Ok_reply
  | Fails string

definition kind_named :: "string option \<Rightarrow> artifact_kind option" where
  "kind_named v = (case v of None \<Rightarrow> None | Some s \<Rightarrow> find (\<lambda>k. artifact_kind_text k = s) artifact_kinds)"

definition for_admin :: "actor \<Rightarrow> artifact_tables \<Rightarrow> artifact_reply \<times> artifact_tables \<Rightarrow> artifact_reply \<times> artifact_tables" where
  "for_admin a t reply = (case require_admin a of Some (status, e) \<Rightarrow> (No_reply status e, t) | None \<Rightarrow> reply)"

definition get_artifacts :: "actor \<Rightarrow> string option \<Rightarrow> artifact_tables \<Rightarrow> artifact_reply \<times> artifact_tables" where
  "get_artifacts a kind t = for_admin a t (Listed (list_artifacts (kind_named kind) t), t)"

text \<open>The query of the URL, when there is one, read by \<^verbatim>\<open>Number\<close>; the database takes a 32-bit integer.\<close>

definition show_artifact :: "actor \<Rightarrow> string \<Rightarrow> string option \<Rightarrow> artifact_tables \<Rightarrow> artifact_reply \<times> artifact_tables" where
  "show_artifact a i query t =
     for_admin a t
       (case (case query of None \<Rightarrow> None | Some q \<Rightarrow> js_number q) of
          Some v \<Rightarrow>
            if artifact_row i t = None then (No_reply 404 ''No such artifact.'', t)
            else if of_int \<lfloor>v\<rfloor> \<noteq> v \<or> \<lfloor>v\<rfloor> < - (2 ^ 31) \<or> 2 ^ 31 \<le> \<lfloor>v\<rfloor> then (Fails ''invalid input syntax for type integer'', t)
            else (Shown (the (get_artifact i (Some \<lfloor>v\<rfloor>) t)) (list_versions i t), t)
        | None \<Rightarrow>
            (case get_artifact i None t of
               None \<Rightarrow> (No_reply 404 ''No such artifact.'', t)
             | Some c \<Rightarrow> (Shown c (list_versions i t), t)))"

definition post_artifact :: "actor \<Rightarrow> jsv option \<Rightarrow> string \<Rightarrow> int \<Rightarrow> artifact_tables \<Rightarrow> artifact_reply \<times> artifact_tables" where
  "post_artifact a json uuid now t =
     (let body = (case json of Some j \<Rightarrow> j | None \<Rightarrow> JNull);
          name = (case js_string_field body ''name'' of Some n \<Rightarrow> js_trim n | None \<Rightarrow> []) in
      for_admin a t
       (case kind_named (js_string_field body ''kind'') of
          None \<Rightarrow> (No_reply 400 ''kind must be one of: instructions, skill, harness_settings, mcp_config.'', t)
        | Some kind \<Rightarrow>
            if name = [] then (No_reply 400 ''name is required.'', t)
            else (case js_string_field body ''content'' of
                None \<Rightarrow> (No_reply 400 ''content is required.'', t)
              | Some content \<Rightarrow>
                  (case create_artifact uuid kind name (js_string_field body ''description'') content (Some (su_id (ac_user a))) now t of
                     (Inl e, t') \<Rightarrow> (Fails e, t')
                   | (Inr made, t') \<Rightarrow> (Made made, t')))))"

text \<open>Whatever the store throws is answered the same.\<close>

definition post_version :: "actor \<Rightarrow> string \<Rightarrow> jsv option \<Rightarrow> int \<Rightarrow> artifact_tables \<Rightarrow> artifact_reply \<times> artifact_tables" where
  "post_version a i json now t =
     (let body = (case json of Some j \<Rightarrow> j | None \<Rightarrow> JNull) in
      for_admin a t
       (case js_string_field body ''content'' of
          None \<Rightarrow> (No_reply 400 ''content is required.'', t)
        | Some content \<Rightarrow>
            (case update_artifact i content (js_string_field body ''description'') (Some (su_id (ac_user a))) now t of
               (Inl e, t') \<Rightarrow> (No_reply 404 ''No such artifact.'', t')
             | (Inr v, t') \<Rightarrow> (New_version v, t'))))"

definition delete_artifact :: "actor \<Rightarrow> string \<Rightarrow> artifact_tables \<Rightarrow> artifact_reply \<times> artifact_tables" where
  "delete_artifact a i t =
     for_admin a t (case remove_artifact i t of (removed, t') \<Rightarrow> (if removed then Ok_reply else No_reply 404 ''No such artifact.'', t'))"

definition get_carried :: "actor \<Rightarrow> string \<Rightarrow> artifact_tables \<Rightarrow> artifact_reply \<times> artifact_tables" where
  "get_carried a agent t = for_admin a t (Carried (artifacts_for_profile agent t), t)"

definition post_attachment :: "actor \<Rightarrow> string \<Rightarrow> jsv option \<Rightarrow> artifact_tables \<Rightarrow> artifact_reply \<times> artifact_tables" where
  "post_attachment a agent json t =
     (let body = (case json of Some j \<Rightarrow> j | None \<Rightarrow> JNull) in
      for_admin a t
       (case js_string_field body ''artifactId'' of
          None \<Rightarrow> (No_reply 400 ''artifactId is required.'', t)
        | Some i \<Rightarrow>
            (case attach_artifact agent i (case js_field body ''pinnedVersion'' of Some (JNum n) \<Rightarrow> Some n | _ \<Rightarrow> None) t of
               (Inl e, t') \<Rightarrow> (Fails e, t')
             | (Inr u, t') \<Rightarrow> (Ok_reply, t'))))"

definition delete_attachment :: "actor \<Rightarrow> string \<Rightarrow> string \<Rightarrow> artifact_tables \<Rightarrow> artifact_reply \<times> artifact_tables" where
  "delete_attachment a agent i t =
     for_admin a t (case detach_artifact agent i t of (removed, t') \<Rightarrow> (if removed then Ok_reply else No_reply 404 ''Not attached.'', t'))"

datatype artifact_op =
    Post_artifact "jsv option" string int
  | Post_version string "jsv option" int
  | Delete_artifact string
  | Post_attachment string "jsv option"
  | Delete_attachment string string

fun artifact_step :: "actor \<times> artifact_op \<Rightarrow> artifact_tables \<Rightarrow> artifact_tables" where
  "artifact_step (a, Post_artifact json uuid now) t = snd (post_artifact a json uuid now t)"
| "artifact_step (a, Post_version i json now) t = snd (post_version a i json now t)"
| "artifact_step (a, Delete_artifact i) t = snd (delete_artifact a i t)"
| "artifact_step (a, Post_attachment agent json) t = snd (post_attachment a agent json t)"
| "artifact_step (a, Delete_attachment agent i) t = snd (delete_attachment a agent i t)"

section \<open>Nothing is overwritten\<close>

text \<open>An artifact is there once, every version from one to its latest is there, and no other.\<close>

definition artifacts_ok :: "artifact_tables \<Rightarrow> bool" where
  "artifacts_ok t \<longleftrightarrow>
     distinct (map af_id (ar_artifacts t)) \<and> list_all (\<lambda>a. 1 \<le> af_latest a) (ar_artifacts t)
     \<and> (\<forall>i v. version_content i v t \<noteq> None \<longleftrightarrow> (case artifact_row i t of None \<Rightarrow> False | Some a \<Rightarrow> 1 \<le> v \<and> v \<le> af_latest a))"

text \<open>What an operation does to the rows of one artifact: nothing, another version, or all of them away.\<close>

definition keeps_versions :: "string \<Rightarrow> artifact_tables \<Rightarrow> artifact_tables \<Rightarrow> bool" where
  "keeps_versions i t t' \<longleftrightarrow> (\<forall>v c. version_content i v t = Some c \<longrightarrow> version_content i v t' = Some c)"

lemma keeps_versions_refl [simp]: "keeps_versions i t t"
  by (simp add: keeps_versions_def)

lemma keeps_versions_trans: "keeps_versions i t u \<Longrightarrow> keeps_versions i u v \<Longrightarrow> keeps_versions i t v"
  by (simp add: keeps_versions_def)

lemma find_append: "find P (xs @ ys) = (case find P xs of None \<Rightarrow> find P ys | Some x \<Rightarrow> Some x)"
  by (induction xs) simp_all

lemma version_content_added:
  "version_content i v (t\<lparr>ar_versions := ar_versions t @ [r], ar_artifacts := as\<rparr>) =
     (case version_content i v t of Some c \<Rightarrow> Some c
      | None \<Rightarrow> if vn_artifact r = i \<and> vn_version r = v then Some (vn_content r) else None)"
  by (simp add: version_content_def find_append split: option.split)

lemma version_content_attached [simp]: "version_content i v (t\<lparr>ar_attached := x\<rparr>) = version_content i v t"
  by (simp add: version_content_def)

lemma artifact_row_attached [simp]: "artifact_row i (t\<lparr>ar_attached := x\<rparr>) = artifact_row i t"
  by (simp add: artifact_row_def)

lemma attached_ok [simp]: "artifacts_ok (t\<lparr>ar_attached := x\<rparr>) = artifacts_ok t"
  by (simp add: artifacts_ok_def)

lemma find_map_other: "(\<And>x. P (f x) = P x) \<Longrightarrow> find P (map f xs) = map_option f (find P xs)"
  by (induction xs) simp_all

lemma artifact_versions: "artifacts_ok t \<Longrightarrow>
    (version_content i v t \<noteq> None) = (case artifact_row i t of None \<Rightarrow> False | Some a \<Rightarrow> 1 \<le> v \<and> v \<le> af_latest a)"
  unfolding artifacts_ok_def by blast

lemma artifact_row_added:
  "artifact_row j (t\<lparr>ar_versions := vs, ar_artifacts := ar_artifacts t @ [a]\<rparr>) =
     (case artifact_row j t of Some b \<Rightarrow> Some b | None \<Rightarrow> if af_id a = j then Some a else None)"
  by (simp add: artifact_row_def find_append split: option.split)

lemma first_version_ok:
  assumes "artifacts_ok t" "artifact_row i t = None" "af_id a = i" "af_latest a = 1" "vn_artifact r = i" "vn_version r = 1"
  shows "artifacts_ok (t\<lparr>ar_versions := ar_versions t @ [r], ar_artifacts := ar_artifacts t @ [a]\<rparr>)"
  unfolding artifacts_ok_def
proof (intro conjI allI)
  show "distinct (map af_id (ar_artifacts (t\<lparr>ar_versions := ar_versions t @ [r], ar_artifacts := ar_artifacts t @ [a]\<rparr>)))"
    using assms(1-3) by (auto simp: artifacts_ok_def artifact_row_def find_None_iff)
  show "list_all (\<lambda>a. 1 \<le> af_latest a) (ar_artifacts (t\<lparr>ar_versions := ar_versions t @ [r], ar_artifacts := ar_artifacts t @ [a]\<rparr>))"
    using assms(1,4) by (simp add: artifacts_ok_def)
  fix j v
  have none: "version_content i v t = None" using artifact_versions [OF assms(1), of i v] assms(2) by simp
  show "(version_content j v (t\<lparr>ar_versions := ar_versions t @ [r], ar_artifacts := ar_artifacts t @ [a]\<rparr>) \<noteq> None) =
      (case artifact_row j (t\<lparr>ar_versions := ar_versions t @ [r], ar_artifacts := ar_artifacts t @ [a]\<rparr>) of
         None \<Rightarrow> False | Some a \<Rightarrow> 1 \<le> v \<and> v \<le> af_latest a)"
    using none assms(2-6) artifact_versions [OF assms(1), of j v]
    unfolding artifact_row_added version_content_added
    by (cases "j = i"; cases "artifact_row j t"; cases "version_content j v t") auto
qed

lemma create_ok:
  assumes "artifacts_ok t"
  shows "artifacts_ok (snd (create_artifact uuid kind name d content who now t))"
    "keeps_versions i t (snd (create_artifact uuid kind name d content who now t))"
proof -
  let ?i = "artifact_kind_text kind @ ''-'' @ artifact_slug name @ ''-'' @ take 8 uuid"
  let ?a = "\<lparr>af_id = ?i, af_kind = kind, af_name = name, af_description = d, af_latest = 1, af_updated = now\<rparr>"
  let ?r = "\<lparr>vn_artifact = ?i, vn_version = 1, vn_content = content, vn_by = who, vn_created = now\<rparr>"
  let ?t = "t\<lparr>ar_versions := ar_versions t @ [?r], ar_artifacts := ar_artifacts t @ [?a]\<rparr>"
  have "snd (create_artifact uuid kind name d content who now t) = (if artifact_row ?i t \<noteq> None \<or> version_content ?i 1 t \<noteq> None then t else ?t)"
    by (simp add: create_artifact_def Let_def)
  moreover have "artifact_row ?i t = None \<Longrightarrow> artifacts_ok ?t" by (rule first_version_ok [OF assms]) simp_all
  moreover have "keeps_versions i t ?t" unfolding keeps_versions_def version_content_added by simp
  ultimately show "artifacts_ok (snd (create_artifact uuid kind name d content who now t))"
    "keeps_versions i t (snd (create_artifact uuid kind name d content who now t))"
    using assms by (simp_all split: if_split)
qed

lemma artifact_row_mapped:
  "(\<And>a. af_id (f a) = af_id a) \<Longrightarrow> artifact_row j (t\<lparr>ar_versions := vs, ar_artifacts := map f (ar_artifacts t)\<rparr>) = map_option f (artifact_row j t)"
  by (simp add: artifact_row_def find_map_other)

lemma next_version_ok:
  assumes "artifacts_ok t" "artifact_row i t = Some a" "vn_artifact r = i" "vn_version r = af_latest a + 1"
    and f: "\<And>b. af_id (f b) = af_id b" "\<And>b. af_latest (f b) = (if af_id b = i then af_latest a + 1 else af_latest b)"
  shows "artifacts_ok (t\<lparr>ar_versions := ar_versions t @ [r], ar_artifacts := map f (ar_artifacts t)\<rparr>)"
  unfolding artifacts_ok_def
proof (intro conjI allI)
  have "map af_id (map f (ar_artifacts t)) = map af_id (ar_artifacts t)" using f(1) by simp
  then show "distinct (map af_id (ar_artifacts (t\<lparr>ar_versions := ar_versions t @ [r], ar_artifacts := map f (ar_artifacts t)\<rparr>)))"
    using assms(1) by (simp add: artifacts_ok_def del: map_map)
  have "1 \<le> af_latest a" using assms(1,2) by (auto simp: artifacts_ok_def artifact_row_def find_Some_iff list_all_length)
  then show "list_all (\<lambda>a. 1 \<le> af_latest a) (ar_artifacts (t\<lparr>ar_versions := ar_versions t @ [r], ar_artifacts := map f (ar_artifacts t)\<rparr>))"
    using assms(1) f(2) by (simp add: artifacts_ok_def list_all_iff)
  fix j v
  have ids: "artifact_row j t = Some b \<Longrightarrow> af_id b = j" for b by (auto simp: artifact_row_def find_Some_iff)
  show "(version_content j v (t\<lparr>ar_versions := ar_versions t @ [r], ar_artifacts := map f (ar_artifacts t)\<rparr>) \<noteq> None) =
      (case artifact_row j (t\<lparr>ar_versions := ar_versions t @ [r], ar_artifacts := map f (ar_artifacts t)\<rparr>) of
         None \<Rightarrow> False | Some a \<Rightarrow> 1 \<le> v \<and> v \<le> af_latest a)"
    using assms(2-4) f(2) ids \<open>1 \<le> af_latest a\<close> artifact_versions [OF assms(1), of j v]
    unfolding artifact_row_mapped [OF f(1)] version_content_added
    by (cases "artifact_row j t"; cases "version_content j v t") auto
qed

lemma update_ok:
  assumes "artifacts_ok t"
  shows "artifacts_ok (snd (update_artifact i content d who now t))"
    "keeps_versions j t (snd (update_artifact i content d who now t))"
proof -
  have "artifacts_ok (snd (update_artifact i content d who now t)) \<and> keeps_versions j t (snd (update_artifact i content d who now t))"
  proof (cases "artifact_row i t")
    case None
    then show ?thesis using assms by (simp add: update_artifact_def)
  next
    case (Some a)
    let ?r = "\<lparr>vn_artifact = i, vn_version = af_latest a + 1, vn_content = content, vn_by = who, vn_created = now\<rparr>"
    let ?f = "\<lambda>b. if af_id b = i then b\<lparr>af_latest := af_latest a + 1, af_updated := now,
        af_description := (case d of Some d \<Rightarrow> Some d | None \<Rightarrow> af_description b)\<rparr> else b"
    let ?t = "t\<lparr>ar_versions := ar_versions t @ [?r], ar_artifacts := map ?f (ar_artifacts t)\<rparr>"
    have "snd (update_artifact i content d who now t) = (if version_content i (af_latest a + 1) t \<noteq> None then t else ?t)"
      using Some by (simp add: update_artifact_def Let_def)
    moreover have "artifacts_ok ?t" by (rule next_version_ok [OF assms Some]) simp_all
    moreover have "keeps_versions j t ?t" unfolding keeps_versions_def version_content_added by simp
    ultimately show ?thesis using assms by simp
  qed
  then show "artifacts_ok (snd (update_artifact i content d who now t))"
    "keeps_versions j t (snd (update_artifact i content d who now t))" by blast+
qed

lemma find_filter: "(\<And>x. P x \<Longrightarrow> Q x) \<Longrightarrow> find P (filter Q xs) = find P xs"
  by (induction xs) auto

lemma find_filter_none: "(\<And>x. P x \<Longrightarrow> \<not> Q x) \<Longrightarrow> find P (filter Q xs) = None"
  by (induction xs) auto

lemma remove_artifact_ok:
  assumes "artifacts_ok t"
  shows "artifacts_ok (snd (remove_artifact i t))" "j \<noteq> i \<Longrightarrow> keeps_versions j t (snd (remove_artifact i t))"
proof -
  let ?t = "t\<lparr>ar_artifacts := filter (\<lambda>a. af_id a \<noteq> i) (ar_artifacts t),
             ar_versions := filter (\<lambda>r. vn_artifact r \<noteq> i) (ar_versions t),
             ar_attached := filter (\<lambda>r. at_artifact r \<noteq> i) (ar_attached t)\<rparr>"
  have row: "artifact_row j ?t = (if j = i then None else artifact_row j t)" for j
    by (auto simp: artifact_row_def intro!: find_filter find_filter_none)
  have content: "version_content j v ?t = (if j = i then None else version_content j v t)" for j v
    by (auto simp: version_content_def intro!: find_filter find_filter_none arg_cong [where f = "map_option vn_content"])
  have "artifacts_ok ?t" using assms unfolding artifacts_ok_def row content
    by (simp add: distinct_map_filter list_all_iff)
  then show "artifacts_ok (snd (remove_artifact i t))" using assms by (simp add: remove_artifact_def)
  have "j \<noteq> i \<Longrightarrow> keeps_versions j t ?t" unfolding keeps_versions_def content by simp
  then show "j \<noteq> i \<Longrightarrow> keeps_versions j t (snd (remove_artifact i t))" by (simp add: remove_artifact_def)
qed

lemma snd_for_admin: "snd (for_admin a t reply) = (if ac_role a = Admin_role then snd reply else t)"
  by (simp add: for_admin_def require_admin_def)

lemma snd_answer [simp]:
  "snd (case u of (Inl e, t') \<Rightarrow> (f e, t') | (Inr p, t') \<Rightarrow> (g p, t')) = snd u"
  "snd (case v of (removed, t') \<Rightarrow> (h removed, t')) = snd v"
  by (simp_all split: prod.split sum.split)

lemma attach_ok: "artifacts_ok t \<Longrightarrow> artifacts_ok (snd (attach_artifact agent i p t)) \<and> keeps_versions j t (snd (attach_artifact agent i p t))"
  by (simp add: attach_artifact_def Let_def keeps_versions_def)

lemma detach_ok: "artifacts_ok t \<Longrightarrow> artifacts_ok (snd (detach_artifact agent i t)) \<and> keeps_versions j t (snd (detach_artifact agent i t))"
  by (simp add: detach_artifact_def Let_def keeps_versions_def)

lemma attached_row:
  assumes "(a, p) \<in> set (attached_to agent t)"
  shows "\<exists>r \<in> set (ar_attached t). artifact_row (at_artifact r) t = Some a \<and> at_pinned r = p \<and> at_agent r = agent"
proof -
  from assms have "(a, p) \<in> (\<Union>r \<in> set (ar_attached t). set (if at_agent r = agent
      then (case artifact_row (at_artifact r) t of Some a \<Rightarrow> [(a, at_pinned r)] | None \<Rightarrow> []) else []))"
    unfolding attached_to_def set_concat set_map image_image .
  then obtain r where r: "r \<in> set (ar_attached t)" "(a, p) \<in> set (if at_agent r = agent
      then (case artifact_row (at_artifact r) t of Some a \<Rightarrow> [(a, at_pinned r)] | None \<Rightarrow> []) else [])"
    by (rule UN_E)
  show ?thesis
  proof (cases "at_agent r = agent \<and> artifact_row (at_artifact r) t \<noteq> None")
    case True
    then obtain b where "artifact_row (at_artifact r) t = Some b" by blast
    then show ?thesis using r True by (intro bexI [of _ r]) simp_all
  next
    case False
    then have "(if at_agent r = agent then (case artifact_row (at_artifact r) t of Some a \<Rightarrow> [(a, at_pinned r)] | None \<Rightarrow> []) else []) = []"
      by (cases "artifact_row (at_artifact r) t") simp_all
    then show ?thesis using r(2) by simp
  qed
qed

definition removes :: "string \<Rightarrow> actor \<times> artifact_op \<Rightarrow> bool" where
  "removes i e \<longleftrightarrow> snd e = Delete_artifact i"

lemma artifact_step_ok:
  assumes "artifacts_ok t"
  shows "artifacts_ok (artifact_step e t) \<and> (removes j e \<or> keeps_versions j t (artifact_step e t))"
proof -
  obtain a op where e: "e = (a, op)" by (cases e)
  show ?thesis
  proof (cases op)
    case (Post_artifact json uuid now)
    then show ?thesis using assms create_ok [OF assms] by (simp add: e post_artifact_def Let_def snd_for_admin split: option.split)
  next
    case (Post_version i json now)
    then show ?thesis using assms update_ok [OF assms] by (simp add: e post_version_def Let_def snd_for_admin split: option.split)
  next
    case (Delete_artifact i)
    then show ?thesis using assms remove_artifact_ok(1) [OF assms, of i] remove_artifact_ok(2) [OF assms, of j i]
      by (cases "j = i") (simp_all add: e delete_artifact_def snd_for_admin removes_def)
  next
    case (Post_attachment agent json)
    then show ?thesis using assms attach_ok [OF assms] by (simp add: e post_attachment_def Let_def snd_for_admin split: option.split)
  next
    case (Delete_attachment agent i)
    then show ?thesis using assms detach_ok [OF assms] by (simp add: e delete_attachment_def snd_for_admin)
  qed
qed

lemma artifact_run_ok:
  "artifacts_ok t \<Longrightarrow> artifacts_ok (fold artifact_step steps t)
     \<and> (list_all (\<lambda>e. \<not> removes i e) steps \<longrightarrow> keeps_versions i t (fold artifact_step steps t))"
proof (induction steps arbitrary: t)
  case (Cons e steps)
  have "artifacts_ok (artifact_step e t)" "removes i e \<or> keeps_versions i t (artifact_step e t)"
    using artifact_step_ok [OF Cons.prems] by blast+
  with Cons.IH [of "artifact_step e t"] show ?case by (auto intro: keeps_versions_trans)
qed simp


text \<open>A version that is not there can be pinned. Nothing compares the number with those the artifact has, so the
  coworker's run is given an empty text under that version, which is not an error anywhere.\<close>

theorem pin_to_nothing_is_empty:
  "let a = \<lparr>af_id = ''i'', af_kind = Instructions, af_name = ''n'', af_description = None, af_latest = 1, af_updated = 0\<rparr>;
       t = \<lparr>ar_profiles = [''bot''], ar_artifacts = [a],
         ar_versions = [\<lparr>vn_artifact = ''i'', vn_version = 1, vn_content = ''text'', vn_by = None, vn_created = 0\<rparr>], ar_attached = []\<rparr>;
       admin = \<lparr>ac_user = \<lparr>su_id = ''u'', su_email = ''u'', su_name = None, su_image = None\<rparr>, ac_role = Admin_role\<rparr> in
   case post_attachment admin ''bot'' (Some (JObj [(''artifactId'', JStr ''i''), (''pinnedVersion'', JNum 7)])) t of
     (reply, t') \<Rightarrow> reply = Ok_reply \<and> map (\<lambda>r. (ra_version r, ra_content r)) (resolve_for_run ''bot'' t') = [(7, [])]"
  by code_simp

end
