(* ===== verification/Settings.thy ===== *)
theory Settings
  imports Policy_Store Target Js_Number Credentials
begin

text \<open>
  The configuration of a deployment (\<^verbatim>\<open>server/src/config.ts\<close>, \<^verbatim>\<open>auth/dev-actor.ts\<close>): what the server reads from
  its environment at start, what it refuses to start with, and where it listens.

  The environment is a map. The URL parser, \<^verbatim>\<open>JSON.parse\<close> and what the keychain of the machine answers are
  arguments. An error is the message that is thrown, and the first one in the order the code reads.
\<close>

section \<open>Reading variables\<close>

type_synonym environment = "string \<Rightarrow> string option"

fun on_success :: "'e + 'a \<Rightarrow> ('a \<Rightarrow> 'e + 'b) \<Rightarrow> 'e + 'b" where
  "on_success (Inl e) f = Inl e"
| "on_success (Inr a) f = f a"

lemma on_success_Inr [simp]: "on_success m f = Inr b \<longleftrightarrow> (\<exists>a. m = Inr a \<and> f a = Inr b)"
  by (cases m) simp_all

definition optional :: "environment \<Rightarrow> string \<Rightarrow> string option" where
  "optional env name =
     (case env name of None \<Rightarrow> None | Some v \<Rightarrow> if js_trim v = [] then None else Some (js_trim v))"

definition required :: "environment \<Rightarrow> string \<Rightarrow> string + string" where
  "required env name = (case optional env name of Some v \<Rightarrow> Inr v | None \<Rightarrow> Inl (name @ '' must be configured''))"

definition url_setting :: "url_parser \<Rightarrow> environment \<Rightarrow> string \<Rightarrow> string + string option" where
  "url_setting parse_url env name =
     (case optional env name of
        None \<Rightarrow> Inr None
      | Some v \<Rightarrow> if parse_url v = None then Inl (name @ '' must be a valid URL'') else Inr (Some v))"

definition optional_http_url :: "url_parser \<Rightarrow> environment \<Rightarrow> string \<Rightarrow> string + url option" where
  "optional_http_url parse_url env name =
     (case optional env name of
        None \<Rightarrow> Inr None
      | Some v \<Rightarrow>
          (case parse_url v of
             None \<Rightarrow> Inl (name @ '' must be a valid HTTP(S) URL'')
           | Some u \<Rightarrow>
               if url_protocol u \<noteq> ''http:'' \<and> url_protocol u \<noteq> ''https:''
               then Inl (name @ '' must be a valid HTTP(S) URL'') else Inr (Some u)))"

definition comma_separated :: "environment \<Rightarrow> string \<Rightarrow> string list" where
  "comma_separated env name =
     filter (\<lambda>s. s \<noteq> []) (map js_trim (split_on CHR '','' (case optional env name of Some v \<Rightarrow> v | None \<Rightarrow> [])))"

definition without_final_slashes :: "string \<Rightarrow> string" where
  "without_final_slashes s = rev (dropWhile (\<lambda>c. c = CHR ''/'') (rev s))"

section \<open>The key secrets are kept under\<close>

definition placeholder_key :: string where
  "placeholder_key = replicate 43 (CHR ''A'') @ ''=''"

definition chosen_key :: "string option \<Rightarrow> environment \<Rightarrow> string + string" where
  "chosen_key keychain env =
     (let from_env = (case env ''KEY_ENCRYPTION_KEY'' of Some v \<Rightarrow> js_trim v | None \<Rightarrow> []) in
      if from_env \<noteq> [] \<and> from_env \<noteq> placeholder_key then Inr from_env
      else if truthy keychain then Inr (the keychain)
      else if from_env \<noteq> [] then Inr from_env
      else required env ''KEY_ENCRYPTION_KEY'')"

definition key_encryption_key :: "string option \<Rightarrow> environment \<Rightarrow> string + string" where
  "key_encryption_key keychain env =
     on_success (chosen_key keychain env) (\<lambda>v.
       let decoded = b64url_decode v in
       if length decoded \<noteq> 32 \<or> b64 decoded \<noteq> v then Inl ''KEY_ENCRYPTION_KEY must be a base64-encoded 32-byte key''
       else if v = placeholder_key \<and> env ''NODE_ENV'' = Some ''production''
       then Inl ''KEY_ENCRYPTION_KEY is still the example key from .env.example, which is public. Generate one with: openssl rand -base64 32''
       else Inr v)"

section \<open>Signing in\<close>

record sign_in_client =
  sc_id :: string
  sc_secret :: string

datatype auth_provider = Google | Microsoft | Okta

definition oauth_client_setting :: "environment \<Rightarrow> string \<Rightarrow> string + sign_in_client option" where
  "oauth_client_setting env provider =
     (let client_id = optional env (provider @ ''_OAUTH_CLIENT_ID''); client_secret = optional env (provider @ ''_OAUTH_CLIENT_SECRET'') in
      if (client_id = None) \<noteq> (client_secret = None)
      then Inl (provider @ ''_OAUTH_CLIENT_ID and '' @ provider @ ''_OAUTH_CLIENT_SECRET must be set together'')
      else (case (client_id, client_secret) of
              (Some i, Some s) \<Rightarrow> Inr (Some \<lparr>sc_id = i, sc_secret = s\<rparr>)
            | _ \<Rightarrow> Inr None))"

definition microsoft_auth :: "environment \<Rightarrow> string + (sign_in_client \<times> string) option" where
  "microsoft_auth env =
     on_success (oauth_client_setting env ''MICROSOFT'') (\<lambda>client.
       case client of
         None \<Rightarrow> Inr None
       | Some c \<Rightarrow> Inr (Some (c, case optional env ''MICROSOFT_OAUTH_TENANT_ID'' of Some t \<Rightarrow> t | None \<Rightarrow> ''common'')))"

definition okta_auth :: "url_parser \<Rightarrow> environment \<Rightarrow> string + (sign_in_client \<times> string) option" where
  "okta_auth parse_url env =
     on_success (oauth_client_setting env ''OKTA'') (\<lambda>client.
     on_success (url_setting parse_url env ''OKTA_OAUTH_ISSUER'') (\<lambda>issuer.
       case (client, issuer) of
         (None, Some i) \<Rightarrow> Inl ''OKTA_OAUTH_ISSUER is set but OKTA_OAUTH_CLIENT_ID and OKTA_OAUTH_CLIENT_SECRET are not''
       | (None, None) \<Rightarrow> Inr None
       | (Some c, None) \<Rightarrow> Inl ''Okta sign-in requires OKTA_OAUTH_ISSUER, such as https://example.okta.com/oauth2/default''
       | (Some c, Some i) \<Rightarrow> Inr (Some (c, i))))"

record auth_config =
  au_base :: string
  au_secret :: string
  au_origins :: "string list"
  au_admins :: "string list"
  au_google :: "sign_in_client option"
  au_microsoft :: "(sign_in_client \<times> string) option"
  au_okta :: "(sign_in_client \<times> string) option"

definition checked_auth ::
  "environment \<Rightarrow> string option \<Rightarrow> sign_in_client option \<Rightarrow> (sign_in_client \<times> string) option \<Rightarrow> (sign_in_client \<times> string) option
     \<Rightarrow> string + auth_config option" where
  "checked_auth env base google microsoft okta =
     (let secret = optional env ''BETTER_AUTH_SECRET'' in
      if google = None \<and> microsoft = None \<and> okta = None then
        (if secret \<noteq> None \<or> base \<noteq> None
         then Inl ''BETTER_AUTH_SECRET or BETTER_AUTH_URL is set but no identity provider is. Configure GOOGLE_OAUTH_*, MICROSOFT_OAUTH_* or OKTA_OAUTH_*, or unset both''
         else Inr None)
      else (case secret of
        None \<Rightarrow> Inl ''Sign-in requires BETTER_AUTH_SECRET''
      | Some s \<Rightarrow>
          if length s < 32 then Inl ''BETTER_AUTH_SECRET must be at least 32 characters''
          else (case base of
            None \<Rightarrow> Inl ''Sign-in requires BETTER_AUTH_URL''
          | Some b \<Rightarrow>
              let admins = comma_separated env ''INITIAL_ADMIN_EMAILS''; origins = comma_separated env ''TRUSTED_ORIGINS'' in
              if admins = [] then Inl ''Sign-in requires INITIAL_ADMIN_EMAILS naming at least one administrator. Nothing else grants the role, and no screen can promote somebody once the deployment is running''
              else Inr (Some \<lparr>au_base = b, au_secret = s,
                 au_origins = (if origins \<noteq> [] then origins else [''http://localhost:3000'']), au_admins = admins,
                 au_google = google, au_microsoft = microsoft, au_okta = okta\<rparr>))))"

definition read_auth_config :: "url_parser \<Rightarrow> environment \<Rightarrow> sign_in_client option \<Rightarrow> string + auth_config option" where
  "read_auth_config parse_url env google =
     on_success (microsoft_auth env) (\<lambda>microsoft.
     on_success (okta_auth parse_url env) (\<lambda>okta.
     on_success (url_setting parse_url env ''BETTER_AUTH_URL'') (\<lambda>base.
       checked_auth env base google microsoft okta)))"

definition configured_auth_providers :: "auth_config option \<Rightarrow> auth_provider list" where
  "configured_auth_providers auth =
     (case auth of
        None \<Rightarrow> []
      | Some a \<Rightarrow> (if au_google a \<noteq> None then [Google] else []) @ (if au_microsoft a \<noteq> None then [Microsoft] else [])
          @ (if au_okta a \<noteq> None then [Okta] else []))"

definition asked_single_user :: "environment \<Rightarrow> bool" where
  "asked_single_user env \<longleftrightarrow>
     map_option js_trim (env ''OPENBOT_SINGLE_USER'') = Some ''true'' \<or> map_option js_trim (env ''OPENBOT_DEV_NO_AUTH'') = Some ''true''"

definition single_user_enabled :: "environment \<Rightarrow> bool \<Rightarrow> string + bool" where
  "single_user_enabled env has_provider =
     (if has_provider then Inr False
      else if asked_single_user env then Inr True
      else Inl ''No identity provider is configured. Set GOOGLE_OAUTH_*, MICROSOFT_OAUTH_* or OKTA_OAUTH_* with BETTER_AUTH_SECRET and BETTER_AUTH_URL, or set OPENBOT_SINGLE_USER=true to run with one administrator and no sign-in. Refusing to start rather than serving a deployment where every visitor is an administrator.'')"

section \<open>Bots, computers and limits\<close>

definition managed_agent_config :: "url_parser \<Rightarrow> environment \<Rightarrow> string + (url \<times> string) option" where
  "managed_agent_config parse_url env =
     on_success (optional_http_url parse_url env ''MANAGED_AGENT_AG_UI_URL'') (\<lambda>endpoint.
       case (endpoint, optional env ''MANAGED_AGENT_TOKEN'') of
         (Some u, None) \<Rightarrow> Inl ''MANAGED_AGENT_TOKEN must be set when MANAGED_AGENT_AG_UI_URL is set''
       | (Some u, Some t) \<Rightarrow> Inr (Some (u, t))
       | _ \<Rightarrow> Inr None)"

definition action_policy_setting :: "(string \<Rightarrow> string + jsv) \<Rightarrow> environment \<Rightarrow> string + action_policy option" where
  "action_policy_setting parse_json env =
     (case optional env ''AGENT_COMPUTER_POLICY'' of
        None \<Rightarrow> Inr None
      | Some raw \<Rightarrow>
          (case parse_json raw of
             Inl e \<Rightarrow> Inl ''AGENT_COMPUTER_POLICY must be valid JSON''
           | Inr v \<Rightarrow>
               (case parse_action_policy v of
                  Inl e \<Rightarrow> Inl (''AGENT_COMPUTER_POLICY is invalid: '' @ e)
                | Inr p \<Rightarrow> Inr (Some p))))"

datatype computer_provider = Docker | Shared

record computer_config =
  cc_provider :: computer_provider
  cc_base :: string
  cc_supervisor_token :: "string option"
  cc_token :: "string option"
  cc_private_hosts :: bool
  cc_policy :: "action_policy option"

definition read_computer_config :: "url_parser \<Rightarrow> (string \<Rightarrow> string + jsv) \<Rightarrow> environment \<Rightarrow> string + computer_config option" where
  "read_computer_config parse_url parse_json env =
     (if optional env ''COMPUTER_SUPERVISOR_URL'' = None \<and> optional env ''AGENT_COMPUTER_URL'' = None then Inr None
      else
        let token = optional env ''COMPUTER_TOKEN'';
            private = (optional env ''AGENT_COMPUTER_ALLOW_PRIVATE_HOSTS'' = Some ''true'') in
        on_success (action_policy_setting parse_json env) (\<lambda>policy.
        on_success (url_setting parse_url env ''COMPUTER_SUPERVISOR_URL'') (\<lambda>supervisor.
          case supervisor of
            Some u \<Rightarrow>
              Inr (Some \<lparr>cc_provider = Docker, cc_base = u, cc_supervisor_token = optional env ''SUPERVISOR_TOKEN'',
                cc_token = token, cc_private_hosts = private, cc_policy = policy\<rparr>)
          | None \<Rightarrow>
              on_success (url_setting parse_url env ''AGENT_COMPUTER_URL'') (\<lambda>shared.
                case shared of
                  None \<Rightarrow> Inr None
                | Some u \<Rightarrow>
                    Inr (Some \<lparr>cc_provider = Shared, cc_base = u, cc_supervisor_token = None,
                      cc_token = token, cc_private_hosts = private, cc_policy = policy\<rparr>)))))"

definition accessibility_enabled :: "environment \<Rightarrow> bool" where
  "accessibility_enabled env =
     (let off = optional env ''OPENBOT_ACCESSIBILITY_DISABLED'' in off \<noteq> Some ''true'' \<and> off \<noteq> Some ''1'')"

definition audit_retention_days :: "environment \<Rightarrow> string + int option" where
  "audit_retention_days env =
     (case optional env ''AUDIT_RETENTION_DAYS'' of
        None \<Rightarrow> Inr None
      | Some raw \<Rightarrow>
          (case js_integer raw of
             Some n \<Rightarrow> if n < 1 then Inl ''AUDIT_RETENTION_DAYS must be a whole number of days, at least 1. Leave it unset to keep the audit trail forever.''
               else Inr (Some n)
           | None \<Rightarrow> Inl ''AUDIT_RETENTION_DAYS must be a whole number of days, at least 1. Leave it unset to keep the audit trail forever.''))"

definition agent_stall_timeout_ms :: "environment \<Rightarrow> string + int" where
  "agent_stall_timeout_ms env =
     (case optional env ''AGENT_STALL_TIMEOUT_MS'' of
        None \<Rightarrow> Inr 0
      | Some raw \<Rightarrow>
          (case js_integer raw of
             Some n \<Rightarrow> if n < 0 then Inl ''AGENT_STALL_TIMEOUT_MS must be a whole number of milliseconds, or 0 to switch the watchdog off'' else Inr n
           | None \<Rightarrow> Inl ''AGENT_STALL_TIMEOUT_MS must be a whole number of milliseconds, or 0 to switch the watchdog off''))"

section \<open>The configuration\<close>

record deployment_config =
  dc_database :: string
  dc_key :: string
  dc_managed :: "(url \<times> string) option"
  dc_deployment :: "string option"
  dc_compatible :: "string option"
  dc_public :: "string option"
  dc_app :: "string option"
  dc_package :: string
  dc_stall_ms :: int
  dc_retention :: "int option"
  dc_google :: "sign_in_client option"
  dc_auth :: "auth_config option"
  dc_single_user :: bool
  dc_accessibility :: bool
  dc_app_dist :: "string option"
  dc_computer :: "computer_config option"
  dc_tool_token :: "string option"

definition or_setting :: "'a option \<Rightarrow> 'a option \<Rightarrow> 'a option" where
  "or_setting a b = (case a of Some x \<Rightarrow> Some x | None \<Rightarrow> b)"

definition first_of :: "'a list \<Rightarrow> 'a option" where
  "first_of xs = (case xs of [] \<Rightarrow> None | x # rest \<Rightarrow> Some x)"

definition load_config ::
  "url_parser \<Rightarrow> (string \<Rightarrow> string + jsv) \<Rightarrow> string option \<Rightarrow> environment \<Rightarrow> string + deployment_config" where
  "load_config parse_url parse_json keychain env =
     on_success (oauth_client_setting env ''GOOGLE'') (\<lambda>google.
     on_success (read_auth_config parse_url env google) (\<lambda>auth.
     on_success (managed_agent_config parse_url env) (\<lambda>managed.
     on_success (required env ''DATABASE_URL'') (\<lambda>database.
     on_success (key_encryption_key keychain env) (\<lambda>key.
     on_success (optional_http_url parse_url env ''OPENAI_COMPATIBLE_BASE_URL'') (\<lambda>compatible.
     on_success (agent_stall_timeout_ms env) (\<lambda>stall.
     on_success (audit_retention_days env) (\<lambda>retention.
     on_success (single_user_enabled env (configured_auth_providers auth \<noteq> [])) (\<lambda>single.
     on_success (read_computer_config parse_url parse_json env) (\<lambda>computer.
       Inr \<lparr>dc_database = database, dc_key = key, dc_managed = managed, dc_deployment = optional env ''DEPLOYMENT_ID'',
         dc_compatible = map_option (\<lambda>u. without_final_slashes (url_href u)) compatible,
         dc_public = map_option without_final_slashes (or_setting (optional env ''OPENBOT_PUBLIC_URL'') (map_option au_base auth)),
         dc_app = map_option without_final_slashes
           (or_setting (optional env ''OPENBOT_APP_URL'') (or_setting (first_of (comma_separated env ''TRUSTED_ORIGINS''))
             (or_setting (optional env ''OPENBOT_PUBLIC_URL'') (map_option au_base auth)))),
         dc_package = (case optional env ''TENANT_PACKAGE_DIR'' of Some p \<Rightarrow> p | None \<Rightarrow> ''../examples/fintech''),
         dc_stall_ms = stall, dc_retention = retention, dc_google = google, dc_auth = auth, dc_single_user = single,
         dc_accessibility = accessibility_enabled env, dc_app_dist = optional env ''APP_DIST_DIR'',
         dc_computer = computer, dc_tool_token = optional env ''AGENT_TOOL_TOKEN''\<rparr>))))))))))"

section \<open>Where the server listens\<close>

definition loopback :: "string list" where
  "loopback = [''127.0.0.1'', ''::1'', ''localhost'']"

text \<open>\<^verbatim>\<open>/^(10\.|172\.(1[6-9]|2\d|3[01])\.|192\.168\.)/\<close>.\<close>

definition private_prefixes :: "string list" where
  "private_prefixes = [''10.'', ''192.168.''] @ map (\<lambda>n. ''172.'' @ show_nat n @ ''.'') [16..<32]"

definition private_prefix :: "string \<Rightarrow> bool" where
  "private_prefix s \<longleftrightarrow> list_ex (\<lambda>p. take (length p) s = p) private_prefixes"

definition bind_addresses :: "string option \<Rightarrow> bool \<Rightarrow> string option \<Rightarrow> string + string list" where
  "bind_addresses requested single_user extra_binds =
     (let host = (case requested of Some h \<Rightarrow> js_trim h | None \<Rightarrow> []);
          extras = filter (\<lambda>s. s \<noteq> []) (map js_trim (split_on CHR '','' (case extra_binds of Some e \<Rightarrow> e | None \<Rightarrow> []))) in
      case find (\<lambda>e. \<not> private_prefix e) extras of
        Some e \<Rightarrow> Inl (''OPENBOT_COMPUTER_BIND names the interfaces computers reach this server on and must be a private address, not '' @ e @ ''.'')
      | None \<Rightarrow>
          if single_user then
            (if host \<noteq> [] \<and> host \<notin> set loopback
             then Inl (''OPENBOT_SINGLE_USER=true admits every visitor as the administrator and may only bind loopback, not HOST='' @ host
                @ ''. Configure sign-in to listen on other interfaces.'')
             else Inr ((if host = [] \<or> host = ''localhost'' then [''127.0.0.1'', ''::1''] else [host]) @ extras))
          else Inr ((if host \<noteq> [] then host else ''0.0.0.0'') # extras))"

section \<open>What a deployment starts with\<close>

lemma optional_SomeD: "optional env name = Some v \<Longrightarrow> v \<noteq> [] \<and> js_trim v = v"
  by (auto simp: optional_def split: option.splits if_splits)

lemma providers_iff:
  "configured_auth_providers (Some a) \<noteq> [] \<longleftrightarrow> \<not> (au_google a = None \<and> au_microsoft a = None \<and> au_okta a = None)"
  by (simp add: configured_auth_providers_def)

lemma checked_auth_Some:
  assumes "checked_auth env base google microsoft okta = Inr (Some a)"
  shows "\<not> (google = None \<and> microsoft = None \<and> okta = None) \<and> (\<exists>s b. base = Some b \<and> \<not> length s < 32
      \<and> comma_separated env ''INITIAL_ADMIN_EMAILS'' \<noteq> []
      \<and> a = \<lparr>au_base = b, au_secret = s,
          au_origins = (if comma_separated env ''TRUSTED_ORIGINS'' \<noteq> [] then comma_separated env ''TRUSTED_ORIGINS'' else [''http://localhost:3000'']),
          au_admins = comma_separated env ''INITIAL_ADMIN_EMAILS'', au_google = google, au_microsoft = microsoft, au_okta = okta\<rparr>)"
proof (cases "google = None \<and> microsoft = None \<and> okta = None")
  case True
  have False using assms [unfolded checked_auth_def Let_def if_P [OF True]] by (rule contrapos_pp) simp
  then show ?thesis ..
next
  case False
  note c = assms [unfolded checked_auth_def Let_def if_not_P [OF False]]
  obtain s where s: "optional env ''BETTER_AUTH_SECRET'' = Some s" using c by (cases "optional env ''BETTER_AUTH_SECRET''") simp_all
  note c = c [unfolded s option.case]
  have l: "\<not> length s < 32" using c by (rule contrapos_pn) simp
  note c = c [unfolded if_not_P [OF l]]
  obtain b where b: "base = Some b" using c by (cases base) simp_all
  note c = c [unfolded b option.case]
  have n: "comma_separated env ''INITIAL_ADMIN_EMAILS'' \<noteq> []" using c by (rule contrapos_pn) simp
  show ?thesis using False l b n c [unfolded if_not_P [OF n]] by (simp only: Inr_inject option.inject) blast
qed

lemma auth_config_sound:
  assumes "read_auth_config parse_url env google = Inr (Some a)"
  shows "32 \<le> length (au_secret a)" "au_admins a \<noteq> []" "au_origins a \<noteq> []" "au_google a = google"
    "parse_url (au_base a) \<noteq> None" "configured_auth_providers (Some a) \<noteq> []"
proof -
  from assms obtain microsoft okta base where base: "url_setting parse_url env ''BETTER_AUTH_URL'' = Inr base"
    and checked: "checked_auth env base google microsoft okta = Inr (Some a)"
    unfolding read_auth_config_def on_success_Inr by blast
  have "base = Some b \<Longrightarrow> parse_url b \<noteq> None" for b
    using base by (auto simp: url_setting_def split: option.splits if_splits)
  moreover obtain s b where "base = Some b" "\<not> length s < 32" "comma_separated env ''INITIAL_ADMIN_EMAILS'' \<noteq> []"
      and some: "\<not> (google = None \<and> microsoft = None \<and> okta = None)"
      and a: "a = \<lparr>au_base = b, au_secret = s,
          au_origins = (if comma_separated env ''TRUSTED_ORIGINS'' \<noteq> [] then comma_separated env ''TRUSTED_ORIGINS'' else [''http://localhost:3000'']),
          au_admins = comma_separated env ''INITIAL_ADMIN_EMAILS'', au_google = google, au_microsoft = microsoft, au_okta = okta\<rparr>"
    using checked_auth_Some [OF checked] by blast
  ultimately have "32 \<le> length (au_secret a) \<and> au_admins a \<noteq> [] \<and> au_origins a \<noteq> [] \<and> au_google a = google
      \<and> parse_url (au_base a) \<noteq> None \<and> configured_auth_providers (Some a) \<noteq> []"
    unfolding providers_iff a by simp
  then show "32 \<le> length (au_secret a)" "au_admins a \<noteq> []" "au_origins a \<noteq> []" "au_google a = google"
    "parse_url (au_base a) \<noteq> None" "configured_auth_providers (Some a) \<noteq> []" by simp_all
qed

lemma key_sound:
  "key_encryption_key keychain env = Inr k \<Longrightarrow>
     length (b64url_decode k) = 32 \<and> b64 (b64url_decode k) = k \<and> (env ''NODE_ENV'' = Some ''production'' \<longrightarrow> k \<noteq> placeholder_key)"
  by (auto simp: key_encryption_key_def Let_def split: if_splits)

lemma managed_sound:
  "managed_agent_config parse_url env = Inr (Some (u, t)) \<Longrightarrow> t \<noteq> [] \<and> url_protocol u \<in> {''http:'', ''https:''}"
  by (auto simp: managed_agent_config_def optional_http_url_def split: if_splits option.splits dest: optional_SomeD)

definition sound_config :: "url_parser \<Rightarrow> environment \<Rightarrow> deployment_config \<Rightarrow> bool" where
  "sound_config parse_url env c \<longleftrightarrow>
     dc_database c \<noteq> []
     \<and> length (b64url_decode (dc_key c)) = 32
     \<and> (if env ''NODE_ENV'' = Some ''production'' then dc_key c \<noteq> placeholder_key else True)
     \<and> (case dc_auth c of
          None \<Rightarrow> dc_single_user c \<and> asked_single_user env
        | Some a \<Rightarrow> \<not> dc_single_user c \<and> configured_auth_providers (Some a) \<noteq> [] \<and> 32 \<le> length (au_secret a) \<and> au_admins a \<noteq> []
            \<and> parse_url (au_base a) \<noteq> None)
     \<and> (case dc_managed c of None \<Rightarrow> True | Some (u, t) \<Rightarrow> t \<noteq> [] \<and> url_protocol u \<in> {''http:'', ''https:''})
     \<and> 0 \<le> dc_stall_ms c \<and> (case dc_retention c of None \<Rightarrow> env ''AUDIT_RETENTION_DAYS'' = None \<or> js_trim (the (env ''AUDIT_RETENTION_DAYS'')) = []
          | Some n \<Rightarrow> 1 \<le> n)
     \<and> (case dc_computer c of None \<Rightarrow> True | Some m \<Rightarrow> parse_url (cc_base m) \<noteq> None)"

lemma stall_sound: "agent_stall_timeout_ms env = Inr n \<Longrightarrow> 0 \<le> n"
  by (auto simp: agent_stall_timeout_ms_def split: option.splits if_splits)

lemma retention_sound:
  "audit_retention_days env = Inr n \<Longrightarrow>
     (case n of None \<Rightarrow> env ''AUDIT_RETENTION_DAYS'' = None \<or> js_trim (the (env ''AUDIT_RETENTION_DAYS'')) = [] | Some d \<Rightarrow> 1 \<le> d)"
proof (cases "optional env ''AUDIT_RETENTION_DAYS''")
  case None
  then show "audit_retention_days env = Inr n \<Longrightarrow> ?thesis" by (auto simp: audit_retention_days_def optional_def split: option.splits if_splits)
next
  case (Some raw)
  then show "audit_retention_days env = Inr n \<Longrightarrow> ?thesis" by (cases "js_integer raw"; cases n) (simp_all add: audit_retention_days_def split: if_splits)
qed

lemma computer_sound: "read_computer_config parse_url parse_json env = Inr (Some m) \<Longrightarrow> parse_url (cc_base m) \<noteq> None"
  by (auto simp: read_computer_config_def Let_def url_setting_def split: option.splits if_splits)

lemma single_sound: "single_user_enabled env p = Inr s \<Longrightarrow> s = (\<not> p) \<and> (s \<longrightarrow> asked_single_user env)"
  by (auto simp: single_user_enabled_def split: if_splits)

lemma loaded_sound:
  assumes "load_config parse_url parse_json keychain env = Inr c"
  shows "sound_config parse_url env c"
proof -
  from assms obtain google auth managed database key compatible stall retention single computer where
    parts: "read_auth_config parse_url env google = Inr auth" "managed_agent_config parse_url env = Inr managed"
      "required env ''DATABASE_URL'' = Inr database" "key_encryption_key keychain env = Inr key"
      "agent_stall_timeout_ms env = Inr stall" "audit_retention_days env = Inr retention"
      "single_user_enabled env (configured_auth_providers auth \<noteq> []) = Inr single"
      "read_computer_config parse_url parse_json env = Inr computer"
    and c: "dc_database c = database" "dc_key c = key" "dc_managed c = managed" "dc_stall_ms c = stall" "dc_retention c = retention"
      "dc_auth c = auth" "dc_single_user c = single" "dc_computer c = computer"
    unfolding load_config_def on_success_Inr by (elim exE conjE) (auto dest: sym)
  have "database \<noteq> []" using parts(3) by (auto simp: required_def split: option.splits dest: optional_SomeD)
  moreover have "case auth of None \<Rightarrow> single \<and> asked_single_user env
        | Some a \<Rightarrow> \<not> single \<and> configured_auth_providers (Some a) \<noteq> [] \<and> 32 \<le> length (au_secret a) \<and> au_admins a \<noteq> [] \<and> parse_url (au_base a) \<noteq> None"
    using parts(1) single_sound [OF parts(7)] auth_config_sound
    by (cases auth) (auto simp: configured_auth_providers_def)
  moreover have "case managed of None \<Rightarrow> True | Some (u, t) \<Rightarrow> t \<noteq> [] \<and> url_protocol u \<in> {''http:'', ''https:''}"
    using managed_sound parts(2) by (auto split: option.split)
  moreover have "case computer of None \<Rightarrow> True | Some m \<Rightarrow> parse_url (cc_base m) \<noteq> None"
    using computer_sound parts(8) by (auto split: option.split)
  ultimately show ?thesis
    using key_sound [OF parts(4)] stall_sound [OF parts(5)] retention_sound [OF parts(6)]
    unfolding sound_config_def c by simp
qed

text \<open>A server that starts has a configuration it can work with. Its key is thirty-two bytes and, in production, not
  the public one; either some provider signs people in, with a secret, an address and an administrator, or one
  administrator was asked for in so many words and nobody signs in; a managed Bot has an address and a token;
  and the limits are whole numbers in their range, none of them made up from a value that was mistyped.\<close>

theorem started_deployment_is_sound:
  "case load_config parse_url parse_json keychain env of Inl e \<Rightarrow> True | Inr c \<Rightarrow> sound_config parse_url env c"
  using loaded_sound by (auto split: sum.split)

text \<open>C40: a deployment without sign-in is not served to everybody. When a server starts with nobody signing in, it
  listens only on the loopback of its machine and on what was named for its computers, and each of those
  begins as a private address does; asked to listen anywhere else it does not start.\<close>

theorem open_deployment_stays_private:
  "case load_config parse_url parse_json keychain env of
     Inl e \<Rightarrow> True
   | Inr c \<Rightarrow>
       (case bind_addresses requested (dc_single_user c) extra_binds of
          Inl e \<Rightarrow> True
        | Inr addresses \<Rightarrow>
            (if dc_auth c = None then list_all (\<lambda>a. a \<in> set loopback \<or> private_prefix a) addresses
             else list_all private_prefix (tl addresses))
            \<and> addresses \<noteq> [])"
proof -
  have extras: "list_all private_prefix xs" if "find (\<lambda>e. \<not> private_prefix e) xs = None" for xs
    using that by (simp add: find_None_iff list_all_iff)
  have "dc_auth c = None \<longleftrightarrow> dc_single_user c" if "load_config parse_url parse_json keychain env = Inr c" for c
    using loaded_sound [OF that] by (auto simp: sound_config_def split: option.splits)
  then show ?thesis
    by (auto simp: bind_addresses_def Let_def loopback_def list_all_iff dest!: extras split: sum.split option.splits if_splits)
qed

text \<open>A name can pass for a private address. Only the beginning of an entry is compared, so a host name that begins
  with a ten and a dot is accepted for a server without sign-in, wherever that name resolves to.\<close>

theorem name_passes_for_private:
  "bind_addresses None True (Some ''10.example.com'') = Inr [''127.0.0.1'', ''::1'', ''10.example.com'']"
  by code_simp

end
