(* ===== verification/Tenant.thy ===== *)
theory Tenant
  imports Settings
begin

text \<open>
  The package a deployment is made from (\<^verbatim>\<open>server/src/tenant-package.ts\<close>): its theme, the variables in its files,
  and what of it is accepted.

  Reading a file, the YAML parser and SHA-256 are arguments. A YAML value is a JSON value.
\<close>

section \<open>The theme\<close>

definition approved_theme_variables :: "string list" where
  "approved_theme_variables =
     [''--background'', ''--foreground'', ''--card'', ''--card-foreground'', ''--popover'', ''--popover-foreground'', ''--primary'',
      ''--primary-foreground'', ''--secondary'', ''--secondary-foreground'', ''--muted'', ''--muted-foreground'', ''--accent'',
      ''--accent-foreground'', ''--destructive'', ''--border'', ''--input'', ''--ring'', ''--chart-1'', ''--chart-2'', ''--chart-3'',
      ''--chart-4'', ''--chart-5'', ''--radius'', ''--sidebar'', ''--sidebar-foreground'', ''--sidebar-primary'',
      ''--sidebar-primary-foreground'', ''--sidebar-accent'', ''--sidebar-accent-foreground'', ''--sidebar-border'', ''--sidebar-ring'']"

definition starts_with :: "string \<Rightarrow> string \<Rightarrow> bool" where
  "starts_with p s \<longleftrightarrow> take (length p) s = p"

text \<open>\<^verbatim>\<open>/@import|url\s*\(/i\<close>, at the beginning of a text in lower case, and anywhere in it.\<close>

definition reference_here :: "string \<Rightarrow> bool" where
  "reference_here s \<longleftrightarrow>
     starts_with ''@import'' s
     \<or> starts_with ''url'' s \<and> (case dropWhile js_space (drop 3 s) of c # cs \<Rightarrow> c = CHR ''('' | [] \<Rightarrow> False)"

fun mentions_reference :: "string \<Rightarrow> bool" where
  "mentions_reference [] = False"
| "mentions_reference (c # cs) = (reference_here (c # cs) \<or> mentions_reference cs)"

text \<open>\<^verbatim>\<open>/(:root|\.dark)\s*\{([^{}]*)\}/\<close> at the beginning: the body and what follows.\<close>

definition brace :: "char \<Rightarrow> bool" where
  "brace c \<longleftrightarrow> c = CHR ''{'' \<or> c = CHR ''}''"

definition block_here :: "string \<Rightarrow> (string \<times> string) option" where
  "block_here s =
     (if \<not> starts_with '':root'' s \<and> \<not> starts_with ''.dark'' s then None
      else (case dropWhile js_space (drop 5 s) of
              [] \<Rightarrow> None
            | c # cs \<Rightarrow>
                if c \<noteq> CHR ''{'' then None
                else (case dropWhile (\<lambda>d. \<not> brace d) cs of
                        [] \<Rightarrow> None
                      | d # rest \<Rightarrow> if d = CHR ''}'' then Some (takeWhile (\<lambda>d. \<not> brace d) cs, rest) else None)))"

lemma block_here_shorter: "block_here s = Some (body, rest) \<Longrightarrow> length rest < length s"
proof -
  assume a: "block_here s = Some (body, rest)"
  obtain c cs where c: "dropWhile js_space (drop 5 s) = c # cs" using a by (auto simp: block_here_def split: if_splits list.splits)
  obtain d where d: "dropWhile (\<lambda>d. \<not> brace d) cs = d # rest"
    using a c by (auto simp: block_here_def split: if_splits list.splits)
  have "length (d # rest) \<le> length cs" unfolding d [symmetric] by (rule length_dropWhile_le)
  moreover have "length (c # cs) \<le> length s"
    unfolding c [symmetric] using length_dropWhile_le [of js_space "drop 5 s"] by simp
  ultimately show ?thesis by simp
qed

text \<open>The bodies of all blocks, and the text without them.\<close>

function css_blocks :: "string \<Rightarrow> string list \<times> string" where
  "css_blocks s =
     (case s of
        [] \<Rightarrow> ([], [])
      | c # cs \<Rightarrow>
          (case block_here s of
             Some (body, rest) \<Rightarrow> (case css_blocks rest of (bodies, left) \<Rightarrow> (body # bodies, left))
           | None \<Rightarrow> (case css_blocks cs of (bodies, left) \<Rightarrow> (bodies, c # left))))"
  by auto
termination by (relation "measure length") (auto dest: block_here_shorter)

declare css_blocks.simps [simp del]

definition not_approved :: "string \<Rightarrow> string" where
  "not_approved variable =
     ''Tenant theme variable '' @ (if variable = [] then ''(invalid)'' else variable) @ '' is not an approved theme variable''"

text \<open>One declaration: with no colon the slices of the code take all but the last character, and the whole.\<close>

definition check_declaration :: "string \<Rightarrow> string option" where
  "check_declaration declaration =
     (let trimmed = js_trim declaration;
          before = takeWhile (\<lambda>c. c \<noteq> CHR '':'') trimmed;
          has_colon = (before \<noteq> trimmed);
          variable = js_trim (if has_colon then before else butlast trimmed);
          val = js_trim (if has_colon then drop (Suc (length before)) trimmed else trimmed) in
      if trimmed = [] then None
      else if \<not> has_colon \<or> before = [] \<or> val = [] \<or> variable \<notin> set approved_theme_variables
      then Some (not_approved variable) else None)"

definition validate_theme_css :: "string \<Rightarrow> string + unit" where
  "validate_theme_css css =
     (if mentions_reference (js_lower css) then Inl ''Tenant theme must not contain imports or URLs''
      else (case css_blocks css of
        (bodies, remaining) \<Rightarrow>
          if bodies = [] \<or> js_trim remaining \<noteq> [] then Inl ''Tenant theme may only define :root and .dark blocks''
          else (case List.map_filter check_declaration (concat (map (split_on CHR '';'') bodies)) of
                  [] \<Rightarrow> Inr ()
                | e # es \<Rightarrow> Inl e)))"

section \<open>Variables in a file\<close>

definition ident_start :: "char \<Rightarrow> bool" where
  "ident_start c \<longleftrightarrow> (let n = char_code c in 65 \<le> n \<and> n \<le> 90 \<or> 97 \<le> n \<and> n \<le> 122 \<or> n = 95)"

definition ident_char :: "char \<Rightarrow> bool" where
  "ident_char c \<longleftrightarrow> ident_start c \<or> (48 \<le> char_code c \<and> char_code c \<le> 57)"

text \<open>A reference at the beginning of a text: the name, the fallback and what follows.\<close>

definition reference_at :: "string \<Rightarrow> (string \<times> string option \<times> string) option" where
  "reference_at s =
     (if \<not> starts_with ''${'' s then None
      else
        let name = takeWhile ident_char (drop 2 s); after = dropWhile ident_char (drop 2 s) in
        if name = [] \<or> \<not> ident_start (hd name) then None
        else if starts_with ''}'' after then Some (name, None, drop 1 after)
        else if starts_with '':-'' after then
          (let fallback = takeWhile (\<lambda>c. c \<noteq> CHR ''}'') (drop 2 after); rest = dropWhile (\<lambda>c. c \<noteq> CHR ''}'') (drop 2 after) in
           case rest of [] \<Rightarrow> None | c # cs \<Rightarrow> Some (name, Some fallback, cs))
        else None)"

lemma reference_at_shorter: "reference_at s = Some (name, fallback, rest) \<Longrightarrow> length rest < length s"
proof -
  assume a: "reference_at s = Some (name, fallback, rest)"
  have s: "s \<noteq> []" using a by (auto simp: reference_at_def starts_with_def)
  have l: "length (dropWhile ident_char (drop 2 s)) \<le> length s - 2" using length_dropWhile_le [of ident_char "drop 2 s"] by simp
  consider "rest = drop 1 (dropWhile ident_char (drop 2 s))"
    | c where "dropWhile (\<lambda>c. c \<noteq> CHR ''}'') (drop 2 (dropWhile ident_char (drop 2 s))) = c # rest"
    using a by (auto simp: reference_at_def Let_def split: if_splits list.splits)
  then show ?thesis
  proof cases
    case 1
    then show ?thesis using l s by (cases s) auto
  next
    case 2
    have "length (c # rest) \<le> length (drop 2 (dropWhile ident_char (drop 2 s)))" unfolding 2 [symmetric] by (rule length_dropWhile_le)
    then show ?thesis using l by simp
  qed
qed

definition unset_variable :: "string \<Rightarrow> string \<Rightarrow> string" where
  "unset_variable filename name = filename @ '' refers to ${'' @ name @ ''}, which is not set in this environment.''"

definition resolve_variable :: "environment \<Rightarrow> string \<Rightarrow> string \<Rightarrow> string option \<Rightarrow> string + string" where
  "resolve_variable env filename name fallback =
     (if truthy (env name) then Inr (the (env name))
      else (case fallback of Some f \<Rightarrow> Inr f | None \<Rightarrow> Inl (unset_variable filename name)))"

function expand_environment :: "environment \<Rightarrow> string \<Rightarrow> string \<Rightarrow> string + string" where
  "expand_environment env filename s =
     (case s of
        [] \<Rightarrow> Inr []
      | c # cs \<Rightarrow>
          (case reference_at s of
             Some (name, fallback, rest) \<Rightarrow>
               on_success (resolve_variable env filename name fallback) (\<lambda>v.
               on_success (expand_environment env filename rest) (\<lambda>t. Inr (v @ t)))
           | None \<Rightarrow> on_success (expand_environment env filename cs) (\<lambda>t. Inr (c # t))))"
  by auto
termination by (relation "measure (\<lambda>(env, filename, s). length s)") (auto dest: reference_at_shorter)

declare expand_environment.simps [simp del]

section \<open>What a package says\<close>

definition deployment_routes :: "string list" where
  "deployment_routes = [''policy'', ''fleet'']"

datatype tenant_agent_type = Built_in | Remote_ag_ui

record tenant_agent =
  ta_id :: string
  ta_name :: string
  ta_title :: string
  ta_role :: string
  ta_seed :: "string option"
  ta_type :: tenant_agent_type
  ta_configuration :: "(string \<times> jsv) list"

record tenant_channel =
  tc_id :: string
  tc_name :: string
  tc_description :: string
  tc_agents :: "string list"
  tc_groups :: "string list"

record tenant_skill =
  tk_slug :: string
  tk_title :: string
  tk_summary :: string
  tk_instructions :: string
  tk_tools :: "string list"

record tenant_package =
  tp_tenant :: string
  tp_product :: string
  tp_stylesheet :: "string option"
  tp_agents :: "tenant_agent list"
  tp_channels :: "tenant_channel list"
  tp_credential :: string
  tp_model :: string
  tp_sources :: "(string \<times> string list) list"
  tp_skills :: "tenant_skill list"
  tp_theme :: string

record package_files =
  fl_brand :: string
  fl_agents :: string
  fl_channels :: string
  fl_model :: string
  fl_knowledge :: string
  fl_skills :: string
  fl_theme :: string

text \<open>The checks of a value, each with the name it is reported under.\<close>

definition as_record :: "jsv option \<Rightarrow> string \<Rightarrow> string + jsv" where
  "as_record v name = (case v of Some (JObj kvs) \<Rightarrow> Inr (JObj kvs) | _ \<Rightarrow> Inl (name @ '' must be an object''))"

definition as_list :: "jsv option \<Rightarrow> string \<Rightarrow> string + jsv list" where
  "as_list v name = (case v of Some (JArr vs) \<Rightarrow> Inr vs | _ \<Rightarrow> Inl (name @ '' must be a list''))"

definition required_string :: "jsv option \<Rightarrow> string \<Rightarrow> string + string" where
  "required_string v name =
     (case v of Some (JStr s) \<Rightarrow> if js_trim s = [] then Inl (name @ '' must be a non-empty string'') else Inr s
      | _ \<Rightarrow> Inl (name @ '' must be a non-empty string''))"

definition string_array :: "jsv option \<Rightarrow> string \<Rightarrow> string + string list" where
  "string_array v name =
     (case v of
        Some (JArr vs) \<Rightarrow> (case texts_of_json vs of Some ss \<Rightarrow> Inr ss | None \<Rightarrow> Inl (name @ '' must be an array of strings''))
      | _ \<Rightarrow> Inl (name @ '' must be an array of strings''))"

definition is_undefined :: "jsv option \<Rightarrow> bool" where
  "is_undefined v \<longleftrightarrow> v = None \<or> v = Some JUndef"

definition yaml :: "(string \<Rightarrow> string + jsv) \<Rightarrow> string \<Rightarrow> string \<Rightarrow> string + jsv" where
  "yaml parse s filename =
     (case on_success (parse s) (\<lambda>v. as_record (Some v) filename) of
        Inl e \<Rightarrow> Inl (filename @ '' is invalid: '' @ e)
      | Inr v \<Rightarrow> Inr v)"

text \<open>Each entry of a list in turn, to the first that is refused.\<close>

fun each :: "('a \<Rightarrow> 'e + 'b) \<Rightarrow> 'a list \<Rightarrow> 'e + 'b list" where
  "each f [] = Inr []"
| "each f (x # xs) = on_success (f x) (\<lambda>y. on_success (each f xs) (\<lambda>ys. Inr (y # ys)))"

datatype parsed_agent = Declared tenant_agent | Omitted string

definition reserved_name :: "string \<Rightarrow> string" where
  "reserved_name i = ''agent.id \"'' @ i @ ''\" is reserved for a deployment route and cannot name a Bot''"

definition agent_type_of :: "jsv \<Rightarrow> tenant_agent_type option" where
  "agent_type_of agent =
     (case js_string_field agent ''type'' of
        None \<Rightarrow> None
      | Some t \<Rightarrow> if t = ''built-in'' then Some Built_in
          else if t = ''remote-ag-ui'' \<or> t = ''harness'' then Some Remote_ag_ui else None)"

definition agent_harness :: "jsv \<Rightarrow> string + string option" where
  "agent_harness agent =
     (if js_string_field agent ''type'' = Some ''harness''
      then on_success (required_string (js_field agent ''harness'') ''agent.harness'') (\<lambda>h. Inr (Some h)) else Inr None)"

definition agent_seed :: "jsv \<Rightarrow> string + string option" where
  "agent_seed agent =
     (if is_undefined (js_field agent ''avatar_seed'') then Inr None
      else on_success (required_string (js_field agent ''avatar_seed'') ''agent.avatar_seed'') (\<lambda>s. Inr (Some s)))"

definition agent_configuration :: "tenant_agent_type \<Rightarrow> string option \<Rightarrow> jsv \<Rightarrow> string + (string \<times> jsv) list" where
  "agent_configuration type harness agent =
     (if type = Built_in then
        on_success (required_string (js_field agent ''system_prompt'') ''agent.system_prompt'') (\<lambda>p. Inr [(''systemPrompt'', JStr p)])
      else (case harness of
          Some h \<Rightarrow> Inr [(''harness'', JStr h)]
        | None \<Rightarrow> on_success (required_string (js_field agent ''endpoint'') ''agent.endpoint'') (\<lambda>e. Inr [(''endpoint'', JStr e)])))"

text \<open>An agent elsewhere without an address is left out rather than refused.\<close>

definition agent_left_out :: "tenant_agent_type \<Rightarrow> string option \<Rightarrow> jsv \<Rightarrow> bool" where
  "agent_left_out type harness agent \<longleftrightarrow>
     type = Remote_ag_ui \<and> harness = None \<and> (case js_string_field agent ''endpoint'' of Some e \<Rightarrow> js_trim e = [] | None \<Rightarrow> True)"

definition declared_agent :: "tenant_agent_type \<Rightarrow> string option \<Rightarrow> string \<Rightarrow> jsv \<Rightarrow> string + parsed_agent" where
  "declared_agent type harness i agent =
     on_success (required_string (js_field agent ''name'') ''agent.name'') (\<lambda>name.
     on_success (required_string (js_field agent ''title'') ''agent.title'') (\<lambda>title.
     on_success (required_string (js_field agent ''role_description'') ''agent.role_description'') (\<lambda>job.
     on_success (agent_seed agent) (\<lambda>seed.
     on_success (agent_configuration type harness agent) (\<lambda>configuration.
       Inr (Declared \<lparr>ta_id = i, ta_name = name, ta_title = title, ta_role = job, ta_seed = seed, ta_type = type,
         ta_configuration = configuration\<rparr>))))))"

definition parse_agent :: "jsv \<Rightarrow> string + parsed_agent" where
  "parse_agent v =
     on_success (as_record (Some v) ''agent'') (\<lambda>agent.
     case agent_type_of agent of
       None \<Rightarrow> Inl ''agent.type must be built-in, remote-ag-ui or harness''
     | Some type \<Rightarrow>
         on_success (agent_harness agent) (\<lambda>harness.
         on_success (required_string (js_field agent ''id'') ''agent.id'') (\<lambda>i.
           if i \<in> set deployment_routes then Inl (reserved_name i)
           else if agent_left_out type harness agent then Inr (Omitted i)
           else declared_agent type harness i agent)))"

definition declared_agents :: "parsed_agent list \<Rightarrow> tenant_agent list" where
  "declared_agents xs = concat (map (\<lambda>x. case x of Declared a \<Rightarrow> [a] | Omitted i \<Rightarrow> []) xs)"

definition omitted_ids :: "parsed_agent list \<Rightarrow> string list" where
  "omitted_ids xs = concat (map (\<lambda>x. case x of Declared a \<Rightarrow> [] | Omitted i \<Rightarrow> [i]) xs)"

definition unknown_agent :: "string \<Rightarrow> string" where
  "unknown_agent i = ''channel references unknown agent \"'' @ i @ ''\"''"

definition parse_channel :: "string list \<Rightarrow> string list \<Rightarrow> jsv \<Rightarrow> string + tenant_channel" where
  "parse_channel omitted ids v =
     on_success (as_record (Some v) ''channel'') (\<lambda>channel.
     on_success (string_array (js_field channel ''permitted_agents'') ''channel.permitted_agents'') (\<lambda>named.
       let permitted = filter (\<lambda>i. i \<notin> set omitted) named in
       case find (\<lambda>i. i \<notin> set ids) permitted of
         Some i \<Rightarrow> Inl (unknown_agent i)
       | None \<Rightarrow>
     on_success (required_string (js_field channel ''id'') ''channel.id'') (\<lambda>i.
     on_success (required_string (js_field channel ''name'') ''channel.name'') (\<lambda>name.
     on_success (required_string (js_field channel ''description'') ''channel.description'') (\<lambda>description.
     on_success (string_array (js_field channel ''allowed_groups'') ''channel.allowed_groups'') (\<lambda>groups.
       Inr \<lparr>tc_id = i, tc_name = name, tc_description = description, tc_agents = permitted, tc_groups = groups\<rparr>))))))"

definition source_type :: "jsv \<Rightarrow> string option" where
  "source_type source =
     (if js_string_field source ''type'' \<in> {Some ''google-drive'', Some ''microsoft-onedrive''} then js_string_field source ''type'' else None)"

definition parse_source :: "jsv \<Rightarrow> string + string \<times> string list" where
  "parse_source v =
     on_success (as_record (Some v) ''knowledge source'') (\<lambda>source.
       case source_type source of
         None \<Rightarrow> Inl ''knowledge source type is not supported''
       | Some t \<Rightarrow> on_success (string_array (js_field source ''roots'') ''source.roots'') (\<lambda>roots. Inr (t, roots)))"

text \<open>\<^verbatim>\<open>/^[a-z0-9][a-z0-9-]*$/\<close> and \<^verbatim>\<open>/^[^/\s]+\/[^/\s]+$/\<close>.\<close>

definition slug_start :: "char \<Rightarrow> bool" where
  "slug_start c \<longleftrightarrow> (let n = char_code c in 97 \<le> n \<and> n \<le> 122 \<or> 48 \<le> n \<and> n \<le> 57)"

definition skill_slug :: "string \<Rightarrow> bool" where
  "skill_slug s \<longleftrightarrow> (case s of [] \<Rightarrow> False | c # cs \<Rightarrow> slug_start c \<and> list_all (\<lambda>d. slug_start d \<or> d = CHR ''-'') cs)"

definition tool_ref_shape :: "string \<Rightarrow> bool" where
  "tool_ref_shape s \<longleftrightarrow>
     (case split_on CHR ''/'' s of [a, b] \<Rightarrow> a \<noteq> [] \<and> b \<noteq> [] | _ \<Rightarrow> False) \<and> list_all (\<lambda>c. \<not> js_space c) s"

definition bad_slug :: "string \<Rightarrow> string" where
  "bad_slug s = ''skill.slug \"'' @ s @ ''\" must be lowercase letters, digits and hyphens, and start with a letter or digit''"

definition bad_ref :: "string \<Rightarrow> string" where
  "bad_ref s = ''skill.tools entry \"'' @ s @ ''\" must be in the form serverId/toolName''"

definition is_nullish :: "jsv option \<Rightarrow> bool" where
  "is_nullish v \<longleftrightarrow> v = None \<or> v = Some JUndef \<or> v = Some JNull"

definition skill_tools :: "jsv \<Rightarrow> string + string list" where
  "skill_tools skill =
     (if is_nullish (js_field skill ''tools'') then Inr []
      else on_success (string_array (js_field skill ''tools'') ''skill.tools'') (\<lambda>refs.
        case find (\<lambda>r. \<not> tool_ref_shape r) refs of Some r \<Rightarrow> Inl (bad_ref r) | None \<Rightarrow> Inr refs))"

definition parse_skill :: "jsv \<Rightarrow> string + tenant_skill" where
  "parse_skill v =
     on_success (as_record (Some v) ''skill'') (\<lambda>skill.
     on_success (required_string (js_field skill ''slug'') ''skill.slug'') (\<lambda>slug.
     if \<not> skill_slug slug then Inl (bad_slug slug)
     else
     on_success (skill_tools skill) (\<lambda>tools.
     on_success (required_string (js_field skill ''title'') ''skill.title'') (\<lambda>title.
     on_success (required_string (js_field skill ''summary'') ''skill.summary'') (\<lambda>summary.
     on_success (required_string (js_field skill ''instructions'') ''skill.instructions'') (\<lambda>instructions.
       Inr \<lparr>tk_slug = slug, tk_title = title, tk_summary = summary, tk_instructions = instructions, tk_tools = tools\<rparr>))))))"

definition parse_tenant_skills :: "jsv option \<Rightarrow> string + tenant_skill list" where
  "parse_tenant_skills v =
     (if is_nullish v then Inr [] else on_success (as_list v ''skills.yaml skills'') (each parse_skill))"

definition parse_brand_skin :: "jsv \<Rightarrow> string + jsv option" where
  "parse_brand_skin brand =
     (if is_undefined (js_field brand ''skin'') then Inr None
      else on_success (as_record (js_field brand ''skin'') ''brand.skin'') (\<lambda>skin. Inr (Some skin)))"

definition validate_tenant_package :: "(string \<Rightarrow> string + jsv) \<Rightarrow> package_files \<Rightarrow> string + tenant_package" where
  "validate_tenant_package parse files =
     on_success (if js_trim (fl_theme files) \<noteq> [] then validate_theme_css (fl_theme files) else Inr ()) (\<lambda>u.
     on_success (yaml parse (fl_brand files) ''brand.yaml'') (\<lambda>brand.
     on_success (yaml parse (fl_agents files) ''agents.yaml'') (\<lambda>agents_yaml.
     on_success (yaml parse (fl_channels files) ''channels.yaml'') (\<lambda>channels_yaml.
     on_success (yaml parse (fl_model files) ''model.yaml'') (\<lambda>model_yaml.
     on_success (yaml parse (fl_knowledge files) ''knowledge.yaml'') (\<lambda>knowledge_yaml.
     on_success (if js_trim (fl_skills files) \<noteq> [] then yaml parse (fl_skills files) ''skills.yaml'' else Inr (JObj [])) (\<lambda>skills_yaml.
     on_success (as_record (js_field brand ''tenant'') ''brand.tenant'') (\<lambda>tenant.
     on_success (parse_brand_skin brand) (\<lambda>skin.
     on_success (on_success (as_list (js_field agents_yaml ''agents'') ''agents.yaml agents'') (each parse_agent)) (\<lambda>parsed.
     on_success (on_success (as_list (js_field channels_yaml ''channels'') ''channels.yaml channels'')
        (each (parse_channel (omitted_ids parsed) (map ta_id (declared_agents parsed))))) (\<lambda>channels.
     on_success (as_record (js_field model_yaml ''model'') ''model'') (\<lambda>model.
     on_success (if js_field model ''provider'' \<noteq> Some (JStr ''openai'') then Inl ''model.provider must be openai'' else Inr ()) (\<lambda>checked.
     on_success (on_success (as_list (js_field knowledge_yaml ''sources'') ''knowledge.yaml sources'') (each parse_source)) (\<lambda>sources.
     on_success (required_string (js_field tenant ''id'') ''tenant.id'') (\<lambda>tenant_id.
     on_success (required_string (js_field tenant ''product_name'') ''tenant.product_name'') (\<lambda>product.
     on_success (case skin of Some sk \<Rightarrow> on_success (required_string (js_field sk ''stylesheet'') ''skin.stylesheet'') (\<lambda>x. Inr (Some x))
        | None \<Rightarrow> Inr None) (\<lambda>stylesheet.
     on_success (required_string (js_field model ''credential_secret_ref'') ''model.credential_secret_ref'') (\<lambda>credential.
     on_success (required_string (js_field model ''default_model'') ''model.default_model'') (\<lambda>default_model.
     on_success (parse_tenant_skills (js_field skills_yaml ''skills'')) (\<lambda>skills.
       Inr \<lparr>tp_tenant = tenant_id, tp_product = product, tp_stylesheet = stylesheet, tp_agents = declared_agents parsed,
         tp_channels = channels, tp_credential = credential, tp_model = default_model, tp_sources = sources, tp_skills = skills,
         tp_theme = fl_theme files\<rparr>))))))))))))))))))))"

section \<open>Loading it\<close>

datatype file_read = Found string | Absent | Unreadable string

definition read_required :: "(string \<Rightarrow> file_read) \<Rightarrow> environment \<Rightarrow> string \<Rightarrow> string + string" where
  "read_required read env name =
     (case read name of
        Found s \<Rightarrow> expand_environment env name s
      | Absent \<Rightarrow> Inl (''ENOENT: '' @ name)
      | Unreadable e \<Rightarrow> Inl e)"

definition package_filenames :: "string list" where
  "package_filenames = [''brand.yaml'', ''agents.yaml'', ''channels.yaml'', ''model.yaml'', ''knowledge.yaml'']"

record loaded_package =
  lp_package :: tenant_package
  lp_source :: string
  lp_checksum :: string

definition load_tenant_package ::
  "(string \<Rightarrow> string) \<Rightarrow> (string \<Rightarrow> string + jsv) \<Rightarrow> (string \<Rightarrow> file_read) \<Rightarrow> environment \<Rightarrow> string \<Rightarrow> string + loaded_package" where
  "load_tenant_package sha256 parse read env source_path =
     on_success (each (read_required read env) package_filenames) (\<lambda>contents.
     on_success (case read ''theme.css'' of Found s \<Rightarrow> Inr s | Absent \<Rightarrow> Inr [] | Unreadable e \<Rightarrow> Inl e) (\<lambda>theme.
     on_success (case read ''skills.yaml'' of Found s \<Rightarrow> expand_environment env ''skills.yaml'' s | Absent \<Rightarrow> Inr [] | Unreadable e \<Rightarrow> Inl e) (\<lambda>skills.
     on_success (validate_tenant_package parse
        \<lparr>fl_brand = contents ! 0, fl_agents = contents ! 1, fl_channels = contents ! 2, fl_model = contents ! 3,
         fl_knowledge = contents ! 4, fl_skills = skills, fl_theme = theme\<rparr>) (\<lambda>package.
       Inr \<lparr>lp_package = package, lp_source = source_path, lp_checksum = sha256 (join_with [CHR 0x0A] (contents @ [skills]))\<rparr>))))"

definition application_brand :: "tenant_package \<Rightarrow> string \<times> string" where
  "application_brand p = (tp_tenant p, tp_product p)"

section \<open>What an accepted theme is\<close>

definition declaration_ok :: "string \<Rightarrow> bool" where
  "declaration_ok d \<longleftrightarrow> js_trim d = [] \<or>
     (\<exists>variable val. js_trim d = variable @ CHR '':'' # val \<and> js_trim variable \<in> set approved_theme_variables \<and> js_trim val \<noteq> [])"

text \<open>White space and blocks of declarations.\<close>

inductive theme_text :: "string \<Rightarrow> bool" where
  theme_empty: "theme_text []"
| theme_space: "js_space c \<Longrightarrow> theme_text s \<Longrightarrow> theme_text (c # s)"
| theme_block: "selector = '':root'' \<or> selector = ''.dark'' \<Longrightarrow> list_all js_space gap
    \<Longrightarrow> list_all (\<lambda>c. \<not> brace c) body \<Longrightarrow> list_all declaration_ok (split_on CHR '';'' body) \<Longrightarrow> theme_text rest
    \<Longrightarrow> theme_text (selector @ gap @ CHR ''{'' # body @ CHR ''}'' # rest)"

lemma block_here_shape:
  assumes "block_here s = Some (body, rest)"
  shows "\<exists>selector gap. (selector = '':root'' \<or> selector = ''.dark'') \<and> list_all js_space gap \<and> list_all (\<lambda>c. \<not> brace c) body
    \<and> s = selector @ gap @ CHR ''{'' # body @ CHR ''}'' # rest"
proof -
  have sel: "take 5 s = '':root'' \<or> take 5 s = ''.dark''" 
    by (rule contrapos_pp [OF assms]) (simp add: block_here_def starts_with_def eval_nat_numeral)
  obtain c cs where c: "dropWhile js_space (drop 5 s) = c # cs" "c = CHR ''{''"
    using assms by (auto simp: block_here_def split: if_splits list.splits)
  obtain d where d: "dropWhile (\<lambda>d. \<not> brace d) cs = d # rest" "d = CHR ''}''" "body = takeWhile (\<lambda>d. \<not> brace d) cs"
    using assms c by (auto simp: block_here_def split: if_splits list.splits)
  have "s = take 5 s @ takeWhile js_space (drop 5 s) @ c # cs"
    unfolding c(1) [symmetric] by (simp add: takeWhile_dropWhile_id)
  moreover have "cs = body @ d # rest" unfolding d(1) [symmetric] d(3) by (simp add: takeWhile_dropWhile_id)
  moreover have "list_all js_space (takeWhile js_space (drop 5 s))" "list_all (\<lambda>c. \<not> brace c) body"
    unfolding d(3) by (auto simp: list_all_iff dest: set_takeWhileD)
  ultimately show ?thesis using sel c(2) d(2)
    by (intro exI [of _ "take 5 s"] exI [of _ "takeWhile js_space (drop 5 s)"]) simp
qed

lemma check_declaration_ok: "check_declaration d = None \<Longrightarrow> declaration_ok d"
proof -
  assume n: "check_declaration d = None"
  let ?t = "js_trim d" and ?b = "takeWhile (\<lambda>c. c \<noteq> CHR '':'') (js_trim d)"
  have "?t = [] \<or> (?b \<noteq> ?t \<and> js_trim ?b \<in> set approved_theme_variables \<and> js_trim (drop (Suc (length ?b)) ?t) \<noteq> [])"
    using n by (auto simp: check_declaration_def Let_def split: if_splits)
  moreover have "?b \<noteq> ?t \<Longrightarrow> ?t = ?b @ CHR '':'' # drop (Suc (length ?b)) ?t"
  proof -
    assume b: "?b \<noteq> ?t"
    have split: "?t = ?b @ dropWhile (\<lambda>c. c \<noteq> CHR '':'') ?t" by (simp add: takeWhile_dropWhile_id)
    with b obtain c cs where c: "dropWhile (\<lambda>c. c \<noteq> CHR '':'') ?t = c # cs" by (cases "dropWhile (\<lambda>c. c \<noteq> CHR '':'') ?t") auto
    then have "c = CHR '':''" using hd_dropWhile [of "\<lambda>c. c \<noteq> CHR '':''" ?t] by simp
    moreover have "drop (Suc (length ?b)) ?t = cs" by (subst split) (simp add: c)
    ultimately show ?thesis using split c by metis
  qed
  ultimately show ?thesis unfolding declaration_ok_def by metis
qed

lemma js_trim_Nil_iff: "js_trim s = [] \<longleftrightarrow> list_all js_space s"
  by (induction s) (auto simp: js_trim_def dropWhile_eq_Nil_conv list_all_iff)

lemma map_filter_Nil_iff: "List.map_filter f xs = [] \<longleftrightarrow> list_all (\<lambda>x. f x = None) xs"
  by (induction xs) (auto simp: List.map_filter_def)

lemma css_blocks_theme:
  "css_blocks s = (bodies, remaining) \<Longrightarrow> list_all js_space remaining
     \<Longrightarrow> list_all (\<lambda>d. check_declaration d = None) (concat (map (split_on CHR '';'') bodies)) \<Longrightarrow> theme_text s"
proof (induction s arbitrary: bodies remaining rule: css_blocks.induct)
  case (1 s)
  show ?case
  proof (cases s)
    case Nil
    then show ?thesis by (simp add: theme_empty)
  next
    case (Cons c cs)
    show ?thesis
    proof (cases "block_here s")
      case None
      obtain bs left where r: "css_blocks cs = (bs, left)" by (cases "css_blocks cs")
      have e: "bodies = bs" "remaining = c # left" using 1(3) None r unfolding Cons by (auto simp: css_blocks.simps [of "c # cs"])
      have "theme_text cs" using 1(1) [OF Cons None r] 1(4,5) e Cons by simp
      then show ?thesis using 1(4) e Cons by (simp add: theme_space)
    next
      case (Some br)
      obtain body rest where br: "block_here s = Some (body, rest)" using Some by (cases br) simp
      obtain bs left where r: "css_blocks rest = (bs, left)" by (cases "css_blocks rest")
      have e: "bodies = body # bs" "remaining = left" using 1(3) br r unfolding Cons by (auto simp: css_blocks.simps [of "c # cs"])
      have rest: "theme_text rest" using 1(2) [OF Cons br refl r] 1(4,5) e by simp
      have "list_all declaration_ok (split_on CHR '';'' body)"
        using 1(5) e check_declaration_ok by (auto simp: list_all_iff)
      with rest block_here_shape [OF br] show ?thesis by (auto intro: theme_block)
    qed
  qed
qed

lemma theme_of_validated:
  "if validate_theme_css css = Inr () then theme_text css \<and> \<not> mentions_reference (js_lower css) else True"
proof -
  obtain bodies remaining where "css_blocks css = (bodies, remaining)" by (cases "css_blocks css")
  moreover from this have "validate_theme_css css = Inr () \<Longrightarrow> list_all js_space remaining
      \<and> list_all (\<lambda>d. check_declaration d = None) (concat (map (split_on CHR '';'') bodies)) \<and> \<not> mentions_reference (js_lower css)"
    unfolding js_trim_Nil_iff [symmetric] map_filter_Nil_iff [symmetric]
    by (auto simp: validate_theme_css_def split: if_splits list.splits)
  ultimately show ?thesis using css_blocks_theme by auto
qed

text \<open>An accepted theme sets approved variables and does nothing else. It is white space and blocks for the root and
  the dark mode, each a list of declarations of variables on the list, with a value; and nowhere does it
  name an import or a URL.\<close>

theorem theme_only_sets_variables:
  "if validate_theme_css css = Inr () then theme_text css \<and> \<not> mentions_reference (js_lower css) else True"
  by (rule theme_of_validated)

text \<open>A URL can be written so that the check does not see it. A style sheet reads an escape in a name, so a function
  whose second letter is one is the same function, and its text is not.\<close>

theorem escaped_url_is_accepted:
  "validate_theme_css ('':root{--background:u'' @ [CHR 0x5C] @ ''72l(//a.test/x)}'') = Inr ()"
  by code_simp

section \<open>What an accepted package is\<close>

lemma on_successE: "on_success m f = Inr b \<Longrightarrow> (\<And>a. m = Inr a \<Longrightarrow> f a = Inr b \<Longrightarrow> P) \<Longrightarrow> P"
  by auto


lemma each_Inr: "each f xs = Inr ys \<Longrightarrow> y \<in> set ys \<Longrightarrow> \<exists>x \<in> set xs. f x = Inr y"
  by (induction xs arbitrary: ys) auto

lemma required_string_Inr: "required_string v name = Inr s \<Longrightarrow> js_trim s \<noteq> []"
  by (auto simp: required_string_def split: option.splits jsv.splits if_splits)

definition agent_ok :: "tenant_agent \<Rightarrow> bool" where
  "agent_ok a \<longleftrightarrow>
     js_trim (ta_id a) \<noteq> [] \<and> ta_id a \<notin> set deployment_routes \<and> js_trim (ta_name a) \<noteq> [] \<and> js_trim (ta_title a) \<noteq> []
     \<and> js_trim (ta_role a) \<noteq> []
     \<and> (case ta_configuration a of
          [(k, JStr v)] \<Rightarrow> js_trim v \<noteq> [] \<and> (if ta_type a = Built_in then k = ''systemPrompt'' else k = ''harness'' \<or> k = ''endpoint'')
        | _ \<Rightarrow> False)"

definition skill_ok :: "tenant_skill \<Rightarrow> bool" where
  "skill_ok k \<longleftrightarrow> skill_slug (tk_slug k) \<and> list_all tool_ref_shape (tk_tools k) \<and> js_trim (tk_instructions k) \<noteq> []"

definition package_ok :: "tenant_package \<Rightarrow> bool" where
  "package_ok p \<longleftrightarrow>
     list_all agent_ok (tp_agents p)
     \<and> list_all (\<lambda>c. js_trim (tc_id c) \<noteq> [] \<and> list_all (\<lambda>i. i \<in> ta_id ` set (tp_agents p)) (tc_agents c)) (tp_channels p)
     \<and> list_all skill_ok (tp_skills p)
     \<and> list_all (\<lambda>(t, roots). t = ''google-drive'' \<or> t = ''microsoft-onedrive'') (tp_sources p)
     \<and> js_trim (tp_tenant p) \<noteq> [] \<and> js_trim (tp_product p) \<noteq> []
     \<and> (js_trim (tp_theme p) = [] \<or> theme_text (tp_theme p))"

lemma agent_harness_ok: "agent_harness agent = Inr (Some h) \<Longrightarrow> js_trim h \<noteq> []"
  by (simp add: agent_harness_def split: if_splits) (blast dest: required_string_Inr)

lemma agent_configuration_ok:
  assumes "agent_configuration type harness agent = Inr c" "\<And>h. harness = Some h \<Longrightarrow> js_trim h \<noteq> []"
  shows "\<exists>k v. c = [(k, JStr v)] \<and> js_trim v \<noteq> [] \<and> (if type = Built_in then k = ''systemPrompt'' else k = ''harness'' \<or> k = ''endpoint'')"
proof (cases "type = Built_in")
  case True
  then show ?thesis using assms(1) by (simp add: agent_configuration_def) (blast dest: required_string_Inr)
next
  case False
  then show ?thesis using assms by (cases harness) (auto simp: agent_configuration_def dest!: required_string_Inr)
qed

lemma declared_agent_ok:
  assumes "declared_agent type harness i agent = Inr (Declared a)" "\<And>h. harness = Some h \<Longrightarrow> js_trim h \<noteq> []"
    "js_trim i \<noteq> []" "i \<notin> set deployment_routes"
  shows "agent_ok a"
proof -
  from assms(1) obtain name title job seed configuration where
    s: "required_string (js_field agent ''name'') ''agent.name'' = Inr name"
      "required_string (js_field agent ''title'') ''agent.title'' = Inr title"
      "required_string (js_field agent ''role_description'') ''agent.role_description'' = Inr job"
    and c: "agent_configuration type harness agent = Inr configuration"
    and a: "a = \<lparr>ta_id = i, ta_name = name, ta_title = title, ta_role = job, ta_seed = seed, ta_type = type,
         ta_configuration = configuration\<rparr>"
    unfolding declared_agent_def on_success_Inr by blast
  from agent_configuration_ok [OF c assms(2)] obtain k v where "configuration = [(k, JStr v)]" "js_trim v \<noteq> []"
    "if type = Built_in then k = ''systemPrompt'' else k = ''harness'' \<or> k = ''endpoint''" by blast
  then show ?thesis unfolding a agent_ok_def using s [THEN required_string_Inr] assms(3,4) by simp
qed

lemma parse_agent_ok:
  assumes "parse_agent v = Inr (Declared a)"
  shows "agent_ok a"
proof -
  from assms obtain agent where "(case agent_type_of agent of
       None \<Rightarrow> Inl ''agent.type must be built-in, remote-ag-ui or harness''
     | Some type \<Rightarrow>
         on_success (agent_harness agent) (\<lambda>harness.
         on_success (required_string (js_field agent ''id'') ''agent.id'') (\<lambda>i.
           if i \<in> set deployment_routes then Inl (reserved_name i)
           else if agent_left_out type harness agent then Inr (Omitted i)
           else declared_agent type harness i agent))) = Inr (Declared a)"
    unfolding parse_agent_def on_success_Inr by blast
  then obtain type harness i where "agent_harness agent = Inr harness"
    and i: "required_string (js_field agent ''id'') ''agent.id'' = Inr i"
    and d: "(if i \<in> set deployment_routes then Inl (reserved_name i)
           else if agent_left_out type harness agent then Inr (Omitted i)
           else declared_agent type harness i agent) = Inr (Declared a)"
    unfolding on_success_Inr by (cases "agent_type_of agent") auto
  then have "\<And>h. harness = Some h \<Longrightarrow> js_trim h \<noteq> []" using agent_harness_ok by blast
  moreover have "i \<notin> set deployment_routes" "declared_agent type harness i agent = Inr (Declared a)"
    using d by (simp_all split: if_splits)
  ultimately show ?thesis using declared_agent_ok required_string_Inr [OF i] by blast
qed

lemma parse_channel_ok:
  "parse_channel omitted ids v = Inr c \<Longrightarrow> js_trim (tc_id c) \<noteq> [] \<and> list_all (\<lambda>i. i \<in> set ids) (tc_agents c)"
  by (auto simp: parse_channel_def Let_def find_None_iff list_all_iff split: option.splits dest: required_string_Inr)

lemma parse_skill_ok:
  assumes "parse_skill v = Inr k"
  shows "skill_ok k"
proof -
  from assms obtain skill slug where k: "(if \<not> skill_slug slug then Inl (bad_slug slug)
     else on_success (skill_tools skill) (\<lambda>tools.
     on_success (required_string (js_field skill ''title'') ''skill.title'') (\<lambda>title.
     on_success (required_string (js_field skill ''summary'') ''skill.summary'') (\<lambda>summary.
     on_success (required_string (js_field skill ''instructions'') ''skill.instructions'') (\<lambda>instructions.
       Inr \<lparr>tk_slug = slug, tk_title = title, tk_summary = summary, tk_instructions = instructions, tk_tools = tools\<rparr>))))) = Inr k"
    unfolding parse_skill_def on_success_Inr by blast
  then have slug: "skill_slug slug" by (simp split: if_splits)
  have "\<not> \<not> skill_slug slug" using slug by blast
  note k [unfolded if_not_P [OF this] on_success_Inr]
  then obtain tools title summary instructions where tools: "skill_tools skill = Inr tools"
    and i: "required_string (js_field skill ''instructions'') ''skill.instructions'' = Inr instructions"
    and eq: "k = \<lparr>tk_slug = slug, tk_title = title, tk_summary = summary, tk_instructions = instructions, tk_tools = tools\<rparr>"
    by blast
  have "list_all tool_ref_shape tools"
    using tools by (auto simp: skill_tools_def find_None_iff list_all_iff split: if_splits option.splits)
  with slug required_string_Inr [OF i] show ?thesis by (simp add: skill_ok_def eq)
qed

lemma parse_source_ok:
  assumes "parse_source v = Inr x"
  shows "fst x = ''google-drive'' \<or> fst x = ''microsoft-onedrive''"
proof -
  have "source_type source = Some t \<Longrightarrow> t = ''google-drive'' \<or> t = ''microsoft-onedrive''" for source t
    by (auto simp: source_type_def split: if_splits)
  moreover obtain source t where "source_type source = Some t" "fst x = t"
    using assms unfolding parse_source_def by (elim on_successE) (auto split: option.splits)
  ultimately show ?thesis by blast
qed

lemma declared_agents_iff: "a \<in> set (declared_agents xs) \<longleftrightarrow> Declared a \<in> set xs"
  unfolding declared_agents_def by (induction xs) (simp_all split: parsed_agent.split)

lemma validated_parts:
  assumes "validate_tenant_package parse files = Inr p"
  shows "\<exists>parsed channels_json agents_json skills_json sources_json.
    (js_trim (fl_theme files) = [] \<or> validate_theme_css (fl_theme files) = Inr ())
    \<and> each parse_agent agents_json = Inr parsed \<and> tp_agents p = declared_agents parsed
    \<and> each (parse_channel (omitted_ids parsed) (map ta_id (declared_agents parsed))) channels_json = Inr (tp_channels p)
    \<and> each parse_source sources_json = Inr (tp_sources p)
    \<and> parse_tenant_skills skills_json = Inr (tp_skills p)
    \<and> js_trim (tp_tenant p) \<noteq> [] \<and> js_trim (tp_product p) \<noteq> [] \<and> tp_theme p = fl_theme files"
proof -
  from assms obtain agents_json parsed channels_json channels sources_json sources tenant tenant_id product skills_json skills stylesheet credential default_model u where
    theme: "(if js_trim (fl_theme files) \<noteq> [] then validate_theme_css (fl_theme files) else Inr ()) = Inr u"
    and parts: "each parse_agent agents_json = Inr parsed"
      "each (parse_channel (omitted_ids parsed) (map ta_id (declared_agents parsed))) channels_json = Inr channels"
      "each parse_source sources_json = Inr sources" "parse_tenant_skills skills_json = Inr skills"
    and names: "required_string (js_field tenant ''id'') ''tenant.id'' = Inr tenant_id"
      "required_string (js_field tenant ''product_name'') ''tenant.product_name'' = Inr product"
    and made: "Inr \<lparr>tp_tenant = tenant_id, tp_product = product, tp_stylesheet = stylesheet, tp_agents = declared_agents parsed,
         tp_channels = channels, tp_credential = credential, tp_model = default_model, tp_sources = sources, tp_skills = skills,
         tp_theme = fl_theme files\<rparr> = (Inr p :: string + tenant_package)"
    unfolding validate_tenant_package_def by (elim on_successE) (rule that)
  note p = made [unfolded sum.inject, symmetric]
  have "js_trim (fl_theme files) = [] \<or> validate_theme_css (fl_theme files) = Inr ()" using theme by (simp split: if_splits)
  with parts names [THEN required_string_Inr] show ?thesis
    unfolding p by (intro exI [of _ parsed] exI [of _ channels_json] exI [of _ agents_json] exI [of _ skills_json] exI [of _ sources_json]) simp
qed

text \<open>C33: an accepted package holds together. Every agent has an id that no path of the deployment has, a name and a
  configuration of its kind; a channel names only agents of the package; a skill has a name one can type and
  tools in the shape a grant has; and its theme, if there is one, only sets variables.\<close>

theorem accepted_package_holds_together:
  "case validate_tenant_package parse files of Inl e \<Rightarrow> True | Inr p \<Rightarrow> package_ok p"
proof (cases "validate_tenant_package parse files")
  case (Inr p)
  from validated_parts [OF Inr] obtain parsed channels_json agents_json skills_json sources_json where
    parts: "js_trim (fl_theme files) = [] \<or> validate_theme_css (fl_theme files) = Inr ()"
    "each parse_agent agents_json = Inr parsed" "tp_agents p = declared_agents parsed"
    "each (parse_channel (omitted_ids parsed) (map ta_id (declared_agents parsed))) channels_json = Inr (tp_channels p)"
    "each parse_source sources_json = Inr (tp_sources p)"
    "parse_tenant_skills skills_json = Inr (tp_skills p)"
    "js_trim (tp_tenant p) \<noteq> []" "js_trim (tp_product p) \<noteq> []" "tp_theme p = fl_theme files" by (elim exE conjE)
  have "list_all agent_ok (tp_agents p)"
    unfolding list_all_iff
  proof
    fix a assume "a \<in> set (tp_agents p)"
    then have "Declared a \<in> set parsed" by (simp only: parts(3) declared_agents_iff)
    from each_Inr [OF parts(2) this] show "agent_ok a" using parse_agent_ok by blast
  qed
  moreover have "list_all (\<lambda>c. js_trim (tc_id c) \<noteq> [] \<and> list_all (\<lambda>i. i \<in> ta_id ` set (tp_agents p)) (tc_agents c)) (tp_channels p)"
    unfolding list_all_iff [of _ "tp_channels p"]
  proof
    fix c assume "c \<in> set (tp_channels p)"
    from each_Inr [OF parts(4) this] obtain v where "parse_channel (omitted_ids parsed) (map ta_id (declared_agents parsed)) v = Inr c" by blast
    from parse_channel_ok [OF this] show "js_trim (tc_id c) \<noteq> [] \<and> list_all (\<lambda>i. i \<in> ta_id ` set (tp_agents p)) (tc_agents c)"
      unfolding parts(3) by simp
  qed
  moreover have "list_all (\<lambda>(t, roots). t = ''google-drive'' \<or> t = ''microsoft-onedrive'') (tp_sources p)"
    unfolding list_all_iff
  proof
    fix x assume "x \<in> set (tp_sources p)"
    from each_Inr [OF parts(5) this] show "case x of (t, roots) \<Rightarrow> t = ''google-drive'' \<or> t = ''microsoft-onedrive''"
      using parse_source_ok unfolding case_prod_beta by blast
  qed
  moreover have "list_all skill_ok (tp_skills p)"
  proof (cases "is_nullish skills_json")
    case True
    then show ?thesis using parts(6) by (simp add: parse_tenant_skills_def)
  next
    case False
    then obtain vs where "each parse_skill vs = Inr (tp_skills p)"
      using parts(6) unfolding parse_tenant_skills_def if_not_P [OF False] on_success_Inr by blast
    from each_Inr [OF this] show ?thesis using parse_skill_ok unfolding list_all_iff by blast
  qed
  moreover have "js_trim (tp_theme p) = [] \<or> theme_text (tp_theme p)"
    using parts(1) theme_of_validated [of "fl_theme files"] unfolding parts(9) by auto
  ultimately show ?thesis using parts(7,8) unfolding Inr sum.case package_ok_def by blast
qed simp

text \<open>A changed theme is not a changed package. The checksum is taken over the required files and the skills, so two
  packages that differ in their theme alone are loaded under one checksum.\<close>

theorem theme_is_not_in_the_checksum:
  "case (load_tenant_package sha256 parse read env path,
         load_tenant_package sha256 parse (read(''theme.css'' := Found other)) env path) of
     (Inr a, Inr b) \<Rightarrow> lp_checksum a = lp_checksum b | _ \<Rightarrow> True"
proof -
  have same: "each (read_required (read(''theme.css'' := Found other)) env) package_filenames = each (read_required read env) package_filenames"
    by (simp add: package_filenames_def read_required_def)
  have "lp_checksum a = lp_checksum b"
    if "load_tenant_package sha256 parse read env path = Inr a"
      "load_tenant_package sha256 parse (read(''theme.css'' := Found other)) env path = Inr b" for a b
    using that unfolding load_tenant_package_def same by (elim on_successE) auto
  then show ?thesis by (auto split: sum.split)
qed

end
