(* ===== verification/Tenant_Sync.thy ===== *)
theory Tenant_Sync
  imports Tenant Agents Plugins
begin

text \<open>
  Bringing the tables in line with a package at start (\<^verbatim>\<open>synchronizeTenantPackage\<close> of
  \<^verbatim>\<open>server/src/tenant-package.ts\<close>), with the tables of coworkers and of skills as \<open>Agents\<close> and \<open>Plugins\<close> have them.

  It is one transaction: what it did is undone when it throws. The id of a new package row and the clock are
  arguments.
\<close>

section \<open>Tables\<close>

record package_row =
  dp_id :: string
  dp_tenant :: string
  dp_source :: string
  dp_checksum :: string
  dp_loaded :: int

record channel_row =
  cr_id :: string
  cr_name :: string
  cr_description :: string
  cr_groups :: "string list"
  cr_package :: "string option"

record tenant_tables =
  tt_packages :: "package_row list"
  tt_agents :: agent_tables
  tt_channels :: "channel_row list"
  tt_channel_agents :: "(string \<times> string) list"
  tt_skills :: "skill_row list"
  tt_declared :: "declared_tool list"

section \<open>The steps\<close>

definition reserved_agents :: "tenant_tables \<Rightarrow> string list" where
  "reserved_agents t = map ag_id (filter (\<lambda>a. ag_id a \<in> set deployment_routes) (at_agents (tt_agents t)))"

definition put_package :: "string \<Rightarrow> int \<Rightarrow> loaded_package \<Rightarrow> tenant_tables \<Rightarrow> string \<times> tenant_tables" where
  "put_package fresh now p t =
     (case find (\<lambda>r. dp_tenant r = tp_tenant (lp_package p)) (tt_packages t) of
        Some r \<Rightarrow>
          (dp_id r, t\<lparr>tt_packages := map (\<lambda>q. if dp_tenant q = tp_tenant (lp_package p)
             then q\<lparr>dp_source := lp_source p, dp_checksum := lp_checksum p, dp_loaded := now\<rparr> else q) (tt_packages t)\<rparr>)
      | None \<Rightarrow>
          (fresh, t\<lparr>tt_packages := tt_packages t @ [\<lparr>dp_id = fresh, dp_tenant = tp_tenant (lp_package p),
             dp_source = lp_source p, dp_checksum = lp_checksum p, dp_loaded = now\<rparr>]\<rparr>))"

definition row_type :: "tenant_agent_type \<Rightarrow> agent_type" where
  "row_type type = (case type of Built_in \<Rightarrow> Built_in_agent | Remote_ag_ui \<Rightarrow> Remote_agent)"

definition put_agent_row :: "string \<Rightarrow> tenant_agent \<Rightarrow> agent_tables \<Rightarrow> string + agent_tables" where
  "put_agent_row package a t =
     (case find (\<lambda>r. ag_id r = ta_id a) (at_agents t) of
        None \<Rightarrow>
          Inr (t\<lparr>at_agents := at_agents t @ [\<lparr>ag_id = ta_id a, ag_name = ta_name a, ag_type = row_type (ta_type a),
            ag_configuration = ta_configuration a, ag_package = Some package\<rparr>]\<rparr>)
      | Some r \<Rightarrow>
          if ag_package r \<noteq> Some package then Inl (''Tenant package agent \"'' @ ta_id a @ ''\" collides with a user-created agent'')
          else Inr (t\<lparr>at_agents := map (\<lambda>q. if ag_id q = ta_id a
            then q\<lparr>ag_name := ta_name a, ag_type := row_type (ta_type a), ag_configuration := ta_configuration a,
                   ag_package := Some package\<rparr> else q) (at_agents t)\<rparr>))"

definition put_profile_row :: "tenant_agent \<Rightarrow> agent_tables \<Rightarrow> string + agent_tables" where
  "put_profile_row a t =
     (let seed = (case ta_seed a of Some s \<Rightarrow> s | None \<Rightarrow> ta_id a) in
      case find (\<lambda>r. pf_agent r = ta_id a) (at_profiles t) of
        None \<Rightarrow>
          Inr (t\<lparr>at_profiles := at_profiles t @ [\<lparr>pf_agent = ta_id a, pf_owner = None, pf_title = ta_title a, pf_role = ta_role a,
            pf_seed = seed, pf_visibility = Public, pf_token = None, pf_deleted = None\<rparr>]\<rparr>)
      | Some r \<Rightarrow>
          if pf_owner r \<noteq> None then Inl (''Tenant package agent \"'' @ ta_id a @ ''\" collides with a user-owned profile'')
          else Inr (t\<lparr>at_profiles := map (\<lambda>q. if pf_agent q = ta_id a
            then q\<lparr>pf_owner := None, pf_title := ta_title a, pf_role := ta_role a, pf_seed := seed, pf_visibility := Public,
                   pf_deleted := None\<rparr> else q) (at_profiles t)\<rparr>))"

definition put_agent :: "string \<Rightarrow> tenant_agent \<Rightarrow> tenant_tables \<Rightarrow> string + tenant_tables" where
  "put_agent package a t =
     on_success (put_agent_row package a (tt_agents t)) (\<lambda>u.
     on_success (put_profile_row a u) (\<lambda>v. Inr (t\<lparr>tt_agents := v\<rparr>)))"

definition put_channel_row :: "string \<Rightarrow> tenant_channel \<Rightarrow> channel_row list \<Rightarrow> channel_row list" where
  "put_channel_row package c rows =
     (if list_ex (\<lambda>r. cr_id r = tc_id c) rows
      then map (\<lambda>r. if cr_id r = tc_id c
        then r\<lparr>cr_name := tc_name c, cr_description := tc_description c, cr_groups := tc_groups c, cr_package := Some package\<rparr> else r) rows
      else rows @ [\<lparr>cr_id = tc_id c, cr_name = tc_name c, cr_description = tc_description c, cr_groups = tc_groups c,
        cr_package = Some package\<rparr>])"

definition duplicate_key :: string where
  "duplicate_key = ''duplicate key value violates unique constraint''"

definition put_channel :: "string \<Rightarrow> tenant_channel \<Rightarrow> tenant_tables \<Rightarrow> string + tenant_tables" where
  "put_channel package c t =
     (if \<not> distinct (tc_agents c) then Inl duplicate_key
      else Inr (t\<lparr>tt_channels := put_channel_row package c (tt_channels t),
        tt_channel_agents := filter (\<lambda>(i, a). i \<noteq> tc_id c) (tt_channel_agents t) @ map (\<lambda>a. (tc_id c, a)) (tc_agents c)\<rparr>))"

text \<open>A skill somebody wrote under the name keeps it, and the package's is passed over.\<close>

definition put_skill :: "tenant_skill \<Rightarrow> tenant_tables \<Rightarrow> string + tenant_tables" where
  "put_skill k t =
     (let declared = filter (\<lambda>d. dt_skill d \<noteq> tk_slug k) (tt_declared t) @ map (\<lambda>r. \<lparr>dt_skill = tk_slug k, dt_ref = r\<rparr>) (tk_tools k);
          written = (\<lambda>skills. if distinct (tk_tools k) then Inr (t\<lparr>tt_skills := skills, tt_declared := declared\<rparr>) else Inl duplicate_key) in
      case find (\<lambda>r. si_slug r = tk_slug k) (tt_skills t) of
        None \<Rightarrow>
          written (tt_skills t @ [\<lparr>si_slug = tk_slug k, si_owner = None, si_title = tk_title k, si_summary = tk_summary k,
            si_instructions = tk_instructions k, si_origin = ''catalogue'', si_by = None\<rparr>])
      | Some r \<Rightarrow>
          if si_origin r \<noteq> ''catalogue'' then Inr t
          else written (map (\<lambda>q. if si_slug q = tk_slug k
            then q\<lparr>si_title := tk_title k, si_summary := tk_summary k, si_instructions := tk_instructions k\<rparr> else q) (tt_skills t)))"

fun in_turn :: "('a \<Rightarrow> 's \<Rightarrow> 'e + 's) \<Rightarrow> 'a list \<Rightarrow> 's \<Rightarrow> 'e + 's" where
  "in_turn f [] s = Inr s"
| "in_turn f (x # xs) s = on_success (f x s) (in_turn f xs)"

definition synchronized :: "string \<Rightarrow> int \<Rightarrow> loaded_package \<Rightarrow> tenant_tables \<Rightarrow> string + tenant_tables" where
  "synchronized fresh now p t =
     (let held = reserved_agents t in
      if held \<noteq> [] then Inl (''Bot '' @ join_with '', '' (map (\<lambda>i. ''\"'' @ i @ ''\"'') held)
        @ '' is reserved for a deployment route and cannot exist; rename or remove it before this deployment can start'')
      else (case put_package fresh now p t of (package, t1) \<Rightarrow>
        on_success (in_turn (put_agent package) (tp_agents (lp_package p)) t1) (\<lambda>t2.
        on_success (in_turn (put_channel package) (tp_channels (lp_package p)) t2) (\<lambda>t3.
          in_turn put_skill (tp_skills (lp_package p)) t3))))"

definition synchronize_tenant_package ::
  "string \<Rightarrow> int \<Rightarrow> loaded_package \<Rightarrow> tenant_tables \<Rightarrow> (string + unit) \<times> tenant_tables" where
  "synchronize_tenant_package fresh now p t =
     (case synchronized fresh now p t of Inl e \<Rightarrow> (Inl e, t) | Inr t' \<Rightarrow> (Inr (), t'))"

definition active_package :: "tenant_tables \<Rightarrow> package_row option" where
  "active_package t =
     (case sort_key (\<lambda>r. - dp_loaded r) (tt_packages t) of [] \<Rightarrow> None | r # rs \<Rightarrow> Some r)"

section \<open>Steps in turn\<close>

lemma in_turn_keeps:
  assumes "in_turn f xs s = Inr s'" "\<And>x s s'. x \<in> set xs \<Longrightarrow> P s \<Longrightarrow> f x s = Inr s' \<Longrightarrow> P s'" "P s"
  shows "P s'"
  using assms
proof (induction xs arbitrary: s)
  case (Cons x xs)
  from Cons.prems(1) obtain u where u: "f x s = Inr u" "in_turn f xs u = Inr s'" by (auto simp del: on_success_Inr elim: on_successE)
  have "P u" using Cons.prems(2,3) u(1) by (meson list.set_intros(1))
  with Cons.IH [OF u(2)] Cons.prems(2) show ?case by (meson list.set_intros(2))
qed simp

lemma in_turn_each:
  assumes "in_turn f xs s = Inr s'" "x \<in> set xs" "distinct (map key xs)"
    and made: "\<And>x s s'. f x s = Inr s' \<Longrightarrow> Q x s'"
    and kept: "\<And>x y s s'. key y \<noteq> key x \<Longrightarrow> Q x s \<Longrightarrow> f y s = Inr s' \<Longrightarrow> Q x s'"
  shows "Q x s'"
  using assms(1-3)
proof (induction xs arbitrary: s)
  case (Cons y xs)
  from Cons.prems(1) obtain u where u: "f y s = Inr u" "in_turn f xs u = Inr s'" by (auto simp del: on_success_Inr elim: on_successE)
  show ?case
  proof (cases "x \<in> set xs")
    case True
    then show ?thesis using Cons.IH [OF u(2)] Cons.prems(3) by simp
  next
    case False
    then have x: "x = y" using Cons.prems(2) by simp
    have "key z \<noteq> key x" if "z \<in> set xs" for z using that Cons.prems(3) unfolding x by (auto simp: image_iff)
    then show ?thesis using in_turn_keeps [OF u(2), of "Q x"] made [OF u(1)] kept x by blast
  qed
qed simp

section \<open>What stays\<close>

definition agent_at :: "string \<Rightarrow> tenant_tables \<Rightarrow> agent_row option" where
  "agent_at i t = find (\<lambda>r. ag_id r = i) (at_agents (tt_agents t))"

definition profile_at :: "string \<Rightarrow> tenant_tables \<Rightarrow> profile_row option" where
  "profile_at i t = find (\<lambda>r. pf_agent r = i) (at_profiles (tt_agents t))"

definition skill_at :: "string \<Rightarrow> tenant_tables \<Rightarrow> (skill_row \<times> declared_tool list) option" where
  "skill_at i t = map_option (\<lambda>r. (r, filter (\<lambda>d. dt_skill d = i) (tt_declared t))) (find (\<lambda>r. si_slug r = i) (tt_skills t))"

definition channel_at :: "string \<Rightarrow> tenant_tables \<Rightarrow> channel_row option \<times> string list" where
  "channel_at i t =
     (find (\<lambda>r. cr_id r = i) (tt_channels t), map snd (filter (\<lambda>(c, a). c = i) (tt_channel_agents t)))"

lemma find_appended: "find P (xs @ ys) = (case find P xs of Some x \<Rightarrow> Some x | None \<Rightarrow> find P ys)"
  by (induction xs) simp_all

lemma find_changed:
  "(\<And>x. P (f x) = P x) \<Longrightarrow> find P (map f xs) = map_option f (find P xs)"
  by (induction xs) simp_all

lemma find_agent_changed:
  "find (\<lambda>r. ag_id r = i) (map (\<lambda>q. if ag_id q = j then f q else q) rows) =
     (if i = j then map_option f (find (\<lambda>r. ag_id r = i) rows) else find (\<lambda>r. ag_id r = i) rows)" if "\<And>q. ag_id (f q) = ag_id q" for f
  by (induction rows) (auto simp: that)

lemma find_profile_changed:
  "find (\<lambda>r. pf_agent r = i) (map (\<lambda>q. if pf_agent q = j then f q else q) rows) =
     (if i = j then map_option f (find (\<lambda>r. pf_agent r = i) rows) else find (\<lambda>r. pf_agent r = i) rows)" if "\<And>q. pf_agent (f q) = pf_agent q" for f
  by (induction rows) (auto simp: that)

lemma find_skill_changed:
  "find (\<lambda>r. si_slug r = i) (map (\<lambda>q. if si_slug q = j then f q else q) rows) =
     (if i = j then map_option f (find (\<lambda>r. si_slug r = i) rows) else find (\<lambda>r. si_slug r = i) rows)" if "\<And>q. si_slug (f q) = si_slug q" for f
  by (induction rows) (auto simp: that)

lemma find_channel_changed:
  "find (\<lambda>r. cr_id r = i) (map (\<lambda>q. if cr_id q = j then f q else q) rows) =
     (if i = j then map_option f (find (\<lambda>r. cr_id r = i) rows) else find (\<lambda>r. cr_id r = i) rows)" if "\<And>q. cr_id (f q) = cr_id q" for f
  by (induction rows) (auto simp: that)

lemma find_channel_put: "i \<noteq> tc_id c \<Longrightarrow> find (\<lambda>r. cr_id r = i) (put_channel_row package c rows) = find (\<lambda>r. cr_id r = i) rows"
  by (simp add: put_channel_row_def find_appended find_channel_changed split: option.split)

lemma put_agent_rows:
  assumes "put_agent package a t = Inr t'"
  shows "tt_channels t' = tt_channels t" "tt_channel_agents t' = tt_channel_agents t" "tt_skills t' = tt_skills t"
    "tt_declared t' = tt_declared t"
    "\<exists>r. agent_at (ta_id a) t' = Some r \<and> ag_name r = ta_name a \<and> ag_type r = row_type (ta_type a)
       \<and> ag_configuration r = ta_configuration a \<and> ag_package r = Some package"
    "\<exists>p. profile_at (ta_id a) t' = Some p \<and> pf_owner p = None \<and> pf_title p = ta_title a \<and> pf_role p = ta_role a
       \<and> pf_visibility p = Public \<and> pf_deleted p = None"
    "i \<noteq> ta_id a \<Longrightarrow> agent_at i t' = agent_at i t \<and> profile_at i t' = profile_at i t"
    "agent_at (ta_id a) t = Some r \<Longrightarrow> ag_package r = Some package"
    "profile_at (ta_id a) t = Some p \<Longrightarrow> pf_owner p = None"
    "set (map ag_id (at_agents (tt_agents t'))) \<subseteq> insert (ta_id a) (set (map ag_id (at_agents (tt_agents t))))"
proof -
  from assms obtain u v where u: "put_agent_row package a (tt_agents t) = Inr u" and v: "put_profile_row a u = Inr v"
    and t': "t' = t\<lparr>tt_agents := v\<rparr>" unfolding put_agent_def by (elim on_successE) simp
  show "tt_channels t' = tt_channels t" "tt_channel_agents t' = tt_channel_agents t" "tt_skills t' = tt_skills t"
    "tt_declared t' = tt_declared t" by (simp_all add: t')
  have same: "at_agents v = at_agents u" "at_profiles u = at_profiles (tt_agents t)"
    using u v by (auto simp: put_agent_row_def put_profile_row_def Let_def split: option.splits if_splits)
  show "\<exists>r. agent_at (ta_id a) t' = Some r \<and> ag_name r = ta_name a \<and> ag_type r = row_type (ta_type a)
       \<and> ag_configuration r = ta_configuration a \<and> ag_package r = Some package"
    using u by (auto simp: t' agent_at_def same(1) put_agent_row_def find_appended find_agent_changed split: option.splits if_splits)
  show "\<exists>p. profile_at (ta_id a) t' = Some p \<and> pf_owner p = None \<and> pf_title p = ta_title a \<and> pf_role p = ta_role a
       \<and> pf_visibility p = Public \<and> pf_deleted p = None"
    using v by (auto simp: t' profile_at_def put_profile_row_def Let_def find_appended find_profile_changed split: option.splits if_splits)
  show "i \<noteq> ta_id a \<Longrightarrow> agent_at i t' = agent_at i t \<and> profile_at i t' = profile_at i t"
    using u v same by (auto simp: t' agent_at_def profile_at_def put_agent_row_def put_profile_row_def Let_def find_appended
      find_agent_changed find_profile_changed split: option.splits if_splits)
  show "agent_at (ta_id a) t = Some r \<Longrightarrow> ag_package r = Some package"
    using u by (auto simp: agent_at_def put_agent_row_def split: if_splits)
  show "profile_at (ta_id a) t = Some p \<Longrightarrow> pf_owner p = None"
    using v by (auto simp: profile_at_def put_profile_row_def same Let_def split: if_splits)
  show "set (map ag_id (at_agents (tt_agents t'))) \<subseteq> insert (ta_id a) (set (map ag_id (at_agents (tt_agents t))))"
    using u by (auto simp: t' same(1) put_agent_row_def split: option.splits if_splits)
qed

lemma put_channel_rows:
  assumes "put_channel package c t = Inr t'"
  shows "tt_agents t' = tt_agents t" "tt_skills t' = tt_skills t" "tt_declared t' = tt_declared t"
    "snd (channel_at (tc_id c) t') = tc_agents c" "i \<noteq> tc_id c \<Longrightarrow> channel_at i t' = channel_at i t"
proof -
  have t': "t' = t\<lparr>tt_channels := put_channel_row package c (tt_channels t),
        tt_channel_agents := filter (\<lambda>(i, a). i \<noteq> tc_id c) (tt_channel_agents t) @ map (\<lambda>a. (tc_id c, a)) (tc_agents c)\<rparr>"
    using assms by (auto simp: put_channel_def split: if_splits)
  show "tt_agents t' = tt_agents t" "tt_skills t' = tt_skills t" "tt_declared t' = tt_declared t" by (simp_all add: t')
  have "filter (\<lambda>(i, a). i = tc_id c) (filter (\<lambda>(i, a). i \<noteq> tc_id c) xs) = []" for xs :: "(string \<times> string) list"
    by (induction xs) auto
  then show "snd (channel_at (tc_id c) t') = tc_agents c"
    by (simp add: channel_at_def t' filter_map comp_def del: filter_filter)
  have "filter (\<lambda>(j, a). j = i) (filter (\<lambda>(j, a). j \<noteq> tc_id c) xs) = filter (\<lambda>(j, a). j = i) xs" if "i \<noteq> tc_id c" for xs :: "(string \<times> string) list"
    using that by (induction xs) auto
  then show "i \<noteq> tc_id c \<Longrightarrow> channel_at i t' = channel_at i t"
    by (simp add: channel_at_def t' find_channel_put filter_map comp_def del: filter_filter)
qed

lemma put_skill_rows:
  assumes "put_skill k t = Inr t'"
  shows "tt_agents t' = tt_agents t" "channel_at i t' = channel_at i t"
    "case skill_at i t of None \<Rightarrow> True | Some (r, tools) \<Rightarrow> if si_origin r \<noteq> ''catalogue'' then skill_at i t' = skill_at i t else True"
proof -
  show "tt_agents t' = tt_agents t" "channel_at i t' = channel_at i t"
    using assms by (auto simp: put_skill_def Let_def channel_at_def split: option.splits if_splits)
  have declared: "filter (\<lambda>d. dt_skill d = i) (filter (\<lambda>d. dt_skill d \<noteq> tk_slug k) xs) = filter (\<lambda>d. dt_skill d = i) xs"
    if "i \<noteq> tk_slug k" for xs :: "declared_tool list"
    using that by (induction xs) auto
  show "case skill_at i t of None \<Rightarrow> True | Some (r, tools) \<Rightarrow> if si_origin r \<noteq> ''catalogue'' then skill_at i t' = skill_at i t else True"
  proof (cases "i = tk_slug k")
    case True
    then show ?thesis using assms by (auto simp: put_skill_def skill_at_def split: option.split)
  next
    case False
    then have "skill_at i t' = skill_at i t"
      using assms by (auto simp: put_skill_def skill_at_def Let_def find_appended find_skill_changed declared filter_map comp_def
        simp del: filter_filter split: option.splits if_splits)
    then show ?thesis by (simp split: option.split)
  qed
qed

lemma put_package_rows:
  "tt_agents (snd (put_package fresh now p t)) = tt_agents t" "tt_channels (snd (put_package fresh now p t)) = tt_channels t"
  "tt_channel_agents (snd (put_package fresh now p t)) = tt_channel_agents t" "tt_skills (snd (put_package fresh now p t)) = tt_skills t"
  "tt_declared (snd (put_package fresh now p t)) = tt_declared t"
  by (simp_all add: put_package_def split: option.split)

lemma synchronized_steps:
  assumes "synchronized fresh now p t = Inr t'"
  obtains t1 t2 t3 where "reserved_agents t = []" "t1 = snd (put_package fresh now p t)"
    "in_turn (put_agent (fst (put_package fresh now p t))) (tp_agents (lp_package p)) t1 = Inr t2"
    "in_turn (put_channel (fst (put_package fresh now p t))) (tp_channels (lp_package p)) t2 = Inr t3"
    "in_turn put_skill (tp_skills (lp_package p)) t3 = Inr t'"
proof -
  obtain package t1 where pk: "put_package fresh now p t = (package, t1)" by (cases "put_package fresh now p t")
  have none: "reserved_agents t = []" using assms by (auto simp: synchronized_def Let_def split: if_splits)
  have "on_success (in_turn (put_agent package) (tp_agents (lp_package p)) t1) (\<lambda>t2.
        on_success (in_turn (put_channel package) (tp_channels (lp_package p)) t2) (\<lambda>t3.
          in_turn put_skill (tp_skills (lp_package p)) t3)) = Inr t'"
    using assms none by (simp add: synchronized_def pk)
  then show ?thesis by (elim on_successE) (rule that, simp_all add: none pk)
qed

definition kept_agent :: "string \<Rightarrow> string \<Rightarrow> tenant_tables \<Rightarrow> tenant_tables \<Rightarrow> bool" where
  "kept_agent package i t t' \<longleftrightarrow>
     (case agent_at i t of Some r \<Rightarrow> if ag_package r \<noteq> Some package then agent_at i t' = Some r else True | None \<Rightarrow> True)
     \<and> (case profile_at i t of Some p \<Rightarrow> if pf_owner p \<noteq> None then profile_at i t' = Some p else True | None \<Rightarrow> True)"

definition kept_skill :: "string \<Rightarrow> tenant_tables \<Rightarrow> tenant_tables \<Rightarrow> bool" where
  "kept_skill i t t' \<longleftrightarrow>
     (case skill_at i t of None \<Rightarrow> True | Some (r, tools) \<Rightarrow> if si_origin r \<noteq> ''catalogue'' then skill_at i t' = skill_at i t else True)"

lemma put_agent_keeps: "put_agent package a t = Inr t' \<Longrightarrow> kept_agent package i t t'"
proof -
  assume a: "put_agent package a t = Inr t'"
  show "kept_agent package i t t'"
  proof (cases "i = ta_id a")
    case True
    then show ?thesis using put_agent_rows(8,9) [OF a] by (auto simp: kept_agent_def split: option.split)
  next
    case False
    then show ?thesis using put_agent_rows(7) [OF a False] by (auto simp: kept_agent_def split: option.split)
  qed
qed

lemma kept_agent_refl: "kept_agent package i t t"
  by (simp add: kept_agent_def split: option.split)

lemma kept_agent_trans: "kept_agent package i t u \<Longrightarrow> kept_agent package i u v \<Longrightarrow> kept_agent package i t v"
  by (auto simp: kept_agent_def split: option.splits if_splits)

lemma kept_agent_same: "tt_agents t' = tt_agents u \<Longrightarrow> kept_agent package i t u \<Longrightarrow> kept_agent package i t t'"
proof -
  assume "tt_agents t' = tt_agents u"
  then have "agent_at i t' = agent_at i u" "profile_at i t' = profile_at i u" by (simp_all add: agent_at_def profile_at_def)
  then show "kept_agent package i t u \<Longrightarrow> kept_agent package i t t'" by (simp only: kept_agent_def)
qed

lemma kept_skill_refl: "kept_skill i t t"
  by (simp add: kept_skill_def split: option.split)

lemma kept_skill_trans: "kept_skill i t u \<Longrightarrow> kept_skill i u v \<Longrightarrow> kept_skill i t v"
  by (auto simp: kept_skill_def split: option.splits if_splits)

lemma skill_at_same: "tt_skills t' = tt_skills t \<Longrightarrow> tt_declared t' = tt_declared t \<Longrightarrow> skill_at i t' = skill_at i t"
  by (simp add: skill_at_def)

lemma kept_skill_same: "skill_at i t' = skill_at i u \<Longrightarrow> kept_skill i t u \<Longrightarrow> kept_skill i t t'"
  by (simp only: kept_skill_def)

text \<open>C25: starting a deployment takes nothing away from people. Whatever package is loaded, a coworker that is not of
  that package and a profile somebody owns are as they were, so is a skill somebody wrote, with its tools, and
  the coworkers of a channel the package does not name; and a start that is refused changes nothing at all.\<close>

theorem start_spares_people:
  "case synchronize_tenant_package fresh now p t of (r, t') \<Rightarrow>
     (case r of Inl e \<Rightarrow> t' = t | Inr u \<Rightarrow> True)
     \<and> kept_agent (fst (put_package fresh now p t)) i t t'
     \<and> kept_skill i t t'
     \<and> (if i \<notin> tc_id ` set (tp_channels (lp_package p)) then channel_at i t' = channel_at i t else True)"
proof (cases "synchronized fresh now p t")
  case (Inl e)
  then show ?thesis by (simp add: synchronize_tenant_package_def kept_agent_refl kept_skill_refl)
next
  case (Inr t')
  let ?package = "fst (put_package fresh now p t)"
  obtain t1 t2 t3 where "reserved_agents t = []" and
    t1: "t1 = snd (put_package fresh now p t)" and
    t2: "in_turn (put_agent ?package) (tp_agents (lp_package p)) t1 = Inr t2" and
    t3: "in_turn (put_channel ?package) (tp_channels (lp_package p)) t2 = Inr t3" and
    t': "in_turn put_skill (tp_skills (lp_package p)) t3 = Inr t'"
    by (rule synchronized_steps [OF Inr])
  note start = put_package_rows [of fresh now p t, folded t1]
  have "kept_agent ?package i t t1" using start(1) kept_agent_refl by (rule kept_agent_same)
  then have "kept_agent ?package i t t2"
    by (rule in_turn_keeps [OF t2, of "kept_agent ?package i t", rotated]) (rule kept_agent_trans, assumption, rule put_agent_keeps)
  then have "kept_agent ?package i t t3"
    by (rule in_turn_keeps [OF t3, of "kept_agent ?package i t", rotated]) (rule kept_agent_same, rule put_channel_rows(1))
  then have agent: "kept_agent ?package i t t'"
    by (rule in_turn_keeps [OF t', of "kept_agent ?package i t", rotated]) (rule kept_agent_same, rule put_skill_rows(1))
  have "kept_skill i t t1" using kept_skill_same [OF skill_at_same [OF start(4,5)] kept_skill_refl] .
  then have "kept_skill i t t2"
    by (rule in_turn_keeps [OF t2, of "kept_skill i t", rotated])
      (rule kept_skill_same, rule skill_at_same, rule put_agent_rows(3), assumption, rule put_agent_rows(4))
  then have "kept_skill i t t3"
    by (rule in_turn_keeps [OF t3, of "kept_skill i t", rotated])
      (rule kept_skill_same, rule skill_at_same, rule put_channel_rows(2), assumption, rule put_channel_rows(3))
  then have skill: "kept_skill i t t'"
    by (rule in_turn_keeps [OF t', of "kept_skill i t", rotated])
      (rule kept_skill_trans, assumption, rule put_skill_rows(3) [folded kept_skill_def])
  have "channel_at i t' = channel_at i t" if "i \<notin> tc_id ` set (tp_channels (lp_package p))"
  proof -
    have "channel_at i t1 = channel_at i t" using start(2,3) by (simp add: channel_at_def)
    then have "channel_at i t2 = channel_at i t"
      by (rule in_turn_keeps [OF t2, of "\<lambda>u. channel_at i u = channel_at i t", rotated])
         (metis channel_at_def put_agent_rows(1,2))
    then have "channel_at i t3 = channel_at i t"
      by (rule in_turn_keeps [OF t3, of "\<lambda>u. channel_at i u = channel_at i t", rotated])
         (metis that image_eqI put_channel_rows(5))
    then show ?thesis
      by (rule in_turn_keeps [OF t', of "\<lambda>u. channel_at i u = channel_at i t", rotated]) (metis put_skill_rows(2))
  qed
  then show ?thesis using agent skill by (simp add: synchronize_tenant_package_def Inr)
qed

section \<open>What is there afterwards\<close>

definition agent_brought_in :: "string \<Rightarrow> tenant_agent \<Rightarrow> tenant_tables \<Rightarrow> bool" where
  "agent_brought_in package a t \<longleftrightarrow>
     (\<exists>r. agent_at (ta_id a) t = Some r \<and> ag_name r = ta_name a \<and> ag_type r = row_type (ta_type a)
        \<and> ag_configuration r = ta_configuration a \<and> ag_package r = Some package)
     \<and> (\<exists>p. profile_at (ta_id a) t = Some p \<and> pf_owner p = None \<and> pf_title p = ta_title a \<and> pf_role p = ta_role a
        \<and> pf_visibility p = Public \<and> pf_deleted p = None)"

lemma agent_brought_in_same: "tt_agents t' = tt_agents t \<Longrightarrow> agent_brought_in package a t \<Longrightarrow> agent_brought_in package a t'"
  by (simp add: agent_brought_in_def agent_at_def profile_at_def)

text \<open>C23: a deployment that starts is the one its package describes. Of a package that holds together, every coworker is
  there as it is declared, seen by everybody; every channel has exactly the coworkers it permits; and no
  coworker whatever has the name of a path of the deployment.\<close>

theorem started_deployment_is_the_package:
  "case synchronize_tenant_package fresh now p t of
     (Inl e, t') \<Rightarrow> True
   | (Inr u, t') \<Rightarrow>
       (if distinct (map ta_id (tp_agents (lp_package p)))
        then list_all (\<lambda>a. agent_brought_in (fst (put_package fresh now p t)) a t') (tp_agents (lp_package p)) else True)
       \<and> (if distinct (map tc_id (tp_channels (lp_package p)))
          then list_all (\<lambda>c. snd (channel_at (tc_id c) t') = tc_agents c) (tp_channels (lp_package p)) else True)
       \<and> (if package_ok (lp_package p) then reserved_agents t' = [] else True)"
proof (cases "synchronized fresh now p t")
  case (Inr t')
  let ?package = "fst (put_package fresh now p t)" and ?agents = "tp_agents (lp_package p)" and ?channels = "tp_channels (lp_package p)"
  obtain t1 t2 t3 where none: "reserved_agents t = []" and
    t1: "t1 = snd (put_package fresh now p t)" and
    t2: "in_turn (put_agent ?package) ?agents t1 = Inr t2" and
    t3: "in_turn (put_channel ?package) ?channels t2 = Inr t3" and
    t': "in_turn put_skill (tp_skills (lp_package p)) t3 = Inr t'"
    by (rule synchronized_steps [OF Inr])
  note start = put_package_rows [of fresh now p t, folded t1]
  have same: "tt_agents t' = tt_agents t2"
  proof -
    have "tt_agents t3 = tt_agents t2" by (rule in_turn_keeps [OF t3, of "\<lambda>u. tt_agents u = tt_agents t2"]) (simp_all add: put_channel_rows(1))
    then show ?thesis by (rule in_turn_keeps [OF t', of "\<lambda>u. tt_agents u = tt_agents t2", rotated]) (simp add: put_skill_rows(1))
  qed
  have "agent_brought_in ?package a t'" if "distinct (map ta_id ?agents)" "a \<in> set ?agents" for a
  proof -
    have "agent_brought_in ?package a t2"
    proof (rule in_turn_each [OF t2 that(2,1), of "agent_brought_in ?package"])
      show "agent_brought_in ?package x s'" if "put_agent ?package x s = Inr s'" for x s s'
        unfolding agent_brought_in_def using put_agent_rows(5,6) [OF that] by blast
      show "agent_brought_in ?package x s'"
        if "ta_id y \<noteq> ta_id x" "agent_brought_in ?package x s" "put_agent ?package y s = Inr s'" for x y s s'
        using that(2) put_agent_rows(7) [OF that(3), of "ta_id x"] that(1) by (simp add: agent_brought_in_def)
    qed
    then show ?thesis by (rule agent_brought_in_same [OF same])
  qed
  moreover have "snd (channel_at (tc_id c) t') = tc_agents c" if "distinct (map tc_id ?channels)" "c \<in> set ?channels" for c
  proof -
    have "snd (channel_at (tc_id c) t3) = tc_agents c"
    proof (rule in_turn_each [OF t3 that(2,1), of "\<lambda>c u. snd (channel_at (tc_id c) u) = tc_agents c"])
      show "snd (channel_at (tc_id x) s') = tc_agents x" if "put_channel ?package x s = Inr s'" for x s s'
        using put_channel_rows(4) [OF that] .
      show "snd (channel_at (tc_id x) s') = tc_agents x"
        if "tc_id y \<noteq> tc_id x" "snd (channel_at (tc_id x) s) = tc_agents x" "put_channel ?package y s = Inr s'" for x y s s'
        using that(2) put_channel_rows(5) [OF that(3), of "tc_id x"] that(1) by simp
    qed
    then show ?thesis
      by (rule in_turn_keeps [OF t', of "\<lambda>u. snd (channel_at (tc_id c) u) = tc_agents c", rotated]) (metis put_skill_rows(2))
  qed
  moreover have "reserved_agents t' = []" if "package_ok (lp_package p)"
  proof -
    let ?free = "\<lambda>u. \<forall>i \<in> set (map ag_id (at_agents (tt_agents u))). i \<notin> set deployment_routes"
    have free: "?free t1" using none start(1) by (auto simp: reserved_agents_def filter_empty_conv)
    have "?free t2"
    proof (rule in_turn_keeps [OF t2, of ?free])
      show "?free s'" if x: "x \<in> set ?agents" "?free s" "put_agent ?package x s = Inr s'" for x s s'
      proof -
        have "agent_ok x" using \<open>package_ok (lp_package p)\<close> x(1) unfolding package_ok_def list_all_iff by blast
        then have "ta_id x \<notin> set deployment_routes" unfolding agent_ok_def by blast
        then show ?thesis using put_agent_rows(10) [OF x(3)] x(2) by blast
      qed
    qed (rule free)
    then show ?thesis unfolding reserved_agents_def same by (auto simp: filter_empty_conv)
  qed
  ultimately show ?thesis by (auto simp: synchronize_tenant_package_def Inr list_all_iff)
qed (simp add: synchronize_tenant_package_def)

text \<open>A tool named twice stops the deployment. A skill whose list repeats a reference is accepted with its package,
  and its rows are refused by the table, which undoes the whole start.\<close>

theorem doubled_reference_stops_the_start:
  "let k = \<lparr>tk_slug = ''find'', tk_title = ''t'', tk_summary = ''s'', tk_instructions = ''i'', tk_tools = [''a/b'', ''a/b'']\<rparr>;
       json = JObj [(''slug'', JStr ''find''), (''title'', JStr ''t''), (''summary'', JStr ''s''), (''instructions'', JStr ''i''),
         (''tools'', JArr [JStr ''a/b'', JStr ''a/b''])] in
   parse_skill json = Inr k
   \<and> (case synchronize_tenant_package fresh now
        \<lparr>lp_package = \<lparr>tp_tenant = ''t'', tp_product = ''p'', tp_stylesheet = None, tp_agents = [], tp_channels = [],
           tp_credential = ''c'', tp_model = ''m'', tp_sources = [], tp_skills = [k], tp_theme = []\<rparr>, lp_source = [], lp_checksum = []\<rparr>
        \<lparr>tt_packages = [], tt_agents = \<lparr>at_agents = [], at_profiles = [], at_preferences = []\<rparr>, tt_channels = [],
          tt_channel_agents = [], tt_skills = [], tt_declared = []\<rparr> of (r, t') \<Rightarrow> r = Inl duplicate_key)"
  unfolding Let_def
proof (rule conjI)
  show "parse_skill (JObj [(''slug'', JStr ''find''), (''title'', JStr ''t''), (''summary'', JStr ''s''), (''instructions'', JStr ''i''),
         (''tools'', JArr [JStr ''a/b'', JStr ''a/b''])])
      = Inr \<lparr>tk_slug = ''find'', tk_title = ''t'', tk_summary = ''s'', tk_instructions = ''i'', tk_tools = [''a/b'', ''a/b'']\<rparr>"
    by code_simp
qed (simp add: synchronize_tenant_package_def synchronized_def reserved_agents_def put_package_def put_skill_def)

end
