(* ===== verification/Components.thy ===== *)
theory Components
  imports Roles Audit_Trail "HOL-Library.List_Lexorder" "HOL-Library.Char_ord"
begin

text \<open>
  What a Bot may answer with (\<^verbatim>\<open>server/src/components/store.ts\<close>, \<^verbatim>\<open>functions.ts\<close>, \<^verbatim>\<open>sandboxed.ts\<close>, and
  their tables in \<^verbatim>\<open>db/schema/components.ts\<close> and \<^verbatim>\<open>plugins.ts\<close>): the components of a build, what each Bot is
  held back from, the data a component may read, and the components written in a browser.

  The clock is an argument. Of the database the primary keys, the references and their cascades are used;
  the collation of a listing is a parameter, and so are the answers of the two queries over the trail.
\<close>

section \<open>Tables\<close>

record component_row =
  cm_name :: string
  cm_title :: string
  cm_kind :: string
  cm_draft :: string
  cm_description :: "string option"
  cm_published :: bool
  cm_published_at :: "int option"
  cm_by :: "string option"
  cm_updated :: int

record sandboxed_row =
  sb_name :: string
  sb_title :: string
  sb_draft_description :: string
  sb_draft_html :: string
  sb_draft_css :: string
  sb_draft_js :: string
  sb_draft_schema :: jsv
  sb_description :: "string option"
  sb_html :: "string option"
  sb_css :: "string option"
  sb_js :: "string option"
  sb_schema :: "jsv option"
  sb_sample :: jsv
  sb_revision :: int
  sb_published :: bool
  sb_published_at :: "int option"
  sb_by :: "string option"

record exclusion_row =
  ex_component :: string
  ex_agent :: string
  ex_by :: "string option"

record function_row =
  fx_component :: string
  fx_function :: string
  fx_by :: "string option"

record component_tables =
  ct_components :: "component_row list"
  ct_excluded :: "exclusion_row list"
  ct_functions :: "function_row list"
  ct_sandboxed :: "sandboxed_row list"
  ct_agents :: "string list"

definition component_at :: "string \<Rightarrow> component_tables \<Rightarrow> component_row option" where
  "component_at name t = find (\<lambda>r. cm_name r = name) (ct_components t)"

definition withheld :: "string \<Rightarrow> string \<Rightarrow> component_tables \<Rightarrow> bool" where
  "withheld name agent t \<longleftrightarrow> list_ex (\<lambda>x. ex_component x = name \<and> ex_agent x = agent) (ct_excluded t)"

definition change_component :: "string \<Rightarrow> (component_row \<Rightarrow> component_row) \<Rightarrow> component_tables \<Rightarrow> component_tables" where
  "change_component name f t = t\<lparr>ct_components := map (\<lambda>r. if cm_name r = name then f r else r) (ct_components t)\<rparr>"

section \<open>What a build announces\<close>

record announced_component =
  ce_name :: string
  ce_title :: string
  ce_kind :: string
  ce_description :: string

text \<open>Of the entries the ones whose name no row has, and of two with one name the first: the insert does nothing on a conflict.\<close>

fun new_entries :: "string list \<Rightarrow> announced_component list \<Rightarrow> announced_component list" where
  "new_entries known [] = []"
| "new_entries known (e # es) =
     (if ce_name e \<in> set known then new_entries known es else e # new_entries (ce_name e # known) es)"

definition announced_row :: "int \<Rightarrow> announced_component \<Rightarrow> component_row" where
  "announced_row now e =
     \<lparr>cm_name = ce_name e, cm_title = ce_title e, cm_kind = ce_kind e, cm_draft = ce_description e,
       cm_description = Some (ce_description e), cm_published = True, cm_published_at = Some now,
       cm_by = Some ''the build'', cm_updated = now\<rparr>"

definition sync_catalogue :: "announced_component list \<Rightarrow> int \<Rightarrow> component_tables \<Rightarrow> string list \<times> component_tables" where
  "sync_catalogue entries now t =
     (let missing = new_entries (map cm_name (ct_components t)) entries in
      (map ce_name missing, t\<lparr>ct_components := ct_components t @ map (announced_row now) missing\<rparr>))"

section \<open>Listing and deciding\<close>

record component_record =
  cp_row :: component_row
  cp_unpublished_changes :: bool
  cp_withheld_from :: "string list"
  cp_functions :: "string list"

definition list_components :: "(string \<Rightarrow> nat) \<Rightarrow> component_tables \<Rightarrow> component_record list" where
  "list_components collate t =
     map (\<lambda>r. \<lparr>cp_row = r,
         cp_unpublished_changes = (cm_draft r \<noteq> (case cm_description r of Some d \<Rightarrow> d | None \<Rightarrow> [])),
         cp_withheld_from = sort (map ex_agent (filter (\<lambda>x. ex_component x = cm_name r) (ct_excluded t))),
         cp_functions = sort (map fx_function (filter (\<lambda>x. fx_component x = cm_name r) (ct_functions t)))\<rparr>)
       (sort_key (\<lambda>r. collate (cm_kind r)) (sort_key (\<lambda>r. collate (cm_title r)) (ct_components t)))"

definition components_for_agent :: "(string \<Rightarrow> nat) \<Rightarrow> string \<Rightarrow> component_tables \<Rightarrow> (string \<times> string) list" where
  "components_for_agent collate agent t =
     concat (map (\<lambda>r. case cm_description r of Some d \<Rightarrow> if d \<noteq> [] then [(cm_name r, d)] else [] | None \<Rightarrow> [])
       (sort_key (\<lambda>r. collate (cm_name r))
         (filter (\<lambda>r. cm_published r \<and> \<not> withheld (cm_name r) agent t) (ct_components t))))"

text \<open>The answer is the description, or the reason it is refused for.\<close>

definition decide_component :: "string \<Rightarrow> string \<Rightarrow> component_tables \<Rightarrow> string + string" where
  "decide_component name agent t =
     (case component_at name t of
        None \<Rightarrow> Inl (''There is no component called '' @ name @ '' in this deployment. Answer in prose instead.'')
      | Some r \<Rightarrow>
          (case (cm_published r, cm_description r) of
             (True, Some (c # d)) \<Rightarrow>
               if withheld name agent t \<and> agent \<noteq> []
               then Inl (cm_title r @ '' has been withheld from this Bot in this deployment, though other Bots may use it. Answer in prose instead.'')
               else Inr (c # d)
           | _ \<Rightarrow> Inl (cm_title r @ '' is not published in this deployment, so no Bot may use it. Answer in prose instead.'')))"

section \<open>What an administrator decides\<close>

definition no_component :: "string \<Rightarrow> string" where
  "no_component name = ''No component is called '' @ name @ ''.''"

definition on_component ::
  "string \<Rightarrow> component_tables \<Rightarrow> (component_row \<Rightarrow> component_tables) \<Rightarrow> (string + unit) \<times> component_tables" where
  "on_component name t act = (case component_at name t of None \<Rightarrow> (Inl (no_component name), t) | Some r \<Rightarrow> (Inr (), act r))"

definition grant_component :: "string \<Rightarrow> string \<Rightarrow> component_tables \<Rightarrow> (string + unit) \<times> component_tables" where
  "grant_component name agent t =
     on_component name t (\<lambda>r. t\<lparr>ct_excluded := filter (\<lambda>x. \<not> (ex_component x = name \<and> ex_agent x = agent)) (ct_excluded t)\<rparr>)"

text \<open>The table refers to the coworkers, so holding back one that does not exist violates it.\<close>

definition revoke_component :: "string \<Rightarrow> string \<Rightarrow> string \<Rightarrow> component_tables \<Rightarrow> (string + string + unit) \<times> component_tables" where
  "revoke_component name agent by_whom t =
     (case component_at name t of
        None \<Rightarrow> (Inl (no_component name), t)
      | Some r \<Rightarrow>
          if withheld name agent t then (Inr (Inr ()), t)
          else if agent \<notin> set (ct_agents t) then (Inr (Inl ''violates foreign key constraint''), t)
          else (Inr (Inr ()), t\<lparr>ct_excluded := ct_excluded t @ [\<lparr>ex_component = name, ex_agent = agent, ex_by = Some by_whom\<rparr>]\<rparr>))"

definition publish_component :: "string \<Rightarrow> string \<Rightarrow> int \<Rightarrow> component_tables \<Rightarrow> (string + unit) \<times> component_tables" where
  "publish_component name by_whom now t =
     on_component name t (\<lambda>r. change_component name (\<lambda>q. q\<lparr>cm_description := Some (cm_draft r), cm_published := True,
       cm_published_at := Some now, cm_by := Some by_whom, cm_updated := now\<rparr>) t)"

definition unpublish_component :: "string \<Rightarrow> string \<Rightarrow> int \<Rightarrow> component_tables \<Rightarrow> (string + unit) \<times> component_tables" where
  "unpublish_component name by_whom now t =
     on_component name t (\<lambda>r. change_component name (\<lambda>q. q\<lparr>cm_published := False, cm_by := Some by_whom, cm_updated := now\<rparr>) t)"

definition save_draft :: "string \<Rightarrow> string \<Rightarrow> string \<Rightarrow> int \<Rightarrow> component_tables \<Rightarrow> (string + unit) \<times> component_tables" where
  "save_draft name description by_whom now t =
     on_component name t (\<lambda>r. change_component name (\<lambda>q. q\<lparr>cm_draft := description, cm_by := Some by_whom, cm_updated := now\<rparr>) t)"

section \<open>The data a component may read\<close>

definition may_call :: "string \<Rightarrow> string \<Rightarrow> component_tables \<Rightarrow> bool" where
  "may_call name f t \<longleftrightarrow> list_ex (\<lambda>x. fx_component x = name \<and> fx_function x = f) (ct_functions t)"

definition grant_function :: "string \<Rightarrow> string \<Rightarrow> string \<Rightarrow> component_tables \<Rightarrow> (string + unit) \<times> component_tables" where
  "grant_function name f by_whom t =
     on_component name t (\<lambda>r. if may_call name f t then t
       else t\<lparr>ct_functions := ct_functions t @ [\<lparr>fx_component = name, fx_function = f, fx_by = Some by_whom\<rparr>]\<rparr>)"

definition revoke_function :: "string \<Rightarrow> string \<Rightarrow> component_tables \<Rightarrow> component_tables" where
  "revoke_function name f t = t\<lparr>ct_functions := filter (\<lambda>x. \<not> (fx_component x = name \<and> fx_function x = f)) (ct_functions t)\<rparr>"

definition bounded_argument :: "jsv option \<Rightarrow> int \<Rightarrow> int \<Rightarrow> int \<Rightarrow> int" where
  "bounded_argument value fallback lowest highest =
     (case value of Some (JNum n) \<Rightarrow> min highest (max lowest n) | _ \<Rightarrow> fallback)"

datatype data_query = Activity_over_days int | Refusals_up_to int

record data_function =
  df_name :: string
  df_description :: string
  df_reads :: string

definition data_functions :: "data_function list" where
  "data_functions =
     [\<lparr>df_name = ''botActivity'', df_description = ''How many actions each Bot has taken, counted from the audit trail.'',
        df_reads = ''the audit trail''\<rparr>,
      \<lparr>df_name = ''recentRefusals'',
        df_description = ''The most recent things this deployment refused, and the reason each was refused.'',
        df_reads = ''the audit trail''\<rparr>]"

definition find_data_function :: "string \<Rightarrow> data_function option" where
  "find_data_function name = find (\<lambda>f. df_name f = name) data_functions"

text \<open>The query a function makes of the database with the arguments of a request.\<close>

definition query_of :: "string \<Rightarrow> jsv \<Rightarrow> data_query" where
  "query_of name args =
     (if name = ''botActivity'' then Activity_over_days (bounded_argument (js_field args ''days'') 7 1 90)
      else Refusals_up_to (bounded_argument (js_field args ''limit'') 10 1 50))"

definition data_answer :: "data_query \<Rightarrow> jsv list \<Rightarrow> jsv" where
  "data_answer q rows =
     (case q of Activity_over_days days \<Rightarrow> JObj [(''days'', JNum days), (''rows'', JArr rows)]
      | Refusals_up_to limit \<Rightarrow> JObj [(''rows'', JArr rows)])"

section \<open>Components written in a browser\<close>

definition sandboxed_prefix :: string where
  "sandboxed_prefix = ''custom_''"

definition sandboxed_name_for :: "string \<Rightarrow> string" where
  "sandboxed_name_for slug = sandboxed_prefix @ slug"

definition slug_edge :: "char \<Rightarrow> bool" where
  "slug_edge c \<longleftrightarrow> (CHR ''a'' \<le> c \<and> c \<le> CHR ''z'') \<or> (CHR ''0'' \<le> c \<and> c \<le> CHR ''9'')"

definition sandboxed_slug :: "string \<Rightarrow> bool" where
  "sandboxed_slug s \<longleftrightarrow>
     2 \<le> length s \<and> length s \<le> 40 \<and> slug_edge (hd s) \<and> slug_edge (last s)
     \<and> list_all (\<lambda>c. slug_edge c \<or> c = CHR ''_'') s"

definition sandboxed_at :: "string \<Rightarrow> component_tables \<Rightarrow> sandboxed_row option" where
  "sandboxed_at name t = find (\<lambda>r. sb_name r = name) (ct_sandboxed t)"

record sandboxed_record =
  sr_row :: sandboxed_row
  sr_unpublished_changes :: bool

definition to_record :: "sandboxed_row \<Rightarrow> sandboxed_record" where
  "to_record r = \<lparr>sr_row = r, sr_unpublished_changes =
     (sb_published r \<and> (Some (sb_draft_html r) \<noteq> sb_html r \<or> Some (sb_draft_css r) \<noteq> sb_css r \<or> Some (sb_draft_js r) \<noteq> sb_js r))\<rparr>"

definition list_sandboxed :: "(string \<Rightarrow> nat) \<Rightarrow> component_tables \<Rightarrow> sandboxed_record list" where
  "list_sandboxed collate t = map to_record (sort_key (\<lambda>r. collate (sb_title r)) (ct_sandboxed t))"

record sandboxed_input =
  si_slug_asked :: string
  si_title_asked :: string
  si_description_asked :: string
  si_html_asked :: string
  si_css_asked :: string
  si_js_asked :: string
  si_schema_asked :: jsv
  si_sample_asked :: jsv

definition drafted :: "sandboxed_input \<Rightarrow> string \<Rightarrow> sandboxed_row \<Rightarrow> sandboxed_row" where
  "drafted x by_whom r = r\<lparr>sb_title := si_title_asked x, sb_draft_description := si_description_asked x, sb_draft_html := si_html_asked x,
     sb_draft_css := si_css_asked x, sb_draft_js := si_js_asked x, sb_draft_schema := si_schema_asked x, sb_sample := si_sample_asked x,
     sb_by := Some by_whom\<rparr>"

definition blank_row :: "string \<Rightarrow> sandboxed_row" where
  "blank_row name = \<lparr>sb_name = name, sb_title = [], sb_draft_description = [], sb_draft_html = [], sb_draft_css = [], sb_draft_js = [],
     sb_draft_schema = JObj [], sb_description = None, sb_html = None, sb_css = None, sb_js = None, sb_schema = None,
     sb_sample = JObj [], sb_revision = 0, sb_published = False, sb_published_at = None, sb_by = None\<rparr>"

definition put_source :: "string \<Rightarrow> sandboxed_input \<Rightarrow> string \<Rightarrow> component_tables \<Rightarrow> component_tables" where
  "put_source name x by_whom t = t\<lparr>ct_sandboxed :=
     (if sandboxed_at name t = None then ct_sandboxed t @ [drafted x by_whom (blank_row name)]
      else map (\<lambda>r. if sb_name r = name then drafted x by_whom r else r) (ct_sandboxed t))\<rparr>"

definition put_governance :: "string \<Rightarrow> sandboxed_input \<Rightarrow> string \<Rightarrow> int \<Rightarrow> component_tables \<Rightarrow> component_tables" where
  "put_governance name x by_whom now t =
     (if component_at name t = None
      then t\<lparr>ct_components := ct_components t @ [\<lparr>cm_name = name, cm_title = si_title_asked x, cm_kind = ''sandboxed'',
        cm_draft = si_description_asked x, cm_description = None, cm_published = False, cm_published_at = None,
        cm_by = Some by_whom, cm_updated = now\<rparr>]\<rparr>
      else change_component name (\<lambda>r. r\<lparr>cm_title := si_title_asked x, cm_draft := si_description_asked x, cm_by := Some by_whom,
        cm_updated := now\<rparr>) t)"

text \<open>The event and its payload, for the trail.\<close>

definition sandboxed_event :: "string \<Rightarrow> string \<Rightarrow> string \<Rightarrow> (string \<times> jsv) list \<Rightarrow> audit_input" where
  "sandboxed_event kind name by_whom details = record_audit_event
     \<lparr>ai_type = kind, ai_target_type = ''component'', ai_target_id = Some name, ai_actor = None,
       ai_payload = JObj ([(''actor'', JStr by_whom), (''kind'', JStr ''sandboxed'')] @ details)\<rparr>"

definition save_sandboxed ::
  "sandboxed_input \<Rightarrow> string \<Rightarrow> int \<Rightarrow> component_tables \<Rightarrow> (string + sandboxed_record) \<times> audit_input list \<times> component_tables" where
  "save_sandboxed x by_whom now t =
     (if \<not> sandboxed_slug (si_slug_asked x) then (Inl ''A name is lower-case letters, numbers and underscores.'', [], t)
      else let name = sandboxed_name_for (si_slug_asked x);
               t' = put_governance name x by_whom now (put_source name x by_whom t) in
        (case sandboxed_at name t' of
           Some r \<Rightarrow> (Inr (to_record r), [sandboxed_event ''component.draft_saved'' name by_whom []], t')
         | None \<Rightarrow> (Inl (no_component name), [sandboxed_event ''component.draft_saved'' name by_whom []], t')))"

definition published_row :: "int \<Rightarrow> sandboxed_row \<Rightarrow> sandboxed_row \<Rightarrow> sandboxed_row" where
  "published_row now r q = q\<lparr>sb_description := Some (sb_draft_description r), sb_html := Some (sb_draft_html r), sb_css := Some (sb_draft_css r),
     sb_js := Some (sb_draft_js r), sb_schema := Some (sb_draft_schema r), sb_published := True, sb_published_at := Some now,
     sb_revision := sb_revision r + 1\<rparr>"

definition publish_sandboxed ::
  "string \<Rightarrow> string \<Rightarrow> int \<Rightarrow> component_tables \<Rightarrow> (string + sandboxed_record) \<times> audit_input list \<times> component_tables" where
  "publish_sandboxed name by_whom now t =
     (case sandboxed_at name t of
        None \<Rightarrow> (Inl (no_component name), [], t)
      | Some r \<Rightarrow>
          let t' = change_component name (\<lambda>q. q\<lparr>cm_description := Some (sb_draft_description r), cm_published := True,
                cm_published_at := Some now, cm_by := Some by_whom, cm_updated := now\<rparr>)
              (t\<lparr>ct_sandboxed := map (\<lambda>q. if sb_name q = name then published_row now r q else q) (ct_sandboxed t)\<rparr>) in
          (Inr (to_record (published_row now r r)),
           [sandboxed_event ''component.published'' name by_whom [(''revision'', JNum (sb_revision r + 1))]], t'))"

text \<open>The rows that refer to a component go with it.\<close>

definition delete_component :: "string \<Rightarrow> component_tables \<Rightarrow> component_tables" where
  "delete_component name t = t\<lparr>ct_components := filter (\<lambda>r. cm_name r \<noteq> name) (ct_components t),
     ct_excluded := filter (\<lambda>x. ex_component x \<noteq> name) (ct_excluded t),
     ct_functions := filter (\<lambda>x. fx_component x \<noteq> name) (ct_functions t)\<rparr>"

definition remove_sandboxed :: "string \<Rightarrow> string \<Rightarrow> component_tables \<Rightarrow> (string + unit) \<times> audit_input list \<times> component_tables" where
  "remove_sandboxed name by_whom t =
     (case component_at name t of
        None \<Rightarrow> (Inl (no_component name), [], t)
      | Some g \<Rightarrow>
          if cm_kind g \<noteq> ''sandboxed'' then (Inl (no_component name), [], t)
          else (Inr (), [sandboxed_event ''component.unpublished'' name by_whom [(''change'', JStr ''deleted'')]],
            delete_component name (t\<lparr>ct_sandboxed := filter (\<lambda>r. sb_name r \<noteq> name) (ct_sandboxed t)\<rparr>)))"

record published_source =
  ps_name :: string
  ps_html :: string
  ps_css :: string
  ps_js :: string
  ps_schema :: jsv

definition published_sources :: "component_tables \<Rightarrow> published_source list" where
  "published_sources t =
     map (\<lambda>r. \<lparr>ps_name = sb_name r, ps_html = the (sb_html r), ps_css = (case sb_css r of Some c \<Rightarrow> c | None \<Rightarrow> []),
         ps_js = (case sb_js r of Some j \<Rightarrow> j | None \<Rightarrow> []), ps_schema = (case sb_schema r of Some s \<Rightarrow> s | None \<Rightarrow> JObj [])\<rparr>)
       (filter (\<lambda>r. sb_published r \<and> sb_html r \<noteq> None) (ct_sandboxed t))"

end
