(* ===== verification/Component_Routes.thy ===== *)
theory Component_Routes
  imports Components
begin

text \<open>
  The routes over the components (\<^verbatim>\<open>server/src/components/routes.ts\<close>, \<^verbatim>\<open>sandboxed-routes.ts\<close>). Each leaves its rows in
  the trail. Parameters are whether a person may use a Bot, and what the database answers to a query over the
  trail, or the error it fails with. A request body is the value it parses to, or none; of the body that
  saves a sandboxed component the fields have the types it declares.
\<close>

section \<open>World\<close>

record component_env =
  cv_recorded :: bool
  cv_may_use :: "actor \<Rightarrow> string \<Rightarrow> bool"
  cv_query :: "data_query \<Rightarrow> string + jsv list"
  cv_collate :: "string \<Rightarrow> nat"

record component_world =
  cw_tables :: component_tables
  cw_trail :: "audit_input list"
  cw_queries :: "data_query list"

datatype component_reply =
    Refused_request int string
  | Components_listed "component_record list"
  | Components_held "(string \<times> string) list"
  | Components_added "string list"
  | Not_allowed string
  | Is_allowed
  | Data_read jsv
  | Data_failed
  | Functions_listed "data_function list"
  | Component_done
  | Sandboxed_listed "sandboxed_record list"
  | Sources_listed "published_source list"
  | Sandboxed_answer sandboxed_record
  | Component_fails string

definition dev_actor_email :: string where
  "dev_actor_email = ''dev@openbot.local''"

definition component_event :: "actor \<Rightarrow> string \<Rightarrow> string \<Rightarrow> (string \<times> jsv) list \<Rightarrow> audit_input" where
  "component_event a kind name payload = record_audit_event
     \<lparr>ai_type = kind, ai_target_type = ''component'', ai_target_id = Some name,
       ai_actor = (if su_id (ac_user a) \<noteq> [] \<and> su_email (ac_user a) \<noteq> dev_actor_email then Some (su_id (ac_user a)) else None),
       ai_payload = JObj ((''actor'', JStr (su_email (ac_user a))) # payload)\<rparr>"

definition audit_component ::
  "component_env \<Rightarrow> actor \<Rightarrow> string \<Rightarrow> string \<Rightarrow> (string \<times> jsv) list \<Rightarrow> component_world \<Rightarrow> component_world" where
  "audit_component env a kind name payload w =
     (if cv_recorded env then w\<lparr>cw_trail := cw_trail w @ [component_event a kind name payload]\<rparr> else w)"

definition request_body :: "jsv option \<Rightarrow> jsv" where
  "request_body json = (case json of Some j \<Rightarrow> j | None \<Rightarrow> JNull)"

definition string_or_empty :: "jsv \<Rightarrow> string \<Rightarrow> string" where
  "string_or_empty body k = (case js_string_field body k of Some s \<Rightarrow> s | None \<Rightarrow> [])"

section \<open>Announcing and reading\<close>

definition get_components :: "component_env \<Rightarrow> component_world \<Rightarrow> component_reply \<times> component_world" where
  "get_components env w = (Components_listed (list_components (cv_collate env) (cw_tables w)), w)"

definition announced_of :: "jsv \<Rightarrow> announced_component option" where
  "announced_of entry =
     (case (js_string_field entry ''name'', js_string_field entry ''title'', js_string_field entry ''kind'', js_string_field entry ''description'') of
        (Some (c # name), Some title, Some kind, Some (d # description)) \<Rightarrow>
          Some \<lparr>ce_name = c # name, ce_title = title, ce_kind = kind, ce_description = d # description\<rparr>
      | _ \<Rightarrow> None)"

definition first_seen :: "(string \<times> jsv) list" where
  "first_seen = [(''note'', JStr ''First seen in a build, published and available to every Bot.'')]"

definition put_catalogue :: "component_env \<Rightarrow> actor \<Rightarrow> jsv option \<Rightarrow> int \<Rightarrow> component_world \<Rightarrow> component_reply \<times> component_world" where
  "put_catalogue env a json now w =
     (case js_field (request_body json) ''components'' of
        Some (JArr entries) \<Rightarrow>
          (case sync_catalogue (List.map_filter announced_of entries) now (cw_tables w) of
             (added, t') \<Rightarrow>
               (Components_added added,
                fold (\<lambda>name. audit_component env a ''component.published'' name first_seen) added (w\<lparr>cw_tables := t'\<rparr>)))
      | _ \<Rightarrow> (Refused_request 400 ''A list of components is required.'', w))"

definition no_such_bot :: component_reply where
  "no_such_bot = Refused_request 404 ''There is no such Bot.''"

definition get_for_agent :: "component_env \<Rightarrow> actor \<Rightarrow> string \<Rightarrow> component_world \<Rightarrow> component_reply \<times> component_world" where
  "get_for_agent env a agent w =
     (if \<not> cv_may_use env a agent then (no_such_bot, w)
      else (Components_held (components_for_agent (cv_collate env) agent (cw_tables w)), w))"

definition get_functions :: "component_world \<Rightarrow> component_reply \<times> component_world" where
  "get_functions w = (Functions_listed data_functions, w)"

section \<open>Deciding and calling\<close>

definition not_granted :: "string \<Rightarrow> string \<Rightarrow> string" where
  "not_granted name f = name @ '' has not been granted the function '' @ f @ ''. An administrator grants each function to each component.''"

definition named_functions :: "jsv \<Rightarrow> string list" where
  "named_functions body =
     (case js_field body ''functions'' of
        Some (JArr entries) \<Rightarrow> List.map_filter (\<lambda>e. case e of JStr s \<Rightarrow> Some s | _ \<Rightarrow> None) entries | _ \<Rightarrow> [])"

definition function_refused ::
  "component_env \<Rightarrow> actor \<Rightarrow> string \<Rightarrow> string \<Rightarrow> string \<Rightarrow> string \<Rightarrow> component_world \<Rightarrow> component_reply \<times> component_world" where
  "function_refused env a name agent f reason w =
     (Not_allowed reason,
      audit_component env a ''component.function_refused'' name
        [(''bot'', JStr agent), (''function'', JStr f), (''reason'', JStr reason)] w)"

definition post_decision :: "component_env \<Rightarrow> actor \<Rightarrow> string \<Rightarrow> jsv option \<Rightarrow> component_world \<Rightarrow> component_reply \<times> component_world" where
  "post_decision env a name json w =
     (let body = request_body json; agent = string_or_empty body ''agentId'' in
      if agent = [] then (Refused_request 400 ''The Bot is required.'', w)
      else if \<not> cv_may_use env a agent then (no_such_bot, w)
      else (case decide_component name agent (cw_tables w) of
          Inl reason \<Rightarrow>
            (Not_allowed reason,
             audit_component env a ''component.refused'' name [(''bot'', JStr agent), (''reason'', JStr reason)] w)
        | Inr description \<Rightarrow>
            (case find (\<lambda>f. \<not> may_call name f (cw_tables w)) (named_functions body) of
               Some f \<Rightarrow> function_refused env a name agent f (not_granted name f) w
             | None \<Rightarrow> (Is_allowed, w))))"

definition post_call :: "component_env \<Rightarrow> actor \<Rightarrow> string \<Rightarrow> jsv option \<Rightarrow> component_world \<Rightarrow> component_reply \<times> component_world" where
  "post_call env a name json w =
     (let body = request_body json; f = string_or_empty body ''function''; agent = string_or_empty body ''agentId'' in
      if f = [] \<or> agent = [] then (Refused_request 400 ''The function and the Bot are both required.'', w)
      else if \<not> cv_may_use env a agent then (no_such_bot, w)
      else (case decide_component name agent (cw_tables w) of
          Inl reason \<Rightarrow> function_refused env a name agent f reason w
        | Inr description \<Rightarrow>
            (case find_data_function f of
               None \<Rightarrow> function_refused env a name agent f (''There is no data function called '' @ f @ '' in this deployment.'') w
             | Some d \<Rightarrow>
                 if \<not> may_call name f (cw_tables w) then function_refused env a name agent f (not_granted name f) w
                 else let q = query_of f (case js_field body ''args'' of Some v \<Rightarrow> v | None \<Rightarrow> JObj []);
                          w' = w\<lparr>cw_queries := cw_queries w @ [q]\<rparr> in
                   (case cv_query env q of
                      Inr rows \<Rightarrow>
                        (Data_read (data_answer q rows),
                         audit_component env a ''component.function_called'' name
                           [(''bot'', JStr agent), (''function'', JStr f), (''reads'', JStr (df_reads d))] w')
                    | Inl e \<Rightarrow>
                        (Data_failed,
                         audit_component env a ''component.function_failed'' name
                           [(''bot'', JStr agent), (''function'', JStr f), (''failure'', JStr e)] w')))))"

section \<open>Administering\<close>

definition component_admin ::
  "actor \<Rightarrow> component_world \<Rightarrow> component_reply \<times> component_world \<Rightarrow> component_reply \<times> component_world" where
  "component_admin a w answer = (case require_admin a of Some (status, e) \<Rightarrow> (Refused_request status e, w) | None \<Rightarrow> answer)"

text \<open>The answer of an operation of the store: a component that is not there is a 404, a change is recorded.\<close>

definition component_settled ::
  "component_env \<Rightarrow> actor \<Rightarrow> string \<Rightarrow> string \<Rightarrow> (string \<times> jsv) list \<Rightarrow> (string + unit) \<times> component_tables \<Rightarrow> component_world
     \<Rightarrow> component_reply \<times> component_world" where
  "component_settled env a kind name payload outcome w =
     (case outcome of
        (Inl e, t') \<Rightarrow> (Refused_request 404 e, w)
      | (Inr u, t') \<Rightarrow> (Component_done, audit_component env a kind name payload (w\<lparr>cw_tables := t'\<rparr>)))"

definition by_actor :: "actor \<Rightarrow> string" where
  "by_actor a = su_email (ac_user a)"

definition post_function :: "component_env \<Rightarrow> actor \<Rightarrow> string \<Rightarrow> jsv option \<Rightarrow> component_world \<Rightarrow> component_reply \<times> component_world" where
  "post_function env a name json w =
     component_admin a w
       (let f = string_or_empty (request_body json) ''function'' in
        if f = [] \<or> find_data_function f = None then (Refused_request 400 ''A function this deployment ships is required.'', w)
        else component_settled env a ''component.function_granted'' name [(''function'', JStr f)] (grant_function name f (by_actor a) (cw_tables w)) w)"

definition delete_function :: "component_env \<Rightarrow> actor \<Rightarrow> string \<Rightarrow> string \<Rightarrow> component_world \<Rightarrow> component_reply \<times> component_world" where
  "delete_function env a name f w =
     component_admin a w
       (Component_done, audit_component env a ''component.function_revoked'' name [(''function'', JStr f)]
          (w\<lparr>cw_tables := revoke_function name f (cw_tables w)\<rparr>))"

definition post_component_grant :: "component_env \<Rightarrow> actor \<Rightarrow> string \<Rightarrow> jsv option \<Rightarrow> component_world \<Rightarrow> component_reply \<times> component_world" where
  "post_component_grant env a name json w =
     component_admin a w
       (let agent = string_or_empty (request_body json) ''agentId'' in
        if agent = [] then (Refused_request 400 ''The Bot is required.'', w)
        else component_settled env a ''component.granted'' name [(''bot'', JStr agent)] (grant_component name agent (cw_tables w)) w)"

definition delete_grant :: "component_env \<Rightarrow> actor \<Rightarrow> string \<Rightarrow> string \<Rightarrow> component_world \<Rightarrow> component_reply \<times> component_world" where
  "delete_grant env a name agent w =
     component_admin a w
       (case revoke_component name agent (by_actor a) (cw_tables w) of
          (Inl e, t') \<Rightarrow> (Refused_request 404 e, w)
        | (Inr (Inl e), t') \<Rightarrow> (Component_fails e, w)
        | (Inr (Inr u), t') \<Rightarrow>
            (Component_done, audit_component env a ''component.revoked'' name [(''bot'', JStr agent)] (w\<lparr>cw_tables := t'\<rparr>)))"

definition post_publication ::
  "component_env \<Rightarrow> actor \<Rightarrow> string \<Rightarrow> jsv option \<Rightarrow> int \<Rightarrow> component_world \<Rightarrow> component_reply \<times> component_world" where
  "post_publication env a name json now w =
     component_admin a w
       (if js_field (request_body json) ''published'' \<noteq> Some (JBool False)
        then component_settled env a ''component.published'' name [] (publish_component name (by_actor a) now (cw_tables w)) w
        else component_settled env a ''component.unpublished'' name [] (unpublish_component name (by_actor a) now (cw_tables w)) w)"

definition put_draft :: "component_env \<Rightarrow> actor \<Rightarrow> string \<Rightarrow> jsv option \<Rightarrow> int \<Rightarrow> component_world \<Rightarrow> component_reply \<times> component_world" where
  "put_draft env a name json now w =
     component_admin a w
       (let description = js_trim (string_or_empty (request_body json) ''description'') in
        if description = [] then (Refused_request 400 ''A description is required.'', w)
        else component_settled env a ''component.draft_saved'' name [] (save_draft name description (by_actor a) now (cw_tables w)) w)"

section \<open>The playground\<close>

definition get_sandboxed :: "component_env \<Rightarrow> actor \<Rightarrow> component_world \<Rightarrow> component_reply \<times> component_world" where
  "get_sandboxed env a w = component_admin a w (Sandboxed_listed (list_sandboxed (cv_collate env) (cw_tables w)), w)"

definition get_published :: "component_world \<Rightarrow> component_reply \<times> component_world" where
  "get_published w = (Sources_listed (published_sources (cw_tables w)), w)"

text \<open>The store of the playground always has a trail. What it throws becomes an answer with the status given.\<close>

definition sandboxed_settled ::
  "int \<Rightarrow> ('a \<Rightarrow> component_reply) \<Rightarrow> (string + 'a) \<times> audit_input list \<times> component_tables \<Rightarrow> component_world
     \<Rightarrow> component_reply \<times> component_world" where
  "sandboxed_settled status reply outcome w =
     (case outcome of (r, rows, t') \<Rightarrow>
        ((case r of Inl e \<Rightarrow> Refused_request status e | Inr x \<Rightarrow> reply x),
         w\<lparr>cw_tables := t', cw_trail := cw_trail w @ rows\<rparr>))"

record sandboxed_body =
  bo_slug :: "string option"
  bo_title :: "string option"
  bo_description :: "string option"
  bo_html :: "string option"
  bo_css :: "string option"
  bo_js :: "string option"
  bo_schema :: "jsv option"
  bo_sample :: "jsv option"

definition or_blank :: "string option \<Rightarrow> string" where
  "or_blank v = (case v of Some s \<Rightarrow> s | None \<Rightarrow> [])"

definition or_empty_object :: "jsv option \<Rightarrow> jsv" where
  "or_empty_object v = (case v of Some JNull \<Rightarrow> JObj [] | Some s \<Rightarrow> s | None \<Rightarrow> JObj [])"

definition post_sandboxed ::
  "actor \<Rightarrow> sandboxed_body option \<Rightarrow> int \<Rightarrow> component_world \<Rightarrow> component_reply \<times> component_world" where
  "post_sandboxed a body now w =
     component_admin a w
       (case body of
          None \<Rightarrow> (Refused_request 400 ''A name and a title are required.'', w)
        | Some b \<Rightarrow>
            if or_blank (bo_slug b) = [] \<or> or_blank (bo_title b) = [] then (Refused_request 400 ''A name and a title are required.'', w)
            else sandboxed_settled 400 Sandboxed_answer
              (save_sandboxed \<lparr>si_slug_asked = or_blank (bo_slug b), si_title_asked = or_blank (bo_title b),
                 si_description_asked = or_blank (bo_description b), si_html_asked = or_blank (bo_html b),
                 si_css_asked = or_blank (bo_css b), si_js_asked = or_blank (bo_js b),
                 si_schema_asked = or_empty_object (bo_schema b), si_sample_asked = or_empty_object (bo_sample b)\<rparr>
                (by_actor a) now (cw_tables w)) w)"

definition post_publish :: "actor \<Rightarrow> string \<Rightarrow> int \<Rightarrow> component_world \<Rightarrow> component_reply \<times> component_world" where
  "post_publish a name now w =
     component_admin a w (sandboxed_settled 404 Sandboxed_answer (publish_sandboxed name (by_actor a) now (cw_tables w)) w)"

definition delete_sandboxed :: "actor \<Rightarrow> string \<Rightarrow> component_world \<Rightarrow> component_reply \<times> component_world" where
  "delete_sandboxed a name w =
     component_admin a w (sandboxed_settled 404 (\<lambda>u. Component_done) (remove_sandboxed name (by_actor a) (cw_tables w)) w)"

section \<open>Requests in sequence\<close>

datatype component_request =
    Put_catalogue "jsv option" int
  | Post_decision string "jsv option"
  | Post_call string "jsv option"
  | Post_function string "jsv option"
  | Delete_function string string
  | Post_grant string "jsv option"
  | Delete_grant string string
  | Post_publication string "jsv option" int
  | Put_draft string "jsv option" int
  | Post_sandboxed "sandboxed_body option" int
  | Post_publish string int
  | Delete_sandboxed string

fun component_step :: "component_env \<Rightarrow> actor \<times> component_request \<Rightarrow> component_world \<Rightarrow> component_reply \<times> component_world" where
  "component_step env (a, Put_catalogue json now) w = put_catalogue env a json now w"
| "component_step env (a, Post_decision name json) w = post_decision env a name json w"
| "component_step env (a, Post_call name json) w = post_call env a name json w"
| "component_step env (a, Post_function name json) w = post_function env a name json w"
| "component_step env (a, Delete_function name f) w = delete_function env a name f w"
| "component_step env (a, Post_grant name json) w = post_component_grant env a name json w"
| "component_step env (a, Delete_grant name agent) w = delete_grant env a name agent w"
| "component_step env (a, Post_publication name json now) w = post_publication env a name json now w"
| "component_step env (a, Put_draft name json now) w = put_draft env a name json now w"
| "component_step env (a, Post_sandboxed body now) w = post_sandboxed a body now w"
| "component_step env (a, Post_publish name now) w = post_publish a name now w"
| "component_step env (a, Delete_sandboxed name) w = delete_sandboxed a name w"

definition component_run :: "component_env \<Rightarrow> (actor \<times> component_request) list \<Rightarrow> component_world \<Rightarrow> component_world" where
  "component_run env requests w = fold (\<lambda>r u. snd (component_step env r u)) requests w"

end
