(* ===== verification/Component_Facts.thy ===== *)
theory Component_Facts
  imports Component_Routes
begin

text \<open>
  What the components promise: the offer of a Bot is what the decision allows, data is read only for a Bot that
  may use the component by one that was granted the function, people who are not administrators change nothing
  that was decided, a draft reaches nobody, and a Bot held back stays held back.
\<close>

section \<open>One row to a name\<close>

lemma new_entries_distinct: "distinct (map ce_name (new_entries known es)) \<and> set (map ce_name (new_entries known es)) \<inter> set known = {}"
  by (induction known es rule: new_entries.induct) auto

definition names_once :: "component_tables \<Rightarrow> bool" where
  "names_once t \<longleftrightarrow> distinct (map cm_name (ct_components t))"

lemma change_component_names [simp]:
  "(\<And>q. cm_name (f q) = cm_name q) \<Longrightarrow> map cm_name (ct_components (change_component name f t)) = map cm_name (ct_components t)"
  by (simp add: change_component_def)

lemma map_announced: "map cm_name (map (announced_row now) es) = map ce_name es"
  by (simp add: announced_row_def)

lemma sync_names: "names_once t \<Longrightarrow> names_once (snd (sync_catalogue es now t))"
  using new_entries_distinct [of "map cm_name (ct_components t)" es]
  by (auto simp: names_once_def sync_catalogue_def Let_def announced_row_def o_def)

lemma snd_on_component: "snd (on_component name t act) = (case component_at name t of None \<Rightarrow> t | Some r \<Rightarrow> act r)"
  by (simp add: on_component_def split: option.split)

lemma component_at_None: "component_at name t = None \<longleftrightarrow> name \<notin> cm_name ` set (ct_components t)"
  by (auto simp: component_at_def find_None_iff)

lemma component_at_in: "names_once t \<Longrightarrow> component_at name t = Some r \<longleftrightarrow> r \<in> set (ct_components t) \<and> cm_name r = name"
proof -
  have "find (\<lambda>r. cm_name r = name) rs = Some r \<longleftrightarrow> r \<in> set rs \<and> cm_name r = name" if "distinct (map cm_name rs)" for rs
    using that by (induction rs) (auto simp: image_iff)
  then show "names_once t \<Longrightarrow> component_at name t = Some r \<longleftrightarrow> r \<in> set (ct_components t) \<and> cm_name r = name"
    by (simp add: names_once_def component_at_def)
qed

lemma admin_names: "names_once t \<Longrightarrow> names_once (snd (grant_component name agent t))"
  "names_once t \<Longrightarrow> names_once (snd (revoke_component name agent u t))"
  "names_once t \<Longrightarrow> names_once (snd (publish_component name u now t))"
  "names_once t \<Longrightarrow> names_once (snd (unpublish_component name u now t))"
  "names_once t \<Longrightarrow> names_once (snd (save_draft name d u now t))"
  "names_once t \<Longrightarrow> names_once (snd (grant_function name f u t))"
  "names_once t \<Longrightarrow> names_once (revoke_function name f t)"
  by (simp_all add: grant_component_def publish_component_def unpublish_component_def save_draft_def grant_function_def revoke_function_def
      snd_on_component revoke_component_def names_once_def split: option.split)

lemma put_governance_names: "names_once t \<Longrightarrow> names_once (put_governance name x u now t)"
  by (auto simp: put_governance_def component_at_None names_once_def)

lemma put_source_tables [simp]:
  "ct_components (put_source name x u t) = ct_components t" "ct_excluded (put_source name x u t) = ct_excluded t"
  "ct_functions (put_source name x u t) = ct_functions t"
  by (simp_all add: put_source_def)

lemma sandboxed_names:
  "names_once t \<Longrightarrow> names_once (snd (snd (save_sandboxed x u now t)))"
  "names_once t \<Longrightarrow> names_once (snd (snd (publish_sandboxed name u now t)))"
  "names_once t \<Longrightarrow> names_once (snd (snd (remove_sandboxed name u t)))"
proof -
  have source: "names_once t \<Longrightarrow> names_once (put_source n x u t)" for n by (simp add: names_once_def)
  show "names_once t \<Longrightarrow> names_once (snd (snd (save_sandboxed x u now t)))"
    using put_governance_names [OF source] by (auto simp: save_sandboxed_def Let_def split: option.split)
  show "names_once t \<Longrightarrow> names_once (snd (snd (publish_sandboxed name u now t)))"
    by (auto simp: publish_sandboxed_def names_once_def Let_def split: option.split)
  have "distinct (map cm_name rs) \<Longrightarrow> distinct (map cm_name (filter P rs))" for rs P
    by (simp add: distinct_map_filter)
  then show "names_once t \<Longrightarrow> names_once (snd (snd (remove_sandboxed name u t)))"
    by (auto simp: remove_sandboxed_def delete_component_def names_once_def split: option.split)
qed

section \<open>What a request does to the tables\<close>

lemma audit_tables [simp]:
  "cw_tables (audit_component env a k n p w) = cw_tables w" "cw_queries (audit_component env a k n p w) = cw_queries w"
  by (simp_all add: audit_component_def)

lemma fold_audit_tables [simp]:
  "cw_tables (fold (\<lambda>n. audit_component env a k n p) ns w) = cw_tables w"
  by (induction ns arbitrary: w) simp_all

lemma function_refused_tables [simp]: "cw_tables (snd (function_refused env a n g f r w)) = cw_tables w"
  by (simp add: function_refused_def)

lemma component_admin_tables:
  "cw_tables (snd (component_admin a w answer)) = (if ac_role a = Admin_role then cw_tables (snd answer) else cw_tables w)"
  by (simp add: component_admin_def require_admin_def)

lemma component_settled_tables:
  "cw_tables (snd (component_settled env a k n p outcome w)) = (case fst outcome of Inl e \<Rightarrow> cw_tables w | Inr u \<Rightarrow> snd outcome)"
  by (cases outcome) (simp add: component_settled_def split: sum.split)

lemma sandboxed_settled_tables: "cw_tables (snd (sandboxed_settled s f outcome w)) = snd (snd outcome)"
  by (simp add: sandboxed_settled_def split: prod.split)

text \<open>A property of the tables that every operation of the stores keeps is kept by every request.\<close>

lemma request_keeps:
  assumes "\<And>es now. P t \<Longrightarrow> P (snd (sync_catalogue es now t))"
    and "\<And>n g. P t \<Longrightarrow> ac_role a = Admin_role \<Longrightarrow> (\<exists>json. r = Post_grant n json) \<Longrightarrow> P (snd (grant_component n g t))"
    and "\<And>n g u. P t \<Longrightarrow> ac_role a = Admin_role \<Longrightarrow> P (snd (revoke_component n g u t))"
    and "\<And>n u now. P t \<Longrightarrow> ac_role a = Admin_role \<Longrightarrow> P (snd (publish_component n u now t))"
    and "\<And>n u now. P t \<Longrightarrow> ac_role a = Admin_role \<Longrightarrow> P (snd (unpublish_component n u now t))"
    and "\<And>n d u now. P t \<Longrightarrow> ac_role a = Admin_role \<Longrightarrow> P (snd (save_draft n d u now t))"
    and "\<And>n f u. P t \<Longrightarrow> ac_role a = Admin_role \<Longrightarrow> P (snd (grant_function n f u t))"
    and "\<And>n f. P t \<Longrightarrow> ac_role a = Admin_role \<Longrightarrow> P (revoke_function n f t)"
    and "\<And>x u now. P t \<Longrightarrow> ac_role a = Admin_role \<Longrightarrow> P (snd (snd (save_sandboxed x u now t)))"
    and "\<And>n u now. P t \<Longrightarrow> ac_role a = Admin_role \<Longrightarrow> P (snd (snd (publish_sandboxed n u now t)))"
    and "\<And>n u. P t \<Longrightarrow> ac_role a = Admin_role \<Longrightarrow> r = Delete_sandboxed n \<Longrightarrow> P (snd (snd (remove_sandboxed n u t)))"
    and t: "t = cw_tables w" "P t"
  shows "P (cw_tables (snd (component_step env (a, r) w)))"
proof (cases r)
  case (Put_catalogue json now)
  then show ?thesis using assms(1) [OF t(2)] t
    by (simp add: put_catalogue_def split: option.split jsv.split prod.split) (metis snd_conv)
next
  case (Post_decision n json)
  then show ?thesis using t by (simp add: post_decision_def Let_def split: sum.split option.split)
next
  case (Post_call n json)
  then show ?thesis using t by (simp add: post_call_def Let_def split: sum.split option.split)
next
  case (Delete_grant n g)
  then show ?thesis using assms(3) [OF t(2), of n g "by_actor a"] t
    by (auto simp: delete_grant_def component_admin_tables split: prod.splits sum.splits)
qed (use assms(2,4-11) [OF t(2)] t in \<open>auto simp: post_function_def delete_function_def post_component_grant_def post_publication_def
     put_draft_def post_sandboxed_def post_publish_def delete_sandboxed_def component_admin_tables component_settled_tables
     sandboxed_settled_tables Let_def split: sum.split option.split\<close>)

lemma run_keeps:
  assumes "\<And>a r w. (a, r) \<in> set rs \<Longrightarrow> P (cw_tables w) \<Longrightarrow> P (cw_tables (snd (component_step env (a, r) w)))" "P (cw_tables w)"
  shows "P (cw_tables (component_run env rs w))"
  using assms by (induction rs arbitrary: w) (auto simp: component_run_def)

section \<open>The offer is the decision\<close>

definition started_components :: "string list \<Rightarrow> component_world" where
  "started_components agents =
     \<lparr>cw_tables = \<lparr>ct_components = [], ct_excluded = [], ct_functions = [], ct_sandboxed = [], ct_agents = agents\<rparr>,
       cw_trail = [], cw_queries = []\<rparr>"

lemma request_names: "names_once (cw_tables w) \<Longrightarrow> names_once (cw_tables (snd (component_step env (a, r) w)))"
  by (rule request_keeps) (auto intro: sync_names admin_names sandboxed_names)

lemma run_names: "names_once (cw_tables (component_run env rs (started_components agents)))"
proof (rule run_keeps)
  show "names_once (cw_tables (started_components agents))" by (simp add: started_components_def names_once_def)
qed (rule request_names)

lemma offered_iff:
  "(name, d) \<in> set (components_for_agent collate agent t)
   \<longleftrightarrow> (\<exists>r \<in> set (ct_components t). cm_name r = name \<and> cm_published r \<and> cm_description r = Some d \<and> d \<noteq> [] \<and> \<not> withheld name agent t)"
  by (auto simp: components_for_agent_def split: option.splits if_splits)

lemma allowed_iff:
  "decide_component name agent t = Inr d
   \<longleftrightarrow> (\<exists>r. component_at name t = Some r \<and> cm_published r \<and> cm_description r = Some d \<and> d \<noteq> [] \<and> \<not> (withheld name agent t \<and> agent \<noteq> []))"
  by (auto simp: decide_component_def split: option.splits bool.splits list.splits if_splits)

text \<open>C35: what a Bot is offered is what it is allowed. After any requests of anybody, a component is in the list a
  run is made from, with a description, exactly when the decision made at the call allows it with that
  description.\<close>

theorem offer_is_the_decision:
  "let t = cw_tables (component_run env rs (started_components agents)) in
   ((name, d) \<in> set (components_for_agent collate (c # agent) t)) = (decide_component name (c # agent) t = Inr d)"
  unfolding Let_def offered_iff allowed_iff component_at_in [OF run_names] by auto

section \<open>Data is read only with every permission\<close>

definition query_in_bounds :: "data_query \<Rightarrow> bool" where
  "query_in_bounds q = (case q of Activity_over_days d \<Rightarrow> 1 \<le> d \<and> d \<le> 90 | Refusals_up_to n \<Rightarrow> 1 \<le> n \<and> n \<le> 50)"

lemma query_of_bounds [simp]: "query_in_bounds (query_of f args)"
  by (auto simp: query_in_bounds_def query_of_def bounded_argument_def split: option.split jsv.split)

definition call_event :: "component_reply \<Rightarrow> string option" where
  "call_event r = (case r of Not_allowed e \<Rightarrow> Some ''component.function_refused'' | Data_read v \<Rightarrow> Some ''component.function_called''
     | Data_failed \<Rightarrow> Some ''component.function_failed'' | _ \<Rightarrow> None)"

lemma component_event_type [simp]: "ai_type (component_event a k n p) = k"
  by (simp add: component_event_def record_audit_event_def)

text \<open>C24: a component reads data only with every permission. A call makes a query only when the caller may use the
  Bot, the Bot may use the component, the function exists and the component was granted it, all at the
  moment of the call; then exactly one, within its bounds whatever the arguments are; it changes no table, and
  every call that was understood leaves one row that says how it ended.\<close>

theorem data_needs_every_permission:
  "case post_call env a name json w of (r, w') \<Rightarrow>
     cw_tables w' = cw_tables w
     \<and> (if cw_queries w' = cw_queries w then call_event r \<noteq> Some ''component.function_called''
        else let f = string_or_empty (request_body json) ''function''; agent = string_or_empty (request_body json) ''agentId'' in
          cv_may_use env a agent \<and> decide_component name agent (cw_tables w) \<in> range Inr \<and> find_data_function f \<noteq> None
          \<and> may_call name f (cw_tables w) \<and> cw_queries w' = cw_queries w @ [last (cw_queries w')] \<and> query_in_bounds (last (cw_queries w')))
     \<and> map ai_type (cw_trail w') = map ai_type (cw_trail w) @
         (if cv_recorded env then (case call_event r of Some k \<Rightarrow> [k] | None \<Rightarrow> []) else [])"
  by (auto simp: post_call_def Let_def function_refused_def audit_component_def call_event_def no_such_bot_def
      split: sum.split option.split)

section \<open>Only administrators decide\<close>

definition as_decided :: "component_tables \<Rightarrow> component_tables \<Rightarrow> bool" where
  "as_decided t u \<longleftrightarrow>
     (\<exists>new. ct_components u = ct_components t @ new \<and> list_all (\<lambda>r. cm_by r = Some ''the build'') new)
     \<and> ct_excluded u = ct_excluded t \<and> ct_functions u = ct_functions t \<and> ct_sandboxed u = ct_sandboxed t"

lemma sync_as_decided: "as_decided t u \<Longrightarrow> as_decided t (snd (sync_catalogue es now u))"
  by (auto simp: as_decided_def sync_catalogue_def Let_def announced_row_def list_all_iff)

text \<open>People who are not administrators decide nothing. Whatever they send, every row there was is as it was, no Bot
  is held back or let go, no function is granted and no source is touched; the only rows that appear are
  those of a build.\<close>

theorem users_decide_nothing:
  "as_decided (cw_tables w) (cw_tables (component_run env (filter (\<lambda>(a, r). ac_role a \<noteq> Admin_role) rs) w))"
proof (rule run_keeps)
  fix a r and v :: component_world assume who: "(a, r) \<in> set (filter (\<lambda>(a, r). ac_role a \<noteq> Admin_role) rs)" and "as_decided (cw_tables w) (cw_tables v)"
  then have "ac_role a \<noteq> Admin_role" "as_decided (cw_tables w) (cw_tables v)" by auto
  then show "as_decided (cw_tables w) (cw_tables (snd (component_step env (a, r) v)))"
    by (intro request_keeps [where t = "cw_tables v" and P = "as_decided (cw_tables w)"] sync_as_decided) simp_all
next
  show "as_decided (cw_tables w) (cw_tables w)" by (simp add: as_decided_def)
qed

section \<open>A draft reaches nobody\<close>

lemma sort_key_map: "(\<And>x. k (f x) = k x) \<Longrightarrow> sort_key k (map f xs) = map f (sort_key k xs)"
proof -
  assume key: "\<And>x. k (f x) = k x"
  have "insort_key k (f x) (map f ys) = map f (insort_key k x ys)" for x ys by (induction ys) (simp_all add: key)
  then show ?thesis by (induction xs) simp_all
qed

lemma filter_map_same: "(\<And>r. P (g r) = P r) \<Longrightarrow> filter P (map g rs) = map g (filter P rs)"
  by (induction rs) auto

lemma offer_of_change:
  assumes "\<And>q. cm_name (f q) = cm_name q \<and> cm_published (f q) = cm_published q \<and> cm_description (f q) = cm_description q"
  shows "components_for_agent collate agent (change_component name f t) = components_for_agent collate agent t"
proof -
  let ?g = "\<lambda>r. if cm_name r = name then f r else r"
  have "filter (\<lambda>r. cm_published r \<and> \<not> withheld (cm_name r) agent t) (map ?g (ct_components t))
      = map ?g (filter (\<lambda>r. cm_published r \<and> \<not> withheld (cm_name r) agent t) (ct_components t))"
    by (rule filter_map_same) (simp add: assms)
  moreover have "(case cm_description (?g r) of Some d \<Rightarrow> if d \<noteq> [] then [(cm_name (?g r), d)] else [] | None \<Rightarrow> [])
      = (case cm_description r of Some d \<Rightarrow> if d \<noteq> [] then [(cm_name r, d)] else [] | None \<Rightarrow> [])" for r
    by (simp add: assms split: option.split)
  moreover have "withheld n agent (change_component name f t) = withheld n agent t" for n by (simp add: withheld_def change_component_def)
  moreover have "sort_key (\<lambda>r. collate (cm_name r)) (map ?g rs) = map ?g (sort_key (\<lambda>r. collate (cm_name r)) rs)" for rs
    by (rule sort_key_map) (simp add: assms)
  moreover have "ct_components (change_component name f t) = map ?g (ct_components t)" by (simp add: change_component_def)
  ultimately show ?thesis unfolding components_for_agent_def by (simp only: map_map o_def)
qed

lemma decided_of_change:
  assumes "\<And>q. cm_name (f q) = cm_name q \<and> cm_published (f q) = cm_published q \<and> cm_description (f q) = cm_description q"
  shows "decide_component n agent (change_component name f t) = Inr d \<longleftrightarrow> decide_component n agent t = Inr d"
proof -
  have "find (\<lambda>r. cm_name r = n) (map (\<lambda>r. if cm_name r = name then f r else r) rs)
      = map_option (\<lambda>r. if cm_name r = name then f r else r) (find (\<lambda>r. cm_name r = n) rs)" for rs
    by (induction rs) (auto simp: assms)
  then have "component_at n (change_component name f t) = map_option (\<lambda>r. if cm_name r = name then f r else r) (component_at n t)"
    by (simp add: component_at_def change_component_def)
  then show ?thesis unfolding allowed_iff by (cases "component_at n t") (auto simp: assms withheld_def change_component_def)
qed

definition same_to_bots :: "component_tables \<Rightarrow> component_tables \<Rightarrow> bool" where
  "same_to_bots t u \<longleftrightarrow> published_sources u = published_sources t
     \<and> (\<forall>collate agent. components_for_agent collate agent u = components_for_agent collate agent t)
     \<and> (\<forall>name agent d. (decide_component name agent u = Inr d) = (decide_component name agent t = Inr d))"

lemma same_to_bots_refl [simp]: "same_to_bots t t" by (simp add: same_to_bots_def)

lemma same_to_bots_change:
  assumes "\<And>q. cm_name (f q) = cm_name q \<and> cm_published (f q) = cm_published q \<and> cm_description (f q) = cm_description q"
  shows "same_to_bots t (change_component name f t)"
  using offer_of_change [OF assms] decided_of_change [OF assms]
  by (simp add: same_to_bots_def published_sources_def change_component_def)

lemma decided_same:
  assumes "component_at n u = component_at n t" "withheld n agent u = withheld n agent t"
  shows "decide_component n agent u = decide_component n agent t"
  unfolding decide_component_def assms ..

lemma withheld_source: "withheld n agent (put_source name x u t) = withheld n agent t"
  by (simp add: withheld_def)

lemma find_snoc: "find P (xs @ [x]) = (case find P xs of Some y \<Rightarrow> Some y | None \<Rightarrow> if P x then Some x else None)"
  by (induction xs) auto

lemma same_to_bots_source: "same_to_bots t (put_source name x u t)"
proof -
  let ?g = "\<lambda>r. if sb_name r = name then drafted x u r else r"
  have "filter (\<lambda>r. sb_published r \<and> sb_html r \<noteq> None) (map ?g (ct_sandboxed t)) = map ?g (filter (\<lambda>r. sb_published r \<and> sb_html r \<noteq> None) (ct_sandboxed t))"
    by (rule filter_map_same) (simp add: drafted_def)
  then have old: "published_sources (t\<lparr>ct_sandboxed := map ?g (ct_sandboxed t)\<rparr>) = published_sources t"
    by (simp add: published_sources_def drafted_def)
  have new: "published_sources (t\<lparr>ct_sandboxed := ct_sandboxed t @ [drafted x u (blank_row name)]\<rparr>) = published_sources t"
    by (simp add: published_sources_def drafted_def blank_row_def)
  have "decide_component n agent (put_source name x u t) = decide_component n agent t" for n agent
    by (rule decided_same) (simp_all add: component_at_def withheld_source)
  moreover have "components_for_agent collate agent (put_source name x u t) = components_for_agent collate agent t" for agent collate
    by (simp add: components_for_agent_def withheld_source)
  ultimately show ?thesis using old new by (simp add: same_to_bots_def put_source_def)
qed

lemma same_to_bots_governance: "same_to_bots t (put_governance name x u now t)"
proof (cases "component_at name t")
  case None
  then have "component_at n (put_governance name x u now t) = (if n = name then Some \<lparr>cm_name = name, cm_title = si_title_asked x, cm_kind = ''sandboxed'',
        cm_draft = si_description_asked x, cm_description = None, cm_published = False, cm_published_at = None,
        cm_by = Some u, cm_updated = now\<rparr> else component_at n t)" for n
    by (auto simp: put_governance_def component_at_def find_snoc split: option.split)
  then show ?thesis using None
    by (auto simp: same_to_bots_def published_sources_def components_for_agent_def withheld_def allowed_iff put_governance_def)
next
  case (Some r)
  then show ?thesis by (simp add: put_governance_def same_to_bots_change)
qed

lemma same_to_bots_trans: "same_to_bots t u \<Longrightarrow> same_to_bots u v \<Longrightarrow> same_to_bots t v"
  by (simp add: same_to_bots_def)

text \<open>A draft reaches nobody. After a description is drafted or a source is saved, new or old, every Bot is offered
  and allowed what it was, under the same descriptions, and the app draws the same sources.\<close>

theorem draft_reaches_nobody:
  "same_to_bots (cw_tables w) (cw_tables (snd (put_draft env a name json now w)))
   \<and> same_to_bots (cw_tables w) (cw_tables (snd (post_sandboxed a body now w)))"
proof
  show "same_to_bots (cw_tables w) (cw_tables (snd (put_draft env a name json now w)))"
    by (auto simp: put_draft_def component_admin_tables component_settled_tables Let_def save_draft_def snd_on_component
        intro!: same_to_bots_change split: option.split sum.split)
  have "same_to_bots t (snd (snd (save_sandboxed x u now t)))" for x u t
    using same_to_bots_trans [OF same_to_bots_source same_to_bots_governance]
    by (auto simp: save_sandboxed_def Let_def split: option.split)
  then show "same_to_bots (cw_tables w) (cw_tables (snd (post_sandboxed a body now w)))"
    by (auto simp: post_sandboxed_def component_admin_tables sandboxed_settled_tables split: option.split)
qed

section \<open>Held back until let go\<close>

fun lets_go :: "string \<Rightarrow> component_request \<Rightarrow> bool" where
  "lets_go name (Post_grant n json) = (n = name)"
| "lets_go name (Delete_sandboxed n) = (n = name)"
| "lets_go name r = False"

lemma withheld_rows: "ct_excluded u = ct_excluded t \<Longrightarrow> withheld name agent u = withheld name agent t"
  by (simp add: withheld_def)

lemma list_ex_filter: "list_ex P (filter Q xs) = list_ex (\<lambda>x. Q x \<and> P x) xs"
  by (induction xs) auto

lemma withheld_grant: "n \<noteq> name \<Longrightarrow> withheld name agent (snd (grant_component n g t)) = withheld name agent t"
  by (auto simp: grant_component_def snd_on_component withheld_def list_ex_iff split: option.split)

lemma withheld_revoke: "withheld name agent t \<Longrightarrow> withheld name agent (snd (revoke_component n g u t))"
  by (auto simp: revoke_component_def withheld_def list_ex_iff split: option.split)

lemma withheld_others:
  "withheld name agent (snd (sync_catalogue es now t)) = withheld name agent t"
  "withheld name agent (snd (publish_component n u now t)) = withheld name agent t"
  "withheld name agent (snd (unpublish_component n u now t)) = withheld name agent t"
  "withheld name agent (snd (save_draft n d u now t)) = withheld name agent t"
  "withheld name agent (snd (grant_function n f u t)) = withheld name agent t"
  "withheld name agent (revoke_function n f t) = withheld name agent t"
  "withheld name agent (snd (snd (save_sandboxed x u now t))) = withheld name agent t"
  "withheld name agent (snd (snd (publish_sandboxed n u now t))) = withheld name agent t"
  by (rule withheld_rows; simp add: sync_catalogue_def publish_component_def unpublish_component_def save_draft_def grant_function_def
      revoke_function_def save_sandboxed_def publish_sandboxed_def snd_on_component change_component_def put_governance_def Let_def
      split: option.split)+

lemma withheld_remove: "n \<noteq> name \<Longrightarrow> withheld name agent (snd (snd (remove_sandboxed n u t))) = withheld name agent t"
  by (auto simp: remove_sandboxed_def delete_component_def withheld_def list_ex_iff split: option.split)

text \<open>A Bot held back stays held back. Until an administrator lets it go, or removes the component, no request of
  anybody (an announcement, a draft, publishing it again) brings it to use the component.\<close>

theorem held_back_stays_held_back:
  "if withheld name (c # agent) (cw_tables w)
   then isl (decide_component name (c # agent) (cw_tables (component_run env (filter (\<lambda>(a, r). \<not> lets_go name r) rs) w)))
   else True"
proof -
  let ?rs = "filter (\<lambda>(a, r). \<not> lets_go name r) rs" and ?held = "withheld name (c # agent)"
  have "?held (cw_tables (component_run env ?rs w))" if "?held (cw_tables w)"
  proof (rule run_keeps [where P = ?held])
    fix a r and v :: component_world assume "(a, r) \<in> set ?rs" and held: "?held (cw_tables v)"
    then have "\<not> lets_go name r" by auto
    then show "?held (cw_tables (snd (component_step env (a, r) v)))"
      by (intro request_keeps [where t = "cw_tables v" and P = ?held])
        (auto simp: withheld_others withheld_revoke withheld_grant withheld_remove held)
  qed (rule that)
  moreover have "isl (decide_component name (c # agent) t)" if "?held t" for t
    using that by (auto simp: decide_component_def split: option.split bool.split list.split)
  ultimately show ?thesis by simp
qed

text \<open>A component that was removed is gone. When the playground answers that it removed one, no Bot may use it, no
  function is granted to its name, the app has nothing to draw for it, and of other components nothing changed.\<close>

theorem removed_component_is_gone:
  "case delete_sandboxed a name w of (r, w') \<Rightarrow>
     (if r = Component_done
      then isl (decide_component name agent (cw_tables w')) \<and> \<not> may_call name f (cw_tables w')
        \<and> name \<notin> ps_name ` set (published_sources (cw_tables w'))
        \<and> filter (\<lambda>q. cm_name q \<noteq> name) (ct_components (cw_tables w)) = ct_components (cw_tables w')
        \<and> filter (\<lambda>x. ex_component x \<noteq> name) (ct_excluded (cw_tables w)) = ct_excluded (cw_tables w')
      else cw_tables w' = cw_tables w)"
proof -
  have gone: "isl (decide_component name agent (delete_component name t))" "\<not> may_call name f (delete_component name t)" for t
  proof -
    have "component_at name (delete_component name t) = None" by (auto simp: component_at_None delete_component_def)
    then show "isl (decide_component name agent (delete_component name t))" by (simp add: decide_component_def)
    show "\<not> may_call name f (delete_component name t)" by (simp add: may_call_def delete_component_def list_ex_filter) (simp add: list_ex_iff)
  qed
  have rows: "ct_components (delete_component name t) = filter (\<lambda>q. cm_name q \<noteq> name) (ct_components t)"
    "ct_excluded (delete_component name t) = filter (\<lambda>x. ex_component x \<noteq> name) (ct_excluded t)"
    "ct_sandboxed (delete_component name t) = ct_sandboxed t" for t
    by (simp_all add: delete_component_def)
  show ?thesis
    by (auto simp: delete_sandboxed_def component_admin_def require_admin_def sandboxed_settled_def remove_sandboxed_def gone
        published_sources_def rows split: option.split)
qed

section \<open>Where the two surfaces meet\<close>

definition sample_admin :: actor where
  "sample_admin = \<lparr>ac_user = \<lparr>su_id = ''u'', su_email = ''a@b.c'', su_name = None, su_image = None\<rparr>, ac_role = Admin_role\<rparr>"

definition sample_person :: actor where
  "sample_person = \<lparr>ac_user = \<lparr>su_id = ''v'', su_email = ''p@b.c'', su_name = None, su_image = None\<rparr>, ac_role = User_role\<rparr>"

definition sample_env :: component_env where
  "sample_env = \<lparr>cv_recorded = True, cv_may_use = (\<lambda>a b. True), cv_query = (\<lambda>q. Inr []), cv_collate = (\<lambda>s. 0)\<rparr>"

definition sample_card :: "jsv option \<Rightarrow> sandboxed_body" where
  "sample_card schema = \<lparr>bo_slug = Some ''card'', bo_title = Some ''Card'', bo_description = Some ''draws a card'', bo_html = Some ''<p>'',
     bo_css = None, bo_js = None, bo_schema = schema, bo_sample = None\<rparr>"

text \<open>A description can be published without its source. A saved component published on the other page is
  allowed to every Bot, and the app has nothing to draw it with.\<close>

theorem published_without_a_source:
  "let w = component_run sample_env [(sample_admin, Post_sandboxed (Some (sample_card None)) 1), (sample_admin, Post_publication ''custom_card'' None 2)]
       (started_components [''bot'']) in
   decide_component ''custom_card'' ''bot'' (cw_tables w) = Inr ''draws a card'' \<and> published_sources (cw_tables w) = []"
  by code_simp

text \<open>An announcement can take the name of a component nobody has written yet. Whoever is signed in may announce it,
  with the wording a model reads; when an administrator saves a component of that name it is allowed at once,
  under that wording, and the playground refuses to remove it.\<close>

theorem announced_name_is_published_when_saved:
  "let announced = JObj [(''components'', JArr [JObj [(''name'', JStr ''custom_card''), (''title'', JStr ''t''), (''kind'', JStr ''chart''),
         (''description'', JStr ''anything'')]])];
       w = component_run sample_env [(sample_person, Put_catalogue (Some announced) 1), (sample_admin, Post_sandboxed (Some (sample_card None)) 2)]
         (started_components [''bot'']) in
   decide_component ''custom_card'' ''bot'' (cw_tables w) = Inr ''anything''
   \<and> fst (delete_sandboxed sample_admin ''custom_card'' w) = Refused_request 404 (no_component ''custom_card'')"
  by code_simp

text \<open>A changed argument schema is not shown as a change. After publishing, saving the same source with other
  arguments leaves the record saying that nothing is unpublished, while what models are told differs from the draft.\<close>

theorem changed_arguments_are_not_shown:
  "let w = component_run sample_env [(sample_admin, Post_sandboxed (Some (sample_card None)) 1), (sample_admin, Post_publish ''custom_card'' 2),
         (sample_admin, Post_sandboxed (Some (sample_card (Some (JObj [(''type'', JStr ''object'')])))) 3)]
       (started_components [''bot'']) in
   map sr_unpublished_changes (list_sandboxed (\<lambda>s. 0) (cw_tables w)) = [False]
   \<and> map sb_draft_schema (ct_sandboxed (cw_tables w)) \<noteq> map ps_schema (published_sources (cw_tables w))"
  by code_simp

end
