(* ===== verification/Computer_Providers.thy ===== *)
theory Computer_Providers
  imports Settings
begin

text \<open>
  Where a Bot's computer is (\<^verbatim>\<open>server/src/computer/provider.ts\<close>, \<^verbatim>\<open>supervisor.ts\<close>): the client of one shared
  computer, and the client of the supervisor that gives every Bot a container of its own.

  The network is a parameter: an answer to each request, with its status, its JSON if it is JSON, and its
  bytes. So is the URL with another host, which the platform writes. Of an answer's JSON the fields have the
  types the code declares, or are not there; any other shape is an error of the platform.
\<close>

section \<open>Requests\<close>

record provider_request =
  pq_method :: string
  pq_url :: string
  pq_headers :: "(string \<times> string) list"
  pq_content :: "string option"
  pq_timeout_ms :: int

datatype provider_answer =
    No_answer string
  | Provider_answer int "jsv option" string

type_synonym provider_net = "provider_request \<Rightarrow> provider_answer"

definition ok_status :: "int \<Rightarrow> bool" where
  "ok_status s \<longleftrightarrow> 200 \<le> s \<and> s \<le> 299"

definition without_final_slash :: "string \<Rightarrow> string" where
  "without_final_slash s = (if s \<noteq> [] \<and> last s = CHR ''/'' then butlast s else s)"

definition body_field :: "jsv option \<Rightarrow> string \<Rightarrow> jsv option" where
  "body_field body k = (case body of None \<Rightarrow> None | Some v \<Rightarrow> js_field v k)"

text \<open>\<^verbatim>\<open>body?.error ?? fallback\<close>, as the message of an error.\<close>

definition error_said :: "jsv option \<Rightarrow> string \<Rightarrow> string" where
  "error_said body fallback = (case body_field body ''error'' of Some (JStr e) \<Rightarrow> e | _ \<Rightarrow> fallback)"

definition bool_field :: "jsv option \<Rightarrow> string \<Rightarrow> bool option" where
  "bool_field body k = (case body_field body k of Some (JBool b) \<Rightarrow> Some b | _ \<Rightarrow> None)"

definition type_error :: string where
  "type_error = ''TypeError''"

section \<open>What a provider says\<close>

record computer_location =
  cl_bot :: string
  cl_running :: bool
  cl_url :: "string option"
  cl_started :: "string option"
  cl_egress :: "string option option"

datatype machine_state = Absent_computer | Starting | Ready | Unreachable string

record machine_status =
  ms_bot :: string
  ms_state :: machine_state

datatype isolation = Per_bot | Shared_isolation

record isolation_description =
  id_isolation :: string
  id_note :: string
  id_warning :: "string option"

definition describe_computer_isolation :: "isolation option \<Rightarrow> isolation_description" where
  "describe_computer_isolation provider =
     (case provider of
        None \<Rightarrow> \<lparr>id_isolation = ''off'', id_note = ''The computer feature is off. No computer provider is configured.'', id_warning = None\<rparr>
      | Some Per_bot \<Rightarrow> \<lparr>id_isolation = ''one computer per Bot'',
          id_note = ''Each Bot gets its own isolated computer with its own /workspace and browser profile.'', id_warning = None\<rparr>
      | Some Shared_isolation \<Rightarrow> \<lparr>id_isolation = ''one shared computer'',
          id_note = ''No supervisor is configured, so every Bot uses the same browser. Sessions, files and logins are shared between them. Set COMPUTER_SUPERVISOR_URL to give each Bot its own.'',
          id_warning = Some ''Every Bot shares one browser. Set COMPUTER_SUPERVISOR_URL for a computer each.''\<rparr>)"

definition unreachable_of :: "string \<Rightarrow> machine_state" where
  "unreachable_of message = Unreachable (if message \<noteq> [] then message else ''Unknown failure.'')"

section \<open>The shared computer\<close>

record shared_options =
  sh_base :: string
  sh_token :: "string option"
  sh_timeout_ms :: int

definition shared_headers :: "shared_options \<Rightarrow> string option \<Rightarrow> (string \<times> string) list" where
  "shared_headers opts b =
     (case b of Some (c # b) \<Rightarrow> [(''x-openbot-b-id'', c # b)] | _ \<Rightarrow> [])
     @ (case sh_token opts of Some (c # t) \<Rightarrow> [(''x-openbot-computer-token'', c # t)] | _ \<Rightarrow> [])"

definition shared_request :: "shared_options \<Rightarrow> string \<Rightarrow> string \<Rightarrow> string option \<Rightarrow> provider_request" where
  "shared_request opts path verb b =
     \<lparr>pq_method = verb, pq_url = without_final_slash (sh_base opts) @ path, pq_headers = shared_headers opts b,
       pq_content = None, pq_timeout_ms = sh_timeout_ms opts\<rparr>"

definition shared_call :: "shared_options \<Rightarrow> provider_net \<Rightarrow> string \<Rightarrow> string \<Rightarrow> string option \<Rightarrow> string + jsv option" where
  "shared_call opts net path verb b =
     (case net (shared_request opts path verb b) of
        No_answer e \<Rightarrow> Inl (''The shared computer at '' @ without_final_slash (sh_base opts) @ '' could not be reached ('' @ e @ '').'')
      | Provider_answer status body bytes \<Rightarrow>
          if ok_status status then Inr body
          else Inl (error_said body (''The shared computer answered '' @ show_int status @ ''.'')))"

definition shared_locate :: "shared_options \<Rightarrow> string \<Rightarrow> string + string" where
  "shared_locate opts b = Inr (sh_base opts)"

definition shared_status :: "shared_options \<Rightarrow> provider_net \<Rightarrow> string \<Rightarrow> machine_status" where
  "shared_status opts net b =
     (case shared_call opts net ''/health'' ''GET'' (Some b) of
        Inr body \<Rightarrow> \<lparr>ms_bot = b, ms_state = Ready\<rparr>
      | Inl e \<Rightarrow> \<lparr>ms_bot = b, ms_state = unreachable_of e\<rparr>)"

definition first_bool :: "jsv option \<Rightarrow> string \<Rightarrow> string \<Rightarrow> bool" where
  "first_bool body k k' = (case bool_field body k of Some b \<Rightarrow> b | None \<Rightarrow> (case bool_field body k' of Some b \<Rightarrow> b | None \<Rightarrow> False))"

definition shared_stop :: "shared_options \<Rightarrow> provider_net \<Rightarrow> string \<Rightarrow> string + bool" where
  "shared_stop opts net b =
     on_success (shared_call opts net ''/computers/stop'' ''POST'' (Some b)) (\<lambda>body. Inr (first_bool body ''wasRunning'' ''stopped''))"

definition shared_reset :: "shared_options \<Rightarrow> provider_net \<Rightarrow> string \<Rightarrow> string + bool" where
  "shared_reset opts net b =
     on_success (shared_call opts net ''/computers/reset'' ''POST'' (Some b)) (\<lambda>body. Inr (first_bool body ''cleared'' ''reset''))"

definition filled :: "jsv \<Rightarrow> string \<Rightarrow> string option" where
  "filled v k = (case js_string_field v k of Some (c # s) \<Rightarrow> Some (c # s) | _ \<Rightarrow> None)"

definition egress_field :: "jsv \<Rightarrow> string option option" where
  "egress_field v = (case js_field v ''egress'' of Some (JStr e) \<Rightarrow> Some (Some e) | Some JNull \<Rightarrow> Some None | _ \<Rightarrow> None)"

definition shared_location :: "shared_options \<Rightarrow> jsv \<Rightarrow> string + computer_location" where
  "shared_location opts v =
     (case js_string_field v ''botId'' of
        None \<Rightarrow> Inl type_error
      | Some b \<Rightarrow> Inr \<lparr>cl_bot = b,
          cl_running = (js_string_field v ''status'' = Some ''running'' \<or> js_field v ''running'' = Some (JBool True)),
          cl_url = Some (case js_string_field v ''url'' of Some u \<Rightarrow> u | None \<Rightarrow> without_final_slash (sh_base opts)),
          cl_started = filled v ''startedAt'', cl_egress = egress_field v\<rparr>)"

fun locations :: "(jsv \<Rightarrow> string + 'a) \<Rightarrow> jsv list \<Rightarrow> string + 'a list" where
  "locations f [] = Inr []"
| "locations f (v # vs) = on_success (f v) (\<lambda>x. on_success (locations f vs) (\<lambda>xs. Inr (x # xs)))"

definition computers_field :: "jsv option \<Rightarrow> string + jsv list" where
  "computers_field body =
     (case body_field body ''computers'' of
        None \<Rightarrow> Inr [] | Some JNull \<Rightarrow> Inr [] | Some JUndef \<Rightarrow> Inr [] | Some (JArr vs) \<Rightarrow> Inr vs | _ \<Rightarrow> Inl type_error)"

definition shared_list :: "shared_options \<Rightarrow> provider_net \<Rightarrow> string + computer_location list" where
  "shared_list opts net =
     on_success (shared_call opts net ''/computers'' ''GET'' None) (\<lambda>body.
     on_success (computers_field body) (locations (shared_location opts)))"

section \<open>The supervisor\<close>

record supervisor_options =
  so_base :: string
  so_token :: "string option"
  so_timeout_ms :: int
  so_host_for_port :: "int \<Rightarrow> string"
  so_public_host :: "string option"

text \<open>What the platform needs for an address: the parser of URLs, and a URL written with another host name.\<close>

record address_writer =
  aw_parse :: url_parser
  aw_with_host :: "url \<Rightarrow> string \<Rightarrow> string"

record supervisor_location =
  sl_bot :: string
  sl_status :: string
  sl_port :: "int option"
  sl_url :: "string option"
  sl_started :: "string option"

definition own_machine :: "string list" where
  "own_machine = [''127.0.0.1'', ''localhost'', ''::1'', ''[::1]'']"

definition reachable :: "address_writer \<Rightarrow> supervisor_options \<Rightarrow> string \<Rightarrow> string" where
  "reachable aw opts u =
     (case so_public_host opts of
        Some (c # h) \<Rightarrow>
          (case aw_parse aw u of
             Some p \<Rightarrow> if url_hostname p \<in> set own_machine then without_final_slash (aw_with_host aw p (c # h)) else u
           | None \<Rightarrow> u)
      | _ \<Rightarrow> u)"

definition bearer :: "supervisor_options \<Rightarrow> (string \<times> string) list" where
  "bearer opts = (case so_token opts of Some (c # t) \<Rightarrow> [(''authorization'', ''Bearer '' @ c # t)] | _ \<Rightarrow> [])"

definition supervisor_base :: "supervisor_options \<Rightarrow> string" where
  "supervisor_base opts = without_final_slash (so_base opts)"

definition not_reached :: "supervisor_options \<Rightarrow> string \<Rightarrow> string" where
  "not_reached opts e = ''The container supervisor at '' @ supervisor_base opts @ '' could not be reached ('' @ e @ '').''"

definition supervisor_answered :: "int \<Rightarrow> jsv option \<Rightarrow> string" where
  "supervisor_answered status body = error_said body (''The supervisor answered '' @ show_int status @ ''.'')"

definition raw_request :: "supervisor_options \<Rightarrow> string \<Rightarrow> string \<Rightarrow> (string \<times> string) list \<Rightarrow> string option \<Rightarrow> provider_request" where
  "raw_request opts path verb headers content =
     \<lparr>pq_method = verb, pq_url = supervisor_base opts @ path, pq_headers = bearer opts @ headers, pq_content = content,
       pq_timeout_ms = max (so_timeout_ms opts) 300000\<rparr>"

definition supervisor_raw ::
  "supervisor_options \<Rightarrow> provider_net \<Rightarrow> string \<Rightarrow> string \<Rightarrow> (string \<times> string) list \<Rightarrow> string option \<Rightarrow> string + jsv option \<times> string" where
  "supervisor_raw opts net path verb headers content =
     (case net (raw_request opts path verb headers content) of
        No_answer e \<Rightarrow> Inl (not_reached opts e)
      | Provider_answer status body bytes \<Rightarrow> if ok_status status then Inr (body, bytes) else Inl (supervisor_answered status body))"

definition call_request :: "supervisor_options \<Rightarrow> string \<Rightarrow> string \<Rightarrow> provider_request" where
  "call_request opts path verb =
     \<lparr>pq_method = verb, pq_url = supervisor_base opts @ path, pq_headers = bearer opts, pq_content = None,
       pq_timeout_ms = so_timeout_ms opts\<rparr>"

definition supervisor_call :: "supervisor_options \<Rightarrow> provider_net \<Rightarrow> string \<Rightarrow> string \<Rightarrow> string + jsv option" where
  "supervisor_call opts net path verb =
     (case net (call_request opts path verb) of
        No_answer e \<Rightarrow> Inl (not_reached opts e)
      | Provider_answer status body bytes \<Rightarrow> if ok_status status then Inr body else Inl (supervisor_answered status body))"

definition bot_path :: "string \<Rightarrow> string \<Rightarrow> string" where
  "bot_path b verb = ''/v1/computers/'' @ encode_uri_component b @ ''/'' @ verb"

definition location_of :: "jsv \<Rightarrow> string + supervisor_location" where
  "location_of v =
     (case (js_string_field v ''botId'', js_string_field v ''status'') of
        (Some b, Some status) \<Rightarrow> Inr \<lparr>sl_bot = b, sl_status = status,
          sl_port = (case js_field v ''port'' of Some (JNum n) \<Rightarrow> if n = 0 then None else Some n | _ \<Rightarrow> None),
          sl_url = filled v ''url'', sl_started = filled v ''startedAt''\<rparr>
      | _ \<Rightarrow> Inl type_error)"

definition list_raw :: "supervisor_options \<Rightarrow> provider_net \<Rightarrow> string + supervisor_location list" where
  "list_raw opts net =
     on_success (supervisor_call opts net ''/v1/computers'' ''GET'') (\<lambda>body.
     on_success (computers_field body) (locations location_of))"

definition supervisor_list :: "address_writer \<Rightarrow> supervisor_options \<Rightarrow> provider_net \<Rightarrow> string + computer_location list" where
  "supervisor_list aw opts net =
     on_success (list_raw opts net) (\<lambda>rows. Inr (map (\<lambda>r.
       \<lparr>cl_bot = sl_bot r, cl_running = (js_lower (sl_status r) = ''running''),
         cl_url = (case (sl_url r, sl_port r) of (Some u, _) \<Rightarrow> Some (reachable aw opts u) | (None, Some p) \<Rightarrow> Some (so_host_for_port opts p) | _ \<Rightarrow> None),
         cl_started = sl_started r, cl_egress = None\<rparr>) rows))"

definition state_of_container :: "string \<Rightarrow> machine_state" where
  "state_of_container status =
     (let raw = js_lower status in
      if raw = ''running'' then Ready
      else if raw = ''created'' \<or> raw = ''restarting'' then Starting
      else if raw = ''paused'' \<or> raw = ''removing'' \<or> raw = ''exited'' then Absent_computer
      else if raw = ''dead'' then Unreachable (''The computer reported state '' @ [CHR 0x22] @ status @ [CHR 0x22] @ ''.'')
      else Unreachable (''The computer reported unknown state '' @ [CHR 0x22] @ status @ [CHR 0x22] @ ''.''))"

definition status_from_location :: "string \<Rightarrow> supervisor_location option \<Rightarrow> machine_status" where
  "status_from_location b l =
     \<lparr>ms_bot = b, ms_state = (case l of None \<Rightarrow> Absent_computer | Some r \<Rightarrow> state_of_container (sl_status r))\<rparr>"

definition supervisor_status :: "supervisor_options \<Rightarrow> provider_net \<Rightarrow> string \<Rightarrow> machine_status" where
  "supervisor_status opts net b =
     (case list_raw opts net of
        Inr rows \<Rightarrow> status_from_location b (find (\<lambda>r. sl_bot r = b) rows)
      | Inl e \<Rightarrow> \<lparr>ms_bot = b, ms_state = unreachable_of e\<rparr>)"

definition supervisor_capacity :: "supervisor_options \<Rightarrow> provider_net \<Rightarrow> string + jsv option" where
  "supervisor_capacity opts net = supervisor_call opts net ''/v1/capacity'' ''GET''"

definition fetch_bundle :: "supervisor_options \<Rightarrow> provider_net \<Rightarrow> string \<Rightarrow> string + string" where
  "fetch_bundle opts net b = on_success (supervisor_raw opts net (bot_path b ''bundle'') ''GET'' [] None) (\<lambda>(body, bytes). Inr bytes)"

definition restore_bundle :: "supervisor_options \<Rightarrow> provider_net \<Rightarrow> string \<Rightarrow> string \<Rightarrow> string + unit" where
  "restore_bundle opts net b bundle =
     on_success (supervisor_raw opts net (bot_path b ''bundle'') ''POST'' [(''content-type'', ''application/x-tar'')] (Some bundle))
       (\<lambda>r. Inr ())"

definition supervisor_health :: "supervisor_options \<Rightarrow> provider_net \<Rightarrow> string + jsv" where
  "supervisor_health opts net =
     on_success (supervisor_raw opts net ''/v1/health'' ''GET'' [] None)
       (\<lambda>(body, bytes). case body of None \<Rightarrow> Inl ''SyntaxError'' | Some v \<Rightarrow> Inr v)"

text \<open>The start time of each Bot's container, as the last \<^verbatim>\<open>ensure\<close> said it: one map for the process.\<close>

type_synonym sessions = "string \<Rightarrow> string option"

definition session_known :: "sessions \<Rightarrow> string \<Rightarrow> string option" where
  "session_known s b = s b"

definition supervisor_locate ::
  "address_writer \<Rightarrow> supervisor_options \<Rightarrow> provider_net \<Rightarrow> string \<Rightarrow> sessions \<Rightarrow> (string + string) \<times> sessions" where
  "supervisor_locate aw opts net b s =
     (case supervisor_call opts net (bot_path b ''ensure'') ''POST'' of
        Inl e \<Rightarrow> (Inl e, s)
      | Inr body \<Rightarrow>
          let state = (case body of Some v \<Rightarrow> v | None \<Rightarrow> JNull);
              s' = (case filled state ''startedAt'' of Some t \<Rightarrow> s(b \<mapsto> t) | None \<Rightarrow> s) in
          ((case filled state ''url'' of
              Some u \<Rightarrow> Inr (reachable aw opts u)
            | None \<Rightarrow>
                (case js_field state ''port'' of
                   Some (JNum n) \<Rightarrow>
                     if n \<noteq> 0 then Inr (so_host_for_port opts n)
                     else Inl (''The computer for '' @ b @ '' started but reported no address, so it cannot be reached.'')
                 | _ \<Rightarrow> Inl (''The computer for '' @ b @ '' started but reported no address, so it cannot be reached.''))), s'))"

definition supervisor_stop :: "supervisor_options \<Rightarrow> provider_net \<Rightarrow> string \<Rightarrow> string + bool" where
  "supervisor_stop opts net b =
     on_success (supervisor_call opts net (bot_path b ''stop'') ''POST'') (\<lambda>body. Inr (bool_field body ''stopped'' = Some True))"

definition supervisor_reset :: "supervisor_options \<Rightarrow> provider_net \<Rightarrow> string \<Rightarrow> string + bool" where
  "supervisor_reset opts net b =
     on_success (supervisor_call opts net (bot_path b ''reset'') ''POST'') (\<lambda>body. Inr (bool_field body ''reset'' = Some True))"

section \<open>The one a deployment configures\<close>

datatype computer_backend = Supervisor_backend supervisor_options | Shared_backend shared_options

definition default_host_for_port :: "int \<Rightarrow> string" where
  "default_host_for_port port = ''http://localhost:'' @ show_int port"

definition create_computer_provider :: "computer_config \<Rightarrow> computer_backend" where
  "create_computer_provider c =
     (case cc_provider c of
        Docker \<Rightarrow> Supervisor_backend \<lparr>so_base = cc_base c, so_token = cc_supervisor_token c, so_timeout_ms = 120000,
          so_host_for_port = default_host_for_port, so_public_host = None\<rparr>
      | Shared \<Rightarrow> Shared_backend \<lparr>sh_base = cc_base c, sh_token = cc_token c, sh_timeout_ms = 45000\<rparr>)"

definition backend_isolation :: "computer_backend \<Rightarrow> isolation" where
  "backend_isolation b = (case b of Supervisor_backend opts \<Rightarrow> Per_bot | Shared_backend opts \<Rightarrow> Shared_isolation)"

section \<open>One path to each Bot\<close>

lemma upper_hex_inj: "d < 16 \<Longrightarrow> e < 16 \<Longrightarrow> upper_hex d = upper_hex e \<Longrightarrow> d = e"
proof -
  assume "d < 16" "e < 16"
  moreover have "\<forall>d \<in> set [0..<16]. \<forall>e \<in> set [0..<16]. upper_hex d = upper_hex e \<longrightarrow> d = e" by code_simp
  ultimately show "upper_hex d = upper_hex e \<Longrightarrow> d = e" by simp
qed

lemma percent_inj: "b < 256 \<Longrightarrow> d < 256 \<Longrightarrow> percent b = percent d \<Longrightarrow> b = d"
proof -
  assume small: "b < 256" "d < 256" and "percent b = percent d"
  then have "upper_hex (b div 16) = upper_hex (d div 16)" "upper_hex (b mod 16) = upper_hex (d mod 16)" by (simp_all add: percent_def)
  then have "b div 16 = d div 16" "b mod 16 = d mod 16"
    using small by (auto intro!: upper_hex_inj)
  then show "b = d" by (metis div_mult_mod_eq)
qed

definition encoded_char :: "char \<Rightarrow> string" where
  "encoded_char c = (if unreserved c then [c] else concat (map percent (utf8_char c)))"

lemma percent_Cons: "percent b @ x = percent d @ y \<Longrightarrow> b < 256 \<Longrightarrow> d < 256 \<Longrightarrow> b = d \<and> x = y"
proof -
  assume "percent b @ x = percent d @ y" "b < 256" "d < 256"
  moreover from this(1) have "percent b = percent d \<and> x = y" by (subst (asm) append_eq_append_conv) (simp_all add: percent_def)
  ultimately show "b = d \<and> x = y" using percent_inj by blast
qed

lemma percents_Cons:
  "concat (map percent bs) @ x = concat (map percent cs) @ y \<Longrightarrow> length bs = length cs \<Longrightarrow> (\<forall>b \<in> set bs \<union> set cs. b < 256)
     \<Longrightarrow> bs = cs \<and> x = y"
proof (induction bs arbitrary: cs)
  case (Cons b bs)
  then obtain d ds where cs: "cs = d # ds" by (cases cs) auto
  from Cons.prems have "b = d \<and> concat (map percent bs) @ x = concat (map percent ds) @ y"
    by (intro percent_Cons) (simp_all add: cs)
  with Cons.prems Cons.IH [of ds] show ?case by (simp add: cs)
qed simp

lemma unreserved_no_percent: "\<not> unreserved (CHR ''%'')"
  by code_simp

lemma encoded_char_head: "encoded_char c @ x = e # r \<Longrightarrow> (e = CHR ''%'') = (\<not> unreserved c)"
proof -
  have "\<exists>b bs. utf8_char c = b # bs" using utf8_char_not_Nil by (cases "utf8_char c") auto
  then show "encoded_char c @ x = e # r \<Longrightarrow> (e = CHR ''%'') = (\<not> unreserved c)"
    using unreserved_no_percent by (auto simp: encoded_char_def percent_def split: if_splits)
qed

lemma first_byte: "percent (hd (utf8_char c)) @ x = percent (hd (utf8_char d)) @ y \<Longrightarrow> hd (utf8_char c) = hd (utf8_char d)"
proof -
  have "hd (utf8_char k) < 256" for k using utf8_char_byte [of "hd (utf8_char k)" k] utf8_char_not_Nil [of k] by simp
  then show "percent (hd (utf8_char c)) @ x = percent (hd (utf8_char d)) @ y \<Longrightarrow> hd (utf8_char c) = hd (utf8_char d)"
    using percent_Cons by blast
qed

lemma utf8_char_length: "hd (utf8_char c) = hd (utf8_char d) \<Longrightarrow> length (utf8_char c) = length (utf8_char d)"
  by (cases "char_code c < 128"; cases "char_code d < 128") (simp_all add: utf8_char_def Let_def)

lemma encoded_char_prefix: "encoded_char c @ x = encoded_char d @ y \<Longrightarrow> c = d \<and> x = y"
proof -
  assume eq: "encoded_char c @ x = encoded_char d @ y"
  have "encoded_char c \<noteq> []" using utf8_char_not_Nil [of c] by (cases "utf8_char c") (auto simp: encoded_char_def percent_def)
  then obtain e r where er: "encoded_char c @ x = e # r" by (cases "encoded_char c @ x") auto
  then have same: "unreserved c = unreserved d" using encoded_char_head [OF er] encoded_char_head [of d y e r] eq by simp
  show "c = d \<and> x = y"
  proof (cases "unreserved c")
    case True
    then show ?thesis using eq same by (simp add: encoded_char_def)
  next
    case False
    then have eq: "concat (map percent (utf8_char c)) @ x = concat (map percent (utf8_char d)) @ y"
      using eq same by (simp add: encoded_char_def)
    moreover obtain b bs where c: "utf8_char c = b # bs" using utf8_char_not_Nil by (cases "utf8_char c") auto
    moreover obtain g gs where d: "utf8_char d = g # gs" using utf8_char_not_Nil by (cases "utf8_char d") auto
    ultimately have "hd (utf8_char c) = hd (utf8_char d)" using first_byte [of c "concat (map percent bs) @ x" d "concat (map percent gs) @ y"] by simp
    then have "length (utf8_char c) = length (utf8_char d)" by (rule utf8_char_length)
    then have "utf8_char c = utf8_char d \<and> x = y"
      using eq by (intro percents_Cons) (auto dest: utf8_char_byte)
    then show ?thesis using utf8_inject [of "[c]" "[d]"] by (simp add: utf8_def)
  qed
qed

lemma encode_inj: "encode_uri_component s = encode_uri_component t \<longleftrightarrow> s = t"
proof
  have "concat (map encoded_char s) = concat (map encoded_char t) \<Longrightarrow> s = t"
  proof (induction s arbitrary: t)
    case Nil
    have "encoded_char d \<noteq> []" for d using utf8_char_not_Nil [of d] by (cases "utf8_char d") (auto simp: encoded_char_def percent_def)
    with Nil show ?case by (cases t) auto
  next
    case (Cons c s)
    have "encoded_char c \<noteq> []" using utf8_char_not_Nil [of c] by (cases "utf8_char c") (auto simp: encoded_char_def percent_def)
    with Cons.prems obtain d u where t: "t = d # u" by (cases t) auto
    with Cons.prems have "c = d \<and> concat (map encoded_char s) = concat (map encoded_char u)" by (intro encoded_char_prefix) simp
    with Cons.IH t show ?case by simp
  qed
  then show "encode_uri_component s = encode_uri_component t \<Longrightarrow> s = t" by (simp add: encode_uri_component_def encoded_char_def [abs_def])
qed simp

datatype bot_verb = Ensure | Stop | Reset | Bundle_verb

definition verb_text :: "bot_verb \<Rightarrow> string" where
  "verb_text v = (case v of Ensure \<Rightarrow> ''ensure'' | Stop \<Rightarrow> ''stop'' | Reset \<Rightarrow> ''reset'' | Bundle_verb \<Rightarrow> ''bundle'')"

lemma append_slash: "CHR ''/'' \<notin> set a \<Longrightarrow> CHR ''/'' \<notin> set b \<Longrightarrow> a @ CHR ''/'' # x = b @ CHR ''/'' # y \<longleftrightarrow> a = b \<and> x = y"
proof (induction a arbitrary: b)
  case Nil
  then show ?case by (cases b) auto
next
  case (Cons c a)
  then show ?case by (cases b) auto
qed

lemma encode_no_slash: "CHR ''/'' \<notin> set (encode_uri_component s)"
proof -
  have "path_mark (CHR ''/'')" by code_simp
  then show ?thesis using encode_uri_component_plain by blast
qed

text \<open>C0: every Bot has paths of its own. Whatever a Bot's id is made of, the path that asks the supervisor to start, stop
  or reset its computer, or for its bundle, is that of no other Bot and of no other verb.\<close>

theorem a_path_names_one_bot:
  "(bot_path b (verb_text v) = bot_path b' (verb_text v')) = (b = b' \<and> v = v')"
proof -
  have "(verb_text v = verb_text v') = (v = v')" by (cases v; cases v') (simp_all add: verb_text_def)
  then show ?thesis
    by (simp add: bot_path_def append_slash [OF encode_no_slash encode_no_slash] encode_inj)
qed

section \<open>What is said of a computer\<close>

lemma lower_running: "js_lower status = ''running'' \<longleftrightarrow> state_of_container status = Ready"
  by (simp add: state_of_container_def Let_def)

lemma listed_rows:
  "list_raw opts net = Inr rows \<Longrightarrow> \<exists>out. supervisor_list aw opts net = Inr out \<and> map cl_bot out = map sl_bot rows
     \<and> (\<exists>r \<in> set out. cl_bot r = b \<and> cl_running r) = (\<exists>r \<in> set rows. sl_bot r = b \<and> js_lower (sl_status r) = ''running'')"
  by (simp add: supervisor_list_def o_def)

text \<open>C0: the status of a Bot and the list of computers agree. When the supervisor can be asked and no Bot is listed
  twice, a Bot is ready exactly when the list shows it running, it is absent when it is not listed, and when the
  supervisor cannot be asked its message is the reason given.\<close>

theorem status_agrees_with_the_list:
  "case supervisor_list aw opts net of
     Inr rows \<Rightarrow>
       (if distinct (map cl_bot rows)
        then (ms_state (supervisor_status opts net b) = Ready) = (\<exists>r \<in> set rows. cl_bot r = b \<and> cl_running r)
        else True)
       \<and> (if b \<notin> cl_bot ` set rows then ms_state (supervisor_status opts net b) = Absent_computer else True)
   | Inl e \<Rightarrow> ms_state (supervisor_status opts net b) = unreachable_of e"
proof (cases "list_raw opts net")
  case (Inl e)
  then show ?thesis by (simp add: supervisor_list_def supervisor_status_def)
next
  case (Inr rows)
  have found: "find (\<lambda>r. sl_bot r = b) rs = Some r \<longleftrightarrow> r \<in> set rs \<and> sl_bot r = b" if "distinct (map sl_bot rs)" for rs r
    using that by (induction rs) (auto simp: image_iff)
  let ?state = "ms_state (supervisor_status opts net b)" and ?found = "find (\<lambda>r. sl_bot r = b) rows"
  have state: "?state = (case ?found of None \<Rightarrow> Absent_computer | Some r \<Rightarrow> state_of_container (sl_status r))"
    by (simp add: supervisor_status_def Inr status_from_location_def)
  have absent: "?state = Absent_computer" if "b \<notin> sl_bot ` set rows"
  proof -
    have "?found = None" using that by (auto simp: find_None_iff)
    then show ?thesis unfolding state by simp
  qed
  have ready: "(?state = Ready) = (\<exists>r \<in> set rows. sl_bot r = b \<and> js_lower (sl_status r) = ''running'')"
    if "distinct (map sl_bot rows)"
  proof (cases ?found)
    case None
    then have "\<not> (\<exists>r \<in> set rows. sl_bot r = b)" by (auto simp: find_None_iff)
    then show ?thesis unfolding state None by auto
  next
    case (Some r)
    then have r: "r \<in> set rows" "sl_bot r = b" using found [OF that] by simp_all
    have "q = r" if "q \<in> set rows" "sl_bot q = b" for q
    proof -
      have "?found = Some q" using that found [OF \<open>distinct (map sl_bot rows)\<close>] by simp
      with Some show ?thesis by simp
    qed
    with r have "(\<exists>q \<in> set rows. sl_bot q = b \<and> js_lower (sl_status q) = ''running'') = (js_lower (sl_status r) = ''running'')" by blast
    then show ?thesis unfolding state Some option.case lower_running by simp
  qed
  obtain out where list: "supervisor_list aw opts net = Inr out" "map cl_bot out = map sl_bot rows"
    and running: "(\<exists>r \<in> set out. cl_bot r = b \<and> cl_running r) = (\<exists>r \<in> set rows. sl_bot r = b \<and> js_lower (sl_status r) = ''running'')"
    using listed_rows [OF Inr, of aw b] by (elim exE conjE) (rule that)
  have "cl_bot ` set out = sl_bot ` set rows" using list(2) by (metis list.set_map)
  then show ?thesis unfolding list(1) sum.case list(2) running using absent ready by (simp only: if_True split: if_split) blast
qed

text \<open>C0: an address is the supervisor's answer about that Bot. Asking where a Bot is makes one request, on the path of that
  Bot; the address comes from its answer or there is none; and only what is remembered of that Bot changes.\<close>

theorem an_address_is_of_that_bot:
  "case supervisor_locate aw opts net b s of (r, s') \<Rightarrow>
     (\<forall>other. if other \<noteq> b then session_known s' other = session_known s other else True)
     \<and> (case r of
          Inl e \<Rightarrow> True
        | Inr u \<Rightarrow>
            (case net (call_request opts (bot_path b ''ensure'') ''POST'') of
               Provider_answer status (Some v) bytes \<Rightarrow>
                 ok_status status
                 \<and> ((\<exists>w. filled v ''url'' = Some w \<and> u = reachable aw opts w)
                    \<or> (\<exists>n. js_field v ''port'' = Some (JNum n) \<and> n \<noteq> 0 \<and> u = so_host_for_port opts n))
             | _ \<Rightarrow> False))"
proof (cases "net (call_request opts (bot_path b ''ensure'') ''POST'')")
  case (No_answer e)
  then show ?thesis by (simp add: supervisor_locate_def supervisor_call_def)
next
  case (Provider_answer status body bytes)
  show ?thesis
  proof (cases body)
    case None
    then show ?thesis using Provider_answer
      by (simp add: supervisor_locate_def supervisor_call_def filled_def js_string_field_def js_field_def)
  next
    case (Some v)
    then show ?thesis using Provider_answer
      by (simp add: supervisor_locate_def supervisor_call_def session_known_def Let_def split: option.split jsv.split)
  qed
qed

text \<open>C0: an answer without a start time leaves the old one. A computer started anew, of which the supervisor does not say
  when, is taken for the run before it.\<close>

theorem unsaid_start_is_the_old_one:
  "let net = (\<lambda>q. Provider_answer 200 (Some (JObj [(''url'', JStr ''http://computer'')])) []);
       opts = \<lparr>so_base = ''http://supervisor'', so_token = None, so_timeout_ms = 1, so_host_for_port = default_host_for_port,
         so_public_host = None\<rparr> in
   case supervisor_locate aw opts net ''bot'' [''bot'' \<mapsto> ''yesterday''] of (r, s) \<Rightarrow> r = Inr ''http://computer'' \<and> session_known s ''bot'' = Some ''yesterday''"
  by (simp add: supervisor_locate_def supervisor_call_def ok_status_def filled_def js_string_field_def js_field_def reachable_def session_known_def)

end
