(* ===== verification/Computer_Routes.thy ===== *)
theory Computer_Routes
  imports Gateway_Facts Computer_Providers Tenant Roles
begin

text \<open>
  The routes of the computers (\<^verbatim>\<open>server/src/computer/routes.ts\<close>): the guard in front of every path under a
  Bot, the reading of a request into one call of the gateway, and the status a failure becomes.

  The segments of a path are taken as they are written. What the gateway is built from, the provider's status
  and list, and whether a person may use a Bot are parameters, and so is how a write of the policy ends.
\<close>

section \<open>Requests, answers and what is served\<close>

datatype http_verb = GET | POST | PUT

record computer_request =
  cr_verb :: http_verb
  cr_path :: string
  cr_session :: "session_user option"
  cr_roles :: role_rows
  cr_body :: "jsv option"
  cr_signal :: "string option"

datatype http_reply = Http int jsv

record 'st computer_server =
  cn_gateway :: "'st gateway"
  cn_status :: "trace \<Rightarrow> string \<Rightarrow> machine_status"
  cn_list :: "trace \<Rightarrow> error + computer_location list"
  cn_isolation :: isolation
  cn_may_use :: "actor \<Rightarrow> string \<Rightarrow> bool"
  cn_policy_outcome :: policy_outcome
  cn_now :: int

record 'st computer_site =
  si_world :: "'st world"
  si_policy :: "policy_table \<times> policy_memory"

definition error_json :: "string \<Rightarrow> jsv" where
  "error_json m = JObj [(''error'', JStr m)]"

definition path_segments :: "string \<Rightarrow> string list" where
  "path_segments p = split_on CHR ''/'' (tl p)"

section \<open>Failures\<close>

definition local_actor_email :: string where
  "local_actor_email = ''dev@openbot.local''"

definition mentions_control :: "string \<Rightarrow> bool" where
  "mentions_control m \<longleftrightarrow> str_includes (js_lower m) ''control''"

definition status_for :: "error \<Rightarrow> int" where
  "status_for e =
     (case e of
        Stale_snapshot m \<Rightarrow> 409
      | Human_has_control m \<Rightarrow> 409
      | Element_not_found m \<Rightarrow> 409
      | Computer_unavailable m \<Rightarrow> if mentions_control m then 409 else 503
      | _ \<Rightarrow> 500)"

definition error_body :: "error \<Rightarrow> jsv" where
  "error_body e =
     JObj ((''error'', JStr (error_message e)) # (case e of Human_has_control m \<Rightarrow> [(''humanHasControl'', JBool True)] | _ \<Rightarrow> []))"

definition plain_reply :: "error + jsv \<Rightarrow> http_reply" where
  "plain_reply r = (case r of Inr v \<Rightarrow> Http 200 v | Inl e \<Rightarrow> Http (status_for e) (error_body e))"

definition refused_by_rule :: "string \<Rightarrow> string option \<Rightarrow> http_reply" where
  "refused_by_rule m rule = Http 403 (JObj [(''error'', JStr m), (''rule'', nullable rule)])"

definition navigation_reply :: "error + jsv \<Rightarrow> http_reply" where
  "navigation_reply r =
     (case r of
        Inl (Action_refused m rule) \<Rightarrow> refused_by_rule m rule
      | Inl (Navigation_refused m) \<Rightarrow> Http 403 (error_json m)
      | _ \<Rightarrow> plain_reply r)"

definition is_bad_request :: "jsv \<Rightarrow> bool" where
  "is_bad_request v \<longleftrightarrow> js_field v ''error'' \<noteq> None \<and> js_field v ''action'' = None"

definition act_reply :: "error + jsv \<Rightarrow> http_reply" where
  "act_reply r =
     (case r of
        Inr v \<Rightarrow> Http (if is_bad_request v then 400 else 200) v
      | Inl (Action_refused m rule) \<Rightarrow> refused_by_rule m rule
      | Inl (Workspace_refused m) \<Rightarrow> Http 403 (error_json m)
      | Inl (Workspace_request m) \<Rightarrow> Http 400 (error_json m)
      | Inl e \<Rightarrow> Http (status_for e) (error_body e))"

section \<open>What a request asks for\<close>

definition action_actor_of :: "actor \<Rightarrow> action_actor" where
  "action_actor_of a =
     \<lparr>ac_id = su_id (ac_user a),
       ac_user = (if su_email (ac_user a) = local_actor_email then None else Some (su_id (ac_user a)))\<rparr>"

definition as_ref :: "jsv \<Rightarrow> (string \<times> int) option" where
  "as_ref body =
     (case (js_string_field body ''ref'', js_field body ''snapshotId'') of
        (Some (c # r), Some (JNum n)) \<Rightarrow> Some (c # r, n) | _ \<Rightarrow> None)"

definition bad_ref_text :: string where
  "bad_ref_text = ''A ref and the snapshotId it came from are both required. Take a snapshot first.''"

definition some_text :: "jsv \<Rightarrow> string \<Rightarrow> string option" where
  "some_text body k = (case js_string_field body k of Some s \<Rightarrow> if js_trim s = [] then None else Some (js_trim s) | None \<Rightarrow> None)"

definition number_field :: "jsv \<Rightarrow> string \<Rightarrow> int option" where
  "number_field body k = (case js_field body k of Some (JNum n) \<Rightarrow> Some n | _ \<Rightarrow> None)"

definition secret_field_named :: "string option \<Rightarrow> secret_field option" where
  "secret_field_named s =
     (if s = Some ''password'' then Some Password else if s = Some ''username'' then Some Username
      else if s = Some ''totp'' then Some Totp else None)"

definition or_bad :: "'a option \<Rightarrow> string \<Rightarrow> string + 'a" where
  "or_bad v message = (case v of Some x \<Rightarrow> Inr x | None \<Rightarrow> Inl message)"

definition click_asked :: "jsv \<Rightarrow> string option \<Rightarrow> string + governed" where
  "click_asked body signal = (case as_ref body of None \<Rightarrow> Inl bad_ref_text | Some (r, n) \<Rightarrow> Inr (Do_click r n signal))"

definition type_asked :: "jsv \<Rightarrow> string option \<Rightarrow> string + governed" where
  "type_asked body signal =
     (case as_ref body of
        None \<Rightarrow> Inl bad_ref_text
      | Some (r, n) \<Rightarrow>
          (case js_string_field body ''text'' of
             None \<Rightarrow> Inl ''The text to enter is required.''
           | Some t \<Rightarrow> Inr (Do_type r n t (Some (js_field body ''submit'' = Some (JBool True))) signal)))"

definition type_secret_asked :: "jsv \<Rightarrow> string + governed" where
  "type_secret_asked body =
     (case (js_string_field body ''ref'', number_field body ''snapshotId'', js_string_field body ''connection'',
            secret_field_named (js_string_field body ''field'')) of
        (Some r, Some n, Some c, Some f) \<Rightarrow> Inr (Do_type_secret r n c f)
      | _ \<Rightarrow> Inl ''type_secret needs ref, snapshotId, connection, and field (password | username | totp).'')"

definition use_session_asked :: "jsv \<Rightarrow> string + governed" where
  "use_session_asked body =
     (case js_string_field body ''connection'' of
        None \<Rightarrow> Inl ''use_session needs a connection id.''
      | Some c \<Rightarrow> Inr (Do_use_session c (js_string_field body ''openUrl'')))"

definition key_asked :: "jsv \<Rightarrow> string option \<Rightarrow> string + governed" where
  "key_asked body signal =
     (case js_string_field body ''key'' of
        Some (c # k) \<Rightarrow> Inr (Do_key (c # k) (map_option fst (as_ref body)) (map_option snd (as_ref body)) signal)
      | _ \<Rightarrow> Inl ''A key name is required, such as Enter or Tab.'')"

definition exec_asked :: "jsv \<Rightarrow> string option \<Rightarrow> string + governed" where
  "exec_asked body signal =
     (case (js_string_field body ''command'', some_text body ''command'') of
        (Some c, Some t) \<Rightarrow> Inr (Do_run_command c (number_field body ''timeoutMs'') signal)
      | _ \<Rightarrow> Inl ''A command is required.'')"

definition write_asked :: "jsv \<Rightarrow> string + governed" where
  "write_asked body =
     (case some_text body ''path'' of
        None \<Rightarrow> Inl ''A file path is required.''
      | Some p \<Rightarrow>
          (case js_string_field body ''contents'' of
             None \<Rightarrow> Inl ''The contents to write are required.''
           | Some c \<Rightarrow> Inr (Do_write_file p c (Some (js_field body ''append'' = Some (JBool True))))))"

text \<open>The acting route of a path below a Bot, if it is one.\<close>

definition action_asked :: "string list \<Rightarrow> jsv \<Rightarrow> string option \<Rightarrow> (string + governed) option" where
  "action_asked tail body signal =
     (if tail = [''click''] then Some (click_asked body signal)
      else if tail = [''type''] then Some (type_asked body signal)
      else if tail = [''type_secret''] then Some (type_secret_asked body)
      else if tail = [''use_session''] then Some (use_session_asked body)
      else if tail = [''key''] then Some (key_asked body signal)
      else if tail = [''scroll''] then Some (Inr (Do_scroll (number_field body ''deltaY'')))
      else if tail = [''files'', ''list''] then Some (Inr (Do_list_files (some_text body ''path'')))
      else if tail = [''files'', ''read''] then Some (map_sum id Do_read_file (or_bad (some_text body ''path'') ''A file path is required.''))
      else if tail = [''exec''] then Some (exec_asked body signal)
      else if tail = [''files'', ''write''] then Some (write_asked body)
      else None)"

datatype handover =
    Ask_help string
  | Stop_it
  | Reset_it
  | Take_it
  | Release_it
  | Ask_secret string string int
  | Supply string

definition secret_asked :: "jsv \<Rightarrow> string + handover" where
  "secret_asked body =
     (case js_string_field body ''ref'' of
        Some (c # r) \<Rightarrow>
          (case number_field body ''snapshotId'' of
             None \<Rightarrow> Inl ''The snapshotId the ref came from is required.''
           | Some n \<Rightarrow> Inr (Ask_secret (case some_text body ''label'' of Some l \<Rightarrow> l | None \<Rightarrow> ''the value this page is asking for'') (c # r) n))
      | _ \<Rightarrow> Inl ''Say which field the value goes in, using a ref from your snapshot.'')"

definition supplied :: "jsv \<Rightarrow> string + handover" where
  "supplied body = (case js_string_field body ''text'' of Some (c # s) \<Rightarrow> Inr (Supply (c # s)) | _ \<Rightarrow> Inl ''A value is required.'')"

definition handover_asked :: "string list \<Rightarrow> jsv \<Rightarrow> (string + handover) option" where
  "handover_asked tail body =
     (if tail = [''control'', ''request'']
      then Some (Inr (Ask_help (case some_text body ''reason'' of Some r \<Rightarrow> r | None \<Rightarrow> ''The assistant needs a person to continue.'')))
      else if tail = [''computers'', ''stop''] then Some (Inr Stop_it)
      else if tail = [''computers'', ''reset''] then Some (Inr Reset_it)
      else if tail = [''control'', ''take''] then Some (Inr Take_it)
      else if tail = [''control'', ''release''] then Some (Inr Release_it)
      else if tail = [''control'', ''secret''] then Some (secret_asked body)
      else if tail = [''human'', ''secret''] then Some (supplied body)
      else None)"

definition io_map :: "('a \<Rightarrow> 'b) \<Rightarrow> ('s, 'a) io \<Rightarrow> ('s, 'b) io" where
  "io_map f m = io_bind m (\<lambda>x. io_return (f x))"

definition hand_over :: "'st gateway \<Rightarrow> string \<Rightarrow> action_actor \<Rightarrow> handover \<Rightarrow> ('st world, jsv) io" where
  "hand_over gw b ac h =
     (case h of
        Ask_help reason \<Rightarrow> request_help gw b ac reason
      | Stop_it \<Rightarrow> io_map (\<lambda>was. JObj [(''wasRunning'', JBool was)]) (stop_computer gw b ac)
      | Reset_it \<Rightarrow> io_map (\<lambda>was. JObj [(''cleared'', JBool was)]) (reset_computer gw b ac)
      | Take_it \<Rightarrow> take_control gw b ac
      | Release_it \<Rightarrow> release_control gw b ac
      | Ask_secret label r n \<Rightarrow> request_secret gw b ac label r n
      | Supply txt \<Rightarrow> supply_secret gw b ac txt)"

text \<open>A person's input: what the body spreads into an object, without a kind of its own.\<close>

definition spread :: "jsv \<Rightarrow> (string \<times> jsv) list" where
  "spread v =
     (case v of
        JObj kvs \<Rightarrow> kvs
      | JArr vs \<Rightarrow> zip (map show_nat [0..<length vs]) vs
      | JStr s \<Rightarrow> zip (map show_nat [0..<length s]) (map (\<lambda>c. JStr [c]) s)
      | _ \<Rightarrow> [])"

definition person_input :: "'st gateway \<Rightarrow> string \<Rightarrow> string \<Rightarrow> jsv \<Rightarrow> ('st world, jsv) io" where
  "person_input gw b kind body = human_input gw b kind (filter (\<lambda>(k, v). k \<noteq> ''kind'') (spread body))"

section \<open>The routes\<close>

definition on_world :: "('st world, 'a) io \<Rightarrow> (error + 'a \<Rightarrow> http_reply) \<Rightarrow> 'st computer_site \<Rightarrow> http_reply \<times> 'st computer_site" where
  "on_world m reply s = (case m (si_world s) of (r, w) \<Rightarrow> (reply r, s\<lparr>si_world := w\<rparr>))"

definition status_json :: "machine_status \<Rightarrow> jsv" where
  "status_json m =
     JObj ((''botId'', JStr (ms_bot m)) #
       (case ms_state m of
          Absent_computer \<Rightarrow> [(''state'', JStr ''absent'')]
        | Starting \<Rightarrow> [(''state'', JStr ''starting'')]
        | Ready \<Rightarrow> [(''state'', JStr ''ready'')]
        | Unreachable reason \<Rightarrow> [(''state'', JStr ''unreachable''), (''reason'', JStr reason)]))"

definition computer_json :: "computer_location \<Rightarrow> jsv" where
  "computer_json l =
     JObj ([(''botId'', JStr (cl_bot l)), (''running'', JBool (cl_running l)), (''startedAt'', nullable (cl_started l))]
       @ (case cl_egress l of None \<Rightarrow> [] | Some e \<Rightarrow> [(''egress'', nullable e)]))"

definition list_computers :: "'st computer_server \<Rightarrow> trace \<Rightarrow> error + jsv" where
  "list_computers srv tr =
     (case cn_list srv tr of
        Inl e \<Rightarrow> Inl e
      | Inr rows \<Rightarrow>
          Inr (JObj [(''isolation'', JStr (case cn_isolation srv of Per_bot \<Rightarrow> ''per-bot'' | Shared_isolation \<Rightarrow> ''shared'')),
            (''computers'', JArr (map computer_json rows))]))"

definition no_route :: http_reply where
  "no_route = Http 404 (JStr ''404 Not Found'')"

definition only_admin :: "actor \<Rightarrow> 'st computer_site \<Rightarrow> http_reply \<times> 'st computer_site \<Rightarrow> http_reply \<times> 'st computer_site" where
  "only_admin a s answer = (case require_admin a of Some (status, e) \<Rightarrow> (Http status (error_json e), s) | None \<Rightarrow> answer)"

definition fleet_route :: "'st computer_server \<Rightarrow> actor \<Rightarrow> 'st computer_site \<Rightarrow> http_reply \<times> 'st computer_site" where
  "fleet_route srv a s = only_admin a s (plain_reply (list_computers srv (w_trace (si_world s))), s)"

definition policy_in_force :: "'st computer_site \<Rightarrow> jsv" where
  "policy_in_force s = JObj [(''policy'', json_of_policy (pm_current (snd (si_policy s))))]"

definition get_policy :: "actor \<Rightarrow> 'st computer_site \<Rightarrow> http_reply \<times> 'st computer_site" where
  "get_policy a s = only_admin a s (Http 200 (policy_in_force s), s)"

definition not_saved :: string where
  "not_saved = ''That rule could not be saved, so it has not been applied. The previous boundary is still in force.''"

definition put_policy :: "'st computer_server \<Rightarrow> actor \<Rightarrow> jsv \<Rightarrow> 'st computer_site \<Rightarrow> http_reply \<times> 'st computer_site" where
  "put_policy srv a body s =
     only_admin a s
       (case parse_action_policy body of
          Inl e \<Rightarrow> (Http 400 (error_json e), s)
        | Inr p \<Rightarrow>
            (case set_policy (cn_policy_outcome srv) p (Some (su_email (ac_user a))) (cn_now srv) (si_policy s) of
               (Inl e, stored) \<Rightarrow> (Http 503 (error_json not_saved), s\<lparr>si_policy := stored\<rparr>)
             | (Inr u, stored) \<Rightarrow> (let s' = s\<lparr>si_policy := stored\<rparr> in (Http 200 (policy_in_force s'), s'))))"

definition acting :: "(string + 'a) \<Rightarrow> ('a \<Rightarrow> ('st world, jsv) io) \<Rightarrow> 'st computer_site \<Rightarrow> http_reply \<times> 'st computer_site" where
  "acting asked run s =
     (case asked of Inl e \<Rightarrow> (Http 400 (error_json e), s) | Inr g \<Rightarrow> on_world (run g) act_reply s)"

definition navigate_route :: "'st gateway \<Rightarrow> string \<Rightarrow> action_actor \<Rightarrow> jsv \<Rightarrow> 'st computer_site \<Rightarrow> http_reply \<times> 'st computer_site" where
  "navigate_route gw b ac body s =
     (case some_text body ''url'' of
        None \<Rightarrow> (Http 400 (error_json ''A web address is required.''), s)
      | Some u \<Rightarrow> on_world (perform gw b ac (Do_navigate u)) navigation_reply s)"

definition human_route :: "'st gateway \<Rightarrow> string \<Rightarrow> string \<Rightarrow> jsv \<Rightarrow> 'st computer_site \<Rightarrow> http_reply \<times> 'st computer_site" where
  "human_route gw b kind body s =
     (if kind \<notin> set human_gestures then (Http 400 (error_json ''Unknown input.''), s)
      else on_world (person_input gw b kind body) plain_reply s)"

definition bot_get :: "'st computer_server \<Rightarrow> actor \<Rightarrow> string \<Rightarrow> string list \<Rightarrow> 'st computer_site \<Rightarrow> http_reply \<times> 'st computer_site" where
  "bot_get srv a b tail s =
     (let gw = cn_gateway srv in
      if tail = [''status''] then (Http 200 (status_json (cn_status srv (w_trace (si_world s)) b)), s)
      else if tail = [''screenshot''] then on_world (screenshot gw b) plain_reply s
      else if tail = [''read''] then on_world (read_page gw b) plain_reply s
      else if tail = [''control''] then on_world (get_control gw b) plain_reply s
      else if tail = [''computers''] then fleet_route srv a s
      else (no_route, s))"

definition bot_post ::
  "'st computer_server \<Rightarrow> actor \<Rightarrow> string \<Rightarrow> string list \<Rightarrow> jsv \<Rightarrow> string option \<Rightarrow> 'st computer_site \<Rightarrow> http_reply \<times> 'st computer_site" where
  "bot_post srv a b tail body signal s =
     (let gw = cn_gateway srv; ac = action_actor_of a in
      if tail = [''navigate''] then navigate_route gw b ac body s
      else if tail = [''snapshot''] then on_world (take_snapshot gw b) plain_reply s
      else (case action_asked tail body signal of
          Some asked \<Rightarrow> acting asked (perform gw b ac) s
        | None \<Rightarrow>
            (case handover_asked tail body of
               Some asked \<Rightarrow> acting asked (hand_over gw b ac) s
             | None \<Rightarrow>
                 (case tail of
                    [human, kind] \<Rightarrow> if human = ''human'' then human_route gw b kind body s else (no_route, s)
                  | _ \<Rightarrow> (no_route, s)))))"

definition without_trailing_slashes :: "string \<Rightarrow> string" where
  "without_trailing_slashes p = rev (dropWhile (\<lambda>c. c = CHR ''/'') (rev p))"

definition steps_aside :: "string \<Rightarrow> string \<Rightarrow> bool" where
  "steps_aside b path \<longleftrightarrow>
     b \<in> set deployment_routes \<and> suffix (CHR ''/'' # b) (without_trailing_slashes path)"

definition serve_bot ::
  "'st computer_server \<Rightarrow> actor \<Rightarrow> string \<Rightarrow> string list \<Rightarrow> computer_request \<Rightarrow> 'st computer_site \<Rightarrow> http_reply \<times> 'st computer_site" where
  "serve_bot srv a b tail q s =
     (let body = (case cr_body q of Some v \<Rightarrow> v | None \<Rightarrow> JNull) in
      if tail = [] then
        (if cr_verb q = GET \<and> b = ''policy'' then get_policy a s
         else if cr_verb q = GET \<and> b = ''fleet'' then fleet_route srv a s
         else if cr_verb q = PUT \<and> b = ''policy'' then put_policy srv a body s
         else (no_route, s))
      else if cr_verb q = GET then bot_get srv a b tail s
      else if cr_verb q = POST then bot_post srv a b tail body (cr_signal q) s
      else (no_route, s))"

definition serve_computers :: "'st computer_server \<Rightarrow> computer_request \<Rightarrow> 'st computer_site \<Rightarrow> http_reply \<times> 'st computer_site" where
  "serve_computers srv q s =
     (case path_segments (cr_path q) of
        (c # b) # tail \<Rightarrow>
          (case require_user (cr_session q) (cr_roles q) of
             Inl (status, e) \<Rightarrow> (Http status (error_json e), s)
           | Inr a \<Rightarrow>
               if \<not> steps_aside (c # b) (cr_path q) \<and> \<not> cn_may_use srv a (c # b)
               then (Http 404 (error_json ''There is no such Bot.''), s)
               else serve_bot srv a (c # b) tail q s)
      | _ \<Rightarrow> (no_route, s))"

end
