(* ===== verification/Computer_Route_Facts.thy ===== *)
theory Computer_Route_Facts
  imports Computer_Routes
begin

text \<open>
  What the routes of the computers promise: nothing of a computer is reached, read or shown for a person who may
  not use that Bot, whatever the path looks like; an acting request is recorded before it acts, as that of the
  person whose session it is; and an answer about the policy is what is in force.
\<close>

section \<open>The guard and the two names it steps aside for\<close>

lemma aside_ends_in_name:
  assumes segs: "path_segments p = b # tail" and aside: "steps_aside b p" and tail: "tail \<noteq> []" "[] \<notin> set tail"
  shows "last tail = b"
proof -
  let ?slash = "CHR ''/''"
  obtain rest where rest: "tl p = rest" "split_on ?slash rest = b # tail" using segs by (simp add: path_segments_def)
  have plain: "?slash \<notin> set b" using split_when_pieces [of b "\<lambda>c. c = ?slash" rest] rest(2) by auto
  have nonempty: "rest \<noteq> []" using rest(2) tail(1) by auto
  then obtain c where p: "p = c # rest" using rest(1) by (cases p) auto
  have "last rest \<noteq> ?slash"
  proof
    assume "last rest = ?slash"
    then obtain ys where "rest = ys @ ?slash # []" using nonempty by (metis append_butlast_last_id)
    then have "b # tail = split_on ?slash ys @ [[]]" using rest(2) split_when_at [of "\<lambda>c. c = ?slash" ?slash ys "[]"] by simp
    then have "last (b # tail) = []" by simp
    then show False using tail by (metis last_ConsR last_in_set)
  qed
  then have "without_trailing_slashes p = p"
    using nonempty p by (cases rest rule: rev_cases) (simp_all add: without_trailing_slashes_def)
  then obtain xs where xs: "p = xs @ ?slash # b" using aside by (auto simp: steps_aside_def suffix_def)
  show ?thesis
  proof (cases xs)
    case Nil
    then have "split_on ?slash rest = [b]" using xs p plain by (intro trans [OF split_when_none]) auto
    then show ?thesis using rest(2) tail(1) by simp
  next
    case (Cons d ys)
    then have "rest = ys @ ?slash # b" using xs p by simp
    moreover have "split_on ?slash b = [b]" using plain by (intro split_when_none) auto
    ultimately have "b # tail = split_on ?slash ys @ [b]"
      using rest(2) split_when_at [of "\<lambda>c. c = ?slash" ?slash ys b] by simp
    then have "last (b # tail) = b" by simp
    then show ?thesis using tail(1) by simp
  qed
qed

definition bot_paths :: "string list list" where
  "bot_paths =
     [[''status''], [''screenshot''], [''read''], [''control''], [''computers''], [''navigate''], [''snapshot''], [''click''], [''type''],
      [''type_secret''], [''use_session''], [''key''], [''scroll''], [''files'', ''list''], [''files'', ''read''], [''exec''],
      [''files'', ''write''], [''control'', ''request''], [''computers'', ''stop''], [''computers'', ''reset''], [''control'', ''take''],
      [''control'', ''release''], [''control'', ''secret''], [''human'', ''secret''], [''human'', ''click''], [''human'', ''type''],
      [''human'', ''key''], [''human'', ''scroll'']]"

lemma bot_paths_are_not_names:
  "list_all (\<lambda>t. t \<noteq> [] \<and> [] \<notin> set t \<and> last t \<notin> set deployment_routes) bot_paths"
  by code_simp

lemma other_paths_do_nothing:
  assumes "tail \<notin> set bot_paths"
  shows "snd (bot_get srv a b tail s) = s" "fst (bot_get srv a b tail s) = no_route"
    "snd (bot_post srv a b tail body signal s) = s" "fst (bot_post srv a b tail body signal s) \<in> {no_route, Http 400 (error_json ''Unknown input.'')}"
proof -
  note no = assms [unfolded bot_paths_def list.set insert_iff de_Morgan_disj]
  show "snd (bot_get srv a b tail s) = s" "fst (bot_get srv a b tail s) = no_route"
    using no by (simp_all add: bot_get_def)
  have none: "action_asked tail body signal = None" "handover_asked tail body = None"
    using no by (simp_all add: action_asked_def handover_asked_def)
  have human: "kind \<notin> set human_gestures" if "tail = [''human'', kind]" for kind
    using no that by (simp add: human_gestures_def)
  show "snd (bot_post srv a b tail body signal s) = s"
    using no by (simp add: bot_post_def none human_route_def human split: list.split)
  show "fst (bot_post srv a b tail body signal s) \<in> {no_route, Http 400 (error_json ''Unknown input.'')}"
    using no by (simp add: bot_post_def none human_route_def human split: list.split)
qed

lemma aside_reaches_nothing:
  assumes "path_segments (cr_path q) = b # tail" "steps_aside b (cr_path q)" "tail \<noteq> []"
  shows "snd (serve_bot srv a b tail q s) = s \<and> fst (serve_bot srv a b tail q s) \<in> {no_route, Http 400 (error_json ''Unknown input.'')}"
proof -
  have "tail \<notin> set bot_paths"
  proof
    assume "tail \<in> set bot_paths"
    then have t: "[] \<notin> set tail" "last tail \<notin> set deployment_routes" using bot_paths_are_not_names by (auto simp: list_all_iff)
    have "last tail = b" using aside_ends_in_name [OF assms t(1)] .
    with t(2) assms(2) show False by (simp add: steps_aside_def)
  qed
  from other_paths_do_nothing [OF this, where s = s] show ?thesis using assms(3) by (simp add: serve_bot_def Let_def)
qed

text \<open>C0: a computer answers only to its people. Whatever the path, a request reaches a computer, changes anything or is
  answered with content only when there is a session and its person may use the Bot the path names, or is an
  administrator asking for one of the two pages of the deployment; the list of all computers is for
  administrators under either path.\<close>

theorem a_computer_answers_only_its_people:
  "case serve_computers srv q s of (Http status body, s') \<Rightarrow>
     (if status = 200 \<or> s' \<noteq> s
      then \<exists>a b tail. require_user (cr_session q) (cr_roles q) = Inr a \<and> path_segments (cr_path q) = b # tail
        \<and> (if tail = [] then ac_role a = Admin_role \<and> b \<in> set deployment_routes else cn_may_use srv a b)
        \<and> (if tail = [''computers''] then ac_role a = Admin_role else True)
      else True)"
proof -
  have admin: "fst (only_admin a s r) = Http 200 v \<Longrightarrow> ac_role a = Admin_role" "snd (only_admin a s r) \<noteq> s \<Longrightarrow> ac_role a = Admin_role" for a r v
    by (auto simp: only_admin_def require_admin_def split: if_splits)
  have deployment: "ac_role a = Admin_role \<and> b \<in> set deployment_routes"
    if "fst (serve_bot srv a b [] q s) = Http 200 v \<or> snd (serve_bot srv a b [] q s) \<noteq> s" for a b v
    using that
    by (auto simp: serve_bot_def Let_def get_policy_def fleet_route_def put_policy_def no_route_def deployment_routes_def
        split: if_splits dest: admin)
  have fleet: "ac_role a = Admin_role"
    if "fst (serve_bot srv a b [''computers''] q s) = Http 200 v \<or> snd (serve_bot srv a b [''computers''] q s) \<noteq> s" for a b v
    using that
    by (auto simp: serve_bot_def Let_def bot_get_def bot_post_def fleet_route_def no_route_def action_asked_def handover_asked_def
        split: if_splits dest: admin)
  show ?thesis
  proof (cases "path_segments (cr_path q)")
    case Nil
    then show ?thesis by (simp add: serve_computers_def no_route_def)
  next
    case (Cons b' tail)
    show ?thesis
    proof (cases b')
      case Nil
      then show ?thesis using Cons by (simp add: serve_computers_def no_route_def)
    next
      case (Cons c b)
      note segs = \<open>path_segments (cr_path q) = b' # tail\<close> [unfolded Cons]
      show ?thesis
      proof (cases "require_user (cr_session q) (cr_roles q)")
        case (Inl e)
        obtain code m where e: "e = (code, m)" by fastforce
        then have "code \<noteq> 200" using Inl by (auto simp: require_user_def Let_def split: option.splits if_splits)
        then show ?thesis using segs Inl by (simp add: serve_computers_def e)
      next
        case (Inr a)
        have served: "serve_computers srv q s = (if \<not> steps_aside (c # b) (cr_path q) \<and> \<not> cn_may_use srv a (c # b)
            then (Http 404 (error_json ''There is no such Bot.''), s) else serve_bot srv a (c # b) tail q s)"
          by (simp add: serve_computers_def segs Inr)
        obtain status body s' where out: "serve_computers srv q s = (Http status body, s')"
          by (metis http_reply.exhaust surj_pair)
        have "if tail = [] then ac_role a = Admin_role \<and> c # b \<in> set deployment_routes else cn_may_use srv a (c # b)"
          and "tail = [''computers''] \<longrightarrow> ac_role a = Admin_role"
          if "status = 200 \<or> s' \<noteq> s"
        proof -
          have bot: "serve_bot srv a (c # b) tail q s = (Http status body, s')"
            using served out that by (auto split: if_splits)
          have reached: "fst (serve_bot srv a (c # b) tail q s) = Http 200 body \<or> snd (serve_bot srv a (c # b) tail q s) \<noteq> s"
            using that by (auto simp: bot)
          show "if tail = [] then ac_role a = Admin_role \<and> c # b \<in> set deployment_routes else cn_may_use srv a (c # b)"
          proof (cases "tail = []")
            case True
            then show ?thesis using deployment reached by simp
          next
            case False
            have "\<not> steps_aside (c # b) (cr_path q)"
              using aside_reaches_nothing [OF segs _ False, of srv a s] that bot by (auto simp: no_route_def error_json_def)
            then show ?thesis using served out that False by (auto split: if_splits)
          qed
          show "tail = [''computers''] \<longrightarrow> ac_role a = Admin_role" using fleet reached by blast
        qed
        then show ?thesis unfolding out using Inr segs by auto
      qed
    qed
  qed
qed

section \<open>Recorded as the person whose session it is\<close>

lemma asked_is_not_another_route:
  "action_asked tail body signal = Some asked \<Longrightarrow>
     bot_post srv a b tail body signal s = acting asked (perform (cn_gateway srv) b (action_actor_of a)) s"
proof -
  assume asked: "action_asked tail body signal = Some asked"
  then have "tail \<noteq> [''navigate'']" "tail \<noteq> [''snapshot'']" by (auto simp: action_asked_def)
  then show ?thesis by (simp add: bot_post_def Let_def asked)
qed

text \<open>C0: an acting request is recorded before it acts, as its person's. A request that reads as an action adds first, after
  at most a question about the session, the row of the decision about exactly that action of that Bot, whose
  actor is the person of the session; it goes on only when the decision forwards it and the row was kept; and a
  request that does not read as one adds nothing and says what is missing.\<close>

theorem acting_request_is_recorded_first:
  "case action_asked tail body signal of
     None \<Rightarrow> True
   | Some (Inl e) \<Rightarrow> bot_post srv a b tail body signal s = (Http 400 (error_json e), s)
   | Some (Inr g) \<Rightarrow>
       \<exists>pre stored element decision w' rest.
         deciding (cn_gateway srv) (tool_of g) b (action_actor_of a) (subject_of g) (si_world s) stored element decision w'
         \<and> set pre \<subseteq> {Ev_session b}
         \<and> w_trace (si_world (snd (bot_post srv a b tail body signal s))) =
             w_trace (si_world s) @ pre @ Ev_audit (decision_row (tool_of g) b (action_actor_of a) (subject_of g) stored element decision) # rest
         \<and> (rest = [] \<or> (dec_forward decision \<and> gw_audit (cn_gateway srv) (w_trace w')
               (decision_row (tool_of g) b (action_actor_of a) (subject_of g) stored element decision) = Inr ()))
         \<and> si_policy (snd (bot_post srv a b tail body signal s)) = si_policy s"
proof (cases "action_asked tail body signal")
  case (Some asked)
  note post = asked_is_not_another_route [OF Some, of srv a b s]
  show ?thesis
  proof (cases asked)
    case (Inl e)
    then show ?thesis using Some post by (simp add: acting_def)
  next
    case (Inr g)
    have "si_world (snd (bot_post srv a b tail body signal s)) = snd (perform (cn_gateway srv) b (action_actor_of a) g (si_world s))"
      "si_policy (snd (bot_post srv a b tail body signal s)) = si_policy s"
      unfolding post Inr by (simp_all add: acting_def on_world_def split: prod.split)
    then show ?thesis
      using decided_first [of "cn_gateway srv" g b "action_actor_of a" "si_world s"] by (simp add: Some Inr) blast
  qed
qed simp

section \<open>The policy that is answered is the one in force\<close>

text \<open>C0: a policy that was accepted is in force and saved, or nothing changed. A request to change it is answered with
  success only for an administrator and a policy that reads as one; then the memory and, where there is a
  database, the row hold exactly it and the answer reads back as it; any other answer changes nothing.\<close>

theorem accepted_policy_is_in_force:
  "case put_policy srv a body s of (Http status v, s') \<Rightarrow>
     (if status = 200
      then ac_role a = Admin_role \<and> si_world s' = si_world s
        \<and> parse_action_policy body = Inr (pm_current (snd (si_policy s')))
        \<and> js_field v ''policy'' = Some (json_of_policy (pm_current (snd (si_policy s'))))
        \<and> (case fst (si_policy s') of None \<Rightarrow> True | Some row \<Rightarrow> map_option pr_policy row = Some (pm_current (snd (si_policy s'))))
      else s' = s)"
proof (cases "require_admin a")
  case (Some e)
  then show ?thesis by (auto simp: put_policy_def only_admin_def require_admin_def split: if_splits)
next
  case None
  then have admin: "ac_role a = Admin_role" by (auto simp: require_admin_def split: if_splits)
  show ?thesis
  proof (cases "parse_action_policy body")
    case (Inl e)
    then show ?thesis using None by (simp add: put_policy_def only_admin_def)
  next
    case (Inr p)
    obtain db m where policy: "si_policy s = (db, m)" by fastforce
    show ?thesis using None admin Inr
      by (cases db) (auto simp: put_policy_def only_admin_def set_policy_def policy policy_in_force_def Let_def js_field_def
        intro: computer_site.equality)
  qed
qed

section \<open>What a status says\<close>

text \<open>C0: a refusal is never a fault and a fault is never a refusal. Of an acting request 403 is answered exactly when a rule
  or the workspace refused it, 503 only when the computer could not be reached, and the wait for a person is
  told apart from a stale page by its flag.\<close>

theorem statuses_tell_causes_apart:
  "case act_reply (Inl e) of Http status body \<Rightarrow>
     (status = 403) = (case e of Action_refused m rule \<Rightarrow> True | Workspace_refused m \<Rightarrow> True | _ \<Rightarrow> False)
     \<and> (js_field body ''rule'' \<noteq> None) = (case e of Action_refused m rule \<Rightarrow> True | _ \<Rightarrow> False)
     \<and> (if status = 503 then (case e of Computer_unavailable m \<Rightarrow> True | _ \<Rightarrow> False) else True)
     \<and> (js_field body ''humanHasControl'' = Some (JBool True)) = (case e of Human_has_control m \<Rightarrow> True | _ \<Rightarrow> False)"
  by (cases e) (simp_all add: act_reply_def refused_by_rule_def error_json_def status_for_def error_body_def js_field_def)

text \<open>C0: a computer that cannot be reached may be reported as one that is busy. Any message that has the word in it is
  answered as a conflict, so an unreachable computer whose reason names a host called so is not reported as
  unreachable.\<close>

theorem unreachable_is_reported_as_busy:
  "status_for (Computer_unavailable ''The supervisor at control-plane could not be reached.'') = 409"
  by code_simp

end
