(* ===== verification/Thread_Identity.thy ===== *)
theory Thread_Identity
  imports Codec "HOL-Library.Word"
begin

unbundle bit_operations_syntax

text \<open>
  Which deployment a conversation belongs to, carried by the id of its thread
  (\<^verbatim>\<open>server/src/channels/thread-identity.ts\<close>): six bytes of a digest of the deployment's name lead a UUID of
  version 8. The digest is a parameter, and so are the random bytes.
\<close>

type_synonym octets = "8 word list"

definition fingerprint_bytes :: nat where
  "fingerprint_bytes = 6"

definition uuid_v8 :: "8 word" where
  "uuid_v8 = 0x80"

definition variant_rfc :: "8 word" where
  "variant_rfc = 0x80"

definition fingerprint_of :: "(string \<Rightarrow> octets) \<Rightarrow> string \<Rightarrow> octets" where
  "fingerprint_of sha256 deployment = take fingerprint_bytes (sha256 deployment)"

definition hex_byte :: "8 word \<Rightarrow> string" where
  "hex_byte b = [hex_digit (unat b div 16), hex_digit (unat b mod 16)]"

definition format_uuid :: "octets \<Rightarrow> string" where
  "format_uuid bs =
     (let hex = concat (map hex_byte bs) in
      join_with ''-'' [take 8 hex, take 4 (drop 8 hex), take 4 (drop 12 hex), take 4 (drop 16 hex), take 12 (drop 20 hex)])"

text \<open>\<^verbatim>\<open>/^[0-9a-f]{8}-[0-9a-f]{4}-[0-9a-f]{4}-[0-9a-f]{4}-[0-9a-f]{12}$/i\<close>.\<close>

definition hex_value :: "char \<Rightarrow> nat option" where
  "hex_value c = (case digit_value c of Some d \<Rightarrow> if d < 16 then Some d else None | None \<Rightarrow> None)"

definition uuid_shape :: "bool list" where
  "uuid_shape = replicate 8 False @ [True] @ replicate 4 False @ [True] @ replicate 4 False @ [True] @ replicate 4 False @ [True]
     @ replicate 12 False"

lemma uuid_shape_eq:
  "uuid_shape = [False, False, False, False, False, False, False, False, True, False, False, False, False, True, False, False, False, False, True,
     False, False, False, False, True, False, False, False, False, False, False, False, False, False, False, False, False]"
  by code_simp

definition is_uuid :: "string \<Rightarrow> bool" where
  "is_uuid s \<longleftrightarrow> list_all2 (\<lambda>dash c. if dash then c = CHR ''-'' else hex_value c \<noteq> None) uuid_shape s"

fun bytes_of_hex :: "string \<Rightarrow> octets" where
  "bytes_of_hex (h # l # cs) = word_of_nat (16 * the (hex_value h) + the (hex_value l)) # bytes_of_hex cs"
| "bytes_of_hex cs = []"

definition bytes_of :: "string \<Rightarrow> octets option" where
  "bytes_of s = (if is_uuid s then Some (bytes_of_hex (filter (\<lambda>c. c \<noteq> CHR ''-'') s)) else None)"

definition minted_bytes :: "octets \<Rightarrow> octets \<Rightarrow> octets" where
  "minted_bytes fingerprint random =
     (let bs = fingerprint @ drop (length fingerprint) random;
          bs = bs[6 := (bs ! 6 AND 0x0f) OR uuid_v8] in
      bs[8 := (bs ! 8 AND 0x3f) OR variant_rfc])"

definition mint :: "octets \<Rightarrow> octets \<Rightarrow> string" where
  "mint fingerprint random = format_uuid (minted_bytes fingerprint random)"

definition owns :: "octets \<Rightarrow> string \<Rightarrow> bool" where
  "owns fingerprint thread =
     (case bytes_of thread of
        None \<Rightarrow> False
      | Some bs \<Rightarrow> bs ! 6 AND 0xf0 = uuid_v8 \<and> take fingerprint_bytes bs = fingerprint)"

section \<open>Written and read back\<close>

lemma hex_value_digit [simp]: "d < 16 \<Longrightarrow> hex_value (hex_digit d) = Some d"
  by (simp add: hex_value_def hex_digit_def digit_value_def Let_def)

lemma hex_digit_not_dash [simp]: "d < 16 \<Longrightarrow> hex_digit d \<noteq> CHR ''-''"
proof
  assume "d < 16" "hex_digit d = CHR ''-''"
  then have "hex_value (CHR ''-'') = Some d" using hex_value_digit by metis
  moreover have "hex_value (CHR ''-'') = None" by code_simp
  ultimately show False by simp
qed

lemma byte_less: "unat (b :: 8 word) < 256"
proof -
  have "(unsigned b :: nat) < 2 ^ LENGTH(8)" by (rule unsigned_less)
  then show ?thesis by simp
qed

lemma byte_digits [simp]: "unat (b :: 8 word) div 16 < 16" "unat (b :: 8 word) mod 16 < 16"
  using byte_less [of b] by simp_all

lemma byte_back [simp]: "word_of_nat (16 * (unat b div 16) + unat b mod 16) = (b :: 8 word)"
  by simp

lemma length_16:
  assumes "length bs = 16"
  obtains b0 b1 b2 b3 b4 b5 b6 b7 b8 b9 b10 b11 b12 b13 b14 b15 where
    "bs = [b0, b1, b2, b3, b4, b5, b6, b7, b8, b9, b10, b11, b12, b13, b14, b15]"
proof -
  have "[0..<16] = [0, 1, 2, 3, 4, 5, 6, 7, 8, 9, 10, 11, 12, 13, 14, 15 :: nat]" by code_simp
  moreover have "bs = map ((!) bs) [0..<16]" using map_nth [of bs] by (simp only: assms)
  ultimately have "bs = map ((!) bs) [0, 1, 2, 3, 4, 5, 6, 7, 8, 9, 10, 11, 12, 13, 14, 15]" by simp
  then show thesis unfolding list.map by (rule that)
qed

lemma bytes_of_format: "length bs = 16 \<Longrightarrow> bytes_of (format_uuid bs) = Some bs"
  by (erule length_16) (simp add: bytes_of_def is_uuid_def uuid_shape_eq format_uuid_def hex_byte_def)

lemma minted_length: "length fp = 6 \<Longrightarrow> length r = 16 \<Longrightarrow> length (minted_bytes fp r) = 16"
  by (simp add: minted_bytes_def Let_def)

lemma minted_version: "length fp = 6 \<Longrightarrow> length r = 16 \<Longrightarrow> minted_bytes fp r ! 6 AND 0xf0 = uuid_v8"
proof -
  have "\<forall>n \<in> set [0..<256]. ((word_of_nat n :: 8 word) AND 0x0f OR 0x80) AND 0xf0 = 0x80" by code_simp
  moreover have "unat b \<in> set [0..<256]" for b :: "8 word" using byte_less [of b] by simp
  ultimately have "((b :: 8 word) AND 0x0f OR 0x80) AND 0xf0 = 0x80" for b by (metis of_nat_unat ucast_id)
  then show "length fp = 6 \<Longrightarrow> length r = 16 \<Longrightarrow> minted_bytes fp r ! 6 AND 0xf0 = uuid_v8"
    by (simp add: minted_bytes_def Let_def uuid_v8_def)
qed

lemma minted_fingerprint: "length fp = 6 \<Longrightarrow> length r = 16 \<Longrightarrow> take fingerprint_bytes (minted_bytes fp r) = fp"
  by (simp add: minted_bytes_def Let_def fingerprint_bytes_def)

text \<open>C0: a thread belongs to the deployment that minted it and to no other. Of the ids one deployment mints, whatever the
  random bytes, another owns them exactly when its fingerprint is the same; and from the id the bytes can be
  read back, so nothing of them is lost.\<close>

theorem threads_are_owned_by_their_deployment:
  "length (fingerprint_of sha256 d) = fingerprint_bytes \<Longrightarrow> length random = 16 \<Longrightarrow>
     owns (fingerprint_of sha256 d') (mint (fingerprint_of sha256 d) random) = (fingerprint_of sha256 d' = fingerprint_of sha256 d)
     \<and> bytes_of (mint (fingerprint_of sha256 d) random) = Some (minted_bytes (fingerprint_of sha256 d) random)"
  using minted_version [of "fingerprint_of sha256 d" random] minted_fingerprint [of "fingerprint_of sha256 d" random]
  by (auto simp: owns_def mint_def bytes_of_format minted_length fingerprint_bytes_def)

theorem threads_are_owned_by_their_deployment_witness:
  "owns (fingerprint_of (\<lambda>d. replicate 32 0) ''b'') (mint (fingerprint_of (\<lambda>d. replicate 32 0) ''a'') (replicate 16 0xff))
     = (fingerprint_of (\<lambda>d. replicate 32 (0 :: 8 word)) ''b'' = fingerprint_of (\<lambda>d. replicate 32 0) ''a'')"
  using threads_are_owned_by_their_deployment [of "\<lambda>d. replicate 32 0" "''a''" "replicate 16 0xff" "''b''"]
  by (simp add: fingerprint_of_def fingerprint_bytes_def)

text \<open>C0: what is not an id of this kind is owned by nobody: an id of another version, as those minted before a deployment had
  a name are.\<close>

theorem other_versions_are_owned_by_nobody:
  "length bs = 16 \<Longrightarrow> bs ! 6 AND 0xf0 \<noteq> uuid_v8 \<Longrightarrow> \<not> owns fp (format_uuid bs)"
  by (simp add: owns_def bytes_of_format)

theorem other_versions_are_owned_by_nobody_witness:
  "\<not> owns (replicate 6 0x44) (format_uuid (replicate 16 0x44))"
  by (rule other_versions_are_owned_by_nobody) (simp_all add: uuid_v8_def)

end
