(* ===== verification/Spec2Isabelle.thy ===== *)
theory Spec2Isabelle
  imports Gateway_Secrets Workspace Control Aria Shell Stall_Guard Bundle Slice Profiles
    Triggers Signed Routing Threads Mesh Vault Roles Plugin_People Copilot People
    Policy_Store Retention Providers Artifacts
    Settings Tenant Tenant_Sync
    Components Component_Routes Component_Facts
    Computer_Providers
    Computer_Routes
    Computer_Route_Facts
    Thread_Identity
begin

text \<open>
  Cadre runs AI coworkers (Bots) that act through a computer of their own: a container with a browser,
  a shell and a workspace. This development models the parts that decide what a Bot may do, carry it
  out and keep the record, as they are written in TypeScript.

  The program. The server (\<^verbatim>\<open>server/src\<close>) holds the channels people and Bots talk in. A Bot's request
  for an action reaches the gateway, which resolves what it names against the last snapshot of the
  page, asks the policy, writes the decision to the audit trail and only then calls the computer over
  HTTP. The computer (\<^verbatim>\<open>agent-computer/src\<close>) drives the browser, keeps the Bot's files, runs its commands
  and lets a person take the wheel. The supervisor (\<^verbatim>\<open>supervisor/src\<close>) makes, stops, resets and moves the
  containers, within the share of the machine its owner set aside. A turn of a Bot that goes quiet is
  ended by the server.

  The theories, each with the sources it translates:

    \<^item> \<open>Prelude\<close>: JavaScript strings, trimming, splitting, truthiness and JSON values, with their lemmas.
    \<^item> \<open>Policy\<close> (\<^verbatim>\<open>server/src/computer/policy.ts\<close>): deny rules, allow rules and the default, in the two
      modes, with the log of broken rules.
    \<^item> \<open>Target\<close> (\<^verbatim>\<open>target.ts\<close>): which addresses a browser may open and which may be called as a computer,
      with the canonical form of a host, embedded IPv4 addresses and the expansion of IPv6.
    \<^item> \<open>Snapshots\<close> (\<^verbatim>\<open>snapshot-store.ts\<close>): the two stores of the last snapshot, in memory and in a table,
      both instances of the locale \<open>snapshot_store\<close>.
    \<^item> \<open>Audit_Trail\<close> (\<^verbatim>\<open>server/src/audit.ts\<close>): redaction, recording, and reading by pages.
    \<^item> \<open>Effects\<close>, \<open>Transport\<close> (\<^verbatim>\<open>client.ts\<close>): state passing with a trace of everything that leaves the
      process, and the HTTP client with its mapping of error answers.
    \<^item> \<open>Gateway\<close>, \<open>Gateway_Facts\<close>, \<open>Gateway_Secrets\<close> (\<^verbatim>\<open>gateway.ts\<close>): every operation of the gateway;
      the order of deciding, recording and acting; and where a secret of the vault can be seen.
    \<^item> \<open>Workspace\<close> (\<^verbatim>\<open>agent-computer/src/workspace.ts\<close>): a file system with symbolic links, the resolution
      of a requested path, and list, read and write.
    \<^item> \<open>Control\<close> (\<^verbatim>\<open>control.ts\<close>): who has the wheel, requests for help and for a secret, and their expiry.
    \<^item> \<open>Aria\<close> (\<^verbatim>\<open>aria-snapshot.ts\<close>): the scanner of a descriptor and the bounded walk over a page.
    \<^item> \<open>Shell\<close> (\<^verbatim>\<open>shell.ts\<close>): what a command sees of the environment, its time limit and its output.
    \<^item> \<open>Turn_Watch\<close>, \<open>Stall_Guard\<close> (\<^verbatim>\<open>server/src/channels/turn-watchdog.ts\<close>, \<^verbatim>\<open>stall-guard.ts\<close>): the watch
      on silence, and the relay that ends a silent turn. What the watch calls when a stream has stalled
      is the locale \<open>stall_callback\<close>, interpreted by the guard's \<open>give_up\<close>.
    \<^item> \<open>Bundle\<close> (\<^verbatim>\<open>supervisor/src/bundle.ts\<close>, \<^verbatim>\<open>transfer.ts\<close>): the ustar writer and reader, and moving a
      computer's contents to another.
    \<^item> \<open>Names\<close> (\<^verbatim>\<open>names.ts\<close>, \<^verbatim>\<open>agent-computer/src/bot-id.ts\<close>, \<^verbatim>\<open>authorisation.ts\<close>): Bot ids, what is named
      after them, and the check of a token.
    \<^item> \<open>Slice\<close> (\<^verbatim>\<open>slice.ts\<close> and the admission in \<^verbatim>\<open>index.ts\<close>): the budget and who is admitted to it.
    \<^item> \<open>Profiles\<close> (\<^verbatim>\<open>agent-computer/src/profiles.ts\<close>, \<^verbatim>\<open>browser-eviction.ts\<close>): the pool of running browsers
      as the steps between its waits: launches, deaths, the cap and the sweep of idle ones.
    \<^item> \<open>Cron\<close>, \<open>Triggers\<close> (\<^verbatim>\<open>server/src/triggers\<close>): the expressions of a schedule; the rows of triggers, a
      firing as the steps between its waits, the loop of tool calls, and the reading of an event stream.
    \<^item> \<open>Threads\<close> (\<^verbatim>\<open>server/src/runtime/postgres-runner.ts\<close>): loading a thread, its runs and their events, what
      is kept in the rows, connecting and stopping.
    \<^item> \<open>Selection\<close>, \<open>Routing\<close> (\<^verbatim>\<open>plugins/selection.ts\<close>, \<^verbatim>\<open>routing/classify.ts\<close>): which of the granted tools
      are offered for a message, and which coworker gets it.
    \<^item> \<open>Signed\<close> (\<^verbatim>\<open>auth/signed-value.ts\<close>, \<^verbatim>\<open>agents/callback-token.ts\<close>, \<^verbatim>\<open>plugins/oauth.ts\<close>): signed values, the
      assertion a run carries and the state of a connect flow.
    \<^item> \<open>Roles\<close> (\<^verbatim>\<open>auth/roles.ts\<close>, \<^verbatim>\<open>guards.ts\<close>): roles and who is required to hold one.
    \<^item> \<open>Credentials\<close>, \<open>Totp\<close>, \<open>Vault\<close> (\<^verbatim>\<open>credentials.ts\<close>, \<^verbatim>\<open>connections/totp.ts\<close>, \<^verbatim>\<open>store.ts\<close>, \<^verbatim>\<open>onepassword.ts\<close>):
      secrets at rest, one-time codes with their 32-bit arithmetic, and the vault of connections.
    \<^item> \<open>Egress\<close> (\<^verbatim>\<open>connections/egress-rules.ts\<close>, \<^verbatim>\<open>egress/routes.ts\<close>, \<^verbatim>\<open>agent-computer/src/egress.ts\<close>): the two
      proxies that add a secret to a request of a computer, and the proxy setting of a computer.
    \<^item> \<open>Mesh\<close> (\<^verbatim>\<open>server/src/mesh/store.ts\<close>, \<^verbatim>\<open>provider.ts\<close>): enrolled machines, where a Bot's computer is placed,
      and moving it.
    \<^item> \<open>Catalogue\<close>, \<open>Plugins\<close>, \<open>Plugin_Calls\<close> (\<^verbatim>\<open>server/src/plugins/catalogue.ts\<close>, \<^verbatim>\<open>transport.ts\<close>, \<^verbatim>\<open>store.ts\<close>,
      \<^verbatim>\<open>tools.ts\<close>): which servers may be added, the tables of the plugin store with its servers, skills and
      grants, the accounts people connect, and the call of a tool. \<open>Plugin_Facts\<close>, \<open>Plugin_Accounts\<close> and
      \<open>Plugin_People\<close> hold what is proved of them, by the locale \<open>kept\<close> of relations that operations keep;
      the last one also has the checks of \<^verbatim>\<open>plugins/routes.ts\<close>.
    \<^item> \<open>Vendors\<close> (\<^verbatim>\<open>plugins/mcp.ts\<close>, \<^verbatim>\<open>google-drive-rest.ts\<close>, \<^verbatim>\<open>tools.ts\<close>): the two protocols a tool is reached by,
      what a model is told a tool returned, and the paragraph that lists a Bot's tools.
    \<^item> \<open>Agents\<close> (\<^verbatim>\<open>server/src/agents\<close>): the profiles of coworkers with who may see and change them, the key a
      customer's agent sits behind, the token it calls back with, and the test of a connection.
    \<^item> \<open>Bot_Prompt\<close> (\<^verbatim>\<open>shared/bot-prompt.ts\<close>), \<open>Copilot\<close> (\<^verbatim>\<open>agents/runtime-agents.ts\<close>, \<^verbatim>\<open>copilot.ts\<close>): what every
      Bot is told, which coworkers a person may run, and what a run is offered, told and sent with.
    \<^item> \<open>People\<close> (\<^verbatim>\<open>people/store.ts\<close>): the listing of people with its cursor and its search, and removal.
    \<^item> \<open>Policy_Store\<close> (\<^verbatim>\<open>computer/policy-store.ts\<close>, \<^verbatim>\<open>policy-listener.ts\<close>): the saved policy, its copy in each of many
      servers, and the announcements they read it again on.
    \<^item> \<open>Retention\<close> (\<^verbatim>\<open>audit-retention.ts\<close>): the sweep of the audit trail.
    \<^item> \<open>Providers\<close> (\<^verbatim>\<open>providers\<close>), \<open>Artifacts\<close> (\<^verbatim>\<open>artifacts\<close>): where a coworker's model lives, and the versioned
      texts it carries.
    \<^item> \<open>Settings\<close> (\<^verbatim>\<open>config.ts\<close>, \<^verbatim>\<open>auth/dev-actor.ts\<close>): the configuration a server starts with and
      where it listens.
    \<^item> \<open>Tenant\<close>, \<open>Tenant_Sync\<close> (\<^verbatim>\<open>tenant-package.ts\<close>): the package of a deployment, and what a start makes of
      the tables.
    \<^item> \<open>Js_Number\<close>, \<open>Codec\<close>: numbers, UTF-8, base64 and JSON text of the language, shared by the others.
\<close>

text \<open>
  State and effects. A class or closure with state is a record, each operation a function to the new
  record. Handlers of the gateway are written in the monad of \<open>Effects\<close>: an error or a value, with the
  world. What the code calls and cannot be read here is a parameter: the URL parser, the evaluator of
  CEL rules, the network, the vault, the audit table and the provider of computers (functions of the
  trace so far, so that answers may depend on all that happened), the YAML and JSON parsers, the
  decoder of UTF-8, the order a directory is read in, and a command run in a container. Strings are lists of code
  units 0 to 255; times are integers in milliseconds, and the clock is an argument of what reads it.

  What the groups of lemmas show. Every governed action is decided and recorded before it is sent; a
  refused one, or one that cites an element that is not on the page, sends nothing; a failed one leaves
  a row. Redaction and the vault are stated as non-interference: what is hidden can change without
  anything that is kept changing. A navigation that is let through goes to a public host however the
  host was written. A write or a read ends inside the real workspace whatever links there are. The two
  stores, the two checks of a Bot id, the control state and its history, the policy and its
  specification, and the history of a thread and its rows are related by refinement. A stream is ended
  once and a silent one is ended; the slice is not overdrawn while requests come one at a time. Of the
  operations that wait (\<open>Profiles\<close>, \<open>Triggers\<close>, \<open>Threads\<close>) every step between two waits is a function
  and the invariants hold of every sequence of steps: the cap on browsers, one launch of a Bot, one
  firing of a trigger, one turn of a thread. A secret of the vault is never held with an address it was
  not entered with, and \<open>Vault\<close> joins this with \<open>Egress\<close>: what the proxy sends carries the secret only to
  that address. A call of a tool runs on the account of whoever asked or on none, leaves one row of the
  trail that says what happened, and reaches nothing of a person who was removed. A coworker is
  changed only by who manages it, a key that was replaced or deleted is sent nowhere, and \<open>Copilot\<close> joins
  \<open>Agents\<close> with \<open>Plugins\<close>: a run is offered only tools that were granted. A package that is
  accepted holds together, and starting with it takes nothing away from what people wrote; a server
  without sign-in stays on its own machine. A few closed lemmas show inputs on which the code does not do what it means to; they
  are named in the text before them.

  Bounds. The walk of a path by the kernel follows forty links; \<open>write_destination\<close> follows
  thirty-two, as the code does, and its fuel is that counter. \<open>unpack_loop\<close> has fuel because the loop
  of the code need not end: one step for each block is enough for every archive the writer makes, and
  a hostile archive is shown to use up any fuel. All other recursion ends by a measure. Cores of the slice
  are rationals where the code has doubles.

  Not modelled: the user interface, routes and wiring, database migrations and SQL below the
  conditions of a query, the browser driver, the process of a command and its signals, the container
  backends, and the Bots themselves. Ciphers, hashes, the language models and the programs that are
  called are parameters. Still to come: the harness, and the pure
  parts of the application (message repair, composer drafts and queues).
\<close>

end
